(* ===== verification/Prelude.thy ===== *)
theory Prelude
  imports Main "HOL-Library.Sublist" "HOL-Library.Char_ord" "HOL-Library.List_Lexorder"
begin

text \<open>
  Shared vocabulary of the development: the transaction monad in which the repository
  methods are written, its reasoning rules, SQL-like operations on tables represented as
  lists of rows, and the few string functions of Go's standard library the sources use.

  A transaction \<open>('s, 'e, 'a) tx\<close> maps the database state either to an error
  (\<open>Inl\<close>) or to a result and a new state (\<open>Inr\<close>). Errors carry no state: a Go method
  that returns an error runs its deferred \<open>tx.Rollback()\<close>, so nothing it wrote survives;
  \<open>atomicT\<close> is that boundary.
\<close>

section \<open>Transactions\<close>

type_synonym ('s, 'e, 'a) tx = "'s \<Rightarrow> 'e + ('a \<times> 's)"

definition returnT :: "'a \<Rightarrow> ('s, 'e, 'a) tx" where
  "returnT a = (\<lambda>s. Inr (a, s))"

definition throwT :: "'e \<Rightarrow> ('s, 'e, 'a) tx" where
  "throwT e = (\<lambda>s. Inl e)"

definition bindT :: "('s, 'e, 'a) tx \<Rightarrow> ('a \<Rightarrow> ('s, 'e, 'b) tx) \<Rightarrow> ('s, 'e, 'b) tx" where
  "bindT m f = (\<lambda>s. case m s of Inl e \<Rightarrow> Inl e | Inr (a, s') \<Rightarrow> f a s')"

definition thenT :: "('s, 'e, unit) tx \<Rightarrow> ('s, 'e, 'b) tx \<Rightarrow> ('s, 'e, 'b) tx" where
  "thenT m n = bindT m (\<lambda>_. n)"

text \<open>A query reads the state, an update replaces it.\<close>

definition queryT :: "('s \<Rightarrow> 'a) \<Rightarrow> ('s, 'e, 'a) tx" where
  "queryT f = (\<lambda>s. Inr (f s, s))"

definition modifyT :: "('s \<Rightarrow> 's) \<Rightarrow> ('s, 'e, unit) tx" where
  "modifyT f = (\<lambda>s. Inr ((), f s))"

text \<open>\<open>refuseT b e\<close> is Go's \<open>if b { return err }\<close>.\<close>

definition refuseT :: "bool \<Rightarrow> 'e \<Rightarrow> ('s, 'e, unit) tx" where
  "refuseT b e = (if b then throwT e else returnT ())"

definition whenT :: "bool \<Rightarrow> ('s, 'e, unit) tx \<Rightarrow> ('s, 'e, unit) tx" where
  "whenT b m = (if b then m else returnT ())"

text \<open>\<open>someT e x\<close> is a scan that maps \<open>sql.ErrNoRows\<close> to the error \<open>e\<close>.\<close>

definition someT :: "'e \<Rightarrow> 'a option \<Rightarrow> ('s, 'e, 'a) tx" where
  "someT e x = (case x of None \<Rightarrow> throwT e | Some a \<Rightarrow> returnT a)"

text \<open>\<open>for _, x := range xs { if err := f(x); err != nil { return err } }\<close>\<close>

primrec forT :: "('x \<Rightarrow> ('s, 'e, unit) tx) \<Rightarrow> 'x list \<Rightarrow> ('s, 'e, unit) tx" where
  "forT f [] = returnT ()"
| "forT f (x # xs) = thenT (f x) (forT f xs)"

text \<open>The same loop collecting one result per element.\<close>

primrec mapT :: "('x \<Rightarrow> ('s, 'e, 'y) tx) \<Rightarrow> 'x list \<Rightarrow> ('s, 'e, 'y list) tx" where
  "mapT f [] = returnT []"
| "mapT f (x # xs) = bindT (f x) (\<lambda>y. bindT (mapT f xs) (\<lambda>ys. returnT (y # ys)))"

text \<open>
  \<open>BeginTx\<close> with the deferred \<open>Rollback\<close> and the final \<open>Commit\<close>: an error leaves the
  database as it was.
\<close>

definition atomicT :: "('s, 'e, 'a) tx \<Rightarrow> 's \<Rightarrow> ('e + 'a) \<times> 's" where
  "atomicT m s = (case m s of Inl e \<Rightarrow> (Inl e, s) | Inr (a, s') \<Rightarrow> (Inr a, s'))"

text \<open>A loop that threads an accumulator.\<close>

primrec foldT :: "('x \<Rightarrow> 'a \<Rightarrow> ('s, 'e, 'a) tx) \<Rightarrow> 'x list \<Rightarrow> 'a \<Rightarrow> ('s, 'e, 'a) tx" where
  "foldT f [] a = returnT a"
| "foldT f (x # xs) a = bindT (f x a) (foldT f xs)"

text \<open>A fallible pure computation (\<open>Inl\<close> the error) inside a transaction.\<close>

definition liftT :: "'e + 'a \<Rightarrow> ('s, 'e, 'a) tx" where
  "liftT x = (\<lambda>s. case x of Inl e \<Rightarrow> Inl e | Inr a \<Rightarrow> Inr (a, s))"

named_theorems tx_simps "inversion of successful transactions"

lemma returnT_Inr [tx_simps]: "returnT a s = Inr (b, t) \<longleftrightarrow> b = a \<and> t = s"
  by (auto simp: returnT_def)

lemma throwT_Inr [tx_simps]: "throwT e s = Inr x \<longleftrightarrow> False"
  by (simp add: throwT_def)

lemma bindT_Inr [tx_simps]:
  "bindT m f s = Inr (b, t) \<longleftrightarrow> (\<exists>a u. m s = Inr (a, u) \<and> f a u = Inr (b, t))"
  by (auto simp: bindT_def split: sum.splits prod.splits)

lemma thenT_Inr [tx_simps]:
  "thenT m n s = Inr (b, t) \<longleftrightarrow> (\<exists>u. m s = Inr ((), u) \<and> n u = Inr (b, t))"
  by (simp add: thenT_def bindT_Inr)

lemma queryT_Inr [tx_simps]: "queryT f s = Inr (b, t) \<longleftrightarrow> b = f s \<and> t = s"
  by (auto simp: queryT_def)

lemma modifyT_Inr [tx_simps]: "modifyT f s = Inr (b, t) \<longleftrightarrow> t = f s"
  by (auto simp: modifyT_def)

lemma refuseT_Inr [tx_simps]: "refuseT b e s = Inr (c, t) \<longleftrightarrow> \<not> b \<and> t = s"
  by (auto simp: refuseT_def returnT_def throwT_def)

lemma whenT_Inr [tx_simps]:
  "whenT b m s = Inr (c, t) \<longleftrightarrow> (if b then m s = Inr (c, t) else t = s)"
  by (auto simp: whenT_def returnT_def)

lemma someT_Inr [tx_simps]: "someT e x s = Inr (a, t) \<longleftrightarrow> x = Some a \<and> t = s"
  by (auto simp: someT_def returnT_def throwT_def split: option.splits)

lemma liftT_Inr [tx_simps]: "liftT x s = Inr (a, t) \<longleftrightarrow> x = Inr a \<and> t = s"
  by (auto simp: liftT_def split: sum.splits)

lemma atomicT_Inr [tx_simps]: "atomicT m s = (Inr a, t) \<longleftrightarrow> m s = Inr (a, t)"
  by (auto simp: atomicT_def split: sum.splits prod.splits)

lemma atomicT_Inl: "atomicT m s = (Inl e, t) \<longleftrightarrow> m s = Inl e \<and> t = s"
  by (auto simp: atomicT_def split: sum.splits prod.splits)

lemma tx_runs: "\<not> isl (m s) \<Longrightarrow> \<exists>a t. m s = Inr (a, t)"
  by (cases "m s") auto

lemma bindT_Inl:
  "bindT m f s = Inl e \<longleftrightarrow> m s = Inl e \<or> (\<exists>a u. m s = Inr (a, u) \<and> f a u = Inl e)"
  by (auto simp: bindT_def split: sum.splits prod.splits)

text \<open>Rewriting a transaction on a known prefix.\<close>

lemma bindT_step: "m s = Inr (a, u) \<Longrightarrow> bindT m f s = f a u"
  by (simp add: bindT_def)

lemma bindT_stop: "m s = Inl e \<Longrightarrow> bindT m f s = Inl e"
  by (simp add: bindT_def)

lemma thenT_step: "m s = Inr ((), u) \<Longrightarrow> thenT m n s = n u"
  by (simp add: thenT_def bindT_def)

lemma thenT_stop: "m s = Inl e \<Longrightarrow> thenT m n s = Inl e"
  by (simp add: thenT_def bindT_def)

text \<open>
  Evaluation of a transaction's prefix: each statement turns into what it does to the
  state, so that a run becomes a nest of conditionals over explicit states.
\<close>

named_theorems tx_eval "evaluation of transactions"

lemma eval_plain [tx_eval]:
  "returnT a s = Inr (a, s)" "throwT e s = Inl e" "queryT f s = Inr (f s, s)" "modifyT g s = Inr ((), g s)"
  "refuseT b e s = (if b then Inl e else Inr ((), s))" "whenT b m s = (if b then m s else Inr ((), s))"
  "someT e x s = (case x of None \<Rightarrow> Inl e | Some a \<Rightarrow> Inr (a, s))"
  "liftT y s = (case y of Inl e \<Rightarrow> Inl e | Inr a \<Rightarrow> Inr (a, s))"
  by (simp_all add: returnT_def throwT_def queryT_def modifyT_def refuseT_def whenT_def someT_def liftT_def
      split: option.splits sum.splits)

lemma eval_bind [tx_eval]:
  "bindT (returnT a) f s = f a s" "bindT (throwT e) f s = Inl e" "bindT (queryT g) f s = f (g s) s"
  "bindT (someT e x) f s = (case x of None \<Rightarrow> Inl e | Some a \<Rightarrow> f a s)"
  "bindT (liftT y) f s = (case y of Inl e \<Rightarrow> Inl e | Inr a \<Rightarrow> f a s)"
  "bindT (bindT m h) f s = bindT m (\<lambda>a. bindT (h a) f) s" "bindT (thenT n m) f s = thenT n (bindT m f) s"
  "bindT (if b then m else m') f s = (if b then bindT m f s else bindT m' f s)"
  by (auto simp: bindT_def thenT_def returnT_def throwT_def queryT_def someT_def liftT_def
      split: option.splits sum.splits prod.splits)

lemma eval_then [tx_eval]:
  "thenT (returnT u) m s = m s" "thenT (refuseT b e) m s = (if b then Inl e else m s)"
  "thenT (modifyT g) m s = m (g s)" "thenT (whenT b n) m s = (if b then thenT n m s else m s)"
  "thenT (bindT n h) m s = bindT n (\<lambda>a. thenT (h a) m) s" "thenT (thenT n n') m s = thenT n (thenT n' m) s"
  "thenT (throwT e) m s = Inl e"
  "thenT (case x of None \<Rightarrow> k | Some y \<Rightarrow> h y) m s = (case x of None \<Rightarrow> thenT k m s | Some y \<Rightarrow> thenT (h y) m s)"
  by (auto simp: bindT_def thenT_def returnT_def throwT_def modifyT_def refuseT_def whenT_def
      split: option.splits sum.splits prod.splits)

text \<open>Evaluation equations, for running a transaction on a concrete state.\<close>

lemmas tx_defs = returnT_def throwT_def bindT_def thenT_def queryT_def modifyT_def
  refuseT_def whenT_def someT_def liftT_def atomicT_def

subsection \<open>Frames: what a transaction may change\<close>

text \<open>
  \<open>steps R m\<close>: whenever \<open>m\<close> succeeds, the state it leaves is related by \<open>R\<close> to the one it
  started from. For a reflexive and transitive \<open>R\<close> (an append-only log, an unchanged
  table, an untouched tenant) the property is compositional, and the rules below prove it
  for a whole method from the rules for its statements.
\<close>

definition steps :: "('s \<Rightarrow> 's \<Rightarrow> bool) \<Rightarrow> ('s, 'e, 'a) tx \<Rightarrow> bool" where
  "steps R m \<longleftrightarrow> (\<forall>s a t. m s = Inr (a, t) \<longrightarrow> R s t)"

lemma stepsI: "(\<And>s a t. m s = Inr (a, t) \<Longrightarrow> R s t) \<Longrightarrow> steps R m"
  by (auto simp: steps_def)

lemma stepsD: "steps R m \<Longrightarrow> m s = Inr (a, t) \<Longrightarrow> R s t"
  by (auto simp: steps_def)

lemma steps_conj: "steps (\<lambda>s t. P s t \<and> Q s t) m \<longleftrightarrow> steps P m \<and> steps Q m"
  by (auto simp: steps_def)

lemma steps_mono: "steps R m \<Longrightarrow> (\<And>s t. R s t \<Longrightarrow> Q s t) \<Longrightarrow> steps Q m"
  by (auto simp: steps_def)

locale tx_frame =
  fixes R :: "'s \<Rightarrow> 's \<Rightarrow> bool"
  assumes frame_refl: "R s s"
    and frame_trans: "R s t \<Longrightarrow> R t u \<Longrightarrow> R s u"
begin

lemma steps_return [intro]: "steps R (returnT a)"
  by (auto simp: steps_def tx_simps frame_refl)

lemma steps_throw [intro]: "steps R (throwT e)"
  by (auto simp: steps_def tx_simps)

lemma steps_query [intro]: "steps R (queryT f)"
  by (auto simp: steps_def tx_simps frame_refl)

lemma steps_refuse [intro]: "steps R (refuseT b e)"
  by (auto simp: steps_def tx_simps frame_refl)

lemma steps_some [intro]: "steps R (someT e x)"
  by (auto simp: steps_def tx_simps frame_refl)

lemma steps_modify: "(\<And>s. R s (f s)) \<Longrightarrow> steps R (modifyT f)"
  by (auto simp: steps_def tx_simps)

lemma steps_bind: "steps R m \<Longrightarrow> (\<And>a. steps R (f a)) \<Longrightarrow> steps R (bindT m f)"
  by (fastforce simp: steps_def tx_simps intro: frame_trans)

lemma steps_then: "steps R m \<Longrightarrow> steps R n \<Longrightarrow> steps R (thenT m n)"
  by (simp add: thenT_def steps_bind)

lemma steps_when: "steps R m \<Longrightarrow> steps R (whenT b m)"
  by (auto simp: whenT_def)

lemma steps_if: "steps R m \<Longrightarrow> steps R n \<Longrightarrow> steps R (if b then m else n)"
  by simp

lemma steps_case_option:
  "steps R m \<Longrightarrow> (\<And>x. steps R (f x)) \<Longrightarrow> steps R (case v of None \<Rightarrow> m | Some x \<Rightarrow> f x)"
  by (cases v) simp_all

lemma steps_case_prod: "(\<And>x y. steps R (f x y)) \<Longrightarrow> steps R (case v of (x, y) \<Rightarrow> f x y)"
  by (cases v) simp

lemma steps_case_prod_app: "(\<And>x y. steps R (f x y a)) \<Longrightarrow> steps R ((case v of (x, y) \<Rightarrow> f x y) a)"
  by (cases v) simp

lemma steps_for: "(\<And>x. steps R (f x)) \<Longrightarrow> steps R (forT f xs)"
  by (induction xs) (auto intro: steps_then)

lemma steps_for_mem: "(\<And>x. x \<in> set xs \<Longrightarrow> steps R (f x)) \<Longrightarrow> steps R (forT f xs)"
  by (induction xs) (auto intro: steps_then)

lemma steps_map: "(\<And>x. steps R (f x)) \<Longrightarrow> steps R (mapT f xs)"
  by (induction xs) (auto intro: steps_bind)

lemma steps_fold: "(\<And>x a. steps R (f x a)) \<Longrightarrow> steps R (foldT f xs a)"
  by (induction xs arbitrary: a) (auto intro: steps_bind)

lemma steps_lift: "steps R (liftT x)"
  by (auto simp: steps_def tx_simps frame_refl)

lemmas steps_rules = steps_fold steps_lift steps_return steps_throw steps_query steps_refuse steps_some steps_bind
  steps_then steps_when steps_if steps_case_option steps_case_prod steps_case_prod_app steps_for steps_map

end

text \<open>A transaction that only reads leaves the state as it is.\<close>

interpretation reading: tx_frame "(=)"
  by unfold_locales auto

named_theorems reads "transactions that only read"

lemma readsD: "steps (=) m \<Longrightarrow> m s = Inr (a, t) \<Longrightarrow> t = s"
  by (auto simp: steps_def)

subsection \<open>Errors: what a transaction may return\<close>

text \<open>\<open>raises E m\<close>: every error of \<open>m\<close> is one of \<open>E\<close>.\<close>

definition raises :: "'e set \<Rightarrow> ('s, 'e, 'a) tx \<Rightarrow> bool" where
  "raises E m \<longleftrightarrow> (\<forall>s e. m s = Inl e \<longrightarrow> e \<in> E)"

named_theorems errors "errors a statement may return"

lemma raisesD: "raises E m \<Longrightarrow> m s = Inl e \<Longrightarrow> e \<in> E"
  by (auto simp: raises_def)

lemma raises_return [errors]: "raises E (returnT a)"
  by (simp add: raises_def returnT_def)

lemma raises_throw [errors]: "e \<in> E \<Longrightarrow> raises E (throwT e)"
  by (simp add: raises_def throwT_def)

lemma raises_query [errors]: "raises E (queryT f)"
  by (simp add: raises_def queryT_def)

lemma raises_modify [errors]: "raises E (modifyT f)"
  by (simp add: raises_def modifyT_def)

lemma raises_refuse [errors]: "e \<in> E \<Longrightarrow> raises E (refuseT b e)"
  by (simp add: raises_def refuseT_def returnT_def throwT_def)

lemma raises_some [errors]: "e \<in> E \<Longrightarrow> raises E (someT e x)"
  by (simp add: raises_def someT_def returnT_def throwT_def split: option.splits)

lemma raises_bind [errors]: "raises E m \<Longrightarrow> (\<And>a. raises E (f a)) \<Longrightarrow> raises E (bindT m f)"
  by (auto simp: raises_def bindT_Inl)

lemma raises_then [errors]: "raises E m \<Longrightarrow> raises E n \<Longrightarrow> raises E (thenT m n)"
  by (simp add: thenT_def raises_bind)

lemma raises_when [errors]: "raises E m \<Longrightarrow> raises E (whenT b m)"
  by (simp add: whenT_def raises_return)

lemma raises_if [errors]: "raises E m \<Longrightarrow> raises E n \<Longrightarrow> raises E (if b then m else n)"
  by simp

lemma raises_case_option [errors]:
  "raises E m \<Longrightarrow> (\<And>x. raises E (f x)) \<Longrightarrow> raises E (case v of None \<Rightarrow> m | Some x \<Rightarrow> f x)"
  by (cases v) simp_all

lemma raises_case_prod [errors]: "(\<And>x y. raises E (f x y)) \<Longrightarrow> raises E (case v of (x, y) \<Rightarrow> f x y)"
  by (cases v) simp

lemma raises_case_prod_app [errors]: "(\<And>x y. raises E (f x y a)) \<Longrightarrow> raises E ((case v of (x, y) \<Rightarrow> f x y) a)"
  by (cases v) simp

lemma raises_for [errors]: "(\<And>x. raises E (f x)) \<Longrightarrow> raises E (forT f xs)"
  by (induction xs) (auto intro: errors)

lemma raises_fold [errors]: "(\<And>x a. raises E (f x a)) \<Longrightarrow> raises E (foldT f xs a)"
  by (induction xs arbitrary: a) (auto intro: errors)

lemma raises_lift [errors]: "(\<And>e. x = Inl e \<Longrightarrow> e \<in> E) \<Longrightarrow> raises E (liftT x)"
  by (auto simp: raises_def liftT_def split: sum.splits)

lemma raises_map [errors]: "(\<And>x. raises E (f x)) \<Longrightarrow> raises E (mapT f xs)"
  by (induction xs) (auto intro: errors)

text \<open>
  A loop whose body establishes \<open>Q x\<close> and whose other iterations keep what is
  established: after the loop \<open>Q\<close> holds of every element.
\<close>

lemma forT_establishes:
  assumes "forT f xs s = Inr ((), t)"
    and est: "\<And>x s t. f x s = Inr ((), t) \<Longrightarrow> Q x t"
    and keep: "\<And>x y s t. f y s = Inr ((), t) \<Longrightarrow> Q x s \<Longrightarrow> Q x t"
    and x: "x \<in> set xs"
  shows "Q x t"
  using assms(1) x
proof (induction xs arbitrary: s)
  case Nil
  then show ?case by simp
next
  case (Cons y ys)
  then obtain u where u: "f y s = Inr ((), u)" "forT f ys u = Inr ((), t)"
    by (auto simp: tx_simps)
  have kept: "Q x v \<Longrightarrow> forT f zs v = Inr ((), w) \<Longrightarrow> Q x w" for zs v w
    by (induction zs arbitrary: v) (auto simp: tx_simps dest: keep)
  show ?case
    using Cons.IH [OF u(2)] Cons.prems(2) est [OF u(1)] kept [OF _ u(2)] by auto
qed

section \<open>Tables\<close>

text \<open>
  A table is a list of rows. \<open>updateWhere c f\<close> is \<open>UPDATE ... SET f WHERE c\<close>;
  \<open>affected c f\<close> is what \<open>RowsAffected\<close> reports with the MySQL driver's default
  (rows the statement changed, not rows it matched).
\<close>

definition updateWhere :: "('r \<Rightarrow> bool) \<Rightarrow> ('r \<Rightarrow> 'r) \<Rightarrow> 'r list \<Rightarrow> 'r list" where
  "updateWhere c f rows = map (\<lambda>r. if c r then f r else r) rows"

definition affected :: "('r \<Rightarrow> bool) \<Rightarrow> ('r \<Rightarrow> 'r) \<Rightarrow> 'r list \<Rightarrow> nat" where
  "affected c f rows = length (filter (\<lambda>r. c r \<and> f r \<noteq> r) rows)"

lemma length_updateWhere [simp]: "length (updateWhere c f rows) = length rows"
  by (simp add: updateWhere_def)

lemma updateWhere_Nil [simp]: "updateWhere c f [] = []"
  by (simp add: updateWhere_def)

lemma updateWhere_Cons [simp]:
  "updateWhere c f (r # rows) = (if c r then f r else r) # updateWhere c f rows"
  by (simp add: updateWhere_def)

lemma set_updateWhere: "set (updateWhere c f rows) = (\<lambda>r. if c r then f r else r) ` set rows"
  by (simp add: updateWhere_def)

lemma bex_updateWhere:
  "(\<exists>x \<in> set (updateWhere c f rows). P x) \<longleftrightarrow> (\<exists>x \<in> set rows. P (if c x then f x else x))"
  by (induction rows) auto

lemma ball_updateWhere:
  "(\<forall>x \<in> set (updateWhere c f rows). P x) \<longleftrightarrow> (\<forall>x \<in> set rows. P (if c x then f x else x))"
  by (induction rows) auto

lemma updateWhere_none: "(\<And>r. r \<in> set rows \<Longrightarrow> \<not> c r) \<Longrightarrow> updateWhere c f rows = rows"
  by (induction rows) auto

lemma map_updateWhere_key: "(\<And>r. c r \<Longrightarrow> k (f r) = k r) \<Longrightarrow> map k (updateWhere c f rows) = map k rows"
  by (induction rows) auto

lemma affected_pos:
  "0 < affected c f rows \<longleftrightarrow> (\<exists>r \<in> set rows. c r \<and> f r \<noteq> r)"
  by (auto simp: affected_def filter_empty_conv)

lemma updateWhere_memE:
  assumes "x \<in> set (updateWhere c f rows)"
  obtains y where "y \<in> set rows" and "c y" and "x = f y" | "x \<in> set rows" and "\<not> c x"
  using assms by (auto simp: set_updateWhere split: if_splits)

lemma updateWhere_keepI: "y \<in> set rows \<Longrightarrow> \<not> c y \<Longrightarrow> y \<in> set (updateWhere c f rows)"
  by (force simp: set_updateWhere)

lemma updateWhere_imageI: "y \<in> set rows \<Longrightarrow> c y \<Longrightarrow> f y \<in> set (updateWhere c f rows)"
  by (force simp: set_updateWhere)

lemma filter_updateWhere_out:
  "(\<And>x. c x \<Longrightarrow> \<not> P (f x)) \<Longrightarrow> filter P (updateWhere c f rows) = filter (\<lambda>x. P x \<and> \<not> c x) rows"
  by (induction rows) auto

lemma filter_updateWhere_same:
  "(\<And>x. c x \<Longrightarrow> \<not> P x \<and> \<not> P (f x)) \<Longrightarrow> filter P (updateWhere c f rows) = filter P rows"
  by (induction rows) auto

lemma image_filter_key: "k ` set (filter (\<lambda>e. k e \<noteq> v) xs) = k ` set xs - {v}"
  by auto

text \<open>Looking a row up by its primary key.\<close>

definition lookupBy :: "('r \<Rightarrow> 'k) \<Rightarrow> 'k \<Rightarrow> 'r list \<Rightarrow> 'r option" where
  "lookupBy k x rows = find (\<lambda>r. k r = x) rows"

lemma lookupBy_Some: "lookupBy k x rows = Some r \<Longrightarrow> r \<in> set rows \<and> k r = x"
  by (auto simp: lookupBy_def find_Some_iff)

lemma lookupBy_unique:
  "distinct (map k rows) \<Longrightarrow> r \<in> set rows \<Longrightarrow> lookupBy k (k r) rows = Some r"
  by (induction rows) (auto simp: lookupBy_def)

lemma lookupBy_updateWhere:
  assumes "\<And>r. c r \<Longrightarrow> k (f r) = k r"
  shows "lookupBy k x (updateWhere c f rows) = map_option (\<lambda>r. if c r then f r else r) (lookupBy k x rows)"
  using assms by (induction rows) (auto simp: lookupBy_def)

lemma distinct_key_eq:
  "distinct (map k rows) \<Longrightarrow> r \<in> set rows \<Longrightarrow> r' \<in> set rows \<Longrightarrow> k r = k r' \<Longrightarrow> r = r'"
  by (auto simp: distinct_map inj_on_def)

lemma find_Some_mem: "find P xs = Some x \<Longrightarrow> x \<in> set xs \<and> P x"
  by (auto simp: find_Some_iff)

section \<open>Strings\<close>

text \<open>
  Go strings are byte sequences, here \<open>char list\<close>. The white space of
  \<open>unicode.IsSpace\<close>, as UTF-8 byte sequences, is what \<open>strings.TrimSpace\<close> removes.
\<close>

definition spaceRunes :: "string list" where
  "spaceRunes = [[CHR 0x09], [CHR 0x0A], [CHR 0x0B], [CHR 0x0C], [CHR 0x0D], [CHR 0x20],
     [CHR 0xC2, CHR 0x85], [CHR 0xC2, CHR 0xA0], [CHR 0xE1, CHR 0x9A, CHR 0x80],
     [CHR 0xE2, CHR 0x80, CHR 0x80], [CHR 0xE2, CHR 0x80, CHR 0x81], [CHR 0xE2, CHR 0x80, CHR 0x82],
     [CHR 0xE2, CHR 0x80, CHR 0x83], [CHR 0xE2, CHR 0x80, CHR 0x84], [CHR 0xE2, CHR 0x80, CHR 0x85],
     [CHR 0xE2, CHR 0x80, CHR 0x86], [CHR 0xE2, CHR 0x80, CHR 0x87], [CHR 0xE2, CHR 0x80, CHR 0x88],
     [CHR 0xE2, CHR 0x80, CHR 0x89], [CHR 0xE2, CHR 0x80, CHR 0x8A], [CHR 0xE2, CHR 0x80, CHR 0xA8],
     [CHR 0xE2, CHR 0x80, CHR 0xA9], [CHR 0xE2, CHR 0x80, CHR 0xAF], [CHR 0xE2, CHR 0x81, CHR 0x9F],
     [CHR 0xE3, CHR 0x80, CHR 0x80]]"

text \<open>Drops words of \<open>ws\<close> from the front as long as one fits; empty words never fit.\<close>

function trimFront :: "string list \<Rightarrow> string \<Rightarrow> string" where
  "trimFront ws s =
     (case find (\<lambda>w. w \<noteq> [] \<and> prefix w s) ws of
        None \<Rightarrow> s
      | Some w \<Rightarrow> trimFront ws (drop (length w) s))"
  by pat_completeness auto
termination
  by (relation "measure (\<lambda>(ws, s). length s)")
    (auto dest!: find_Some_mem simp: prefix_def)

declare trimFront.simps [simp del]

definition trimSpace :: "string \<Rightarrow> string" where
  "trimSpace s = rev (trimFront (map rev spaceRunes) (rev (trimFront spaceRunes s)))"

lemma trimFront_suffix: "suffix (trimFront ws s) s"
proof (induction ws s rule: trimFront.induct)
  case (1 ws s)
  show ?case
    using 1 by (subst trimFront.simps)
      (auto split: option.splits intro: suffix_order.trans [OF _ suffix_drop])
qed

lemma trimFront_stops: "w \<in> set ws \<Longrightarrow> w \<noteq> [] \<Longrightarrow> \<not> prefix w (trimFront ws s)"
proof (induction ws s rule: trimFront.induct)
  case (1 ws s)
  show ?case
    using 1 by (subst trimFront.simps) (auto split: option.splits simp: find_None_iff)
qed

lemma trimFront_fix: "(\<And>w. w \<in> set ws \<Longrightarrow> w \<noteq> [] \<Longrightarrow> \<not> prefix w s) \<Longrightarrow> trimFront ws s = s"
  by (subst trimFront.simps) (auto split: option.splits dest!: find_Some_mem)

lemma trimFront_idem: "trimFront ws (trimFront ws s) = trimFront ws s"
  by (rule trimFront_fix) (rule trimFront_stops)

lemma trimSpace_prefix: "prefix (trimSpace s) (trimFront spaceRunes s)"
  using trimFront_suffix [of "map rev spaceRunes" "rev (trimFront spaceRunes s)"]
  by (auto simp: trimSpace_def suffix_to_prefix)

lemma trimSpace_front: "trimFront spaceRunes (trimSpace s) = trimSpace s"
proof (rule trimFront_fix)
  fix w assume "w \<in> set spaceRunes" "w \<noteq> []"
  then have "\<not> prefix w (trimFront spaceRunes s)" by (rule trimFront_stops)
  then show "\<not> prefix w (trimSpace s)"
    using trimSpace_prefix [of s] by (meson prefix_order.trans)
qed

lemma trimSpace_idem [simp]: "trimSpace (trimSpace s) = trimSpace s"
  using trimFront_idem [of "map rev spaceRunes" "rev (trimFront spaceRunes s)"]
  by (simp add: trimSpace_def [of "trimSpace s"] trimSpace_front) (simp add: trimSpace_def)

lemma trimSpace_Nil [simp]: "trimSpace [] = []"
  by (simp add: trimSpace_def trimFront_fix)

text \<open>\<open>strings.Split(s, sep)\<close> for a one-byte separator: always at least one part.\<close>

fun splitOn :: "char \<Rightarrow> string \<Rightarrow> string list" where
  "splitOn c [] = [[]]"
| "splitOn c (x # xs) =
     (if x = c then [] # splitOn c xs
      else (case splitOn c xs of [] \<Rightarrow> [[x]] | p # ps \<Rightarrow> (x # p) # ps))"

fun joinWith :: "char \<Rightarrow> string list \<Rightarrow> string" where
  "joinWith c [] = []"
| "joinWith c [p] = p"
| "joinWith c (p # ps) = p @ c # joinWith c ps"

lemma splitOn_nonempty: "splitOn c s \<noteq> []"
  by (induction s) (auto split: list.splits)

lemma joinWith_splitOn: "joinWith c (splitOn c s) = s"
proof (induction s)
  case Nil
  then show ?case by simp
next
  case (Cons x xs)
  obtain p ps where p: "splitOn c xs = p # ps"
    using splitOn_nonempty [of c xs] by (cases "splitOn c xs") auto
  then show ?case
    using Cons.IH by (cases ps) auto
qed

lemma splitOn_no_sep: "c \<notin> set p \<Longrightarrow> splitOn c p = [p]"
  by (induction p) auto

lemma splitOn_append: "c \<notin> set p \<Longrightarrow> splitOn c (p @ c # s) = p # splitOn c s"
  by (induction p) auto

lemma splitOn_joinWith:
  "ps \<noteq> [] \<Longrightarrow> (\<And>p. p \<in> set ps \<Longrightarrow> c \<notin> set p) \<Longrightarrow> splitOn c (joinWith c ps) = ps"
proof (induction c ps rule: joinWith.induct)
  case (3 c p q ps)
  then show ?case by (simp add: splitOn_append)
qed (simp_all add: splitOn_no_sep)


text \<open>
  \<open>utf8.RuneCountInString\<close>: a byte that starts no valid encoding counts as one rune.
\<close>

definition byteIn :: "nat \<Rightarrow> nat \<Rightarrow> string \<Rightarrow> nat \<Rightarrow> bool" where
  "byteIn lo hi s i \<longleftrightarrow> i < length s \<and> lo \<le> (of_char (s ! i) :: nat) \<and> (of_char (s ! i) :: nat) \<le> hi"

definition runeLen :: "string \<Rightarrow> nat" where
  "runeLen s =
     (if byteIn 0xC2 0xDF s 0 \<and> byteIn 0x80 0xBF s 1 then 2
      else if (byteIn 0xE0 0xE0 s 0 \<and> byteIn 0xA0 0xBF s 1 \<or>
               byteIn 0xE1 0xEC s 0 \<and> byteIn 0x80 0xBF s 1 \<or>
               byteIn 0xED 0xED s 0 \<and> byteIn 0x80 0x9F s 1 \<or>
               byteIn 0xEE 0xEF s 0 \<and> byteIn 0x80 0xBF s 1) \<and> byteIn 0x80 0xBF s 2 then 3
      else if (byteIn 0xF0 0xF0 s 0 \<and> byteIn 0x90 0xBF s 1 \<or>
               byteIn 0xF1 0xF3 s 0 \<and> byteIn 0x80 0xBF s 1 \<or>
               byteIn 0xF4 0xF4 s 0 \<and> byteIn 0x80 0x8F s 1) \<and>
              byteIn 0x80 0xBF s 2 \<and> byteIn 0x80 0xBF s 3 then 4
      else 1)"

lemma runeLen_pos: "0 < runeLen s"
  by (simp add: runeLen_def)

function runeCount :: "string \<Rightarrow> nat" where
  "runeCount s = (if s = [] then 0 else Suc (runeCount (drop (runeLen s) s)))"
  by pat_completeness auto
termination
  by (relation "measure length") (auto simp: runeLen_pos)

declare runeCount.simps [simp del]

lemma runeCount_Nil [simp]: "runeCount [] = 0"
  by (simp add: runeCount.simps)

lemma runeCount_le: "runeCount s \<le> length s"
proof (induction s rule: runeCount.induct)
  case (1 s)
  show ?case
  proof (cases "s = []")
    case False
    with 1 have "runeCount (drop (runeLen s) s) \<le> length s - runeLen s" by simp
    with False runeLen_pos [of s] show ?thesis
      by (subst runeCount.simps) (cases s, auto)
  qed simp
qed

text \<open>\<open>utf8.ValidString\<close>.\<close>

function validUTF8 :: "string \<Rightarrow> bool" where
  "validUTF8 s =
     (if s = [] then True
      else if (of_char (hd s) :: nat) < 0x80 \<or> 1 < runeLen s then validUTF8 (drop (runeLen s) s)
      else False)"
  by pat_completeness auto
termination
  by (relation "measure length") (auto simp: runeLen_pos)

declare validUTF8.simps [simp del]

text \<open>\<open>strconv.Itoa\<close>.\<close>

function itoaNat :: "nat \<Rightarrow> string" where
  "itoaNat n = (if n < 10 then [char_of (48 + n)] else itoaNat (n div 10) @ [char_of (48 + n mod 10)])"
  by pat_completeness auto
termination
  by (relation "measure id") auto

declare itoaNat.simps [simp del]

definition itoa :: "int \<Rightarrow> string" where
  "itoa i = (if i < 0 then CHR ''-'' # itoaNat (nat (- i)) else itoaNat (nat i))"

text \<open>With distinct keys a lookup finds the one row it names.\<close>

lemma find_unique_key:
  assumes "distinct (map k rows)" and "x \<in> set rows" and "P x" and "\<And>y. P y \<Longrightarrow> k y = k x"
  shows "find P rows = Some x"
proof (rule ccontr)
  assume "find P rows \<noteq> Some x"
  moreover have "find P rows \<noteq> None" using assms(2,3) by (auto simp: find_None_iff)
  ultimately obtain y where "find P rows = Some y" "y \<noteq> x" by auto
  then have "y \<in> set rows" "P y" "y \<noteq> x" by (auto dest: find_Some_mem)
  with assms distinct_key_eq [of k rows y x] show False by blast
qed

lemma raises_none: "raises {} m \<Longrightarrow> \<exists>a t. m s = Inr (a, t)"
  by (cases "m s") (auto simp: raises_def)

text \<open>Code equations that unfold on a concrete string only.\<close>

lemma trimFront_code [code]:
  "trimFront ws [] = []"
  "trimFront ws (c # cs) =
     (case find (\<lambda>w. w \<noteq> [] \<and> prefix w (c # cs)) ws of
        None \<Rightarrow> c # cs
      | Some w \<Rightarrow> trimFront ws (drop (length w) (c # cs)))"
  using trimFront_fix [of ws "[]"] by auto (rule trimFront.simps)

lemma runeCount_code [code]:
  "runeCount [] = 0" "runeCount (c # cs) = Suc (runeCount (drop (runeLen (c # cs)) (c # cs)))"
  by (simp_all add: runeCount.simps)

lemma validUTF8_code [code]:
  "validUTF8 [] = True"
  "validUTF8 (c # cs) =
     (if (of_char c :: nat) < 0x80 \<or> 1 < runeLen (c # cs) then validUTF8 (drop (runeLen (c # cs)) (c # cs)) else False)"
  by (subst validUTF8.simps, simp)+

end
