(* ===== verification/Versions.thy ===== *)
theory Versions
  imports Prelude "HOL-Library.Word"
begin

text \<open>
  Version labels, \<open>internal/model/version.go\<close> and the label pattern of
  \<open>internal/service/plugin/validation.go\<close>. A label is orderable when it is three
  dot-separated decimal numbers that fit \<open>uint64\<close>; older rows carry labels that are
  not. The draft rule \<open>VersionNotRegressed\<close> and the release rule \<open>VersionAdvanced\<close>
  are both decided by \<open>ParseVersion\<close>.
\<close>

section \<open>Parsing\<close>

type_synonym version_parts = "64 word \<times> 64 word \<times> 64 word"

definition isDigit :: "char \<Rightarrow> bool" where
  "isDigit c \<longleftrightarrow> 48 \<le> (of_char c :: int) \<and> (of_char c :: int) \<le> 57"

definition digitVal :: "char \<Rightarrow> int" where
  "digitVal c = of_char c - 48"

definition decimal :: "string \<Rightarrow> int" where
  "decimal s = foldl (\<lambda>n c. 10 * n + digitVal c) 0 s"

text \<open>
  \<open>strconv.ParseUint(s, 10, 64)\<close>: an empty string, a non-digit (a sign included) and a
  value beyond 64 bits are all errors.
\<close>

definition parseUint :: "string \<Rightarrow> 64 word option" where
  "parseUint s =
     (if s = [] \<or> \<not> list_all isDigit s then None
      else if decimal s \<ge> 2 ^ 64 then None
      else Some (word_of_int (decimal s)))"

definition ParseVersion :: "string \<Rightarrow> version_parts option" where
  "ParseVersion v =
     (case splitOn CHR ''.'' (trimSpace v) of
        [a, b, c] \<Rightarrow>
          (case (parseUint a, parseUint b, parseUint c) of
             (Some x, Some y, Some z) \<Rightarrow> Some (x, y, z)
           | _ \<Rightarrow> None)
      | _ \<Rightarrow> None)"

section \<open>The two publication rules\<close>

text \<open>The loop over the three parts: the first differing part decides.\<close>

definition partsNotLess :: "version_parts \<Rightarrow> version_parts \<Rightarrow> bool" where
  "partsNotLess cur nxt =
     (case (cur, nxt) of
        ((c0, c1, c2), (n0, n1, n2)) \<Rightarrow>
          if n0 \<noteq> c0 then n0 > c0
          else if n1 \<noteq> c1 then n1 > c1
          else if n2 \<noteq> c2 then n2 > c2
          else True)"

definition VersionNotRegressed :: "string \<Rightarrow> string \<Rightarrow> bool" where
  "VersionNotRegressed current nextv =
     (let cur = trimSpace current; nxt = trimSpace nextv in
      if cur = nxt then True
      else (case ParseVersion nxt of
              None \<Rightarrow> False
            | Some nextParts \<Rightarrow>
                (case ParseVersion cur of
                   None \<Rightarrow> True
                 | Some currentParts \<Rightarrow> partsNotLess currentParts nextParts)))"

definition VersionAdvanced :: "string \<Rightarrow> string \<Rightarrow> bool" where
  "VersionAdvanced current nextv =
     (if \<not> VersionNotRegressed current nextv then False
      else (case ParseVersion nextv of
              None \<Rightarrow> False
            | Some b \<Rightarrow> (case ParseVersion current of None \<Rightarrow> True | Some a \<Rightarrow> a \<noteq> b)))"

text \<open>\<open>validVersion\<close>: the regular expression \<open>^\d{1,9}\.\d{1,9}\.\d{1,9}$\<close> on the trimmed label.\<close>

definition versionPart :: "string \<Rightarrow> bool" where
  "versionPart p \<longleftrightarrow> 1 \<le> length p \<and> length p \<le> 9 \<and> list_all isDigit p"

definition validVersion :: "string \<Rightarrow> bool" where
  "validVersion v =
     (case splitOn CHR ''.'' (trimSpace v) of
        [a, b, c] \<Rightarrow> versionPart a \<and> versionPart b \<and> versionPart c
      | _ \<Rightarrow> False)"

section \<open>Facts\<close>

lemma ParseVersion_trim [simp]: "ParseVersion (trimSpace v) = ParseVersion v"
  by (simp add: ParseVersion_def)

lemma partsNotLess_refl [simp]: "partsNotLess p p"
  by (cases p) (simp add: partsNotLess_def)

lemma partsNotLess_trans: "partsNotLess p q \<Longrightarrow> partsNotLess q r \<Longrightarrow> partsNotLess p r"
  by (cases p; cases q; cases r) (auto simp: partsNotLess_def split: if_splits)

lemma partsNotLess_antisym: "partsNotLess p q \<Longrightarrow> partsNotLess q p \<Longrightarrow> p = q"
  by (cases p; cases q) (auto simp: partsNotLess_def split: if_splits)

lemma partsNotLess_total: "partsNotLess p q \<or> partsNotLess q p"
  by (cases p; cases q) (auto simp: partsNotLess_def)

text \<open>Both rules, as a case distinction on which labels parse.\<close>

lemma VersionNotRegressed_alt:
  "VersionNotRegressed a b \<longleftrightarrow>
     trimSpace a = trimSpace b \<or>
     (\<exists>q. ParseVersion b = Some q \<and> (\<forall>p. ParseVersion a = Some p \<longrightarrow> partsNotLess p q))"
  by (auto simp: VersionNotRegressed_def Let_def split: option.splits)

lemma trim_eq_parse: "trimSpace a = trimSpace b \<Longrightarrow> ParseVersion a = ParseVersion b"
  by (metis ParseVersion_trim)

lemma VersionAdvanced_alt:
  "VersionAdvanced a b \<longleftrightarrow>
     (\<exists>q. ParseVersion b = Some q \<and>
          (\<forall>p. ParseVersion a = Some p \<longrightarrow> partsNotLess p q \<and> p \<noteq> q))"
  by (auto simp: VersionAdvanced_def VersionNotRegressed_alt dest: trim_eq_parse split: option.splits)

lemma decimal_append_digit: "decimal (s @ [c]) = 10 * decimal s + digitVal c"
  by (simp add: decimal_def)

lemma decimal_bound: "list_all isDigit s \<Longrightarrow> 0 \<le> decimal s \<and> decimal s < 10 ^ length s"
proof (induction s rule: rev_induct)
  case Nil
  then show ?case by (simp add: decimal_def)
next
  case (snoc c s)
  then have "0 \<le> decimal s" "decimal s < 10 ^ length s" "0 \<le> digitVal c" "digitVal c \<le> 9"
    by (auto simp: isDigit_def digitVal_def)
  moreover from this have "10 * decimal s + digitVal c < 10 * 10 ^ length s" by linarith
  ultimately show ?case by (simp add: decimal_append_digit)
qed

lemma versionPart_parses:
  assumes "versionPart p"
  obtains n where "parseUint p = Some n" and "unat n < 10 ^ 9"
proof -
  from assms have d: "list_all isDigit p" "p \<noteq> []" "length p \<le> 9"
    by (auto simp: versionPart_def)
  have n: "0 \<le> decimal p" and "decimal p < 10 ^ length p" using decimal_bound [OF d(1)] by auto
  note this(2)
  also have "(10::int) ^ length p \<le> 10 ^ 9" using d(3) by (intro power_increasing) auto
  finally have b: "decimal p < 10 ^ 9" .
  then have "decimal p < 2 ^ 64" by simp
  with n have "uint (word_of_int (decimal p) :: 64 word) = decimal p"
    by (simp add: uint_word_of_int_eq take_bit_int_eq_self)
  then have "unat (word_of_int (decimal p) :: 64 word) < 10 ^ 9"
    using b n by (simp add: unat_eq_nat_uint)
  with d \<open>decimal p < 2 ^ 64\<close> that show thesis
    by (auto simp: parseUint_def)
qed

lemma validVersion_parses: "validVersion v \<Longrightarrow> ParseVersion v \<noteq> None"
  by (auto simp: validVersion_def ParseVersion_def split: list.splits elim!: versionPart_parses)


lemma VersionAdvanced_trans: "VersionAdvanced a b \<Longrightarrow> VersionAdvanced b c \<Longrightarrow> VersionAdvanced a c"
  by (fastforce simp: VersionAdvanced_alt dest: partsNotLess_trans partsNotLess_antisym)

section \<open>Label histories\<close>

text \<open>
  What the release path relies on: a relation between consecutive labels that is
  transitive and never relates two labels of the same number. Any history it admits is
  then free of repeated numbers, however long it is.
\<close>

locale label_order =
  fixes before :: "'l \<Rightarrow> 'l \<Rightarrow> bool" and number :: "'l \<Rightarrow> 'n"
  assumes before_trans: "before a b \<Longrightarrow> before b c \<Longrightarrow> before a c"
    and before_number: "before a b \<Longrightarrow> number a \<noteq> number b"
begin

lemma history_sorted: "successively before ls \<Longrightarrow> sorted_wrt before ls"
  by (simp add: successively_conv_sorted_wrt transpI [OF before_trans])

lemma history_distinct: "successively before ls \<Longrightarrow> distinct (map number ls)"
proof -
  assume "successively before ls"
  then have "sorted_wrt before ls" by (rule history_sorted)
  then show ?thesis
    by (induction ls) (auto dest: before_number)
qed

end

interpretation releases_order: label_order VersionAdvanced ParseVersion
  by unfold_locales (blast intro: VersionAdvanced_trans, auto simp: VersionAdvanced_alt)

text \<open>The draft rule is a preorder on labels: every save may keep its label, and two
  permitted moves compose, whatever legacy (unorderable) labels are involved.\<close>

theorem VersionNotRegressed_preorder:
  "VersionNotRegressed a a \<and>
   (VersionNotRegressed a b \<longrightarrow> VersionNotRegressed b c \<longrightarrow> VersionNotRegressed a c)"
proof (intro conjI impI)
  show "VersionNotRegressed a a" by (simp add: VersionNotRegressed_alt)
next
  assume ab: "VersionNotRegressed a b" and bc: "VersionNotRegressed b c"
  show "VersionNotRegressed a c"
  proof (cases "trimSpace a = trimSpace b \<or> trimSpace b = trimSpace c")
    case True
    then have "trimSpace a = trimSpace b \<and> ParseVersion a = ParseVersion b \<or>
        trimSpace b = trimSpace c \<and> ParseVersion b = ParseVersion c"
      by (blast dest: trim_eq_parse)
    with ab bc show ?thesis unfolding VersionNotRegressed_alt by metis
  next
    case False
    with ab bc show ?thesis
      by (fastforce simp: VersionNotRegressed_alt intro: partsNotLess_trans)
  qed
qed

theorem VersionNotRegressed_preorder_witness:
  "VersionNotRegressed ''v999'' ''1.0.0'' \<and> VersionNotRegressed ''1.0.0'' ''1.0.10'' \<and>
   VersionNotRegressed ''v999'' ''1.0.10''"
proof -
  have a: "VersionNotRegressed ''v999'' ''1.0.0''" by code_simp
  have b: "VersionNotRegressed ''1.0.0'' ''1.0.10''" by code_simp
  show ?thesis using a b VersionNotRegressed_preorder [of "''v999''" "''1.0.0''" "''1.0.10''"] by simp
qed

text \<open>in a history of releases in which every label advances its predecessor, no two
  releases carry the same version number, so a label never comes to name two contents.\<close>

theorem release_history_distinct:
  assumes "successively VersionAdvanced labels"
  shows "distinct (map ParseVersion labels)"
  using assms by (rule releases_order.history_distinct)

theorem release_history_distinct_witness:
  "distinct (map ParseVersion [''beta'', ''1.9.0'', ''1.10.0'', ''2.0.0''])"
proof -
  have "successively VersionAdvanced [''beta'', ''1.9.0'', ''1.10.0'', ''2.0.0'']" by code_simp
  then show ?thesis by (rule release_history_distinct)
qed

text \<open>A label the service accepts is always orderable, its three parts stay below
  \<open>10^9\<close> (no \<open>uint64\<close> overflow), and of two accepted labels one may follow the other;
  both may only when they are the same number.\<close>

theorem validVersion_orderable:
  assumes "validVersion a" and "validVersion b"
  shows "\<exists>p q. ParseVersion a = Some p \<and> ParseVersion b = Some q \<and>
           unat (fst p) < 10 ^ 9 \<and> unat (fst (snd p)) < 10 ^ 9 \<and> unat (snd (snd p)) < 10 ^ 9 \<and>
           (VersionNotRegressed a b \<or> VersionNotRegressed b a) \<and>
           (VersionNotRegressed a b \<and> VersionNotRegressed b a \<longleftrightarrow> p = q)"
proof -
  obtain p q where p: "ParseVersion a = Some p" and q: "ParseVersion b = Some q"
    using assms validVersion_parses by blast
  have bounds: "unat (fst p) < 10 ^ 9 \<and> unat (fst (snd p)) < 10 ^ 9 \<and> unat (snd (snd p)) < 10 ^ 9"
    using assms(1) p by (auto simp: validVersion_def ParseVersion_def split: list.splits
        elim!: versionPart_parses)
  have iff: "VersionNotRegressed a b \<longleftrightarrow> partsNotLess p q" "VersionNotRegressed b a \<longleftrightarrow> partsNotLess q p"
    using p q by (auto simp: VersionNotRegressed_alt dest: trim_eq_parse)
  show ?thesis
    using p q bounds iff partsNotLess_total [of p q] partsNotLess_antisym [of p q] by auto
qed

theorem validVersion_orderable_witness:
  "validVersion ''1.2.3'' \<and> validVersion '' 1.10.0'' \<and>
   (VersionNotRegressed ''1.2.3'' '' 1.10.0'' \<or> VersionNotRegressed '' 1.10.0'' ''1.2.3'')"
proof -
  have a: "validVersion ''1.2.3''" and b: "validVersion '' 1.10.0''" by code_simp+
  show ?thesis using a b validVersion_orderable [OF a b] by auto
qed

end
