(* ===== verification/Catalog.thy ===== *)
theory Catalog
  imports Prelude Versions
begin

text \<open>
  The data model of the marketplace, \<open>internal/model\<close>: plugin rows, relation edges,
  review requests, versions and the other tables the review and listing transactions
  touch, the caller identity with its Space role, and the derived display status.

  A record field carries the Go field's name behind a prefix for its struct. A pointer
  field is an \<open>option\<close>. A JSON document is a value of \<open>json\<close>; an empty
  \<open>json.RawMessage\<close> is \<open>None\<close>. Identifiers are compared exactly.
\<close>

section \<open>Enumerations\<close>

datatype PluginType = PluginTypeExpert | PluginTypeExpertTeam | PluginTypeSkill | PluginTypeConnector

datatype PluginVisibility =
  PluginVisibilityPublic | PluginVisibilitySpace | PluginVisibilityPrivate | PluginVisibilitySystem

datatype PluginListingState =
  PluginListingStateDraft | PluginListingStatePublished | PluginListingStateDelisted

datatype ReviewStatus =
  ReviewStatusPending | ReviewStatusApproved | ReviewStatusRejected | ReviewStatusCanceled

datatype ReviewKind = ReviewKindFirst | ReviewKindUpgrade | ReviewKindVisibility

datatype ReviewDecisionSource =
  ReviewDecisionSourceWeb | ReviewDecisionSourceIM | ReviewDecisionSourcePolicy

datatype PluginDisplayStatus =
  PluginDisplayStatusDraft | PluginDisplayStatusPendingReview | PluginDisplayStatusPublished |
  PluginDisplayStatusRejected | PluginDisplayStatusDelisted

datatype json = JNull | JBool bool | JNum int | JStr string | JArr "json list" | JObj "(string \<times> json) list"

type_synonym raw = "json option"
type_synonym time = nat

section \<open>Rows\<close>

text \<open>\<open>model.Plugin\<close>, the persisted columns; the name columns are those of the unique-name index.\<close>

record Plugin =
  p_ID :: string
  p_Name :: string
  p_Type :: PluginType
  p_IsEmbedded :: bool
  p_CategoryID :: "string option"
  p_Tags :: raw
  p_Publisher :: string
  p_OwnerUID :: string
  p_SpaceID :: "string option"
  p_Visibility :: PluginVisibility
  p_ListingState :: PluginListingState
  p_Icon :: string
  p_ToolCount :: int
  p_Rating :: "int option"
  p_Manifest :: raw
  p_Package :: raw
  p_AttachmentKeys :: raw
  p_ManifestHash :: string
  p_PluginHash :: string
  p_CurrentVersionID :: "string option"
  p_CurrentVersion :: "string option"
  p_PublishedVersionID :: "string option"
  p_NameKey :: "string option"
  p_PublishedNameKey :: "string option"
  p_NameScope :: string
  p_Status :: int
  p_CreatedAt :: time
  p_UpdatedAt :: time
  p_DeletedAt :: "time option"

text \<open>\<open>model.PluginRelation\<close>, used both for a live edge and for an edge of a snapshot.
  The target type travels with an edge in memory only.\<close>

record PluginRelation =
  r_ID :: string
  r_SourcePluginID :: string
  r_TargetPluginID :: string
  r_TargetVersionID :: "string option"
  r_TargetPluginType :: "PluginType option"
  r_Type :: string
  r_SortOrder :: int
  r_Data :: raw
  r_Status :: int
  r_CreatedBy :: string
  r_CreatedAt :: time
  r_UpdatedAt :: time
  r_DeletedAt :: "time option"

text \<open>\<open>model.PluginReviewRequest\<close> without the columns joined for display.\<close>

record PluginReviewRequest =
  rr_ID :: string
  rr_PluginID :: string
  rr_SpaceID :: string
  rr_TargetScope :: string
  rr_Status :: ReviewStatus
  rr_Kind :: ReviewKind
  rr_Version :: string
  rr_Changelog :: "string option"
  rr_Manifest :: raw
  rr_Package :: raw
  rr_Relations :: "PluginRelation list"
  rr_AttachmentKeys :: raw
  rr_ManifestHash :: string
  rr_PluginHash :: string
  rr_ApplicantUID :: string
  rr_ApplicantName :: string
  rr_ReviewerUID :: "string option"
  rr_ReviewerName :: "string option"
  rr_Reason :: "string option"
  rr_DecisionSource :: "ReviewDecisionSource option"
  rr_SubmittedAt :: time
  rr_ReviewedAt :: "time option"
  rr_CreatedAt :: time
  rr_UpdatedAt :: time
  rr_DeletedAt :: "time option"

record PluginVersionArtifact =
  art_Path :: string
  art_ContentType :: string
  art_ObjectKey :: string
  art_Size :: int
  art_Digest :: string

record PluginVersion =
  v_ID :: string
  v_PluginID :: string
  v_Version :: string
  v_DeclaredVersion :: "string option"
  v_Manifest :: raw
  v_Package :: raw
  v_AttachmentKeys :: raw
  v_ManifestHash :: string
  v_PluginHash :: string
  v_Relations :: "PluginRelation list"
  v_Changelog :: "string option"
  v_CreatedBy :: string
  v_CreatedAt :: time
  v_SnapshotSchemaVersion :: "int option"
  v_Artifacts :: "PluginVersionArtifact list option"

record PluginVersionRelease =
  rel_PluginID :: string
  rel_VersionID :: string
  rel_VersionLabel :: string
  rel_ReleasedBy :: string
  rel_ReleasedAt :: time

record PluginAuditLog =
  a_ID :: string
  a_PluginID :: string
  a_Action :: string
  a_OperatorID :: string
  a_OperatorName :: string
  a_RequestID :: string
  a_BeforeHash :: "string option"
  a_AfterHash :: "string option"
  a_ManifestSnapshot :: raw
  a_PluginSnapshot :: raw
  a_Remark :: "string option"
  a_CreatedAt :: time

record PluginPlacement =
  pl_ID :: string
  pl_PlacementCode :: string
  pl_PluginID :: string
  pl_CategoryID :: "string option"
  pl_Visible :: bool
  pl_SortOrder :: int
  pl_CreatedAt :: time
  pl_UpdatedAt :: time

record CardActionReceipt =
  cr_EventID :: string
  cr_StoredResponse :: raw
  cr_ReviewID :: string
  cr_Decision :: string
  cr_CreatedAt :: time

section \<open>Derived status and legacy visibility\<close>

definition DisplayStatus :: "Plugin \<Rightarrow> bool \<Rightarrow> ReviewStatus option \<Rightarrow> PluginDisplayStatus" where
  "DisplayStatus p hasPendingReview latestReview =
     (if hasPendingReview then PluginDisplayStatusPendingReview
      else if p_ListingState p = PluginListingStateDelisted then PluginDisplayStatusDelisted
      else if p_ListingState p = PluginListingStatePublished then PluginDisplayStatusPublished
      else if latestReview = Some ReviewStatusRejected then PluginDisplayStatusRejected
      else PluginDisplayStatusDraft)"

definition NormalizeLegacyVisibility :: "PluginVisibility \<Rightarrow> PluginVisibility" where
  "NormalizeLegacyVisibility v =
     (if v = PluginVisibilityPublic then PluginVisibilitySystem else v)"

section \<open>Caller identity\<close>

definition SpaceRoleMember :: int where "SpaceRoleMember = 0"
definition SpaceRoleAdmin :: int where "SpaceRoleAdmin = 1"
definition SpaceRoleOwner :: int where "SpaceRoleOwner = 2"

record Identity =
  i_UID :: string
  i_Name :: string
  i_Role :: string
  i_Spaces :: "string list"
  i_SpaceRoles :: "(string \<times> int) list"

definition ClampSpaceRole :: "int \<Rightarrow> int \<times> bool" where
  "ClampSpaceRole r =
     (if r < SpaceRoleMember \<or> r > SpaceRoleOwner then (SpaceRoleMember, True) else (r, False))"

text \<open>Reading a Go map at an absent key yields the zero value.\<close>

definition SpaceRole :: "Identity \<Rightarrow> string \<Rightarrow> int" where
  "SpaceRole i spaceID =
     (if spaceID = '''' then SpaceRoleMember
      else fst (ClampSpaceRole (case map_of (i_SpaceRoles i) spaceID of None \<Rightarrow> 0 | Some r \<Rightarrow> r)))"

definition CanReviewSpace :: "Identity \<Rightarrow> string \<Rightarrow> bool" where
  "CanReviewSpace i spaceID \<longleftrightarrow> SpaceRole i spaceID \<ge> SpaceRoleAdmin"

section \<open>Facts\<close>

lemmas SpaceRole_consts = SpaceRoleMember_def SpaceRoleAdmin_def SpaceRoleOwner_def

text \<open>Review authority in a Space is exactly an explicit role entry for that Space with
  the value admin (1) or owner (2). A missing entry, an empty Space id, and every value
  outside the encoding (such as the inverted 3 of the web client) grant nothing.\<close>

theorem CanReviewSpace_iff:
  "CanReviewSpace i spaceID \<longleftrightarrow>
     spaceID \<noteq> '''' \<and> (map_of (i_SpaceRoles i) spaceID = Some SpaceRoleAdmin \<or>
                        map_of (i_SpaceRoles i) spaceID = Some SpaceRoleOwner)"
  by (auto simp: CanReviewSpace_def SpaceRole_def ClampSpaceRole_def SpaceRole_consts split: option.splits)

text \<open>The displayed status of a plugin. An open request always shows as pending; without
  one, the listing axis decides, and only a draft can show a rejection. A cancelled or
  approved latest request of a draft shows a plain draft.\<close>

theorem DisplayStatus_cases:
  "DisplayStatus p True latest = PluginDisplayStatusPendingReview \<and>
   (DisplayStatus p False latest = PluginDisplayStatusPublished \<longleftrightarrow>
      p_ListingState p = PluginListingStatePublished) \<and>
   (DisplayStatus p False latest = PluginDisplayStatusDelisted \<longleftrightarrow>
      p_ListingState p = PluginListingStateDelisted) \<and>
   (DisplayStatus p False latest = PluginDisplayStatusRejected \<longleftrightarrow>
      p_ListingState p = PluginListingStateDraft \<and> latest = Some ReviewStatusRejected) \<and>
   (DisplayStatus p False latest = PluginDisplayStatusDraft \<longleftrightarrow>
      p_ListingState p = PluginListingStateDraft \<and> latest \<noteq> Some ReviewStatusRejected)"
  by (cases "p_ListingState p") (auto simp: DisplayStatus_def)

end
