(* ===== verification/Store.thy ===== *)
theory Store
  imports Catalog
begin

text \<open>
  The database of the plugin repository (\<open>internal/repository/plugin\<close>) as one record of
  tables, the repository object with its configuration and injected functions, its
  errors, and the row-level helpers every transaction is built from.

  \<open>Repo\<close>'s clock and id generator are functions of a counter kept in the state, so that
  every call of \<open>r.now()\<close> and \<open>r.id()\<close> is a fresh reading. The SHA-256 digests (of a draft,
  of a stored relation list, of a visibility plan, of bytes), the JSON decoder on a file's bytes and the Unicode
  normalisation of \<open>golang.org/x/text\<close> are functions of the \<open>Repo\<close> record; nothing is
  assumed of them. The ids minted for default placements are new to the placement table.
\<close>

section \<open>State\<close>

datatype RepoError =
    ErrNotFound | ErrConflict | ErrNameTaken | ErrInvalidName | ErrRelationInUse
  | ErrReviewPending | ErrListedRequiresReview | ErrVersionRegressed | ErrLabelTaken
  | ErrReviewContentRequired | ErrDeadlock | ErrInvalidRelation | ErrInvalidCategory
  | ErrInvalidPlacement | ErrGraphTooLarge | ErrVersionBaselineUnavailable
  | ErrCardActionReplayed | ErrReceiptBinding | ErrReferenceIndexIncomplete
  | ErrPluginNameEmpty | ErrPluginNameTooLong | ErrSnapshotMissing | OutOfFuel
  | ErrDuplicateKey | ErrCheckViolation | ErrBadDocument | ErrSnapshotArtifactPath
  | ErrSnapshotArtifactType | ErrLegacySnapshotArtifacts | NilDereference
  | ReferenceValidationError string string

record DraftState =
  d_ID :: string
  d_Name :: string
  d_Publisher :: string
  d_Icon :: string
  d_Type :: PluginType
  d_CategoryID :: "string option"
  d_SpaceID :: "string option"
  d_CurrentVersionID :: "string option"
  d_CurrentVersion :: "string option"
  d_OwnerUID :: string
  d_Visibility :: PluginVisibility
  d_ListingState :: PluginListingState
  d_ManifestHash :: string
  d_PluginHash :: string
  d_Tags :: raw
  d_AttachmentKeys :: raw
  d_Status :: int

record VisibilityPlanItem =
  vpi_PluginID :: string
  vpi_Name :: string
  vpi_Type :: PluginType
  vpi_From :: PluginVisibility
  vpi_To :: PluginVisibility
  vpi_PublishedVersionID :: string
  vpi_Baseline :: string

record VisibilityPlanBlocker =
  vpb_PluginID :: string
  vpb_Name :: string
  vpb_Reason :: string

record VisibilityPlan =
  vp_PluginID :: string
  vp_Revision :: string
  vp_Changes :: "VisibilityPlanItem list"
  vp_Affected :: "VisibilityPlanItem list"
  vp_Blockers :: "VisibilityPlanBlocker list"

record visibilityReleaseEdges =
  vre_ID :: string
  vre_Label :: string
  vre_Name :: string
  vre_Relations :: "PluginRelation list"

text \<open>What the baseline digest of a plan node covers.\<close>

record BaselineState =
  bs_Scope :: PluginVisibility
  bs_State :: PluginListingState
  bs_Published :: string
  bs_Hash :: string
  bs_Releases :: "visibilityReleaseEdges list"
  bs_Pending :: bool

record Repo =
  versionManagement :: bool
  references :: bool
  nowAt :: "nat \<Rightarrow> time"
  idAt :: "nat \<Rightarrow> string"
  digest :: "DraftState \<Rightarrow> string"
  relationsDigest :: "PluginRelation list \<Rightarrow> string"
  baselineDigest :: "BaselineState \<Rightarrow> string"
  planDigest :: "VisibilityPlan \<Rightarrow> (string \<times> string) list \<Rightarrow> string"
  impactDigest :: "VisibilityPlan \<Rightarrow> string"
  sha256 :: "string \<Rightarrow> string"
  unmarshal :: "string \<Rightarrow> json option"
  nfkc :: "string \<Rightarrow> string"
  foldCase :: "string \<Rightarrow> string"

record Scope =
  s_CallerUID :: string
  s_SpaceID :: string
  s_Admin :: bool

record VisibilityGroupRow =
  g_ReviewID :: string
  g_RootReviewID :: string
  g_PluginID :: string
  g_Plan :: VisibilityPlan

record PolicyRow =
  pol_SpaceID :: string
  pol_IsAutoApproveEnabled :: bool
  pol_UpdatedBy :: string
  pol_UpdatedByName :: string
  pol_CreatedAt :: time
  pol_UpdatedAt :: time

record SuspensionRow =
  sus_PluginID :: string
  sus_SourcePluginID :: string
  sus_CreatedAt :: time

text \<open>The types of a category are the decoded members of its JSON array.\<close>

record CategoryRow =
  cat_ID :: string
  cat_Name :: string
  cat_IconKey :: string
  cat_Types :: "PluginType list"
  cat_SortOrder :: int
  cat_Status :: int
  cat_CreatedAt :: time
  cat_UpdatedAt :: time
  cat_DeletedAt :: "time option"

record SceneRow =
  sc_ID :: string
  sc_Code :: string
  sc_Name :: string
  sc_Description :: string
  sc_SortOrder :: int
  sc_CreatedAt :: time
  sc_UpdatedAt :: time

record CategoryPlacementRow =
  cp_ID :: string
  cp_PlacementCode :: string
  cp_PluginType :: PluginType
  cp_CategoryID :: string
  cp_Visible :: bool
  cp_SortOrder :: int

record ReferenceEdgeRow =
  re_SourcePluginID :: string
  re_SourceVersionID :: string
  re_RelationID :: string
  re_Type :: string
  re_TargetPluginID :: string
  re_TargetVersionID :: "string option"

record ReferenceIndexRow =
  ri_SourcePluginID :: string
  ri_SourceVersionID :: string
  ri_RelationCount :: nat
  ri_SnapshotDigest :: string

record VisibilityReviewRow =
  vr_ReviewID :: string
  vr_PublishedVersionID :: string
  vr_SourceVisibility :: PluginVisibility
  vr_TargetVisibility :: PluginVisibility

record ConnectorBaselineRow =
  cb_SourceID :: string
  cb_TargetID :: string
  cb_Revision :: string

record ConfigTargetsRow =
  ct_ReviewID :: string
  ct_Selection :: "(string \<times> string) list"

record Store =
  plugins :: "Plugin list"
  relations :: "PluginRelation list"
  reviews :: "PluginReviewRequest list"
  receipts :: "CardActionReceipt list"
  audits :: "PluginAuditLog list"
  placements :: "PluginPlacement list"
  versions :: "PluginVersion list"
  releases :: "PluginVersionRelease list"
  policies :: "PolicyRow list"
  suspensions :: "SuspensionRow list"
  groups :: "VisibilityGroupRow list"
  categories :: "CategoryRow list"
  refEdges :: "ReferenceEdgeRow list"
  refIndex :: "ReferenceIndexRow list"
  visReviews :: "VisibilityReviewRow list"
  baselines :: "ConnectorBaselineRow list"
  configTargets :: "ConfigTargetsRow list"
  scenes :: "SceneRow list"
  catPlacements :: "CategoryPlacementRow list"
  idCount :: nat
  tickCount :: nat

type_synonym 'a stx = "(Store, RepoError, 'a) tx"

definition emptyStore :: Store where
  "emptyStore = \<lparr>plugins = [], relations = [], reviews = [], receipts = [], audits = [],
     placements = [], versions = [], releases = [], policies = [], suspensions = [],
     groups = [], categories = [], refEdges = [], refIndex = [], visReviews = [], baselines = [],
     configTargets = [], scenes = [], catPlacements = [], idCount = 0, tickCount = 0\<rparr>"

section \<open>Statements\<close>

definition newID :: "Repo \<Rightarrow> string stx" where
  "newID r = (\<lambda>s. Inr (idAt r (idCount s), s\<lparr>idCount := Suc (idCount s)\<rparr>))"

definition now :: "Repo \<Rightarrow> time stx" where
  "now r = (\<lambda>s. Inr (nowAt r (tickCount s), s\<lparr>tickCount := Suc (tickCount s)\<rparr>))"

definition updatePlugins :: "(Plugin \<Rightarrow> bool) \<Rightarrow> (Plugin \<Rightarrow> Plugin) \<Rightarrow> nat stx" where
  "updatePlugins c f =
     (\<lambda>s. Inr (affected c f (plugins s), s\<lparr>plugins := updateWhere c f (plugins s)\<rparr>))"

definition updateReviews ::
  "(PluginReviewRequest \<Rightarrow> bool) \<Rightarrow> (PluginReviewRequest \<Rightarrow> PluginReviewRequest) \<Rightarrow> nat stx" where
  "updateReviews c f =
     (\<lambda>s. Inr (affected c f (reviews s), s\<lparr>reviews := updateWhere c f (reviews s)\<rparr>))"

text \<open>\<open>mustAffect\<close> and \<open>mustChangeState\<close> turn a zero-row write into an error.\<close>

definition mustAffect :: "nat \<Rightarrow> unit stx" where
  "mustAffect n = refuseT (n = 0) ErrNotFound"

definition mustChangeState :: "nat \<Rightarrow> unit stx" where
  "mustChangeState n = refuseT (n = 0) ErrConflict"

definition draftState :: "Plugin \<Rightarrow> DraftState" where
  "draftState p = \<lparr>d_ID = p_ID p, d_Name = p_Name p, d_Publisher = p_Publisher p, d_Icon = p_Icon p,
     d_Type = p_Type p, d_CategoryID = p_CategoryID p, d_SpaceID = p_SpaceID p,
     d_CurrentVersionID = p_CurrentVersionID p, d_CurrentVersion = p_CurrentVersion p,
     d_OwnerUID = p_OwnerUID p, d_Visibility = p_Visibility p, d_ListingState = p_ListingState p,
     d_ManifestHash = p_ManifestHash p, d_PluginHash = p_PluginHash p, d_Tags = p_Tags p,
     d_AttachmentKeys = p_AttachmentKeys p, d_Status = p_Status p\<rparr>"

definition PluginDraftRevision :: "Repo \<Rightarrow> Plugin \<Rightarrow> string" where
  "PluginDraftRevision r p = digest r (draftState p)"

definition ownedRow :: "Scope \<Rightarrow> string \<Rightarrow> Plugin \<Rightarrow> bool" where
  "ownedRow sc pid p \<longleftrightarrow>
     p_ID p = pid \<and>
     (s_Admin sc \<or> p_OwnerUID p = s_CallerUID sc \<and> p_SpaceID p = Some (s_SpaceID sc)) \<and>
     p_Status p = 1 \<and> p_DeletedAt p = None"

definition getOwnedForUpdate :: "Scope \<Rightarrow> string \<Rightarrow> Plugin stx" where
  "getOwnedForUpdate sc pid =
     bindT (queryT (\<lambda>s. find (ownedRow sc pid) (plugins s))) (someT ErrNotFound)"

definition reviewedRow :: "string \<Rightarrow> string \<Rightarrow> Plugin \<Rightarrow> bool" where
  "reviewedRow spaceID pid p \<longleftrightarrow>
     p_ID p = pid \<and> p_SpaceID p = Some spaceID \<and> p_Status p = 1 \<and> p_DeletedAt p = None"

definition getReviewedPluginForUpdate :: "string \<Rightarrow> string \<Rightarrow> Plugin stx" where
  "getReviewedPluginForUpdate spaceID pid =
     bindT (queryT (\<lambda>s. find (reviewedRow spaceID pid) (plugins s))) (someT ErrNotFound)"

text \<open>\<open>versioned\<close>: connectors are current-state resources, everything else has releases.\<close>

definition versioned :: "Plugin \<Rightarrow> bool" where
  "versioned p \<longleftrightarrow> p_Type p \<noteq> PluginTypeConnector"

text \<open>The operator fields a \<open>Mutation\<close> passes to the audit row.\<close>

record Operator =
  o_OperatorID :: string
  o_OperatorName :: string
  o_RequestID :: string
  o_Remark :: "string option"

definition insertAudit ::
  "string \<Rightarrow> time \<Rightarrow> Plugin \<Rightarrow> string \<Rightarrow> Operator \<Rightarrow> string \<Rightarrow> string \<Rightarrow> unit stx" where
  "insertAudit auditID t p action m beforeHash after =
     modifyT (\<lambda>s. s\<lparr>audits := audits s @
       [\<lparr>a_ID = auditID, a_PluginID = p_ID p, a_Action = action, a_OperatorID = o_OperatorID m,
         a_OperatorName = o_OperatorName m, a_RequestID = o_RequestID m,
         a_BeforeHash = (if beforeHash \<noteq> '''' then Some beforeHash else None),
         a_AfterHash = (if after \<noteq> '''' then Some after else None),
         a_ManifestSnapshot = p_Manifest p, a_PluginSnapshot = p_Package p,
         a_Remark = o_Remark m, a_CreatedAt = t\<rparr>]\<rparr>)"

section \<open>Placements\<close>

definition defaultPlacementCode :: string where
  "defaultPlacementCode = ''default''"

definition ensureVisibleDefaultPlacement :: "Repo \<Rightarrow> time \<Rightarrow> string \<Rightarrow> string option \<Rightarrow> unit stx" where
  "ensureVisibleDefaultPlacement r t pid cat =
     bindT (queryT (\<lambda>s. \<exists>x \<in> set (placements s). pl_PluginID x = pid \<and> pl_PlacementCode x = defaultPlacementCode))
       (\<lambda>present.
          if present then
            modifyT (\<lambda>s. s\<lparr>placements :=
              updateWhere (\<lambda>x. pl_PluginID x = pid \<and> pl_PlacementCode x = defaultPlacementCode \<and> \<not> pl_Visible x)
                (\<lambda>x. x\<lparr>pl_Visible := True, pl_UpdatedAt := t\<rparr>) (placements s)\<rparr>)
          else
            bindT (newID r) (\<lambda>i.
              modifyT (\<lambda>s. s\<lparr>placements := placements s @
                [\<lparr>pl_ID = i, pl_PlacementCode = defaultPlacementCode, pl_PluginID = pid, pl_CategoryID = cat,
                  pl_Visible = True, pl_SortOrder = 0, pl_CreatedAt = t, pl_UpdatedAt = t\<rparr>]\<rparr>)))"

definition syncDefaultPlacement :: "Repo \<Rightarrow> time \<Rightarrow> string \<Rightarrow> string option \<Rightarrow> unit stx" where
  "syncDefaultPlacement r t pid cat =
     bindT (queryT (\<lambda>s. \<exists>x \<in> set (placements s). pl_PluginID x = pid \<and> pl_PlacementCode x = defaultPlacementCode))
       (\<lambda>present.
          thenT
            (whenT (\<not> present)
               (bindT (newID r) (\<lambda>i.
                  modifyT (\<lambda>s. s\<lparr>placements := placements s @
                    [\<lparr>pl_ID = i, pl_PlacementCode = defaultPlacementCode, pl_PluginID = pid, pl_CategoryID = cat,
                      pl_Visible = True, pl_SortOrder = 0, pl_CreatedAt = t, pl_UpdatedAt = t\<rparr>]\<rparr>))))
            (modifyT (\<lambda>s. s\<lparr>placements :=
               updateWhere (\<lambda>x. pl_PluginID x = pid \<and> pl_CategoryID x \<noteq> cat)
                 (\<lambda>x. x\<lparr>pl_CategoryID := cat, pl_UpdatedAt := t\<rparr>) (placements s)\<rparr>)))"

text \<open>The market list joins the plugin with a visible default placement.\<close>

definition marketPlaced :: "Store \<Rightarrow> string \<Rightarrow> bool" where
  "marketPlaced s pid \<longleftrightarrow>
     (\<exists>x \<in> set (placements s). pl_PluginID x = pid \<and> pl_PlacementCode x = defaultPlacementCode \<and> pl_Visible x)"

section \<open>Catalog visibility\<close>

text \<open>\<open>visibilitySQL\<close> with its two arguments, the caller's Space and uid.\<close>

definition visibilitySQL :: "string \<Rightarrow> string \<Rightarrow> Plugin \<Rightarrow> bool" where
  "visibilitySQL spaceID uid p \<longleftrightarrow>
     p_Visibility p = PluginVisibilityPublic \<or> p_Visibility p = PluginVisibilitySystem \<or>
     (p_SpaceID p = Some spaceID \<and>
      (p_Visibility p = PluginVisibilitySpace \<and> p_ListingState p = PluginListingStatePublished \<or>
       p_OwnerUID p = uid))"

text \<open>A row the whole organisation of its Space reads: the state review exists to gate.\<close>

definition orgListed :: "Plugin \<Rightarrow> bool" where
  "orgListed p \<longleftrightarrow> p_Visibility p = PluginVisibilitySpace \<and> p_ListingState p = PluginListingStatePublished"

section \<open>Frames\<close>

datatype Table = TPlugins | TRelations | TReviews | TReceipts | TAudits | TPlacements
  | TVersions | TReleases | TPolicies | TSuspensions | TGroups | TCategories | TRefEdges | TRefIndex
  | TVisReviews | TBaselines | TConfigTargets | TScenes | TCatPlacements

text \<open>Only the tables in \<open>X\<close> (and the counters) may differ.\<close>

definition kept :: "bool \<Rightarrow> 'a \<Rightarrow> 'a \<Rightarrow> bool" where
  "kept b x y \<longleftrightarrow> (b \<longrightarrow> y = x)"

lemma kept_refl: "kept b x x"
  by (simp add: kept_def)

lemma kept_trans: "kept b x y \<Longrightarrow> kept b y z \<Longrightarrow> kept b x z"
  by (simp add: kept_def)

lemma kept_mono: "kept b x y \<Longrightarrow> (b' \<Longrightarrow> b) \<Longrightarrow> kept b' x y"
  by (simp add: kept_def)

definition sameExcept :: "Table set \<Rightarrow> Store \<Rightarrow> Store \<Rightarrow> bool" where
  "sameExcept X s t \<longleftrightarrow>
     kept (TPlugins \<notin> X) (plugins s) (plugins t) \<and> kept (TRelations \<notin> X) (relations s) (relations t) \<and>
     kept (TReviews \<notin> X) (reviews s) (reviews t) \<and> kept (TReceipts \<notin> X) (receipts s) (receipts t) \<and>
     kept (TAudits \<notin> X) (audits s) (audits t) \<and> kept (TPlacements \<notin> X) (placements s) (placements t) \<and>
     kept (TVersions \<notin> X) (versions s) (versions t) \<and> kept (TReleases \<notin> X) (releases s) (releases t) \<and>
     kept (TPolicies \<notin> X) (policies s) (policies t) \<and>
     kept (TSuspensions \<notin> X) (suspensions s) (suspensions t) \<and> kept (TGroups \<notin> X) (groups s) (groups t) \<and>
     kept (TCategories \<notin> X) (categories s) (categories t) \<and>
     kept (TRefEdges \<notin> X) (refEdges s) (refEdges t) \<and> kept (TRefIndex \<notin> X) (refIndex s) (refIndex t) \<and>
     kept (TVisReviews \<notin> X) (visReviews s) (visReviews t) \<and>
     kept (TBaselines \<notin> X) (baselines s) (baselines t) \<and>
     kept (TConfigTargets \<notin> X) (configTargets s) (configTargets t) \<and>
     kept (TScenes \<notin> X) (scenes s) (scenes t) \<and> kept (TCatPlacements \<notin> X) (catPlacements s) (catPlacements t)"

interpretation touch: tx_frame "sameExcept X" for X
proof unfold_locales
  show "sameExcept X s s" for s by (simp add: sameExcept_def kept_refl)
  show "sameExcept X s t \<Longrightarrow> sameExcept X t u \<Longrightarrow> sameExcept X s u" for s t u
    unfolding sameExcept_def by (elim conjE, intro conjI) (erule (1) kept_trans)+
qed

lemma sameExcept_mono: "X \<subseteq> Y \<Longrightarrow> sameExcept X s t \<Longrightarrow> sameExcept Y s t"
  unfolding sameExcept_def by (elim conjE, intro conjI; erule kept_mono, blast)

lemma touches_mono: "steps (sameExcept X) m \<Longrightarrow> X \<subseteq> Y \<Longrightarrow> steps (sameExcept Y) m"
  by (auto simp: steps_def intro: sameExcept_mono)

named_theorems touches "tables a statement may write"

lemma newID_touches [touches]: "steps (sameExcept X) (newID r)"
  by (auto simp: steps_def newID_def sameExcept_def kept_refl)

lemma now_touches [touches]: "steps (sameExcept X) (now r)"
  by (auto simp: steps_def now_def sameExcept_def kept_refl)

lemma updatePlugins_touches [touches]: "TPlugins \<in> X \<Longrightarrow> steps (sameExcept X) (updatePlugins c f)"
  by (auto simp: steps_def updatePlugins_def sameExcept_def kept_def)

lemma updateReviews_touches [touches]: "TReviews \<in> X \<Longrightarrow> steps (sameExcept X) (updateReviews c f)"
  by (auto simp: steps_def updateReviews_def sameExcept_def kept_def)

lemma mustAffect_touches [touches]: "steps (sameExcept X) (mustAffect n)"
  by (auto simp: mustAffect_def intro: touch.steps_refuse)

lemma mustChangeState_touches [touches]: "steps (sameExcept X) (mustChangeState n)"
  by (auto simp: mustChangeState_def intro: touch.steps_refuse)

lemma getOwnedForUpdate_touches [touches]: "steps (sameExcept X) (getOwnedForUpdate sc pid)"
  by (auto simp: getOwnedForUpdate_def intro: touch.steps_rules)

lemma getReviewed_touches [touches]: "steps (sameExcept X) (getReviewedPluginForUpdate sp pid)"
  by (auto simp: getReviewedPluginForUpdate_def intro: touch.steps_rules)

lemma insertAudit_touches [touches]: "TAudits \<in> X \<Longrightarrow> steps (sameExcept X) (insertAudit i t p act m b a)"
  by (auto simp: insertAudit_def sameExcept_def kept_def intro: touch.steps_modify)

lemma ensurePlacement_touches [touches]:
  "TPlacements \<in> X \<Longrightarrow> steps (sameExcept X) (ensureVisibleDefaultPlacement r t pid cat)"
  unfolding ensureVisibleDefaultPlacement_def
  by (intro touch.steps_rules touch.steps_modify touches) (auto simp: sameExcept_def kept_def)

lemma syncDefaultPlacement_touches [touches]:
  "TPlacements \<in> X \<Longrightarrow> steps (sameExcept X) (syncDefaultPlacement r t pid cat)"
  unfolding syncDefaultPlacement_def
  by (intro touch.steps_rules touch.steps_modify touches) (auto simp: sameExcept_def kept_def)

lemma reads_touches: "steps (=) m \<Longrightarrow> steps (sameExcept X) m"
  by (auto simp: touch.frame_refl intro!: stepsI dest!: readsD)

lemma statements_read [reads]:
  "steps (=) (mustAffect n)" "steps (=) (mustChangeState n)" "steps (=) (getOwnedForUpdate sc pid)"
  "steps (=) (getReviewedPluginForUpdate sp pid)"
  unfolding mustAffect_def mustChangeState_def getOwnedForUpdate_def getReviewedPluginForUpdate_def
  by (intro reading.steps_rules)+

text \<open>Errors of the statements.\<close>

lemma statements_errors [errors]:
  "raises E (newID r)" "raises E (now r)" "raises E (updatePlugins c f)" "raises E (updateReviews d g)"
  by (simp_all add: raises_def newID_def now_def updatePlugins_def updateReviews_def)

lemma mustAffect_errors [errors]: "ErrNotFound \<in> E \<Longrightarrow> raises E (mustAffect n)"
  by (simp add: mustAffect_def errors)

lemma mustChangeState_errors [errors]: "ErrConflict \<in> E \<Longrightarrow> raises E (mustChangeState n)"
  by (simp add: mustChangeState_def errors)

lemma getOwnedForUpdate_errors [errors]: "ErrNotFound \<in> E \<Longrightarrow> raises E (getOwnedForUpdate sc pid)"
  by (simp add: getOwnedForUpdate_def errors)

lemma getReviewed_errors [errors]: "ErrNotFound \<in> E \<Longrightarrow> raises E (getReviewedPluginForUpdate sp pid)"
  by (simp add: getReviewedPluginForUpdate_def errors)

lemma insertAudit_errors [errors]: "raises E (insertAudit i t p act m b a)"
  by (simp add: insertAudit_def errors)

lemma ensurePlacement_errors [errors]: "raises E (ensureVisibleDefaultPlacement r t pid cat)"
  unfolding ensureVisibleDefaultPlacement_def by (intro errors)

lemma syncDefaultPlacement_errors [errors]: "raises E (syncDefaultPlacement r t pid cat)"
  unfolding syncDefaultPlacement_def by (intro errors)

text \<open>Evaluation of the statements.\<close>

lemma eval_statements [tx_eval]:
  "bindT (newID r) fi s = fi (idAt r (idCount s)) (s\<lparr>idCount := Suc (idCount s)\<rparr>)"
  "bindT (now r) f s = f (nowAt r (tickCount s)) (s\<lparr>tickCount := Suc (tickCount s)\<rparr>)"
  "bindT (updatePlugins c g) f s = f (affected c g (plugins s)) (s\<lparr>plugins := updateWhere c g (plugins s)\<rparr>)"
  "bindT (updateReviews d h) f s = f (affected d h (reviews s)) (s\<lparr>reviews := updateWhere d h (reviews s)\<rparr>)"
  "thenT (mustAffect n) m s = (if n = 0 then Inl ErrNotFound else m s)"
  "thenT (mustChangeState n) m s = (if n = 0 then Inl ErrConflict else m s)"
  "bindT (getOwnedForUpdate sc pid) f' s =
     (case find (ownedRow sc pid) (plugins s) of None \<Rightarrow> Inl ErrNotFound | Some p \<Rightarrow> f' p s)"
  "bindT (getReviewedPluginForUpdate sp pid) f' s =
     (case find (reviewedRow sp pid) (plugins s) of None \<Rightarrow> Inl ErrNotFound | Some p \<Rightarrow> f' p s)"
  "getOwnedForUpdate sc pid s =
     (case find (ownedRow sc pid) (plugins s) of None \<Rightarrow> Inl ErrNotFound | Some p \<Rightarrow> Inr (p, s))"
  "getReviewedPluginForUpdate sp pid s =
     (case find (reviewedRow sp pid) (plugins s) of None \<Rightarrow> Inl ErrNotFound | Some p \<Rightarrow> Inr (p, s))"
  by (simp_all add: newID_def now_def updatePlugins_def updateReviews_def mustAffect_def mustChangeState_def
      getOwnedForUpdate_def getReviewedPluginForUpdate_def bindT_def thenT_def refuseT_def returnT_def throwT_def
      queryT_def someT_def split: option.splits)

text \<open>The audit row a call of \<open>insertAudit\<close> appends.\<close>

definition auditRow :: "string \<Rightarrow> time \<Rightarrow> Plugin \<Rightarrow> string \<Rightarrow> Operator \<Rightarrow> string \<Rightarrow> string \<Rightarrow> PluginAuditLog" where
  "auditRow auditID t p action m beforeHash after =
     \<lparr>a_ID = auditID, a_PluginID = p_ID p, a_Action = action, a_OperatorID = o_OperatorID m,
      a_OperatorName = o_OperatorName m, a_RequestID = o_RequestID m,
      a_BeforeHash = (if beforeHash \<noteq> '''' then Some beforeHash else None),
      a_AfterHash = (if after \<noteq> '''' then Some after else None),
      a_ManifestSnapshot = p_Manifest p, a_PluginSnapshot = p_Package p,
      a_Remark = o_Remark m, a_CreatedAt = t\<rparr>"

lemma auditRow_fields [simp]:
  "a_PluginID (auditRow i t p act m b a) = p_ID p" "a_Action (auditRow i t p act m b a) = act"
  "a_OperatorID (auditRow i t p act m b a) = o_OperatorID m" "a_CreatedAt (auditRow i t p act m b a) = t"
  by (simp_all add: auditRow_def)

lemma eval_audit [tx_eval]:
  "thenT (insertAudit i t p act m b a) k s = k (s\<lparr>audits := audits s @ [auditRow i t p act m b a]\<rparr>)"
  "insertAudit i t p act m b a s = Inr ((), s\<lparr>audits := audits s @ [auditRow i t p act m b a]\<rparr>)"
  by (simp_all add: insertAudit_def auditRow_def modifyT_def thenT_def bindT_def)

text \<open>Inversions of the statements, for unfolding a successful run.\<close>

lemma newID_Inr [tx_simps]:
  "newID r s = Inr (i, t) \<longleftrightarrow> i = idAt r (idCount s) \<and> t = s\<lparr>idCount := Suc (idCount s)\<rparr>"
  by (auto simp: newID_def)

lemma now_Inr [tx_simps]:
  "now r s = Inr (n, t) \<longleftrightarrow> n = nowAt r (tickCount s) \<and> t = s\<lparr>tickCount := Suc (tickCount s)\<rparr>"
  by (auto simp: now_def)

lemma updatePlugins_Inr [tx_simps]:
  "updatePlugins c f s = Inr (n, t) \<longleftrightarrow>
     n = affected c f (plugins s) \<and> t = s\<lparr>plugins := updateWhere c f (plugins s)\<rparr>"
  by (auto simp: updatePlugins_def)

lemma updateReviews_Inr [tx_simps]:
  "updateReviews c f s = Inr (n, t) \<longleftrightarrow>
     n = affected c f (reviews s) \<and> t = s\<lparr>reviews := updateWhere c f (reviews s)\<rparr>"
  by (auto simp: updateReviews_def)

lemma mustAffect_Inr [tx_simps]: "mustAffect n s = Inr (u, t) \<longleftrightarrow> 0 < n \<and> t = s"
  by (auto simp: mustAffect_def tx_simps)

lemma mustChangeState_Inr [tx_simps]: "mustChangeState n s = Inr (u, t) \<longleftrightarrow> 0 < n \<and> t = s"
  by (auto simp: mustChangeState_def tx_simps)

lemma getOwnedForUpdate_Inr [tx_simps]:
  "getOwnedForUpdate sc pid s = Inr (p, t) \<longleftrightarrow> find (ownedRow sc pid) (plugins s) = Some p \<and> t = s"
  by (auto simp: getOwnedForUpdate_def tx_simps)

lemma getReviewed_Inr [tx_simps]:
  "getReviewedPluginForUpdate sp pid s = Inr (p, t) \<longleftrightarrow> find (reviewedRow sp pid) (plugins s) = Some p \<and> t = s"
  by (auto simp: getReviewedPluginForUpdate_def tx_simps)

lemma insertAudit_Inr [tx_simps]:
  "insertAudit i n p act m b a s = Inr (u, t) \<longleftrightarrow>
     t = s\<lparr>audits := audits s @
       [\<lparr>a_ID = i, a_PluginID = p_ID p, a_Action = act, a_OperatorID = o_OperatorID m,
         a_OperatorName = o_OperatorName m, a_RequestID = o_RequestID m,
         a_BeforeHash = (if b \<noteq> '''' then Some b else None),
         a_AfterHash = (if a \<noteq> '''' then Some a else None),
         a_ManifestSnapshot = p_Manifest p, a_PluginSnapshot = p_Package p,
         a_Remark = o_Remark m, a_CreatedAt = n\<rparr>]\<rparr>"
  by (auto simp: insertAudit_def tx_simps)

lemma ensurePlacement_placed:
  assumes "ensureVisibleDefaultPlacement r t pid cat s = Inr (u, s')"
  shows "marketPlaced s' pid"
  using assms
  by (fastforce simp: ensureVisibleDefaultPlacement_def tx_simps marketPlaced_def bex_updateWhere
      split: if_splits)

text \<open>No statement hides a visible placement or gives a plugin a second one on a shelf.\<close>

definition placementKey :: "PluginPlacement \<Rightarrow> string \<times> string" where
  "placementKey x = (pl_PlacementCode x, pl_PluginID x)"

definition placementsKept :: "Store \<Rightarrow> Store \<Rightarrow> bool" where
  "placementsKept s t \<longleftrightarrow> (distinct (map placementKey (placements s)) \<longrightarrow> distinct (map placementKey (placements t))) \<and>
     (\<forall>pid. marketPlaced s pid \<longrightarrow> marketPlaced t pid)"

interpretation shelfFrame: tx_frame placementsKept
  by unfold_locales (simp_all add: placementsKept_def)

lemma placementsKept_same: "placements t = placements s \<Longrightarrow> placementsKept s t"
  by (simp add: placementsKept_def marketPlaced_def)

lemma placementsKept_add:
  "placements t = placements s @ [x] \<Longrightarrow> placementKey x \<notin> placementKey ` set (placements s) \<Longrightarrow> placementsKept s t"
  by (auto simp: placementsKept_def marketPlaced_def)

lemma placementsKept_update:
  assumes "placements t = updateWhere c f (placements s)"
    and "\<And>x. c x \<Longrightarrow> placementKey (f x) = placementKey x \<and> (pl_PlacementCode x = defaultPlacementCode \<longrightarrow> pl_Visible x \<longrightarrow> pl_Visible (f x))"
  shows "placementsKept s t"
proof -
  have "map placementKey (placements t) = map placementKey (placements s)" unfolding assms(1) by (rule map_updateWhere_key) (use assms(2) in blast)
  moreover have "marketPlaced t pid" if "marketPlaced s pid" for pid
  proof -
    from that obtain x where x: "x \<in> set (placements s)" "pl_PluginID x = pid" "pl_PlacementCode x = defaultPlacementCode" "pl_Visible x"
      by (auto simp: marketPlaced_def)
    let ?y = "if c x then f x else x"
    have "?y \<in> set (placements t)" using x(1) by (simp add: assms(1) set_updateWhere)
    moreover have "pl_PluginID ?y = pid" "pl_PlacementCode ?y = defaultPlacementCode" "pl_Visible ?y"
      using x assms(2) [of x] by (auto simp: placementKey_def)
    ultimately show ?thesis unfolding marketPlaced_def by blast
  qed
  ultimately show ?thesis by (simp add: placementsKept_def)
qed

lemma touches_shelf: "steps (sameExcept X) m \<Longrightarrow> TPlacements \<notin> X \<Longrightarrow> steps placementsKept m"
  by (erule steps_mono) (simp add: placementsKept_same sameExcept_def kept_def)

lemma newID_shelf: "steps placementsKept (newID r)"
  by (rule touches_shelf [OF newID_touches [of "{}"]]) simp

lemma default_insert_shelf:
  assumes "\<not> (\<exists>x \<in> set (placements s). pl_PluginID x = pid \<and> pl_PlacementCode x = defaultPlacementCode)"
    and "newID r s = Inr (i, w)" and "placements s' = placements w @ [x]" and "placementKey x = (defaultPlacementCode, pid)"
  shows "placementsKept s s'"
proof (rule placementsKept_add)
  show "placements s' = placements s @ [x]" using assms(2,3) by (auto simp: newID_def)
  show "placementKey x \<notin> placementKey ` set (placements s)" using assms(1) unfolding assms(4) by (auto simp: placementKey_def)
qed

lemma ensurePlacement_shelf: "steps placementsKept (ensureVisibleDefaultPlacement r t pid cat)"
proof (rule stepsI)
  fix s u s' assume run: "ensureVisibleDefaultPlacement r t pid cat s = Inr (u, s')"
  show "placementsKept s s'"
  proof (cases "\<exists>x \<in> set (placements s). pl_PluginID x = pid \<and> pl_PlacementCode x = defaultPlacementCode")
    case True
    with run have "placements s' = updateWhere (\<lambda>x. pl_PluginID x = pid \<and> pl_PlacementCode x = defaultPlacementCode \<and> \<not> pl_Visible x)
        (\<lambda>x. x\<lparr>pl_Visible := True, pl_UpdatedAt := t\<rparr>) (placements s)"
      by (auto simp: ensureVisibleDefaultPlacement_def tx_simps)
    then show ?thesis by (rule placementsKept_update) (simp add: placementKey_def)
  next
    case False
    with run obtain i w x where "newID r s = Inr (i, w)" "placements s' = placements w @ [x]" "placementKey x = (defaultPlacementCode, pid)"
      by (fastforce simp: ensureVisibleDefaultPlacement_def tx_simps placementKey_def)
    with False show ?thesis by (rule default_insert_shelf)
  qed
qed

lemma syncDefaultPlacement_shelf: "steps placementsKept (syncDefaultPlacement r t pid cat)"
proof (rule stepsI)
  fix s u s' assume run: "syncDefaultPlacement r t pid cat s = Inr (u, s')"
  let ?f = "updateWhere (\<lambda>x. pl_PluginID x = pid \<and> pl_CategoryID x \<noteq> cat) (\<lambda>x. x\<lparr>pl_CategoryID := cat, pl_UpdatedAt := t\<rparr>)"
  have update: "placementsKept a b" if "placements b = ?f (placements a)" for a b
    using that by (rule placementsKept_update) (simp add: placementKey_def)
  show "placementsKept s s'"
  proof (cases "\<exists>x \<in> set (placements s). pl_PluginID x = pid \<and> pl_PlacementCode x = defaultPlacementCode")
    case True
    with run have "placements s' = ?f (placements s)" by (auto simp: syncDefaultPlacement_def tx_simps)
    then show ?thesis by (rule update)
  next
    case False
    let ?x = "\<lambda>i. \<lparr>pl_ID = i, pl_PlacementCode = defaultPlacementCode, pl_PluginID = pid, pl_CategoryID = cat,
                  pl_Visible = True, pl_SortOrder = 0, pl_CreatedAt = t, pl_UpdatedAt = t\<rparr>"
    from False run obtain i w where new: "newID r s = Inr (i, w)"
      and s': "s' = w\<lparr>placements := ?f (placements w @ [?x i])\<rparr>"
      by (auto simp: syncDefaultPlacement_def tx_simps simp del: updateWhere_Cons)
    have "placementsKept s (w\<lparr>placements := placements w @ [?x i]\<rparr>)"
      by (rule default_insert_shelf [OF False new, where x = "?x i"]) (simp_all add: placementKey_def)
    moreover have "placementsKept (w\<lparr>placements := placements w @ [?x i]\<rparr>) s'" by (rule update) (simp add: s')
    ultimately show ?thesis by (rule shelfFrame.frame_trans)
  qed
qed

lemma sameExcept_plugins: "sameExcept X s t \<Longrightarrow> TPlugins \<notin> X \<Longrightarrow> plugins t = plugins s"
  by (simp add: sameExcept_def kept_def)

lemma sameExcept_relations: "sameExcept X s t \<Longrightarrow> TRelations \<notin> X \<Longrightarrow> relations t = relations s"
  by (simp add: sameExcept_def kept_def)

lemma sameExcept_reviews: "sameExcept X s t \<Longrightarrow> TReviews \<notin> X \<Longrightarrow> reviews t = reviews s"
  by (simp add: sameExcept_def kept_def)

lemma sameExcept_receipts: "sameExcept X s t \<Longrightarrow> TReceipts \<notin> X \<Longrightarrow> receipts t = receipts s"
  by (simp add: sameExcept_def kept_def)

lemma sameExcept_audits: "sameExcept X s t \<Longrightarrow> TAudits \<notin> X \<Longrightarrow> audits t = audits s"
  by (simp add: sameExcept_def kept_def)

lemma sameExcept_placements: "sameExcept X s t \<Longrightarrow> TPlacements \<notin> X \<Longrightarrow> placements t = placements s"
  by (simp add: sameExcept_def kept_def)

lemma sameExcept_versions: "sameExcept X s t \<Longrightarrow> TVersions \<notin> X \<Longrightarrow> versions t = versions s"
  by (simp add: sameExcept_def kept_def)

lemma sameExcept_groups: "sameExcept X s t \<Longrightarrow> TGroups \<notin> X \<Longrightarrow> groups t = groups s"
  by (simp add: sameExcept_def kept_def)

lemma sameExcept_releases: "sameExcept X s t \<Longrightarrow> TReleases \<notin> X \<Longrightarrow> releases t = releases s"
  by (simp add: sameExcept_def kept_def)

lemma sameExcept_others:
  "sameExcept X s t \<Longrightarrow> TPolicies \<notin> X \<Longrightarrow> policies t = policies s"
  "sameExcept X s t \<Longrightarrow> TSuspensions \<notin> X \<Longrightarrow> suspensions t = suspensions s"
  "sameExcept X s t \<Longrightarrow> TVisReviews \<notin> X \<Longrightarrow> visReviews t = visReviews s"
  by (simp_all add: sameExcept_def kept_def)

lemmas sameExcept_tables = sameExcept_others sameExcept_releases sameExcept_plugins sameExcept_relations sameExcept_reviews
  sameExcept_receipts sameExcept_audits sameExcept_placements sameExcept_versions sameExcept_groups

section \<open>Kept columns and kept history\<close>

text \<open>Two more frames: a column of the plugin table that a transaction does not write, and the
  append-only tables, which a transaction may only extend.\<close>

definition keepsCol :: "(Plugin \<Rightarrow> 'c) \<Rightarrow> Store \<Rightarrow> Store \<Rightarrow> bool" where
  "keepsCol f s t \<longleftrightarrow> map f (plugins t) = map f (plugins s)"

interpretation column: tx_frame "keepsCol f" for f
  by unfold_locales (auto simp: keepsCol_def)

definition appendOnly :: "Store \<Rightarrow> Store \<Rightarrow> bool" where
  "appendOnly s t \<longleftrightarrow> prefix (audits s) (audits t) \<and> prefix (versions s) (versions t) \<and>
     prefix (releases s) (releases t) \<and> prefix (receipts s) (receipts t)"

interpretation history: tx_frame appendOnly
  by unfold_locales (auto simp: appendOnly_def intro: prefix_order.trans)

named_theorems keeps "columns a statement does not write"

lemma updatePlugins_keeps [keeps]:
  "(\<And>q. c q \<Longrightarrow> f (g q) = f q) \<Longrightarrow> steps (keepsCol f) (updatePlugins c g)"
  by (auto simp: keepsCol_def map_updateWhere_key tx_simps intro!: stepsI)

lemma touches_keeps: "steps (sameExcept X) m \<Longrightarrow> TPlugins \<notin> X \<Longrightarrow> steps (keepsCol f) m"
  by (auto simp: keepsCol_def elim!: steps_mono dest: sameExcept_plugins)

lemma touches_history:
  "steps (sameExcept X) m \<Longrightarrow> {TAudits, TVersions, TReleases, TReceipts} \<inter> X = {} \<Longrightarrow> steps appendOnly m"
  by (erule steps_mono) (simp add: appendOnly_def sameExcept_def kept_def)

lemma keepsCol_row:
  assumes "keepsCol f s t" and "q \<in> set (plugins t)"
  obtains p where "p \<in> set (plugins s)" and "f p = f q"
proof -
  have "f q \<in> set (map f (plugins t))" using assms(2) by simp
  then have "f q \<in> set (map f (plugins s))" using assms(1) by (simp only: keepsCol_def)
  with that show thesis by auto
qed

named_theorems appends "statements that keep the history"

lemma insertAudit_appends [appends]: "steps appendOnly (insertAudit i t p act m b a)"
  by (auto simp: insertAudit_def appendOnly_def intro!: history.steps_modify)

lemma modify_appends:
  "(\<And>s. prefix (audits s) (audits (f s)) \<and> prefix (versions s) (versions (f s)) \<and>
     prefix (releases s) (releases (f s)) \<and> prefix (receipts s) (receipts (f s))) \<Longrightarrow> steps appendOnly (modifyT f)"
  by (rule history.steps_modify) (simp add: appendOnly_def)

section \<open>Sample rows\<close>

text \<open>Rows on which the properties are instantiated.\<close>

definition samplePlugin :: "string \<Rightarrow> PluginType \<Rightarrow> string \<Rightarrow> Plugin" where
  "samplePlugin i ty owner = \<lparr>p_ID = i, p_Name = i, p_Type = ty, p_IsEmbedded = False, p_CategoryID = None,
     p_Tags = None, p_Publisher = owner, p_OwnerUID = owner, p_SpaceID = Some ''s1'',
     p_Visibility = PluginVisibilitySpace, p_ListingState = PluginListingStatePublished, p_Icon = '''',
     p_ToolCount = 0, p_Rating = None, p_Manifest = None, p_Package = None, p_AttachmentKeys = None,
     p_ManifestHash = ''mh'', p_PluginHash = ''ph'', p_CurrentVersionID = None, p_CurrentVersion = None,
     p_PublishedVersionID = None, p_NameKey = None, p_PublishedNameKey = None, p_NameScope = '''',
     p_Status = 1, p_CreatedAt = 0, p_UpdatedAt = 0, p_DeletedAt = None\<rparr>"

definition sampleEdge :: "string \<Rightarrow> string \<Rightarrow> string \<Rightarrow> PluginRelation" where
  "sampleEdge source target ty = \<lparr>r_ID = source @ target, r_SourcePluginID = source, r_TargetPluginID = target,
     r_TargetVersionID = None, r_TargetPluginType = None, r_Type = ty, r_SortOrder = 0, r_Data = Some JNull, r_Status = 1,
     r_CreatedBy = '''', r_CreatedAt = 0, r_UpdatedAt = 0, r_DeletedAt = None\<rparr>"

definition sampleRepo :: Repo where
  "sampleRepo = \<lparr>versionManagement = False, references = False, nowAt = (\<lambda>n. n), idAt = (\<lambda>n. replicate n CHR ''i''),
     digest = d_PluginHash, relationsDigest = (\<lambda>_. ''d''), baselineDigest = (\<lambda>_. ''b''),
     planDigest = (\<lambda>_ _. ''r''), impactDigest = (\<lambda>_. ''r''), sha256 = (\<lambda>x. x), unmarshal = (\<lambda>_. None), nfkc = (\<lambda>x. x), foldCase = (\<lambda>x. x)\<rparr>"

definition sampleOwner :: Scope where
  "sampleOwner = \<lparr>s_CallerUID = ''u1'', s_SpaceID = ''s1'', s_Admin = False\<rparr>"

definition sampleOperator :: Operator where
  "sampleOperator = \<lparr>o_OperatorID = ''u1'', o_OperatorName = ''u'', o_RequestID = ''q'', o_Remark = None\<rparr>"

text \<open>A skill, and an expert that uses it.\<close>

definition sampleStore :: Store where
  "sampleStore = emptyStore\<lparr>
     plugins := [samplePlugin ''k'' PluginTypeSkill ''u1'', samplePlugin ''e'' PluginTypeExpert ''u2''],
     relations := [sampleEdge ''e'' ''k'' ''expert_skill'']\<rparr>"

definition sampleVersion :: "string \<Rightarrow> string \<Rightarrow> PluginRelation list \<Rightarrow> PluginVersion" where
  "sampleVersion pid vid rels = \<lparr>v_ID = vid, v_PluginID = pid, v_Version = ''1'', v_DeclaredVersion = Some ''1.0.0'',
     v_Manifest = None, v_Package = None, v_AttachmentKeys = None, v_ManifestHash = ''mh'', v_PluginHash = ''ph'',
     v_Relations = rels, v_Changelog = None, v_CreatedBy = '''', v_CreatedAt = 0,
     v_SnapshotSchemaVersion = Some 1, v_Artifacts = Some []\<rparr>"

definition sampleRelease :: "string \<Rightarrow> string \<Rightarrow> PluginVersionRelease" where
  "sampleRelease pid vid = \<lparr>rel_PluginID = pid, rel_VersionID = vid, rel_VersionLabel = ''1.0.0'',
     rel_ReleasedBy = '''', rel_ReleasedAt = 0\<rparr>"

end
