(* ===== verification/Graph.thy ===== *)
theory Graph
  imports Store
begin

text \<open>
  The container graph: embedded children of an expert or an expert team and how listing
  and delisting carry over to them (\<open>write.go\<close>, \<open>review.go\<close>), and the suspension of
  published dependents of a delisted plugin (\<open>dependency_suspension.go\<close>). Both graph
  walks of the code are here: the two-level walk of embedded children, and the queue of
  dependents, whose fuel is shown to be enough.
\<close>

section \<open>Embedded children\<close>

definition liveEmbedded :: "Store \<Rightarrow> string \<Rightarrow> bool" where
  "liveEmbedded s pid \<longleftrightarrow>
     (\<exists>p \<in> set (plugins s). p_ID p = pid \<and> p_IsEmbedded p \<and> p_Status p = 1 \<and> p_DeletedAt p = None)"

definition embeddedRelationTargets :: "Store \<Rightarrow> string \<Rightarrow> string \<Rightarrow> string list" where
  "embeddedRelationTargets s source relationType =
     map r_TargetPluginID (sort_key r_SortOrder (sort_key r_ID
       (filter (\<lambda>r. r_SourcePluginID r = source \<and> r_Type r = relationType \<and> r_DeletedAt r = None \<and>
                    liveEmbedded s (r_TargetPluginID r)) (relations s))))"

definition collectEmbeddedChildren :: "Store \<Rightarrow> string \<Rightarrow> PluginType \<Rightarrow> string list" where
  "collectEmbeddedChildren s topID topType =
     (case topType of
        PluginTypeExpert \<Rightarrow> embeddedRelationTargets s topID ''expert_skill''
      | PluginTypeExpertTeam \<Rightarrow>
          concat (map (\<lambda>member. member # embeddedRelationTargets s member ''expert_skill'')
            (embeddedRelationTargets s topID ''expert_team_expert''))
      | _ \<Rightarrow> [])"

text \<open>The assignment of every statement that takes a row down.\<close>

definition markDown :: "time \<Rightarrow> Plugin \<Rightarrow> Plugin" where
  "markDown t p = p\<lparr>p_ListingState := PluginListingStateDelisted, p_UpdatedAt := t\<rparr>"

definition demoteChild :: "string \<Rightarrow> time \<Rightarrow> string \<Rightarrow> unit stx" where
  "demoteChild spaceID t pid =
     bindT (updatePlugins
       (\<lambda>p. p_ID p = pid \<and> p_SpaceID p = Some spaceID \<and> p_IsEmbedded p \<and>
            p_ListingState p = PluginListingStatePublished \<and> p_DeletedAt p = None)
       (markDown t)) (\<lambda>_. returnT ())"

definition demoteEmbeddedChildren :: "string \<Rightarrow> PluginType \<Rightarrow> string \<Rightarrow> time \<Rightarrow> unit stx" where
  "demoteEmbeddedChildren topID topType spaceID t =
     bindT (queryT (\<lambda>s. collectEmbeddedChildren s topID topType)) (forT (demoteChild spaceID t))"

definition promoteChild :: "string \<Rightarrow> PluginVisibility \<Rightarrow> time \<Rightarrow> string \<Rightarrow> unit stx" where
  "promoteChild spaceID audience t pid =
     bindT (updatePlugins
       (\<lambda>p. p_ID p = pid \<and> p_SpaceID p = Some spaceID \<and> p_IsEmbedded p \<and>
            p_ListingState p \<noteq> PluginListingStatePublished \<and> p_DeletedAt p = None)
       (\<lambda>p. p\<lparr>p_Visibility := audience, p_ListingState := PluginListingStatePublished, p_UpdatedAt := t\<rparr>))
       (\<lambda>_. returnT ())"

definition promoteEmbeddedIDs :: "string list \<Rightarrow> string \<Rightarrow> PluginVisibility \<Rightarrow> time \<Rightarrow> unit stx" where
  "promoteEmbeddedIDs childIDs spaceID audience t = forT (promoteChild spaceID audience t) childIDs"

definition promoteEmbeddedChildren ::
  "string \<Rightarrow> PluginType \<Rightarrow> string \<Rightarrow> PluginVisibility \<Rightarrow> time \<Rightarrow> unit stx" where
  "promoteEmbeddedChildren topID topType spaceID audience t =
     bindT (queryT (\<lambda>s. collectEmbeddedChildren s topID topType))
       (\<lambda>childIDs. promoteEmbeddedIDs childIDs spaceID audience t)"

text \<open>The frozen topology of an approved submission, without the live edges of the top.\<close>

definition embeddedMember :: "Store \<Rightarrow> string \<Rightarrow> string \<Rightarrow> string \<Rightarrow> bool" where
  "embeddedMember s topID spaceID member \<longleftrightarrow>
     (\<exists>p \<in> set (plugins s). p_ID p = member \<and> p_Type p = PluginTypeExpert \<and> p_SpaceID p = Some spaceID \<and>
        (\<exists>c \<in> set (plugins s). p_ID c = topID \<and> p_OwnerUID p = p_OwnerUID c) \<and>
        p_Status p = 1 \<and> p_DeletedAt p = None \<and> p_IsEmbedded p)"

definition frozenEmbeddedIDs ::
  "Store \<Rightarrow> string \<Rightarrow> PluginType \<Rightarrow> PluginRelation list \<Rightarrow> string \<Rightarrow> string list" where
  "frozenEmbeddedIDs s topID topType frozen spaceID =
     (case topType of
        PluginTypeExpert \<Rightarrow> map r_TargetPluginID (filter (\<lambda>rel. r_Type rel = ''expert_skill'') frozen)
      | PluginTypeExpertTeam \<Rightarrow>
          concat (map (\<lambda>rel. r_TargetPluginID rel # embeddedRelationTargets s (r_TargetPluginID rel) ''expert_skill'')
            (filter (\<lambda>rel. r_Type rel = ''expert_team_expert'' \<and>
                           embeddedMember s topID spaceID (r_TargetPluginID rel)) frozen))
      | _ \<Rightarrow> [])"

definition promoteFrozenEmbeddedChildren ::
  "string \<Rightarrow> PluginType \<Rightarrow> PluginRelation list \<Rightarrow> string \<Rightarrow> PluginVisibility \<Rightarrow> time \<Rightarrow> unit stx" where
  "promoteFrozenEmbeddedChildren topID topType frozen spaceID audience t =
     bindT (queryT (\<lambda>s. frozenEmbeddedIDs s topID topType frozen spaceID))
       (\<lambda>ids. promoteEmbeddedIDs ids spaceID audience t)"

section \<open>Suspension of published dependents\<close>

definition maxGraphNodes :: nat where
  "maxGraphNodes = 30 * (1 + 20)"

text \<open>SQL's \<open>COALESCE\<close> of two nullable columns.\<close>

definition coalesce :: "'a option \<Rightarrow> 'a option \<Rightarrow> 'a option" where
  "coalesce a b = (case a of None \<Rightarrow> b | Some x \<Rightarrow> Some x)"

definition publishedOf :: "Store \<Rightarrow> string \<Rightarrow> string option" where
  "publishedOf s pid =
     (case lookupBy p_ID pid (plugins s) of None \<Rightarrow> None | Some p \<Rightarrow> p_PublishedVersionID p)"

definition liveSnapshotEdge :: "PluginRelation \<Rightarrow> bool" where
  "liveSnapshotEdge e \<longleftrightarrow> r_Status e = 1 \<and> r_DeletedAt e = None"

definition usesTargetLeafSQL :: "Store \<Rightarrow> string \<Rightarrow> string option \<Rightarrow> string \<Rightarrow> bool" where
  "usesTargetLeafSQL s pid version target \<longleftrightarrow>
     (\<exists>mv \<in> set (versions s). v_PluginID mv = pid \<and> version = Some (v_ID mv) \<and>
        (\<exists>me \<in> set (v_Relations mv). r_TargetPluginID me = target \<and> liveSnapshotEdge me))"

definition usesTargetSnapshotSQL :: "Store \<Rightarrow> string \<Rightarrow> string option \<Rightarrow> string \<Rightarrow> bool" where
  "usesTargetSnapshotSQL s pid version target \<longleftrightarrow>
     usesTargetLeafSQL s pid version target \<or>
     (\<exists>sv \<in> set (versions s). v_PluginID sv = pid \<and> version = Some (v_ID sv) \<and>
        (\<exists>e \<in> set (v_Relations sv). r_Type e = ''expert_team_expert'' \<and> liveSnapshotEdge e \<and>
           (\<exists>member \<in> set (plugins s). p_ID member = r_TargetPluginID e \<and>
              usesTargetLeafSQL s (p_ID member)
                (coalesce (r_TargetVersionID e) (p_PublishedVersionID member)) target)))"

definition usesTargetLive :: "Store \<Rightarrow> string \<Rightarrow> string \<Rightarrow> bool" where
  "usesTargetLive s pid target \<longleftrightarrow>
     (\<exists>l \<in> set (relations s). r_SourcePluginID l = pid \<and> r_Status l = 1 \<and> r_DeletedAt l = None \<and>
        (r_TargetPluginID l = target \<or>
         r_Type l = ''expert_team_expert'' \<and>
         (usesTargetLeafSQL s (r_TargetPluginID l)
            (coalesce (r_TargetVersionID l) (publishedOf s (r_TargetPluginID l))) target \<or>
          (\<exists>ml \<in> set (relations s). r_TargetVersionID l = None \<and> publishedOf s (r_TargetPluginID l) = None \<and>
             r_SourcePluginID ml = r_TargetPluginID l \<and> r_TargetPluginID ml = target \<and>
             r_Status ml = 1 \<and> r_DeletedAt ml = None))))"

definition dependsOn :: "Store \<Rightarrow> string \<Rightarrow> Plugin \<Rightarrow> bool" where
  "dependsOn s target p \<longleftrightarrow>
     (case p_PublishedVersionID p of
        Some v \<Rightarrow> usesTargetSnapshotSQL s (p_ID p) (Some v) target
      | None \<Rightarrow> usesTargetLive s (p_ID p) target)"

definition incomingSource :: "string \<Rightarrow> Store \<Rightarrow> string \<Rightarrow> Plugin \<Rightarrow> bool" where
  "incomingSource space s target p \<longleftrightarrow>
     p_SpaceID p = Some space \<and> p_Status p = 1 \<and> p_DeletedAt p = None \<and>
     p_ListingState p = PluginListingStatePublished \<and>
     (p_Type p = PluginTypeExpert \<or> p_Type p = PluginTypeExpertTeam) \<and> dependsOn s target p"

definition incomingPublishedSources :: "string \<Rightarrow> string \<Rightarrow> string list stx" where
  "incomingPublishedSources space target =
     bindT (queryT (\<lambda>s. take (maxGraphNodes + 1) (sort (map p_ID
       (filter (incomingSource space s target) (plugins s))))))
       (\<lambda>ids. thenT (refuseT (length ids > maxGraphNodes) ErrGraphTooLarge) (returnT ids))"

definition suspendDependency :: "string \<Rightarrow> string \<Rightarrow> time \<Rightarrow> unit stx" where
  "suspendDependency pid source t =
     thenT (modifyT (\<lambda>s.
              if \<exists>x \<in> set (suspensions s). sus_PluginID x = pid \<and> sus_SourcePluginID x = source then s
              else s\<lparr>suspensions := suspensions s @
                      [\<lparr>sus_PluginID = pid, sus_SourcePluginID = source, sus_CreatedAt = t\<rparr>]\<rparr>))
       (bindT (updatePlugins
          (\<lambda>p. p_ID p = pid \<and> p_ListingState p = PluginListingStatePublished)
          (markDown t)) (\<lambda>_. returnT ()))"

text \<open>The body of the queue loop: one pass over the sources of the popped id.\<close>

fun suspendSources ::
  "string \<Rightarrow> string \<Rightarrow> time \<Rightarrow> string list \<Rightarrow> string list \<Rightarrow> string list \<Rightarrow> (string list \<times> string list) stx" where
  "suspendSources space pid t [] queue seen = returnT (queue, seen)"
| "suspendSources space pid t (source # ids) queue seen =
     (if source \<in> set seen then suspendSources space pid t ids queue seen
      else thenT (refuseT (length seen > maxGraphNodes) ErrGraphTooLarge)
        (bindT (getReviewedPluginForUpdate space source) (\<lambda>p.
         thenT (suspendDependency source pid t)
        (thenT (demoteEmbeddedChildren source (p_Type p) space t)
           (suspendSources space pid t ids (queue @ [source]) (seen @ [source]))))))"

text \<open>
  The queue loop. Every id is popped at most once and at most \<open>maxGraphNodes + 1\<close> ids are
  ever seen, so \<open>maxGraphNodes + 2\<close> rounds suffice: \<open>OutOfFuel\<close> is never returned.
\<close>

fun suspendLoop :: "nat \<Rightarrow> string \<Rightarrow> time \<Rightarrow> string list \<Rightarrow> string list \<Rightarrow> unit stx" where
  "suspendLoop 0 space t queue seen = throwT OutOfFuel"
| "suspendLoop (Suc fuel) space t queue seen =
     (case queue of
        [] \<Rightarrow> returnT ()
      | pid # rest \<Rightarrow>
          bindT (incomingPublishedSources space pid) (\<lambda>ids.
          bindT (suspendSources space pid t ids rest seen) (\<lambda>(queue', seen').
            suspendLoop fuel space t queue' seen')))"

definition suspendDelistedDependents :: "string \<Rightarrow> string \<Rightarrow> time \<Rightarrow> unit stx" where
  "suspendDelistedDependents space target t = suspendLoop (maxGraphNodes + 2) space t [target] [target]"

section \<open>Facts\<close>

lemma markDown_fields [simp]:
  "p_ID (markDown t p) = p_ID p" "p_SpaceID (markDown t p) = p_SpaceID p"
  "p_IsEmbedded (markDown t p) = p_IsEmbedded p" "p_OwnerUID (markDown t p) = p_OwnerUID p"
  "p_Visibility (markDown t p) = p_Visibility p" "p_Type (markDown t p) = p_Type p"
  "p_PublishedVersionID (markDown t p) = p_PublishedVersionID p"
  "p_ListingState (markDown t p) = PluginListingStateDelisted"
  "p_Status (markDown t p) = p_Status p" "p_DeletedAt (markDown t p) = p_DeletedAt p"
  "markDown t (markDown u p) = markDown t p"
  by (simp_all add: markDown_def)

lemma demoteChild_touches [touches]: "TPlugins \<in> X \<Longrightarrow> steps (sameExcept X) (demoteChild sp t pid)"
  unfolding demoteChild_def by (intro touch.steps_rules touches)

lemma demoteEmbeddedChildren_touches [touches]:
  "TPlugins \<in> X \<Longrightarrow> steps (sameExcept X) (demoteEmbeddedChildren topID ty sp t)"
  unfolding demoteEmbeddedChildren_def by (intro touch.steps_rules touches)

lemma promoteChild_touches [touches]: "TPlugins \<in> X \<Longrightarrow> steps (sameExcept X) (promoteChild sp a t pid)"
  unfolding promoteChild_def by (intro touch.steps_rules touches)

lemma promoteEmbeddedIDs_touches [touches]:
  "TPlugins \<in> X \<Longrightarrow> steps (sameExcept X) (promoteEmbeddedIDs ids sp a t)"
  unfolding promoteEmbeddedIDs_def by (intro touch.steps_rules touches)

lemma promoteEmbeddedChildren_touches [touches]:
  "TPlugins \<in> X \<Longrightarrow> steps (sameExcept X) (promoteEmbeddedChildren topID ty sp a t)"
  unfolding promoteEmbeddedChildren_def by (intro touch.steps_rules touches)

lemma promoteFrozen_touches [touches]:
  "TPlugins \<in> X \<Longrightarrow> steps (sameExcept X) (promoteFrozenEmbeddedChildren topID ty fr sp a t)"
  unfolding promoteFrozenEmbeddedChildren_def by (intro touch.steps_rules touches)

lemma incomingPublishedSources_touches [touches]: "steps (sameExcept X) (incomingPublishedSources sp pid)"
  unfolding incomingPublishedSources_def by (intro touch.steps_rules)

lemma suspendDependency_touches [touches]:
  "TPlugins \<in> X \<Longrightarrow> TSuspensions \<in> X \<Longrightarrow> steps (sameExcept X) (suspendDependency pid src t)"
  unfolding suspendDependency_def
  by (intro touch.steps_rules touch.steps_modify touches) (auto simp: sameExcept_def kept_def)

lemma suspendSources_touches [touches]:
  "TPlugins \<in> X \<Longrightarrow> TSuspensions \<in> X \<Longrightarrow> steps (sameExcept X) (suspendSources sp pid t ids q seen)"
  by (induction ids arbitrary: q seen)
    (auto intro!: touch.steps_rules touches)

lemma suspendLoop_touches:
  "TPlugins \<in> X \<Longrightarrow> TSuspensions \<in> X \<Longrightarrow> steps (sameExcept X) (suspendLoop fuel sp t q seen)"
proof (induction fuel arbitrary: q seen)
  case 0
  then show ?case by (auto intro: touch.steps_throw)
next
  case (Suc fuel)
  then show ?case
    by (cases q) (auto intro!: touch.steps_rules touches)
qed

lemma suspendDelistedDependents_touches [touches]:
  "TPlugins \<in> X \<Longrightarrow> TSuspensions \<in> X \<Longrightarrow> steps (sameExcept X) (suspendDelistedDependents sp pid t)"
  unfolding suspendDelistedDependents_def by (rule suspendLoop_touches)

text \<open>Errors, and that the fuel of the queue loop is enough.\<close>

lemma demoteEmbeddedChildren_errors [errors]: "raises E (demoteEmbeddedChildren topID ty sp t)"
  unfolding demoteEmbeddedChildren_def demoteChild_def by (intro errors)

lemma promoteEmbeddedIDs_errors [errors]: "raises E (promoteEmbeddedIDs ids sp a t)"
  unfolding promoteEmbeddedIDs_def promoteChild_def by (intro errors)

lemma promoteEmbeddedChildren_errors [errors]: "raises E (promoteEmbeddedChildren topID ty sp a t)"
  unfolding promoteEmbeddedChildren_def by (intro errors)

lemma promoteFrozen_errors [errors]: "raises E (promoteFrozenEmbeddedChildren topID ty fr sp a t)"
  unfolding promoteFrozenEmbeddedChildren_def by (intro errors)

lemma suspendDependency_errors [errors]: "raises E (suspendDependency pid src t)"
  unfolding suspendDependency_def by (intro errors)

lemma incomingPublishedSources_errors [errors]:
  "ErrGraphTooLarge \<in> E \<Longrightarrow> raises E (incomingPublishedSources sp pid)"
  unfolding incomingPublishedSources_def by (intro errors)

lemma suspendSources_errors [errors]:
  assumes "ErrGraphTooLarge \<in> E" and "ErrNotFound \<in> E"
  shows "raises E (suspendSources sp pid t ids q seen)"
  by (induction ids arbitrary: q seen) (auto intro!: errors simp: assms)

lemma suspendSources_queue:
  assumes "suspendSources sp pid t ids q seen s = Inr ((q', seen'), s')"
    and "length seen \<le> Suc maxGraphNodes"
  shows "length seen' + length q = length q' + length seen \<and> length seen' \<le> Suc maxGraphNodes"
  using assms
proof (induction ids arbitrary: q seen s)
  case (Cons a ids)
  then show ?case by (fastforce simp: tx_simps split: if_splits)
qed (auto simp: tx_simps)

lemma suspendLoop_errors:
  assumes "Suc (Suc maxGraphNodes) + length q \<le> fuel + length seen"
    and "length q \<le> length seen" and "length seen \<le> Suc maxGraphNodes"
    and "suspendLoop fuel sp t q seen s = Inl e"
  shows "e = ErrGraphTooLarge \<or> e = ErrNotFound"
  using assms
proof (induction fuel arbitrary: q seen s)
  case (Suc fuel)
  let ?E = "{ErrGraphTooLarge, ErrNotFound}"
  from Suc.prems(4) obtain pid rest where q: "q = pid # rest"
    by (cases q) (auto simp: returnT_def)
  from Suc.prems(4) q consider
      "incomingPublishedSources sp pid s = Inl e"
    | ids s1 where "suspendSources sp pid t ids rest seen s1 = Inl e"
    | ids s1 q' seen' s2 where "suspendSources sp pid t ids rest seen s1 = Inr ((q', seen'), s2)"
        "suspendLoop fuel sp t q' seen' s2 = Inl e"
    by (auto simp: bindT_Inl)
  then show ?case
  proof cases
    case 1
    then show ?thesis using raisesD [OF incomingPublishedSources_errors [of ?E]] by blast
  next
    case 2
    then show ?thesis using raisesD [OF suspendSources_errors [of ?E]] by blast
  next
    case 3
    from suspendSources_queue [OF 3(1) Suc.prems(3)] q Suc.prems
    show ?thesis by (intro Suc.IH [OF _ _ _ 3(2)]) auto
  qed
qed auto

lemma suspendDelistedDependents_errors [errors]:
  assumes "ErrGraphTooLarge \<in> E" and "ErrNotFound \<in> E"
  shows "raises E (suspendDelistedDependents sp pid t)"
proof -
  have "e \<in> E" if "suspendLoop (maxGraphNodes + 2) sp t [pid] [pid] s = Inl e" for s e
    using suspendLoop_errors [OF _ _ _ that] assms by auto
  then show ?thesis by (simp only: raises_def suspendDelistedDependents_def) blast
qed

section \<open>The cascade reaches every dependent\<close>

text \<open>
  The published dependents of a plugin in one state, through any chain of plugins that are
  not themselves embedded in a container (an embedded plugin goes down with its container).
\<close>

inductive dependent :: "string \<Rightarrow> Store \<Rightarrow> string \<Rightarrow> string \<Rightarrow> bool" for space s target where
  self: "dependent space s target target"
| step: "dependent space s target x \<Longrightarrow> p \<in> set (plugins s) \<Longrightarrow> incomingSource space s x p \<Longrightarrow>
    \<not> p_IsEmbedded p \<Longrightarrow> dependent space s target (p_ID p)"

text \<open>A cascade over the ids \<open>I\<close> only takes rows down, and only those of \<open>I\<close> and embedded ones.\<close>

definition takenDown :: "string set \<Rightarrow> Plugin \<Rightarrow> Plugin \<Rightarrow> bool" where
  "takenDown I p q \<longleftrightarrow> q = p \<or> (p_IsEmbedded p \<or> p_ID p \<in> I) \<and>
     (\<exists>t. q = markDown t p)"

definition cascaded :: "string set \<Rightarrow> Store \<Rightarrow> Store \<Rightarrow> bool" where
  "cascaded I s t \<longleftrightarrow> list_all2 (takenDown I) (plugins s) (plugins t) \<and>
     relations t = relations s \<and> versions t = versions s"

interpretation cascade: tx_frame "cascaded I" for I
proof unfold_locales
  show "cascaded I s s" for s
    by (simp add: cascaded_def takenDown_def list.rel_refl)
  have "takenDown I p q \<Longrightarrow> takenDown I q v \<Longrightarrow> takenDown I p v" for p q v
    by (auto simp: takenDown_def)
  from list_all2_trans [of "takenDown I" "takenDown I" "takenDown I", OF this]
  show "cascaded I s u" if "cascaded I s t" "cascaded I t u" for s t u
    using that unfolding cascaded_def by auto
qed

lemma cascaded_mono: "cascaded I s t \<Longrightarrow> I \<subseteq> J \<Longrightarrow> cascaded J s t"
  unfolding cascaded_def by (auto elim!: list_all2_mono simp: takenDown_def)

lemma updatePlugins_cascades:
  assumes "\<And>p. c p \<Longrightarrow> takenDown I p (f p)"
  shows "steps (cascaded I) (updatePlugins c f)"
proof (rule stepsI)
  have "list_all2 (takenDown I) rows (updateWhere c f rows)" for rows
    using assms by (induction rows) (auto simp: takenDown_def)
  then show "updatePlugins c f s = Inr (n, t) \<Longrightarrow> cascaded I s t" for s n t
    by (simp add: tx_simps cascaded_def)
qed

lemma demoteEmbeddedChildren_cascades: "steps (cascaded I) (demoteEmbeddedChildren topID ty sp t)"
  unfolding demoteEmbeddedChildren_def demoteChild_def
  by (intro cascade.steps_rules updatePlugins_cascades) (auto simp: takenDown_def)

lemma cascaded_suspensions: "cascaded I s (s\<lparr>suspensions := x\<rparr>)"
  using cascade.frame_refl [of I s] by (simp add: cascaded_def)

lemma suspendDependency_cascades: "pid \<in> I \<Longrightarrow> steps (cascaded I) (suspendDependency pid src t)"
  unfolding suspendDependency_def
proof (intro cascade.steps_rules cascade.steps_modify updatePlugins_cascades)
  show "takenDown I p (markDown t p)"
    if "pid \<in> I" "p_ID p = pid \<and> p_ListingState p = PluginListingStatePublished" for p
    using that by (auto simp: takenDown_def)
qed (simp add: cascade.frame_refl cascaded_suspensions)

lemma suspendDependency_takes_down:
  assumes "suspendDependency pid src t s = Inr ((), s')" and "p \<in> set (plugins s')" and "p_ID p = pid"
  shows "p_ListingState p \<noteq> PluginListingStatePublished"
proof -
  let ?c = "\<lambda>p. p_ID p = pid \<and> p_ListingState p = PluginListingStatePublished"
  let ?f = "markDown t"
  from assms(1) obtain u where "s' = u\<lparr>plugins := updateWhere ?c ?f (plugins u)\<rparr>"
    unfolding suspendDependency_def tx_simps by blast
  moreover have "\<forall>p \<in> set (updateWhere ?c ?f (plugins u)).
      p_ID p = pid \<longrightarrow> p_ListingState p \<noteq> PluginListingStatePublished"
    by (simp add: ball_updateWhere)
  ultimately show ?thesis using assms(2,3) by simp
qed

lemma cascaded_row:
  assumes "cascaded I s t" and "q \<in> set (plugins t)"
  obtains p where "p \<in> set (plugins s)" and "takenDown I p q"
  using assms by (auto simp: cascaded_def list_all2_conv_all_nth in_set_conv_nth) (metis nth_mem)

lemma cascaded_row':
  assumes "cascaded I s t" and "p \<in> set (plugins s)"
  obtains q where "q \<in> set (plugins t)" and "takenDown I p q"
  using assms by (auto simp: cascaded_def list_all2_conv_all_nth in_set_conv_nth) (metis nth_mem)

lemma takenDown_fields:
  assumes "takenDown I p q"
  shows "p_ID q = p_ID p" and "p_PublishedVersionID q = p_PublishedVersionID p"
    and "p_ListingState q = PluginListingStatePublished \<Longrightarrow> q = p"
  using assms by (auto simp: takenDown_def)

text \<open>Which plugin depends on which does not change under a cascade.\<close>

lemma cascaded_publishedOf:
  assumes "cascaded I s t" shows "publishedOf t = publishedOf s"
proof
  fix pid
  from assms have "list_all2 (takenDown I) (plugins s) (plugins t)" by (simp add: cascaded_def)
  then show "publishedOf t pid = publishedOf s pid"
    unfolding publishedOf_def
    by (induction rule: list_all2_induct) (auto simp: lookupBy_def dest: takenDown_fields(1,2))
qed

lemma cascaded_members:
  assumes "list_all2 (takenDown I) ps qs"
  shows "(\<exists>m \<in> set qs. P (p_ID m) (p_PublishedVersionID m)) \<longleftrightarrow> (\<exists>m \<in> set ps. P (p_ID m) (p_PublishedVersionID m))"
  using assms by (induction rule: list_all2_induct) (simp_all add: takenDown_fields(1,2))

lemma cascaded_dependsOn:
  assumes "cascaded I s t" shows "dependsOn t x p \<longleftrightarrow> dependsOn s x p"
proof -
  have leaf: "usesTargetLeafSQL t = usesTargetLeafSQL s"
    using assms by (intro ext) (simp add: usesTargetLeafSQL_def cascaded_def)
  have "usesTargetSnapshotSQL t = usesTargetSnapshotSQL s"
  proof (intro ext)
    fix pid version x
    have members: "(\<exists>m \<in> set (plugins t). p_ID m = r_TargetPluginID e \<and>
              usesTargetLeafSQL s (p_ID m) (coalesce (r_TargetVersionID e) (p_PublishedVersionID m)) x) \<longleftrightarrow>
          (\<exists>m \<in> set (plugins s). p_ID m = r_TargetPluginID e \<and>
              usesTargetLeafSQL s (p_ID m) (coalesce (r_TargetVersionID e) (p_PublishedVersionID m)) x)" for e
      by (rule cascaded_members [of I]) (use assms in \<open>simp add: cascaded_def\<close>)
    have "versions t = versions s" using assms by (simp add: cascaded_def)
    then show "usesTargetSnapshotSQL t pid version x = usesTargetSnapshotSQL s pid version x"
      by (simp only: usesTargetSnapshotSQL_def leaf members)
  qed
  moreover have "usesTargetLive t = usesTargetLive s"
    using assms unfolding usesTargetLive_def leaf cascaded_publishedOf [OF assms]
    by (simp add: cascaded_def)
  ultimately show ?thesis by (simp add: dependsOn_def split: option.splits)
qed

lemma cascaded_incomingSource: "cascaded I s t \<Longrightarrow> incomingSource sp t x p \<longleftrightarrow> incomingSource sp s x p"
  by (simp add: incomingSource_def cascaded_dependsOn)

lemma cascaded_incoming:
  assumes "cascaded I s t" and "p \<in> set (plugins t)" and "incomingSource sp t x p"
  shows "p \<in> set (plugins s) \<and> incomingSource sp s x p"
proof -
  obtain q where "q \<in> set (plugins s)" "takenDown I q p" using assms(1,2) by (rule cascaded_row)
  with assms show ?thesis
    by (auto simp: incomingSource_def cascaded_dependsOn [OF assms(1)] dest: takenDown_fields(3))
qed

text \<open>
  The invariant of the queue loop, relative to the state \<open>s0\<close> the cascade started from:
  every id seen so far except the target is down, only those and embedded rows were taken
  down, and every published dependent of an id already popped has been seen.
\<close>

definition swept :: "Store \<Rightarrow> string \<Rightarrow> string list \<Rightarrow> Store \<Rightarrow> bool" where
  "swept s0 target seen s \<longleftrightarrow> cascaded (set seen) s0 s \<and>
     (\<forall>p \<in> set (plugins s). p_ID p \<in> set seen \<longrightarrow> p_ID p \<noteq> target \<longrightarrow>
        p_ListingState p \<noteq> PluginListingStatePublished)"

definition covered :: "string \<Rightarrow> Store \<Rightarrow> string \<Rightarrow> string list \<Rightarrow> bool" where
  "covered space s x seen \<longleftrightarrow>
     (\<forall>p \<in> set (plugins s). incomingSource space s x p \<longrightarrow> p_ID p \<in> set seen)"

lemma covered_mono: "covered sp s x seen \<Longrightarrow> cascaded I s t \<Longrightarrow> set seen \<subseteq> set seen' \<Longrightarrow> covered sp t x seen'"
  unfolding covered_def by (blast dest: cascaded_incoming)

lemma swept_mono:
  assumes "swept s0 target seen s" and "cascaded (set seen) s t"
  shows "swept s0 target seen t"
  unfolding swept_def
proof (intro conjI ballI impI)
  show "cascaded (set seen) s0 t" using assms by (auto simp: swept_def intro: cascade.frame_trans)
  fix q assume "q \<in> set (plugins t)" "p_ID q \<in> set seen" "p_ID q \<noteq> target"
  moreover from \<open>q \<in> set (plugins t)\<close> obtain p where "p \<in> set (plugins s)" "takenDown (set seen) p q"
    using assms(2) by (blast elim: cascaded_row)
  ultimately show "p_ListingState q \<noteq> PluginListingStatePublished"
    using assms(1) by (auto simp: swept_def dest: takenDown_fields)
qed

lemma suspendSources_sweeps:
  assumes "suspendSources sp pid t ids q seen s = Inr ((q', seen'), s')"
    and "swept s0 target seen s" and "target \<in> set seen"
  shows "cascaded (set seen') s s' \<and> swept s0 target seen' s' \<and> set ids \<subseteq> set seen' \<and>
    set seen \<subseteq> set seen' \<and> set q' = set q \<union> (set seen' - set seen)"
  using assms
proof (induction ids arbitrary: q seen s)
  case Nil
  then show ?case by (auto simp: tx_simps cascade.frame_refl)
next
  case (Cons a ids)
  show ?case
  proof (cases "a \<in> set seen")
    case True
    with Cons show ?thesis by (auto dest!: Cons.IH)
  next
    case False
    let ?I = "set (seen @ [a])"
    from False Cons.prems(1) obtain ty u v where u: "suspendDependency a pid t s = Inr ((), u)"
      and v: "demoteEmbeddedChildren a ty sp t u = Inr ((), v)"
      and rec: "suspendSources sp pid t ids (q @ [a]) (seen @ [a]) v = Inr ((q', seen'), s')"
      by (auto simp: tx_simps)
    have su: "cascaded ?I s u" using stepsD [OF suspendDependency_cascades u, of ?I] by simp
    have sv: "cascaded ?I s v"
      using cascade.frame_trans [OF su stepsD [OF demoteEmbeddedChildren_cascades v]] .
    have "swept s0 target (seen @ [a]) u"
      unfolding swept_def
    proof (intro conjI ballI impI)
      show "cascaded ?I s0 u"
      proof (rule cascade.frame_trans [OF cascaded_mono su])
        show "cascaded (set seen) s0 s" using Cons.prems(2) by (simp add: swept_def)
      qed auto
      fix p assume p: "p \<in> set (plugins u)" "p_ID p \<in> ?I" "p_ID p \<noteq> target"
      show "p_ListingState p \<noteq> PluginListingStatePublished"
      proof (cases "p_ID p = a")
        case False
        obtain p0 where "p0 \<in> set (plugins s)" "takenDown ?I p0 p" using su p(1) by (rule cascaded_row)
        with False p Cons.prems(2) show ?thesis by (auto simp: swept_def dest: takenDown_fields)
      qed (rule suspendDependency_takes_down [OF u p(1)])
    qed
    then have "swept s0 target (seen @ [a]) v"
      using swept_mono stepsD [OF demoteEmbeddedChildren_cascades v] by blast
    from Cons.IH [OF rec this] Cons.prems(3) False
    show ?thesis using cascade.frame_trans [OF cascaded_mono [OF sv]] by auto
  qed
qed

lemma incomingPublishedSources_Inr:
  assumes "incomingPublishedSources sp x s = Inr (ids, t)"
  shows "t = s \<and> set ids = p_ID ` {p \<in> set (plugins s). incomingSource sp s x p}"
proof -
  let ?all = "sort (map p_ID (filter (incomingSource sp s x) (plugins s)))"
  from assms have *: "t = s" "ids = take (Suc maxGraphNodes) ?all" "\<not> length ids > maxGraphNodes"
    by (auto simp: incomingPublishedSources_def tx_simps)
  then have "ids = ?all" by (cases "length ?all \<le> Suc maxGraphNodes") auto
  with * show ?thesis by auto
qed

lemma suspendLoop_sweeps:
  assumes "suspendLoop fuel sp t q seen s = Inr ((), s')"
    and "swept s0 target seen s" and "target \<in> set seen" and "set q \<subseteq> set seen"
    and "\<forall>x \<in> set seen - set q. covered sp s x seen"
  shows "\<exists>final. set seen \<subseteq> set final \<and> swept s0 target final s' \<and> (\<forall>x \<in> set final. covered sp s' x final)"
  using assms
proof (induction fuel arbitrary: q seen s)
  case (Suc fuel)
  show ?case
  proof (cases q)
    case Nil
    with Suc.prems show ?thesis by (auto simp: tx_simps)
  next
    case (Cons pid rest)
    with Suc.prems(1) obtain ids s1 q' seen' s2 where
        ids: "incomingPublishedSources sp pid s = Inr (ids, s1)"
      and src: "suspendSources sp pid t ids rest seen s1 = Inr ((q', seen'), s2)"
      and rec: "suspendLoop fuel sp t q' seen' s2 = Inr ((), s')"
      by (auto simp: tx_simps)
    from incomingPublishedSources_Inr [OF ids]
    have s1: "s1 = s" and inc: "\<And>p. p \<in> set (plugins s) \<Longrightarrow> incomingSource sp s pid p \<Longrightarrow> p_ID p \<in> set ids"
      by auto
    from suspendSources_sweeps [OF src [unfolded s1] Suc.prems(2,3)]
    have src': "cascaded (set seen') s s2" "swept s0 target seen' s2" "set ids \<subseteq> set seen'"
        "set seen \<subseteq> set seen'" "set q' = set rest \<union> (set seen' - set seen)" by auto
    have "covered sp s pid seen'" using inc src'(3) by (auto simp: covered_def)
    then have pid: "covered sp s2 pid seen'" using covered_mono src'(1) by blast
    have "covered sp s2 x seen'" if "x \<in> set seen' - set q'" for x
    proof (cases "x = pid")
      case False
      with that src'(4,5) Cons have "x \<in> set seen - set q" by auto
      with Suc.prems(5) covered_mono src'(1,4) show ?thesis by blast
    qed (simp add: pid)
    moreover have "set q' \<subseteq> set seen'" using src'(4,5) Suc.prems(4) Cons by auto
    ultimately obtain final where "set seen' \<subseteq> set final" "swept s0 target final s'"
        "\<forall>x \<in> set final. covered sp s' x final"
      using Suc.IH [OF rec src'(2)] src'(4) Suc.prems(3) by blast
    then show ?thesis using src'(4) by blast
  qed
qed (simp add: tx_simps)

lemma suspendDependents_closed:
  assumes "suspendDelistedDependents space target t s = Inr ((), s')"
    and "dependent space s target x"
  shows "(\<forall>p \<in> set (plugins s'). incomingSource space s' x p \<longrightarrow> p_ID p = target) \<and> cascaded UNIV s s'"
proof -
  have "swept s target [target] s" by (simp add: swept_def cascade.frame_refl)
  with suspendLoop_sweeps [OF assms(1) [unfolded suspendDelistedDependents_def], of s target]
  obtain final where f: "target \<in> set final" "swept s target final s'"
      "\<forall>x \<in> set final. covered space s' x final"
    by auto
  from f(2) have c: "cascaded (set final) s s'" by (simp add: swept_def)
  from assms(2) have "x \<in> set final"
  proof induction
    case (step x p)
    from c step.hyps(2) obtain q where q: "q \<in> set (plugins s')" "takenDown (set final) p q"
      by (rule cascaded_row')
    from step.hyps(3) c have "incomingSource space s' x p" by (simp add: cascaded_incomingSource)
    with q step f(3) show ?case by (auto simp: takenDown_def covered_def)
  qed (rule f(1))
  with f(2,3) show ?thesis
    by (auto simp: covered_def swept_def incomingSource_def intro: cascaded_mono)
qed

text \<open>A chain of dependents survives taking down the target and embedded rows.\<close>

lemma dependent_cascaded:
  assumes "cascaded {target} s t" and "dependent space s target x"
  shows "dependent space t target x"
  using assms(2)
proof induction
  case (step x p)
  from assms(1) step.hyps(2) obtain q where q: "q \<in> set (plugins t)" "takenDown {target} p q" by (rule cascaded_row')
  show ?case
  proof (cases "q = p")
    case True
    with q step show ?thesis
      using dependent.step [of space t target x p] by (simp add: cascaded_incomingSource [OF assms(1)])
  next
    case False
    with q(2) step.hyps(4) show ?thesis by (auto simp: takenDown_def intro: dependent.self)
  qed
qed (rule dependent.self)

text \<open>C1: taking a plugin down suspends everything published that rests on it. When the cascade
  succeeds, no published plugin of the Space still depends on the target, nor on any plugin
  that rested on the target through a chain of published experts and teams (the target
  itself is the caller's to take down). Rows are only ever moved to delisted, and neither
  relations nor versions change.\<close>

theorem suspendDelistedDependents_complete:
  assumes "suspendDelistedDependents space target t s = Inr ((), s')"
    and "dependent space s target x"
  shows "(\<forall>p \<in> set (plugins s'). incomingSource space s' x p \<longrightarrow> p_ID p = target) \<and> cascaded UNIV s s'"
  using assms by (rule suspendDependents_closed)

theorem suspendDelistedDependents_complete_witness:
  "\<exists>s'. suspendDelistedDependents ''s1'' ''k'' 7 sampleStore = Inr ((), s') \<and>
     dependent ''s1'' sampleStore ''k'' ''e'' \<and>
     (\<forall>p \<in> set (plugins s'). incomingSource ''s1'' s' ''e'' p \<longrightarrow> p_ID p = ''k'')"
proof -
  have "\<not> isl (suspendDelistedDependents ''s1'' ''k'' 7 sampleStore)" by code_simp
  then obtain s' where run: "suspendDelistedDependents ''s1'' ''k'' 7 sampleStore = Inr ((), s')"
    by (auto dest: tx_runs)
  let ?e = "samplePlugin ''e'' PluginTypeExpert ''u2''"
  have "?e \<in> set (plugins sampleStore)" by (simp add: sampleStore_def)
  moreover have "incomingSource ''s1'' sampleStore ''k'' ?e" by code_simp
  moreover have "\<not> p_IsEmbedded ?e" by code_simp
  ultimately have "dependent ''s1'' sampleStore ''k'' (p_ID ?e)"
    by (rule dependent.step [OF dependent.self])
  then have dep: "dependent ''s1'' sampleStore ''k'' ''e''" by (simp add: samplePlugin_def)
  from suspendDelistedDependents_complete [OF run dep] run dep show ?thesis by blast
qed

text \<open>the cascade always ends: it succeeds, or fails because a plugin vanished or because more
  plugins depend on the target than a graph may hold. Its loop never runs out of the
  \<open>maxGraphNodes + 2\<close> rounds it is given.\<close>

theorem suspendDelistedDependents_total:
  "raises {ErrGraphTooLarge, ErrNotFound} (suspendDelistedDependents space target t)"
  by (rule suspendDelistedDependents_errors) auto

text \<open>A cascade keeps a row that is not published unpublished.\<close>

lemma cascaded_keeps_down:
  assumes "cascaded I s t"
    and "\<forall>p \<in> set (plugins s). P (p_ID p) (p_SpaceID p) (p_IsEmbedded p) (p_DeletedAt p) \<longrightarrow>
      p_ListingState p \<noteq> PluginListingStatePublished"
    and "q \<in> set (plugins t)" and "P (p_ID q) (p_SpaceID q) (p_IsEmbedded q) (p_DeletedAt q)"
  shows "p_ListingState q \<noteq> PluginListingStatePublished"
proof -
  obtain p where p: "p \<in> set (plugins s)" "takenDown I p q" using assms(1,3) by (rule cascaded_row)
  then have "P (p_ID p) (p_SpaceID p) (p_IsEmbedded p) (p_DeletedAt p)"
    using assms(4) by (auto simp: takenDown_def)
  with p assms(2) show ?thesis by (auto dest: takenDown_fields(3))
qed

text \<open>Demoting the children leaves none of them published.\<close>

lemma demoteEmbeddedChildren_down:
  assumes "demoteEmbeddedChildren topID ty sp t s = Inr ((), s')"
    and "c \<in> set (collectEmbeddedChildren s topID ty)"
  shows "\<forall>q \<in> set (plugins s'). p_ID q = c \<and> p_SpaceID q = Some sp \<and> p_IsEmbedded q \<and> p_DeletedAt q = None \<longrightarrow>
    p_ListingState q \<noteq> PluginListingStatePublished" (is "?Q c s'")
proof (rule forT_establishes [where Q = ?Q])
  show "forT (demoteChild sp t) (collectEmbeddedChildren s topID ty) s = Inr ((), s')"
    using assms(1) by (simp add: demoteEmbeddedChildren_def tx_simps)
  show "c \<in> set (collectEmbeddedChildren s topID ty)" by (rule assms(2))
  show "?Q x u'" if "demoteChild sp t x u = Inr ((), u')" for x u u'
    using that by (auto simp: demoteChild_def tx_simps ball_updateWhere)
  show "?Q x u'" if run: "demoteChild sp t y u = Inr ((), u')" and "?Q x u" for x y u u'
  proof -
    have "steps (cascaded {}) (demoteChild sp t y)"
      unfolding demoteChild_def by (intro cascade.steps_rules updatePlugins_cascades) (auto simp: takenDown_def)
    from stepsD [OF this run] that(2) show ?thesis
      using cascaded_keeps_down [of "{}" u u' "\<lambda>i sp' e d. i = x \<and> sp' = Some sp \<and> e \<and> d = None"] by blast
  qed
qed

end
