(* ===== verification/Documents.thy ===== *)
theory Documents
  imports Store
begin

text \<open>
  The documents and keys the repository interprets: JSON decoding as \<open>encoding/json\<close> does
  it for the shapes the code declares, the attachment sidecars, the namespaces of managed
  storage objects (\<open>internal/artifactscope\<close>, \<open>internal/storage/immutable.go\<close>) with
  \<open>path.Clean\<close>, and the normalised plugin names (\<open>internal/model/plugin_name.go\<close>).
\<close>

section \<open>JSON\<close>

text \<open>Struct fields are matched by name regardless of (ASCII) case; the last match decides.\<close>

definition asciiLower :: "char \<Rightarrow> char" where
  "asciiLower c = (if CHR ''A'' \<le> c \<and> c \<le> CHR ''Z'' then char_of ((of_char c :: nat) + 32) else c)"

definition structField :: "string \<Rightarrow> json \<Rightarrow> json option" where
  "structField name v =
     (case v of
        JObj kvs \<Rightarrow> map_option snd (find (\<lambda>(k, _). map asciiLower k = map asciiLower name) (rev kvs))
      | _ \<Rightarrow> None)"

definition mapField :: "string \<Rightarrow> json \<Rightarrow> json option" where
  "mapField name v = (case v of JObj kvs \<Rightarrow> map_of (rev kvs) name | _ \<Rightarrow> None)"

text \<open>Decoding into a string, an integer or a boolean that keeps its zero value on a mismatch.\<close>

definition stringOr :: "string \<Rightarrow> json option \<Rightarrow> string" where
  "stringOr z v = (case v of Some (JStr s) \<Rightarrow> s | _ \<Rightarrow> z)"

definition intOr :: "int \<Rightarrow> json option \<Rightarrow> int" where
  "intOr z v = (case v of Some (JNum n) \<Rightarrow> n | _ \<Rightarrow> z)"

text \<open>\<open>map[string]string\<close>: the decoded entries and whether the decoder reported no error.\<close>

definition stringMap :: "json \<Rightarrow> (string \<times> string) list \<times> bool" where
  "stringMap v =
     (case v of
        JNull \<Rightarrow> ([], True)
      | JObj kvs \<Rightarrow> (map (\<lambda>(k, x). (k, stringOr '''' (Some x))) (rev kvs),
          list_all (\<lambda>(k, x). x = JNull \<or> (\<exists>s. x = JStr s)) kvs)
      | _ \<Rightarrow> ([], False))"

lemma stringMap_code [code]:
  "stringMap v =
     (case v of
        JNull \<Rightarrow> ([], True)
      | JObj kvs \<Rightarrow> (map (\<lambda>(k, x). (k, stringOr '''' (Some x))) (rev kvs),
          list_all (\<lambda>(k, x). case x of JNull \<Rightarrow> True | JStr s \<Rightarrow> True | _ \<Rightarrow> False) kvs)
      | _ \<Rightarrow> ([], False))"
proof -
  have "(\<lambda>(k :: string, x). x = JNull \<or> (\<exists>s. x = JStr s)) =
      (\<lambda>(k, x). case x of JNull \<Rightarrow> True | JStr s \<Rightarrow> True | _ \<Rightarrow> False)"
    by (auto simp: fun_eq_iff split: json.splits)
  then show ?thesis by (simp add: stringMap_def split: json.splits)
qed

definition decodeSidecarMap :: "raw \<Rightarrow> (string \<times> string) list" where
  "decodeSidecarMap r = (case r of None \<Rightarrow> [] | Some v \<Rightarrow> fst (stringMap v))"

definition sameAttachmentKeys :: "raw \<Rightarrow> raw \<Rightarrow> bool" where
  "sameAttachmentKeys a b \<longleftrightarrow>
     (let ma = decodeSidecarMap a; mb = decodeSidecarMap b in
        length (remdups (map fst ma)) = length (remdups (map fst mb)) \<and>
        (\<forall>k \<in> set (map fst ma). map_of mb k = map_of ma k))"

fun uniqueFields :: "nat \<Rightarrow> json \<Rightarrow> bool" where
  "uniqueFields d (JObj kvs) \<longleftrightarrow>
     d \<le> 64 \<and> distinct (map fst kvs) \<and> (\<forall>x \<in> set kvs. uniqueFields (Suc d) (snd x))"
| "uniqueFields d (JArr xs) \<longleftrightarrow> d \<le> 64 \<and> (\<forall>x \<in> set xs. uniqueFields (Suc d) x)"
| "uniqueFields d _ \<longleftrightarrow> d \<le> 64"

definition ValidateUniqueJSONFields :: "json \<Rightarrow> bool" where
  "ValidateUniqueJSONFields v = uniqueFields 0 v"

definition isJSONNullOrEmpty :: "raw \<Rightarrow> bool" where
  "isJSONNullOrEmpty r \<longleftrightarrow> r = None \<or> r = Some JNull"

text \<open>\<open>[]string\<close>: \<open>null\<close> and a non-array leave the slice nil; other elements decode to the empty string.\<close>

definition stringSlice :: "json option \<Rightarrow> string list" where
  "stringSlice v = (case v of Some (JArr xs) \<Rightarrow> map (\<lambda>x. stringOr '''' (Some x)) xs | _ \<Rightarrow> [])"

definition manifestNameAndTags :: "raw \<Rightarrow> string \<times> raw" where
  "manifestNameAndTags manifest =
     (case manifest of
        None \<Rightarrow> ('''', Some (JArr []))
      | Some doc \<Rightarrow> (stringOr '''' (structField ''plugin_name'' doc),
          Some (JArr (map JStr (stringSlice (structField ''labels'' doc))))))"

text \<open>\<open>COALESCE(JSON_UNQUOTE(JSON_EXTRACT(manifest_json,'$.plugin_name')),'')\<close> of a string member.\<close>

definition manifestNameSQL :: "raw \<Rightarrow> string" where
  "manifestNameSQL manifest = (case manifest of None \<Rightarrow> '''' | Some doc \<Rightarrow> stringOr '''' (mapField ''plugin_name'' doc))"

section \<open>Paths\<close>

text \<open>One component of \<open>path.Clean\<close>, on the components kept so far (innermost first).\<close>

definition cleanPush :: "bool \<Rightarrow> string list \<Rightarrow> string \<Rightarrow> string list" where
  "cleanPush rooted acc c =
     (if c = '''' \<or> c = ''.'' then acc
      else if c = ''..'' then
        (case acc of
           [] \<Rightarrow> if rooted then [] else [''..'']
         | k # ks \<Rightarrow> if k = ''..'' then ''..'' # acc else ks)
      else c # acc)"

definition pathClean :: "string \<Rightarrow> string" where
  "pathClean p =
     (let rooted = (p \<noteq> [] \<and> hd p = CHR ''/'');
          body = joinWith (CHR ''/'') (rev (foldl (cleanPush rooted) [] (splitOn (CHR ''/'') p)))
      in if rooted then CHR ''/'' # body else if body = '''' then ''.'' else body)"

definition cutPrefix :: "string \<Rightarrow> string \<Rightarrow> string option" where
  "cutPrefix pre s = (if prefix pre s then Some (drop (length pre) s) else None)"

text \<open>\<open>strings.Cut(s, "/")\<close>.\<close>

definition cutSlash :: "string \<Rightarrow> (string \<times> string) option" where
  "cutSlash s =
     (if CHR ''/'' \<in> set s
      then Some (takeWhile (\<lambda>c. c \<noteq> CHR ''/'') s, tl (dropWhile (\<lambda>c. c \<noteq> CHR ''/'') s))
      else None)"

definition alnum :: "char \<Rightarrow> bool" where
  "alnum c \<longleftrightarrow> (CHR ''A'' \<le> c \<and> c \<le> CHR ''Z'') \<or> (CHR ''a'' \<le> c \<and> c \<le> CHR ''z'') \<or> (CHR ''0'' \<le> c \<and> c \<le> CHR ''9'')"

definition hexLower :: "char \<Rightarrow> bool" where
  "hexLower c \<longleftrightarrow> (CHR ''a'' \<le> c \<and> c \<le> CHR ''f'') \<or> (CHR ''0'' \<le> c \<and> c \<le> CHR ''9'')"

text \<open>\<open>^[A-Za-z0-9][A-Za-z0-9._-]{0,127}$\<close>, the shape of an id used as a path segment.\<close>

definition segment :: "string \<Rightarrow> bool" where
  "segment s \<longleftrightarrow> s \<noteq> [] \<and> alnum (hd s) \<and> length s \<le> 128 \<and>
     list_all (\<lambda>c. alnum c \<or> c = CHR ''.'' \<or> c = CHR ''_'' \<or> c = CHR ''-'') (tl s)"

section \<open>Managed storage keys\<close>

definition spacePrefix :: "string \<Rightarrow> string" where
  "spacePrefix space = ''plugins/'' @ space @ ''/attachments/''"

definition platformPrefix :: "string \<Rightarrow> string" where
  "platformPrefix pid = ''platform/plugins/'' @ pid @ ''/attachments/''"

definition Prefix :: "Plugin \<Rightarrow> string" where
  "Prefix p =
     (if NormalizeLegacyVisibility (p_Visibility p) = PluginVisibilitySystem
      then (if segment (p_ID p) then platformPrefix (p_ID p) else '''')
      else (case p_SpaceID p of
              None \<Rightarrow> ''''
            | Some space \<Rightarrow> if segment space then spacePrefix space else ''''))"

definition within :: "string \<Rightarrow> string \<Rightarrow> bool" where
  "within key pre \<longleftrightarrow> pre \<noteq> '''' \<and> length key \<le> 512 \<and>
     list_all (\<lambda>c. c \<noteq> CHR 0x5C \<and> c \<noteq> CHR 0x00 \<and> c \<noteq> CHR ''?'' \<and> c \<noteq> CHR ''#'') key \<and>
     \<not> sublist ''://'' key \<and> pathClean key = key \<and> prefix pre key \<and> length pre < length key"

definition Allows :: "Plugin \<Rightarrow> string \<Rightarrow> bool" where
  "Allows p key \<longleftrightarrow> within key (Prefix p) \<or>
     (NormalizeLegacyVisibility (p_Visibility p) = PluginVisibilitySystem \<and>
      (case p_SpaceID p of None \<Rightarrow> False | Some space \<Rightarrow> segment space \<and> within key (spacePrefix space)))"

definition IsImmutableArtifactKey :: "string \<Rightarrow> bool" where
  "IsImmutableArtifactKey key0 =
     (let key = dropWhile (\<lambda>c. c = CHR ''/'') (pathClean key0) in
      case cutPrefix ''platform/plugins/'' key of
        Some rest \<Rightarrow>
          (case cutSlash rest of
             None \<Rightarrow> False
           | Some (resource, tail) \<Rightarrow> segment resource \<and>
               (case cutPrefix ''attachments/versions/'' tail of
                  None \<Rightarrow> False
                | Some d \<Rightarrow> length d = 64 \<and> list_all hexLower d))
      | None \<Rightarrow>
          (case cutPrefix ''plugins/'' key of
             None \<Rightarrow> False
           | Some rest \<Rightarrow>
               (case cutSlash rest of
                  None \<Rightarrow> False
                | Some (space, tail) \<Rightarrow> segment space \<and>
                    (case cutPrefix ''attachments/versions/'' tail of None \<Rightarrow> False | Some d \<Rightarrow> d \<noteq> ''''))))"

definition frozenArtifactKey :: "string \<Rightarrow> Plugin \<Rightarrow> bool" where
  "frozenArtifactKey key p \<longleftrightarrow> Allows p key \<and> IsImmutableArtifactKey key"

section \<open>Plugin names\<close>

definition PluginNameMaxLength :: nat where
  "PluginNameMaxLength = 160"

definition NormalizePluginName :: "Repo \<Rightarrow> string \<Rightarrow> RepoError + string" where
  "NormalizePluginName r name =
     (let normalized = foldCase r (trimSpace (nfkc r name)) in
      if normalized = '''' then Inl ErrPluginNameEmpty
      else if runeCount normalized > PluginNameMaxLength then Inl ErrPluginNameTooLong
      else Inr normalized)"

text \<open>Every plugin type takes part in the name index, so the type does not matter.\<close>

definition pluginNameColumns ::
  "Repo \<Rightarrow> string \<Rightarrow> PluginType \<Rightarrow> string option \<Rightarrow> RepoError + (string option \<times> string)" where
  "pluginNameColumns r name ty spaceID =
     (let scope = (case spaceID of None \<Rightarrow> '''' | Some x \<Rightarrow> x) in
      if ty \<noteq> PluginTypeExpert \<and> ty \<noteq> PluginTypeSkill \<and> ty \<noteq> PluginTypeExpertTeam \<and> ty \<noteq> PluginTypeConnector
      then Inr (None, scope)
      else if trimSpace name = '''' then Inl ErrInvalidName
      else (case NormalizePluginName r name of Inl e \<Rightarrow> Inl e | Inr key \<Rightarrow> Inr (Some key, scope)))"

text \<open>One candidate row of the collision query, with the names it reserves against \<open>scope\<close>.\<close>

definition collisionRow :: "PluginType \<Rightarrow> string \<Rightarrow> string \<Rightarrow> Plugin \<Rightarrow> bool" where
  "collisionRow ty pid scope q \<longleftrightarrow>
     p_Type q = ty \<and> \<not> p_IsEmbedded q \<and> p_DeletedAt q = None \<and> p_ID q \<noteq> pid \<and>
     ((case p_SpaceID q of None \<Rightarrow> '''' | Some x \<Rightarrow> x) = scope \<or>
      p_Status q = 1 \<and> (p_Visibility q = PluginVisibilityPublic \<or> p_Visibility q = PluginVisibilitySystem) \<and>
      p_ListingState q = PluginListingStatePublished)"

definition publishedManifest :: "Store \<Rightarrow> Plugin \<Rightarrow> raw" where
  "publishedManifest s q =
     (case find (\<lambda>v. v_PluginID v = p_ID q \<and> p_PublishedVersionID q = Some (v_ID v)) (versions s) of
        None \<Rightarrow> None
      | Some v \<Rightarrow> v_Manifest v)"

definition nameCollides :: "Repo \<Rightarrow> Store \<Rightarrow> string \<Rightarrow> string \<Rightarrow> Plugin \<Rightarrow> bool" where
  "nameCollides r s wanted scope q =
     (let published = manifestNameSQL (publishedManifest s q);
          foreign = (case p_SpaceID q of None \<Rightarrow> '''' | Some x \<Rightarrow> x) \<noteq> scope;
          draftKey = (if foreign then p_PublishedNameKey q else p_NameKey q);
          draft = (if foreign \<and> published \<noteq> '''' then published else p_Name q) in
      draftKey = Some wanted \<or> p_PublishedNameKey q = Some wanted \<or>
      NormalizePluginName r draft = Inr wanted \<or> NormalizePluginName r published = Inr wanted)"

definition rejectPluginNameCollision :: "Repo \<Rightarrow> Plugin \<Rightarrow> string \<Rightarrow> string \<Rightarrow> unit stx" where
  "rejectPluginNameCollision r p wanted scope =
     bindT (queryT (\<lambda>s. \<exists>q \<in> set (plugins s).
         collisionRow (p_Type p) (p_ID p) scope q \<and> nameCollides r s wanted scope q))
       (\<lambda>taken. refuseT taken ErrNameTaken)"

section \<open>Facts\<close>

lemma rejectPluginNameCollision_Inr [tx_simps]:
  "rejectPluginNameCollision r p wanted scope s = Inr (u, t) \<longleftrightarrow>
     t = s \<and> (\<forall>q \<in> set (plugins s). collisionRow (p_Type p) (p_ID p) scope q \<longrightarrow> \<not> nameCollides r s wanted scope q)"
  by (auto simp: rejectPluginNameCollision_def tx_simps)

lemma rejectPluginNameCollision_touches [touches]:
  "steps (sameExcept X) (rejectPluginNameCollision r p w sc)"
  unfolding rejectPluginNameCollision_def by (intro touch.steps_rules)

lemma rejectPluginNameCollision_errors [errors]:
  "ErrNameTaken \<in> E \<Longrightarrow> raises E (rejectPluginNameCollision r p w sc)"
  unfolding rejectPluginNameCollision_def by (intro errors)

lemma pluginNameColumns_Inr:
  "pluginNameColumns r name ty spaceID = Inr (k, scope) \<longleftrightarrow>
     scope = (case spaceID of None \<Rightarrow> '''' | Some x \<Rightarrow> x) \<and> trimSpace name \<noteq> '''' \<and>
     (\<exists>key. k = Some key \<and> NormalizePluginName r name = Inr key)"
  by (cases ty) (auto simp: pluginNameColumns_def Let_def split: sum.splits)

text \<open>A segment contains no separator, so the part of a key up to the next slash names it.\<close>

lemma segment_no_slash:
  assumes "segment x" shows "CHR ''/'' \<notin> set x"
proof -
  have "\<not> alnum (CHR ''/'')" by code_simp
  then show ?thesis using assms by (cases x) (auto simp: segment_def list_all_iff)
qed

lemma spacePrefix_inj:
  assumes "segment x" "segment y" "prefix (spacePrefix x) key" "prefix (spacePrefix y) key"
  shows "x = y"
proof -
  have "takeWhile (\<lambda>c. c \<noteq> CHR ''/'') (drop 8 key) = z" if "segment z" "prefix (spacePrefix z) key" for z
  proof -
    from that(2) obtain u where "key = ''plugins/'' @ z @ CHR ''/'' # u"
      by (auto simp: prefix_def spacePrefix_def)
    then show ?thesis using segment_no_slash [OF that(1)]
      by (simp add: takeWhile_tail) (auto simp: takeWhile_append)
  qed
  from this [OF assms(1,3)] this [OF assms(2,4)] show ?thesis by simp
qed

text \<open>a storage key belongs to one Space. If two plugins that are not platform-wide are both
  allowed the same key, they live in the same Space, whatever their ids, owners and contents.\<close>

theorem Allows_isolates_spaces:
  assumes "Allows p key" and "Allows q key"
    and "NormalizeLegacyVisibility (p_Visibility p) \<noteq> PluginVisibilitySystem"
    and "NormalizeLegacyVisibility (p_Visibility q) \<noteq> PluginVisibilitySystem"
  shows "p_SpaceID p = p_SpaceID q \<and> p_SpaceID p \<noteq> None"
proof -
  have "\<exists>space. p_SpaceID x = Some space \<and> segment space \<and> prefix (spacePrefix space) key"
    if "Allows x key" "NormalizeLegacyVisibility (p_Visibility x) \<noteq> PluginVisibilitySystem" for x
    using that by (auto simp: Allows_def Prefix_def within_def split: option.splits if_splits)
  from this [OF assms(1,3)] this [OF assms(2,4)]
  show ?thesis by (auto intro: spacePrefix_inj)
qed

theorem Allows_isolates_spaces_witness:
  "Allows (samplePlugin ''a'' PluginTypeSkill ''u1'') ''plugins/s1/attachments/versions/x'' \<and>
   Allows (samplePlugin ''b'' PluginTypeExpert ''u2'') ''plugins/s1/attachments/versions/x'' \<and>
   p_SpaceID (samplePlugin ''a'' PluginTypeSkill ''u1'') = p_SpaceID (samplePlugin ''b'' PluginTypeExpert ''u2'')"
proof -
  have a: "Allows (samplePlugin ''a'' PluginTypeSkill ''u1'') ''plugins/s1/attachments/versions/x''" by code_simp
  have b: "Allows (samplePlugin ''b'' PluginTypeExpert ''u2'') ''plugins/s1/attachments/versions/x''" by code_simp
  have "NormalizeLegacyVisibility (p_Visibility (samplePlugin ''a'' PluginTypeSkill ''u1'')) \<noteq> PluginVisibilitySystem"
    "NormalizeLegacyVisibility (p_Visibility (samplePlugin ''b'' PluginTypeExpert ''u2'')) \<noteq> PluginVisibilitySystem"
    by code_simp+
  from Allows_isolates_spaces [OF a b this] a b show ?thesis by blast
qed

end
