(* ===== verification/References.thy ===== *)
theory References
  imports Graph Documents
begin

text \<open>
  Reference validation (\<open>references.go\<close>, \<open>retained_draft_references.go\<close>, and the relation
  guards of \<open>write.go\<close>): which plugin may point at which, under which audience, and the walk
  over frozen version graphs that keeps a private dependency from hiding behind a member.

  The walk recurses on the number of levels left below the current one, \<open>3 - depth\<close> in the
  terms of the code, which refuses a depth above 2.
\<close>

section \<open>Audience and endpoints\<close>

definition referenceVisibility :: "PluginVisibility \<Rightarrow> PluginVisibility" where
  "referenceVisibility v = (if v = PluginVisibilityPublic then PluginVisibilitySystem else v)"

definition referenceAudience :: "Plugin \<Rightarrow> Plugin \<Rightarrow> bool" where
  "referenceAudience source target =
     (let sv = referenceVisibility (p_Visibility source); tv = referenceVisibility (p_Visibility target) in
      if tv = PluginVisibilitySystem then True
      else if p_SpaceID source = None \<or> p_SpaceID target = None \<or> p_SpaceID source \<noteq> p_SpaceID target then False
      else if sv = PluginVisibilitySystem then False
      else if tv = PluginVisibilitySpace then True
      else sv = PluginVisibilityPrivate \<and> tv = PluginVisibilityPrivate \<and> p_OwnerUID source = p_OwnerUID target)"

definition validPersistedRelation :: "string \<Rightarrow> PluginType \<Rightarrow> PluginType \<Rightarrow> bool" where
  "validPersistedRelation relationType sourceType targetType =
     (if relationType = ''expert_team_expert'' then sourceType = PluginTypeExpertTeam \<and> targetType = PluginTypeExpert
      else if relationType = ''expert_skill'' then sourceType = PluginTypeExpert \<and> targetType = PluginTypeSkill
      else if relationType = ''expert_connector'' then sourceType = PluginTypeExpert \<and> targetType = PluginTypeConnector
      else False)"

section \<open>Metadata of an edge\<close>

text \<open>The decoded object of an edge, \<open>None\<close> when the document is refused.\<close>

definition edgeData :: "raw \<Rightarrow> (string \<times> json) list option" where
  "edgeData d =
     (case d of
        None \<Rightarrow> Some []
      | Some JNull \<Rightarrow> Some []
      | Some (JObj kvs) \<Rightarrow> if ValidateUniqueJSONFields (JObj kvs) then Some kvs else None
      | Some _ \<Rightarrow> None)"

text \<open>Decoding a member into a string or a boolean; \<open>null\<close> leaves the zero value.\<close>

definition asString :: "json \<Rightarrow> string option" where
  "asString v = (case v of JStr s \<Rightarrow> Some s | JNull \<Rightarrow> Some '''' | _ \<Rightarrow> None)"

definition asBool :: "json \<Rightarrow> bool option" where
  "asBool v = (case v of JBool b \<Rightarrow> Some b | JNull \<Rightarrow> Some False | _ \<Rightarrow> None)"

definition optionalField :: "('a option) \<Rightarrow> (json \<Rightarrow> 'a option) \<Rightarrow> (string \<times> json) list \<Rightarrow> string \<Rightarrow> 'a option" where
  "optionalField z dec kvs k = (case map_of kvs k of None \<Rightarrow> z | Some v \<Rightarrow> dec v)"

text \<open>A team edge's metadata: its member key and whether it marks the leader.\<close>

definition memberMetadata :: "(string \<times> json) list \<Rightarrow> string list \<Rightarrow> (string \<times> bool) option" where
  "memberMetadata kvs keys =
     (if \<not> (\<forall>k \<in> set (map fst kvs). k = ''member_key'' \<or> k = ''role'' \<or> k = ''is_leader'') then None
      else case optionalField None asString kvs ''member_key'' of
        None \<Rightarrow> None
      | Some memberKey \<Rightarrow>
          if memberKey = '''' \<or> length memberKey > 128 \<or> memberKey \<in> set keys then None
          else case optionalField (Some '''') asString kvs ''role'' of
            None \<Rightarrow> None
          | Some role \<Rightarrow>
              if \<not> validUTF8 role \<or> runeCount (trimSpace role) > 500 then None
              else case optionalField (Some False) asBool kvs ''is_leader'' of
                None \<Rightarrow> None
              | Some leader \<Rightarrow>
                  if \<not> leader \<and> trimSpace role = ''leader'' then None else Some (memberKey, leader))"

definition edgeShape :: "PluginType \<Rightarrow> PluginRelation \<Rightarrow> bool" where
  "edgeShape source edge \<longleftrightarrow>
     r_Status edge = 1 \<and> r_TargetPluginID edge \<noteq> '''' \<and> r_TargetPluginID edge \<noteq> r_SourcePluginID edge \<and>
     (case r_TargetPluginType edge of None \<Rightarrow> False | Some ty \<Rightarrow> validPersistedRelation (r_Type edge) source ty)"

definition pinShape :: "PluginRelation \<Rightarrow> bool" where
  "pinShape edge \<longleftrightarrow>
     (if r_Type edge = ''expert_connector'' then r_TargetVersionID edge = None
      else (case r_TargetVersionID edge of None \<Rightarrow> False | Some v \<Rightarrow> trimSpace v \<noteq> ''''))"

fun metadataLoop ::
  "PluginType \<Rightarrow> PluginRelation list \<Rightarrow> (string \<times> string) list \<Rightarrow> string list \<Rightarrow> nat \<Rightarrow> nat option" where
  "metadataLoop source [] seen keys leaders = Some leaders"
| "metadataLoop source (edge # rest) seen keys leaders =
     (if \<not> edgeShape source edge \<or> (r_Type edge, r_TargetPluginID edge) \<in> set seen \<or> \<not> pinShape edge then None
      else case edgeData (r_Data edge) of
        None \<Rightarrow> None
      | Some kvs \<Rightarrow>
          let seen' = (r_Type edge, r_TargetPluginID edge) # seen in
          if r_Type edge \<noteq> ''expert_team_expert''
          then (if kvs \<noteq> [] then None else metadataLoop source rest seen' keys leaders)
          else case memberMetadata kvs keys of
            None \<Rightarrow> None
          | Some (memberKey, leader) \<Rightarrow>
              metadataLoop source rest seen' (memberKey # keys) (if leader then Suc leaders else leaders))"

definition ValidateReferenceMetadata :: "PluginType \<Rightarrow> PluginRelation list \<Rightarrow> bool" where
  "ValidateReferenceMetadata source rels \<longleftrightarrow>
     (case metadataLoop source rels [] [] 0 of
        None \<Rightarrow> False
      | Some leaders \<Rightarrow> source = PluginTypeExpertTeam \<longrightarrow> leaders = 1)"

section \<open>Frozen reference graphs\<close>

definition maxGraphEdges :: nat where
  "maxGraphEdges = 2000"

definition referenceFieldError :: "nat \<Rightarrow> nat \<Rightarrow> string \<Rightarrow> string \<Rightarrow> RepoError" where
  "referenceFieldError index depth field reason =
     ReferenceValidationError
       (if depth = 0 then ''relations['' @ itoaNat index @ ''].'' @ field else ''relations'') reason"

definition lockIndependentReferenceTarget :: "Plugin \<Rightarrow> Plugin \<Rightarrow> string \<Rightarrow> Plugin stx" where
  "lockIndependentReferenceTarget root source targetID =
     bindT (queryT (\<lambda>s. find (\<lambda>p. p_ID p = targetID \<and> p_Status p = 1 \<and> p_DeletedAt p = None) (plugins s)))
       (\<lambda>row. bindT (someT ErrNotFound row) (\<lambda>target.
          thenT (refuseT (p_IsEmbedded target \<or> \<not> referenceAudience source target \<or> \<not> referenceAudience root target) ErrNotFound)
            (returnT target)))"

text \<open>The key of an edge against the live edges of its source: type, target and pin.\<close>

type_synonym edgeKey = "string \<times> string \<times> string"

definition edgeKeyOf :: "PluginRelation \<Rightarrow> edgeKey" where
  "edgeKeyOf e = (r_Type e, r_TargetPluginID e, case r_TargetVersionID e of None \<Rightarrow> '''' | Some v \<Rightarrow> v)"

definition existingEdges :: "Store \<Rightarrow> string \<Rightarrow> edgeKey list" where
  "existingEdges s source =
     map edgeKeyOf (filter (\<lambda>e. r_SourcePluginID e = source \<and> r_Status e = 1 \<and> r_DeletedAt e = None) (relations s))"

definition releasedRelations :: "Store \<Rightarrow> string \<Rightarrow> string \<Rightarrow> PluginRelation list option" where
  "releasedRelations s pid vid =
     map_option v_Relations (find (\<lambda>v. v_PluginID v = pid \<and> v_ID v = vid \<and>
       (\<exists>rel \<in> set (releases s). rel_PluginID rel = pid \<and> rel_VersionID rel = vid)) (versions s))"

definition resolveEdge :: "Plugin \<Rightarrow> Plugin \<Rightarrow> bool \<Rightarrow> edgeKey list \<Rightarrow> nat \<Rightarrow> nat \<times> PluginRelation \<Rightarrow> Plugin stx" where
  "resolveEdge root source listed existing depth = (\<lambda>(i, edge).
     bindT (lockIndependentReferenceTarget root source (r_TargetPluginID edge)) (\<lambda>target.
       thenT (refuseT (listed \<and> p_ListingState target \<noteq> PluginListingStatePublished \<and> edgeKeyOf edge \<notin> set existing)
                (referenceFieldError i depth ''target_plugin_id'' ''target_not_published''))
         (returnT target)))"

type_synonym seenKeys = "(string \<times> string) list"

text \<open>
  One released edge; \<open>below\<close> validates the relations of the version it pins, one level down.
  The keys join the two ids with a NUL byte in the code; here they are pairs.
\<close>

definition releasedReference ::
  "(Plugin \<Rightarrow> PluginRelation list \<Rightarrow> seenKeys \<Rightarrow> seenKeys stx) \<Rightarrow> nat \<Rightarrow> nat \<Rightarrow> Plugin \<Rightarrow> PluginRelation \<Rightarrow>
   seenKeys \<Rightarrow> seenKeys stx" where
  "releasedReference below index depth target edge seen =
     (case r_TargetVersionID edge of
        None \<Rightarrow> returnT seen
      | Some v \<Rightarrow>
          let key = (r_TargetPluginID edge, v) in
          if key \<in> set seen then returnT seen
          else thenT (refuseT (length (key # seen) > maxGraphNodes) ErrGraphTooLarge)
            (bindT (queryT (\<lambda>s. releasedRelations s (r_TargetPluginID edge) v)) (\<lambda>row.
             bindT (someT (referenceFieldError index depth ''target_version_id'' ''released_version_required'') row)
               (\<lambda>children. below target children (key # seen)))))"

primrec referenceTree ::
  "nat \<Rightarrow> Plugin \<Rightarrow> bool \<Rightarrow> edgeKey list \<Rightarrow> Plugin \<Rightarrow> PluginRelation list \<Rightarrow> seenKeys \<Rightarrow> seenKeys stx" where
  "referenceTree 0 root listed existing source rels seen = throwT ErrInvalidRelation"
| "referenceTree (Suc n) root listed existing source rels seen =
     thenT (refuseT (length rels > maxGraphEdges) ErrInvalidRelation)
       (bindT (mapT (resolveEdge root source listed existing (2 - n)) (enumerate 0 rels)) (\<lambda>targets.
        thenT (refuseT (\<not> ValidateReferenceMetadata (p_Type source)
                 (map2 (\<lambda>edge target. edge\<lparr>r_TargetPluginType := Some (p_Type target)\<rparr>) rels targets)) ErrInvalidRelation)
          (foldT (\<lambda>(i, edge, target). releasedReference (referenceTree n root False []) i (2 - n) target edge)
             (zip [0..<length rels] (zip rels targets)) seen)))"

text \<open>The entry points of the code, by depth.\<close>

definition validateReferenceTree ::
  "Plugin \<Rightarrow> Plugin \<Rightarrow> PluginRelation list \<Rightarrow> bool \<Rightarrow> edgeKey list \<Rightarrow> nat \<Rightarrow> seenKeys \<Rightarrow> seenKeys stx" where
  "validateReferenceTree root source rels listed existing depth seen =
     referenceTree (3 - depth) root listed existing source rels seen"

definition validateReleasedReference ::
  "Plugin \<Rightarrow> Plugin \<Rightarrow> PluginRelation \<Rightarrow> nat \<Rightarrow> nat \<Rightarrow> seenKeys \<Rightarrow> seenKeys stx" where
  "validateReleasedReference root target edge index depth seen =
     releasedReference (\<lambda>source rels. validateReferenceTree root source rels False [] (Suc depth)) index depth target edge seen"

section \<open>Guards of the write path\<close>

definition liveRelationTargetSet :: "Store \<Rightarrow> string \<Rightarrow> string list" where
  "liveRelationTargetSet s source =
     map r_TargetPluginID (filter (\<lambda>e. r_SourcePluginID e = source \<and> r_DeletedAt e = None) (relations s))"

definition relationTargetRow :: "Scope \<Rightarrow> string \<Rightarrow> Plugin \<Rightarrow> bool" where
  "relationTargetRow sc targetID p \<longleftrightarrow>
     p_ID p = targetID \<and> p_Status p = 1 \<and> p_DeletedAt p = None \<and>
     (s_Admin sc \<or> visibilitySQL (s_SpaceID sc) (s_CallerUID sc) p)"

definition lockRelationTarget ::
  "Scope \<Rightarrow> Plugin \<Rightarrow> string list \<Rightarrow> PluginRelation \<Rightarrow> (string \<times> string) list \<Rightarrow> (string \<times> string) list stx" where
  "lockRelationTarget sc source inGraph rel seen =
     thenT (refuseT (r_TargetPluginID rel = '''' \<or> (r_Type rel, r_TargetPluginID rel) \<in> set seen) ErrInvalidRelation)
       (bindT (queryT (\<lambda>s. find (relationTargetRow sc (r_TargetPluginID rel)) (plugins s))) (\<lambda>row.
        bindT (someT ErrNotFound row) (\<lambda>target.
        thenT (refuseT (\<not> validPersistedRelation (r_Type rel) (p_Type source) (p_Type target)) ErrInvalidRelation)
       (thenT (refuseT (p_IsEmbedded target \<and> r_TargetPluginID rel \<notin> set inGraph) ErrInvalidRelation)
       (thenT (refuseT (\<not> p_IsEmbedded target \<and> \<not> referenceAudience source target) ErrNotFound)
         (returnT ((r_Type rel, r_TargetPluginID rel) # seen)))))))"

definition lockRelationTargets :: "Scope \<Rightarrow> Plugin \<Rightarrow> PluginRelation list \<Rightarrow> string list \<Rightarrow> unit stx" where
  "lockRelationTargets sc source rels inGraph =
     bindT (foldT (lockRelationTarget sc source inGraph) rels []) (\<lambda>_. returnT ())"

definition lockReferences :: "Repo \<Rightarrow> Scope \<Rightarrow> Plugin \<Rightarrow> PluginRelation list \<Rightarrow> string list \<Rightarrow> unit stx" where
  "lockReferences r sc source rels inGraph =
     (if \<not> references r then lockRelationTargets sc source rels inGraph
      else if p_IsEmbedded source then throwT ErrInvalidRelation
      else if p_ListingState source = PluginListingStateDraft \<and> rels = [] then returnT ()
      else bindT (queryT (\<lambda>s. existingEdges s (p_ID source))) (\<lambda>existing.
        bindT (validateReferenceTree source source rels True existing 0 []) (\<lambda>_. returnT ())))"

definition retainedDraftReferences :: "Plugin \<Rightarrow> PluginRelation list \<Rightarrow> bool \<Rightarrow> PluginRelation list stx" where
  "retainedDraftReferences source rels strict =
     (if p_ListingState source = PluginListingStateDraft \<and> rels = [] then returnT []
      else thenT (refuseT (strict \<and> \<not> ValidateReferenceMetadata (p_Type source) rels) ErrInvalidRelation)
        (queryT (\<lambda>s. filter (\<lambda>edge. edgeKeyOf edge \<notin> set (existingEdges s (p_ID source))) rels)))"

definition validateChangedDraftReferences :: "Plugin \<Rightarrow> PluginRelation list \<Rightarrow> unit stx" where
  "validateChangedDraftReferences source rels =
     forT (\<lambda>(i, edge).
       bindT (lockIndependentReferenceTarget source source (r_TargetPluginID edge)) (\<lambda>target.
       thenT (refuseT (p_ListingState target \<noteq> PluginListingStatePublished)
                (referenceFieldError i 0 ''target_plugin_id'' ''target_not_published''))
      (thenT (refuseT (\<not> validPersistedRelation (r_Type edge) (p_Type source) (p_Type target)) ErrInvalidRelation)
      (bindT (validateReleasedReference source target edge i 0 []) (\<lambda>_. returnT ()))))) (enumerate 0 rels)"

text \<open>\<open>retainedOwned\<close> lists the embedded targets an already published snapshot keeps.\<close>

definition validateReleaseReferences :: "Repo \<Rightarrow> Plugin \<Rightarrow> string \<Rightarrow> string list \<Rightarrow> unit stx" where
  "validateReleaseReferences r p versionID retainedOwned =
     bindT (queryT (\<lambda>s. map_option v_Relations
         (find (\<lambda>v. v_PluginID v = p_ID p \<and> v_ID v = versionID) (versions s)))) (\<lambda>row.
     bindT (someT ErrSnapshotMissing row) (\<lambda>rels.
       if references r then bindT (validateReferenceTree p p rels True [] 0 []) (\<lambda>_. returnT ())
       else if rels = [] then returnT ()
       else bindT (queryT (\<lambda>s. liveRelationTargetSet s (p_ID p))) (\<lambda>owned.
         thenT (lockRelationTargets
                  \<lparr>s_CallerUID = p_OwnerUID p, s_SpaceID = (case p_SpaceID p of None \<Rightarrow> '''' | Some x \<Rightarrow> x),
                   s_Admin = (p_SpaceID p = None)\<rparr> p rels (owned @ retainedOwned))
           (bindT (foldT (\<lambda>(i, edge) seen.
              if r_TargetVersionID edge = None then returnT seen
              else thenT (refuseT (length rels > maxGraphEdges) ErrInvalidRelation)
                (bindT (lockIndependentReferenceTarget p p (r_TargetPluginID edge)) (\<lambda>target.
                 thenT (refuseT (p_ListingState target \<noteq> PluginListingStatePublished)
                          (referenceFieldError i 0 ''target_plugin_id'' ''target_not_published''))
                   (validateReleasedReference p target edge i 0 seen)))) (enumerate 0 rels) []) (\<lambda>_. returnT ())))))"

definition rejectPublishedMutation :: "Repo \<Rightarrow> Plugin \<Rightarrow> unit stx" where
  "rejectPublishedMutation r p =
     (if \<not> references r then returnT ()
      else bindT (queryT (\<lambda>s. \<exists>rel \<in> set (releases s). rel_PluginID rel = p_ID p)) (\<lambda>released.
        thenT (refuseT (released \<or> p_ListingState p = PluginListingStatePublished \<or>
                        p_ListingState p = PluginListingStateDelisted) ErrConflict)
          (bindT (queryT (\<lambda>s. \<exists>q \<in> set (reviews s). rr_PluginID q = p_ID p \<and> rr_Status q = ReviewStatusApproved))
            (\<lambda>approved. refuseT approved ErrConflict))))"

definition rejectLiveIncomingRelations :: "string \<Rightarrow> unit stx" where
  "rejectLiveIncomingRelations pid =
     bindT (queryT (\<lambda>s. \<exists>e \<in> set (relations s). r_TargetPluginID e = pid \<and> r_Status e = 1 \<and> r_DeletedAt e = None \<and>
         (\<exists>p \<in> set (plugins s). p_ID p = r_SourcePluginID e \<and> p_DeletedAt p = None \<and> p_Status p = 1)))
       (\<lambda>inUse. refuseT inUse ErrRelationInUse)"

section \<open>Facts\<close>

lemma lockIndependent_reads [reads]: "steps (=) (lockIndependentReferenceTarget root source pid)"
  unfolding lockIndependentReferenceTarget_def by (intro reading.steps_rules)

lemma resolveEdge_reads [reads]: "steps (=) (resolveEdge root source listed existing d x)"
  unfolding resolveEdge_def by (intro reading.steps_rules reads)

lemma releasedReference_reads:
  "(\<And>p rels sn. steps (=) (below p rels sn)) \<Longrightarrow> steps (=) (releasedReference below i d target edge seen)"
  unfolding releasedReference_def Let_def by (intro reading.steps_rules)

lemma referenceTree_reads [reads]: "steps (=) (referenceTree n root listed existing source rels seen)"
proof (induction n arbitrary: listed existing source rels seen)
  case (Suc n)
  show ?case
    unfolding referenceTree.simps by (intro reading.steps_rules reads releasedReference_reads Suc)
qed (simp add: reading.steps_throw)

lemma validateReferenceTree_reads [reads]:
  "steps (=) (validateReferenceTree root source rels listed existing d seen)"
  unfolding validateReferenceTree_def by (rule referenceTree_reads)

lemma validateReleasedReference_reads [reads]:
  "steps (=) (validateReleasedReference root target edge i d seen)"
  unfolding validateReleasedReference_def by (intro releasedReference_reads reads)

lemma lockRelationTargets_reads [reads]: "steps (=) (lockRelationTargets sc source rels inGraph)"
  unfolding lockRelationTargets_def lockRelationTarget_def by (intro reading.steps_rules)

lemma lockReferences_reads [reads]: "steps (=) (lockReferences r sc source rels inGraph)"
  unfolding lockReferences_def by (intro reading.steps_rules reads)

lemma retainedDraftReferences_reads [reads]: "steps (=) (retainedDraftReferences source rels strict)"
  unfolding retainedDraftReferences_def by (intro reading.steps_rules)

lemma validateChanged_reads [reads]: "steps (=) (validateChangedDraftReferences source rels)"
  unfolding validateChangedDraftReferences_def by (intro reading.steps_rules reads)

lemma validateReleaseReferences_reads [reads]: "steps (=) (validateReleaseReferences r p vid ret)"
  unfolding validateReleaseReferences_def by (intro reading.steps_rules reads)

lemma rejectPublishedMutation_reads [reads]: "steps (=) (rejectPublishedMutation r p)"
  unfolding rejectPublishedMutation_def by (intro reading.steps_rules)

lemma rejectLiveIncoming_reads [reads]: "steps (=) (rejectLiveIncomingRelations pid)"
  unfolding rejectLiveIncomingRelations_def by (intro reading.steps_rules)

subsection \<open>No audience is exceeded\<close>

text \<open>a reference never outreaches its source. Whoever can read the source in the catalog (in
  Space \<open>sp\<close> as user \<open>uid\<close>) can read a published target the audience rule admits.\<close>

theorem referenceAudience_visible:
  assumes "referenceAudience source target" and "visibilitySQL sp uid source"
    and "p_ListingState target = PluginListingStatePublished"
  shows "visibilitySQL sp uid target"
  using assms
  by (cases "p_Visibility source"; cases "p_Visibility target")
    (auto simp: referenceAudience_def referenceVisibility_def visibilitySQL_def Let_def split: if_splits)

theorem referenceAudience_visible_witness:
  "visibilitySQL ''s1'' ''u9'' (samplePlugin ''k'' PluginTypeSkill ''u1'')"
proof -
  have "referenceAudience (samplePlugin ''e'' PluginTypeExpert ''u2'') (samplePlugin ''k'' PluginTypeSkill ''u1'')"
    "visibilitySQL ''s1'' ''u9'' (samplePlugin ''e'' PluginTypeExpert ''u2'')"
    "p_ListingState (samplePlugin ''k'' PluginTypeSkill ''u1'') = PluginListingStatePublished"
    by code_simp+
  then show ?thesis by (rule referenceAudience_visible)
qed

text \<open>The edges of a frozen graph: those of the root and, behind every pin, those of the released version.\<close>

inductive refReach :: "Store \<Rightarrow> PluginRelation list \<Rightarrow> PluginRelation \<Rightarrow> bool" for s rels where
  direct: "e \<in> set rels \<Longrightarrow> refReach s rels e"
| behind: "refReach s rels e \<Longrightarrow> r_TargetVersionID e = Some v \<Longrightarrow>
    releasedRelations s (r_TargetPluginID e) v = Some cs \<Longrightarrow> c \<in> set cs \<Longrightarrow> refReach s rels c"

definition admitted :: "Store \<Rightarrow> Plugin \<Rightarrow> PluginRelation \<Rightarrow> bool" where
  "admitted s root e \<longleftrightarrow>
     (\<exists>p \<in> set (plugins s). p_ID p = r_TargetPluginID e \<and> p_Status p = 1 \<and> p_DeletedAt p = None \<and>
        \<not> p_IsEmbedded p \<and> referenceAudience root p)"

definition pinSeen :: "seenKeys \<Rightarrow> PluginRelation \<Rightarrow> bool" where
  "pinSeen seen e \<longleftrightarrow> (\<forall>v. r_TargetVersionID e = Some v \<longrightarrow> (r_TargetPluginID e, v) \<in> set seen)"

definition closedKey :: "Store \<Rightarrow> Plugin \<Rightarrow> seenKeys \<Rightarrow> string \<times> string \<Rightarrow> bool" where
  "closedKey s root seen k \<longleftrightarrow>
     (\<exists>cs. releasedRelations s (fst k) (snd k) = Some cs \<and> (\<forall>c \<in> set cs. admitted s root c \<and> pinSeen seen c))"

text \<open>What a successful walk establishes of its own edges and of the keys it added.\<close>

definition walked :: "Store \<Rightarrow> Plugin \<Rightarrow> PluginRelation list \<Rightarrow> seenKeys \<Rightarrow> seenKeys \<Rightarrow> bool" where
  "walked s root rels seen seen' \<longleftrightarrow>
     set seen \<subseteq> set seen' \<and> (\<forall>e \<in> set rels. pinSeen seen' e) \<and> (\<forall>k \<in> set seen' - set seen. closedKey s root seen' k)"

lemma pinSeen_mono: "pinSeen S e \<Longrightarrow> set S \<subseteq> set T \<Longrightarrow> pinSeen T e"
  by (auto simp: pinSeen_def)

lemma closedKey_mono: "closedKey s root S k \<Longrightarrow> set S \<subseteq> set T \<Longrightarrow> closedKey s root T k"
  by (auto simp: closedKey_def intro: pinSeen_mono)

lemma mapT_Inr_reads:
  assumes "mapT f xs s = Inr (ys, t)" and "\<And>x. steps (=) (f x)"
  shows "t = s \<and> length ys = length xs \<and> (\<forall>x \<in> set xs. \<exists>y. f x s = Inr (y, s))"
  using assms(1)
proof (induction xs arbitrary: s ys)
  case (Cons x xs)
  then obtain y u where y: "f x s = Inr (y, u)" by (auto simp: tx_simps)
  from readsD [OF assms(2) y] have "u = s" .
  with Cons y show ?case by (auto simp: tx_simps dest!: Cons.IH)
qed (auto simp: tx_simps)

lemma resolveEdge_admits:
  assumes "resolveEdge root source listed existing d (i, e) s = Inr (p, t)"
  shows "admitted s root e"
  using assms
  by (auto simp: resolveEdge_def lockIndependentReferenceTarget_def tx_simps admitted_def dest!: find_Some_mem)

lemma releasedReference_walked:
  assumes run: "releasedReference below i d target e seen s = Inr (seen', s')"
    and below: "\<And>p rels S S' s'. below p rels S s = Inr (S', s') \<Longrightarrow>
      walked s root rels S S' \<and> (\<forall>c \<in> set rels. admitted s root c)"
  shows "walked s root [e] seen seen'"
proof (cases "r_TargetVersionID e")
  case None
  with run show ?thesis by (auto simp: releasedReference_def tx_simps walked_def pinSeen_def)
next
  case (Some v)
  let ?k = "(r_TargetPluginID e, v)"
  show ?thesis
  proof (cases "?k \<in> set seen")
    case True
    with run Some show ?thesis by (auto simp: releasedReference_def tx_simps walked_def pinSeen_def)
  next
    case False
    with run Some obtain cs where cs: "releasedRelations s (r_TargetPluginID e) v = Some cs"
        "below target cs (?k # seen) s = Inr (seen', s')"
      by (auto simp: releasedReference_def Let_def tx_simps)
    from below [OF cs(2)] cs(1) Some show ?thesis
      by (auto simp: walked_def pinSeen_def closedKey_def)
  qed
qed

lemma foldT_walked:
  assumes run: "foldT f xs seen s = Inr (seen', s')"
    and step: "\<And>x S S' s'. x \<in> set xs \<Longrightarrow> f x S s = Inr (S', s') \<Longrightarrow> s' = s \<and> walked s root [g x] S S'"
  shows "walked s root (map g xs) seen seen'"
  using assms
proof (induction xs arbitrary: seen)
  case Nil
  then show ?case by (auto simp: tx_simps walked_def)
next
  case (Cons x xs)
  from Cons.prems(1) obtain mid u where mid: "f x seen s = Inr (mid, u)" "foldT f xs mid u = Inr (seen', s')"
    by (auto simp: tx_simps)
  from Cons.prems(2) [OF _ mid(1)] have u: "u = s" "walked s root [g x] seen mid" by auto
  from Cons.IH [OF mid(2) [unfolded u(1)]] Cons.prems(2)
  have "walked s root (map g xs) mid seen'" by auto
  with u(2) show ?case
    by (auto simp: walked_def intro: pinSeen_mono closedKey_mono)
qed

lemma referenceTree_walked:
  assumes "referenceTree n root listed existing source rels seen s = Inr (seen', s')"
  shows "walked s root rels seen seen' \<and> (\<forall>e \<in> set rels. admitted s root e)"
  using assms
proof (induction n arbitrary: listed existing source rels seen seen' s')
  case 0
  then show ?case by (simp add: tx_simps)
next
  case (Suc n)
  let ?step = "\<lambda>(i, edge, target). releasedReference (referenceTree n root False []) i (2 - n) target edge"
  from Suc.prems obtain targets u where
      m: "mapT (resolveEdge root source listed existing (2 - n)) (enumerate 0 rels) s = Inr (targets, u)"
    and f: "foldT ?step (zip [0..<length rels] (zip rels targets)) seen u = Inr (seen', s')"
    by (auto simp: tx_simps)
  from mapT_Inr_reads [OF m resolveEdge_reads]
  have u: "u = s" and len: "length targets = length rels"
    and res: "\<forall>x \<in> set (enumerate 0 rels). \<exists>y. resolveEdge root source listed existing (2 - n) x s = Inr (y, s)"
    by auto
  have "admitted s root e" if "e \<in> set rels" for e
  proof -
    from that obtain i where "(i, e) \<in> set (enumerate 0 rels)"
      by (metis in_set_impl_in_set_zip2 enumerate_eq_zip length_upt diff_zero add_0)
    with res show ?thesis by (blast dest: resolveEdge_admits)
  qed
  moreover have "walked s root (map (fst \<circ> snd) (zip [0..<length rels] (zip rels targets))) seen seen'"
  proof (rule foldT_walked [OF f [unfolded u]])
    fix x S S' s'' assume "?step x S s = Inr (S', s'')"
    moreover obtain i e p where x: "x = (i, e, p)" by (cases x)
    ultimately have r: "releasedReference (referenceTree n root False []) i (2 - n) p e S s = Inr (S', s'')" by simp
    have "s'' = s" using readsD [OF releasedReference_reads r] referenceTree_reads by blast
    with releasedReference_walked [OF r Suc.IH] x show "s'' = s \<and> walked s root [(fst \<circ> snd) x] S S'" by simp
  qed
  moreover have "map (fst \<circ> snd) (zip [0..<length rels] (zip rels targets)) = rels"
    using len by (simp add: map_map [symmetric] map_snd_zip)
  ultimately show ?case by simp
qed

text \<open>C3: a validated frozen graph hides nothing. When the walk over a root's relations succeeds,
  every edge reachable through pinned released versions, at any depth, points at a live
  standalone plugin within the root's own audience, and every pin on the way names a
  released version.\<close>

theorem validateReferenceTree_closed:
  assumes "validateReferenceTree root source rels listed existing depth [] s = Inr (seen, s')"
    and "refReach s rels e"
  shows "admitted s root e \<and>
    (\<forall>v. r_TargetVersionID e = Some v \<longrightarrow> releasedRelations s (r_TargetPluginID e) v \<noteq> None)"
proof -
  from referenceTree_walked [OF assms(1) [unfolded validateReferenceTree_def]]
  have w: "\<forall>e \<in> set rels. pinSeen seen e \<and> admitted s root e" "\<forall>k \<in> set seen. closedKey s root seen k"
    by (auto simp: walked_def)
  from assms(2) have "admitted s root e \<and> pinSeen seen e"
  proof induction
    case (behind e v cs c)
    then have "closedKey s root seen (r_TargetPluginID e, v)" using w(2) by (auto simp: pinSeen_def)
    with behind show ?case by (auto simp: closedKey_def)
  qed (use w in auto)
  with w(2) show ?thesis by (fastforce simp: pinSeen_def closedKey_def)
qed

text \<open>An expert whose only skill is pinned at a released version.\<close>

definition pinnedStore :: Store where
  "pinnedStore = sampleStore\<lparr>versions := [sampleVersion ''k'' ''kv'' []], releases := [sampleRelease ''k'' ''kv'']\<rparr>"

definition pinnedEdge :: PluginRelation where
  "pinnedEdge = (sampleEdge ''e'' ''k'' ''expert_skill'')\<lparr>r_TargetVersionID := Some ''kv'', r_Data := None\<rparr>"

theorem validateReferenceTree_closed_witness:
  "\<exists>seen s'. validateReferenceTree (samplePlugin ''e'' PluginTypeExpert ''u2'') (samplePlugin ''e'' PluginTypeExpert ''u2'')
      [pinnedEdge] True [] 0 [] pinnedStore = Inr (seen, s') \<and>
    admitted pinnedStore (samplePlugin ''e'' PluginTypeExpert ''u2'') pinnedEdge \<and>
    releasedRelations pinnedStore ''k'' ''kv'' \<noteq> None"
proof -
  let ?e = "samplePlugin ''e'' PluginTypeExpert ''u2''"
  have "\<not> isl (validateReferenceTree ?e ?e [pinnedEdge] True [] 0 [] pinnedStore)" by code_simp
  then obtain seen s' where run: "validateReferenceTree ?e ?e [pinnedEdge] True [] 0 [] pinnedStore = Inr (seen, s')"
    by (auto dest: tx_runs)
  have "refReach pinnedStore [pinnedEdge] pinnedEdge" by (rule refReach.direct) simp
  from validateReferenceTree_closed [OF run this] run show ?thesis
    by (auto simp: pinnedEdge_def sampleEdge_def)
qed

end
