(* ===== verification/Snapshots.thy ===== *)
theory Snapshots
  imports References
begin

text \<open>
  Rows a save writes (\<open>write.go\<close>, \<open>version_snapshot.go\<close>): relation edges and their
  synchronisation with a submitted target state, plugin and placement rows, and the
  immutable version snapshot with its artifact inventory and reference index.

  Inserts check the primary key of the table (\<open>ErrDuplicateKey\<close>) and the JSON-object
  constraint on edge data (\<open>ErrCheckViolation\<close>); both are raw driver errors in the code.
\<close>

section \<open>Relation edges\<close>

definition objectOrNull :: "raw \<Rightarrow> bool" where
  "objectOrNull d = (case d of None \<Rightarrow> True | Some (JObj _) \<Rightarrow> True | Some _ \<Rightarrow> False)"

definition insertRelationRow :: "time \<Rightarrow> string \<Rightarrow> string \<Rightarrow> PluginRelation \<Rightarrow> unit stx" where
  "insertRelationRow t source creator x =
     bindT (queryT (\<lambda>s. \<exists>e \<in> set (relations s). r_ID e = r_ID x)) (\<lambda>dup.
     thenT (refuseT dup ErrDuplicateKey)
    (thenT (refuseT (\<not> objectOrNull (r_Data x) \<or> source = r_TargetPluginID x) ErrCheckViolation)
       (modifyT (\<lambda>s. s\<lparr>relations := relations s @
          [x\<lparr>r_SourcePluginID := source, r_TargetPluginType := None, r_CreatedBy := creator,
             r_CreatedAt := t, r_UpdatedAt := t, r_DeletedAt := None\<rparr>]\<rparr>))))"

definition insertRelations ::
  "Repo \<Rightarrow> time \<Rightarrow> string \<Rightarrow> string \<Rightarrow> PluginRelation list \<Rightarrow> PluginRelation list stx" where
  "insertRelations r t source creator rels =
     mapT (\<lambda>x. bindT (if r_ID x = '''' then newID r else returnT (r_ID x)) (\<lambda>i.
       thenT (insertRelationRow t source creator (x\<lparr>r_ID := i\<rparr>)) (returnT (x\<lparr>r_ID := i\<rparr>)))) rels"

record RelationSync =
  sy_Created :: "string list"
  sy_Updated :: "string list"
  sy_Deleted :: "string list"
  sy_Relations :: "PluginRelation list"
  sy_NewVersionID :: string
  sy_DraftRevision :: string

text \<open>The accumulator of the loop: live edges not yet matched, and the outcome so far.\<close>

record SyncState =
  ss_Live :: "PluginRelation list"
  ss_Created :: "string list"
  ss_Updated :: "string list"
  ss_Done :: "PluginRelation list"

definition liveEdges :: "Store \<Rightarrow> string \<Rightarrow> PluginRelation list" where
  "liveEdges s source = filter (\<lambda>e. r_SourcePluginID e = source \<and> r_DeletedAt e = None) (relations s)"

text \<open>
  With \<open>keepIDs\<close> (\<open>stable\<close> in the code) an edge without an id takes the id of a live edge with its target and type;
  the code picks one in map order, the model the first one.
\<close>

definition stableID :: "bool \<Rightarrow> PluginRelation list \<Rightarrow> PluginRelation \<Rightarrow> string" where
  "stableID keepIDs live rel =
     (if r_ID rel = '''' \<and> keepIDs
      then (case find (\<lambda>e. r_TargetPluginID e = r_TargetPluginID rel \<and> r_Type e = r_Type rel) live of
              None \<Rightarrow> '''' | Some e \<Rightarrow> r_ID e)
      else r_ID rel)"

definition sameEdge :: "bool \<Rightarrow> PluginRelation \<Rightarrow> PluginRelation \<Rightarrow> bool" where
  "sameEdge pinAware edge rel \<longleftrightarrow>
     r_TargetPluginID edge = r_TargetPluginID rel \<and> r_Type edge = r_Type rel \<and>
     r_SortOrder edge = r_SortOrder rel \<and> r_Status edge = r_Status rel \<and> r_Data edge = r_Data rel \<and>
     (pinAware \<longrightarrow> r_TargetVersionID edge = r_TargetVersionID rel)"

text \<open>The one or two \<open>UPDATE\<close> statements on a changed edge.\<close>

definition rewriteEdge :: "bool \<Rightarrow> time \<Rightarrow> PluginRelation \<Rightarrow> PluginRelation \<Rightarrow> PluginRelation" where
  "rewriteEdge pinAware t rel e =
     e\<lparr>r_TargetPluginID := r_TargetPluginID rel, r_Type := r_Type rel, r_SortOrder := r_SortOrder rel,
       r_Data := r_Data rel, r_Status := r_Status rel, r_UpdatedAt := t,
       r_TargetVersionID := (if pinAware then r_TargetVersionID rel else r_TargetVersionID e)\<rparr>"

definition updateRelations :: "(PluginRelation \<Rightarrow> bool) \<Rightarrow> (PluginRelation \<Rightarrow> PluginRelation) \<Rightarrow> unit stx" where
  "updateRelations c f = modifyT (\<lambda>s. s\<lparr>relations := updateWhere c f (relations s)\<rparr>)"

definition syncRelation ::
  "Repo \<Rightarrow> time \<Rightarrow> string \<Rightarrow> string \<Rightarrow> bool \<Rightarrow> PluginRelation \<Rightarrow> SyncState \<Rightarrow> SyncState stx" where
  "syncRelation r t source creator keepIDs rel0 st =
     (let rel = rel0\<lparr>r_ID := stableID keepIDs (ss_Live st) rel0\<rparr> in
      if r_ID rel = '''' then
        bindT (newID r) (\<lambda>i.
        thenT (insertRelationRow t source creator (rel\<lparr>r_ID := i\<rparr>))
          (returnT (st\<lparr>ss_Created := ss_Created st @ [i], ss_Done := ss_Done st @ [rel\<lparr>r_ID := i\<rparr>]\<rparr>)))
      else
        bindT (someT ErrInvalidRelation (find (\<lambda>e. r_ID e = r_ID rel) (ss_Live st))) (\<lambda>edge.
          let pinAware = (r_TargetVersionID rel \<noteq> None \<or> keepIDs);
              st' = st\<lparr>ss_Live := filter (\<lambda>e. r_ID e \<noteq> r_ID rel) (ss_Live st), ss_Done := ss_Done st @ [rel]\<rparr> in
          if sameEdge pinAware edge rel then returnT st'
          else thenT (refuseT (\<not> objectOrNull (r_Data rel) \<or> source = r_TargetPluginID rel) ErrCheckViolation)
            (thenT (updateRelations
                 (\<lambda>e. r_ID e = r_ID rel \<and> r_SourcePluginID e = source \<and> r_DeletedAt e = None)
                 (rewriteEdge pinAware t rel))
               (returnT (st'\<lparr>ss_Updated := ss_Updated st' @ [r_ID rel]\<rparr>)))))"

definition markEdgeDeleted :: "time \<Rightarrow> PluginRelation \<Rightarrow> PluginRelation" where
  "markEdgeDeleted t e = e\<lparr>r_DeletedAt := Some t, r_UpdatedAt := t\<rparr>"

definition deleteEdge :: "time \<Rightarrow> string \<Rightarrow> string \<Rightarrow> unit stx" where
  "deleteEdge t source i =
     updateRelations (\<lambda>e. r_ID e = i \<and> r_SourcePluginID e = source \<and> r_DeletedAt e = None)
       (markEdgeDeleted t)"

definition syncRelations ::
  "Repo \<Rightarrow> time \<Rightarrow> string \<Rightarrow> string \<Rightarrow> PluginRelation list \<Rightarrow> bool \<Rightarrow> RelationSync stx" where
  "syncRelations r t source creator desired keepIDs =
     bindT (queryT (\<lambda>s. sort_key r_ID (liveEdges s source))) (\<lambda>live.
     bindT (foldT (syncRelation r t source creator keepIDs) desired
              \<lparr>ss_Live = live, ss_Created = [], ss_Updated = [], ss_Done = []\<rparr>) (\<lambda>st.
       let leftover = sort (map r_ID (ss_Live st)) in
       thenT (forT (deleteEdge t source) leftover)
         (returnT \<lparr>sy_Created = ss_Created st, sy_Updated = ss_Updated st, sy_Deleted = leftover,
            sy_Relations = ss_Done st, sy_NewVersionID = '''', sy_DraftRevision = ''''\<rparr>)))"

text \<open>
  A frozen edge set made applicable: ids that are no longer live are cleared, the source and
  a zero status are filled in, and \<open>null\<close> data becomes no data.
\<close>

definition reconcileEdge :: "string list \<Rightarrow> string \<Rightarrow> PluginRelation \<Rightarrow> PluginRelation" where
  "reconcileEdge liveIDs pid e =
     e\<lparr>r_ID := (if r_ID e \<in> set liveIDs then r_ID e else ''''), r_SourcePluginID := pid,
       r_Status := (if r_Status e = 0 then 1 else r_Status e),
       r_Data := (if isJSONNullOrEmpty (r_Data e) then None else r_Data e)\<rparr>"

definition reconcileFrozenRelations :: "Store \<Rightarrow> string \<Rightarrow> PluginRelation list \<Rightarrow> PluginRelation list" where
  "reconcileFrozenRelations s pid frozen =
     (if frozen = [] then []
      else map (reconcileEdge (map r_ID (liveEdges s pid)) pid) frozen)"

section \<open>Plugin and placement rows\<close>

definition lockPluginCategory :: "string option \<Rightarrow> PluginType \<Rightarrow> unit stx" where
  "lockPluginCategory cat ty =
     (case cat of
        None \<Rightarrow> returnT ()
      | Some c \<Rightarrow>
          bindT (queryT (\<lambda>s. \<exists>x \<in> set (categories s). cat_ID x = c \<and> cat_Status x = 1 \<and>
                   cat_DeletedAt x = None \<and> ty \<in> set (cat_Types x)))
            (\<lambda>found. refuseT (\<not> found) ErrInvalidCategory))"

definition insertPlugin :: "Repo \<Rightarrow> time \<Rightarrow> Plugin \<Rightarrow> unit stx" where
  "insertPlugin r t p =
     bindT (liftT (pluginNameColumns r (p_Name p) (p_Type p) (p_SpaceID p))) (\<lambda>(nameKey, nameScope).
     thenT (case nameKey of
              None \<Rightarrow> returnT ()
            | Some k \<Rightarrow> whenT (\<not> p_IsEmbedded p) (rejectPluginNameCollision r p k nameScope))
    (bindT (queryT (\<lambda>s. \<exists>q \<in> set (plugins s). p_ID q = p_ID p)) (\<lambda>dup.
     thenT (refuseT dup ErrDuplicateKey)
       (modifyT (\<lambda>s. s\<lparr>plugins := plugins s @
          [p\<lparr>p_Rating := None, p_PublishedVersionID := None, p_NameKey := nameKey, p_PublishedNameKey := None,
             p_NameScope := nameScope, p_CreatedAt := t, p_UpdatedAt := t, p_DeletedAt := None\<rparr>]\<rparr>)))))"

text \<open>The keys of the placement table: the id, and one row per placement code and plugin.\<close>

definition placementTaken :: "Store \<Rightarrow> string \<Rightarrow> string \<Rightarrow> string \<Rightarrow> bool" where
  "placementTaken s i code pid \<longleftrightarrow>
     (\<exists>x \<in> set (placements s). pl_ID x = i \<or> pl_PlacementCode x = code \<and> pl_PluginID x = pid)"

definition insertPlacements :: "Repo \<Rightarrow> time \<Rightarrow> string \<Rightarrow> PluginPlacement list \<Rightarrow> unit stx" where
  "insertPlacements r t pid xs =
     forT (\<lambda>x. bindT (if pl_ID x = '''' then newID r else returnT (pl_ID x)) (\<lambda>i.
       bindT (queryT (\<lambda>s. placementTaken s i (pl_PlacementCode x) pid)) (\<lambda>dup.
       thenT (refuseT dup ErrDuplicateKey)
         (modifyT (\<lambda>s. s\<lparr>placements := placements s @
            [x\<lparr>pl_ID := i, pl_PluginID := pid, pl_CreatedAt := t, pl_UpdatedAt := t\<rparr>]\<rparr>))))) xs"

section \<open>Version snapshots\<close>

text \<open>Decoding a package attachment: a missing or \<open>null\<close> member is the zero value.\<close>

definition strictString :: "json option \<Rightarrow> string option" where
  "strictString v = (case v of None \<Rightarrow> Some '''' | Some x \<Rightarrow> asString x)"

definition strictInt :: "json option \<Rightarrow> int option" where
  "strictInt v =
     (case v of
        None \<Rightarrow> Some 0
      | Some JNull \<Rightarrow> Some 0
      | Some (JNum n) \<Rightarrow> if - (2 ^ 63) \<le> n \<and> n < 2 ^ 63 then Some n else None
      | Some _ \<Rightarrow> None)"

record Attachment =
  at_Path :: string
  at_ContentType :: string
  at_RawContent :: string
  at_Size :: int
  at_Hash :: string

definition decodeAttachment :: "json \<Rightarrow> Attachment option" where
  "decodeAttachment v =
     (if v = JNull then Some \<lparr>at_Path = '''', at_ContentType = '''', at_RawContent = '''', at_Size = 0, at_Hash = ''''\<rparr>
      else case (v, strictString (structField ''path'' v), strictString (structField ''content_type'' v),
            strictString (structField ''raw_content'' v), strictInt (structField ''content_size'' v),
            strictString (structField ''content_hash'' v)) of
        (JObj _, Some p, Some c, Some rc, Some n, Some h) \<Rightarrow>
          Some \<lparr>at_Path = p, at_ContentType = c, at_RawContent = rc, at_Size = n, at_Hash = h\<rparr>
      | _ \<Rightarrow> None)"

definition decodeAttachments :: "raw \<Rightarrow> Attachment list option" where
  "decodeAttachments pkg =
     (case pkg of
        Some JNull \<Rightarrow> Some []
      | Some (JObj kvs) \<Rightarrow>
          (case structField ''attachments'' (JObj kvs) of
             None \<Rightarrow> Some []
           | Some JNull \<Rightarrow> Some []
           | Some (JArr xs) \<Rightarrow>
               if list_all (\<lambda>x. decodeAttachment x \<noteq> None) xs then Some (List.map_filter decodeAttachment xs) else None
           | Some _ \<Rightarrow> None)
      | _ \<Rightarrow> None)"

definition validDigest :: "string \<Rightarrow> bool" where
  "validDigest d \<longleftrightarrow> length d = 71 \<and> prefix ''sha256:'' d \<and>
     list_all (\<lambda>c. hexLower c \<or> (CHR ''A'' \<le> c \<and> c \<le> CHR ''F'')) (drop 7 d)"

definition badArtifactPath :: "string \<Rightarrow> bool" where
  "badArtifactPath p \<longleftrightarrow> p = '''' \<or> p = ''.'' \<or> p = ''..'' \<or> pathClean p \<noteq> p \<or> prefix ''/'' p \<or> prefix ''../'' p \<or>
     CHR 0x5C \<in> set p \<or> CHR 0x00 \<in> set p"

text \<open>The storage objects a \<open>skill/ref.json\<close> names.\<close>

definition refArtifacts :: "Plugin \<Rightarrow> string \<Rightarrow> json \<Rightarrow> RepoError + PluginVersionArtifact list" where
  "refArtifacts p path ref =
     (let entry = (\<lambda>field.
        let key = stringOr '''' (mapField field ref); size = intOr 0 (mapField (field @ ''_size'') ref);
            d = stringOr '''' (mapField (field @ ''_hash'') ref) in
        if key = '''' then Inr []
        else if \<not> frozenArtifactKey key p \<or> size < 0 \<or> \<not> validDigest d then Inl ErrLegacySnapshotArtifacts
        else Inr [\<lparr>art_Path = path @ ''/'' @ field, art_ContentType = ''storage'', art_ObjectKey = key,
                   art_Size = size, art_Digest = d\<rparr>]) in
      case (entry ''object_key'', entry ''zip_object_key'', entry ''file_url'') of
        (Inl e, _, _) \<Rightarrow> Inl e
      | (Inr _, Inl e, _) \<Rightarrow> Inl e
      | (Inr _, Inr _, Inl e) \<Rightarrow> Inl e
      | (Inr a, Inr b, Inr c) \<Rightarrow> Inr (a @ b @ c))"

definition attachmentArtifacts ::
  "Repo \<Rightarrow> Plugin \<Rightarrow> (string \<times> string) list \<Rightarrow> Attachment \<Rightarrow> RepoError + PluginVersionArtifact list" where
  "attachmentArtifacts r p keys a =
     (if at_ContentType a = ''raw'' then
        (let f = \<lparr>art_Path = at_Path a, art_ContentType = ''raw'', art_ObjectKey = '''',
                  art_Size = int (length (at_RawContent a)), art_Digest = ''sha256:'' @ sha256 r (at_RawContent a)\<rparr> in
         if at_Path a = ''skill/ref.json'' then
           (case unmarshal r (at_RawContent a) of
              Some (JObj kvs) \<Rightarrow>
                (case refArtifacts p (at_Path a) (JObj kvs) of Inl e \<Rightarrow> Inl e | Inr refs \<Rightarrow> Inr (refs @ [f]))
            | Some JNull \<Rightarrow> Inr [f]
            | _ \<Rightarrow> Inl ErrBadDocument)
         else Inr [f])
      else if at_ContentType a = ''storage'' then
        (let key = (case map_of keys (at_Path a) of None \<Rightarrow> '''' | Some k \<Rightarrow> k) in
         if \<not> frozenArtifactKey key p \<or> at_Size a < 0 \<or> \<not> validDigest (at_Hash a) then Inl ErrLegacySnapshotArtifacts
         else Inr [\<lparr>art_Path = at_Path a, art_ContentType = ''storage'', art_ObjectKey = key,
                    art_Size = at_Size a, art_Digest = at_Hash a\<rparr>])
      else Inl ErrSnapshotArtifactType)"

fun artifactLoop ::
  "Repo \<Rightarrow> Plugin \<Rightarrow> (string \<times> string) list \<Rightarrow> Attachment list \<Rightarrow> string list \<Rightarrow> RepoError + PluginVersionArtifact list" where
  "artifactLoop r p keys [] seen = Inr []"
| "artifactLoop r p keys (a # rest) seen =
     (if badArtifactPath (at_Path a) \<or> at_Path a \<in> set seen then Inl ErrSnapshotArtifactPath
      else case attachmentArtifacts r p keys a of
        Inl e \<Rightarrow> Inl e
      | Inr here \<Rightarrow>
          (case artifactLoop r p keys rest (at_Path a # seen) of Inl e \<Rightarrow> Inl e | Inr out \<Rightarrow> Inr (here @ out)))"

definition snapshotArtifacts :: "Repo \<Rightarrow> Plugin \<Rightarrow> RepoError + PluginVersionArtifact list" where
  "snapshotArtifacts r p =
     (case decodeAttachments (p_Package p) of
        None \<Rightarrow> Inl ErrBadDocument
      | Some attachments \<Rightarrow>
          let keys = (case p_AttachmentKeys p of None \<Rightarrow> ([], True) | Some v \<Rightarrow> stringMap v) in
          if \<not> snd keys then Inl ErrBadDocument
          else case artifactLoop r p (fst keys) attachments [] of
            Inl e \<Rightarrow> Inl e
          | Inr out \<Rightarrow> Inr (sort_key art_Path out))"

text \<open>The stored form of a relation list: no data is the literal \<open>null\<close>.\<close>

definition EncodeSnapshotRelations :: "PluginRelation list \<Rightarrow> PluginRelation list" where
  "EncodeSnapshotRelations rels =
     map (\<lambda>e. e\<lparr>r_Data := (case r_Data e of None \<Rightarrow> Some JNull | Some d \<Rightarrow> Some d)\<rparr>) rels"

definition writeReferenceIndex :: "Repo \<Rightarrow> string \<Rightarrow> string \<Rightarrow> PluginRelation list \<Rightarrow> unit stx" where
  "writeReferenceIndex r source version rels =
     thenT (modifyT (\<lambda>s. s\<lparr>refEdges := refEdges s @
              map (\<lambda>e. \<lparr>re_SourcePluginID = source, re_SourceVersionID = version, re_RelationID = r_ID e,
                        re_Type = r_Type e, re_TargetPluginID = r_TargetPluginID e,
                        re_TargetVersionID = r_TargetVersionID e\<rparr>) rels\<rparr>))
       (bindT (queryT (\<lambda>s. map_option v_Relations
            (find (\<lambda>v. v_PluginID v = source \<and> v_ID v = version) (versions s)))) (\<lambda>row.
        bindT (someT ErrSnapshotMissing row) (\<lambda>stored.
          modifyT (\<lambda>s. s\<lparr>refIndex := refIndex s @
            [\<lparr>ri_SourcePluginID = source, ri_SourceVersionID = version, ri_RelationCount = length rels,
              ri_SnapshotDigest = relationsDigest r stored\<rparr>]\<rparr>))))"

definition editableDraftChangelog :: "Plugin \<Rightarrow> string option stx" where
  "editableDraftChangelog p =
     (case p_CurrentVersionID p of
        None \<Rightarrow> returnT None
      | Some cur \<Rightarrow>
          bindT (queryT (\<lambda>s. map_option
              (\<lambda>v. if \<exists>rel \<in> set (releases s). rel_PluginID rel = v_PluginID v \<and> rel_VersionID rel = v_ID v
                   then None else v_Changelog v)
              (find (\<lambda>v. v_PluginID v = p_ID p \<and> v_ID v = cur) (versions s)))) (someT ErrSnapshotMissing))"

definition declaredLabel :: "string option \<Rightarrow> string" where
  "declaredLabel v = (case v of None \<Rightarrow> ''1.0.0'' | Some x \<Rightarrow> if x = '''' then ''1.0.0'' else x)"

definition hasLabel :: "string option \<Rightarrow> bool" where
  "hasLabel v \<longleftrightarrow> v \<noteq> None \<and> v \<noteq> Some ''''"

definition snapshotVersion ::
  "Repo \<Rightarrow> time \<Rightarrow> Plugin \<Rightarrow> PluginRelation list \<Rightarrow> string option \<Rightarrow> string \<Rightarrow> bool \<Rightarrow> string stx" where
  "snapshotVersion r t p rels changelog createdBy indexRefs =
     (if p_Type p = PluginTypeConnector then
        thenT (whenT (hasLabel (p_CurrentVersion p))
           (bindT (updatePlugins (\<lambda>q. p_ID q = p_ID p \<and> p_DeletedAt q = None)
              (\<lambda>q. q\<lparr>p_CurrentVersion := p_CurrentVersion p, p_UpdatedAt := t\<rparr>)) (\<lambda>_. returnT ())))
          (returnT '''')
      else
        bindT (queryT (\<lambda>s. length (filter (\<lambda>v. v_PluginID v = p_ID p) (versions s)))) (\<lambda>count.
        bindT (liftT (snapshotArtifacts r p)) (\<lambda>artifacts.
        bindT (newID r) (\<lambda>versionID.
        bindT (queryT (\<lambda>s. \<exists>v \<in> set (versions s). v_ID v = versionID)) (\<lambda>dup.
        thenT (refuseT dup ErrDuplicateKey)
       (thenT (modifyT (\<lambda>s. s\<lparr>versions := versions s @
           [\<lparr>v_ID = versionID, v_PluginID = p_ID p, v_Version = itoaNat (Suc count),
             v_DeclaredVersion = Some (declaredLabel (p_CurrentVersion p)),
             v_Manifest = p_Manifest p, v_Package = p_Package p, v_AttachmentKeys = p_AttachmentKeys p,
             v_ManifestHash = p_ManifestHash p, v_PluginHash = p_PluginHash p,
             v_Relations = EncodeSnapshotRelations rels, v_Changelog = changelog, v_CreatedBy = createdBy,
             v_CreatedAt = t, v_SnapshotSchemaVersion = Some 1, v_Artifacts = Some artifacts\<rparr>]\<rparr>))
       (thenT (whenT indexRefs (writeReferenceIndex r (p_ID p) versionID rels))
       (thenT (bindT (updatePlugins (\<lambda>q. p_ID q = p_ID p \<and> p_DeletedAt q = None)
                 (\<lambda>q. q\<lparr>p_CurrentVersionID := Some versionID,
                        p_CurrentVersion := Some (declaredLabel (p_CurrentVersion p)), p_UpdatedAt := t\<rparr>)) (\<lambda>_. returnT ()))
          (returnT versionID)))))))))"

definition savedDraftRevision :: "Repo \<Rightarrow> Plugin \<Rightarrow> Plugin \<Rightarrow> string \<Rightarrow> bool \<Rightarrow> bool \<Rightarrow> string" where
  "savedDraftRevision r prior written newVersion resetListing snapshotEnabled =
     PluginDraftRevision r (written\<lparr>
       p_OwnerUID := p_OwnerUID prior, p_SpaceID := p_SpaceID prior,
       p_ListingState := (if resetListing then PluginListingStateDraft else p_ListingState prior),
       p_CurrentVersionID := (if newVersion \<noteq> '''' then Some newVersion else p_CurrentVersionID prior),
       p_CurrentVersion :=
         (if snapshotEnabled \<and> p_Type written = PluginTypeConnector \<and> hasLabel (p_CurrentVersion written)
          then p_CurrentVersion written
          else if newVersion \<noteq> '''' then Some (declaredLabel (p_CurrentVersion written))
          else p_CurrentVersion prior)\<rparr>)"

section \<open>Frames and errors\<close>

lemma insertRelationRow_touches [touches]:
  "TRelations \<in> X \<Longrightarrow> steps (sameExcept X) (insertRelationRow t src c x)"
  unfolding insertRelationRow_def
  by (intro touch.steps_rules touch.steps_modify) (auto simp: sameExcept_def kept_def)

lemma insertRelations_touches [touches]:
  "TRelations \<in> X \<Longrightarrow> steps (sameExcept X) (insertRelations r t src c xs)"
  unfolding insertRelations_def by (intro touch.steps_rules touches)

lemma updateRelations_touches [touches]: "TRelations \<in> X \<Longrightarrow> steps (sameExcept X) (updateRelations c f)"
  unfolding updateRelations_def by (intro touch.steps_modify) (auto simp: sameExcept_def kept_def)

lemma syncRelation_touches [touches]:
  "TRelations \<in> X \<Longrightarrow> steps (sameExcept X) (syncRelation r t src c k rel st)"
  unfolding syncRelation_def Let_def by (intro touch.steps_rules touches)

lemma deleteEdge_touches [touches]: "TRelations \<in> X \<Longrightarrow> steps (sameExcept X) (deleteEdge t src i)"
  unfolding deleteEdge_def by (intro touches)

lemma syncRelations_touches [touches]:
  "TRelations \<in> X \<Longrightarrow> steps (sameExcept X) (syncRelations r t src c xs k)"
  unfolding syncRelations_def Let_def by (intro touch.steps_rules touches)

lemma lockPluginCategory_reads [reads]: "steps (=) (lockPluginCategory c ty)"
  unfolding lockPluginCategory_def by (intro reading.steps_rules)

lemma editableDraftChangelog_reads [reads]: "steps (=) (editableDraftChangelog p)"
  unfolding editableDraftChangelog_def by (intro reading.steps_rules)

lemma insertPlugin_touches [touches]: "TPlugins \<in> X \<Longrightarrow> steps (sameExcept X) (insertPlugin r t p)"
  unfolding insertPlugin_def
  by (intro touch.steps_rules touch.steps_modify touches) (auto simp: sameExcept_def kept_def)

lemma insertPlacements_touches [touches]:
  "TPlacements \<in> X \<Longrightarrow> steps (sameExcept X) (insertPlacements r t pid xs)"
  unfolding insertPlacements_def
  by (intro touch.steps_rules touch.steps_modify touches) (auto simp: sameExcept_def kept_def)

lemma writeReferenceIndex_touches [touches]:
  "TRefEdges \<in> X \<Longrightarrow> TRefIndex \<in> X \<Longrightarrow> steps (sameExcept X) (writeReferenceIndex r src v xs)"
  unfolding writeReferenceIndex_def
  by (intro touch.steps_rules touch.steps_modify) (auto simp: sameExcept_def kept_def)

lemma snapshotVersion_touches [touches]:
  assumes "TPlugins \<in> X" "TVersions \<in> X" "TRefEdges \<in> X" "TRefIndex \<in> X"
  shows "steps (sameExcept X) (snapshotVersion r t p rels cl by idx)"
  unfolding snapshotVersion_def
  by (intro touch.steps_rules touch.steps_modify touches assms) (auto simp: sameExcept_def kept_def assms)

section \<open>Synchronised edges are the submitted ones\<close>

definition edgeMatches :: "PluginRelation \<Rightarrow> PluginRelation \<Rightarrow> bool" where
  "edgeMatches rel row \<longleftrightarrow>
     r_ID row = r_ID rel \<and> r_TargetPluginID row = r_TargetPluginID rel \<and> r_Type row = r_Type rel \<and>
     r_SortOrder row = r_SortOrder rel \<and> r_Status row = r_Status rel \<and> r_Data row = r_Data rel"

text \<open>
  The loop invariant: a live edge is either still unmatched (and untouched) or the image of
  a submitted edge already handled.
\<close>

definition syncInv :: "string \<Rightarrow> SyncState \<Rightarrow> Store \<Rightarrow> bool" where
  "syncInv source st s \<longleftrightarrow>
     distinct (map r_ID (relations s)) \<and> set (ss_Live st) \<subseteq> set (liveEdges s source) \<and>
     (\<forall>row \<in> set (liveEdges s source). r_ID row \<in> r_ID ` set (ss_Live st) \<union> r_ID ` set (ss_Done st)) \<and>
     (\<forall>rel \<in> set (ss_Done st). r_ID rel \<notin> r_ID ` set (ss_Live st) \<and>
        (\<exists>row \<in> set (liveEdges s source). edgeMatches rel row))"

lemma rewriteEdge_fields [simp]:
  "r_ID (rewriteEdge b t rel e) = r_ID e" "r_SourcePluginID (rewriteEdge b t rel e) = r_SourcePluginID e"
  "r_DeletedAt (rewriteEdge b t rel e) = r_DeletedAt e"
  by (simp_all add: rewriteEdge_def)

lemma markEdgeDeleted_fields [simp]:
  "r_ID (markEdgeDeleted t e) = r_ID e" "r_DeletedAt (markEdgeDeleted t e) = Some t"
  "r_SourcePluginID (markEdgeDeleted t e) = r_SourcePluginID e"
  by (simp_all add: markEdgeDeleted_def)

lemma liveEdges_set: "e \<in> set (liveEdges s src) \<longleftrightarrow> e \<in> set (relations s) \<and> r_SourcePluginID e = src \<and> r_DeletedAt e = None"
  by (auto simp: liveEdges_def)

lemma syncInv_insert:
  assumes "syncInv src st s" and "\<forall>e \<in> set (relations s). r_ID e \<noteq> r_ID x"
  shows "syncInv src (st\<lparr>ss_Created := c, ss_Done := ss_Done st @ [x]\<rparr>)
     (s\<lparr>relations := relations s @ [x\<lparr>r_SourcePluginID := src, r_TargetPluginType := None, r_CreatedBy := by,
        r_CreatedAt := t, r_UpdatedAt := t, r_DeletedAt := None\<rparr>]\<rparr>)"
  using assms unfolding syncInv_def by (auto simp: liveEdges_def edgeMatches_def)

lemma syncInv_same:
  assumes inv: "syncInv src st s" and "edge \<in> set (ss_Live st)" and "r_ID edge = r_ID rel" and "sameEdge b edge rel"
  shows "syncInv src (st\<lparr>ss_Live := filter (\<lambda>e. r_ID e \<noteq> r_ID rel) (ss_Live st), ss_Done := ss_Done st @ [rel]\<rparr>) s"
proof -
  have "edge \<in> set (liveEdges s src)" "edgeMatches rel edge"
    using assms by (auto simp: syncInv_def edgeMatches_def sameEdge_def)
  then show ?thesis using inv unfolding syncInv_def by auto
qed

lemma syncInv_update:
  assumes inv: "syncInv src st s" and edge: "edge \<in> set (ss_Live st)" "r_ID edge = r_ID rel"
  shows "syncInv src (st\<lparr>ss_Live := filter (\<lambda>e. r_ID e \<noteq> r_ID rel) (ss_Live st), ss_Done := ss_Done st @ [rel],
             ss_Updated := u\<rparr>)
     (s\<lparr>relations := updateWhere (\<lambda>e. r_ID e = r_ID rel \<and> r_SourcePluginID e = src \<and> r_DeletedAt e = None)
        (rewriteEdge b t rel) (relations s)\<rparr>)" (is "syncInv src ?st ?s")
proof -
  let ?c = "\<lambda>e. r_ID e = r_ID rel \<and> r_SourcePluginID e = src \<and> r_DeletedAt e = None"
  have keep: "e \<in> set (liveEdges ?s src)" if "e \<in> set (liveEdges s src)" "r_ID e \<noteq> r_ID rel" for e
    using that updateWhere_keepI [of e "relations s" ?c] by (simp add: liveEdges_set)
  have prior: "\<exists>e' \<in> set (liveEdges s src). r_ID e' = r_ID e" if e: "e \<in> set (liveEdges ?s src)" for e
  proof -
    from e have "e \<in> set (updateWhere ?c (rewriteEdge b t rel) (relations s))" by (simp add: liveEdges_set)
    then show ?thesis
    proof (cases rule: updateWhere_memE)
      case (1 y)
      then show ?thesis by (intro bexI [of _ y]) (simp_all add: liveEdges_set)
    next
      case 2
      with e show ?thesis by (intro bexI [of _ e]) (simp_all add: liveEdges_set)
    qed
  qed
  have "edge \<in> set (liveEdges s src)" using inv edge(1) unfolding syncInv_def by blast
  then have img: "rewriteEdge b t rel edge \<in> set (liveEdges ?s src)"
    using edge(2) updateWhere_imageI [of edge "relations s" ?c] by (simp add: liveEdges_set)
  have matches: "edgeMatches rel (rewriteEdge b t rel edge)"
    using edge(2) by (simp add: edgeMatches_def rewriteEdge_def)
  have "distinct (map r_ID (relations ?s))"
    using inv by (simp add: syncInv_def map_updateWhere_key)
  moreover have "set (ss_Live ?st) \<subseteq> set (liveEdges ?s src)" using inv keep by (auto simp: syncInv_def)
  moreover have "\<forall>row \<in> set (liveEdges ?s src). r_ID row \<in> r_ID ` set (ss_Live ?st) \<union> r_ID ` set (ss_Done ?st)"
  proof
    fix row assume "row \<in> set (liveEdges ?s src)"
    with prior obtain e where "e \<in> set (liveEdges s src)" "r_ID e = r_ID row" by blast
    with inv have "r_ID row \<in> r_ID ` set (ss_Live st) \<or> r_ID row \<in> r_ID ` set (ss_Done st)"
      unfolding syncInv_def by (metis UnE)
    then show "r_ID row \<in> r_ID ` set (ss_Live ?st) \<union> r_ID ` set (ss_Done ?st)"
      using image_filter_key [of r_ID "r_ID rel" "ss_Live st"] by auto
  qed
  moreover have "\<forall>x \<in> set (ss_Done ?st). r_ID x \<notin> r_ID ` set (ss_Live ?st) \<and>
      (\<exists>row \<in> set (liveEdges ?s src). edgeMatches x row)"
  proof
    fix x assume x: "x \<in> set (ss_Done ?st)"
    show "r_ID x \<notin> r_ID ` set (ss_Live ?st) \<and> (\<exists>row \<in> set (liveEdges ?s src). edgeMatches x row)"
    proof (cases "x = rel")
      case True
      then show ?thesis using img matches by auto
    next
      case False
      with x inv obtain row where row: "row \<in> set (liveEdges s src)" "edgeMatches x row"
          "r_ID x \<notin> r_ID ` set (ss_Live st)"
        by (auto simp: syncInv_def)
      have "r_ID rel \<in> r_ID ` set (ss_Live st)" using edge by (metis imageI)
      then have "r_ID row \<noteq> r_ID rel" using row(2,3) unfolding edgeMatches_def by metis
      with row keep show ?thesis by auto
    qed
  qed
  ultimately show ?thesis unfolding syncInv_def by blast
qed

lemma syncRelation_inv:
  assumes inv: "syncInv src st s" and run: "syncRelation r t src c k rel0 st s = Inr (st', s')"
  shows "syncInv src st' s'"
proof -
  define rel where "rel = rel0\<lparr>r_ID := stableID k (ss_Live st) rel0\<rparr>"
  show ?thesis
  proof (cases "r_ID rel = ''''")
    case True
    define i where "i = idAt r (idCount s)"
    define u where "u = s\<lparr>idCount := Suc (idCount s)\<rparr>"
    from True run have fresh: "\<forall>e \<in> set (relations u). r_ID e \<noteq> i"
      and st': "st' = st\<lparr>ss_Created := ss_Created st @ [i], ss_Done := ss_Done st @ [rel\<lparr>r_ID := i\<rparr>]\<rparr>"
      and s': "s' = u\<lparr>relations := relations u @ [(rel\<lparr>r_ID := i\<rparr>)\<lparr>r_SourcePluginID := src, r_TargetPluginType := None,
           r_CreatedBy := c, r_CreatedAt := t, r_UpdatedAt := t, r_DeletedAt := None\<rparr>]\<rparr>"
      by (auto simp: syncRelation_def Let_def rel_def [symmetric] insertRelationRow_def tx_simps i_def u_def)
    have "syncInv src st u" using inv by (simp add: syncInv_def liveEdges_def u_def)
    with fresh syncInv_insert [of src st u "rel\<lparr>r_ID := i\<rparr>"] show ?thesis unfolding st' s' by simp
  next
    case False
    let ?b = "r_TargetVersionID rel \<noteq> None \<or> k"
    from False run obtain edge where find: "find (\<lambda>e. r_ID e = r_ID rel) (ss_Live st) = Some edge"
      by (auto simp: syncRelation_def Let_def rel_def [symmetric] tx_simps)
    then have edge: "edge \<in> set (ss_Live st)" "r_ID edge = r_ID rel" by (auto dest: find_Some_mem)
    show ?thesis
    proof (cases "sameEdge ?b edge rel")
      case True
      with False run find have "s' = s"
          "st' = st\<lparr>ss_Live := filter (\<lambda>e. r_ID e \<noteq> r_ID rel) (ss_Live st), ss_Done := ss_Done st @ [rel]\<rparr>"
        by (simp_all add: syncRelation_def Let_def rel_def [symmetric] tx_simps)
      with syncInv_same [OF inv edge True] show ?thesis by simp
    next
      case neq: False
      with False run find have "st' = st\<lparr>ss_Live := filter (\<lambda>e. r_ID e \<noteq> r_ID rel) (ss_Live st),
            ss_Done := ss_Done st @ [rel], ss_Updated := ss_Updated st @ [r_ID rel]\<rparr>"
          "s' = s\<lparr>relations := updateWhere (\<lambda>e. r_ID e = r_ID rel \<and> r_SourcePluginID e = src \<and> r_DeletedAt e = None)
             (rewriteEdge ?b t rel) (relations s)\<rparr>"
        by (simp_all add: syncRelation_def Let_def rel_def [symmetric] updateRelations_def tx_simps)
      with syncInv_update [OF inv edge] show ?thesis by simp
    qed
  qed
qed

lemma deleteEdge_Inr [tx_simps]:
  "deleteEdge t src i s = Inr (u, s') \<longleftrightarrow>
     s' = s\<lparr>relations := updateWhere (\<lambda>e. r_ID e = i \<and> r_SourcePluginID e = src \<and> r_DeletedAt e = None)
       (markEdgeDeleted t) (relations s)\<rparr>"
  by (simp add: deleteEdge_def updateRelations_def tx_simps)

lemma liveEdges_delete:
  "set (liveEdges (s\<lparr>relations := updateWhere (\<lambda>e. r_ID e = i \<and> r_SourcePluginID e = src \<and> r_DeletedAt e = None)
      (markEdgeDeleted t) (relations s)\<rparr>) src) = {e \<in> set (liveEdges s src). r_ID e \<noteq> i}"
proof -
  have "liveEdges (s\<lparr>relations := updateWhere (\<lambda>e. r_ID e = i \<and> r_SourcePluginID e = src \<and> r_DeletedAt e = None)
      (markEdgeDeleted t) (relations s)\<rparr>) src = filter (\<lambda>e. r_ID e \<noteq> i) (liveEdges s src)"
    by (simp add: liveEdges_def filter_updateWhere_out conj_commute conj_left_commute cong: conj_cong)
  then show ?thesis by auto
qed

lemma deleteEdges_live:
  assumes "forT (deleteEdge t src) ids s = Inr ((), s')"
  shows "set (liveEdges s' src) = {e \<in> set (liveEdges s src). r_ID e \<notin> set ids}"
  using assms
proof (induction ids arbitrary: s)
  case (Cons i ids)
  let ?s = "s\<lparr>relations := updateWhere (\<lambda>e. r_ID e = i \<and> r_SourcePluginID e = src \<and> r_DeletedAt e = None)
      (markEdgeDeleted t) (relations s)\<rparr>"
  have "forT (deleteEdge t src) ids ?s = Inr ((), s')"
    using Cons.prems by (auto simp: tx_simps)
  moreover have "set (liveEdges ?s src) = {e \<in> set (liveEdges s src). r_ID e \<noteq> i}"
    by (simp add: liveEdges_delete)
  ultimately show ?case using Cons.IH by auto
qed (auto simp: tx_simps)



end
