(* ===== verification/Listing.thy ===== *)
theory Listing
  imports Snapshots
begin

text \<open>
  Publishing without review and taking down (\<open>listing.go\<close>), with the settlement of a pending
  request by another transaction and the reads of the listing state (\<open>review.go\<close>).
\<close>

section \<open>Pending requests\<close>

definition pendingReview :: "PluginReviewRequest \<Rightarrow> bool" where
  "pendingReview q \<longleftrightarrow> rr_Status q = ReviewStatusPending \<and> rr_DeletedAt q = None"

definition pendingFor :: "Store \<Rightarrow> string \<Rightarrow> bool" where
  "pendingFor s pid \<longleftrightarrow> (\<exists>q \<in> set (reviews s). rr_PluginID q = pid \<and> pendingReview q)"

text \<open>A member of an open visibility group blocks every other mutation of its plugin.\<close>

definition rejectPendingVisibilityMutation :: "string \<Rightarrow> unit stx" where
  "rejectPendingVisibilityMutation pid =
     bindT (queryT (\<lambda>s. \<exists>g \<in> set (groups s). g_PluginID g = pid \<and>
         (\<exists>q \<in> set (reviews s). rr_ID q = g_ReviewID g \<and> pendingReview q)))
       (\<lambda>busy. refuseT busy ErrReviewPending)"

definition reasonCanceledOnDelist :: string where
  "reasonCanceledOnDelist = ''plugin delisted by a Space admin''"

definition reasonCanceledOnDelete :: string where
  "reasonCanceledOnDelete = ''plugin deleted''"

definition markCanceled :: "time \<Rightarrow> string \<Rightarrow> string \<Rightarrow> string \<Rightarrow> PluginReviewRequest \<Rightarrow> PluginReviewRequest" where
  "markCanceled t uid name reason q =
     q\<lparr>rr_Status := ReviewStatusCanceled, rr_ReviewerUID := Some uid, rr_ReviewerName := Some name,
       rr_Reason := Some reason, rr_ReviewedAt := Some t, rr_UpdatedAt := t\<rparr>"

definition cancelPendingReviewFor :: "time \<Rightarrow> string \<Rightarrow> string \<Rightarrow> string \<Rightarrow> string \<Rightarrow> unit stx" where
  "cancelPendingReviewFor t pid operatorID operatorName reason =
     bindT (updateReviews (\<lambda>q. rr_PluginID q = pid \<and> pendingReview q)
       (markCanceled t operatorID operatorName reason)) (\<lambda>_. returnT ())"

section \<open>Publish and delist\<close>

record PublishParams =
  pp_ExpectedDraftRevision :: string
  pp_Version :: string
  pp_ExpectedVersionID :: string
  pp_PluginID :: string
  pp_Operator :: Operator

record DelistParams =
  dp_PluginID :: string
  dp_Operator :: Operator
  dp_Reason :: string

definition markPublished :: "time \<Rightarrow> Plugin \<Rightarrow> Plugin" where
  "markPublished t p = p\<lparr>p_ListingState := PluginListingStatePublished, p_UpdatedAt := t\<rparr>"

definition publishable :: "Scope \<Rightarrow> string \<Rightarrow> Plugin \<Rightarrow> bool" where
  "publishable sc pid p \<longleftrightarrow>
     p_ID p = pid \<and> p_OwnerUID p = s_CallerUID sc \<and> p_SpaceID p = Some (s_SpaceID sc) \<and>
     p_Visibility p = PluginVisibilityPrivate \<and> p_ListingState p \<noteq> PluginListingStatePublished \<and>
     p_DeletedAt p = None"

definition PublishPlugin :: "Repo \<Rightarrow> Scope \<Rightarrow> PublishParams \<Rightarrow> Plugin stx" where
  "PublishPlugin r sc p =
     bindT (getOwnedForUpdate sc (pp_PluginID p)) (\<lambda>current.
     thenT (refuseT (pp_ExpectedDraftRevision p \<noteq> '''' \<and>
                     PluginDraftRevision r current \<noteq> pp_ExpectedDraftRevision p) ErrConflict)
    (bindT (now r) (\<lambda>t.
     thenT (refuseT (p_Visibility current \<noteq> PluginVisibilityPrivate) ErrConflict)
    (bindT (queryT (\<lambda>s. pendingFor s (pp_PluginID p))) (\<lambda>pending.
     thenT (refuseT pending ErrReviewPending)
    (bindT (updatePlugins (publishable sc (pp_PluginID p)) (markPublished t)) (\<lambda>n.
     thenT (mustChangeState n)
    (thenT (ensureVisibleDefaultPlacement r t (pp_PluginID p) (p_CategoryID current))
    (bindT (newID r) (\<lambda>auditID.
     thenT (insertAudit auditID t current ''publish'' ((pp_Operator p)\<lparr>o_Remark := None\<rparr>)
              (p_PluginHash current) (p_PluginHash current))
       (getOwnedForUpdate sc (pp_PluginID p))))))))))))"

definition delistable :: "string \<Rightarrow> string \<Rightarrow> Plugin \<Rightarrow> bool" where
  "delistable spaceID pid p \<longleftrightarrow>
     p_ID p = pid \<and> p_SpaceID p = Some spaceID \<and> p_ListingState p = PluginListingStatePublished \<and>
     p_DeletedAt p = None \<and> p_Visibility p = PluginVisibilitySpace \<and> \<not> p_IsEmbedded p"

definition DelistPlugin :: "Repo \<Rightarrow> Scope \<Rightarrow> DelistParams \<Rightarrow> Plugin stx" where
  "DelistPlugin r sc p =
     bindT (getReviewedPluginForUpdate (s_SpaceID sc) (dp_PluginID p)) (\<lambda>current.
     thenT (whenT (versionManagement r) (rejectPendingVisibilityMutation (p_ID current)))
    (thenT (refuseT (p_IsEmbedded current) ErrNotFound)
    (thenT (refuseT (p_Visibility current \<noteq> PluginVisibilitySpace) ErrNotFound)
    (bindT (now r) (\<lambda>t.
     bindT (updatePlugins (delistable (s_SpaceID sc) (dp_PluginID p)) (markDown t)) (\<lambda>n.
     thenT (mustChangeState n)
    (thenT (demoteEmbeddedChildren (dp_PluginID p) (p_Type current) (s_SpaceID sc) t)
    (thenT (cancelPendingReviewFor t (dp_PluginID p) (o_OperatorID (dp_Operator p)) (o_OperatorName (dp_Operator p))
              (if dp_Reason p = '''' then reasonCanceledOnDelist else dp_Reason p))
    (bindT (newID r) (\<lambda>auditID.
     thenT (insertAudit auditID t current ''delist''
              ((dp_Operator p)\<lparr>o_Remark := (if dp_Reason p = '''' then None else Some (''reason='' @ dp_Reason p))\<rparr>)
              (p_PluginHash current) (p_PluginHash current))
    (thenT (whenT (versionManagement r) (suspendDelistedDependents (s_SpaceID sc) (dp_PluginID p) t))
       (getReviewedPluginForUpdate (s_SpaceID sc) (dp_PluginID p)))))))))))))"

section \<open>Reads\<close>

text \<open>The order of \<open>LatestReviewForPlugin\<close>: pending first, then the latest submission, then the greater id.\<close>

definition laterReview :: "PluginReviewRequest \<Rightarrow> PluginReviewRequest \<Rightarrow> bool" where
  "laterReview a b \<longleftrightarrow>
     (rr_Status a = ReviewStatusPending \<and> rr_Status b \<noteq> ReviewStatusPending) \<or>
     ((rr_Status a = ReviewStatusPending) = (rr_Status b = ReviewStatusPending) \<and>
      (rr_SubmittedAt a > rr_SubmittedAt b \<or> rr_SubmittedAt a = rr_SubmittedAt b \<and> rr_ID a > rr_ID b))"

fun latestOf :: "PluginReviewRequest option \<Rightarrow> PluginReviewRequest list \<Rightarrow> PluginReviewRequest option" where
  "latestOf best [] = best"
| "latestOf None (q # qs) = latestOf (Some q) qs"
| "latestOf (Some b) (q # qs) = latestOf (Some (if laterReview q b then q else b)) qs"

definition reviewsInSpace :: "Store \<Rightarrow> string \<Rightarrow> string \<Rightarrow> PluginReviewRequest list" where
  "reviewsInSpace s spaceID pid =
     filter (\<lambda>q. rr_PluginID q = pid \<and> rr_DeletedAt q = None \<and>
       (\<exists>p \<in> set (plugins s). p_ID p = pid \<and> p_SpaceID p = Some spaceID \<and> p_DeletedAt p = None)) (reviews s)"

definition LatestReviewForPlugin :: "Store \<Rightarrow> Scope \<Rightarrow> string \<Rightarrow> (string \<times> ReviewStatus) option" where
  "LatestReviewForPlugin s sc pid =
     map_option (\<lambda>q. (rr_ID q, rr_Status q)) (latestOf None (reviewsInSpace s (s_SpaceID sc) pid))"

definition HasPendingReview :: "Store \<Rightarrow> Scope \<Rightarrow> string \<Rightarrow> bool" where
  "HasPendingReview s sc pid \<longleftrightarrow>
     pendingFor s pid \<and>
     (\<exists>p \<in> set (plugins s). p_ID p = pid \<and> p_OwnerUID p = s_CallerUID sc \<and>
        p_SpaceID p = Some (s_SpaceID sc) \<and> p_DeletedAt p = None)"

section \<open>Samples\<close>

text \<open>The sample skill as an unlisted private draft, and the request to publish it.\<close>

definition draftStore :: Store where
  "draftStore = sampleStore\<lparr>plugins := [(samplePlugin ''k'' PluginTypeSkill ''u1'')\<lparr>p_Visibility := PluginVisibilityPrivate,
     p_ListingState := PluginListingStateDraft\<rparr>, samplePlugin ''e'' PluginTypeExpert ''u2'']\<rparr>"

definition samplePublish :: PublishParams where
  "samplePublish = \<lparr>pp_ExpectedDraftRevision = ''ph'', pp_Version = '''', pp_ExpectedVersionID = '''',
     pp_PluginID = ''k'', pp_Operator = sampleOperator\<rparr>"

definition sampleDelist :: DelistParams where
  "sampleDelist = \<lparr>dp_PluginID = ''k'', dp_Operator = sampleOperator, dp_Reason = ''''\<rparr>"

section \<open>Facts\<close>

lemma markCanceled_fields [simp]:
  "rr_ID (markCanceled t u n x q) = rr_ID q" "rr_PluginID (markCanceled t u n x q) = rr_PluginID q"
  "rr_SpaceID (markCanceled t u n x q) = rr_SpaceID q" "rr_Status (markCanceled t u n x q) = ReviewStatusCanceled"
  "rr_DeletedAt (markCanceled t u n x q) = rr_DeletedAt q" "rr_Version (markCanceled t u n x q) = rr_Version q"
  "\<not> pendingReview (markCanceled t u n x q)"
  by (simp_all add: markCanceled_def pendingReview_def)

lemma markPublished_fields [simp]:
  "p_ID (markPublished t p) = p_ID p" "p_OwnerUID (markPublished t p) = p_OwnerUID p"
  "p_SpaceID (markPublished t p) = p_SpaceID p" "p_Visibility (markPublished t p) = p_Visibility p"
  "p_ListingState (markPublished t p) = PluginListingStatePublished" "p_Status (markPublished t p) = p_Status p"
  "p_DeletedAt (markPublished t p) = p_DeletedAt p" "p_IsEmbedded (markPublished t p) = p_IsEmbedded p"
  by (simp_all add: markPublished_def)

lemma rejectPendingVisibility_reads [reads]: "steps (=) (rejectPendingVisibilityMutation pid)"
  unfolding rejectPendingVisibilityMutation_def by (intro reading.steps_rules)

lemma rejectPendingVisibility_errors [errors]:
  "ErrReviewPending \<in> E \<Longrightarrow> raises E (rejectPendingVisibilityMutation pid)"
  unfolding rejectPendingVisibilityMutation_def by (intro errors)

lemma cancelPendingReviewFor_touches [touches]:
  "TReviews \<in> X \<Longrightarrow> steps (sameExcept X) (cancelPendingReviewFor t pid u n x)"
  unfolding cancelPendingReviewFor_def by (intro touch.steps_rules touches)

lemma cancelPendingReviewFor_errors [errors]: "raises E (cancelPendingReviewFor t pid u n x)"
  unfolding cancelPendingReviewFor_def by (intro errors)

lemma cancelPendingReviewFor_Inr [tx_simps]:
  "cancelPendingReviewFor t pid u n x s = Inr (a, s') \<longleftrightarrow>
     s' = s\<lparr>reviews := updateWhere (\<lambda>q. rr_PluginID q = pid \<and> pendingReview q) (markCanceled t u n x) (reviews s)\<rparr>"
  by (simp add: cancelPendingReviewFor_def tx_simps)

lemma cancel_settles:
  "\<not> pendingFor (s\<lparr>reviews := updateWhere (\<lambda>q. rr_PluginID q = pid \<and> pendingReview q) (markCanceled t u n x) rows\<rparr>) pid"
  by (simp add: pendingFor_def bex_updateWhere)

lemma PublishPlugin_touches [touches]:
  "steps (sameExcept {TPlugins, TPlacements, TAudits}) (PublishPlugin r sc p)"
  unfolding PublishPlugin_def by (intro touch.steps_rules touches) auto

lemma PublishPlugin_errors:
  "raises {ErrNotFound, ErrConflict, ErrReviewPending} (PublishPlugin r sc p)"
  unfolding PublishPlugin_def by (intro errors) auto

lemma DelistPlugin_errors:
  "raises {ErrNotFound, ErrConflict, ErrReviewPending, ErrGraphTooLarge} (DelistPlugin r sc p)"
  unfolding DelistPlugin_def by (intro errors) auto

subsection \<open>Publishing\<close>

lemma pendingFor_tick [simp]: "pendingFor (s\<lparr>tickCount := n\<rparr>) pid = pendingFor s pid"
  by (simp add: pendingFor_def)

lemma affected_publish:
  "0 < affected (publishable sc pid) (markPublished t) rows \<longleftrightarrow> (\<exists>q \<in> set rows. publishable sc pid q)"
  unfolding affected_pos
  by (metis markPublished_fields(5) publishable_def)

lemma PublishPlugin_run:
  assumes "PublishPlugin r sc p s = Inr (out, s')"
  obtains current t a where "find (ownedRow sc (pp_PluginID p)) (plugins s) = Some current"
    and "p_Visibility current = PluginVisibilityPrivate" and "\<not> pendingFor s (pp_PluginID p)"
    and "pp_ExpectedDraftRevision p \<noteq> '''' \<Longrightarrow> PluginDraftRevision r current = pp_ExpectedDraftRevision p"
    and "\<exists>q \<in> set (plugins s). publishable sc (pp_PluginID p) q"
    and "plugins s' = updateWhere (publishable sc (pp_PluginID p)) (markPublished t) (plugins s)"
    and "audits s' = audits s @ [a]" and "a_PluginID a = pp_PluginID p" and "a_Action a = ''publish''"
    and "marketPlaced s' (pp_PluginID p)" and "find (ownedRow sc (pp_PluginID p)) (plugins s') = Some out"
proof -
  let ?pid = "pp_PluginID p"
  define t where "t = nowAt r (tickCount s)"
  define s1 where "s1 = s\<lparr>tickCount := Suc (tickCount s),
    plugins := updateWhere (publishable sc ?pid) (markPublished t) (plugins s)\<rparr>"
  from assms obtain current where
      c: "find (ownedRow sc ?pid) (plugins s) = Some current"
    and rev: "pp_ExpectedDraftRevision p \<noteq> '''' \<longrightarrow> PluginDraftRevision r current = pp_ExpectedDraftRevision p"
    and priv: "p_Visibility current = PluginVisibilityPrivate" and pend: "\<not> pendingFor s ?pid"
    and cas: "0 < affected (publishable sc ?pid) (markPublished t) (plugins s)"
    and rest: "thenT (ensureVisibleDefaultPlacement r t ?pid (p_CategoryID current))
       (bindT (newID r) (\<lambda>auditID. thenT (insertAudit auditID t current ''publish'' ((pp_Operator p)\<lparr>o_Remark := None\<rparr>)
          (p_PluginHash current) (p_PluginHash current)) (getOwnedForUpdate sc ?pid))) s1 = Inr (out, s')"
    by (auto simp: PublishPlugin_def tx_eval t_def s1_def split: option.splits if_splits)
  from rest obtain s2 where place: "ensureVisibleDefaultPlacement r t ?pid (p_CategoryID current) s1 = Inr ((), s2)"
    and s': "s' = s2\<lparr>idCount := Suc (idCount s2), audits := audits s2 @ [auditRow (idAt r (idCount s2)) t current ''publish''
          ((pp_Operator p)\<lparr>o_Remark := None\<rparr>) (p_PluginHash current) (p_PluginHash current)]\<rparr>"
    and out: "find (ownedRow sc ?pid) (plugins s') = Some out"
    by (auto simp: thenT_Inr tx_eval split: option.splits)
  have two: "plugins s2 = plugins s1" "audits s2 = audits s1"
    using stepsD [OF ensurePlacement_touches [of "{TPlacements}"] place] by (auto dest: sameExcept_tables)
  have "p_ID current = ?pid" using c by (auto simp: ownedRow_def dest: find_Some_mem)
  moreover have "marketPlaced s' ?pid"
    using ensurePlacement_placed [OF place] s' by (simp add: marketPlaced_def)
  moreover have "plugins s' = plugins s1" using s' two by simp
  ultimately show thesis
    using that [OF c priv pend _ _ _ _ _ _ _ out] rev cas two s' affected_publish by (simp add: s1_def)
qed

text \<open>C5: publishing without review lists a private plugin to its owner only. On success the row the
  caller owns is published, still private, and on the market with a visible placement; no
  request was pending; exactly one audit row was appended; and for every other reader, in
  every Space, the catalog is the one before.\<close>

theorem PublishPlugin_private_only:
  assumes run: "PublishPlugin r sc p s = Inr (out, s')" and "distinct (map p_ID (plugins s))"
  shows "p_ID out = pp_PluginID p \<and> p_ListingState out = PluginListingStatePublished \<and>
    p_Visibility out = PluginVisibilityPrivate \<and> p_OwnerUID out = s_CallerUID sc \<and>
    marketPlaced s' (pp_PluginID p) \<and> \<not> pendingFor s (pp_PluginID p) \<and> reviews s' = reviews s \<and>
    (\<exists>a. audits s' = audits s @ [a] \<and> a_Action a = ''publish'' \<and> a_PluginID a = pp_PluginID p) \<and>
    (\<forall>sp uid. uid \<noteq> s_CallerUID sc \<longrightarrow> filter (visibilitySQL sp uid) (plugins s') = filter (visibilitySQL sp uid) (plugins s))"
proof -
  let ?pid = "pp_PluginID p"
  from run obtain current t a where c: "\<not> pendingFor s ?pid" "\<exists>q \<in> set (plugins s). publishable sc ?pid q"
      "plugins s' = updateWhere (publishable sc ?pid) (markPublished t) (plugins s)"
      "audits s' = audits s @ [a]" "a_PluginID a = ?pid" "a_Action a = ''publish''"
      "marketPlaced s' ?pid" "find (ownedRow sc ?pid) (plugins s') = Some out"
    by (rule PublishPlugin_run)
  have other: "filter (visibilitySQL sp uid) (plugins s') = filter (visibilitySQL sp uid) (plugins s)"
    if "uid \<noteq> s_CallerUID sc" for sp uid
    unfolding c(3) by (rule filter_updateWhere_same) (use that in \<open>auto simp: visibilitySQL_def publishable_def\<close>)
  from c(2) obtain q where q: "q \<in> set (plugins s)" "publishable sc ?pid q" by blast
  have out: "out \<in> set (plugins s')" "p_ID out = ?pid" using c(8) by (auto dest: find_Some_mem simp: ownedRow_def)
  have "markPublished t q \<in> set (plugins s')" unfolding c(3) using q by (rule updateWhere_imageI)
  moreover have "distinct (map p_ID (plugins s'))" unfolding c(3) using assms(2) by (simp add: map_updateWhere_key)
  ultimately have "out = markPublished t q"
    using out q(2) by (intro distinct_key_eq [of p_ID "plugins s'"]) (auto simp: publishable_def)
  moreover have "reviews s' = reviews s"
    using stepsD [OF PublishPlugin_touches run] by (auto dest: sameExcept_tables)
  ultimately show ?thesis using c other q(2) out by (auto simp: publishable_def)
qed

text \<open>Publishing succeeds exactly when the caller owns a live private plugin that is not listed
  yet, has no pending request, and still has the draft revision the caller confirmed (if one
  was named).\<close>

theorem PublishPlugin_succeeds_iff:
  assumes "distinct (map p_ID (plugins s))" and "\<not> s_Admin sc"
  shows "(\<exists>out s'. PublishPlugin r sc p s = Inr (out, s')) \<longleftrightarrow>
    (\<exists>q \<in> set (plugins s). publishable sc (pp_PluginID p) q \<and> p_Status q = 1 \<and>
       (pp_ExpectedDraftRevision p = '''' \<or> PluginDraftRevision r q = pp_ExpectedDraftRevision p)) \<and>
    \<not> pendingFor s (pp_PluginID p)" (is "?run \<longleftrightarrow> ?ok")
proof
  let ?pid = "pp_PluginID p"
  assume ?run
  then obtain out s' where "PublishPlugin r sc p s = Inr (out, s')" by blast
  then obtain current t a where c: "find (ownedRow sc ?pid) (plugins s) = Some current" "\<not> pendingFor s ?pid"
      "pp_ExpectedDraftRevision p \<noteq> '''' \<Longrightarrow> PluginDraftRevision r current = pp_ExpectedDraftRevision p"
      "\<exists>q \<in> set (plugins s). publishable sc ?pid q"
    by (rule PublishPlugin_run) blast
  have cur: "current \<in> set (plugins s)" "ownedRow sc ?pid current" using c(1) by (auto dest: find_Some_mem)
  from c(4) obtain q where q: "q \<in> set (plugins s)" "publishable sc ?pid q" by blast
  have "q = current" using assms(1) q cur
    by (intro distinct_key_eq [of p_ID "plugins s"]) (auto simp: publishable_def ownedRow_def)
  with q cur c show ?ok by (auto simp: ownedRow_def)
next
  let ?pid = "pp_PluginID p"
  assume ?ok
  then obtain q where q: "q \<in> set (plugins s)" "publishable sc ?pid q" "p_Status q = 1"
      "pp_ExpectedDraftRevision p = '''' \<or> PluginDraftRevision r q = pp_ExpectedDraftRevision p"
    and pend: "\<not> pendingFor s ?pid" by blast
  have owned: "ownedRow sc ?pid q" using q by (auto simp: ownedRow_def publishable_def)
  have one: "find (ownedRow sc ?pid) (plugins s) = Some q"
    using assms(1) q(1) owned by (intro find_unique_key [of p_ID]) (auto simp: ownedRow_def)
  define t where "t = nowAt r (tickCount s)"
  have owned': "ownedRow sc ?pid (markPublished t q)" using owned by (simp add: ownedRow_def)
  let ?rows = "updateWhere (publishable sc ?pid) (markPublished t) (plugins s)"
  have two: "find (ownedRow sc ?pid) ?rows = Some (markPublished t q)"
    using assms(1) q(1,2) owned'
    by (intro find_unique_key [of p_ID] updateWhere_imageI) (auto simp: ownedRow_def map_updateWhere_key)
  have cas: "0 < affected (publishable sc ?pid) (markPublished t) (plugins s)"
    using q(1,2) by (auto simp: affected_publish)
  have priv: "p_Visibility q = PluginVisibilityPrivate" using q(2) by (simp add: publishable_def)
  define s1 where "s1 = s\<lparr>tickCount := Suc (tickCount s), plugins := ?rows\<rparr>"
  obtain s2 where place: "ensureVisibleDefaultPlacement r t ?pid (p_CategoryID q) s1 = Inr ((), s2)"
    using raises_none [OF ensurePlacement_errors, of r t ?pid "p_CategoryID q" s1] by auto
  have "plugins s2 = ?rows"
    using stepsD [OF ensurePlacement_touches [of "{TPlacements}"] place] by (auto simp: s1_def dest: sameExcept_tables)
  with one two cas priv pend q(4) place show ?run
    by (auto simp: PublishPlugin_def tx_defs getOwnedForUpdate_def now_def newID_def updatePlugins_def
        mustChangeState_def insertAudit_def t_def s1_def)
qed

theorem PublishPlugin_private_only_witness:
  "\<exists>out s'. PublishPlugin sampleRepo sampleOwner samplePublish draftStore = Inr (out, s') \<and>
     p_ListingState out = PluginListingStatePublished \<and> marketPlaced s' ''k''"
proof -
  let ?run = "PublishPlugin sampleRepo sampleOwner samplePublish draftStore"
  have "\<not> isl ?run" by code_simp
  then obtain out s' where run: "?run = Inr (out, s')" by (auto dest: tx_runs)
  moreover have "distinct (map p_ID (plugins draftStore))" by code_simp
  ultimately show ?thesis using PublishPlugin_private_only [OF run] by (simp add: samplePublish_def)
qed

theorem PublishPlugin_succeeds_iff_witness:
  "\<exists>out s'. PublishPlugin sampleRepo sampleOwner samplePublish draftStore = Inr (out, s')"
proof -
  have "distinct (map p_ID (plugins draftStore))" "\<not> s_Admin sampleOwner" by code_simp+
  note iff = PublishPlugin_succeeds_iff [OF this, of sampleRepo samplePublish]
  have "\<exists>q \<in> set (plugins draftStore). publishable sampleOwner (pp_PluginID samplePublish) q \<and> p_Status q = 1 \<and>
      (pp_ExpectedDraftRevision samplePublish = '''' \<or>
       PluginDraftRevision sampleRepo q = pp_ExpectedDraftRevision samplePublish)"
    "\<not> pendingFor draftStore (pp_PluginID samplePublish)"
    by code_simp+
  with iff show ?thesis by blast
qed

subsection \<open>Taking down\<close>

lemma affected_delist:
  "0 < affected (delistable sp pid) (markDown t) rows \<longleftrightarrow> (\<exists>q \<in> set rows. delistable sp pid q)"
  unfolding affected_pos by (metis PluginListingState.distinct(5) delistable_def markDown_fields(8))

lemma cascaded_others: "cascaded I (s\<lparr>tickCount := n\<rparr>) s'' = cascaded I s s''"
  "cascaded I s (u\<lparr>reviews := x\<rparr>) = cascaded I s u" "cascaded I s (u\<lparr>idCount := k, audits := y\<rparr>) = cascaded I s u"
  by (simp_all add: cascaded_def)

lemma delist_cascades:
  "cascaded {pid} s (s\<lparr>plugins := updateWhere (delistable sp pid) (markDown t) (plugins s)\<rparr>)"
  by (rule stepsD [OF updatePlugins_cascades [of "delistable sp pid"]])
    (auto simp: takenDown_def delistable_def updatePlugins_def)

lemma collectEmbedded_cong:
  "relations t = relations s \<Longrightarrow> (\<And>i. liveEmbedded t i = liveEmbedded s i) \<Longrightarrow>
     collectEmbeddedChildren t topID ty = collectEmbeddedChildren s topID ty"
  by (simp add: collectEmbeddedChildren_def embeddedRelationTargets_def split: PluginType.splits)

lemma liveEmbedded_cascaded:
  assumes "cascaded I s t"
  shows "liveEmbedded t i = liveEmbedded s i"
proof
  assume "liveEmbedded t i"
  then obtain q where q: "q \<in> set (plugins t)" "p_ID q = i \<and> p_IsEmbedded q \<and> p_Status q = 1 \<and> p_DeletedAt q = None"
    unfolding liveEmbedded_def by blast
  obtain p where "p \<in> set (plugins s)" "takenDown I p q" using assms q(1) by (rule cascaded_row)
  with q(2) show "liveEmbedded s i" unfolding liveEmbedded_def by (intro bexI [of _ p]) (auto simp: takenDown_def)
next
  assume "liveEmbedded s i"
  then obtain p where p: "p \<in> set (plugins s)" "p_ID p = i \<and> p_IsEmbedded p \<and> p_Status p = 1 \<and> p_DeletedAt p = None"
    unfolding liveEmbedded_def by blast
  obtain q where "q \<in> set (plugins t)" "takenDown I p q" using assms p(1) by (rule cascaded_row')
  with p(2) show "liveEmbedded t i" unfolding liveEmbedded_def by (intro bexI [of _ q]) (auto simp: takenDown_def)
qed

lemma DelistPlugin_run:
  assumes "DelistPlugin r sc p s = Inr (out, s')"
  obtains current t s2 s3 s4 a where
      "find (reviewedRow (s_SpaceID sc) (dp_PluginID p)) (plugins s) = Some current"
    and "\<exists>q \<in> set (plugins s). delistable (s_SpaceID sc) (dp_PluginID p) q"
    and "demoteEmbeddedChildren (dp_PluginID p) (p_Type current) (s_SpaceID sc) t
      (s\<lparr>tickCount := Suc (tickCount s),
         plugins := updateWhere (delistable (s_SpaceID sc) (dp_PluginID p)) (markDown t) (plugins s)\<rparr>) = Inr ((), s2)"
    and "cancelPendingReviewFor t (dp_PluginID p) (o_OperatorID (dp_Operator p)) (o_OperatorName (dp_Operator p))
           (if dp_Reason p = '''' then reasonCanceledOnDelist else dp_Reason p) s2 = Inr ((), s3)"
    and "s4 = s3\<lparr>idCount := Suc (idCount s3), audits := audits s3 @ [a]\<rparr>"
    and "a_PluginID a = dp_PluginID p" and "a_Action a = ''delist''"
    and "whenT (versionManagement r) (suspendDelistedDependents (s_SpaceID sc) (dp_PluginID p) t) s4 = Inr ((), s')"
    and "find (reviewedRow (s_SpaceID sc) (dp_PluginID p)) (plugins s') = Some out"
proof -
  let ?pid = "dp_PluginID p" and ?sp = "s_SpaceID sc"
  define t where "t = nowAt r (tickCount s)"
  define s1 where "s1 = s\<lparr>tickCount := Suc (tickCount s),
    plugins := updateWhere (delistable ?sp ?pid) (markDown t) (plugins s)\<rparr>"
  define reason where "reason = (if dp_Reason p = '''' then reasonCanceledOnDelist else dp_Reason p)"
  define m where "m = (dp_Operator p)\<lparr>o_Remark := (if dp_Reason p = '''' then None else Some (''reason='' @ dp_Reason p))\<rparr>"
  from assms obtain current where
      c: "find (reviewedRow ?sp ?pid) (plugins s) = Some current"
    and cas: "0 < affected (delistable ?sp ?pid) (markDown t) (plugins s)"
    and rest: "thenT (demoteEmbeddedChildren ?pid (p_Type current) ?sp t)
      (thenT (cancelPendingReviewFor t ?pid (o_OperatorID (dp_Operator p)) (o_OperatorName (dp_Operator p)) reason)
      (bindT (newID r) (\<lambda>auditID. thenT (insertAudit auditID t current ''delist'' m (p_PluginHash current) (p_PluginHash current))
      (thenT (whenT (versionManagement r) (suspendDelistedDependents ?sp ?pid t))
         (getReviewedPluginForUpdate ?sp ?pid))))) s1 = Inr (out, s')"
    unfolding DelistPlugin_def reason_def [symmetric] m_def [symmetric]
    by (auto simp: tx_eval thenT_Inr [of "rejectPendingVisibilityMutation _"] t_def s1_def
        dest!: readsD [OF rejectPendingVisibility_reads] split: option.splits if_splits)
  from rest obtain s2 s3 where d: "demoteEmbeddedChildren ?pid (p_Type current) ?sp t s1 = Inr ((), s2)"
    and x: "cancelPendingReviewFor t ?pid (o_OperatorID (dp_Operator p)) (o_OperatorName (dp_Operator p)) reason s2 = Inr ((), s3)"
    and rest2: "thenT (whenT (versionManagement r) (suspendDelistedDependents ?sp ?pid t)) (getReviewedPluginForUpdate ?sp ?pid)
        (s3\<lparr>idCount := Suc (idCount s3), audits := audits s3 @ [auditRow (idAt r (idCount s3)) t current ''delist'' m
            (p_PluginHash current) (p_PluginHash current)]\<rparr>) = Inr (out, s')"
    by (auto simp: thenT_Inr eval_statements eval_audit)
  have "p_ID current = ?pid" using c by (auto simp: reviewedRow_def dest: find_Some_mem)
  moreover from rest2 have "whenT (versionManagement r) (suspendDelistedDependents ?sp ?pid t)
        (s3\<lparr>idCount := Suc (idCount s3), audits := audits s3 @ [auditRow (idAt r (idCount s3)) t current ''delist'' m
            (p_PluginHash current) (p_PluginHash current)]\<rparr>) = Inr ((), s')"
    and "find (reviewedRow ?sp ?pid) (plugins s') = Some out"
    by (auto simp: thenT_Inr getReviewed_Inr)
  ultimately show thesis
    using that [OF c _ d [unfolded s1_def] x [unfolded reason_def] refl, of "auditRow (idAt r (idCount s3)) t current
        ''delist'' m (p_PluginHash current) (p_PluginHash current)"] cas affected_delist by simp
qed

lemma DelistPlugin_settles:
  assumes "DelistPlugin r sc p s = Inr (out, s')"
  shows "\<not> pendingFor s' (dp_PluginID p)"
    and "\<exists>a. audits s' = audits s @ [a] \<and> a_Action a = ''delist'' \<and> a_PluginID a = dp_PluginID p"
proof -
  let ?pid = "dp_PluginID p" and ?sp = "s_SpaceID sc"
  from assms obtain current t s2 s3 s4 a where
      "find (reviewedRow ?sp ?pid) (plugins s) = Some current"
    and "\<exists>q \<in> set (plugins s). delistable ?sp ?pid q"
    and d: "demoteEmbeddedChildren ?pid (p_Type current) ?sp t (s\<lparr>tickCount := Suc (tickCount s),
         plugins := updateWhere (delistable ?sp ?pid) (markDown t) (plugins s)\<rparr>) = Inr ((), s2)"
    and x: "cancelPendingReviewFor t ?pid (o_OperatorID (dp_Operator p)) (o_OperatorName (dp_Operator p))
           (if dp_Reason p = '''' then reasonCanceledOnDelist else dp_Reason p) s2 = Inr ((), s3)"
    and s4: "s4 = s3\<lparr>idCount := Suc (idCount s3), audits := audits s3 @ [a]\<rparr>"
    and a: "a_PluginID a = ?pid" "a_Action a = ''delist''"
    and sus: "whenT (versionManagement r) (suspendDelistedDependents ?sp ?pid t) s4 = Inr ((), s')"
    and "find (reviewedRow ?sp ?pid) (plugins s') = Some out"
    by (rule DelistPlugin_run)
  have frame: "reviews s' = reviews s3 \<and> audits s' = audits s3 @ [a]"
    using sus stepsD [OF suspendDelistedDependents_touches [of "{TPlugins, TSuspensions}"], of ?sp ?pid t s4]
    by (auto simp: whenT_Inr s4 dest: sameExcept_tables split: if_splits)
  show "\<not> pendingFor s' ?pid" using x frame cancel_settles by (auto simp: tx_simps pendingFor_def)
  have "audits s3 = audits s"
    using stepsD [OF demoteEmbeddedChildren_touches [of "{TPlugins}"] d] x
    by (auto simp: tx_simps dest: sameExcept_tables)
  with frame a show "\<exists>a. audits s' = audits s @ [a] \<and> a_Action a = ''delist'' \<and> a_PluginID a = ?pid" by auto
qed

lemma DelistPlugin_states:
  assumes "DelistPlugin r sc p s = Inr (out, s')"
  obtains current q t s1 s2 where
      "current \<in> set (plugins s)" and "p_ID current = dp_PluginID p"
    and "q \<in> set (plugins s)" and "delistable (s_SpaceID sc) (dp_PluginID p) q"
    and "plugins s1 = updateWhere (delistable (s_SpaceID sc) (dp_PluginID p)) (markDown t) (plugins s)"
    and "cascaded {dp_PluginID p} s s1"
    and "demoteEmbeddedChildren (dp_PluginID p) (p_Type current) (s_SpaceID sc) t s1 = Inr ((), s2)"
    and "cascaded {dp_PluginID p} s1 s2" and "cascaded UNIV s2 s'"
    and "\<forall>x. versionManagement r \<and> dependent (s_SpaceID sc) s (dp_PluginID p) x \<longrightarrow>
        (\<forall>q \<in> set (plugins s'). incomingSource (s_SpaceID sc) s' x q \<longrightarrow> p_ID q = dp_PluginID p)"
    and "out \<in> set (plugins s')" and "p_ID out = dp_PluginID p"
proof -
  let ?pid = "dp_PluginID p" and ?sp = "s_SpaceID sc"
  from assms obtain current t s2 s3 s4 a where
      c: "find (reviewedRow ?sp ?pid) (plugins s) = Some current"
    and q0: "\<exists>q \<in> set (plugins s). delistable ?sp ?pid q"
    and d: "demoteEmbeddedChildren ?pid (p_Type current) ?sp t (s\<lparr>tickCount := Suc (tickCount s),
         plugins := updateWhere (delistable ?sp ?pid) (markDown t) (plugins s)\<rparr>) = Inr ((), s2)"
    and x: "cancelPendingReviewFor t ?pid (o_OperatorID (dp_Operator p)) (o_OperatorName (dp_Operator p))
           (if dp_Reason p = '''' then reasonCanceledOnDelist else dp_Reason p) s2 = Inr ((), s3)"
    and s4: "s4 = s3\<lparr>idCount := Suc (idCount s3), audits := audits s3 @ [a]\<rparr>"
    and "a_PluginID a = ?pid" "a_Action a = ''delist''"
    and sus: "whenT (versionManagement r) (suspendDelistedDependents ?sp ?pid t) s4 = Inr ((), s')"
    and out: "find (reviewedRow ?sp ?pid) (plugins s') = Some out"
    by (rule DelistPlugin_run)
  define s1 where "s1 = s\<lparr>tickCount := Suc (tickCount s), plugins := updateWhere (delistable ?sp ?pid) (markDown t) (plugins s)\<rparr>"
  have c1: "cascaded {?pid} s s1" using delist_cascades [of ?pid s ?sp t] by (simp add: cascaded_def s1_def)
  have c2: "cascaded {?pid} s1 s2" using stepsD [OF demoteEmbeddedChildren_cascades d [folded s1_def]] .
  have s24: "cascaded I s2 s4" for I
    using x cascade.frame_refl [of I s2] by (simp add: tx_simps s4 cascaded_def)
  have closed: "(\<forall>q \<in> set (plugins s'). incomingSource ?sp s' y q \<longrightarrow> p_ID q = ?pid) \<and> cascaded UNIV s4 s'"
    if "versionManagement r" "dependent ?sp s ?pid y" for y
    using suspendDependents_closed [OF _ dependent_cascaded [OF _ that(2)]] sus that(1)
      cascade.frame_trans [OF cascade.frame_trans [OF c1 c2] s24] by (simp add: whenT_Inr)
  have "cascaded UNIV s4 s'"
  proof (cases "versionManagement r")
    case True
    with closed [OF True dependent.self] show ?thesis by simp
  qed (use sus in \<open>simp add: whenT_Inr cascade.frame_refl\<close>)
  then have c': "cascaded UNIV s2 s'" by (rule cascade.frame_trans [OF s24])
  from q0 obtain q where q: "q \<in> set (plugins s)" "delistable ?sp ?pid q" by blast
  have s1: "plugins s1 = updateWhere (delistable ?sp ?pid) (markDown t) (plugins s)" by (simp add: s1_def)
  have cur: "current \<in> set (plugins s)" "p_ID current = ?pid" "out \<in> set (plugins s')" "p_ID out = ?pid"
    using c out by (auto dest!: find_Some_mem simp: reviewedRow_def)
  have "\<forall>x. versionManagement r \<and> dependent ?sp s ?pid x \<longrightarrow>
      (\<forall>q \<in> set (plugins s'). incomingSource ?sp s' x q \<longrightarrow> p_ID q = ?pid)"
    using closed by blast
  from that [OF cur(1,2) q s1 c1 d [folded s1_def] c2 c' this cur(3,4)] show thesis .
qed

lemma delist_row_down:
  assumes "distinct (map p_ID rows)" and "q \<in> set rows" and "delistable sp pid q"
    and "v \<in> set (updateWhere (delistable sp pid) (markDown t) rows)" and "p_ID v = pid"
  shows "p_ListingState v \<noteq> PluginListingStatePublished"
  using assms(4)
proof (cases rule: updateWhere_memE)
  case 2
  then have "v = q" using assms by (intro distinct_key_eq [of p_ID rows]) (auto simp: delistable_def)
  with 2 assms(3) show ?thesis by simp
qed simp

text \<open>C2: a takedown takes the whole plugin down. The row leaves the market, with every embedded
  child that was live under it; no request on it stays open, so no later approval can
  relist it; one audit row records it; rows are only ever moved to delisted. With version management,
  no published plugin of the Space still rests on it, directly or through a chain of
  published experts and teams.\<close>

theorem DelistPlugin_takes_down:
  assumes run: "DelistPlugin r sc p s = Inr (out, s')" and ids: "distinct (map p_ID (plugins s))"
  shows "p_ID out = dp_PluginID p \<and> p_ListingState out = PluginListingStateDelisted \<and>
    \<not> pendingFor s' (dp_PluginID p) \<and> cascaded UNIV s s' \<and>
    (\<exists>a. audits s' = audits s @ [a] \<and> a_Action a = ''delist'' \<and> a_PluginID a = dp_PluginID p) \<and>
    (\<forall>c \<in> set (collectEmbeddedChildren s (dp_PluginID p) (p_Type out)). \<forall>q \<in> set (plugins s').
       p_ID q = c \<and> p_SpaceID q = Some (s_SpaceID sc) \<and> p_IsEmbedded q \<and> p_DeletedAt q = None \<longrightarrow>
       p_ListingState q \<noteq> PluginListingStatePublished) \<and>
    (versionManagement r \<longrightarrow> (\<forall>x. dependent (s_SpaceID sc) s (dp_PluginID p) x \<longrightarrow>
       (\<forall>q \<in> set (plugins s'). \<not> incomingSource (s_SpaceID sc) s' x q)))"
proof -
  let ?pid = "dp_PluginID p" and ?sp = "s_SpaceID sc"
  from run obtain current q t s1 s2 where cur: "current \<in> set (plugins s)" "p_ID current = ?pid"
    and q: "q \<in> set (plugins s)" "delistable ?sp ?pid q"
    and s1: "plugins s1 = updateWhere (delistable ?sp ?pid) (markDown t) (plugins s)"
    and c1: "cascaded {?pid} s s1" and d: "demoteEmbeddedChildren ?pid (p_Type current) ?sp t s1 = Inr ((), s2)"
    and c2: "cascaded {?pid} s1 s2" and c': "cascaded UNIV s2 s'"
    and closed: "\<forall>x. versionManagement r \<and> dependent ?sp s ?pid x \<longrightarrow>
        (\<forall>q \<in> set (plugins s'). incomingSource ?sp s' x q \<longrightarrow> p_ID q = ?pid)"
    and out: "out \<in> set (plugins s')" "p_ID out = ?pid"
    by (rule DelistPlugin_states)
  have tail: "cascaded UNIV s1 s'" using cascade.frame_trans [OF cascaded_mono [OF c2] c'] by simp
  have all: "cascaded UNIV s s'" using cascade.frame_trans [OF cascaded_mono [OF c1] tail] by simp
  have down: "p_ListingState v \<noteq> PluginListingStatePublished" if "v \<in> set (plugins s')" "p_ID v = ?pid" for v
    using cascaded_keeps_down [OF tail, of "\<lambda>i sp e dl. i = ?pid"] delist_row_down [OF ids q] that s1 by metis
  obtain v where v: "v \<in> set (plugins s)" "takenDown UNIV v out" using all out(1) by (rule cascaded_row)
  have eq: "v = q" "current = q"
    using v q cur ids out(2) by (auto intro!: distinct_key_eq [of p_ID "plugins s"] simp: delistable_def takenDown_def)
  have state: "p_ListingState out = PluginListingStateDelisted" "p_Type out = p_Type current"
    using v(2) q(2) down [OF out] eq by (auto simp: takenDown_def delistable_def)
  have kids: "collectEmbeddedChildren s ?pid ty = collectEmbeddedChildren s1 ?pid ty" for ty
    using liveEmbedded_cascaded [OF c1] c1 by (intro collectEmbedded_cong [symmetric]) (simp_all add: cascaded_def)
  have demoted: "p_ListingState w \<noteq> PluginListingStatePublished"
    if "c \<in> set (collectEmbeddedChildren s ?pid (p_Type out))" "w \<in> set (plugins s')"
      "p_ID w = c \<and> p_SpaceID w = Some ?sp \<and> p_IsEmbedded w \<and> p_DeletedAt w = None" for c w
    using demoteEmbeddedChildren_down [OF d, of c] that kids state(2)
      cascaded_keeps_down [OF c', of "\<lambda>i sp e dl. i = c \<and> sp = Some ?sp \<and> e \<and> dl = None"] by simp
  have none: "\<not> incomingSource ?sp s' x w" if "versionManagement r" "dependent ?sp s ?pid x" "w \<in> set (plugins s')" for x w
    using closed that down [OF that(3)] by (auto simp: incomingSource_def)
  show ?thesis using state(1) out(2) all DelistPlugin_settles [OF run] demoted none by blast
qed

theorem DelistPlugin_takes_down_witness:
  "\<exists>out s'. DelistPlugin sampleRepo sampleOwner sampleDelist sampleStore = Inr (out, s') \<and>
     p_ListingState out = PluginListingStateDelisted"
proof -
  let ?run = "DelistPlugin sampleRepo sampleOwner sampleDelist sampleStore"
  have "\<not> isl ?run" by code_simp
  then obtain out s' where run: "?run = Inr (out, s')" by (auto dest: tx_runs)
  moreover have "distinct (map p_ID (plugins sampleStore))" by code_simp
  ultimately show ?thesis using DelistPlugin_takes_down [OF run] by blast
qed

subsection \<open>The request a status shows\<close>

lemma laterReview_negtrans: "\<not> laterReview a b \<Longrightarrow> \<not> laterReview b c \<Longrightarrow> \<not> laterReview a c"
  by (auto simp: laterReview_def)

lemma latestOf_maximal:
  "\<exists>m. latestOf (Some b) qs = Some m \<and> m \<in> insert b (set qs) \<and> (\<forall>q \<in> insert b (set qs). \<not> laterReview q m)"
proof (induction qs arbitrary: b)
  case Nil
  then show ?case by (simp add: laterReview_def)
next
  case (Cons q qs)
  let ?b = "if laterReview q b then q else b"
  from Cons.IH [of ?b] obtain m where m: "latestOf (Some ?b) qs = Some m" "m \<in> insert ?b (set qs)"
      "\<forall>x \<in> insert ?b (set qs). \<not> laterReview x m" by blast
  have "\<not> laterReview b ?b" "\<not> laterReview q ?b" by (auto simp: laterReview_def)
  with m(3) have "\<not> laterReview b m" "\<not> laterReview q m" by (meson insertI1 laterReview_negtrans)+
  with m show ?case by auto
qed

text \<open>The request a displayed status reflects. There is one exactly when the plugin has a live
  request in the Space, and it is an open one exactly when such a request is open.\<close>

theorem LatestReviewForPlugin_prefers_pending:
  "(LatestReviewForPlugin s sc pid = None \<longleftrightarrow> reviewsInSpace s (s_SpaceID sc) pid = []) \<and>
   ((\<exists>i. LatestReviewForPlugin s sc pid = Some (i, ReviewStatusPending)) \<longleftrightarrow>
      (\<exists>q \<in> set (reviewsInSpace s (s_SpaceID sc) pid). rr_Status q = ReviewStatusPending))"
proof (cases "reviewsInSpace s (s_SpaceID sc) pid")
  case Nil
  then show ?thesis by (simp add: LatestReviewForPlugin_def)
next
  case (Cons b qs)
  from latestOf_maximal [of b qs] obtain m where
      "latestOf (Some b) qs = Some m" "m \<in> insert b (set qs)" "\<forall>q \<in> insert b (set qs). \<not> laterReview q m"
    by blast
  then show ?thesis unfolding LatestReviewForPlugin_def Cons by (auto simp: laterReview_def)
qed

end
