(* ===== verification/Releases.thy ===== *)
theory Releases
  imports Listing
begin

text \<open>
  Managed releases: when a released snapshot is available to its readers
  (\<open>dependency_availability.go\<close>), recovery of a suspended plugin
  (\<open>dependency_suspension.go\<close>), acknowledged connector revisions
  (\<open>dependency_updates.go\<close>), and the recording, publication and adoption of releases
  (\<open>version_management.go\<close>).

  A snapshot's relations are decoded records, so the two spellings of a field the SQL
  accepts are one field here. A scan of a row that must exist and does not is the raw
  driver error \<open>ErrSnapshotMissing\<close>.
\<close>

section \<open>Availability\<close>

definition releaseExists :: "Store \<Rightarrow> string \<Rightarrow> string option \<Rightarrow> bool" where
  "releaseExists s pid v \<longleftrightarrow>
     (\<exists>rel \<in> set (releases s). rel_PluginID rel = pid \<and> v = Some (rel_VersionID rel))"

text \<open>\<open>root\<close> is the plugin whose catalog entry is judged, \<open>container\<close> the row that declares the edge.\<close>

definition snapshotTargetUnavailableSQL ::
  "Store \<Rightarrow> Plugin \<Rightarrow> PluginRelation \<Rightarrow> Plugin option \<Rightarrow> Plugin \<Rightarrow> bool" where
  "snapshotTargetUnavailableSQL s root edge target container =
     (case target of
        None \<Rightarrow> True
      | Some t \<Rightarrow>
          p_Visibility t = PluginVisibilityPrivate \<and>
            (p_Visibility root = PluginVisibilitySpace \<or> p_OwnerUID root \<noteq> p_OwnerUID t) \<or>
          p_Status t \<noteq> 1 \<or> p_DeletedAt t \<noteq> None \<or> p_ListingState t \<noteq> PluginListingStatePublished \<or>
          r_Type edge \<in> {''expert_skill'', ''expert_team_expert''} \<and>
            \<not> (r_TargetVersionID edge = None \<and> p_IsEmbedded t \<and> p_OwnerUID t = p_OwnerUID container \<and>
               p_SpaceID t = p_SpaceID container) \<and>
            \<not> releaseExists s (r_TargetPluginID edge) (coalesce (r_TargetVersionID edge) (p_PublishedVersionID t)))"

definition targetRow :: "Store \<Rightarrow> PluginRelation \<Rightarrow> Plugin option" where
  "targetRow s e = lookupBy p_ID (r_TargetPluginID e) (plugins s)"

definition snapshotMemberUnavailableSQL :: "Store \<Rightarrow> Plugin \<Rightarrow> PluginRelation \<Rightarrow> Plugin \<Rightarrow> bool" where
  "snapshotMemberUnavailableSQL s root edge target \<longleftrightarrow>
     (\<exists>mv \<in> set (versions s). v_PluginID mv = r_TargetPluginID edge \<and>
        coalesce (r_TargetVersionID edge) (p_PublishedVersionID target) = Some (v_ID mv) \<and>
        (\<exists>me \<in> set (v_Relations mv). r_Type me \<in> {''expert_skill'', ''expert_connector''} \<and> liveSnapshotEdge me \<and>
           snapshotTargetUnavailableSQL s root me (targetRow s me) target))"

definition unavailableSnapshotSQL :: "Store \<Rightarrow> Plugin \<Rightarrow> string \<Rightarrow> string option \<Rightarrow> Plugin \<Rightarrow> bool" where
  "unavailableSnapshotSQL s root sourceID version container \<longleftrightarrow>
     (\<exists>sv \<in> set (versions s). v_PluginID sv = sourceID \<and> version = Some (v_ID sv) \<and>
        (\<exists>edge \<in> set (v_Relations sv).
           r_Type edge \<in> {''expert_skill'', ''expert_connector'', ''expert_team_expert''} \<and> liveSnapshotEdge edge \<and>
           (snapshotTargetUnavailableSQL s root edge (targetRow s edge) container \<or>
            r_Type edge = ''expert_team_expert'' \<and>
            (case targetRow s edge of None \<Rightarrow> False | Some t \<Rightarrow> snapshotMemberUnavailableSQL s root edge t))))"

definition liveTargetUnavailableSQL :: "Store \<Rightarrow> Plugin \<Rightarrow> PluginRelation \<Rightarrow> Plugin option \<Rightarrow> bool" where
  "liveTargetUnavailableSQL s root edge target =
     (case target of
        None \<Rightarrow> True
      | Some t \<Rightarrow>
          p_Visibility t = PluginVisibilityPrivate \<and>
            (p_Visibility root = PluginVisibilitySpace \<or> p_OwnerUID root \<noteq> p_OwnerUID t) \<or>
          p_Status t \<noteq> 1 \<or> p_DeletedAt t \<noteq> None \<or> p_ListingState t \<noteq> PluginListingStatePublished \<or>
          r_Type edge \<in> {''expert_skill'', ''expert_team_expert''} \<and> r_TargetVersionID edge \<noteq> None \<and>
            \<not> releaseExists s (r_TargetPluginID edge) (r_TargetVersionID edge))"

definition unavailableMemberLiveSQL :: "Store \<Rightarrow> Plugin \<Rightarrow> Plugin \<Rightarrow> bool" where
  "unavailableMemberLiveSQL s root source \<longleftrightarrow>
     (\<exists>l \<in> set (relations s). r_SourcePluginID l = p_ID source \<and> liveSnapshotEdge l \<and>
        r_Type l \<in> {''expert_skill'', ''expert_connector''} \<and> liveTargetUnavailableSQL s root l (targetRow s l))"

definition unavailableLiveSQL :: "Store \<Rightarrow> Plugin \<Rightarrow> Plugin \<Rightarrow> bool" where
  "unavailableLiveSQL s root source \<longleftrightarrow>
     (\<exists>l \<in> set (relations s). r_SourcePluginID l = p_ID source \<and> liveSnapshotEdge l \<and>
        r_Type l \<in> {''expert_skill'', ''expert_connector'', ''expert_team_expert''} \<and>
        (liveTargetUnavailableSQL s root l (targetRow s l) \<or>
         r_Type l = ''expert_team_expert'' \<and>
         (case targetRow s l of
            None \<Rightarrow> False
          | Some member \<Rightarrow>
              (case (r_TargetVersionID l, p_PublishedVersionID member) of
                 (Some pin, _) \<Rightarrow> unavailableSnapshotSQL s root (p_ID member) (Some pin) member
               | (None, Some v) \<Rightarrow> unavailableSnapshotSQL s root (p_ID member) (Some v) member
               | (None, None) \<Rightarrow> unavailableMemberLiveSQL s root member))))"

definition unavailableDependencySQL :: "Store \<Rightarrow> Plugin \<Rightarrow> bool" where
  "unavailableDependencySQL s p \<longleftrightarrow>
     (p_Type p = PluginTypeExpert \<or> p_Type p = PluginTypeExpertTeam) \<and>
     (case p_PublishedVersionID p of
        Some v \<Rightarrow> unavailableSnapshotSQL s p (p_ID p) (Some v) p
      | None \<Rightarrow> unavailableLiveSQL s p p)"

definition HasUnavailableDependencies :: "Store \<Rightarrow> Scope \<Rightarrow> string \<Rightarrow> bool" where
  "HasUnavailableDependencies s sc pid \<longleftrightarrow>
     (\<exists>p \<in> set (plugins s). p_ID p = pid \<and> p_Status p = 1 \<and> p_DeletedAt p = None \<and>
        p_ListingState p = PluginListingStatePublished \<and>
        (s_Admin sc \<or> visibilitySQL (s_SpaceID sc) (s_CallerUID sc) p) \<and> unavailableDependencySQL s p)"

section \<open>Recovery of a suspended plugin\<close>

definition versionRow :: "Store \<Rightarrow> string \<Rightarrow> string \<Rightarrow> PluginVersion option" where
  "versionRow s pid vid = find (\<lambda>v. v_PluginID v = pid \<and> v_ID v = vid) (versions s)"

definition candidateReleaseRelations :: "Store \<Rightarrow> string \<Rightarrow> string \<Rightarrow> PluginRelation list" where
  "candidateReleaseRelations s pid versionID =
     (case versionRow s pid versionID of None \<Rightarrow> [] | Some v \<Rightarrow> v_Relations v)"

definition recoverable :: "Store \<Rightarrow> string \<Rightarrow> string \<Rightarrow> bool" where
  "recoverable s pid versionID \<longleftrightarrow>
     (\<exists>p \<in> set (plugins s). p_ID p = pid \<and> \<not> unavailableSnapshotSQL s p pid (Some versionID) p)"

definition clearRecoveredSuspension :: "Plugin \<Rightarrow> string \<Rightarrow> time \<Rightarrow> unit stx" where
  "clearRecoveredSuspension p versionID t =
     bindT (queryT (\<lambda>s. \<exists>x \<in> set (suspensions s). sus_PluginID x = p_ID p)) (\<lambda>marked.
       if \<not> marked then returnT ()
       else bindT (queryT (\<lambda>s. candidateReleaseRelations s (p_ID p) versionID)) (\<lambda>rels.
         thenT (promoteFrozenEmbeddedChildren (p_ID p) (p_Type p) rels
                  (case p_SpaceID p of None \<Rightarrow> '''' | Some x \<Rightarrow> x) (p_Visibility p) t)
        (bindT (queryT (\<lambda>s. recoverable s (p_ID p) versionID)) (\<lambda>ok.
         thenT (refuseT (\<not> ok) (ReferenceValidationError ''relations'' ''target_not_published''))
           (modifyT (\<lambda>s. s\<lparr>suspensions := filter (\<lambda>x. sus_PluginID x \<noteq> p_ID p) (suspensions s)\<rparr>))))))"

section \<open>Connector revisions\<close>

definition connectorFingerprint :: "Repo \<Rightarrow> Plugin \<Rightarrow> string" where
  "connectorFingerprint r t = sha256 r (p_ManifestHash t @ '':'' @ p_PluginHash t)"

definition connectorTargets :: "PluginRelation list \<Rightarrow> string list" where
  "connectorTargets edges = map r_TargetPluginID (filter (\<lambda>e. r_Type e = ''expert_connector'' \<and>
     r_DeletedAt e = None \<and> (r_Status e = 0 \<or> r_Status e = 1)) edges)"

definition recordBaseline :: "Repo \<Rightarrow> string \<Rightarrow> string \<Rightarrow> unit stx" where
  "recordBaseline r source target =
     bindT (queryT (\<lambda>s. lookupBy p_ID target (plugins s))) (\<lambda>row.
       case row of
         None \<Rightarrow> returnT ()
       | Some t \<Rightarrow> modifyT (\<lambda>s.
           if \<exists>b \<in> set (baselines s). cb_SourceID b = source \<and> cb_TargetID b = p_ID t then s
           else s\<lparr>baselines := baselines s @
             [\<lparr>cb_SourceID = source, cb_TargetID = p_ID t, cb_Revision = connectorFingerprint r t\<rparr>]\<rparr>))"

definition RefreshConnectorBaselines :: "Repo \<Rightarrow> string \<Rightarrow> string \<Rightarrow> unit stx" where
  "RefreshConnectorBaselines r source version =
     bindT (queryT (\<lambda>s. versionRow s source version)) (\<lambda>row.
     bindT (someT ErrSnapshotMissing row) (\<lambda>v.
     thenT (forT (recordBaseline r source) (connectorTargets (v_Relations v)))
       (modifyT (\<lambda>s. s\<lparr>baselines := filter (\<lambda>b. \<not> (cb_SourceID b = source \<and>
          cb_TargetID b \<notin> set (connectorTargets (v_Relations v)))) (baselines s)\<rparr>))))"

definition ackConnectors :: "string \<Rightarrow> (string \<times> string) list \<Rightarrow> unit stx" where
  "ackConnectors source revisions =
     forT (\<lambda>(target, rev). modifyT (\<lambda>s. s\<lparr>baselines := updateWhere
        (\<lambda>b. cb_SourceID b = source \<and> cb_TargetID b = target) (\<lambda>b. b\<lparr>cb_Revision := rev\<rparr>) (baselines s)\<rparr>)) revisions"

definition publishedConnector :: "string \<Rightarrow> Plugin \<Rightarrow> bool" where
  "publishedConnector pid t \<longleftrightarrow>
     p_ID t = pid \<and> p_Type t = PluginTypeConnector \<and> p_ListingState t = PluginListingStatePublished \<and>
     p_Status t = 1 \<and> p_DeletedAt t = None"

definition approveConnectorRevisions :: "Repo \<Rightarrow> string \<Rightarrow> string \<Rightarrow> unit stx" where
  "approveConnectorRevisions r source review =
     bindT (queryT (\<lambda>s. find (\<lambda>c. ct_ReviewID c = review) (configTargets s))) (\<lambda>row.
       case row of
         None \<Rightarrow> returnT ()
       | Some c \<Rightarrow>
           thenT (forT (\<lambda>(pid, want).
                    bindT (queryT (\<lambda>s. find (publishedConnector pid) (plugins s))) (\<lambda>t.
                    bindT (someT ErrConflict t) (\<lambda>actual. refuseT (want \<noteq> connectorFingerprint r actual) ErrConflict)))
                    (ct_Selection c))
             (ackConnectors source (ct_Selection c)))"

section \<open>Releases\<close>

definition managedLabels :: "Store \<Rightarrow> string \<Rightarrow> string list" where
  "managedLabels s pid =
     map rel_VersionLabel (filter (\<lambda>rel. rel_PluginID rel = pid) (releases s)) @
     map rr_Version (filter (\<lambda>q. rr_PluginID q = pid \<and> rr_Status q = ReviewStatusApproved \<and> rr_DeletedAt q = None) (reviews s))"

definition releasedAs :: "Store \<Rightarrow> string \<Rightarrow> string \<Rightarrow> string" where
  "releasedAs s pid label =
     (case find (\<lambda>rel. rel_PluginID rel = pid \<and> rel_VersionLabel rel = label) (releases s) of
        None \<Rightarrow> '''' | Some rel \<Rightarrow> rel_VersionID rel)"

text \<open>The label of the release the plugin currently publishes.\<close>

definition publishedLabel :: "Store \<Rightarrow> Plugin \<Rightarrow> string option" where
  "publishedLabel s p =
     map_option rel_VersionLabel
       (find (\<lambda>rel. rel_PluginID rel = p_ID p \<and> p_PublishedVersionID p = Some (rel_VersionID rel)) (releases s))"

definition insertRelease :: "string \<Rightarrow> string \<Rightarrow> string \<Rightarrow> string \<Rightarrow> time \<Rightarrow> unit stx" where
  "insertRelease pid versionID label actor t =
     bindT (queryT (\<lambda>s. versionRow s pid versionID)) (\<lambda>row.
     bindT (someT ErrConflict row) (\<lambda>v.
     thenT (refuseT (v_DeclaredVersion v \<noteq> Some label \<or> v_Artifacts v = None) ErrVersionBaselineUnavailable)
    (bindT (queryT (\<lambda>s. map_option (publishedLabel s) (lookupBy p_ID pid (plugins s)))) (\<lambda>previous.
     bindT (someT ErrSnapshotMissing previous) (\<lambda>prev.
     thenT (refuseT (case prev of None \<Rightarrow> False | Some l \<Rightarrow> \<not> VersionAdvanced l label) ErrVersionRegressed)
    (bindT (queryT (\<lambda>s. \<exists>rel \<in> set (releases s). rel_VersionID rel = versionID \<or>
         rel_PluginID rel = pid \<and> rel_VersionLabel rel = label)) (\<lambda>dup.
     thenT (refuseT dup ErrLabelTaken)
       (modifyT (\<lambda>s. s\<lparr>releases := releases s @
          [\<lparr>rel_PluginID = pid, rel_VersionID = versionID, rel_VersionLabel = label,
            rel_ReleasedBy = actor, rel_ReleasedAt = t\<rparr>]\<rparr>)))))))))"

definition stampRelease :: "string \<Rightarrow> string option \<Rightarrow> string \<Rightarrow> Plugin \<Rightarrow> Plugin" where
  "stampRelease versionID publishedKey nameScope q =
     q\<lparr>p_PublishedVersionID := Some versionID, p_PublishedNameKey := publishedKey, p_NameScope := nameScope\<rparr>"

definition recordRelease :: "Repo \<Rightarrow> Plugin \<Rightarrow> string \<Rightarrow> string \<Rightarrow> string \<Rightarrow> time \<Rightarrow> unit stx" where
  "recordRelease r p versionID label actor t =
     (if \<not> versioned p then returnT ()
      else
        thenT (validateReleaseReferences r p versionID [])
       (bindT (queryT (\<lambda>s. releasedAs s (p_ID p) label)) (\<lambda>existing.
        thenT (refuseT (existing \<noteq> '''' \<and> existing \<noteq> versionID) ErrLabelTaken)
       (thenT (whenT (existing = '''') (insertRelease (p_ID p) versionID label actor t))
       (thenT (whenT (p_Type p = PluginTypeExpert) (RefreshConnectorBaselines r (p_ID p) versionID))
       (bindT (queryT (\<lambda>s. map_option (\<lambda>v. manifestNameSQL (v_Manifest v)) (versionRow s (p_ID p) versionID))) (\<lambda>row.
        bindT (someT ErrConflict row) (\<lambda>manifestName.
        bindT (liftT (pluginNameColumns r (if trimSpace manifestName = '''' then p_Name p else manifestName)
                 (p_Type p) (p_SpaceID p))) (\<lambda>(publishedKey, nameScope).
        thenT (case publishedKey of
                 None \<Rightarrow> returnT ()
               | Some k \<Rightarrow> whenT (\<not> p_IsEmbedded p) (rejectPluginNameCollision r p k nameScope))
       (thenT (bindT (updatePlugins (\<lambda>q. p_ID q = p_ID p \<and> p_DeletedAt q = None)
                 (stampRelease versionID publishedKey nameScope)) (\<lambda>_. returnT ()))
          (clearRecoveredSuspension p versionID t)))))))))))"

section \<open>Publishing a managed draft\<close>

text \<open>
  A release label other than the draft's is published by appending a relabelled copy of the
  selected immutable version; the plugin value it returns carries the copy's id and label.
\<close>

definition relabelDraft :: "Repo \<Rightarrow> PublishParams \<Rightarrow> Plugin \<Rightarrow> string \<Rightarrow> Plugin stx" where
  "relabelDraft r p current label =
     thenT (refuseT (ParseVersion label = None) ErrConflict)
    (bindT (queryT (\<lambda>s. versionRow s (p_ID current) (pp_ExpectedVersionID p))) (\<lambda>row.
     bindT (someT ErrSnapshotMissing row) (\<lambda>v.
     bindT (now r) (\<lambda>t.
     bindT (snapshotVersion r t
       (current\<lparr>p_Manifest := v_Manifest v, p_Package := v_Package v, p_AttachmentKeys := v_AttachmentKeys v,
          p_ManifestHash := v_ManifestHash v, p_PluginHash := v_PluginHash v, p_CurrentVersion := Some label\<rparr>)
       (v_Relations v) (v_Changelog v) (o_OperatorID (pp_Operator p)) (references r)) (\<lambda>vid.
     returnT (current\<lparr>p_CurrentVersionID := Some vid, p_CurrentVersion := Some label\<rparr>))))))"

text \<open>The statements after the release: list the row, place it, audit it.\<close>

definition finishManagedPublish :: "Repo \<Rightarrow> PublishParams \<Rightarrow> Plugin \<Rightarrow> Plugin stx" where
  "finishManagedPublish r p current =
     bindT (now r) (\<lambda>t.
     thenT (bindT (updatePlugins (\<lambda>q. p_ID q = p_ID current) (markPublished t)) (\<lambda>_. returnT ()))
    (bindT (now r) (\<lambda>t.
     thenT (ensureVisibleDefaultPlacement r t (p_ID current) (p_CategoryID current))
    (bindT (newID r) (\<lambda>auditID.
     bindT (now r) (\<lambda>t.
     thenT (insertAudit auditID t current ''publish'' ((pp_Operator p)\<lparr>o_Remark := None\<rparr>)
              (p_PluginHash current) (p_PluginHash current))
       (returnT (current\<lparr>p_ListingState := PluginListingStatePublished\<rparr>))))))))"

definition PublishManaged :: "Repo \<Rightarrow> Scope \<Rightarrow> PublishParams \<Rightarrow> Plugin stx" where
  "PublishManaged r sc p =
     bindT (getOwnedForUpdate sc (pp_PluginID p)) (\<lambda>current.
     thenT (refuseT (pp_ExpectedDraftRevision p \<noteq> '''' \<and>
                     PluginDraftRevision r current \<noteq> pp_ExpectedDraftRevision p) ErrConflict)
    (thenT (refuseT (\<not> versioned current \<or> p_IsEmbedded current) ErrNotFound)
    (thenT (refuseT (\<not> s_Admin sc \<and> p_Visibility current \<noteq> PluginVisibilityPrivate) ErrConflict)
    (thenT (refuseT (p_CurrentVersionID current \<noteq> Some (pp_ExpectedVersionID p)) ErrConflict)
    (bindT (someT ErrConflict (p_CurrentVersion current)) (\<lambda>draftLabel.
     bindT (queryT (\<lambda>s. pendingFor s (p_ID current))) (\<lambda>pending.
     thenT (refuseT pending ErrReviewPending)
    (bindT (if trimSpace (pp_Version p) \<noteq> '''' \<and> trimSpace (pp_Version p) \<noteq> draftLabel
            then relabelDraft r p current (trimSpace (pp_Version p)) else returnT current) (\<lambda>current.
     bindT (now r) (\<lambda>t.
     thenT (recordRelease r current (the (p_CurrentVersionID current)) (the (p_CurrentVersion current))
              (o_OperatorID (pp_Operator p)) t)
       (finishManagedPublish r p current)))))))))))"

section \<open>Adopting a published baseline\<close>

record AdoptParams =
  ap_PluginID :: string
  ap_ExpectedVersionID :: string
  ap_Operator :: Operator

definition approvedContent :: "Store \<Rightarrow> string \<Rightarrow> string \<Rightarrow> PluginVersion \<Rightarrow> bool" where
  "approvedContent s pid spaceID v \<longleftrightarrow>
     (\<exists>q \<in> set (reviews s). rr_PluginID q = pid \<and> rr_SpaceID q = spaceID \<and> rr_Status q = ReviewStatusApproved \<and>
        Some (rr_Version q) = v_DeclaredVersion v \<and> rr_ManifestHash q = v_ManifestHash v \<and>
        rr_PluginHash q = v_PluginHash v \<and> rr_DeletedAt q = None)"

definition AdoptPublishedBaseline :: "Repo \<Rightarrow> Scope \<Rightarrow> AdoptParams \<Rightarrow> Plugin stx" where
  "AdoptPublishedBaseline r sc p =
     bindT (getOwnedForUpdate sc (ap_PluginID p)) (\<lambda>current.
     thenT (refuseT (\<not> versioned current \<or> p_IsEmbedded current) ErrNotFound)
    (thenT (refuseT (p_ListingState current \<noteq> PluginListingStatePublished) ErrConflict)
    (thenT (refuseT (p_CurrentVersionID current \<noteq> Some (ap_ExpectedVersionID p)) ErrConflict)
    (thenT (refuseT (p_PublishedVersionID current \<noteq> None) ErrConflict)
    (bindT (queryT (\<lambda>s. versionRow s (p_ID current) (ap_ExpectedVersionID p))) (\<lambda>row.
     bindT (someT ErrVersionBaselineUnavailable row) (\<lambda>v.
     thenT (refuseT (\<not> hasLabel (v_DeclaredVersion v) \<or> v_Artifacts v = None \<or>
                     v_ManifestHash v \<noteq> p_ManifestHash current \<or> v_PluginHash v \<noteq> p_PluginHash current)
              ErrVersionBaselineUnavailable)
    (bindT (queryT (\<lambda>s. approvedContent s (p_ID current) (s_SpaceID sc) v)) (\<lambda>approved.
     thenT (refuseT (p_Visibility current = PluginVisibilitySpace \<and> \<not> s_Admin sc \<and> \<not> approved)
              ErrVersionBaselineUnavailable)
    (thenT (refuseT ((p_Visibility current = PluginVisibilitySystem \<or> p_Visibility current = PluginVisibilityPublic) \<and>
                     \<not> s_Admin sc) ErrNotFound)
    (bindT (now r) (\<lambda>t.
     thenT (recordRelease r current (ap_ExpectedVersionID p) (the (v_DeclaredVersion v)) (o_OperatorID (ap_Operator p)) t)
    (bindT (now r) (\<lambda>t.
     thenT (ensureVisibleDefaultPlacement r t (p_ID current) (p_CategoryID current))
    (bindT (newID r) (\<lambda>auditID.
     bindT (now r) (\<lambda>t.
     thenT (insertAudit auditID t current ''publish'' ((ap_Operator p)\<lparr>o_Remark := None\<rparr>)
              (p_PluginHash current) (p_PluginHash current))
       (returnT current))))))))))))))))))"

section \<open>Frames\<close>

lemma clearRecovered_touches [touches]:
  "TPlugins \<in> X \<Longrightarrow> TSuspensions \<in> X \<Longrightarrow> steps (sameExcept X) (clearRecoveredSuspension p v t)"
  unfolding clearRecoveredSuspension_def
  by (intro touch.steps_rules touch.steps_modify touches) (auto simp: sameExcept_def kept_def)

lemma recordBaseline_touches [touches]: "TBaselines \<in> X \<Longrightarrow> steps (sameExcept X) (recordBaseline r src tgt)"
  unfolding recordBaseline_def
  by (intro touch.steps_rules touch.steps_modify touches) (auto simp: sameExcept_def kept_def)

lemma RefreshConnectorBaselines_touches [touches]:
  "TBaselines \<in> X \<Longrightarrow> steps (sameExcept X) (RefreshConnectorBaselines r src v)"
  unfolding RefreshConnectorBaselines_def
  by (intro touch.steps_rules touch.steps_modify touches) (auto simp: sameExcept_def kept_def)

lemma ackConnectors_touches [touches]: "TBaselines \<in> X \<Longrightarrow> steps (sameExcept X) (ackConnectors src revs)"
  unfolding ackConnectors_def
  by (intro touch.steps_rules touch.steps_modify touches) (auto simp: sameExcept_def kept_def)

lemma approveConnectorRevisions_touches [touches]:
  "TBaselines \<in> X \<Longrightarrow> steps (sameExcept X) (approveConnectorRevisions r src q)"
  unfolding approveConnectorRevisions_def by (intro touch.steps_rules touches)

lemma insertRelease_touches [touches]: "TReleases \<in> X \<Longrightarrow> steps (sameExcept X) (insertRelease pid v l a t)"
  unfolding insertRelease_def
  by (intro touch.steps_rules touch.steps_modify touches) (auto simp: sameExcept_def kept_def)

lemma recordRelease_touches [touches]:
  assumes "TPlugins \<in> X" "TSuspensions \<in> X" "TReleases \<in> X" "TBaselines \<in> X"
  shows "steps (sameExcept X) (recordRelease r p v l a t)"
  unfolding recordRelease_def
  by (intro touch.steps_rules touches assms reads_touches [OF validateReleaseReferences_reads])

lemma relabelDraft_touches [touches]:
  assumes "TPlugins \<in> X" "TVersions \<in> X" "TRefEdges \<in> X" "TRefIndex \<in> X"
  shows "steps (sameExcept X) (relabelDraft r p current label)"
  unfolding relabelDraft_def by (intro touch.steps_rules touches assms)

lemma finishManagedPublish_touches [touches]:
  "TPlugins \<in> X \<Longrightarrow> TPlacements \<in> X \<Longrightarrow> TAudits \<in> X \<Longrightarrow> steps (sameExcept X) (finishManagedPublish r p c)"
  unfolding finishManagedPublish_def by (intro touch.steps_rules touches)

lemma PublishManaged_touches:
  "steps (sameExcept {TPlugins, TVersions, TRefEdges, TRefIndex, TReleases, TBaselines, TSuspensions, TPlacements, TAudits})
     (PublishManaged r sc p)"
  unfolding PublishManaged_def by (intro touch.steps_rules touches) auto

lemma AdoptPublishedBaseline_touches:
  "steps (sameExcept {TPlugins, TReleases, TBaselines, TSuspensions, TPlacements, TAudits}) (AdoptPublishedBaseline r sc p)"
  unfolding AdoptPublishedBaseline_def by (intro touch.steps_rules touches) auto

section \<open>What a recorded release is\<close>

lemma promoteFrozen_keeps [keeps]:
  assumes "\<And>q a t. f (q\<lparr>p_Visibility := a, p_ListingState := PluginListingStatePublished, p_UpdatedAt := t\<rparr>) = f q"
  shows "steps (keepsCol f) (promoteFrozenEmbeddedChildren topID ty fr sp a t)"
  unfolding promoteFrozenEmbeddedChildren_def promoteEmbeddedIDs_def promoteChild_def
  by (intro column.steps_rules keeps assms)

lemma clearRecovered_keeps [keeps]:
  assumes "\<And>q a t. f (q\<lparr>p_Visibility := a, p_ListingState := PluginListingStatePublished, p_UpdatedAt := t\<rparr>) = f q"
  shows "steps (keepsCol f) (clearRecoveredSuspension p v t)"
  unfolding clearRecoveredSuspension_def
  by (intro column.steps_rules keeps assms column.steps_modify) (auto simp: keepsCol_def assms)

lemma stampRelease_fields [simp]:
  "p_ID (stampRelease v k n q) = p_ID q" "p_PublishedVersionID (stampRelease v k n q) = Some v"
  "p_DeletedAt (stampRelease v k n q) = p_DeletedAt q" "p_ListingState (stampRelease v k n q) = p_ListingState q"
  "p_Visibility (stampRelease v k n q) = p_Visibility q" "p_SpaceID (stampRelease v k n q) = p_SpaceID q"
  "p_OwnerUID (stampRelease v k n q) = p_OwnerUID q" "p_IsEmbedded (stampRelease v k n q) = p_IsEmbedded q"
  "p_CurrentVersionID (stampRelease v k n q) = p_CurrentVersionID q"
  by (simp_all add: stampRelease_def)

lemma insertRelease_run:
  assumes "insertRelease pid vid label actor t s = Inr ((), s')"
  shows "\<exists>rel. s' = s\<lparr>releases := releases s @ [rel]\<rparr> \<and> rel_PluginID rel = pid \<and> rel_VersionID rel = vid \<and>
      rel_VersionLabel rel = label"
    and "\<forall>rel \<in> set (releases s). rel_VersionID rel \<noteq> vid \<and> (rel_PluginID rel = pid \<longrightarrow> rel_VersionLabel rel \<noteq> label)"
    and "\<exists>v. versionRow s pid vid = Some v \<and> v_DeclaredVersion v = Some label \<and> v_Artifacts v \<noteq> None"
  using assms by (auto simp: insertRelease_def tx_simps)

lemma releasedAs_Some:
  assumes "releasedAs s pid label = vid" and "vid \<noteq> ''''"
  obtains rel where "rel \<in> set (releases s)" and "rel_PluginID rel = pid" and "rel_VersionID rel = vid"
    and "rel_VersionLabel rel = label"
  using assms by (auto simp: releasedAs_def split: option.splits dest!: find_Some_mem)

definition releaseRow :: "Store \<Rightarrow> string \<Rightarrow> string \<Rightarrow> string \<Rightarrow> bool" where
  "releaseRow s pid vid label \<longleftrightarrow>
     (\<exists>rel \<in> set (releases s). rel_PluginID rel = pid \<and> rel_VersionID rel = vid \<and> rel_VersionLabel rel = label)"

lemma recordRelease_run:
  assumes run: "recordRelease r p vid label actor t s = Inr ((), s')" and "versioned p" and "vid \<noteq> ''''"
  shows "releaseRow s' (p_ID p) vid label"
    and "releases s' = releases s \<or> (\<exists>rel. releases s' = releases s @ [rel]) \<and>
      (\<forall>rel \<in> set (releases s). rel_VersionID rel \<noteq> vid \<and> (rel_PluginID rel = p_ID p \<longrightarrow> rel_VersionLabel rel \<noteq> label))"
    and "\<forall>q \<in> set (plugins s'). p_ID q = p_ID p \<and> p_DeletedAt q = None \<longrightarrow> p_PublishedVersionID q = Some vid"
proof -
  let ?f = "\<lambda>q. (p_ID q, p_PublishedVersionID q, p_DeletedAt q)"
  from run assms(2) obtain s1 s2 k n where
      ok: "releasedAs s (p_ID p) label = '''' \<or> releasedAs s (p_ID p) label = vid"
    and ins: "whenT (releasedAs s (p_ID p) label = '''') (insertRelease (p_ID p) vid label actor t) s = Inr ((), s1)"
    and base: "whenT (p_Type p = PluginTypeExpert) (RefreshConnectorBaselines r (p_ID p) vid) s1 = Inr ((), s2)"
    and clr: "clearRecoveredSuspension p vid t (s2\<lparr>plugins := updateWhere (\<lambda>q. p_ID q = p_ID p \<and> p_DeletedAt q = None)
        (stampRelease vid k n) (plugins s2)\<rparr>) = Inr ((), s')"
    unfolding recordRelease_def
    by (auto simp: tx_simps split: option.splits if_splits dest!: readsD [OF validateReleaseReferences_reads])
  define s3 where "s3 = s2\<lparr>plugins := updateWhere (\<lambda>q. p_ID q = p_ID p \<and> p_DeletedAt q = None)
        (stampRelease vid k n) (plugins s2)\<rparr>"
  have "releases s2 = releases s1"
    using stepsD [OF touch.steps_when [OF RefreshConnectorBaselines_touches [of "{TBaselines}"]] base]
    by (auto dest: sameExcept_tables)
  moreover have "releases s' = releases s3"
    using stepsD [OF clearRecovered_touches [of "{TPlugins, TSuspensions}"] clr [folded s3_def]]
    by (auto dest: sameExcept_tables)
  ultimately have rel: "releases s' = releases s1" by (simp add: s3_def)
  show "releaseRow s' (p_ID p) vid label"
  proof (cases "releasedAs s (p_ID p) label = ''''")
    case True
    with ins insertRelease_run(1) [of "p_ID p" vid label actor t s s1] rel show ?thesis
      by (auto simp: whenT_Inr releaseRow_def)
  next
    case False
    with ok assms(3) obtain x where "x \<in> set (releases s)" "rel_PluginID x = p_ID p" "rel_VersionID x = vid"
        "rel_VersionLabel x = label"
      by (metis releasedAs_Some)
    with False ins rel show ?thesis by (auto simp: whenT_Inr releaseRow_def)
  qed
  show "releases s' = releases s \<or> (\<exists>rel. releases s' = releases s @ [rel]) \<and>
      (\<forall>rel \<in> set (releases s). rel_VersionID rel \<noteq> vid \<and> (rel_PluginID rel = p_ID p \<longrightarrow> rel_VersionLabel rel \<noteq> label))"
    using ins insertRelease_run(1,2) [of "p_ID p" vid label actor t s s1] rel
    by (cases "releasedAs s (p_ID p) label = ''''") (auto simp: whenT_Inr)
  show "\<forall>q \<in> set (plugins s'). p_ID q = p_ID p \<and> p_DeletedAt q = None \<longrightarrow> p_PublishedVersionID q = Some vid"
  proof (intro ballI impI)
    fix q assume q: "q \<in> set (plugins s')" "p_ID q = p_ID p \<and> p_DeletedAt q = None"
    have "keepsCol ?f s3 s'" by (rule stepsD [OF clearRecovered_keeps clr [folded s3_def]]) simp
    then obtain x where x: "x \<in> set (plugins s3)" "?f x = ?f q" using q(1) by (rule keepsCol_row)
    from x(1) have "x \<in> set (updateWhere (\<lambda>q. p_ID q = p_ID p \<and> p_DeletedAt q = None) (stampRelease vid k n) (plugins s2))"
      by (simp add: s3_def)
    then show "p_PublishedVersionID q = Some vid"
      by (cases rule: updateWhere_memE) (use x(2) q(2) in auto)
  qed
qed

lemma snapshotVersion_run:
  assumes run: "snapshotVersion r t p rels cl who idx s = Inr (vid, s')" and "versioned p"
  obtains v where "versions s' = versions s @ [v]" and "v_ID v = vid" and "v_PluginID v = p_ID p"
    and "v_DeclaredVersion v = Some (declaredLabel (p_CurrentVersion p))" and "v_Manifest v = p_Manifest p"
    and "v_Package v = p_Package p" and "v_AttachmentKeys v = p_AttachmentKeys p"
    and "v_ManifestHash v = p_ManifestHash p" and "v_PluginHash v = p_PluginHash p"
    and "v_Relations v = EncodeSnapshotRelations rels" and "v_Artifacts v \<noteq> None"
    and "\<forall>w \<in> set (versions s). v_ID w \<noteq> vid" and "vid = idAt r (idCount s)"
    and "reviews s' = reviews s" and "releases s' = releases s"
proof -
  have touch: "reviews s' = reviews s" "releases s' = releases s"
    using stepsD [OF snapshotVersion_touches [of "{TPlugins, TVersions, TRefEdges, TRefIndex}"] run]
    by (auto dest: sameExcept_tables)
  have idx: "versions u' = versions u" if "whenT b (writeReferenceIndex r src i xs) u = Inr ((), u')" for b src i xs u u'
    using stepsD [OF touch.steps_when [OF writeReferenceIndex_touches [of "{TRefEdges, TRefIndex}"]] that]
    by (auto dest: sameExcept_tables)
  define row where "row a = \<lparr>v_ID = idAt r (idCount s), v_PluginID = p_ID p,
      v_Version = itoaNat (Suc (length (filter (\<lambda>v. v_PluginID v = p_ID p) (versions s)))),
      v_DeclaredVersion = Some (declaredLabel (p_CurrentVersion p)), v_Manifest = p_Manifest p, v_Package = p_Package p,
      v_AttachmentKeys = p_AttachmentKeys p, v_ManifestHash = p_ManifestHash p, v_PluginHash = p_PluginHash p,
      v_Relations = EncodeSnapshotRelations rels, v_Changelog = cl, v_CreatedBy = who, v_CreatedAt = t,
      v_SnapshotSchemaVersion = Some 1, v_Artifacts = Some a\<rparr>" for a
  from run assms(2) obtain a u where fresh: "\<forall>v \<in> set (versions s). v_ID v \<noteq> vid" and vid: "vid = idAt r (idCount s)"
    and u: "whenT idx (writeReferenceIndex r (p_ID p) vid rels)
       (s\<lparr>idCount := Suc (idCount s), versions := versions s @ [row a]\<rparr>) = Inr ((), u)" and s': "versions s' = versions u"
    by (auto simp: snapshotVersion_def versioned_def row_def tx_simps simp del: whenT_Inr)
  have "versions s' = versions s @ [row a]" using idx [OF u] s' by simp
  from that [OF this] fresh vid touch show thesis by (simp add: row_def)
qed

lemma finishManagedPublish_run:
  assumes "finishManagedPublish r p c s = Inr (out, s')"
  shows "out = c\<lparr>p_ListingState := PluginListingStatePublished\<rparr>"
    and "keepsCol (\<lambda>q. (p_ID q, p_PublishedVersionID q, p_DeletedAt q)) s s'"
    and "versions s' = versions s" and "releases s' = releases s" and "reviews s' = reviews s"
    and "marketPlaced s' (p_ID c)"
proof -
  show "out = c\<lparr>p_ListingState := PluginListingStatePublished\<rparr>"
    using assms by (auto simp: finishManagedPublish_def tx_simps)
  have "steps (keepsCol (\<lambda>q. (p_ID q, p_PublishedVersionID q, p_DeletedAt q))) (finishManagedPublish r p c)"
    unfolding finishManagedPublish_def
    by (intro column.steps_rules keeps touches_keeps [OF now_touches [of "{}"]] touches_keeps [OF newID_touches [of "{}"]]
        touches_keeps [OF ensurePlacement_touches [of "{TPlacements}"]] touches_keeps [OF insertAudit_touches [of "{TAudits}"]])
      (auto simp: markPublished_def)
  from stepsD [OF this assms] show "keepsCol (\<lambda>q. (p_ID q, p_PublishedVersionID q, p_DeletedAt q)) s s'" .
  show "versions s' = versions s" "releases s' = releases s" "reviews s' = reviews s"
    using stepsD [OF finishManagedPublish_touches [of "{TPlugins, TPlacements, TAudits}"] assms]
    by (auto dest: sameExcept_tables)
  from assms obtain u u' t where "ensureVisibleDefaultPlacement r t (p_ID c) (p_CategoryID c) u = Inr ((), u')"
      "placements s' = placements u'"
    by (auto simp: finishManagedPublish_def tx_simps)
  with ensurePlacement_placed show "marketPlaced s' (p_ID c)" by (fastforce simp: marketPlaced_def)
qed

lemma versionRow_Some: "versionRow s pid vid = Some v \<Longrightarrow> v \<in> set (versions s) \<and> v_PluginID v = pid \<and> v_ID v = vid"
  by (auto simp: versionRow_def dest: find_Some_mem)

lemma Encode_idem [simp]: "EncodeSnapshotRelations (EncodeSnapshotRelations rels) = EncodeSnapshotRelations rels"
  by (auto simp: EncodeSnapshotRelations_def split: option.splits)

text \<open>Two versions hold the same content: documents, files, hashes and relations.\<close>

definition sameContent :: "PluginVersion \<Rightarrow> PluginVersion \<Rightarrow> bool" where
  "sameContent v w \<longleftrightarrow> v_Manifest v = v_Manifest w \<and> v_Package v = v_Package w \<and> v_AttachmentKeys v = v_AttachmentKeys w \<and>
     v_ManifestHash v = v_ManifestHash w \<and> v_PluginHash v = v_PluginHash w \<and>
     EncodeSnapshotRelations (v_Relations v) = EncodeSnapshotRelations (v_Relations w)"

lemma relabelDraft_run:
  assumes run: "relabelDraft r p current label s = Inr (out, s')" and "versioned current" and "label \<noteq> ''''"
  obtains draft v where "versionRow s (p_ID current) (pp_ExpectedVersionID p) = Some draft"
    and "versions s' = versions s @ [v]" and "sameContent v draft" and "v_PluginID v = p_ID current"
    and "out = current\<lparr>p_CurrentVersionID := Some (v_ID v), p_CurrentVersion := Some label\<rparr>"
    and "v_ID v = idAt r (idCount s)" and "reviews s' = reviews s"
proof -
  from run obtain draft t vid s1 where d: "versionRow s (p_ID current) (pp_ExpectedVersionID p) = Some draft"
    and s1: "s1 = s\<lparr>tickCount := Suc (tickCount s)\<rparr>"
    and snap: "snapshotVersion r t (current\<lparr>p_Manifest := v_Manifest draft, p_Package := v_Package draft,
          p_AttachmentKeys := v_AttachmentKeys draft, p_ManifestHash := v_ManifestHash draft,
          p_PluginHash := v_PluginHash draft, p_CurrentVersion := Some label\<rparr>)
       (v_Relations draft) (v_Changelog draft) (o_OperatorID (pp_Operator p)) (references r) s1 = Inr (vid, s')"
    and out: "out = current\<lparr>p_CurrentVersionID := Some vid, p_CurrentVersion := Some label\<rparr>"
    by (auto simp: relabelDraft_def tx_simps)
  from snap show thesis
  proof (rule snapshotVersion_run)
    show "versioned (current\<lparr>p_Manifest := v_Manifest draft, p_Package := v_Package draft,
          p_AttachmentKeys := v_AttachmentKeys draft, p_ManifestHash := v_ManifestHash draft,
          p_PluginHash := v_PluginHash draft, p_CurrentVersion := Some label\<rparr>)"
      using assms(2) by (simp add: versioned_def)
  qed (rule that [OF d]; simp add: s1 out sameContent_def)
qed

lemma PublishManaged_run:
  assumes "PublishManaged r sc p s = Inr (out, s')"
  obtains current cur s1 t s2 where "find (ownedRow sc (pp_PluginID p)) (plugins s) = Some current"
    and "versioned current" and "s_Admin sc \<or> p_Visibility current = PluginVisibilityPrivate"
    and "p_CurrentVersionID current = Some (pp_ExpectedVersionID p)" and "p_CurrentVersion current \<noteq> None"
    and "\<not> pendingFor s (p_ID current)"
    and "(if trimSpace (pp_Version p) \<noteq> '''' \<and> Some (trimSpace (pp_Version p)) \<noteq> p_CurrentVersion current
          then relabelDraft r p current (trimSpace (pp_Version p)) else returnT current) s = Inr (cur, s1)"
    and "recordRelease r cur (the (p_CurrentVersionID cur)) (the (p_CurrentVersion cur)) (o_OperatorID (pp_Operator p)) t
       (s1\<lparr>tickCount := Suc (tickCount s1)\<rparr>) = Inr ((), s2)"
    and "finishManagedPublish r p cur s2 = Inr (out, s')"
proof -
  from assms obtain current label cur s1 s2 where "find (ownedRow sc (pp_PluginID p)) (plugins s) = Some current"
    "versioned current" "s_Admin sc \<or> p_Visibility current = PluginVisibilityPrivate"
    "p_CurrentVersionID current = Some (pp_ExpectedVersionID p)" "p_CurrentVersion current = Some label"
    "\<not> pendingFor s (p_ID current)"
    "(if trimSpace (pp_Version p) \<noteq> '''' \<and> trimSpace (pp_Version p) \<noteq> label
          then relabelDraft r p current (trimSpace (pp_Version p)) else returnT current) s = Inr (cur, s1)"
    "recordRelease r cur (the (p_CurrentVersionID cur)) (the (p_CurrentVersion cur)) (o_OperatorID (pp_Operator p))
       (nowAt r (tickCount s1)) (s1\<lparr>tickCount := Suc (tickCount s1)\<rparr>) = Inr ((), s2)"
    "finishManagedPublish r p cur s2 = Inr (out, s')"
    by (auto simp: PublishManaged_def bindT_Inr thenT_Inr refuseT_Inr queryT_Inr someT_Inr getOwnedForUpdate_Inr now_Inr)
  then show thesis using that by (auto split: if_splits)
qed

lemma PublishManaged_version:
  assumes run: "(if label \<noteq> '''' \<and> Some label \<noteq> p_CurrentVersion current
          then relabelDraft r p current label else returnT current) s = Inr (cur, s1)"
    and rec: "recordRelease r cur (the (p_CurrentVersionID cur)) (the (p_CurrentVersion cur)) op t s1' = Inr ((), s2)"
    and s1': "versions s1' = versions s1" and "versioned current" "p_CurrentVersion current \<noteq> None"
    and "p_CurrentVersionID current = Some (pp_ExpectedVersionID p)" and "\<And>n. idAt r n \<noteq> ''''"
    and "pp_ExpectedVersionID p \<noteq> ''''"
  obtains draft v where "versionRow s (p_ID current) (pp_ExpectedVersionID p) = Some draft" and "v \<in> set (versions s1)"
    and "v_PluginID v = p_ID current" and "sameContent v draft" and "p_CurrentVersionID cur = Some (v_ID v)"
    and "v_ID v \<noteq> ''''" and "p_ID cur = p_ID current" and "versioned cur" and "p_Visibility cur = p_Visibility current"
    and "p_CurrentVersion cur = (if label = '''' then p_CurrentVersion current else Some label)" and "reviews s1 = reviews s"
proof (cases "label \<noteq> '''' \<and> Some label \<noteq> p_CurrentVersion current")
  case True
  then have "relabelDraft r p current label s = Inr (cur, s1)" using run by simp
  then obtain draft v where d: "versionRow s (p_ID current) (pp_ExpectedVersionID p) = Some draft"
    "versions s1 = versions s @ [v]" "sameContent v draft" "v_PluginID v = p_ID current"
    "cur = current\<lparr>p_CurrentVersionID := Some (v_ID v), p_CurrentVersion := Some label\<rparr>"
    "v_ID v = idAt r (idCount s)" "reviews s1 = reviews s"
    using assms(4) True by (elim relabelDraft_run) auto
  show thesis using that [OF d(1) _ d(4,3)] True d assms(4,7) by (simp add: versioned_def)
next
  case False
  then have cur: "cur = current" "s1 = s" using run by (auto simp: returnT_def)
  from rec cur assms(4,6) obtain draft where "versionRow s1' (p_ID current) (pp_ExpectedVersionID p) = Some draft"
    by (auto simp: recordRelease_def validateReleaseReferences_def versionRow_def tx_simps)
  then have d: "versionRow s (p_ID current) (pp_ExpectedVersionID p) = Some draft"
    using s1' cur by (simp add: versionRow_def)
  with versionRow_Some [OF d] show thesis
    using that [OF d, of draft] cur False assms by (auto simp: sameContent_def)
qed

lemma PublishManaged_released:
  assumes run: "PublishManaged r sc p s = Inr (out, s')"
    and ids: "\<And>n. idAt r n \<noteq> ''''" and "pp_ExpectedVersionID p \<noteq> ''''"
  shows "\<exists>draft v label. versionRow s (pp_PluginID p) (pp_ExpectedVersionID p) = Some draft \<and>
    v \<in> set (versions s') \<and> v_PluginID v = pp_PluginID p \<and> sameContent v draft \<and>
    p_CurrentVersionID out = Some (v_ID v) \<and> p_CurrentVersion out = Some label \<and>
    (trimSpace (pp_Version p) = '''' \<or> label = trimSpace (pp_Version p)) \<and>
    releaseRow s' (pp_PluginID p) (v_ID v) label \<and>
    (\<forall>q \<in> set (plugins s'). p_ID q = pp_PluginID p \<and> p_DeletedAt q = None \<longrightarrow> p_PublishedVersionID q = Some (v_ID v)) \<and>
    p_ListingState out = PluginListingStatePublished \<and> marketPlaced s' (pp_PluginID p) \<and>
    \<not> pendingFor s (pp_PluginID p) \<and> reviews s' = reviews s \<and>
    (s_Admin sc \<or> p_Visibility out = PluginVisibilityPrivate)"
proof -
  let ?label = "trimSpace (pp_Version p)"
  from run obtain current cur s1 t s2 where own: "find (ownedRow sc (pp_PluginID p)) (plugins s) = Some current"
    and ver: "versioned current" and priv: "s_Admin sc \<or> p_Visibility current = PluginVisibilityPrivate"
    and cvid: "p_CurrentVersionID current = Some (pp_ExpectedVersionID p)" and cv: "p_CurrentVersion current \<noteq> None"
    and pend: "\<not> pendingFor s (p_ID current)"
    and pick: "(if ?label \<noteq> '''' \<and> Some ?label \<noteq> p_CurrentVersion current
          then relabelDraft r p current ?label else returnT current) s = Inr (cur, s1)"
    and rec: "recordRelease r cur (the (p_CurrentVersionID cur)) (the (p_CurrentVersion cur)) (o_OperatorID (pp_Operator p)) t
       (s1\<lparr>tickCount := Suc (tickCount s1)\<rparr>) = Inr ((), s2)"
    and fin: "finishManagedPublish r p cur s2 = Inr (out, s')"
    by (rule PublishManaged_run)
  have pid: "p_ID current = pp_PluginID p" using own by (auto dest: find_Some_mem simp: ownedRow_def)
  from PublishManaged_version [OF pick rec _ ver cv cvid ids assms(3)] obtain draft v where
      d: "versionRow s (p_ID current) (pp_ExpectedVersionID p) = Some draft" "v \<in> set (versions s1)"
        "v_PluginID v = p_ID current" "sameContent v draft" "p_CurrentVersionID cur = Some (v_ID v)" "v_ID v \<noteq> ''''"
        "p_ID cur = p_ID current" "versioned cur" "p_Visibility cur = p_Visibility current"
        "p_CurrentVersion cur = (if ?label = '''' then p_CurrentVersion current else Some ?label)" "reviews s1 = reviews s"
    by auto
  note fin' = finishManagedPublish_run [OF fin]
  have same: "versions s2 = versions s1" "reviews s2 = reviews s1"
    using stepsD [OF recordRelease_touches [of "{TPlugins, TSuspensions, TReleases, TBaselines}"] rec]
    by (auto dest: sameExcept_tables)
  note r1 = recordRelease_run [OF rec d(8)]
  have rel: "releaseRow s2 (p_ID cur) (v_ID v) (the (p_CurrentVersion cur))"
    and ptr: "\<forall>q \<in> set (plugins s2). p_ID q = p_ID cur \<and> p_DeletedAt q = None \<longrightarrow> p_PublishedVersionID q = Some (v_ID v)"
    using r1(1,3) d(5,6) by simp_all
  have "\<forall>q \<in> set (plugins s'). p_ID q = pp_PluginID p \<and> p_DeletedAt q = None \<longrightarrow> p_PublishedVersionID q = Some (v_ID v)"
    using ptr keepsCol_row [OF fin'(2)] d(7) pid by (metis (mono_tags, lifting) Pair_inject)
  moreover obtain label where "p_CurrentVersion cur = Some label" using d(10) cv by (cases "?label = ''''") auto
  moreover have "releaseRow s' (pp_PluginID p) (v_ID v) (the (p_CurrentVersion cur))"
    using rel fin'(4) d(7) pid by (simp add: releaseRow_def)
  ultimately show ?thesis using d fin' same pend pid priv
    by - (rule exI [where x = draft], rule exI [where x = v], rule exI [where x = label], auto split: if_splits)
qed

text \<open>C6: a managed publication releases exactly the confirmed draft. The version it releases has the
  documents, files, hashes and relations of the version the caller named, whether or not it
  was relabelled; it is recorded under the requested label, the plugin row points at it,
  the plugin is placed in the market, and no request was pending. Only a marketplace
  administrator can publish anything but a private plugin this way.\<close>

theorem PublishManaged_releases_confirmed:
  assumes run: "PublishManaged r sc p s = Inr (out, s')"
    and ids: "\<And>n. idAt r n \<noteq> ''''" and "pp_ExpectedVersionID p \<noteq> ''''"
  shows "\<exists>draft v label. versionRow s (pp_PluginID p) (pp_ExpectedVersionID p) = Some draft \<and>
    v \<in> set (versions s') \<and> v_PluginID v = pp_PluginID p \<and> sameContent v draft \<and>
    p_CurrentVersionID out = Some (v_ID v) \<and> p_CurrentVersion out = Some label \<and>
    (trimSpace (pp_Version p) = '''' \<or> label = trimSpace (pp_Version p)) \<and>
    releaseRow s' (pp_PluginID p) (v_ID v) label \<and>
    (\<forall>q \<in> set (plugins s'). p_ID q = pp_PluginID p \<and> p_DeletedAt q = None \<longrightarrow> p_PublishedVersionID q = Some (v_ID v)) \<and>
    p_ListingState out = PluginListingStatePublished \<and> marketPlaced s' (pp_PluginID p) \<and>
    \<not> pendingFor s (pp_PluginID p) \<and> reviews s' = reviews s \<and>
    (s_Admin sc \<or> p_Visibility out = PluginVisibilityPrivate)"
  using assms by (rule PublishManaged_released)

definition managedStore :: Store where
  "managedStore = emptyStore\<lparr>plugins := [(samplePlugin ''k'' PluginTypeSkill ''u1'')\<lparr>
       p_Visibility := PluginVisibilityPrivate, p_ListingState := PluginListingStateDraft,
       p_CurrentVersionID := Some ''v1'', p_CurrentVersion := Some ''1.0.0''\<rparr>],
     versions := [(sampleVersion ''k'' ''v1'' [])\<lparr>v_Package := Some JNull\<rparr>]\<rparr>"

definition managedPublish :: PublishParams where
  "managedPublish = \<lparr>pp_ExpectedDraftRevision = '''', pp_Version = ''1.1.0'', pp_ExpectedVersionID = ''v1'',
     pp_PluginID = ''k'', pp_Operator = sampleOperator\<rparr>"

definition managedRepo :: Repo where
  "managedRepo = sampleRepo\<lparr>versionManagement := True, idAt := (\<lambda>n. replicate (Suc n) CHR ''i'')\<rparr>"

theorem PublishManaged_releases_confirmed_witness:
  "\<exists>out s' v. PublishManaged managedRepo sampleOwner managedPublish managedStore = Inr (out, s') \<and>
     v \<in> set (versions s') \<and> releaseRow s' ''k'' (v_ID v) ''1.1.0''"
proof -
  let ?run = "PublishManaged managedRepo sampleOwner managedPublish managedStore"
  have "\<not> isl ?run" by code_simp
  then obtain out s' where run: "?run = Inr (out, s')" by (auto dest: tx_runs)
  moreover have "idAt managedRepo n \<noteq> ''''" for n by (simp add: managedRepo_def)
  moreover have "pp_ExpectedVersionID managedPublish \<noteq> ''''" by code_simp
  moreover have "trimSpace (pp_Version managedPublish) = ''1.1.0''" by code_simp
  moreover have "pp_PluginID managedPublish = ''k''" by code_simp
  ultimately show ?thesis using PublishManaged_releases_confirmed [OF run] by fastforce
qed

end
