(* ===== verification/Reviews.thy ===== *)
theory Reviews
  imports Releases
begin

text \<open>
  The review queue (\<open>review.go\<close>, \<open>visibility_group.go\<close>, \<open>review_policy.go\<close>): submission of a
  request with its frozen snapshot, rejection, withdrawal, card-action receipts, the reads
  of the queue, and the auto-approval policy of a Space. Approval is in the theory
  \<open>Approval\<close>.

  A Go zero time is the time 0.
\<close>

section \<open>Submission\<close>

record FrozenSnapshot =
  fs_Manifest :: raw
  fs_Package :: raw
  fs_AttachmentKeys :: raw
  fs_Relations :: "PluginRelation list"
  fs_ManifestHash :: string
  fs_PluginHash :: string
  fs_DeclaredContent :: bool
  fs_ExpectedDraftRevision :: string

definition publishedVersionLabels :: "Store \<Rightarrow> string \<Rightarrow> Plugin \<Rightarrow> string list" where
  "publishedVersionLabels s pid current =
     map rr_Version (filter (\<lambda>q. rr_PluginID q = pid \<and> rr_Status q = ReviewStatusApproved \<and> rr_DeletedAt q = None) (reviews s)) @
     (case p_CurrentVersion current of
        None \<Rightarrow> []
      | Some v \<Rightarrow> if p_ListingState current \<noteq> PluginListingStateDraft \<and> v \<noteq> '''' then [v] else [])"

text \<open>Ids of submitted edges: a live edge with the same target and type keeps its id.\<close>

definition submittedEdge :: "Repo \<Rightarrow> string \<Rightarrow> PluginRelation \<Rightarrow> PluginRelation stx" where
  "submittedEdge r pid e =
     bindT (if r_ID e = '''' then
              bindT (queryT (\<lambda>s. find (\<lambda>x. r_SourcePluginID x = pid \<and> r_TargetPluginID x = r_TargetPluginID e \<and>
                  r_Type x = r_Type e \<and> r_DeletedAt x = None) (relations s))) (\<lambda>known.
                case known of
                  None \<Rightarrow> newID r
                | Some x \<Rightarrow> if r_ID x = '''' then newID r else returnT (r_ID x))
            else returnT (r_ID e))
       (\<lambda>i. returnT (e\<lparr>r_ID := i, r_SourcePluginID := pid\<rparr>))"

definition submittedRelations :: "Repo \<Rightarrow> Plugin \<Rightarrow> PluginRelation list \<Rightarrow> PluginRelation list stx" where
  "submittedRelations r current rels =
     (if \<not> references r then returnT rels
      else bindT (mapT (submittedEdge r (p_ID current)) rels) (\<lambda>edges.
        thenT (bindT (validateReferenceTree current current edges True [] 0 []) (\<lambda>_. returnT ())) (returnT edges)))"

definition managed :: "Repo \<Rightarrow> Plugin \<Rightarrow> bool" where
  "managed r p \<longleftrightarrow> versionManagement r \<and> versioned p"

text \<open>The gates of a submission, on the locked row.\<close>

definition admitSubmission :: "Repo \<Rightarrow> Plugin \<Rightarrow> PluginReviewRequest \<Rightarrow> FrozenSnapshot \<Rightarrow> unit stx" where
  "admitSubmission r current req snap =
     thenT (refuseT (fs_ExpectedDraftRevision snap \<noteq> '''' \<and>
                     PluginDraftRevision r current \<noteq> fs_ExpectedDraftRevision snap) ErrConflict)
    (thenT (refuseT (p_Visibility current \<noteq> PluginVisibilitySpace \<and>
                     \<not> (p_Visibility current = PluginVisibilityPrivate \<and>
                        p_ListingState current = PluginListingStatePublished)) ErrConflict)
    (thenT (refuseT (\<not> fs_DeclaredContent snap \<and> p_ListingState current = PluginListingStatePublished \<and>
                     \<not> managed r current) ErrReviewContentRequired)
    (thenT (refuseT (\<not> managed r current \<and>
                     (case p_CurrentVersion current of None \<Rightarrow> False | Some v \<Rightarrow> \<not> VersionNotRegressed v (rr_Version req)))
              ErrVersionRegressed)
    (bindT (queryT (\<lambda>s. if managed r current then managedLabels s (rr_PluginID req)
                        else publishedVersionLabels s (rr_PluginID req) current)) (\<lambda>published.
     thenT (refuseT (rr_Version req \<in> set published) ErrLabelTaken)
       (refuseT (managed r current \<and> (\<exists>label \<in> set published. \<not> VersionAdvanced label (rr_Version req)))
          ErrVersionRegressed))))))"

definition requestRow ::
  "string \<Rightarrow> time \<Rightarrow> PluginReviewRequest \<Rightarrow> ReviewKind \<Rightarrow> FrozenSnapshot \<Rightarrow> PluginRelation list \<Rightarrow> PluginReviewRequest" where
  "requestRow i t req kind snap rels =
     \<lparr>rr_ID = i, rr_PluginID = rr_PluginID req, rr_SpaceID = rr_SpaceID req,
      rr_TargetScope = (if rr_TargetScope req = '''' then ''space'' else rr_TargetScope req),
      rr_Status = ReviewStatusPending, rr_Kind = kind, rr_Version = rr_Version req,
      rr_Changelog = (if rr_Changelog req = Some '''' then None else rr_Changelog req),
      rr_Manifest = fs_Manifest snap, rr_Package = fs_Package snap, rr_Relations = EncodeSnapshotRelations rels,
      rr_AttachmentKeys = fs_AttachmentKeys snap, rr_ManifestHash = fs_ManifestHash snap,
      rr_PluginHash = fs_PluginHash snap, rr_ApplicantUID = rr_ApplicantUID req, rr_ApplicantName = rr_ApplicantName req,
      rr_ReviewerUID = None, rr_ReviewerName = None, rr_Reason = None, rr_DecisionSource = None,
      rr_SubmittedAt = t, rr_ReviewedAt = None, rr_CreatedAt = t, rr_UpdatedAt = t, rr_DeletedAt = None\<rparr>"

text \<open>The INSERT, with the primary key and the unique index on the pending plugin id.\<close>

definition insertRequest :: "RepoError \<Rightarrow> PluginReviewRequest \<Rightarrow> unit stx" where
  "insertRequest onDuplicate row =
     bindT (queryT (\<lambda>s. (\<exists>q \<in> set (reviews s). rr_ID q = rr_ID row) \<or> pendingReview row \<and> pendingFor s (rr_PluginID row))) (\<lambda>dup.
     thenT (refuseT dup onDuplicate)
       (modifyT (\<lambda>s. s\<lparr>reviews := reviews s @ [row]\<rparr>)))"

definition insertReviewInTx :: "Repo \<Rightarrow> Scope \<Rightarrow> PluginReviewRequest \<Rightarrow> FrozenSnapshot \<Rightarrow> PluginReviewRequest stx" where
  "insertReviewInTx r sc req snap =
     bindT (getOwnedForUpdate sc (rr_PluginID req)) (\<lambda>current.
     thenT (admitSubmission r current req snap)
    (bindT (queryT (\<lambda>s. pendingFor s (rr_PluginID req))) (\<lambda>pending.
     thenT (refuseT pending ErrReviewPending)
    (bindT (submittedRelations r current (fs_Relations snap)) (\<lambda>rels.
     bindT (now r) (\<lambda>t.
     bindT (newID r) (\<lambda>i.
     let row = requestRow i t req
       (if p_ListingState current \<noteq> PluginListingStatePublished then ReviewKindFirst else ReviewKindUpgrade) snap rels in
     thenT (insertRequest ErrReviewPending row) (returnT row))))))))"

definition InsertReviewRequest :: "Repo \<Rightarrow> Scope \<Rightarrow> PluginReviewRequest \<Rightarrow> FrozenSnapshot \<Rightarrow> PluginReviewRequest stx" where
  "InsertReviewRequest r sc req snap = insertReviewInTx r sc req snap"

section \<open>Card-action receipts\<close>

text \<open>A stored response is a JSON text; a text that is not valid JSON is \<open>None\<close>. A receipt may name a
  request that does not exist.\<close>

definition insertCardActionReceipt :: "CardActionReceipt \<Rightarrow> time \<Rightarrow> unit stx" where
  "insertCardActionReceipt rec t =
     bindT (queryT (\<lambda>s. \<exists>c \<in> set (receipts s). cr_EventID c = cr_EventID rec)) (\<lambda>dup.
     thenT (refuseT dup ErrConflict)
       (modifyT (\<lambda>s. s\<lparr>receipts := receipts s @
          [rec\<lparr>cr_CreatedAt := (if cr_CreatedAt rec = 0 then t else cr_CreatedAt rec)\<rparr>]\<rparr>)))"

definition InsertCardActionReceipt :: "Repo \<Rightarrow> CardActionReceipt \<Rightarrow> unit stx" where
  "InsertCardActionReceipt r rec = bindT (now r) (insertCardActionReceipt rec)"

definition GetCardActionReceipt :: "Store \<Rightarrow> string \<Rightarrow> CardActionReceipt option" where
  "GetCardActionReceipt s eventID = find (\<lambda>c. cr_EventID c = eventID) (receipts s)"

text \<open>\<open>errors.Is(err, ErrConflict)\<close> on the insert.\<close>

definition mapError :: "RepoError \<Rightarrow> RepoError \<Rightarrow> 'a stx \<Rightarrow> 'a stx" where
  "mapError e e' m = (\<lambda>s. case m s of Inl x \<Rightarrow> Inl (if x = e then e' else x) | Inr y \<Rightarrow> Inr y)"

definition claimCardActionReceipt ::
  "CardActionReceipt option \<Rightarrow> string \<Rightarrow> string \<Rightarrow> ReviewDecisionSource option \<Rightarrow> time \<Rightarrow> unit stx" where
  "claimCardActionReceipt rec reviewID decision source t =
     (case rec of
        None \<Rightarrow> returnT ()
      | Some c \<Rightarrow>
          thenT (refuseT (source \<noteq> Some ReviewDecisionSourceIM \<or> cr_EventID c = '''' \<or> cr_ReviewID c \<noteq> reviewID \<or>
                          cr_Decision c \<noteq> decision \<or> cr_StoredResponse c = None) ErrReceiptBinding)
            (mapError ErrConflict ErrCardActionReplayed (insertCardActionReceipt c t)))"

section \<open>Decisions\<close>

definition classifyMissingPending :: "Store \<Rightarrow> string \<Rightarrow> string \<Rightarrow> RepoError" where
  "classifyMissingPending s reviewID spaceID =
     (case find (\<lambda>q. rr_ID q = reviewID \<and> rr_SpaceID q = spaceID \<and> rr_DeletedAt q = None) (reviews s) of
        None \<Rightarrow> ErrNotFound
      | Some q \<Rightarrow> if rr_Status q = ReviewStatusPending then ErrNotFound else ErrConflict)"

definition openRequest :: "string \<Rightarrow> string \<Rightarrow> PluginReviewRequest \<Rightarrow> bool" where
  "openRequest reviewID spaceID q \<longleftrightarrow> rr_ID q = reviewID \<and> pendingReview q \<and> rr_SpaceID q = spaceID"

definition lockRequest :: "string \<Rightarrow> string \<Rightarrow> PluginReviewRequest stx" where
  "lockRequest reviewID spaceID =
     bindT (queryT (\<lambda>s. (find (openRequest reviewID spaceID) (reviews s), classifyMissingPending s reviewID spaceID)))
       (\<lambda>(row, e). someT e row)"

record visibilityGroupMember =
  gm_ReviewID :: string
  gm_PluginID :: string

definition visibilityGroup ::
  "Store \<Rightarrow> string \<Rightarrow> (string \<times> visibilityGroupMember list \<times> VisibilityPlan) option" where
  "visibilityGroup s reviewID =
     map_option (\<lambda>g. (g_RootReviewID g,
       map (\<lambda>m. \<lparr>gm_ReviewID = g_ReviewID m, gm_PluginID = g_PluginID m\<rparr>)
         (sort_key g_PluginID (filter (\<lambda>m. g_RootReviewID m = g_RootReviewID g \<and>
            (\<exists>q \<in> set (reviews s). rr_ID q = g_ReviewID m)) (groups s))), g_Plan g))
       (find (\<lambda>g. g_ReviewID g = reviewID) (groups s))"

definition groupMembers :: "Store \<Rightarrow> string \<Rightarrow> visibilityGroupMember list" where
  "groupMembers s reviewID = (case visibilityGroup s reviewID of None \<Rightarrow> [] | Some (_, ms, _) \<Rightarrow> ms)"

definition markFinished ::
  "ReviewStatus \<Rightarrow> string \<Rightarrow> string \<Rightarrow> string \<Rightarrow> time \<Rightarrow> PluginReviewRequest \<Rightarrow> PluginReviewRequest" where
  "markFinished status uid name reason t q =
     q\<lparr>rr_Status := status, rr_ReviewerUID := Some uid, rr_ReviewerName := Some name, rr_Reason := Some reason,
       rr_ReviewedAt := Some t, rr_UpdatedAt := t\<rparr>"

definition finishVisibilityGroup ::
  "string \<Rightarrow> string \<Rightarrow> ReviewStatus \<Rightarrow> string \<Rightarrow> string \<Rightarrow> string \<Rightarrow> time \<Rightarrow> unit stx" where
  "finishVisibilityGroup reviewID spaceID status uid name reason t =
     bindT (queryT (\<lambda>s. groupMembers s reviewID)) (forT (\<lambda>m.
       bindT (updateReviews (\<lambda>q. rr_ID q = gm_ReviewID m \<and> rr_SpaceID q = spaceID \<and> rr_Status q = ReviewStatusPending)
         (markFinished status uid name reason t)) (\<lambda>n.
       refuseT (n \<noteq> 1 \<and> gm_ReviewID m \<noteq> reviewID) ErrConflict)))"

definition sidecarKeys :: "raw \<Rightarrow> string list" where
  "sidecarKeys doc =
     (case doc of
        None \<Rightarrow> []
      | Some v \<Rightarrow> if snd (stringMap v) then filter (\<lambda>k. k \<noteq> '''') (map snd (fst (stringMap v))) else [])"

definition retainedAttachmentKeys :: "Store \<Rightarrow> string \<Rightarrow> raw \<Rightarrow> string list" where
  "retainedAttachmentKeys s pid live =
     sidecarKeys live @ concat (map (\<lambda>v. sidecarKeys (v_AttachmentKeys v)) (filter (\<lambda>v. v_PluginID v = pid) (versions s)))"

record RejectReviewParams =
  rj_CardReceipt :: "CardActionReceipt option"
  rj_ReviewID :: string
  rj_ReviewerUID :: string
  rj_ReviewerName :: string
  rj_Reason :: string
  rj_DecisionSource :: "ReviewDecisionSource option"
  rj_RequestID :: string
  rj_Now :: time

definition decisionSource :: "ReviewDecisionSource option \<Rightarrow> ReviewDecisionSource" where
  "decisionSource source = (case source of None \<Rightarrow> ReviewDecisionSourceWeb | Some x \<Rightarrow> x)"

definition sourceText :: "ReviewDecisionSource \<Rightarrow> string" where
  "sourceText x = (case x of ReviewDecisionSourceWeb \<Rightarrow> ''web'' | ReviewDecisionSourceIM \<Rightarrow> ''im''
     | ReviewDecisionSourcePolicy \<Rightarrow> ''policy'')"

definition markRejected :: "RejectReviewParams \<Rightarrow> time \<Rightarrow> PluginReviewRequest \<Rightarrow> PluginReviewRequest" where
  "markRejected p t q =
     q\<lparr>rr_Status := ReviewStatusRejected, rr_ReviewerUID := Some (rj_ReviewerUID p),
       rr_ReviewerName := Some (rj_ReviewerName p), rr_Reason := Some (rj_Reason p),
       rr_DecisionSource := Some (decisionSource (rj_DecisionSource p)), rr_ReviewedAt := Some t, rr_UpdatedAt := t\<rparr>"

definition RejectReview :: "Repo \<Rightarrow> Scope \<Rightarrow> RejectReviewParams \<Rightarrow> (raw \<times> string list) stx" where
  "RejectReview r sc p =
     bindT (now r) (\<lambda>claimedAt.
     thenT (claimCardActionReceipt (rj_CardReceipt p) (rj_ReviewID p) ''deny'' (rj_DecisionSource p) claimedAt)
    (bindT (lockRequest (rj_ReviewID p) (s_SpaceID sc)) (\<lambda>q.
     bindT (getReviewedPluginForUpdate (s_SpaceID sc) (rr_PluginID q)) (\<lambda>current.
     bindT (if rj_Now p = 0 then now r else returnT (rj_Now p)) (\<lambda>t.
     bindT (updateReviews (\<lambda>x. rr_ID x = rj_ReviewID p) (markRejected p t)) (\<lambda>n.
     thenT (mustAffect n)
    (bindT (newID r) (\<lambda>auditID.
     thenT (insertAudit auditID t current ''review_reject''
              \<lparr>o_OperatorID = rj_ReviewerUID p, o_OperatorName = rj_ReviewerName p, o_RequestID = rj_RequestID p,
               o_Remark = Some (''decision_source='' @ sourceText (decisionSource (rj_DecisionSource p)))\<rparr>
              (p_PluginHash current) (p_PluginHash current))
    (thenT (finishVisibilityGroup (rj_ReviewID p) (s_SpaceID sc) ReviewStatusRejected (rj_ReviewerUID p)
              (rj_ReviewerName p) (rj_Reason p) t)
    (bindT (queryT (\<lambda>s. retainedAttachmentKeys s (p_ID current) (p_AttachmentKeys current))) (\<lambda>retained.
     returnT (rr_AttachmentKeys q, retained))))))))))))"

definition ownRequest :: "string \<Rightarrow> string \<Rightarrow> string \<Rightarrow> PluginReviewRequest \<Rightarrow> bool" where
  "ownRequest reviewID spaceID uid q \<longleftrightarrow>
     rr_ID q = reviewID \<and> rr_SpaceID q = spaceID \<and> rr_ApplicantUID q = uid \<and> rr_DeletedAt q = None"

definition markWithdrawn :: "time \<Rightarrow> PluginReviewRequest \<Rightarrow> PluginReviewRequest" where
  "markWithdrawn t q = q\<lparr>rr_Status := ReviewStatusCanceled, rr_ReviewedAt := Some t, rr_UpdatedAt := t\<rparr>"

definition CancelReview :: "Repo \<Rightarrow> Scope \<Rightarrow> string \<Rightarrow> string \<Rightarrow> (raw \<times> string list) stx" where
  "CancelReview r sc reviewID callerUID =
     bindT (queryT (\<lambda>s. find (ownRequest reviewID (s_SpaceID sc) callerUID) (reviews s))) (\<lambda>row.
     bindT (someT ErrNotFound row) (\<lambda>q.
     thenT (refuseT (rr_Status q \<noteq> ReviewStatusPending) ErrConflict)
    (bindT (getReviewedPluginForUpdate (s_SpaceID sc) (rr_PluginID q)) (\<lambda>current.
     bindT (now r) (\<lambda>t.
     bindT (updateReviews (\<lambda>x. ownRequest reviewID (s_SpaceID sc) callerUID x \<and> rr_Status x = ReviewStatusPending)
              (markWithdrawn t)) (\<lambda>n.
     thenT (mapError ErrNotFound ErrConflict (mustAffect n))
    (thenT (finishVisibilityGroup reviewID (s_SpaceID sc) ReviewStatusCanceled callerUID '''' '''' t)
    (bindT (queryT (\<lambda>s. retainedAttachmentKeys s (p_ID current) (p_AttachmentKeys current))) (\<lambda>retained.
     returnT (rr_AttachmentKeys q, retained))))))))))"

section \<open>Reads\<close>

definition reviewWhereScope :: "string \<Rightarrow> string \<Rightarrow> bool \<Rightarrow> PluginReviewRequest \<Rightarrow> bool" where
  "reviewWhereScope spaceID callerUID isReviewer q \<longleftrightarrow>
     rr_SpaceID q = spaceID \<and> (isReviewer \<or> rr_ApplicantUID q = callerUID)"

definition requestVisible :: "Store \<Rightarrow> PluginReviewRequest \<Rightarrow> bool" where
  "requestVisible s q \<longleftrightarrow> rr_DeletedAt q = None \<and>
     (\<exists>p \<in> set (plugins s). p_ID p = rr_PluginID q \<and> p_DeletedAt p = None)"

text \<open>The list and header reads leave the frozen documents out.\<close>

definition withoutSnapshot :: "PluginReviewRequest \<Rightarrow> PluginReviewRequest" where
  "withoutSnapshot q = q\<lparr>rr_Manifest := None, rr_Package := None, rr_AttachmentKeys := None, rr_Relations := []\<rparr>"

definition LoadReviewSnapshot :: "Store \<Rightarrow> Scope \<Rightarrow> string \<Rightarrow> bool \<Rightarrow> RepoError + PluginReviewRequest" where
  "LoadReviewSnapshot s sc reviewID isReviewer =
     (case find (\<lambda>q. rr_ID q = reviewID \<and> requestVisible s q \<and>
          reviewWhereScope (s_SpaceID sc) (s_CallerUID sc) isReviewer q) (reviews s) of
        None \<Rightarrow> Inl ErrNotFound | Some q \<Rightarrow> Inr q)"

definition GetReviewRequest :: "Store \<Rightarrow> Scope \<Rightarrow> string \<Rightarrow> bool \<Rightarrow> RepoError + PluginReviewRequest" where
  "GetReviewRequest s sc reviewID isReviewer = map_sum id withoutSnapshot (LoadReviewSnapshot s sc reviewID isReviewer)"

definition GetReviewRequestAnySpace :: "Store \<Rightarrow> string \<Rightarrow> RepoError + PluginReviewRequest" where
  "GetReviewRequestAnySpace s reviewID =
     (case find (\<lambda>q. rr_ID q = reviewID \<and> requestVisible s q) (reviews s) of
        None \<Rightarrow> Inl ErrNotFound | Some q \<Rightarrow> Inr (withoutSnapshot q))"

record ReviewListFilter =
  lf_SpaceID :: string
  lf_ApplicantUID :: string
  lf_Status :: "ReviewStatus option"
  lf_Limit :: int
  lf_Offset :: int

definition listedRequests :: "Store \<Rightarrow> ReviewListFilter \<Rightarrow> PluginReviewRequest list" where
  "listedRequests s f = filter (\<lambda>q. requestVisible s q \<and> (lf_SpaceID f = '''' \<or> rr_SpaceID q = lf_SpaceID f) \<and>
     (lf_ApplicantUID f = '''' \<or> rr_ApplicantUID q = lf_ApplicantUID f) \<and>
     (case lf_Status f of None \<Rightarrow> True | Some st \<Rightarrow> rr_Status q = st)) (reviews s)"

definition ListReviewRequests :: "Store \<Rightarrow> ReviewListFilter \<Rightarrow> PluginReviewRequest list \<times> nat" where
  "ListReviewRequests s f =
     (let rows = listedRequests s f;
          limit = (if lf_Limit f \<le> 0 \<or> lf_Limit f > 100 then 20 else nat (lf_Limit f)) in
      (map withoutSnapshot (take limit (drop (nat (lf_Offset f)) (rev (sort_key rr_SubmittedAt (sort_key rr_ID rows))))),
       length rows))"

section \<open>Policy\<close>

definition GetReviewPolicy :: "Store \<Rightarrow> Scope \<Rightarrow> bool \<times> time option" where
  "GetReviewPolicy s sc =
     (case find (\<lambda>x. pol_SpaceID x = s_SpaceID sc) (policies s) of
        None \<Rightarrow> (True, None)
      | Some x \<Rightarrow> (pol_IsAutoApproveEnabled x, Some (pol_UpdatedAt x)))"

definition UpsertReviewPolicy :: "Repo \<Rightarrow> Scope \<Rightarrow> bool \<Rightarrow> string \<Rightarrow> string \<Rightarrow> (bool \<times> time option) stx" where
  "UpsertReviewPolicy r sc enabled uid name =
     bindT (now r) (\<lambda>t.
     thenT (modifyT (\<lambda>s. s\<lparr>policies :=
       (if \<exists>x \<in> set (policies s). pol_SpaceID x = s_SpaceID sc
        then updateWhere (\<lambda>x. pol_SpaceID x = s_SpaceID sc)
               (\<lambda>x. x\<lparr>pol_IsAutoApproveEnabled := enabled, pol_UpdatedBy := uid, pol_UpdatedByName := name, pol_UpdatedAt := t\<rparr>)
               (policies s)
        else policies s @ [\<lparr>pol_SpaceID = s_SpaceID sc, pol_IsAutoApproveEnabled = enabled, pol_UpdatedBy = uid,
               pol_UpdatedByName = name, pol_CreatedAt = t, pol_UpdatedAt = t\<rparr>])\<rparr>))
       (returnT (enabled, Some t)))"

section \<open>Frames\<close>

text \<open>What a request froze at submission.\<close>

definition sameRequest :: "PluginReviewRequest \<Rightarrow> PluginReviewRequest \<Rightarrow> bool" where
  "sameRequest q q' \<longleftrightarrow> rr_ID q' = rr_ID q \<and> rr_PluginID q' = rr_PluginID q \<and> rr_SpaceID q' = rr_SpaceID q \<and>
     rr_Kind q' = rr_Kind q \<and> rr_Version q' = rr_Version q \<and> rr_Manifest q' = rr_Manifest q \<and>
     rr_Package q' = rr_Package q \<and> rr_Relations q' = rr_Relations q \<and> rr_AttachmentKeys q' = rr_AttachmentKeys q \<and>
     rr_ManifestHash q' = rr_ManifestHash q \<and> rr_PluginHash q' = rr_PluginHash q \<and>
     rr_ApplicantUID q' = rr_ApplicantUID q"

text \<open>No request disappears, what it froze never changes, and a decided request does not
  change at all.\<close>

definition keptAs :: "PluginReviewRequest \<Rightarrow> PluginReviewRequest \<Rightarrow> bool" where
  "keptAs q q' \<longleftrightarrow> sameRequest q q' \<and> (rr_Status q \<noteq> ReviewStatusPending \<longrightarrow> q' = q)"

definition requestsKept :: "Store \<Rightarrow> Store \<Rightarrow> bool" where
  "requestsKept s t \<longleftrightarrow> (\<forall>q \<in> set (reviews s). \<exists>q' \<in> set (reviews t). keptAs q q')"

lemma keptAs_refl [simp]: "keptAs q q"
  by (simp add: keptAs_def sameRequest_def)

lemma keptAs_trans: "keptAs a b \<Longrightarrow> keptAs b c \<Longrightarrow> keptAs a c"
  unfolding keptAs_def sameRequest_def by auto

lemma requestsKept_same: "reviews t = reviews s \<Longrightarrow> requestsKept s t"
  unfolding requestsKept_def by (metis keptAs_refl)

interpretation queue: tx_frame requestsKept
proof unfold_locales
  show "requestsKept s s" for s by (simp add: requestsKept_same)
  show "requestsKept s u" if "requestsKept s t" "requestsKept t u" for s t u
    using that keptAs_trans unfolding requestsKept_def by meson
qed

text \<open>Every request has its own id and a plugin has at most one open request.\<close>

definition queueOK :: "Store \<Rightarrow> bool" where
  "queueOK s \<longleftrightarrow> distinct (map rr_ID (reviews s)) \<and> distinct (map rr_PluginID (filter pendingReview (reviews s)))"

definition keepsQueue :: "Store \<Rightarrow> Store \<Rightarrow> bool" where
  "keepsQueue s t \<longleftrightarrow> (queueOK s \<longrightarrow> queueOK t)"

interpretation queueInv: tx_frame keepsQueue
  by unfold_locales (auto simp: keepsQueue_def)

named_theorems requests "statements that keep the review queue"

lemma touches_requestsKept: "steps (sameExcept X) m \<Longrightarrow> TReviews \<notin> X \<Longrightarrow> steps requestsKept m"
  by (erule steps_mono) (auto intro: requestsKept_same dest: sameExcept_reviews)

lemma touches_keepsQueue: "steps (sameExcept X) m \<Longrightarrow> TReviews \<notin> X \<Longrightarrow> steps keepsQueue m"
  by (erule steps_mono) (auto simp: keepsQueue_def queueOK_def dest: sameExcept_reviews)

lemma updateWhere_filter_keys:
  assumes "\<And>x. c x \<Longrightarrow> k (f x) = k x" and "\<And>x. c x \<Longrightarrow> P (f x) \<Longrightarrow> P x"
  shows "k ` set (filter P (updateWhere c f rows)) \<subseteq> k ` set (filter P rows)"
proof
  fix y assume "y \<in> k ` set (filter P (updateWhere c f rows))"
  then obtain x where "x \<in> set (updateWhere c f rows)" "P x" "y = k x" by auto
  then show "y \<in> k ` set (filter P rows)" using assms by (elim updateWhere_memE) auto
qed

lemma distinct_updateWhere_filter:
  assumes "\<And>x. c x \<Longrightarrow> k (f x) = k x" and "\<And>x. c x \<Longrightarrow> P (f x) \<Longrightarrow> P x"
    and "distinct (map k (filter P rows))"
  shows "distinct (map k (filter P (updateWhere c f rows)))"
  using assms(3)
proof (induction rows)
  case (Cons x xs)
  have "k ` set (filter P (updateWhere c f xs)) \<subseteq> k ` set (filter P xs)"
    using assms(1,2) by (intro updateWhere_filter_keys)
  then have "k x \<notin> k ` set (filter P xs) \<Longrightarrow> k x \<notin> k ` set (filter P (updateWhere c f xs))" by blast
  then show ?case using Cons assms(1) [of x] assms(2) [of x] by (cases "c x"; cases "P x"; cases "P (f x)") auto
qed simp

text \<open>A statement that settles open requests only.\<close>

lemma updateReviews_requests [requests]:
  assumes "\<And>q. c q \<Longrightarrow> rr_Status q = ReviewStatusPending" and "\<And>q. sameRequest q (f q)"
  shows "steps requestsKept (updateReviews c f)"
  unfolding requestsKept_def
proof (intro stepsI ballI)
  fix s n t q assume run: "updateReviews c f s = Inr (n, t)" and q: "q \<in> set (reviews s)"
  then have t: "reviews t = updateWhere c f (reviews s)" by (auto simp: tx_simps)
  show "\<exists>q' \<in> set (reviews t). keptAs q q'"
  proof (cases "c q")
    case True
    then have "keptAs q (f q)" using assms by (simp add: keptAs_def)
    with updateWhere_imageI [of q "reviews s" c f] q True t show ?thesis by metis
  next
    case False
    with updateWhere_keepI [of q "reviews s" c f] q t keptAs_refl show ?thesis by metis
  qed
qed

lemma updateReviews_keepsQueue [requests]:
  assumes "\<And>q. rr_Status (f q) \<noteq> ReviewStatusPending" and "\<And>q. sameRequest q (f q)"
  shows "steps keepsQueue (updateReviews c f)"
proof -
  have "distinct (map rr_PluginID (filter pendingReview (updateWhere c f rows)))"
    if "distinct (map rr_PluginID (filter pendingReview rows))" for rows
    using that assms by (intro distinct_updateWhere_filter) (auto simp: sameRequest_def pendingReview_def)
  moreover have "map rr_ID (updateWhere c f rows) = map rr_ID rows" for rows
    using assms by (intro map_updateWhere_key) (auto simp: sameRequest_def)
  ultimately show ?thesis
    by (auto simp: keepsQueue_def queueOK_def tx_simps intro!: stepsI)
qed

lemma marks_same [simp]:
  "sameRequest q (markFinished st u n x t q)" "sameRequest q (markRejected p t q)" "sameRequest q (markWithdrawn t q)"
  "sameRequest q (markCanceled t u n x q)"
  by (simp_all add: sameRequest_def markFinished_def markRejected_def markWithdrawn_def markCanceled_def)

lemma marks_fields [simp]:
  "rr_Status (markFinished st u n x t q) = st" "rr_Status (markRejected p t q) = ReviewStatusRejected"
  "rr_Status (markWithdrawn t q) = ReviewStatusCanceled" "rr_ID (markFinished st u n x t q) = rr_ID q"
  "rr_ID (markRejected p t q) = rr_ID q" "rr_ID (markWithdrawn t q) = rr_ID q"
  "rr_PluginID (markFinished st u n x t q) = rr_PluginID q" "rr_PluginID (markRejected p t q) = rr_PluginID q"
  "rr_PluginID (markWithdrawn t q) = rr_PluginID q" "rr_DeletedAt (markFinished st u n x t q) = rr_DeletedAt q"
  "rr_DeletedAt (markRejected p t q) = rr_DeletedAt q" "rr_DeletedAt (markWithdrawn t q) = rr_DeletedAt q"
  by (simp_all add: markFinished_def markRejected_def markWithdrawn_def)

lemma mapError_Inr [tx_simps]: "mapError e e' m s = Inr x \<longleftrightarrow> m s = Inr x"
  by (auto simp: mapError_def split: sum.splits)

lemma mapError_steps: "steps R m \<Longrightarrow> steps R (mapError e e' m)"
  by (auto simp: steps_def tx_simps)

lemma mapError_errors [errors]: "raises (E \<union> {e}) m \<Longrightarrow> e' \<in> E \<Longrightarrow> raises E (mapError e e' m)"
  by (fastforce simp: raises_def mapError_def split: sum.splits if_splits)

lemma lockRequest_reads [reads]: "steps (=) (lockRequest i sp)"
  unfolding lockRequest_def by (intro reading.steps_rules)

lemma lockRequest_Inr [tx_simps]:
  "lockRequest i sp s = Inr (q, t) \<longleftrightarrow> find (openRequest i sp) (reviews s) = Some q \<and> t = s"
  by (auto simp: lockRequest_def tx_simps)

lemma admitSubmission_reads [reads]: "steps (=) (admitSubmission r p q snap)"
  unfolding admitSubmission_def by (intro reading.steps_rules)

lemma submittedEdge_touches [touches]: "steps (sameExcept X) (submittedEdge r pid e)"
  unfolding submittedEdge_def by (intro touch.steps_rules touches)

lemma submittedRelations_touches [touches]: "steps (sameExcept X) (submittedRelations r p rels)"
  unfolding submittedRelations_def
  by (intro touch.steps_rules touches reads_touches [OF validateReferenceTree_reads])

lemma insertRequest_touches [touches]: "TReviews \<in> X \<Longrightarrow> steps (sameExcept X) (insertRequest e row)"
  unfolding insertRequest_def
  by (intro touch.steps_rules touch.steps_modify) (auto simp: sameExcept_def kept_def)

lemma insertReviewInTx_touches [touches]: "TReviews \<in> X \<Longrightarrow> steps (sameExcept X) (insertReviewInTx r sc req snap)"
  unfolding insertReviewInTx_def Let_def
  by (intro touch.steps_rules touches reads_touches [OF admitSubmission_reads])

lemma insertReceipt_touches [touches]: "TReceipts \<in> X \<Longrightarrow> steps (sameExcept X) (insertCardActionReceipt c t)"
  unfolding insertCardActionReceipt_def
  by (intro touch.steps_rules touch.steps_modify) (auto simp: sameExcept_def kept_def)

lemma claimReceipt_touches [touches]: "TReceipts \<in> X \<Longrightarrow> steps (sameExcept X) (claimCardActionReceipt c i d src t)"
  unfolding claimCardActionReceipt_def by (intro touch.steps_rules mapError_steps touches)

lemma finishGroup_touches [touches]: "TReviews \<in> X \<Longrightarrow> steps (sameExcept X) (finishVisibilityGroup i sp st u n x t)"
  unfolding finishVisibilityGroup_def by (intro touch.steps_rules touches)

text \<open>Inserting a request keeps the queue well-formed: a duplicate id or a second open request
  is a duplicate key.\<close>

lemma insertRequest_Inr [tx_simps]:
  "insertRequest e row s = Inr (u, t) \<longleftrightarrow> rr_ID row \<notin> rr_ID ` set (reviews s) \<and>
     \<not> (pendingReview row \<and> pendingFor s (rr_PluginID row)) \<and> t = s\<lparr>reviews := reviews s @ [row]\<rparr>"
  by (auto simp: insertRequest_def tx_simps image_iff)

lemma requestsKept_grown: "reviews t = reviews s @ rows \<Longrightarrow> requestsKept s t"
  unfolding requestsKept_def by (metis UnI1 keptAs_refl set_append)

lemma insertRequest_requests [requests]: "steps requestsKept (insertRequest e row)"
  by (rule stepsI) (auto simp: tx_simps intro!: requestsKept_grown)

lemma insertRequest_keepsQueue [requests]: "steps keepsQueue (insertRequest e row)"
  by (rule stepsI) (auto simp: keepsQueue_def queueOK_def pendingFor_def tx_simps)

lemma finishGroup_requests [requests]:
  "steps requestsKept (finishVisibilityGroup i sp st u n x t)"
  unfolding finishVisibilityGroup_def by (intro queue.steps_rules requests) simp_all

lemma finishGroup_keepsQueue [requests]:
  "st \<noteq> ReviewStatusPending \<Longrightarrow> steps keepsQueue (finishVisibilityGroup i sp st u n x t)"
  unfolding finishVisibilityGroup_def by (intro queueInv.steps_rules requests) simp_all

section \<open>Submission freezes what it was given\<close>

lemma insertReviewInTx_run:
  assumes "insertReviewInTx r sc req snap s = Inr (row, s')"
  obtains current rels t i s1 where "current \<in> set (plugins s)" and "ownedRow sc (rr_PluginID req) current"
    and "admitSubmission r current req snap s = Inr ((), s)" and "\<not> pendingFor s (rr_PluginID req)"
    and "submittedRelations r current (fs_Relations snap) s = Inr (rels, s1)"
    and "row = requestRow i t req (if p_ListingState current \<noteq> PluginListingStatePublished
           then ReviewKindFirst else ReviewKindUpgrade) snap rels"
    and "reviews s' = reviews s @ [row]" and "rr_ID row \<notin> rr_ID ` set (reviews s)"
proof -
  from assms obtain current u rels s1 where own: "find (ownedRow sc (rr_PluginID req)) (plugins s) = Some current"
    and adm: "admitSubmission r current req snap s = Inr ((), u)" and pend: "\<not> pendingFor u (rr_PluginID req)"
    and rels: "submittedRelations r current (fs_Relations snap) u = Inr (rels, s1)"
    and rest: "bindT (now r) (\<lambda>t. bindT (newID r) (\<lambda>i.
       let row = requestRow i t req (if p_ListingState current \<noteq> PluginListingStatePublished
           then ReviewKindFirst else ReviewKindUpgrade) snap rels in
       thenT (insertRequest ErrReviewPending row) (returnT row))) s1 = Inr (row, s')"
    unfolding insertReviewInTx_def by (auto simp: tx_simps)
  have u: "u = s" by (rule readsD [OF admitSubmission_reads adm])
  have "reviews s1 = reviews u"
    using stepsD [OF submittedRelations_touches [of "{}"] rels] by (auto dest: sameExcept_tables)
  with rest that [OF _ _ _ _ rels [unfolded u]] own adm pend u show thesis
    by (auto simp: tx_simps Let_def pendingFor_def dest!: find_Some_mem split del: if_split)
qed

lemma requestRow_fields [simp]:
  "rr_ID (requestRow i t req k snap rels) = i" "rr_PluginID (requestRow i t req k snap rels) = rr_PluginID req"
  "rr_Status (requestRow i t req k snap rels) = ReviewStatusPending" "rr_Kind (requestRow i t req k snap rels) = k"
  "rr_Version (requestRow i t req k snap rels) = rr_Version req" "rr_Manifest (requestRow i t req k snap rels) = fs_Manifest snap"
  "rr_Package (requestRow i t req k snap rels) = fs_Package snap" "rr_DeletedAt (requestRow i t req k snap rels) = None"
  "rr_AttachmentKeys (requestRow i t req k snap rels) = fs_AttachmentKeys snap"
  "rr_ManifestHash (requestRow i t req k snap rels) = fs_ManifestHash snap"
  "rr_PluginHash (requestRow i t req k snap rels) = fs_PluginHash snap"
  by (simp_all add: requestRow_def)

text \<open>The labels of a plugin that a submission may not reuse: its approved requests, and with
  version management its releases.\<close>

lemma approved_label_listed:
  assumes "q \<in> set (reviews s)" and "rr_Status q = ReviewStatusApproved" and "rr_DeletedAt q = None"
  shows "rr_Version q \<in> set (managedLabels s (rr_PluginID q))"
    and "rr_Version q \<in> set (publishedVersionLabels s (rr_PluginID q) current)"
  using assms by (auto simp: managedLabels_def publishedVersionLabels_def)

lemma released_label_listed: "rel \<in> set (releases s) \<Longrightarrow> rel_VersionLabel rel \<in> set (managedLabels s (rel_PluginID rel))"
  by (auto simp: managedLabels_def)

lemma admitSubmission_run:
  assumes "admitSubmission r current req snap s = Inr ((), s')"
  shows "rr_Version req \<notin> set (if managed r current then managedLabels s (rr_PluginID req)
                        else publishedVersionLabels s (rr_PluginID req) current)"
    and "managed r current \<Longrightarrow> \<forall>label \<in> set (managedLabels s (rr_PluginID req)). VersionAdvanced label (rr_Version req)"
    and "fs_DeclaredContent snap \<or> p_ListingState current \<noteq> PluginListingStatePublished \<or> managed r current"
  using assms unfolding admitSubmission_def
  by (simp_all only: tx_simps de_Morgan_conj not_not) auto

lemma admitSubmission_labels:
  assumes "admitSubmission r current req snap s = Inr ((), s')"
  shows "\<forall>q \<in> set (reviews s). rr_PluginID q = rr_PluginID req \<and> rr_Status q = ReviewStatusApproved \<and> rr_DeletedAt q = None \<longrightarrow>
      rr_Version q \<noteq> rr_Version req"
    and "managed r current \<longrightarrow> (\<forall>rel \<in> set (releases s). rel_PluginID rel = rr_PluginID req \<longrightarrow>
      VersionAdvanced (rel_VersionLabel rel) (rr_Version req))"
    and "fs_DeclaredContent snap \<or> p_ListingState current \<noteq> PluginListingStatePublished \<or> managed r current"
  using admitSubmission_run [OF assms] approved_label_listed released_label_listed by (metis, metis, metis)


definition sampleRequest :: "string \<Rightarrow> string \<Rightarrow> PluginReviewRequest" where
  "sampleRequest i pid = \<lparr>rr_ID = i, rr_PluginID = pid, rr_SpaceID = ''s1'', rr_TargetScope = ''space'',
     rr_Status = ReviewStatusPending, rr_Kind = ReviewKindFirst, rr_Version = ''1.0.0'', rr_Changelog = None,
     rr_Manifest = Some JNull, rr_Package = Some JNull, rr_Relations = [], rr_AttachmentKeys = None,
     rr_ManifestHash = ''mh'', rr_PluginHash = ''ph'', rr_ApplicantUID = ''u1'', rr_ApplicantName = ''u'',
     rr_ReviewerUID = None, rr_ReviewerName = None, rr_Reason = None, rr_DecisionSource = None,
     rr_SubmittedAt = 0, rr_ReviewedAt = None, rr_CreatedAt = 0, rr_UpdatedAt = 0, rr_DeletedAt = None\<rparr>"

definition sampleFrozen :: FrozenSnapshot where
  "sampleFrozen = \<lparr>fs_Manifest = Some JNull, fs_Package = Some JNull, fs_AttachmentKeys = None, fs_Relations = [],
     fs_ManifestHash = ''mh'', fs_PluginHash = ''ph'', fs_DeclaredContent = True, fs_ExpectedDraftRevision = ''''\<rparr>"


section \<open>A decision is final\<close>

lemma openRequest_find:
  assumes "queueOK s" and "find (openRequest i sp) (reviews s) = Some q"
  shows "q \<in> set (reviews s)" and "openRequest i sp q" and "\<And>x. x \<in> set (reviews s) \<Longrightarrow> rr_ID x = i \<Longrightarrow> x = q"
proof -
  show q: "q \<in> set (reviews s)" "openRequest i sp q" using assms(2) by (auto dest: find_Some_mem)
  then show "x = q" if "x \<in> set (reviews s)" "rr_ID x = i" for x
    using that distinct_key_eq [of rr_ID "reviews s" x q] assms(1) by (auto simp: queueOK_def openRequest_def)
qed

text \<open>A statement whose condition names one open request by its id settles only that request.\<close>

lemma updateWhere_by_id:
  assumes "q \<in> set rows" and "c q" and "\<And>x. x \<in> set rows \<Longrightarrow> c x \<Longrightarrow> x = q"
  shows "updateWhere c f rows = updateWhere (\<lambda>x. x = q) f rows"
  unfolding updateWhere_def
proof (rule map_cong [OF refl])
  fix x assume "x \<in> set rows"
  then have "c x \<longleftrightarrow> x = q" using assms(2,3) by blast
  then show "(if c x then f x else x) = (if x = q then f x else x)" by simp
qed

lemma settle_one:
  assumes "queueOK s" and "find (openRequest i sp) (reviews s) = Some q" and "\<And>x. sameRequest x (f x)"
    and "\<And>x. rr_Status (f x) \<noteq> ReviewStatusPending"
    and "updateReviews (\<lambda>x. rr_ID x = i) f s = Inr (n, s')"
  shows "requestsKept s s'" and "queueOK s'" and "f q \<in> set (reviews s')"
proof -
  note q = openRequest_find [OF assms(1,2)]
  have id: "rr_ID q = i" using q(2) by (simp add: openRequest_def)
  have s': "s' = s\<lparr>reviews := updateWhere (\<lambda>x. rr_ID x = i) f (reviews s)\<rparr>" using assms(5) by (simp add: tx_simps)
  also have "updateWhere (\<lambda>x. rr_ID x = i) f (reviews s) = updateWhere (\<lambda>x. x = q) f (reviews s)"
    using q(1,3) id by (intro updateWhere_by_id)
  finally have run: "updateReviews (\<lambda>x. x = q) f s = Inr (affected (\<lambda>x. x = q) f (reviews s), s')"
    by (simp add: updateReviews_def)
  show "requestsKept s s'"
    using stepsD [OF updateReviews_requests [of "\<lambda>x. x = q" f] run] q(2) assms(3) by (simp add: openRequest_def pendingReview_def)
  show "queueOK s'"
    using stepsD [OF updateReviews_keepsQueue [of f "\<lambda>x. rr_ID x = i"] assms(5)] assms(1,3,4) by (simp add: keepsQueue_def)
  show "f q \<in> set (reviews s')" using q(1) id s' by (auto simp: set_updateWhere)
qed

lemma auditRow_inserted:
  "insertAudit i n p act m b a s = Inr (u, t) \<longleftrightarrow> t = s\<lparr>audits := audits s @ [auditRow i n p act m b a]\<rparr>"
  by (simp add: insertAudit_Inr auditRow_def)

lemma RejectReview_run:
  assumes "RejectReview r sc p s = Inr ((keys, retained), s')"
  obtains q current t n s1 s2 s3 where
      "claimCardActionReceipt (rj_CardReceipt p) (rj_ReviewID p) ''deny'' (rj_DecisionSource p)
         (nowAt r (tickCount s)) (s\<lparr>tickCount := Suc (tickCount s)\<rparr>) = Inr ((), s1)"
    and "find (openRequest (rj_ReviewID p) (s_SpaceID sc)) (reviews s1) = Some q"
    and "find (reviewedRow (s_SpaceID sc) (rr_PluginID q)) (plugins s1) = Some current"
    and "sameExcept {} s1 s2" and "updateReviews (\<lambda>x. rr_ID x = rj_ReviewID p) (markRejected p t) s2 = Inr (n, s3)"
    and "finishVisibilityGroup (rj_ReviewID p) (s_SpaceID sc) ReviewStatusRejected (rj_ReviewerUID p)
              (rj_ReviewerName p) (rj_Reason p) t
           (s3\<lparr>idCount := Suc (idCount s3), audits := audits s3 @ [auditRow (idAt r (idCount s3)) t current ''review_reject''
              \<lparr>o_OperatorID = rj_ReviewerUID p, o_OperatorName = rj_ReviewerName p, o_RequestID = rj_RequestID p,
               o_Remark = Some (''decision_source='' @ sourceText (decisionSource (rj_DecisionSource p)))\<rparr>
              (p_PluginHash current) (p_PluginHash current)]\<rparr>) = Inr ((), s')"
    and "keys = rr_AttachmentKeys q" and "retained = retainedAttachmentKeys s' (p_ID current) (p_AttachmentKeys current)"
proof -
  have clock: "sameExcept {} a b" if "(if rj_Now p = 0 then now r else returnT (rj_Now p)) a = Inr (t, b)" for a b t
  proof -
    have "steps (sameExcept {}) (if rj_Now p = 0 then now r else returnT (rj_Now p))"
      by (intro touch.steps_rules touches)
    from stepsD [OF this that] show ?thesis .
  qed
  from assms show thesis
    unfolding RejectReview_def
    by (auto simp only: bindT_Inr thenT_Inr now_Inr lockRequest_Inr getReviewed_Inr newID_Inr mustAffect_Inr queryT_Inr
        returnT_Inr auditRow_inserted prod.inject)
      (rule that, assumption, assumption, assumption, erule clock, assumption, simp, assumption+)
qed

lemma RejectReview_touches [touches]:
  assumes "TReceipts \<in> X" and "TReviews \<in> X" and "TAudits \<in> X"
  shows "steps (sameExcept X) (RejectReview r sc p)"
  unfolding RejectReview_def
  by (intro touch.steps_rules touches assms reads_touches [OF lockRequest_reads])

lemma CancelReview_touches [touches]: "TReviews \<in> X \<Longrightarrow> steps (sameExcept X) (CancelReview r sc i uid)"
  unfolding CancelReview_def
  by (intro touch.steps_rules touches mapError_steps)

lemma queueOK_cong: "reviews t = reviews s \<Longrightarrow> queueOK t = queueOK s"
  by (simp add: queueOK_def)

lemma requestsKept_cong:
  "requestsKept s t \<Longrightarrow> reviews s' = reviews s \<Longrightarrow> reviews t' = reviews t \<Longrightarrow> requestsKept s' t'"
  by (simp add: requestsKept_def)

lemma requestsKept_decided:
  "requestsKept s t \<Longrightarrow> q \<in> set (reviews s) \<Longrightarrow> rr_Status q \<noteq> ReviewStatusPending \<Longrightarrow> q \<in> set (reviews t)"
  unfolding requestsKept_def keptAs_def by metis

lemma RejectReview_queue:
  assumes run: "RejectReview r sc p s = Inr ((keys, retained), s')" and ok: "queueOK s"
  shows "requestsKept s s'" and "queueOK s'" and "\<exists>q t. find (openRequest (rj_ReviewID p) (s_SpaceID sc)) (reviews s) = Some q \<and> markRejected p t q \<in> set (reviews s')"
proof -
  from run obtain q current t n s1 s2 s3 where claim: "claimCardActionReceipt (rj_CardReceipt p) (rj_ReviewID p) ''deny''
         (rj_DecisionSource p) (nowAt r (tickCount s)) (s\<lparr>tickCount := Suc (tickCount s)\<rparr>) = Inr ((), s1)"
    and q: "find (openRequest (rj_ReviewID p) (s_SpaceID sc)) (reviews s1) = Some q"
    and cur: "find (reviewedRow (s_SpaceID sc) (rr_PluginID q)) (plugins s1) = Some current"
    and s2: "sameExcept {} s1 s2" and upd: "updateReviews (\<lambda>x. rr_ID x = rj_ReviewID p) (markRejected p t) s2 = Inr (n, s3)"
    and fin: "finishVisibilityGroup (rj_ReviewID p) (s_SpaceID sc) ReviewStatusRejected (rj_ReviewerUID p)
              (rj_ReviewerName p) (rj_Reason p) t
           (s3\<lparr>idCount := Suc (idCount s3), audits := audits s3 @ [auditRow (idAt r (idCount s3)) t current ''review_reject''
              \<lparr>o_OperatorID = rj_ReviewerUID p, o_OperatorName = rj_ReviewerName p, o_RequestID = rj_RequestID p,
               o_Remark = Some (''decision_source='' @ sourceText (decisionSource (rj_DecisionSource p)))\<rparr>
              (p_PluginHash current) (p_PluginHash current)]\<rparr>) = Inr ((), s')"
    and keys: "keys = rr_AttachmentKeys q" and ret: "retained = retainedAttachmentKeys s' (p_ID current) (p_AttachmentKeys current)"
    by (rule RejectReview_run)
  have "reviews s1 = reviews s" using stepsD [OF claimReceipt_touches [of "{TReceipts}"] claim] by (simp add: sameExcept_reviews)
  then have s2': "reviews s1 = reviews s" "reviews s2 = reviews s" using sameExcept_reviews [OF s2] by simp_all
  have q2: "find (openRequest (rj_ReviewID p) (s_SpaceID sc)) (reviews s2) = Some q" using q s2' by simp
  have ok2: "queueOK s2" using ok s2' by (simp add: queueOK_def)
  note one = settle_one [OF ok2 q2 marks_same(2) _ upd, simplified]
  note kept = stepsD [OF finishGroup_requests fin] and okf = stepsD [OF finishGroup_keepsQueue fin, simplified]
  have k3: "requestsKept s3 s'" using kept by (rule requestsKept_cong) simp_all
  show "requestsKept s s'" using queue.frame_trans [OF one(1) k3] by (rule requestsKept_cong) (simp_all add: s2')
  show "queueOK s'" using okf one(2) by (simp add: keepsQueue_def queueOK_def)
  show "\<exists>q t. find (openRequest (rj_ReviewID p) (s_SpaceID sc)) (reviews s) = Some q \<and> markRejected p t q \<in> set (reviews s')"
    using requestsKept_decided [OF k3 one(3)] q2 s2' by auto
qed

text \<open>a rejection decides an open request of the reviewer's Space once and for all. The row
  records the reviewer, the reason and the channel; every request that was already decided,
  and the documents every request froze, stay as they are; no plugin, edge, version or
  release changes; one audit row is appended. The attachment keys reported as retained
  include every key that the live plugin or any of its versions still uses.\<close>

theorem RejectReview_settles:
  assumes run: "RejectReview r sc p s = Inr ((keys, retained), s')" and ok: "queueOK s"
  shows "\<exists>q current t. q \<in> set (reviews s) \<and> openRequest (rj_ReviewID p) (s_SpaceID sc) q \<and>
    current \<in> set (plugins s) \<and> reviewedRow (s_SpaceID sc) (rr_PluginID q) current \<and>
    markRejected p t q \<in> set (reviews s') \<and> requestsKept s s' \<and> queueOK s' \<and>
    (\<exists>a. audits s' = audits s @ [a] \<and> a_Action a = ''review_reject'' \<and> a_PluginID a = p_ID current \<and>
       a_OperatorID a = rj_ReviewerUID p) \<and>
    sameExcept {TReceipts, TReviews, TAudits} s s' \<and> keys = rr_AttachmentKeys q \<and>
    set (sidecarKeys (p_AttachmentKeys current)) \<subseteq> set retained \<and>
    (\<forall>v \<in> set (versions s'). v_PluginID v = p_ID current \<longrightarrow> set (sidecarKeys (v_AttachmentKeys v)) \<subseteq> set retained)"
proof -
  from run obtain q current t n s1 s2 s3 where claim: "claimCardActionReceipt (rj_CardReceipt p) (rj_ReviewID p) ''deny''
         (rj_DecisionSource p) (nowAt r (tickCount s)) (s\<lparr>tickCount := Suc (tickCount s)\<rparr>) = Inr ((), s1)"
    and q: "find (openRequest (rj_ReviewID p) (s_SpaceID sc)) (reviews s1) = Some q"
    and cur: "find (reviewedRow (s_SpaceID sc) (rr_PluginID q)) (plugins s1) = Some current"
    and s2: "sameExcept {} s1 s2" and upd: "updateReviews (\<lambda>x. rr_ID x = rj_ReviewID p) (markRejected p t) s2 = Inr (n, s3)"
    and fin: "finishVisibilityGroup (rj_ReviewID p) (s_SpaceID sc) ReviewStatusRejected (rj_ReviewerUID p)
              (rj_ReviewerName p) (rj_Reason p) t
           (s3\<lparr>idCount := Suc (idCount s3), audits := audits s3 @ [auditRow (idAt r (idCount s3)) t current ''review_reject''
              \<lparr>o_OperatorID = rj_ReviewerUID p, o_OperatorName = rj_ReviewerName p, o_RequestID = rj_RequestID p,
               o_Remark = Some (''decision_source='' @ sourceText (decisionSource (rj_DecisionSource p)))\<rparr>
              (p_PluginHash current) (p_PluginHash current)]\<rparr>) = Inr ((), s')"
    and keys: "keys = rr_AttachmentKeys q" and ret: "retained = retainedAttachmentKeys s' (p_ID current) (p_AttachmentKeys current)"
    by (rule RejectReview_run)
  have s1: "reviews s1 = reviews s" "plugins s1 = plugins s" "audits s1 = audits s"
    using stepsD [OF claimReceipt_touches [of "{TReceipts}"] claim] by (auto dest: sameExcept_tables)
  have s2': "reviews s2 = reviews s" "audits s2 = audits s" using s2 s1 by (auto dest: sameExcept_tables)
  have q2: "find (openRequest (rj_ReviewID p) (s_SpaceID sc)) (reviews s2) = Some q" using q s1 s2' by simp
  have ok2: "queueOK s2" using ok s2' by (simp add: queueOK_def)
  note one = settle_one [OF ok2 q2 marks_same(2) _ upd, simplified]
  note kept = stepsD [OF finishGroup_requests fin]
  have "audits s3 = audits s" using upd s2' by (simp add: tx_simps)
  then have "\<exists>a. audits s' = audits s @ [a] \<and> a_Action a = ''review_reject'' \<and> a_PluginID a = p_ID current \<and>
       a_OperatorID a = rj_ReviewerUID p"
    using stepsD [OF finishGroup_touches [of "{TReviews}"] fin] by (auto dest!: sameExcept_audits)
  moreover have k3: "requestsKept s3 s'" using kept by (rule requestsKept_cong) simp_all
  moreover have "markRejected p t q \<in> set (reviews s')" using requestsKept_decided [OF k3 one(3)] by simp
  moreover have "sameExcept {TReceipts, TReviews, TAudits} s s'"
    by (rule stepsD [OF RejectReview_touches run]) simp_all
  moreover have "set (sidecarKeys (p_AttachmentKeys current)) \<subseteq> set retained" unfolding ret retainedAttachmentKeys_def by simp
  moreover have "\<forall>v \<in> set (versions s'). v_PluginID v = p_ID current \<longrightarrow> set (sidecarKeys (v_AttachmentKeys v)) \<subseteq> set retained"
    unfolding ret retainedAttachmentKeys_def by auto
  ultimately show ?thesis using find_Some_mem [OF q] find_Some_mem [OF cur] s1 keys RejectReview_queue(1,2) [OF run ok]
    by - (rule exI [where x = q], rule exI [where x = current], rule exI [where x = t], simp)
qed

definition reviewedStore :: Store where
  "reviewedStore = sampleStore\<lparr>reviews := [sampleRequest ''q1'' ''k'']\<rparr>"

definition sampleReject :: RejectReviewParams where
  "sampleReject = \<lparr>rj_CardReceipt = None, rj_ReviewID = ''q1'', rj_ReviewerUID = ''u9'', rj_ReviewerName = ''n'',
     rj_Reason = ''no'', rj_DecisionSource = None, rj_RequestID = ''x'', rj_Now = 0\<rparr>"

theorem RejectReview_settles_witness:
  "\<exists>keys retained s'. RejectReview sampleRepo sampleOwner sampleReject reviewedStore = Inr ((keys, retained), s') \<and>
     queueOK s' \<and> requestsKept reviewedStore s'"
proof -
  let ?run = "RejectReview sampleRepo sampleOwner sampleReject reviewedStore"
  have "\<not> isl ?run" by code_simp
  then obtain keys retained s' where run: "?run = Inr ((keys, retained), s')" by (auto dest: tx_runs)
  moreover have "queueOK reviewedStore" by code_simp
  ultimately show ?thesis using RejectReview_settles [OF run] by blast
qed

lemma CancelReview_requests:
  "steps requestsKept (CancelReview r sc i uid)" "steps keepsQueue (CancelReview r sc i uid)"
  unfolding CancelReview_def
  by (intro queue.steps_rules queueInv.steps_rules requests mapError_steps touches_requestsKept [OF now_touches [of "{}"]]
      touches_keepsQueue [OF now_touches [of "{}"]] touches_requestsKept [OF mustAffect_touches [of "{}"]]
      touches_keepsQueue [OF mustAffect_touches [of "{}"]] touches_requestsKept [OF getReviewed_touches [of "{}"]]
      touches_keepsQueue [OF getReviewed_touches [of "{}"]]; simp)+

lemma CancelReview_withdrawn:
  assumes "CancelReview r sc i uid s = Inr (out, s')" and "find (ownRequest i (s_SpaceID sc) uid) (reviews s) = Some q"
  shows "\<exists>t. markWithdrawn t q \<in> set (reviews s')"
proof -
  let ?c = "\<lambda>x. ownRequest i (s_SpaceID sc) uid x \<and> rr_Status x = ReviewStatusPending"
  from assms obtain t where q: "rr_Status q = ReviewStatusPending"
    and fin: "finishVisibilityGroup i (s_SpaceID sc) ReviewStatusCanceled uid '''' '''' t
       (s\<lparr>tickCount := Suc (tickCount s), reviews := updateWhere ?c (markWithdrawn t) (reviews s)\<rparr>) = Inr ((), s')"
    unfolding CancelReview_def by (auto simp: tx_simps)
  have "markWithdrawn t q \<in> set (updateWhere ?c (markWithdrawn t) (reviews s))"
    using find_Some_mem [OF assms(2)] q by (intro updateWhere_imageI) auto
  with requestsKept_decided [OF stepsD [OF finishGroup_requests fin], of "markWithdrawn t q"] show ?thesis by auto
qed

text \<open>C8: only the applicant of an open request can withdraw it. A request of someone else, of
  another Space or of no one is not found; a decided one is a conflict. A withdrawal cancels
  the request and leaves the plugins, their versions and every decided request untouched.\<close>

theorem CancelReview_withdraws:
  "case find (ownRequest i (s_SpaceID sc) uid) (reviews s) of
     None \<Rightarrow> CancelReview r sc i uid s = Inl ErrNotFound
   | Some q \<Rightarrow>
       if rr_Status q \<noteq> ReviewStatusPending then CancelReview r sc i uid s = Inl ErrConflict
       else (case CancelReview r sc i uid s of
               Inl e \<Rightarrow> e \<in> {ErrNotFound, ErrConflict}
             | Inr (_, s') \<Rightarrow> (\<exists>t. markWithdrawn t q \<in> set (reviews s')) \<and> rr_ApplicantUID q = uid \<and>
                 keepsQueue s s' \<and> requestsKept s s' \<and> sameExcept {TReviews} s s')"
proof -
  have err: "raises {ErrNotFound, ErrConflict} (CancelReview r sc i uid)"
    unfolding CancelReview_def finishVisibilityGroup_def by (intro errors; simp)+
  have "case find (ownRequest i (s_SpaceID sc) uid) (reviews s) of
     None \<Rightarrow> CancelReview r sc i uid s = Inl ErrNotFound
   | Some q \<Rightarrow> rr_Status q \<noteq> ReviewStatusPending \<longrightarrow> CancelReview r sc i uid s = Inl ErrConflict"
    by (simp add: CancelReview_def tx_eval split: option.split)
  moreover have "(\<exists>t. markWithdrawn t q \<in> set (reviews s')) \<and> rr_ApplicantUID q = uid \<and>
                 keepsQueue s s' \<and> requestsKept s s' \<and> sameExcept {TReviews} s s'"
    if "find (ownRequest i (s_SpaceID sc) uid) (reviews s) = Some q" and run: "CancelReview r sc i uid s = Inr (out, s')" for q out s'
    using CancelReview_withdrawn [OF run that(1)] stepsD [OF CancelReview_requests(1) run] find_Some_mem [OF that(1)]
      stepsD [OF CancelReview_requests(2) run] stepsD [OF CancelReview_touches [of "{TReviews}"] run]
    by (auto simp: ownRequest_def)
  ultimately show ?thesis using raisesD [OF err] by (auto split: option.splits sum.splits)
qed

section \<open>Reads and policy\<close>

lemma find_updateWhere_key:
  assumes "\<And>x. k (f x) = k x"
  shows "find (\<lambda>x. k x = v) (updateWhere c f rows) = map_option (\<lambda>x. if c x then f x else x) (find (\<lambda>x. k x = v) rows)"
  by (induction rows) (use assms in auto)

lemma find_snoc: "find P (xs @ [y]) = (case find P xs of None \<Rightarrow> if P y then Some y else None | Some x \<Rightarrow> Some x)"
  by (induction xs) auto

text \<open>The auto-approval policy that a Space reads is the one last written for it, a Space
  without a row is auto-approved, and writing the policy of one Space leaves every other
  Space's policy and all other tables as they are.\<close>

theorem UpsertReviewPolicy_roundtrip:
  "case UpsertReviewPolicy r sc enabled uid name s of
     Inl _ \<Rightarrow> False
   | Inr (out, s') \<Rightarrow> GetReviewPolicy s' sc = out \<and> fst out = enabled \<and>
       (s_SpaceID sc' = s_SpaceID sc \<or> GetReviewPolicy s' sc' = GetReviewPolicy s sc') \<and>
       GetReviewPolicy (s\<lparr>policies := []\<rparr>) sc = (True, None) \<and> sameExcept {TPolicies} s s'"
proof (cases "\<exists>x \<in> set (policies s). pol_SpaceID x = s_SpaceID sc")
  case True
  then have "find (\<lambda>x. pol_SpaceID x = s_SpaceID sc) (policies s) \<noteq> None" by (auto simp: find_None_iff)
  then obtain x where "find (\<lambda>x. pol_SpaceID x = s_SpaceID sc) (policies s) = Some x" by blast
  with True show ?thesis
    by (auto simp: UpsertReviewPolicy_def tx_eval GetReviewPolicy_def find_updateWhere_key sameExcept_def kept_def
        dest: find_Some_mem split: option.splits)
next
  case False
  then have "find (\<lambda>x. pol_SpaceID x = s_SpaceID sc) (policies s) = None" by (auto simp: find_None_iff)
  with False show ?thesis
    by (auto simp: UpsertReviewPolicy_def tx_eval GetReviewPolicy_def find_snoc sameExcept_def kept_def split: option.splits)
qed

text \<open>a reader of the queue sees a request only in its own Space and only as a reviewer of it
  or as its applicant; the listing of a Space stays in the Space, carries no frozen documents
  and is a page of at most 100 rows.\<close>

theorem review_reads_scoped:
  "(case LoadReviewSnapshot s sc i isReviewer of
      Inl e \<Rightarrow> e = ErrNotFound
    | Inr q \<Rightarrow> q \<in> set (reviews s) \<and> rr_ID q = i \<and> rr_SpaceID q = s_SpaceID sc \<and>
        (isReviewer \<or> rr_ApplicantUID q = s_CallerUID sc) \<and> rr_DeletedAt q = None) \<and>
   (\<forall>q. q \<in> set (fst (ListReviewRequests s f)) \<longrightarrow>
      (\<exists>x \<in> set (reviews s). q = withoutSnapshot x \<and> rr_DeletedAt x = None \<and>
         (lf_SpaceID f = '''' \<or> rr_SpaceID x = lf_SpaceID f) \<and>
         (lf_ApplicantUID f = '''' \<or> rr_ApplicantUID x = lf_ApplicantUID f))) \<and>
   length (fst (ListReviewRequests s f)) \<le> 100"
proof (intro conjI allI impI)
  show "case LoadReviewSnapshot s sc i isReviewer of
      Inl e \<Rightarrow> e = ErrNotFound
    | Inr q \<Rightarrow> q \<in> set (reviews s) \<and> rr_ID q = i \<and> rr_SpaceID q = s_SpaceID sc \<and>
        (isReviewer \<or> rr_ApplicantUID q = s_CallerUID sc) \<and> rr_DeletedAt q = None"
    by (auto simp: LoadReviewSnapshot_def requestVisible_def reviewWhereScope_def
        dest!: find_Some_mem split: option.splits)
  have "nat (lf_Limit f) \<le> 100" if "\<not> (lf_Limit f \<le> 0 \<or> lf_Limit f > 100)" using that by (simp add: nat_le_iff)
  then have "(if lf_Limit f \<le> 0 \<or> lf_Limit f > 100 then 20 else nat (lf_Limit f)) \<le> 100" by simp
  then show "length (fst (ListReviewRequests s f)) \<le> 100"
    by (simp add: ListReviewRequests_def Let_def min_def del: nat_le_eq_zle nat_le_iff)
  fix q assume "q \<in> set (fst (ListReviewRequests s f))"
  then obtain x where x: "q = withoutSnapshot x" "x \<in> set (listedRequests s f)"
    by (auto simp: ListReviewRequests_def Let_def dest!: in_set_takeD in_set_dropD)
  then have "x \<in> set (reviews s) \<and> rr_DeletedAt x = None \<and> (lf_SpaceID f = '''' \<or> rr_SpaceID x = lf_SpaceID f) \<and>
      (lf_ApplicantUID f = '''' \<or> rr_ApplicantUID x = lf_ApplicantUID f)"
    by (auto simp: listedRequests_def requestVisible_def)
  with x(1) show "\<exists>x \<in> set (reviews s). q = withoutSnapshot x \<and> rr_DeletedAt x = None \<and>
         (lf_SpaceID f = '''' \<or> rr_SpaceID x = lf_SpaceID f) \<and>
         (lf_ApplicantUID f = '''' \<or> rr_ApplicantUID x = lf_ApplicantUID f)" by blast
qed

theorem review_reads_scoped_witness:
  "fst (ListReviewRequests reviewedStore \<lparr>lf_SpaceID = ''s1'', lf_ApplicantUID = '''', lf_Status = None, lf_Limit = 5, lf_Offset = 0\<rparr>)
     = [withoutSnapshot (sampleRequest ''q1'' ''k'')] \<and>
   (\<exists>x \<in> set (reviews reviewedStore). withoutSnapshot (sampleRequest ''q1'' ''k'') = withoutSnapshot x \<and> rr_SpaceID x = ''s1'')"
proof -
  let ?f = "\<lparr>lf_SpaceID = ''s1'', lf_ApplicantUID = '''', lf_Status = None, lf_Limit = 5, lf_Offset = 0\<rparr> :: ReviewListFilter"
  have page: "fst (ListReviewRequests reviewedStore ?f) = [withoutSnapshot (sampleRequest ''q1'' ''k'')]" by code_simp
  with review_reads_scoped [where s = reviewedStore and sc = sampleOwner and i = "''q1''" and isReviewer = True and f = ?f] show ?thesis by auto
qed

end
