(* ===== verification/Planning.thy ===== *)
theory Planning
  imports Reviews
begin

text \<open>
  The preview of an audience change (\<open>visibility_plan.go\<close>): the rows an audience change of a
  plugin needs to change with it, what blocks it, and, when the audience narrows, the
  published experts and teams that lose a dependency.

  The planner only reads, so it is written over one state of the database; the node cache of
  the code returns what a fresh read would return. \<open>visit\<close> and \<open>contains\<close> recurse along edges
  that may form cycles; they carry fuel, and every call that spends it has marked a new node
  before, so that \<open>maxGraphNodes\<close> bounds the depth and \<open>OutOfFuel\<close> is never returned. The Go maps
  \<open>visited\<close>, \<open>evidence\<close>, \<open>seen\<close> and \<open>affected\<close> are lists of keys. The blockers are sorted by the
  concatenation the code compares.
\<close>

section \<open>Fallible folds\<close>

primrec foldE :: "('x \<Rightarrow> 'a \<Rightarrow> 'e + 'a) \<Rightarrow> 'x list \<Rightarrow> 'a \<Rightarrow> 'e + 'a" where
  "foldE f [] a = Inr a"
| "foldE f (x # xs) a = (case f x a of Inl e \<Rightarrow> Inl e | Inr b \<Rightarrow> foldE f xs b)"

section \<open>Nodes\<close>

record visibilityNode =
  n_Plugin :: Plugin
  n_PublishedID :: string
  n_Releases :: "visibilityReleaseEdges list"
  n_Pending :: bool

definition visibilityBaseline :: "Repo \<Rightarrow> visibilityNode \<Rightarrow> string" where
  "visibilityBaseline r n = baselineDigest r
     \<lparr>bs_Scope = p_Visibility (n_Plugin n), bs_State = p_ListingState (n_Plugin n), bs_Published = n_PublishedID n,
      bs_Hash = p_PluginHash (n_Plugin n), bs_Releases = n_Releases n, bs_Pending = n_Pending n\<rparr>"

definition visibilityNodeName :: "visibilityNode \<Rightarrow> string" where
  "visibilityNodeName n =
     (case find (\<lambda>v. vre_ID v = n_PublishedID n \<and> vre_Name v \<noteq> '''') (n_Releases n) of
        None \<Rightarrow> p_Name (n_Plugin n) | Some v \<Rightarrow> vre_Name v)"

definition visibilityItem :: "Repo \<Rightarrow> visibilityNode \<Rightarrow> PluginVisibility \<Rightarrow> VisibilityPlanItem" where
  "visibilityItem r n to =
     \<lparr>vpi_PluginID = p_ID (n_Plugin n), vpi_Name = visibilityNodeName n, vpi_Type = p_Type (n_Plugin n),
      vpi_From = p_Visibility (n_Plugin n), vpi_To = to,
      vpi_PublishedVersionID = (if p_Type (n_Plugin n) = PluginTypeConnector then '''' else n_PublishedID n),
      vpi_Baseline = visibilityBaseline r n\<rparr>"

text \<open>The released versions of a plugin, in the order of their ids.\<close>

definition releasedEdges :: "Store \<Rightarrow> string \<Rightarrow> visibilityReleaseEdges list" where
  "releasedEdges s pid = concat (map (\<lambda>v. map (\<lambda>rel. \<lparr>vre_ID = v_ID v, vre_Label = rel_VersionLabel rel,
       vre_Name = manifestNameSQL (v_Manifest v), vre_Relations = v_Relations v\<rparr>)
       (filter (\<lambda>rel. rel_PluginID rel = pid \<and> rel_VersionID rel = v_ID v) (releases s)))
     (sort_key v_ID (filter (\<lambda>v. v_PluginID v = pid) (versions s))))"

definition readVisibilityNode :: "Store \<Rightarrow> string \<Rightarrow> RepoError + visibilityNode" where
  "readVisibilityNode s pid =
     (case find (\<lambda>p. p_ID p = pid \<and> p_Status p = 1 \<and> p_DeletedAt p = None) (plugins s) of
        None \<Rightarrow> Inl ErrNotFound
      | Some p \<Rightarrow>
          if length (releasedEdges s pid) > maxGraphEdges then Inl ErrGraphTooLarge
          else Inr \<lparr>n_Plugin = p, n_PublishedID = (case p_PublishedVersionID p of None \<Rightarrow> '''' | Some v \<Rightarrow> v),
                    n_Releases = releasedEdges s pid, n_Pending = pendingFor s pid\<rparr>)"

definition compatibilityLiveRelations :: "Store \<Rightarrow> string \<Rightarrow> PluginRelation list" where
  "compatibilityLiveRelations s source =
     map (\<lambda>e. \<lparr>r_ID = '''', r_SourcePluginID = '''', r_TargetPluginID = r_TargetPluginID e,
              r_TargetVersionID = r_TargetVersionID e, r_TargetPluginType = None, r_Type = r_Type e, r_SortOrder = 0,
              r_Data = None, r_Status = 0, r_CreatedBy = '''', r_CreatedAt = 0, r_UpdatedAt = 0, r_DeletedAt = None\<rparr>)
       (filter (\<lambda>e. r_SourcePluginID e = source \<and> r_Status e = 1 \<and> r_DeletedAt e = None) (relations s))"

text \<open>The live edges of a legacy row as one more release, with \<open>Status = 1\<close>.\<close>

definition liveRelease :: "Store \<Rightarrow> string \<Rightarrow> visibilityReleaseEdges" where
  "liveRelease s pid = \<lparr>vre_ID = '''', vre_Label = '''', vre_Name = '''',
     vre_Relations = map (\<lambda>e. e\<lparr>r_Status := 1\<rparr>) (compatibilityLiveRelations s pid)\<rparr>"

definition readPlanNode :: "Store \<Rightarrow> string \<Rightarrow> bool \<Rightarrow> RepoError + visibilityNode" where
  "readPlanNode s pid strict =
     (case readVisibilityNode s pid of
        Inl e \<Rightarrow> Inl e
      | Inr n \<Rightarrow>
          if strict \<or> \<not> p_IsEmbedded (n_Plugin n) \<or> n_PublishedID n \<noteq> '''' then Inr n
          else Inr (n\<lparr>n_Releases := n_Releases n @ [liveRelease s pid]\<rparr>))"

section \<open>The plan\<close>

record PlanState =
  ps_Visited :: "string list"
  ps_Evidence :: "(string \<times> string) list"
  ps_Changes :: "VisibilityPlanItem list"
  ps_Blockers :: "VisibilityPlanBlocker list"

definition ownNode :: "Scope \<Rightarrow> visibilityNode \<Rightarrow> bool" where
  "ownNode sc n \<longleftrightarrow> p_OwnerUID (n_Plugin n) = s_CallerUID sc \<and> p_SpaceID (n_Plugin n) = Some (s_SpaceID sc)"

definition accessibleNode :: "Scope \<Rightarrow> visibilityNode \<Rightarrow> bool" where
  "accessibleNode sc n \<longleftrightarrow> ownNode sc n \<or> p_Visibility (n_Plugin n) = PluginVisibilitySystem \<or>
     p_Visibility (n_Plugin n) = PluginVisibilityPublic \<or>
     (p_SpaceID (n_Plugin n) = Some (s_SpaceID sc) \<and> p_Visibility (n_Plugin n) = PluginVisibilitySpace)"

text \<open>The reason why a node blocks the plan, in the order of the checks.\<close>

definition blockReason :: "Scope \<Rightarrow> string \<Rightarrow> bool \<Rightarrow> visibilityNode \<Rightarrow> string option" where
  "blockReason sc rootID strict n =
     (let p = n_Plugin n in
      if \<not> accessibleNode sc n then Some ''dependency_not_accessible''
      else if p_ListingState p \<noteq> PluginListingStatePublished \<and>
           \<not> (p_ID p = rootID \<and> p_ListingState p = PluginListingStateDelisted) then Some ''dependency_unavailable''
      else if p_Visibility p \<noteq> PluginVisibilityPrivate then None
      else if \<not> ownNode sc n \<or> p_IsEmbedded p \<and> strict then Some ''dependency_not_owned''
      else if n_Pending n then Some ''review_pending''
      else if \<not> p_IsEmbedded p \<and> p_Type p \<noteq> PluginTypeConnector \<and> n_PublishedID n = '''' then Some ''version_baseline_unavailable''
      else None)"

definition changesNode :: "string \<Rightarrow> visibilityNode \<Rightarrow> bool" where
  "changesNode rootID n \<longleftrightarrow>
     (if p_Visibility (n_Plugin n) = PluginVisibilityPrivate then \<not> p_IsEmbedded (n_Plugin n)
      else p_ID (n_Plugin n) = rootID)"

definition dependencyEdge :: "PluginRelation \<Rightarrow> bool" where
  "dependencyEdge e \<longleftrightarrow> r_Status e = 1 \<and> r_DeletedAt e = None \<and>
     r_Type e \<in> {''expert_skill'', ''expert_connector'', ''expert_team_expert''}"

definition planEdges :: "visibilityNode \<Rightarrow> PluginRelation list" where
  "planEdges n = filter dependencyEdge (concat (map vre_Relations (n_Releases n)))"

definition addBlocker :: "string \<Rightarrow> string \<Rightarrow> string \<Rightarrow> PlanState \<Rightarrow> PlanState" where
  "addBlocker pid name reason st =
     st\<lparr>ps_Blockers := ps_Blockers st @ [\<lparr>vpb_PluginID = pid, vpb_Name = name, vpb_Reason = reason\<rparr>]\<rparr>"

text \<open>The frozen pin of an edge must be a release of its target.\<close>

definition pinReleased :: "bool \<Rightarrow> PluginRelation \<Rightarrow> visibilityNode \<Rightarrow> bool" where
  "pinReleased strict e child \<longleftrightarrow>
     p_Type (n_Plugin child) = PluginTypeConnector \<or>
     (\<exists>v \<in> set (n_Releases child). r_TargetVersionID e = Some (vre_ID v)) \<or>
     \<not> (strict \<or> r_TargetVersionID e \<noteq> None \<or> \<not> p_IsEmbedded (n_Plugin child) \<and> n_PublishedID child = '''')"

definition visitEdge ::
  "(string \<Rightarrow> RepoError + visibilityNode) \<Rightarrow> bool \<Rightarrow> (visibilityNode \<Rightarrow> PlanState \<Rightarrow> RepoError + PlanState) \<Rightarrow>
   PluginRelation \<Rightarrow> PlanState \<Rightarrow> RepoError + PlanState" where
  "visitEdge read strict visit e st =
     (case read (r_TargetPluginID e) of
        Inl err \<Rightarrow> if err = ErrNotFound then Inr (addBlocker (r_TargetPluginID e) '''' ''dependency_unavailable'' st) else Inl err
      | Inr child \<Rightarrow>
          if \<not> pinReleased strict e child
          then Inr (addBlocker (r_TargetPluginID e) '''' ''released_version_required'' st)
          else visit child st)"

definition markVisited :: "Repo \<Rightarrow> visibilityNode \<Rightarrow> PlanState \<Rightarrow> PlanState" where
  "markVisited r n st =
     st\<lparr>ps_Visited := ps_Visited st @ [p_ID (n_Plugin n)],
       ps_Evidence := ps_Evidence st @ [(p_ID (n_Plugin n), visibilityBaseline r n)]\<rparr>"

definition recordChange :: "Repo \<Rightarrow> string \<Rightarrow> PluginVisibility \<Rightarrow> visibilityNode \<Rightarrow> PlanState \<Rightarrow> PlanState" where
  "recordChange r rootID target n st =
     (if changesNode rootID n then st\<lparr>ps_Changes := ps_Changes st @ [visibilityItem r n target]\<rparr> else st)"

primrec visit ::
  "nat \<Rightarrow> Repo \<Rightarrow> Scope \<Rightarrow> string \<Rightarrow> PluginVisibility \<Rightarrow> (string \<Rightarrow> RepoError + visibilityNode) \<Rightarrow> bool \<Rightarrow>
   visibilityNode \<Rightarrow> PlanState \<Rightarrow> RepoError + PlanState" where
  "visit 0 r sc rootID target read strict n st = Inl OutOfFuel"
| "visit (Suc k) r sc rootID target read strict n st =
     (if p_ID (n_Plugin n) \<in> set (ps_Visited st) then Inr st
      else if length (ps_Visited st) + 1 > maxGraphNodes then Inl ErrGraphTooLarge
      else case blockReason sc rootID strict n of
          Some reason \<Rightarrow>
            Inr (addBlocker (p_ID (n_Plugin n)) (if accessibleNode sc n then p_Name (n_Plugin n) else '''') reason (markVisited r n st))
        | None \<Rightarrow>
            if target \<noteq> PluginVisibilitySpace then Inr (recordChange r rootID target n (markVisited r n st))
            else foldE (visitEdge read strict (visit k r sc rootID target read strict)) (planEdges n)
                   (recordChange r rootID target n (markVisited r n st)))"

definition buildVisibilityPlan ::
  "Repo \<Rightarrow> Scope \<Rightarrow> visibilityNode \<Rightarrow> PluginVisibility \<Rightarrow> (string \<Rightarrow> RepoError + visibilityNode) \<Rightarrow> bool \<Rightarrow>
   RepoError + VisibilityPlan" where
  "buildVisibilityPlan r sc root target read strict =
     (case visit (maxGraphNodes + 1) r sc (p_ID (n_Plugin root)) target read strict root
             \<lparr>ps_Visited = [], ps_Evidence = [], ps_Changes = [], ps_Blockers = []\<rparr> of
        Inl e \<Rightarrow> Inl e
      | Inr st \<Rightarrow>
          let plan = \<lparr>vp_PluginID = p_ID (n_Plugin root), vp_Revision = '''', vp_Changes = sort_key vpi_PluginID (ps_Changes st),
                      vp_Affected = [], vp_Blockers = sort_key (\<lambda>b. vpb_PluginID b @ vpb_Reason b) (ps_Blockers st)\<rparr> in
          Inr (plan\<lparr>vp_Revision := planDigest r plan (sort_key fst (ps_Evidence st))\<rparr>))"

section \<open>Impact of a narrower audience\<close>

record ImpactRoot =
  ir_ID :: string
  ir_Accessible :: bool

text \<open>The dependency edges of a node that a reader of the version \<open>pin\<close> depends on; an unpinned
  legacy publication depends on its live edges as well.\<close>

definition consumerEdges :: "Store \<Rightarrow> visibilityNode \<Rightarrow> string option \<Rightarrow> PluginRelation list" where
  "consumerEdges s n pin =
     (let live = pin = None \<and> n_PublishedID n = '''' \<and> p_ListingState (n_Plugin n) = PluginListingStatePublished;
          rels = n_Releases n @ (if live then [liveRelease s (p_ID (n_Plugin n))] else []) in
      filter dependencyEdge (concat (map vre_Relations
        (filter (\<lambda>v. case pin of None \<Rightarrow> True | Some x \<Rightarrow> vre_ID v = x) rels))))"

definition seenKey :: "string \<Rightarrow> string option \<Rightarrow> string" where
  "seenKey pid pin = (case pin of None \<Rightarrow> pid | Some v \<Rightarrow> pid @ '':'' @ v)"

text \<open>The first edge that finds the root ends the search.\<close>

primrec anyEdge ::
  "(PluginRelation \<Rightarrow> string list \<Rightarrow> RepoError + (bool \<times> string list)) \<Rightarrow> PluginRelation list \<Rightarrow> string list \<Rightarrow>
   RepoError + (bool \<times> string list)" where
  "anyEdge f [] seen = Inr (False, seen)"
| "anyEdge f (e # es) seen =
     (case f e seen of
        Inl err \<Rightarrow> Inl err
      | Inr (found, seen') \<Rightarrow> if found then Inr (True, seen') else anyEdge f es seen')"

primrec contains ::
  "nat \<Rightarrow> Store \<Rightarrow> (string \<Rightarrow> RepoError + visibilityNode) \<Rightarrow> ImpactRoot \<Rightarrow> string list \<Rightarrow>
   string \<Rightarrow> string option \<Rightarrow> string list \<Rightarrow> RepoError + (bool \<times> string list)" where
  "contains 0 s read root hit pid pin seen = Inl OutOfFuel"
| "contains (Suc k) s read root hit pid pin seen =
     (if pid = ir_ID root then Inr (\<not> ir_Accessible root, seen)
      else if pid \<in> set hit then Inr (True, seen)
      else if seenKey pid pin \<in> set seen then Inr (False, seen)
      else if length seen + 1 > maxGraphNodes then Inl ErrGraphTooLarge
      else
        (case read pid of
           Inl e \<Rightarrow> if e = ErrNotFound then Inr (False, seen @ [seenKey pid pin]) else Inl e
         | Inr n \<Rightarrow>
             anyEdge (\<lambda>e. contains k s read root hit (r_TargetPluginID e) (r_TargetVersionID e))
               (consumerEdges s n pin) (seen @ [seenKey pid pin])))"

record Impact =
  im_Ids :: "string list"
  im_Items :: "VisibilityPlanItem list"
  im_Grew :: bool

definition affectedItem :: "Repo \<Rightarrow> Scope \<Rightarrow> visibilityNode \<Rightarrow> VisibilityPlanItem" where
  "affectedItem r sc n =
     (visibilityItem r n (p_Visibility (n_Plugin n)))\<lparr>vpi_Name :=
        (if p_Visibility (n_Plugin n) = PluginVisibilityPrivate \<and> p_OwnerUID (n_Plugin n) \<noteq> s_CallerUID sc then ''''
         else visibilityNodeName n)\<rparr>"

definition rootAccessible :: "visibilityNode \<Rightarrow> visibilityNode \<Rightarrow> bool" where
  "rootAccessible root n \<longleftrightarrow>
     p_Visibility (n_Plugin n) = PluginVisibilityPrivate \<and> p_OwnerUID (n_Plugin n) = p_OwnerUID (n_Plugin root)"

definition growOne ::
  "Repo \<Rightarrow> Store \<Rightarrow> Scope \<Rightarrow> visibilityNode \<Rightarrow> (string \<Rightarrow> RepoError + visibilityNode) \<Rightarrow> string \<Rightarrow> Impact \<Rightarrow> RepoError + Impact" where
  "growOne r s sc root read pid st =
     (if pid = p_ID (n_Plugin root) \<or> pid \<in> set (im_Ids st) then Inr st
      else case read pid of
        Inl e \<Rightarrow> Inl e
      | Inr n \<Rightarrow>
          (case contains (maxGraphNodes + 1) s read \<lparr>ir_ID = p_ID (n_Plugin root), ir_Accessible = rootAccessible root n\<rparr>
                  (im_Ids st) pid None [] of
             Inl e \<Rightarrow> Inl e
           | Inr (found, _) \<Rightarrow>
               if \<not> found then Inr st
               else if length (im_Ids st) + 1 > maxGraphNodes then Inl ErrGraphTooLarge
               else Inr \<lparr>im_Ids = im_Ids st @ [pid], im_Items = im_Items st @ [affectedItem r sc n], im_Grew = True\<rparr>))"

text \<open>Passes over the candidates until one adds nothing; a pass that adds makes the list of
  affected rows longer, so there are at most as many as there are candidates, and one more.\<close>

primrec growLoop ::
  "nat \<Rightarrow> (string \<Rightarrow> Impact \<Rightarrow> RepoError + Impact) \<Rightarrow> string list \<Rightarrow> Impact \<Rightarrow> RepoError + Impact" where
  "growLoop 0 f ids st = Inl OutOfFuel"
| "growLoop (Suc k) f ids st =
     (case foldE f ids (st\<lparr>im_Grew := False\<rparr>) of
        Inl e \<Rightarrow> Inl e
      | Inr st' \<Rightarrow> if im_Grew st' then growLoop k f ids st' else Inr st')"

definition impactCandidates :: "Store \<Rightarrow> Scope \<Rightarrow> string list" where
  "impactCandidates s sc = sort (map p_ID (filter (\<lambda>p. p_SpaceID p = Some (s_SpaceID sc) \<and> p_Status p = 1 \<and>
     p_DeletedAt p = None \<and> p_ListingState p = PluginListingStatePublished \<and>
     (p_Type p = PluginTypeExpert \<or> p_Type p = PluginTypeExpertTeam)) (plugins s)))"

definition planReader :: "Store \<Rightarrow> visibilityNode \<Rightarrow> bool \<Rightarrow> string \<Rightarrow> RepoError + visibilityNode" where
  "planReader s root strict pid = (if pid = p_ID (n_Plugin root) then Inr root else readPlanNode s pid strict)"

definition visibilityPlanWithImpact ::
  "Repo \<Rightarrow> Store \<Rightarrow> Scope \<Rightarrow> visibilityNode \<Rightarrow> PluginVisibility \<Rightarrow> bool \<Rightarrow> RepoError + VisibilityPlan" where
  "visibilityPlanWithImpact r s sc root target strict =
     (case buildVisibilityPlan r sc root target (planReader s root strict) strict of
        Inl e \<Rightarrow> Inl e
      | Inr plan \<Rightarrow>
          if target \<noteq> PluginVisibilityPrivate then Inr plan
          else
            (case growLoop (length (impactCandidates s sc) + 1) (growOne r s sc root (planReader s root strict))
                    (impactCandidates s sc) \<lparr>im_Ids = [], im_Items = [], im_Grew = False\<rparr> of
               Inl e \<Rightarrow> Inl e
             | Inr st \<Rightarrow>
                 let plan' = plan\<lparr>vp_Affected := im_Items st\<rparr> in
                 Inr (plan'\<lparr>vp_Revision := impactDigest r plan'\<rparr>)))"

definition VisibilityPlan :: "Repo \<Rightarrow> Store \<Rightarrow> Scope \<Rightarrow> string \<Rightarrow> PluginVisibility \<Rightarrow> RepoError + VisibilityPlan" where
  "VisibilityPlan r s sc pid target =
     (if \<not> versionManagement r then Inl ErrVersionBaselineUnavailable
      else if target \<noteq> PluginVisibilityPrivate \<and> target \<noteq> PluginVisibilitySpace then Inl ErrConflict
      else case readVisibilityNode s pid of
        Inl e \<Rightarrow> Inl e
      | Inr root \<Rightarrow>
          if \<not> ownNode sc root \<or> p_IsEmbedded (n_Plugin root) \<or>
             p_Visibility (n_Plugin root) = PluginVisibilitySystem \<or> p_Visibility (n_Plugin root) = PluginVisibilityPublic
          then Inl ErrNotFound
          else visibilityPlanWithImpact r s sc root target (references r))"

text \<open>Revisions are hexadecimal digests, so \<open>strings.EqualFold\<close> ignores the case of ASCII letters.\<close>

definition sameVisibilityPlan :: "VisibilityPlan \<Rightarrow> VisibilityPlan \<Rightarrow> bool" where
  "sameVisibilityPlan a b \<longleftrightarrow> map asciiLower (vp_Revision a) = map asciiLower (vp_Revision b)"

definition sortStringsUnique :: "string list \<Rightarrow> string list" where
  "sortStringsUnique ids = remdups_adj (sort ids)"

section \<open>The planner terminates\<close>

lemma foldE_keeps:
  assumes "foldE f xs a = Inr b" and "I a" and "\<And>x a b. x \<in> set xs \<Longrightarrow> I a \<Longrightarrow> f x a = Inr b \<Longrightarrow> I b"
  shows "I b"
  using assms
proof (induction xs arbitrary: a)
  case (Cons x xs)
  then obtain c where "f x a = Inr c" "foldE f xs c = Inr b" by (auto split: sum.splits)
  moreover have "I c" using Cons.prems calculation by auto
  ultimately show ?case using Cons.IH [of c] Cons.prems(3) by auto
qed simp

lemma foldE_fails:
  assumes "foldE f xs a = Inl err" and "I a" and "\<And>x a b. x \<in> set xs \<Longrightarrow> I a \<Longrightarrow> f x a = Inr b \<Longrightarrow> I b"
  shows "\<exists>x \<in> set xs. \<exists>c. I c \<and> f x c = Inl err"
  using assms
proof (induction xs arbitrary: a)
  case (Cons x xs)
  show ?case
  proof (cases "f x a")
    case (Inl e)
    then show ?thesis using Cons.prems by auto
  next
    case (Inr b)
    then have "\<exists>y \<in> set xs. \<exists>c. I c \<and> f y c = Inl err"
      using Cons.prems by (intro Cons.IH [of b]) auto
    then show ?thesis by auto
  qed
qed simp

lemma addBlocker_fields [simp]:
  "ps_Visited (addBlocker i n x st) = ps_Visited st" "ps_Changes (addBlocker i n x st) = ps_Changes st"
  "ps_Blockers (addBlocker i n x st) = ps_Blockers st @ [\<lparr>vpb_PluginID = i, vpb_Name = n, vpb_Reason = x\<rparr>]"
  by (simp_all add: addBlocker_def)

text \<open>The visited list only grows, and stays within the bound.\<close>

definition grown :: "PlanState \<Rightarrow> PlanState \<Rightarrow> bool" where
  "grown st st' \<longleftrightarrow> prefix (ps_Visited st) (ps_Visited st') \<and> prefix (ps_Blockers st) (ps_Blockers st') \<and>
     set (ps_Changes st) \<subseteq> set (ps_Changes st') \<and>
     (length (ps_Visited st) \<le> maxGraphNodes \<longrightarrow> length (ps_Visited st') \<le> maxGraphNodes)"

lemma grown_refl [simp]: "grown st st"
  by (simp add: grown_def)

lemma grown_trans: "grown a b \<Longrightarrow> grown b c \<Longrightarrow> grown a c"
  by (auto simp: grown_def intro: prefix_order.trans)

lemma visitEdge_grown:
  assumes "visitEdge read strict v e st = Inr st'" and "\<And>n st st'. v n st = Inr st' \<Longrightarrow> grown st st'"
  shows "grown st st'"
  using assms by (auto simp: visitEdge_def grown_def split: sum.splits if_splits)

lemma marks_grown:
  "length (ps_Visited st) + 1 \<le> maxGraphNodes \<Longrightarrow> grown st (markVisited r n st)" "grown st (recordChange r rootID target n st)"
  by (auto simp: grown_def markVisited_def recordChange_def)

lemma visit_grown: "visit k r sc rootID target read strict n st = Inr st' \<Longrightarrow> grown st st'"
proof (induction k arbitrary: n st st')
  case (Suc k)
  show ?case
  proof (cases "p_ID (n_Plugin n) \<in> set (ps_Visited st) \<or> length (ps_Visited st) + 1 > maxGraphNodes")
    case True
    then show ?thesis using Suc.prems by (auto split: if_splits)
  next
    case False
    let ?st1 = "markVisited r n st" and ?st2 = "recordChange r rootID target n (markVisited r n st)"
    have g1: "grown st ?st1" using False by (intro marks_grown) simp
    have g2: "grown st ?st2" by (rule grown_trans [OF g1 marks_grown(2)])
    have "grown st c" if "grown st b" "visitEdge read strict (visit k r sc rootID target read strict) e b = Inr c" for b c e
      using grown_trans [OF that(1) visitEdge_grown [OF that(2) Suc.IH]] .
    then have "grown st st'"
      if "foldE (visitEdge read strict (visit k r sc rootID target read strict)) (planEdges n) ?st2 = Inr st'"
      using foldE_keeps [OF that, of "grown st"] g2 by blast
    moreover have "grown st (addBlocker i m x ?st1)" for i m x using g1 by (simp add: grown_def)
    ultimately show ?thesis using Suc.prems False g2 by (auto split: if_splits option.splits)
  qed
qed simp

text \<open>A call that spends fuel has marked a node, so the bound on the nodes bounds the depth.\<close>

lemma visit_fuel:
  assumes "\<And>i. read i \<noteq> Inl OutOfFuel"
  shows "maxGraphNodes < k + length (ps_Visited st) \<Longrightarrow> length (ps_Visited st) \<le> maxGraphNodes \<Longrightarrow>
    visit k r sc rootID target read strict n st \<noteq> Inl OutOfFuel"
proof (induction k arbitrary: n st)
  case (Suc k)
  let ?st2 = "recordChange r rootID target n (markVisited r n st)"
  let ?f = "visitEdge read strict (visit k r sc rootID target read strict)"
  define I where "I c \<longleftrightarrow> maxGraphNodes < k + length (ps_Visited c) \<and> length (ps_Visited c) \<le> maxGraphNodes" for c :: PlanState
  have keep: "I c" if "I b" "?f e b = Inr c" for b c e
  proof -
    have "grown b c" using that(2) by (rule visitEdge_grown) (rule visit_grown)
    then show ?thesis using that(1) by (auto simp: I_def grown_def prefix_def)
  qed
  have "?f e c \<noteq> Inl OutOfFuel" if "I c" for e c
    using Suc.IH that assms by (auto simp: visitEdge_def I_def split: sum.splits if_splits)
  then have "foldE ?f (planEdges n) ?st2 \<noteq> Inl OutOfFuel" if "I ?st2"
    using foldE_fails [of ?f "planEdges n" ?st2 OutOfFuel I] that keep by blast
  moreover have "I ?st2" if "length (ps_Visited st) + 1 \<le> maxGraphNodes"
    using Suc.prems that by (simp add: I_def markVisited_def recordChange_def)
  ultimately show ?case by (auto split: option.splits)
qed simp

section \<open>A plan without blockers is closed\<close>

text \<open>A node the plan covers: nothing blocks it, its own change is planned, and every dependency
  of every release is readable, pinned to a release, and itself among the visited nodes.\<close>

definition coveredNode ::
  "Repo \<Rightarrow> Scope \<Rightarrow> string \<Rightarrow> (string \<Rightarrow> RepoError + visibilityNode) \<Rightarrow> bool \<Rightarrow> string set \<Rightarrow>
   VisibilityPlanItem set \<Rightarrow> visibilityNode \<Rightarrow> bool" where
  "coveredNode r sc rootID read strict V C n \<longleftrightarrow>
     blockReason sc rootID strict n = None \<and> (changesNode rootID n \<longrightarrow> visibilityItem r n PluginVisibilitySpace \<in> C) \<and>
     (\<forall>e \<in> set (planEdges n). r_TargetPluginID e \<in> V \<and>
        (\<exists>c. read (r_TargetPluginID e) = Inr c \<and> pinReleased strict e c))"

definition covers ::
  "Repo \<Rightarrow> Scope \<Rightarrow> string \<Rightarrow> (string \<Rightarrow> RepoError + visibilityNode) \<Rightarrow> bool \<Rightarrow> PlanState \<Rightarrow> PlanState \<Rightarrow> bool" where
  "covers r sc rootID read strict st st' \<longleftrightarrow> grown st st' \<and>
     (\<forall>i \<in> set (ps_Visited st') - set (ps_Visited st). \<exists>n. read i = Inr n \<and>
        coveredNode r sc rootID read strict (set (ps_Visited st')) (set (ps_Changes st')) n)"

lemma coveredNode_mono:
  "coveredNode r sc rootID read strict V C n \<Longrightarrow> V \<subseteq> V' \<Longrightarrow> C \<subseteq> C' \<Longrightarrow> coveredNode r sc rootID read strict V' C' n"
  unfolding coveredNode_def by blast

lemma grown_sets: "grown st st' \<Longrightarrow> set (ps_Visited st) \<subseteq> set (ps_Visited st') \<and> set (ps_Changes st) \<subseteq> set (ps_Changes st')"
  by (auto simp: grown_def prefix_def)

lemma covers_trans:
  assumes "covers r sc rootID read strict a b" and "covers r sc rootID read strict b c"
  shows "covers r sc rootID read strict a c"
proof -
  have g: "grown a b" "grown b c" using assms by (simp_all add: covers_def)
  have "\<exists>n. read i = Inr n \<and> coveredNode r sc rootID read strict (set (ps_Visited c)) (set (ps_Changes c)) n"
    if i: "i \<in> set (ps_Visited c)" "i \<notin> set (ps_Visited a)" for i
  proof (cases "i \<in> set (ps_Visited b)")
    case True
    then obtain n where "read i = Inr n" "coveredNode r sc rootID read strict (set (ps_Visited b)) (set (ps_Changes b)) n"
      using assms(1) i(2) unfolding covers_def by blast
    then show ?thesis using coveredNode_mono grown_sets [OF g(2)] by blast
  next
    case False
    then show ?thesis using assms(2) i(1) unfolding covers_def by blast
  qed
  with grown_trans [OF g] show ?thesis unfolding covers_def by blast
qed

lemma grown_no_blockers: "grown st st' \<Longrightarrow> ps_Blockers st' = [] \<Longrightarrow> ps_Blockers st = []"
  by (simp add: grown_def)

text \<open>The edges of a node, given that the recursive visit covers.\<close>

lemma edges_covered:
  assumes "foldE (visitEdge read strict v) es st = Inr st'" and "ps_Blockers st' = []"
    and v: "\<And>n a b. read (p_ID (n_Plugin n)) = Inr n \<Longrightarrow> v n a = Inr b \<Longrightarrow> ps_Blockers b = [] \<Longrightarrow>
       covers r sc rootID read strict a b \<and> p_ID (n_Plugin n) \<in> set (ps_Visited b)"
    and g: "\<And>n a b. v n a = Inr b \<Longrightarrow> grown a b"
    and ids: "\<And>i n. read i = Inr n \<Longrightarrow> p_ID (n_Plugin n) = i"
  shows "covers r sc rootID read strict st st' \<and>
    (\<forall>e \<in> set es. r_TargetPluginID e \<in> set (ps_Visited st') \<and> (\<exists>c. read (r_TargetPluginID e) = Inr c \<and> pinReleased strict e c))"
  using assms(1)
proof (induction es arbitrary: st)
  case Nil
  then show ?case by (simp add: covers_def)
next
  case (Cons e es)
  then obtain m where m: "visitEdge read strict v e st = Inr m" "foldE (visitEdge read strict v) es m = Inr st'"
    by (auto split: sum.splits)
  have "grown m st'"
  proof (rule foldE_keeps [OF m(2), of "grown m"])
    fix x a b assume ma: "grown m a" and run: "visitEdge read strict v x a = Inr b"
    have "grown a b" using run g by (rule visitEdge_grown)
    with ma show "grown m b" by (rule grown_trans)
  qed simp
  then have clear: "ps_Blockers m = []" by (rule grown_no_blockers) (rule assms(2))
  from m(1) clear obtain c where c: "read (r_TargetPluginID e) = Inr c" "pinReleased strict e c" "v c st = Inr m"
    by (auto simp: visitEdge_def split: sum.splits if_splits)
  have "covers r sc rootID read strict st m \<and> p_ID (n_Plugin c) \<in> set (ps_Visited m)"
    using c(1,3) clear ids [OF c(1)] by (intro v) simp_all
  with Cons.IH [OF m(2)] c(1,2) ids [OF c(1)] grown_sets [OF \<open>grown m st'\<close>] covers_trans show ?case
    by fastforce
qed

lemma visit_covers:
  assumes ids: "\<And>i n. read i = Inr n \<Longrightarrow> p_ID (n_Plugin n) = i"
  shows "read (p_ID (n_Plugin n)) = Inr n \<Longrightarrow> visit k r sc rootID PluginVisibilitySpace read strict n st = Inr st' \<Longrightarrow>
    ps_Blockers st' = [] \<Longrightarrow> covers r sc rootID read strict st st' \<and> p_ID (n_Plugin n) \<in> set (ps_Visited st')"
proof (induction k arbitrary: n st st')
  case (Suc k)
  show ?case
  proof (cases "p_ID (n_Plugin n) \<in> set (ps_Visited st)")
    case True
    then show ?thesis using Suc.prems by (simp add: covers_def)
  next
    case False
    let ?st2 = "recordChange r rootID PluginVisibilitySpace n (markVisited r n st)"
    from Suc.prems False have free: "blockReason sc rootID strict n = None"
      and len: "length (ps_Visited st) + 1 \<le> maxGraphNodes"
      and run: "foldE (visitEdge read strict (visit k r sc rootID PluginVisibilitySpace read strict)) (planEdges n) ?st2 = Inr st'"
      by (auto split: if_splits option.splits)
    have cov: "covers r sc rootID read strict ?st2 st' \<and>
      (\<forall>e \<in> set (planEdges n). r_TargetPluginID e \<in> set (ps_Visited st') \<and>
         (\<exists>c. read (r_TargetPluginID e) = Inr c \<and> pinReleased strict e c))"
      using run Suc.prems(3) Suc.IH visit_grown ids by (rule edges_covered)
    have g2: "grown st ?st2" by (rule grown_trans [OF marks_grown(1) [OF len] marks_grown(2)])
    have g3: "grown ?st2 st'" using cov by (simp add: covers_def)
    have vis: "set (ps_Visited ?st2) = insert (p_ID (n_Plugin n)) (set (ps_Visited st))"
      by (auto simp: recordChange_def markVisited_def)
    have "changesNode rootID n \<longrightarrow> visibilityItem r n PluginVisibilitySpace \<in> set (ps_Changes ?st2)"
      by (simp add: recordChange_def)
    then have "coveredNode r sc rootID read strict (set (ps_Visited st')) (set (ps_Changes st')) n"
      using cov free grown_sets [OF g3] unfolding coveredNode_def by blast
    then have "\<exists>m. read i = Inr m \<and> coveredNode r sc rootID read strict (set (ps_Visited st')) (set (ps_Changes st')) m"
      if "i \<in> set (ps_Visited st') - set (ps_Visited st)" for i
      using that cov Suc.prems(1) vis by (cases "i = p_ID (n_Plugin n)") (auto simp: covers_def)
    with grown_trans [OF g2 g3] vis grown_sets [OF g3] show ?thesis
      by (simp add: covers_def)
  qed
qed simp

text \<open>The nodes a root depends on through the dependencies of all releases.\<close>

inductive planReach :: "(string \<Rightarrow> RepoError + visibilityNode) \<Rightarrow> visibilityNode \<Rightarrow> visibilityNode \<Rightarrow> bool"
  for read root where
  start: "planReach read root root"
| edge: "planReach read root n \<Longrightarrow> e \<in> set (planEdges n) \<Longrightarrow> read (r_TargetPluginID e) = Inr c \<Longrightarrow> planReach read root c"

lemma buildVisibilityPlan_covers:
  assumes run: "buildVisibilityPlan r sc root PluginVisibilitySpace read strict = Inr plan" and "vp_Blockers plan = []"
    and ids: "\<And>i n. read i = Inr n \<Longrightarrow> p_ID (n_Plugin n) = i" and root: "read (p_ID (n_Plugin root)) = Inr root"
    and "planReach read root n"
  obtains V where "coveredNode r sc (p_ID (n_Plugin root)) read strict V (set (vp_Changes plan)) n"
proof -
  let ?st0 = "\<lparr>ps_Visited = [], ps_Evidence = [], ps_Changes = [], ps_Blockers = []\<rparr> :: PlanState"
  from run obtain st where st: "visit (maxGraphNodes + 1) r sc (p_ID (n_Plugin root)) PluginVisibilitySpace read strict root ?st0 = Inr st"
    and plan: "set (vp_Changes plan) = set (ps_Changes st)" "ps_Blockers st = [] \<longleftrightarrow> vp_Blockers plan = []"
    by (auto simp: buildVisibilityPlan_def Let_def split: sum.splits) (metis length_0_conv length_sort)+
  have clear: "ps_Blockers st = []" using plan(2) assms(2) by simp
  from visit_covers [where read = read, OF ids root st clear]
  have all: "\<forall>i \<in> set (ps_Visited st). \<exists>n. read i = Inr n \<and>
      coveredNode r sc (p_ID (n_Plugin root)) read strict (set (ps_Visited st)) (set (ps_Changes st)) n"
    and start: "p_ID (n_Plugin root) \<in> set (ps_Visited st)" by (auto simp: covers_def)
  from assms(5) have "p_ID (n_Plugin n) \<in> set (ps_Visited st) \<and> read (p_ID (n_Plugin n)) = Inr n"
  proof (induction rule: planReach.induct)
    case start
    then show ?case using root \<open>p_ID (n_Plugin root) \<in> set (ps_Visited st)\<close> by simp
  next
    case (edge n e c)
    with all have "coveredNode r sc (p_ID (n_Plugin root)) read strict (set (ps_Visited st)) (set (ps_Changes st)) n" by auto
    with edge.hyps ids [OF edge.hyps(3)] show ?case by (auto simp: coveredNode_def)
  qed
  with all plan(1) show thesis using that [of "set (ps_Visited st)"] by fastforce
qed

lemma readVisibilityNode_id: "readVisibilityNode s i = Inr n \<Longrightarrow> p_ID (n_Plugin n) = i"
  by (auto simp: readVisibilityNode_def dest: find_Some_mem split: option.splits if_splits)

lemma planReader_id: "planReader s root strict i = Inr n \<Longrightarrow> p_ID (n_Plugin n) = i"
  by (auto simp: planReader_def readPlanNode_def dest: readVisibilityNode_id split: sum.splits if_splits)

lemma planReader_root [simp]: "planReader s root strict (p_ID (n_Plugin root)) = Inr root"
  by (simp add: planReader_def)

lemma planReader_fuel: "planReader s root strict i \<noteq> Inl OutOfFuel"
  by (auto simp: planReader_def readPlanNode_def readVisibilityNode_def split: sum.splits option.splits if_splits)

lemma VisibilityPlan_space_run:
  assumes "VisibilityPlan r s sc pid PluginVisibilitySpace = Inr plan"
  obtains root where "readVisibilityNode s pid = Inr root" and "ownNode sc root" and "\<not> p_IsEmbedded (n_Plugin root)"
    and "buildVisibilityPlan r sc root PluginVisibilitySpace (planReader s root (references r)) (references r) = Inr plan"
  using assms by (auto simp: VisibilityPlan_def visibilityPlanWithImpact_def split: sum.splits if_splits)

text \<open>What a planned change is: the row of a node that was read, which the caller owns.\<close>

definition ownChange :: "Repo \<Rightarrow> Scope \<Rightarrow> PluginVisibility \<Rightarrow> (string \<Rightarrow> RepoError + visibilityNode) \<Rightarrow> VisibilityPlanItem \<Rightarrow> bool" where
  "ownChange r sc target read item \<longleftrightarrow>
     (\<exists>n. read (vpi_PluginID item) = Inr n \<and> item = visibilityItem r n target \<and> ownNode sc n \<and> \<not> p_IsEmbedded (n_Plugin n))"

lemma recordChange_own:
  assumes "blockReason sc rootID strict n = None" and "read (p_ID (n_Plugin n)) = Inr n"
    and "read rootID = Inr root" and "ownNode sc root" and "\<not> p_IsEmbedded (n_Plugin root)"
    and "\<forall>x \<in> set (ps_Changes st). ownChange r sc target read x"
  shows "\<forall>x \<in> set (ps_Changes (recordChange r rootID target n st)). ownChange r sc target read x"
proof -
  have "ownChange r sc target read (visibilityItem r n target)" if "changesNode rootID n"
  proof (cases "p_Visibility (n_Plugin n) = PluginVisibilityPrivate")
    case True
    then show ?thesis using that assms(1,2)
      by (auto simp: ownChange_def changesNode_def blockReason_def visibilityItem_def Let_def split: if_splits)
  next
    case False
    then have "n = root" using that assms(2,3) by (auto simp: changesNode_def)
    then show ?thesis using assms(2,4,5) by (auto simp: ownChange_def visibilityItem_def)
  qed
  with assms(6) show ?thesis by (auto simp: recordChange_def)
qed

lemma visit_own:
  assumes ids: "\<And>i n. read i = Inr n \<Longrightarrow> p_ID (n_Plugin n) = i"
    and root: "read rootID = Inr root" "ownNode sc root" "\<not> p_IsEmbedded (n_Plugin root)"
  shows "visit k r sc rootID target read strict n st = Inr st' \<Longrightarrow> read (p_ID (n_Plugin n)) = Inr n \<Longrightarrow>
    \<forall>x \<in> set (ps_Changes st). ownChange r sc target read x \<Longrightarrow> \<forall>x \<in> set (ps_Changes st'). ownChange r sc target read x"
proof (induction k arbitrary: n st st')
  case (Suc k)
  let ?I = "\<lambda>c :: PlanState. \<forall>x \<in> set (ps_Changes c). ownChange r sc target read x"
  let ?st2 = "recordChange r rootID target n (markVisited r n st)"
  have m: "?I (markVisited r n st)" using Suc.prems(3) by (simp add: markVisited_def)
  have I2: "?I ?st2" if "blockReason sc rootID strict n = None"
    by (rule recordChange_own [OF that Suc.prems(2) root m])
  have "?I c" if "?I b" "visitEdge read strict (visit k r sc rootID target read strict) e b = Inr c" for b c e
    using that(2) Suc.IH [OF _ _ that(1)] that(1) ids by (fastforce simp: visitEdge_def split: sum.splits if_splits)
  then have "?I st'" if "foldE (visitEdge read strict (visit k r sc rootID target read strict)) (planEdges n) ?st2 = Inr st'"
      "blockReason sc rootID strict n = None"
    using foldE_keeps [OF that(1), of ?I] I2 [OF that(2)] by blast
  then show ?case using Suc.prems m I2 by (auto split: if_splits option.splits)
qed simp


definition privateReleased :: "string \<Rightarrow> PluginType \<Rightarrow> string \<Rightarrow> Plugin" where
  "privateReleased pid ty vid = (samplePlugin pid ty ''u1'')\<lparr>p_Visibility := PluginVisibilityPrivate,
     p_CurrentVersionID := Some vid, p_CurrentVersion := Some ''1.0.0'', p_PublishedVersionID := Some vid\<rparr>"

text \<open>A private expert and the private skill its release is pinned to.\<close>

definition planStore :: Store where
  "planStore = emptyStore\<lparr>plugins := [privateReleased ''k'' PluginTypeSkill ''vk'', privateReleased ''e'' PluginTypeExpert ''ve''],
     versions := [sampleVersion ''k'' ''vk'' [],
       sampleVersion ''e'' ''ve'' [(sampleEdge ''e'' ''k'' ''expert_skill'')\<lparr>r_TargetVersionID := Some ''vk''\<rparr>]],
     releases := [sampleRelease ''k'' ''vk'', sampleRelease ''e'' ''ve'']\<rparr>"


section \<open>The impact search terminates\<close>

lemma anyEdge_keeps:
  assumes "anyEdge f es a = Inr (b, c)" and "I a" and "\<And>e a b c. I a \<Longrightarrow> f e a = Inr (b, c) \<Longrightarrow> I c"
  shows "I c"
  using assms by (induction es arbitrary: a) (fastforce split: sum.splits if_splits prod.splits)+

lemma anyEdge_fails:
  assumes "anyEdge f es a = Inl err" and "I a" and "\<And>e a b c. I a \<Longrightarrow> f e a = Inr (b, c) \<Longrightarrow> I c"
  shows "\<exists>e c. I c \<and> f e c = Inl err"
  using assms by (induction es arbitrary: a) (fastforce split: sum.splits if_splits prod.splits)+

lemma contains_grown:
  "contains k s read root hit pid pin seen = Inr (b, seen') \<Longrightarrow>
     prefix seen seen' \<and> (length seen \<le> maxGraphNodes \<longrightarrow> length seen' \<le> maxGraphNodes)"
proof (induction k arbitrary: pid pin seen b seen')
  case (Suc k)
  define I where "I c \<longleftrightarrow> prefix (seen @ [seenKey pid pin]) c \<and> (length seen < maxGraphNodes \<longrightarrow> length c \<le> maxGraphNodes)" for c
  have "I c" if "anyEdge (\<lambda>e. contains k s read root hit (r_TargetPluginID e) (r_TargetVersionID e)) es (seen @ [seenKey pid pin]) = Inr (d, c)" for es c d
    by (rule anyEdge_keeps [OF that]) (use Suc.IH in \<open>auto simp: I_def intro: prefix_order.trans\<close>)
  then show ?case using Suc.prems
    by (fastforce simp: I_def prefix_def split: if_splits sum.splits)
qed simp

lemma contains_fuel:
  assumes "\<And>i. read i \<noteq> Inl OutOfFuel"
  shows "maxGraphNodes < k + length seen \<Longrightarrow> length seen \<le> maxGraphNodes \<Longrightarrow>
    contains k s read root hit pid pin seen \<noteq> Inl OutOfFuel"
proof (induction k arbitrary: pid pin seen)
  case (Suc k)
  define I where "I c \<longleftrightarrow> maxGraphNodes < k + length c \<and> length c \<le> maxGraphNodes" for c :: "string list"
  let ?f = "\<lambda>e :: PluginRelation. contains k s read root hit (r_TargetPluginID e) (r_TargetVersionID e)"
  have keep: "I c" if "I a" "?f e a = Inr (b, c)" for e a b c
    using contains_grown [OF that(2)] that(1) by (auto simp: I_def prefix_def)
  have "anyEdge ?f es (seen @ [seenKey pid pin]) \<noteq> Inl OutOfFuel" if "length seen + 1 \<le> maxGraphNodes" for es
  proof
    assume run: "anyEdge ?f es (seen @ [seenKey pid pin]) = Inl OutOfFuel"
    have "I (seen @ [seenKey pid pin])" using Suc.prems that by (simp add: I_def)
    then have "\<exists>e c. I c \<and> ?f e c = Inl OutOfFuel"
      by (rule anyEdge_fails [where I = I, OF run]) (rule keep)
    with Suc.IH show False by (auto simp: I_def)
  qed
  then show ?case using assms by (auto split: sum.splits)
qed simp

text \<open>A pass that grows takes a candidate out of those that are left.\<close>

lemma growOne_run:
  assumes "growOne r s sc root read pid st = Inr st'"
  shows "st' = st \<or> pid \<notin> set (im_Ids st) \<and> set (im_Ids st') = insert pid (set (im_Ids st))"
  using assms by (auto simp: growOne_def split: if_splits sum.splits)

lemma growPass_run:
  assumes "foldE (growOne r s sc root read) ids (st\<lparr>im_Grew := False\<rparr>) = Inr st'"
  shows "set (im_Ids st) \<subseteq> set (im_Ids st')" and "set (im_Ids st') \<subseteq> set (im_Ids st) \<union> set ids"
    and "im_Grew st' \<Longrightarrow> set (im_Ids st) \<noteq> set (im_Ids st')"
proof -
  define I where "I c \<longleftrightarrow> set (im_Ids st) \<subseteq> set (im_Ids c) \<and> set (im_Ids c) \<subseteq> set (im_Ids st) \<union> set ids \<and>
    (im_Grew c \<longrightarrow> set (im_Ids st) \<noteq> set (im_Ids c))" for c :: Impact
  have "I st'"
  proof (rule foldE_keeps [OF assms, of I])
    fix x a b assume "x \<in> set ids" "I a" "growOne r s sc root read x a = Inr b"
    with growOne_run [of r s sc root read x a b] show "I b" by (auto simp: I_def)
  qed (simp add: I_def)
  then show "set (im_Ids st) \<subseteq> set (im_Ids st')" "set (im_Ids st') \<subseteq> set (im_Ids st) \<union> set ids"
    "im_Grew st' \<Longrightarrow> set (im_Ids st) \<noteq> set (im_Ids st')" by (simp_all add: I_def)
qed

lemma growOne_fuel:
  assumes "\<And>i. read i \<noteq> Inl OutOfFuel"
  shows "growOne r s sc root read pid st \<noteq> Inl OutOfFuel"
proof -
  have "contains (maxGraphNodes + 1) s read root' hit pid None [] \<noteq> Inl OutOfFuel" for root' hit
    using assms by (rule contains_fuel) simp_all
  then show ?thesis using assms by (auto simp: growOne_def simp del: contains.simps split: sum.splits prod.splits)
qed

lemma growLoop_fuel:
  assumes "\<And>i. read i \<noteq> Inl OutOfFuel"
  shows "card (set ids - set (im_Ids st)) < k \<Longrightarrow> growLoop k (growOne r s sc root read) ids st \<noteq> Inl OutOfFuel"
proof (induction k arbitrary: st)
  case (Suc k)
  let ?pass = "foldE (growOne r s sc root read) ids (st\<lparr>im_Grew := False\<rparr>)"
  have "?pass \<noteq> Inl OutOfFuel"
    using foldE_fails [of "growOne r s sc root read" ids _ OutOfFuel "\<lambda>_. True"] growOne_fuel [where read = read, OF assms]
    by fastforce
  moreover have "growLoop k (growOne r s sc root read) ids st' \<noteq> Inl OutOfFuel" if pass: "?pass = Inr st'" and "im_Grew st'" for st'
  proof (rule Suc.IH)
    have "set ids - set (im_Ids st') \<subset> set ids - set (im_Ids st)"
      using growPass_run [OF pass] that(2) by blast
    then have "card (set ids - set (im_Ids st')) < card (set ids - set (im_Ids st))" by (intro psubset_card_mono) auto
    with Suc.prems show "card (set ids - set (im_Ids st')) < k" by simp
  qed
  ultimately show ?case by (auto split: sum.splits)
qed simp

text \<open>C10: the preview of an audience change always ends: the depth-first walk over the released
  dependencies, the search for the root from every published expert, and the passes over the
  affected rows never run out of rounds, whatever cycles the stored graphs contain.\<close>

theorem VisibilityPlan_total: "VisibilityPlan r s sc pid target \<noteq> Inl OutOfFuel"
proof -
  have build: "buildVisibilityPlan r sc root target (planReader s root strict) strict \<noteq> Inl OutOfFuel" for root strict
  proof -
    let ?st0 = "\<lparr>ps_Visited = [], ps_Evidence = [], ps_Changes = [], ps_Blockers = []\<rparr> :: PlanState"
    have "visit (maxGraphNodes + 1) r sc (p_ID (n_Plugin root)) target (planReader s root strict) strict root ?st0 \<noteq> Inl OutOfFuel"
      by (rule visit_fuel) (simp_all add: planReader_fuel)
    then show ?thesis by (auto simp: buildVisibilityPlan_def Let_def simp del: visit.simps split: sum.splits)
  qed
  have "card (set (impactCandidates s sc)) < length (impactCandidates s sc) + 1" by (simp add: card_length less_Suc_eq_le)
  then have grow: "growLoop (length (impactCandidates s sc) + 1) (growOne r s sc root (planReader s root strict))
      (impactCandidates s sc) \<lparr>im_Ids = [], im_Items = [], im_Grew = False\<rparr> \<noteq> Inl OutOfFuel" for root strict
    by (intro growLoop_fuel) (simp_all add: planReader_fuel)
  have "readVisibilityNode s pid \<noteq> Inl OutOfFuel"
    by (auto simp: readVisibilityNode_def split: option.splits)
  with build grow show ?thesis
    by (auto simp: VisibilityPlan_def visibilityPlanWithImpact_def Let_def simp del: growLoop.simps split: sum.splits)
qed

section \<open>The impact of a narrower audience is complete\<close>

text \<open>The resources, at the versions it uses them, that a published row depends on.\<close>

inductive consumes :: "Store \<Rightarrow> (string \<Rightarrow> RepoError + visibilityNode) \<Rightarrow> string \<Rightarrow> string \<Rightarrow> string option \<Rightarrow> bool"
  for s read start where
  itself: "consumes s read start start None"
| dependency: "consumes s read start pid pin \<Longrightarrow> read pid = Inr n \<Longrightarrow> e \<in> set (consumerEdges s n pin) \<Longrightarrow>
     consumes s read start (r_TargetPluginID e) (r_TargetVersionID e)"

text \<open>The code keys a visit by the id, or the id, a colon and the pin; the keys tell visits apart
  when ids (they are UUIDs) have no colon.\<close>

definition plainTargets :: "Store \<Rightarrow> (string \<Rightarrow> RepoError + visibilityNode) \<Rightarrow> bool" where
  "plainTargets s read \<longleftrightarrow> (\<forall>i n pin. read i = Inr n \<longrightarrow>
     (\<forall>e \<in> set (consumerEdges s n pin). CHR '':'' \<notin> set (r_TargetPluginID e)))"

lemma seenKey_inj:
  assumes "seenKey a p = seenKey b q" and "CHR '':'' \<notin> set a" and "CHR '':'' \<notin> set b"
  shows "a = b \<and> p = q"
proof -
  have take: "takeWhile (\<lambda>c. c \<noteq> CHR '':'') (seenKey x y) = x" if "CHR '':'' \<notin> set x" for x y
  proof -
    have "\<forall>c \<in> set x. c \<noteq> CHR '':''" using that by auto
    then show ?thesis by (cases y) (simp_all add: seenKey_def takeWhile_append2 takeWhile_eq_all_conv)
  qed
  have "a = b" using take [OF assms(2), of p] take [OF assms(3), of q] assms(1) by simp
  with assms(1,2) show ?thesis by (cases p; cases q) (auto simp: seenKey_def)
qed

text \<open>A visit whose outcome was negative: neither the root nor an affected row, and everything it
  uses was visited with that outcome.\<close>

definition spared ::
  "Store \<Rightarrow> (string \<Rightarrow> RepoError + visibilityNode) \<Rightarrow> string \<Rightarrow> string list \<Rightarrow> string set \<Rightarrow> string \<Rightarrow> string option \<Rightarrow> bool" where
  "spared s read rootID hit S pid pin \<longleftrightarrow> pid \<noteq> rootID \<and> pid \<notin> set hit \<and>
     (\<forall>n. read pid = Inr n \<longrightarrow> (\<forall>e \<in> set (consumerEdges s n pin).
        r_TargetPluginID e \<noteq> rootID \<and> r_TargetPluginID e \<notin> set hit \<and> seenKey (r_TargetPluginID e) (r_TargetVersionID e) \<in> S))"

definition sparedSince ::
  "Store \<Rightarrow> (string \<Rightarrow> RepoError + visibilityNode) \<Rightarrow> string \<Rightarrow> string list \<Rightarrow> string list \<Rightarrow> string list \<Rightarrow> bool" where
  "sparedSince s read rootID hit seen seen' \<longleftrightarrow> set seen \<subseteq> set seen' \<and>
     (\<forall>x \<in> set seen' - set seen. \<exists>pid pin. x = seenKey pid pin \<and> CHR '':'' \<notin> set pid \<and> spared s read rootID hit (set seen') pid pin)"

lemma sparedSince_refl [simp]: "sparedSince s read rootID hit seen seen"
  by (simp add: sparedSince_def)

lemma spared_mono: "spared s read rootID hit S pid pin \<Longrightarrow> S \<subseteq> T \<Longrightarrow> spared s read rootID hit T pid pin"
  unfolding spared_def by blast

lemma sparedSince_trans:
  assumes "sparedSince s read rootID hit a b" and "sparedSince s read rootID hit b c"
  shows "sparedSince s read rootID hit a c"
proof -
  have sub: "set a \<subseteq> set b" "set b \<subseteq> set c" using assms by (auto simp: sparedSince_def)
  have "\<exists>pid pin. x = seenKey pid pin \<and> CHR '':'' \<notin> set pid \<and> spared s read rootID hit (set c) pid pin"
    if "x \<in> set c" "x \<notin> set a" for x
  proof (cases "x \<in> set b")
    case True
    with assms(1) that(2) obtain pid pin where "x = seenKey pid pin" "CHR '':'' \<notin> set pid" "spared s read rootID hit (set b) pid pin"
      unfolding sparedSince_def by blast
    with spared_mono [OF _ sub(2)] show ?thesis by blast
  next
    case False
    with assms(2) that(1) show ?thesis unfolding sparedSince_def by blast
  qed
  with sub show ?thesis unfolding sparedSince_def by blast
qed

lemma contains_spares:
  assumes plain: "plainTargets s read"
  shows "contains k s read \<lparr>ir_ID = rootID, ir_Accessible = False\<rparr> hit pid pin seen = Inr (False, seen') \<Longrightarrow>
    CHR '':'' \<notin> set pid \<Longrightarrow>
    sparedSince s read rootID hit seen seen' \<and> pid \<noteq> rootID \<and> pid \<notin> set hit \<and> seenKey pid pin \<in> set seen'"
proof (induction k arbitrary: pid pin seen seen')
  case (Suc k)
  let ?key = "seenKey pid pin" and ?root = "\<lparr>ir_ID = rootID, ir_Accessible = False\<rparr> :: ImpactRoot"
  let ?f = "\<lambda>e :: PluginRelation. contains k s read ?root hit (r_TargetPluginID e) (r_TargetVersionID e)"
  from Suc.prems have ids: "pid \<noteq> rootID" "pid \<notin> set hit" by (auto split: if_splits)
  have edges: "sparedSince s read rootID hit a b \<and> (\<forall>e \<in> set es. r_TargetPluginID e \<noteq> rootID \<and> r_TargetPluginID e \<notin> set hit \<and>
        seenKey (r_TargetPluginID e) (r_TargetVersionID e) \<in> set b)"
    if "anyEdge ?f es a = Inr (False, b)" "\<forall>e \<in> set es. CHR '':'' \<notin> set (r_TargetPluginID e)" for es a b
    using that
  proof (induction es arbitrary: a)
    case (Cons e es)
    from Cons.prems obtain m where m: "?f e a = Inr (False, m)" "anyEdge ?f es m = Inr (False, b)"
      by (auto split: sum.splits prod.splits if_splits)
    note one = Suc.IH [OF m(1)] and rest = Cons.IH [OF m(2)]
    from one rest Cons.prems(2) have "sparedSince s read rootID hit a m" "sparedSince s read rootID hit m b" by auto
    with one rest Cons.prems(2) show ?case
      using sparedSince_trans [of s read rootID hit a m b] by (auto simp: sparedSince_def [of _ _ _ _ m b])
  qed simp
  show ?case
  proof (cases "?key \<in> set seen")
    case True
    then show ?thesis using Suc.prems ids by (auto split: if_splits)
  next
    case False
    show ?thesis
    proof (cases "read pid")
      case (Inl e)
      then have "seen' = seen @ [?key]" using Suc.prems False ids by (auto split: if_splits)
      moreover have "spared s read rootID hit (set seen') pid pin" using Inl ids by (simp add: spared_def)
      ultimately show ?thesis using Suc.prems(2) ids unfolding sparedSince_def by auto
    next
      case (Inr n)
      then have run: "anyEdge ?f (consumerEdges s n pin) (seen @ [?key]) = Inr (False, seen')"
        using Suc.prems False ids by (auto split: if_splits)
      note e = edges [OF run] plain [unfolded plainTargets_def, rule_format, OF Inr]
      then have sub: "set seen \<subseteq> set seen'" "?key \<in> set seen'" by (auto simp: sparedSince_def)
      have "spared s read rootID hit (set seen') pid pin" using e ids Inr by (auto simp: spared_def)
      then have "\<exists>i p. x = seenKey i p \<and> CHR '':'' \<notin> set i \<and> spared s read rootID hit (set seen') i p"
        if "x \<in> set seen' - set seen" for x
        using that e Suc.prems(2) by (cases "x = ?key") (auto simp: sparedSince_def)
      with ids sub show ?thesis unfolding sparedSince_def by auto
    qed
  qed
qed simp

text \<open>A negative search leaves out the root and every affected row.\<close>

lemma contains_sound:
  assumes "plainTargets s read" and "CHR '':'' \<notin> set start"
    and "contains k s read \<lparr>ir_ID = rootID, ir_Accessible = False\<rparr> hit start None [] = Inr (False, seen)"
    and "consumes s read start pid pin"
  shows "pid \<noteq> rootID \<and> pid \<notin> set hit"
proof -
  from contains_spares [OF assms(1,3,2)]
  have all: "\<forall>x \<in> set seen. \<exists>i p. x = seenKey i p \<and> CHR '':'' \<notin> set i \<and> spared s read rootID hit (set seen) i p"
    and start: "start \<noteq> rootID" "start \<notin> set hit" "seenKey start None \<in> set seen" by (auto simp: sparedSince_def)
  from assms(4) have "pid \<noteq> rootID \<and> pid \<notin> set hit \<and> seenKey pid pin \<in> set seen \<and> CHR '':'' \<notin> set pid"
  proof (induction rule: consumes.induct)
    case itself
    then show ?case using start assms(2) by simp
  next
    case (dependency pid pin n e)
    then obtain i p where "seenKey pid pin = seenKey i p" "CHR '':'' \<notin> set i" "spared s read rootID hit (set seen) i p"
      using all by blast
    then have "spared s read rootID hit (set seen) pid pin" using seenKey_inj dependency.IH by blast
    moreover have "CHR '':'' \<notin> set (r_TargetPluginID e)"
      using assms(1) dependency.hyps(2,3) by (auto simp: plainTargets_def)
    ultimately show ?case using dependency.hyps(2,3) by (auto simp: spared_def)
  qed
  then show ?thesis by simp
qed

text \<open>The last pass is a fixed point: no candidate that is left is found.\<close>

definition itemsOK :: "Impact \<Rightarrow> bool" where
  "itemsOK st \<longleftrightarrow> map vpi_PluginID (im_Items st) = im_Ids st"

lemma growOne_same: "growOne r s sc root read pid st = Inr st' \<Longrightarrow> \<not> im_Grew st' \<Longrightarrow> st' = st"
  by (auto simp: growOne_def split: if_splits sum.splits)

lemma growOne_items:
  assumes "growOne r s sc root read pid st = Inr st'" and "itemsOK st"
    and "\<And>i n. read i = Inr n \<Longrightarrow> p_ID (n_Plugin n) = i"
  shows "itemsOK st'"
  using assms by (auto simp: growOne_def itemsOK_def affectedItem_def visibilityItem_def split: if_splits sum.splits)

lemma growOne_grew: "growOne r s sc root read pid st = Inr st' \<Longrightarrow> im_Grew st \<Longrightarrow> im_Grew st'"
  by (auto simp: growOne_def split: if_splits sum.splits)

lemma growPass_fixed:
  assumes "foldE (growOne r s sc root read) ids st = Inr st'" and "\<not> im_Grew st'" and "pid \<in> set ids"
  shows "growOne r s sc root read pid st' = Inr st'"
proof -
  have same: "foldE (growOne r s sc root read) is a = Inr st' \<Longrightarrow> a = st'" for "is" a
  proof (induction "is" arbitrary: a)
    case (Cons i "is")
    then obtain b where b: "growOne r s sc root read i a = Inr b" "foldE (growOne r s sc root read) is b = Inr st'"
      by (auto split: sum.splits)
    with Cons.IH have "b = st'" by blast
    with b(1) assms(2) show ?case using growOne_same by blast
  qed simp
  from assms(1) have "st = st'" by (rule same)
  from split_list [OF assms(3)] obtain as bs where "ids = as @ pid # bs" by blast
  with assms(1) have "foldE (growOne r s sc root read) (as @ pid # bs) st' = Inr st'" using \<open>st = st'\<close> by simp
  then show ?thesis
  proof (induction as)
    case Nil
    then show ?case by (auto split: sum.splits dest: same)
  next
    case (Cons a as)
    then show ?case by (auto split: sum.splits dest: same)
  qed
qed

lemma growLoop_fixed:
  assumes ids: "\<And>i n. read i = Inr n \<Longrightarrow> p_ID (n_Plugin n) = i"
  shows "growLoop k (growOne r s sc root read) is st = Inr st' \<Longrightarrow> itemsOK st \<Longrightarrow>
    itemsOK st' \<and> (\<forall>pid \<in> set is. growOne r s sc root read pid st' = Inr st')"
proof (induction k arbitrary: st)
  case (Suc k)
  then obtain m where m: "foldE (growOne r s sc root read) is (st\<lparr>im_Grew := False\<rparr>) = Inr m"
    by (auto split: sum.splits)
  have "itemsOK m"
    using foldE_keeps [OF m, of itemsOK] growOne_items [where read = read, OF _ _ ids] Suc.prems(2)
    by (fastforce simp: itemsOK_def [of "_\<lparr>im_Grew := _\<rparr>"] itemsOK_def [of st])
  with Suc m growPass_fixed [OF m] show ?case by (auto split: if_splits)
qed simp

text \<open>The edges come from the snapshots and the live edges of the store.\<close>

definition plainIds :: "Store \<Rightarrow> bool" where
  "plainIds s \<longleftrightarrow> (\<forall>v \<in> set (versions s). \<forall>e \<in> set (v_Relations v). CHR '':'' \<notin> set (r_TargetPluginID e)) \<and>
     (\<forall>e \<in> set (relations s). CHR '':'' \<notin> set (r_TargetPluginID e))"

definition plainReleases :: "visibilityReleaseEdges list \<Rightarrow> bool" where
  "plainReleases rels \<longleftrightarrow> (\<forall>v \<in> set rels. \<forall>e \<in> set (vre_Relations v). CHR '':'' \<notin> set (r_TargetPluginID e))"

lemma plainReleases_read:
  assumes "plainIds s"
  shows "plainReleases (releasedEdges s i)" and "plainReleases [liveRelease s i]"
  using assms by (auto simp: plainIds_def plainReleases_def releasedEdges_def liveRelease_def compatibilityLiveRelations_def)

lemma plainIds_targets:
  assumes "plainIds s" and "readVisibilityNode s pid = Inr root"
  shows "plainTargets s (planReader s root strict)"
proof -
  have node: "plainReleases (n_Releases n)" if "readVisibilityNode s i = Inr n" for i n
    using that plainReleases_read [OF assms(1)] by (auto simp: readVisibilityNode_def split: option.splits if_splits)
  have "plainReleases (n_Releases n)" if "planReader s root strict i = Inr n" for i n
    using that node [OF assms(2)] node plainReleases_read(2) [OF assms(1)]
    by (auto simp: planReader_def readPlanNode_def plainReleases_def split: if_splits sum.splits)
  then have "plainReleases (n_Releases n @ (if b then [liveRelease s j] else []))" if "planReader s root strict i = Inr n" for i j n b
    using that plainReleases_read(2) [OF assms(1)] by (auto simp: plainReleases_def)
  then show ?thesis unfolding plainTargets_def consumerEdges_def plainReleases_def Let_def by fastforce
qed


text \<open>A skill shared with its Space, and an expert of another owner whose release is pinned to it.\<close>

definition sharedStore :: Store where
  "sharedStore = planStore\<lparr>plugins := [(privateReleased ''k'' PluginTypeSkill ''vk'')\<lparr>p_Visibility := PluginVisibilitySpace\<rparr>,
     (privateReleased ''e'' PluginTypeExpert ''ve'')\<lparr>p_OwnerUID := ''u2'', p_Visibility := PluginVisibilitySpace\<rparr>]\<rparr>"


end
