(* ===== verification/Incoming.thy ===== *)
theory Incoming
  imports Planning
begin

text \<open>
  The guard against removing a resource that published graphs use
  (\<open>reference_compatibility.go\<close>, \<open>rejectPublishedIncomingRelations\<close> of \<open>references.go\<close>): with the
  reverse index, the indexed edges of the published versions and of the member versions their
  teams pin; for publications without a formal release pointer, the snapshot that is provably
  in force, or all candidates.

  Rows come in the order of the tables and the members of a Go map in the order they were
  added; the order decides only which of two errors is reported. Stored relation lists are
  decoded records, and two lists are the same graph when each canonical edge occurs equally
  often in both. The SQL predicates are false where an operand is NULL.
\<close>

section \<open>Equal graphs\<close>

fun normJSON :: "json \<Rightarrow> json" where
  "normJSON (JObj kvs) =
     JObj (sort_key fst (fold (\<lambda>(k, v) acc. (k, v) # filter (\<lambda>x. fst x \<noteq> k) acc)
       (map (\<lambda>kv. (fst kv, normJSON (snd kv))) kvs) []))"
| "normJSON (JArr xs) = JArr (map normJSON xs)"
| "normJSON v = v"

record CanonicalEdge =
  ce_Source :: string
  ce_Target :: string
  ce_Type :: string
  ce_Pin :: "string option"
  ce_Order :: int
  ce_Status :: int
  ce_Deleted :: bool
  ce_Data :: "json option"

text \<open>The member data of an edge: absent, \<open>null\<close> and the empty object are one value; anything but
  an object is refused.\<close>

definition canonicalData :: "raw \<Rightarrow> json option option" where
  "canonicalData d =
     (case d of
        None \<Rightarrow> Some None
      | Some JNull \<Rightarrow> Some None
      | Some (JObj kvs) \<Rightarrow> Some (if kvs = [] then None else Some (normJSON (JObj kvs)))
      | Some _ \<Rightarrow> None)"

definition canonicalEdge :: "string \<Rightarrow> bool \<Rightarrow> PluginRelation \<Rightarrow> CanonicalEdge option" where
  "canonicalEdge source reviewed e =
     map_option (\<lambda>d. \<lparr>ce_Source = (if reviewed \<and> r_SourcePluginID e = '''' then source else r_SourcePluginID e),
        ce_Target = r_TargetPluginID e, ce_Type = r_Type e, ce_Pin = r_TargetVersionID e, ce_Order = r_SortOrder e,
        ce_Status = (if reviewed \<and> r_Status e = 0 then 1 else r_Status e), ce_Deleted = (r_DeletedAt e \<noteq> None), ce_Data = d\<rparr>)
       (canonicalData (r_Data e))"

definition sameElements :: "'a list \<Rightarrow> 'a list \<Rightarrow> bool" where
  "sameElements xs ys \<longleftrightarrow> length xs = length ys \<and> (\<forall>x \<in> set xs. count_list xs x = count_list ys x)"

definition equivalentApprovedRelations :: "string \<Rightarrow> PluginRelation list \<Rightarrow> PluginRelation list \<Rightarrow> bool" where
  "equivalentApprovedRelations source a b =
     (let left = map (canonicalEdge source False) a; right = map (canonicalEdge source True) b in
      None \<notin> set left \<and> None \<notin> set right \<and> sameElements left right)"

section \<open>The publication in force\<close>

record compatibilitySnapshot =
  cs_PluginID :: string
  cs_Kind :: PluginType
  cs_Status :: int
  cs_Deleted :: bool
  cs_Relations :: "PluginRelation list"
  cs_Certain :: bool
  cs_Live :: bool
  cs_current :: bool
  cs_approvalProven :: bool
  cs_approvalRelations :: "PluginRelation list"

definition currentVersionRow :: "Store \<Rightarrow> Plugin \<Rightarrow> PluginVersion option" where
  "currentVersionRow s p = (case p_CurrentVersionID p of None \<Rightarrow> None | Some v \<Rightarrow> versionRow s (p_ID p) v)"

text \<open>The SQL fragment \<open>current\<close>: a listed row whose saved version has the row's content.\<close>

definition currentListed :: "Store \<Rightarrow> Plugin \<Rightarrow> bool" where
  "currentListed s p \<longleftrightarrow> p_ListingState p = PluginListingStatePublished \<and>
     (case currentVersionRow s p of
        None \<Rightarrow> False
      | Some v \<Rightarrow> v_ManifestHash v = p_ManifestHash p \<and> v_PluginHash v = p_PluginHash p)"

text \<open>The one latest approval of a row without a release pointer; none when two are equally late.\<close>

definition latestApproval :: "Store \<Rightarrow> Plugin \<Rightarrow> PluginReviewRequest option" where
  "latestApproval s p =
     (let approved = (\<lambda>q. rr_PluginID q = p_ID p \<and> rr_Status q = ReviewStatusApproved \<and> rr_DeletedAt q = None) in
      if p_PublishedVersionID p \<noteq> None then None
      else find (\<lambda>q. approved q \<and> rr_ReviewedAt q \<noteq> None \<and>
        \<not> (\<exists>newer \<in> set (reviews s). approved newer \<and> rr_ID newer \<noteq> rr_ID q \<and>
             (case (rr_ReviewedAt newer, rr_ReviewedAt q) of (Some a, Some b) \<Rightarrow> a \<ge> b | _ \<Rightarrow> False))) (reviews s))"

text \<open>The SQL fragment \<open>approved\<close>: the saved version of a delisted row was made by the latest
  approval, and nothing was written since.\<close>

definition approvalProven :: "Store \<Rightarrow> Plugin \<Rightarrow> bool" where
  "approvalProven s p \<longleftrightarrow> p_ListingState p = PluginListingStateDelisted \<and>
     (case (currentVersionRow s p, latestApproval s p) of
        (Some v, Some q) \<Rightarrow>
          v_ManifestHash v = p_ManifestHash p \<and> v_PluginHash v = p_PluginHash p \<and>
          v_DeclaredVersion v = Some (rr_Version q) \<and> rr_ReviewedAt q = Some (v_CreatedAt v) \<and>
          rr_ReviewerUID q = Some (v_CreatedBy v) \<and> v_ManifestHash v = rr_ManifestHash q \<and> v_PluginHash v = rr_PluginHash q \<and>
          \<not> (\<exists>w \<in> set (versions s). v_PluginID w = p_ID p \<and> v_CreatedAt w = v_CreatedAt v \<and> v_ID w \<noteq> v_ID v) \<and>
          \<not> (\<exists>a \<in> set (audits s). a_PluginID a = p_ID p \<and> a_Action a \<in> {''update'', ''publish''} \<and>
               (case rr_ReviewedAt q of None \<Rightarrow> False | Some t \<Rightarrow> a_CreatedAt a \<ge> t))
      | _ \<Rightarrow> False)"

definition candidateVersions :: "Store \<Rightarrow> Plugin \<Rightarrow> PluginVersion list" where
  "candidateVersions s p = filter (\<lambda>v. v_PluginID v = p_ID p \<and>
     (case p_PublishedVersionID p of
        Some x \<Rightarrow> v_ID v = x
      | None \<Rightarrow> \<not> currentListed s p \<or> p_CurrentVersionID p = Some (v_ID v))) (versions s)"

definition snapshotOf :: "Store \<Rightarrow> Plugin \<Rightarrow> PluginVersion option \<Rightarrow> compatibilitySnapshot" where
  "snapshotOf s p v =
     \<lparr>cs_PluginID = p_ID p, cs_Kind = p_Type p, cs_Status = p_Status p, cs_Deleted = (p_DeletedAt p \<noteq> None),
      cs_Relations = (case v of None \<Rightarrow> [] | Some x \<Rightarrow> v_Relations x),
      cs_Certain = (p_PublishedVersionID p \<noteq> None \<or> currentListed s p),
      cs_Live = (p_PublishedVersionID p = None \<and> p_CurrentVersionID p = None \<and> v = None),
      cs_current = (p_CurrentVersionID p \<noteq> None \<and> p_CurrentVersionID p = map_option v_ID v),
      cs_approvalProven = approvalProven s p,
      cs_approvalRelations = (case latestApproval s p of None \<Rightarrow> [] | Some q \<Rightarrow> rr_Relations q)\<rparr>"

definition snapshotsOf :: "Store \<Rightarrow> Plugin \<Rightarrow> compatibilitySnapshot list" where
  "snapshotsOf s p = (case candidateVersions s p of [] \<Rightarrow> [snapshotOf s p None] | vs \<Rightarrow> map (\<lambda>v. snapshotOf s p (Some v)) vs)"

definition baselineMissing :: "Store \<Rightarrow> Plugin \<Rightarrow> bool" where
  "baselineMissing s p \<longleftrightarrow> p_Status p = 1 \<and> p_DeletedAt p = None \<and>
     (p_PublishedVersionID p = None \<and> p_CurrentVersionID p \<noteq> None \<and> currentVersionRow s p = None \<or>
      p_PublishedVersionID p \<noteq> None \<and> candidateVersions s p = [])"

definition provenSnapshot :: "compatibilitySnapshot \<Rightarrow> bool" where
  "provenSnapshot c \<longleftrightarrow> \<not> cs_Certain c \<and> cs_current c \<and> cs_approvalProven c \<and>
     equivalentApprovedRelations (cs_PluginID c) (cs_Relations c) (cs_approvalRelations c)"

definition compatibilitySnapshots :: "Store \<Rightarrow> (Plugin \<Rightarrow> bool) \<Rightarrow> RepoError + compatibilitySnapshot list" where
  "compatibilitySnapshots s cond =
     (let rows = filter cond (plugins s); out = concat (map (snapshotsOf s) rows) in
      if \<exists>p \<in> set rows. baselineMissing s p then Inl ErrReferenceIndexIncomplete
      else Inr (concat (map (\<lambda>c.
        case find (\<lambda>x. cs_PluginID x = cs_PluginID c \<and> provenSnapshot x) out of
          None \<Rightarrow> [c]
        | Some x \<Rightarrow> if cs_current c then [x\<lparr>cs_Certain := True\<rparr>] else []) out)))"

section \<open>The guard\<close>

type_synonym member = "(string \<times> string) \<times> bool"

definition addMember :: "string \<times> string \<Rightarrow> bool \<Rightarrow> member list \<Rightarrow> member list" where
  "addMember key certain ms =
     (if key \<in> fst ` set ms then map (\<lambda>(k, c). (k, if k = key then c \<or> certain else c)) ms else ms @ [(key, certain)])"

text \<open>\<open>inspect\<close>: an edge to the target refuses; a team's members are collected.\<close>

definition inspectEdge :: "string \<Rightarrow> bool \<Rightarrow> bool \<Rightarrow> PluginRelation \<Rightarrow> member list \<Rightarrow> RepoError + member list" where
  "inspectEdge target team certain e ms =
     (if r_TargetPluginID e = target then Inl (if certain then ErrRelationInUse else ErrReferenceIndexIncomplete)
      else if \<not> (team \<and> r_Type e = ''expert_team_expert'') then Inr ms
      else case r_TargetVersionID e of
        None \<Rightarrow> Inr (addMember (r_TargetPluginID e, '''') certain ms)
      | Some v \<Rightarrow> if v = '''' then Inl ErrReferenceIndexIncomplete else Inr (addMember (r_TargetPluginID e, v) certain ms))"

definition checkSnapshot :: "Store \<Rightarrow> string \<Rightarrow> compatibilitySnapshot \<Rightarrow> bool \<Rightarrow> member list \<Rightarrow> RepoError + member list" where
  "checkSnapshot s target c parentCertain ms =
     (if cs_Status c \<noteq> 1 \<or> cs_Deleted c then Inr ms
      else foldE (inspectEdge target (cs_Kind c = PluginTypeExpertTeam) (parentCertain \<and> cs_Certain c))
             (if cs_Live c then compatibilityLiveRelations s (cs_PluginID c) else cs_Relations c) ms)"

definition publicationEvidence :: "Store \<Rightarrow> string \<Rightarrow> bool \<Rightarrow> Plugin \<Rightarrow> bool" where
  "publicationEvidence s target legacyOnly p \<longleftrightarrow> p_Status p = 1 \<and> p_DeletedAt p = None \<and> p_ID p \<noteq> target \<and>
     (p_PublishedVersionID p \<noteq> None \<or> p_ListingState p \<in> {PluginListingStatePublished, PluginListingStateDelisted} \<or>
      (\<exists>q \<in> set (reviews s). rr_PluginID q = p_ID p \<and> rr_Status q = ReviewStatusApproved \<and> rr_DeletedAt q = None) \<or>
      (\<exists>a \<in> set (audits s). a_PluginID a = p_ID p \<and> a_Action a \<in> {''publish'', ''review_approve''})) \<and>
     (\<not> legacyOnly \<or> p_PublishedVersionID p = None)"

text \<open>Batches of 100 keys.\<close>

function batches :: "nat \<Rightarrow> 'a list \<Rightarrow> 'a list list" where
  "batches n xs = (if n = 0 \<or> xs = [] then [] else take n xs # batches n (drop n xs))"
  by pat_completeness auto

termination
  by (relation "measure (\<lambda>(n, xs). length xs)") auto

declare batches.simps [simp del]

definition certainOf :: "member list \<Rightarrow> string \<times> string \<Rightarrow> bool" where
  "certainOf ms key = (case map_of ms key of None \<Rightarrow> False | Some c \<Rightarrow> c)"

definition notExpert :: "compatibilitySnapshot \<Rightarrow> bool" where
  "notExpert c \<longleftrightarrow> cs_Status c = 1 \<and> \<not> cs_Deleted c \<and> cs_Kind c \<noteq> PluginTypeExpert"

definition checkMember :: "Store \<Rightarrow> string \<Rightarrow> (compatibilitySnapshot \<Rightarrow> member list \<Rightarrow> bool) \<Rightarrow> compatibilitySnapshot \<Rightarrow> member list \<Rightarrow> RepoError + member list" where
  "checkMember s target certain c ms =
     (if notExpert c then Inl ErrReferenceIndexIncomplete else checkSnapshot s target c (certain c ms) ms)"

text \<open>The pinned members of a batch, at their exact versions.\<close>

definition pinnedSnapshots :: "Store \<Rightarrow> member list \<Rightarrow> (string \<times> string) list \<Rightarrow> compatibilitySnapshot list" where
  "pinnedSnapshots s ms batch =
     concat (map (\<lambda>v. case lookupBy p_ID (v_PluginID v) (plugins s) of
         None \<Rightarrow> []
       | Some p \<Rightarrow> [(snapshotOf s p (Some v))\<lparr>cs_Certain := certainOf ms (v_PluginID v, v_ID v), cs_Live := False,
                     cs_current := False, cs_approvalProven := False, cs_approvalRelations := []\<rparr>])
       (filter (\<lambda>v. (v_PluginID v, v_ID v) \<in> set batch) (versions s)))"

definition checkPinned :: "Store \<Rightarrow> string \<Rightarrow> (string \<times> string) list \<Rightarrow> member list \<Rightarrow> RepoError + member list" where
  "checkPinned s target batch ms =
     (let selected = pinnedSnapshots s ms batch in
      if length selected \<noteq> length batch then Inl ErrReferenceIndexIncomplete
      else foldE (checkMember s target (\<lambda>_ _. True)) selected ms)"

definition checkUnpinned :: "Store \<Rightarrow> string \<Rightarrow> string list \<Rightarrow> member list \<Rightarrow> RepoError + member list" where
  "checkUnpinned s target batch ms =
     (case compatibilitySnapshots s (\<lambda>p. p_ID p \<in> set batch) of
        Inl e \<Rightarrow> Inl e
      | Inr selected \<Rightarrow>
          (case foldE (checkMember s target (\<lambda>c ms. certainOf ms (cs_PluginID c, ''''))) selected ms of
             Inl e \<Rightarrow> Inl e
           | Inr ms' \<Rightarrow> if length (remdups (map cs_PluginID selected)) \<noteq> length batch
                        then Inl ErrReferenceIndexIncomplete else Inr ms'))"

definition rejectCompatibilityIncomingRelations :: "Store \<Rightarrow> string \<Rightarrow> bool \<Rightarrow> RepoError + unit" where
  "rejectCompatibilityIncomingRelations s target legacyOnly =
     (case compatibilitySnapshots s (publicationEvidence s target legacyOnly) of
        Inl e \<Rightarrow> Inl e
      | Inr roots \<Rightarrow>
          (case foldE (\<lambda>c. checkSnapshot s target c True) roots [] of
             Inl e \<Rightarrow> Inl e
           | Inr ms \<Rightarrow>
               (case foldE (checkPinned s target) (batches 100 (filter (\<lambda>k. snd k \<noteq> '''') (map fst ms))) ms of
                  Inl e \<Rightarrow> Inl e
                | Inr ms' \<Rightarrow>
                    (case foldE (checkUnpinned s target)
                            (batches 100 (map fst (filter (\<lambda>k. snd k = '''') (map fst ms)))) ms' of
                       Inl e \<Rightarrow> Inl e | Inr _ \<Rightarrow> Inr ()))))"

text \<open>The indexed path: every selected published version has a complete index, and no indexed edge
  of a selected version points at the target.\<close>

definition memberRef :: "Store \<Rightarrow> ReferenceEdgeRow \<Rightarrow> bool" where
  "memberRef s m \<longleftrightarrow> re_Type m = ''expert_team_expert'' \<and>
     (\<exists>team \<in> set (plugins s). p_ID team = re_SourcePluginID m \<and> p_PublishedVersionID team = Some (re_SourceVersionID m) \<and>
        p_Status team = 1 \<and> p_DeletedAt team = None)"

definition selectedVersions :: "Store \<Rightarrow> (string \<times> string option) list" where
  "selectedVersions s =
     map (\<lambda>p. (p_ID p, p_PublishedVersionID p))
       (filter (\<lambda>p. p_Status p = 1 \<and> p_DeletedAt p = None \<and> p_PublishedVersionID p \<noteq> None) (plugins s)) @
     map (\<lambda>m. (re_TargetPluginID m, re_TargetVersionID m)) (filter (memberRef s) (refEdges s))"

definition indexComplete :: "Repo \<Rightarrow> Store \<Rightarrow> string \<times> string option \<Rightarrow> bool" where
  "indexComplete r s key =
     (case snd key of
        None \<Rightarrow> False
      | Some vid \<Rightarrow>
          (case versionRow s (fst key) vid of
             None \<Rightarrow> False
           | Some v \<Rightarrow> (\<exists>i \<in> set (refIndex s). ri_SourcePluginID i = fst key \<and> ri_SourceVersionID i = vid \<and>
               ri_SnapshotDigest i = relationsDigest r (v_Relations v) \<and>
               ri_RelationCount i = length (filter (\<lambda>e. re_SourcePluginID e = fst key \<and> re_SourceVersionID e = vid) (refEdges s)))))"

definition indexedIncoming :: "Store \<Rightarrow> string \<Rightarrow> ReferenceEdgeRow \<Rightarrow> bool" where
  "indexedIncoming s target e \<longleftrightarrow> re_TargetPluginID e = target \<and>
     (\<exists>source \<in> set (plugins s). p_ID source = re_SourcePluginID e \<and> p_Status source = 1 \<and> p_DeletedAt source = None \<and>
        (p_PublishedVersionID source = Some (re_SourceVersionID e) \<or>
         (\<exists>m \<in> set (refEdges s). memberRef s m \<and> re_TargetPluginID m = re_SourcePluginID e \<and>
            re_TargetVersionID m = Some (re_SourceVersionID e))))"

definition rejectPublishedIncomingRelations :: "Repo \<Rightarrow> string \<Rightarrow> unit stx" where
  "rejectPublishedIncomingRelations r target =
     (if \<not> references r then bindT (queryT (\<lambda>s. rejectCompatibilityIncomingRelations s target False)) liftT
      else
        thenT (bindT (queryT (\<lambda>s. rejectCompatibilityIncomingRelations s target True)) liftT)
       (bindT (queryT (\<lambda>s. \<forall>key \<in> set (selectedVersions s). indexComplete r s key)) (\<lambda>complete.
        thenT (refuseT (\<not> complete) ErrReferenceIndexIncomplete)
       (bindT (queryT (\<lambda>s. \<exists>e \<in> set (refEdges s). indexedIncoming s target e)) (\<lambda>used.
          refuseT used ErrRelationInUse)))))"

section \<open>What the guard protects\<close>

lemma foldE_each: "foldE f xs a = Inr b \<Longrightarrow> x \<in> set xs \<Longrightarrow> \<exists>c d. f x c = Inr d"
  by (induction xs arbitrary: a) (auto split: sum.splits)

lemma concat_batches: "0 < n \<Longrightarrow> concat (batches n xs) = xs"
proof (induction n xs rule: batches.induct)
  case (1 n xs)
  then show ?case by (subst batches.simps) (auto simp: append_take_drop_id)
qed

definition memberKeys :: "member list \<Rightarrow> (string \<times> string) set" where
  "memberKeys ms = fst ` set ms"

definition edgeKey :: "PluginRelation \<Rightarrow> string \<times> string" where
  "edgeKey e = (r_TargetPluginID e, case r_TargetVersionID e of None \<Rightarrow> '''' | Some v \<Rightarrow> v)"

lemma memberKeys_add [simp]: "memberKeys (addMember key c ms) = insert key (memberKeys ms)"
  by (force simp: memberKeys_def addMember_def image_iff)

lemma inspectEdge_run:
  assumes "inspectEdge target team certain e ms = Inr ms'"
  shows "r_TargetPluginID e \<noteq> target" and "memberKeys ms \<subseteq> memberKeys ms'"
    and "team \<Longrightarrow> r_Type e = ''expert_team_expert'' \<Longrightarrow> edgeKey e \<in> memberKeys ms'"
  using assms by (auto simp: inspectEdge_def edgeKey_def split: if_splits option.splits)

lemma inspect_keeps:
  assumes "foldE (inspectEdge target team certain) es ms = Inr ms'"
  shows "memberKeys ms \<subseteq> memberKeys ms'"
  by (rule foldE_keeps [OF assms]) (auto dest!: inspectEdge_run(2))

lemma inspect_run:
  assumes "foldE (inspectEdge target team certain) es ms = Inr ms'" and "e \<in> set es"
  shows "r_TargetPluginID e \<noteq> target \<and>
    (team \<and> r_Type e = ''expert_team_expert'' \<longrightarrow> edgeKey e \<in> memberKeys ms')"
  using assms
proof (induction es arbitrary: ms)
  case (Cons x es)
  then obtain m where m: "inspectEdge target team certain x ms = Inr m" "foldE (inspectEdge target team certain) es m = Inr ms'"
    by (auto split: sum.splits)
  show ?case
  proof (cases "e = x")
    case True
    then show ?thesis using inspectEdge_run [OF m(1)] inspect_keeps [OF m(2)] by blast
  next
    case False
    then show ?thesis using Cons.IH [OF m(2)] Cons.prems(2) by simp
  qed
qed simp

lemma checkSnapshot_keeps:
  assumes "checkSnapshot s target c b ms = Inr ms'" shows "memberKeys ms \<subseteq> memberKeys ms'"
proof (cases "cs_Status c \<noteq> 1 \<or> cs_Deleted c")
  case True
  then show ?thesis using assms by (simp add: checkSnapshot_def)
next
  case False
  then show ?thesis using assms unfolding checkSnapshot_def by (simp only: if_False) (erule inspect_keeps)
qed

lemma checkSnapshot_run:
  assumes "checkSnapshot s target c b ms = Inr ms'" and "cs_Status c = 1" and "\<not> cs_Deleted c" and "\<not> cs_Live c"
    and "e \<in> set (cs_Relations c)"
  shows "r_TargetPluginID e \<noteq> target \<and>
    (cs_Kind c = PluginTypeExpertTeam \<and> r_Type e = ''expert_team_expert'' \<longrightarrow> edgeKey e \<in> memberKeys ms')"
proof -
  have "foldE (inspectEdge target (cs_Kind c = PluginTypeExpertTeam) (b \<and> cs_Certain c)) (cs_Relations c) ms = Inr ms'"
    using assms(1-4) by (simp add: checkSnapshot_def)
  from inspect_run [OF this assms(5)] show ?thesis .
qed

lemma checkRoots_members:
  assumes "foldE (\<lambda>c. checkSnapshot s target c True) roots ms = Inr ms'" and "c \<in> set roots"
    and "cs_Status c = 1" and "\<not> cs_Deleted c" and "\<not> cs_Live c" and "e \<in> set (cs_Relations c)"
  shows "r_TargetPluginID e \<noteq> target \<and> (cs_Kind c = PluginTypeExpertTeam \<and> r_Type e = ''expert_team_expert'' \<longrightarrow>
    edgeKey e \<in> memberKeys ms')"
  using assms(1,2)
proof (induction roots arbitrary: ms)
  case (Cons x roots)
  then obtain m where m: "checkSnapshot s target x True ms = Inr m"
      "foldE (\<lambda>c. checkSnapshot s target c True) roots m = Inr ms'" by (auto split: sum.splits)
  have sub: "memberKeys m \<subseteq> memberKeys ms'"
    by (rule foldE_keeps [OF m(2)]) (auto dest: checkSnapshot_keeps subset_trans)
  show ?case
  proof (cases "c = x")
    case True
    then show ?thesis using checkSnapshot_run [OF _ assms(3-6)] m(1) sub by blast
  next
    case False
    then show ?thesis using Cons.IH [OF m(2)] Cons.prems(2) by simp
  qed
qed simp

text \<open>The published release of a live row is one of the snapshots that are checked.\<close>

lemma published_snapshot_listed:
  assumes "compatibilitySnapshots s cond = Inr roots" and "p \<in> set (plugins s)" and "cond p"
    and "distinct (map p_ID (plugins s))" and "p_PublishedVersionID p = Some (v_ID v)"
    and "v \<in> set (versions s)" and "v_PluginID v = p_ID p"
  shows "snapshotOf s p (Some v) \<in> set roots"
proof -
  let ?out = "concat (map (snapshotsOf s) (filter cond (plugins s)))"
  have mem: "snapshotOf s p (Some v) \<in> set (snapshotsOf s p)"
      proof -
    have "v \<in> set (candidateVersions s p)" using assms(5-7) by (simp add: candidateVersions_def)
    then show ?thesis by (cases "candidateVersions s p") (auto simp: snapshotsOf_def)
  qed
  have "\<not> provenSnapshot x" if "x \<in> set ?out" "cs_PluginID x = p_ID p" for x
  proof -
    from that obtain p' where "p' \<in> set (plugins s)" "x \<in> set (snapshotsOf s p')" by auto
    then obtain w where "p' \<in> set (plugins s)" "x = snapshotOf s p' w"
      by (cases "candidateVersions s p'") (auto simp: snapshotsOf_def)
    moreover then have "p' = p" using that(2) assms(2,4) distinct_key_eq [of p_ID "plugins s" p' p] by (auto simp: snapshotOf_def)
    ultimately show ?thesis using assms(5) by (simp add: provenSnapshot_def snapshotOf_def)
  qed
  then have "find (\<lambda>x. cs_PluginID x = p_ID p \<and> provenSnapshot x) ?out = None" by (auto simp: find_None_iff)
  moreover have "cs_PluginID (snapshotOf s p (Some v)) = p_ID p" by (simp add: snapshotOf_def)
  moreover define g where "g c = (case find (\<lambda>x. cs_PluginID x = cs_PluginID c \<and> provenSnapshot x) ?out of
          None \<Rightarrow> [c] | Some x \<Rightarrow> if cs_current c then [x\<lparr>cs_Certain := True\<rparr>] else [])" for c
  ultimately have "g (snapshotOf s p (Some v)) = [snapshotOf s p (Some v)]" by simp
  moreover have "snapshotOf s p (Some v) \<in> set ?out" using mem assms(2,3) by auto
  moreover have "roots = concat (map g ?out)"
    using assms(1) unfolding compatibilitySnapshots_def Let_def g_def by (simp split: if_splits)
  ultimately show ?thesis by force
qed

lemma checkPinned_run:
  assumes "checkPinned s target batch ms = Inr ms'" and "(v_PluginID w, v_ID w) \<in> set batch" and "w \<in> set (versions s)"
    and "lookupBy p_ID (v_PluginID w) (plugins s) = Some m" and "p_Status m = 1" and "p_DeletedAt m = None"
    and "e \<in> set (v_Relations w)"
  shows "r_TargetPluginID e \<noteq> target"
proof -
  define c where "c = (snapshotOf s m (Some w))\<lparr>cs_Certain := certainOf ms (v_PluginID w, v_ID w), cs_Live := False,
      cs_current := False, cs_approvalProven := False, cs_approvalRelations := []\<rparr>"
  have "c \<in> set (pinnedSnapshots s ms batch)"
    using assms(2-4) unfolding pinnedSnapshots_def c_def by (fastforce split: option.splits)
  then obtain x y where "checkMember s target (\<lambda>_ _. True) c x = Inr y"
    using assms(1) foldE_each unfolding checkPinned_def Let_def by (metis sum.distinct(1))
  then have "checkSnapshot s target c True x = Inr y" by (simp add: checkMember_def split: if_splits)
  moreover have "cs_Status c = 1" "\<not> cs_Deleted c" "\<not> cs_Live c" "e \<in> set (cs_Relations c)"
    using assms(5-7) by (simp_all add: c_def snapshotOf_def)
  ultimately show ?thesis using checkSnapshot_run by blast
qed



lemma rejectPublishedIncoming_reads [reads]: "steps (=) (rejectPublishedIncomingRelations r target)"
  unfolding rejectPublishedIncomingRelations_def by (intro reading.steps_rules)

end
