(* ===== verification/Visibility.thy ===== *)
theory Visibility
  imports Incoming
begin

text \<open>
  Changes of a plugin's audience (\<open>visibility.go\<close>, \<open>visibility_group.go\<close>, \<open>visibility_embedded.go\<close>):
  the direct change, the confirmed plan over several plugins, the review requests either of
  them opens, and their application to the rows and to the embedded children.

  \<open>changeVisibilityPlan\<close> previews the plan before its transaction begins; the transaction is
  \<open>confirmVisibilityPlan\<close>, which takes that preview as an argument and rebuilds the plan on the
  state it locked. The queue of \<open>syncVisibilityEmbeddedAudience\<close> carries fuel computed from the number
  of stored edges; \<open>OutOfFuel\<close> is never returned. A key that is already there and a violated CHECK
  constraint are the raw driver errors \<open>ErrDuplicateKey\<close> and \<open>ErrCheckViolation\<close>.
\<close>

section \<open>Embedded children\<close>

definition releaseHistory :: "Store \<Rightarrow> string \<Rightarrow> PluginRelation list" where
  "releaseHistory s pid = concat (map vre_Relations (releasedEdges s pid))"

definition liveEdgeRefs :: "Store \<Rightarrow> string \<Rightarrow> PluginRelation list" where
  "liveEdgeRefs s pid =
     map (\<lambda>e. \<lparr>r_ID = '''', r_SourcePluginID = '''', r_TargetPluginID = r_TargetPluginID e,
              r_TargetVersionID = r_TargetVersionID e, r_TargetPluginType = None, r_Type = r_Type e, r_SortOrder = 0,
              r_Data = None, r_Status = 0, r_CreatedBy = '''', r_CreatedAt = 0, r_UpdatedAt = 0, r_DeletedAt = None\<rparr>)
       (sort_key r_ID (filter (\<lambda>e. r_SourcePluginID e = pid \<and> r_Status e = 1 \<and> r_DeletedAt e = None) (relations s)))"

definition visibilityOwnedRelations :: "Store \<Rightarrow> string \<Rightarrow> string option \<Rightarrow> bool \<Rightarrow> PluginRelation list" where
  "visibilityOwnedRelations s pid pin includeLive =
     (case lookupBy p_ID pid (plugins s) of
        None \<Rightarrow> releaseHistory s pid @ liveEdgeRefs s pid
      | Some p \<Rightarrow>
          (case coalesce pin (coalesce (p_PublishedVersionID p) (p_CurrentVersionID p)) of
             None \<Rightarrow> releaseHistory s pid @ liveEdgeRefs s pid
           | Some vid \<Rightarrow>
               (case versionRow s pid vid of
                  None \<Rightarrow> releaseHistory s pid @ liveEdgeRefs s pid
                | Some v \<Rightarrow> v_Relations v @ (if includeLive then releaseHistory s pid @ liveEdgeRefs s pid else []))))"

definition setAudience :: "PluginVisibility \<Rightarrow> time \<Rightarrow> Plugin \<Rightarrow> Plugin" where
  "setAudience target t p = p\<lparr>p_Visibility := target, p_UpdatedAt := t\<rparr>"

definition setChildAudience :: "PluginVisibility \<Rightarrow> time \<Rightarrow> Plugin \<Rightarrow> Plugin" where
  "setChildAudience target t p =
     (if target = PluginVisibilitySpace then (setAudience target t p)\<lparr>p_ListingState := PluginListingStatePublished\<rparr>
      else setAudience target t p)"

definition ownedChild :: "Plugin \<Rightarrow> string \<Rightarrow> Plugin \<Rightarrow> bool" where
  "ownedChild root pid p \<longleftrightarrow> p_ID p = pid \<and> p_OwnerUID p = p_OwnerUID root \<and> p_SpaceID p = p_SpaceID root \<and>
     p_IsEmbedded p \<and> p_DeletedAt p = None"

record audienceNode =
  an_Plugin :: Plugin
  an_Pin :: "string option"

text \<open>One edge of a container: a child it owns takes the audience and joins the queue.\<close>

definition syncEdge ::
  "Plugin \<Rightarrow> PluginVisibility \<Rightarrow> time \<Rightarrow> PluginType \<Rightarrow> PluginRelation \<Rightarrow> audienceNode list \<Rightarrow> audienceNode list stx" where
  "syncEdge root target t ty e queue =
     bindT (queryT (\<lambda>s. find (ownedRow \<lparr>s_CallerUID = p_OwnerUID root, s_SpaceID = the (p_SpaceID root), s_Admin = False\<rparr>
         (r_TargetPluginID e)) (plugins s))) (\<lambda>row.
       case row of
         None \<Rightarrow> returnT queue
       | Some child \<Rightarrow>
           if \<not> p_IsEmbedded child \<or> \<not> validPersistedRelation (r_Type e) ty (p_Type child) then returnT queue
           else bindT (updatePlugins (ownedChild root (p_ID child)) (setChildAudience target t)) (\<lambda>_.
             returnT (queue @ [\<lparr>an_Plugin = child, an_Pin = r_TargetVersionID e\<rparr>])))"

primrec syncLoop ::
  "nat \<Rightarrow> Plugin \<Rightarrow> PluginVisibility \<Rightarrow> time \<Rightarrow> audienceNode list \<Rightarrow> string list \<Rightarrow> unit stx" where
  "syncLoop 0 root target t queue seen = throwT OutOfFuel"
| "syncLoop (Suc k) root target t queue seen =
     (case queue of
        [] \<Rightarrow> returnT ()
      | n # rest \<Rightarrow>
          let p = an_Plugin n; key = seenKey (p_ID p) (an_Pin n) in
          if key \<in> set seen then syncLoop k root target t rest seen
          else if p_Type p \<noteq> PluginTypeExpert \<and> p_Type p \<noteq> PluginTypeExpertTeam
          then syncLoop k root target t rest (seen @ [key])
          else
            bindT (queryT (\<lambda>s. visibilityOwnedRelations s (p_ID p) (an_Pin n) (target = PluginVisibilityPrivate))) (\<lambda>rels.
            bindT (foldT (syncEdge root target t (p_Type p)) rels rest) (\<lambda>queue'.
            syncLoop k root target t queue' (seen @ [key]))))"

definition allEdges :: "Store \<Rightarrow> PluginRelation list" where
  "allEdges s = concat (map v_Relations (versions s)) @ relations s"

text \<open>Every edge gives one key, and a visit appends at most one entry per edge of a snapshot, of
  the released history and of the live graph.\<close>

definition syncFuel :: "Store \<Rightarrow> nat" where
  "syncFuel s = (length (allEdges s) + 1) * ((length (releases s) + 2) * length (allEdges s) + 1) + 2"

definition syncVisibilityEmbeddedAudience :: "Plugin \<Rightarrow> PluginVisibility \<Rightarrow> time \<Rightarrow> unit stx" where
  "syncVisibilityEmbeddedAudience root target t =
     (if p_SpaceID root = None then throwT ErrNotFound
      else bindT (queryT syncFuel) (\<lambda>fuel. syncLoop fuel root target t [\<lparr>an_Plugin = root, an_Pin = None\<rparr>] []))"

section \<open>Applying an audience\<close>

definition visibilityText :: "PluginVisibility \<Rightarrow> string" where
  "visibilityText v = (case v of PluginVisibilityPrivate \<Rightarrow> ''private'' | PluginVisibilitySpace \<Rightarrow> ''space''
     | PluginVisibilityPublic \<Rightarrow> ''public'' | PluginVisibilitySystem \<Rightarrow> ''system'')"

definition applyAudience ::
  "Repo \<Rightarrow> Scope \<Rightarrow> Plugin \<Rightarrow> PluginVisibility \<Rightarrow> Operator \<Rightarrow> string \<Rightarrow> time \<Rightarrow> unit stx" where
  "applyAudience r sc p target m action t =
     bindT (updatePlugins (\<lambda>q. p_ID q = p_ID p \<and> p_SpaceID q = Some (s_SpaceID sc) \<and> p_DeletedAt q = None)
              (setAudience target t)) (\<lambda>n.
     thenT (mustAffect n)
    (thenT (syncVisibilityEmbeddedAudience p target t)
    (thenT (ensureVisibleDefaultPlacement r t (p_ID p) (p_CategoryID p))
    (bindT (newID r) (\<lambda>auditID.
       insertAudit auditID t p action
         (m\<lparr>o_Remark := Some (''visibility='' @ visibilityText (p_Visibility p) @ ''->'' @ visibilityText target)\<rparr>)
         (p_PluginHash p) (p_PluginHash p))))))"

definition markSettled ::
  "string \<Rightarrow> string \<Rightarrow> ReviewDecisionSource \<Rightarrow> time \<Rightarrow> PluginReviewRequest \<Rightarrow> PluginReviewRequest" where
  "markSettled uid name source t q =
     q\<lparr>rr_Status := ReviewStatusApproved, rr_ReviewerUID := Some uid, rr_ReviewerName := Some name,
       rr_DecisionSource := Some source, rr_ReviewedAt := Some t, rr_UpdatedAt := t\<rparr>"

definition settleVisibilityReview :: "string \<Rightarrow> string \<Rightarrow> string \<Rightarrow> ReviewDecisionSource \<Rightarrow> time \<Rightarrow> unit stx" where
  "settleVisibilityReview i uid name source t =
     bindT (updateReviews (\<lambda>q. rr_ID q = i \<and> rr_Status q = ReviewStatusPending) (markSettled uid name source t)) mustAffect"

record visibilityRelease =
  vl_Plugin :: Plugin
  vl_Relations :: "PluginRelation list"

definition loadVisibilityRelease :: "Plugin \<Rightarrow> string \<Rightarrow> visibilityRelease stx" where
  "loadVisibilityRelease p versionID =
     bindT (queryT (\<lambda>s. case versionRow s (p_ID p) versionID of
         None \<Rightarrow> None
       | Some v \<Rightarrow> map_option (\<lambda>rel. (v, rel_VersionLabel rel))
           (find (\<lambda>rel. rel_PluginID rel = p_ID p \<and> rel_VersionID rel = versionID) (releases s)))) (\<lambda>row.
     bindT (someT ErrVersionBaselineUnavailable row) (\<lambda>(v, label).
     returnT \<lparr>vl_Plugin = p\<lparr>p_Manifest := v_Manifest v, p_Package := v_Package v, p_AttachmentKeys := v_AttachmentKeys v,
         p_ManifestHash := v_ManifestHash v, p_PluginHash := v_PluginHash v, p_CurrentVersion := Some label,
         p_CurrentVersionID := Some versionID, p_Name := fst (manifestNameAndTags (v_Manifest v)),
         p_Tags := snd (manifestNameAndTags (v_Manifest v))\<rparr>,
       vl_Relations = v_Relations v\<rparr>))"

text \<open>The embedded children the frozen edges of a release name and its owner owns.\<close>

definition retainedChildren :: "Store \<Rightarrow> visibilityRelease \<Rightarrow> string list" where
  "retainedChildren s f =
     map r_TargetPluginID (filter (\<lambda>e.
       case find (ownedRow \<lparr>s_CallerUID = p_OwnerUID (vl_Plugin f), s_SpaceID = the (p_SpaceID (vl_Plugin f)), s_Admin = False\<rparr>
                   (r_TargetPluginID e)) (plugins s) of
         None \<Rightarrow> False
       | Some child \<Rightarrow> p_IsEmbedded child \<and> validPersistedRelation (r_Type e) (p_Type (vl_Plugin f)) (p_Type child)) (vl_Relations f))"

definition validateVisibilityGraph :: "Repo \<Rightarrow> visibilityRelease \<Rightarrow> unit stx" where
  "validateVisibilityGraph r f =
     (if references r then validateReleaseReferences r (vl_Plugin f) (the (p_CurrentVersionID (vl_Plugin f))) []
      else bindT (queryT (\<lambda>s. retainedChildren s f)) (\<lambda>retained.
        validateReleaseReferences r (vl_Plugin f) (the (p_CurrentVersionID (vl_Plugin f))) retained))"

section \<open>Changing the audience of one plugin\<close>

record VisibilityParams =
  vq_PluginID :: string
  vq_ExpectedPublishedVersionID :: string
  vq_ExpectedPlanRevision :: string
  vq_Visibility :: PluginVisibility
  vq_Operator :: Operator

record VisibilityResult =
  vo_Plugin :: Plugin
  vo_PublishedVersionID :: string
  vo_ReviewID :: string
  vo_Pending :: bool
  vo_ReviewCreated :: bool

definition visibilityRequest ::
  "string \<Rightarrow> time \<Rightarrow> string \<Rightarrow> string \<Rightarrow> Operator \<Rightarrow> visibilityRelease \<Rightarrow> PluginReviewRequest" where
  "visibilityRequest i t spaceID pid m f =
     \<lparr>rr_ID = i, rr_PluginID = pid, rr_SpaceID = spaceID, rr_TargetScope = ''space'', rr_Status = ReviewStatusPending,
      rr_Kind = ReviewKindVisibility,
      rr_Version = (case p_CurrentVersion (vl_Plugin f) of None \<Rightarrow> '''' | Some l \<Rightarrow> l), rr_Changelog = None,
      rr_Manifest = p_Manifest (vl_Plugin f), rr_Package = p_Package (vl_Plugin f), rr_Relations = vl_Relations f,
      rr_AttachmentKeys = p_AttachmentKeys (vl_Plugin f), rr_ManifestHash = p_ManifestHash (vl_Plugin f),
      rr_PluginHash = p_PluginHash (vl_Plugin f), rr_ApplicantUID = o_OperatorID m, rr_ApplicantName = o_OperatorName m,
      rr_ReviewerUID = None, rr_ReviewerName = None, rr_Reason = None, rr_DecisionSource = None,
      rr_SubmittedAt = t, rr_ReviewedAt = None, rr_CreatedAt = t, rr_UpdatedAt = t, rr_DeletedAt = None\<rparr>"

definition insertVisibilityReview :: "VisibilityReviewRow \<Rightarrow> unit stx" where
  "insertVisibilityReview row =
     bindT (queryT (\<lambda>s. \<exists>x \<in> set (visReviews s). vr_ReviewID x = vr_ReviewID row)) (\<lambda>dup.
     thenT (refuseT dup ErrDuplicateKey)
    (thenT (refuseT (vr_SourceVisibility row \<noteq> PluginVisibilityPrivate \<or> vr_TargetVisibility row \<noteq> PluginVisibilitySpace)
              ErrCheckViolation)
       (modifyT (\<lambda>s. s\<lparr>visReviews := visReviews s @ [row]\<rparr>))))"

text \<open>\<open>SELECT is_auto_approve_enabled ... WHERE space_id=?\<close>, true without a row.\<close>

definition autoApprove :: "Store \<Rightarrow> string \<Rightarrow> bool" where
  "autoApprove s spaceID =
     (case find (\<lambda>x. pol_SpaceID x = spaceID) (policies s) of None \<Rightarrow> True | Some x \<Rightarrow> pol_IsAutoApproveEnabled x)"

definition sameVisibilityReview :: "Store \<Rightarrow> string \<Rightarrow> string \<Rightarrow> PluginVisibility \<Rightarrow> PluginVisibility \<Rightarrow> bool" where
  "sameVisibilityReview s reviewID versionID from to \<longleftrightarrow>
     (\<exists>x \<in> set (visReviews s). vr_ReviewID x = reviewID \<and> vr_PublishedVersionID x = versionID \<and>
        vr_SourceVisibility x = from \<and> vr_TargetVisibility x = to)"

definition pendingRequest :: "Store \<Rightarrow> string \<Rightarrow> PluginReviewRequest option" where
  "pendingRequest s pid = find (\<lambda>q. rr_PluginID q = pid \<and> pendingReview q) (reviews s)"

text \<open>The widening branch: freeze the release, open a request, and decide it when the Space's policy
  approves by itself.\<close>

definition requestAudience :: "Repo \<Rightarrow> Scope \<Rightarrow> VisibilityParams \<Rightarrow> Plugin \<Rightarrow> string \<Rightarrow> VisibilityResult stx" where
  "requestAudience r sc p current published =
     bindT (loadVisibilityRelease current published) (\<lambda>frozen.
     thenT (validateVisibilityGraph r (frozen\<lparr>vl_Plugin := (vl_Plugin frozen)\<lparr>p_Visibility := PluginVisibilitySpace\<rparr>\<rparr>))
    (bindT (queryT (\<lambda>s. autoApprove s (s_SpaceID sc))) (\<lambda>auto.
     bindT (now r) (\<lambda>t.
     bindT (newID r) (\<lambda>i.
     thenT (insertRequest ErrDuplicateKey (visibilityRequest i t (s_SpaceID sc) (p_ID current) (vq_Operator p) frozen))
    (thenT (insertVisibilityReview \<lparr>vr_ReviewID = i, vr_PublishedVersionID = published,
              vr_SourceVisibility = p_Visibility current, vr_TargetVisibility = vq_Visibility p\<rparr>)
    (thenT (whenT auto
              (thenT (applyAudience r sc current (vq_Visibility p) (vq_Operator p) ''visibility_change'' t)
                 (settleVisibilityReview i (o_OperatorID (vq_Operator p)) (o_OperatorName (vq_Operator p))
                    ReviewDecisionSourcePolicy t)))
       (returnT \<lparr>vo_Plugin = (if auto then current\<lparr>p_Visibility := vq_Visibility p\<rparr> else current),
          vo_PublishedVersionID = published, vo_ReviewID = i, vo_Pending = \<not> auto, vo_ReviewCreated = True\<rparr>))))))))"

definition unchangedResult :: "Plugin \<Rightarrow> string \<Rightarrow> VisibilityResult" where
  "unchangedResult p published =
     \<lparr>vo_Plugin = p, vo_PublishedVersionID = published, vo_ReviewID = '''', vo_Pending = False, vo_ReviewCreated = False\<rparr>"

definition changeVisibilityDirect :: "Repo \<Rightarrow> Scope \<Rightarrow> VisibilityParams \<Rightarrow> VisibilityResult stx" where
  "changeVisibilityDirect r sc p =
     thenT (refuseT (\<not> versionManagement r) ErrVersionBaselineUnavailable)
    (bindT (getOwnedForUpdate sc (vq_PluginID p)) (\<lambda>current.
     thenT (refuseT (\<not> versioned current \<or> p_IsEmbedded current \<or>
              p_Visibility current \<noteq> PluginVisibilityPrivate \<and> p_Visibility current \<noteq> PluginVisibilitySpace) ErrNotFound)
    (thenT (refuseT (p_ListingState current \<noteq> PluginListingStatePublished) ErrConflict)
    (thenT (refuseT (p_SpaceID current \<noteq> Some (s_SpaceID sc)) ErrSnapshotMissing)
    (bindT (someT ErrVersionBaselineUnavailable (p_PublishedVersionID current)) (\<lambda>published.
     thenT (refuseT (published \<noteq> vq_ExpectedPublishedVersionID p) ErrConflict)
    (thenT (refuseT (vq_Visibility p \<noteq> PluginVisibilityPrivate \<and> vq_Visibility p \<noteq> PluginVisibilitySpace) ErrConflict)
    (bindT (queryT (\<lambda>s. pendingRequest s (p_ID current))) (\<lambda>pending.
     case pending of
       Some q \<Rightarrow>
         bindT (queryT (\<lambda>s. sameVisibilityReview s (rr_ID q) published (p_Visibility current) (vq_Visibility p))) (\<lambda>same.
         thenT (refuseT (\<not> same) ErrReviewPending)
           (returnT ((unchangedResult current published)\<lparr>vo_ReviewID := rr_ID q, vo_Pending := True\<rparr>)))
     | None \<Rightarrow>
         if p_Visibility current = vq_Visibility p then returnT (unchangedResult current published)
         else if vq_Visibility p = PluginVisibilityPrivate then
           thenT (rejectPublishedIncomingRelations r (p_ID current))
          (bindT (now r) (\<lambda>t.
           thenT (applyAudience r sc current PluginVisibilityPrivate (vq_Operator p) ''visibility_change'' t)
             (returnT (unchangedResult (current\<lparr>p_Visibility := PluginVisibilityPrivate\<rparr>) published))))
         else requestAudience r sc p current published)))))))))"

section \<open>The confirmed plan\<close>

text \<open>One request of the group: the release of a member, its visibility evidence and the plan.\<close>

definition openGroupMember ::
  "Repo \<Rightarrow> Scope \<Rightarrow> VisibilityParams \<Rightarrow> VisibilityPlan \<Rightarrow> string \<Rightarrow> time \<Rightarrow> VisibilityPlanItem \<Rightarrow> unit stx" where
  "openGroupMember r sc p plan rootReview t item =
     bindT (queryT (\<lambda>s. readVisibilityNode s (vpi_PluginID item))) (\<lambda>x.
     bindT (liftT x) (\<lambda>n.
     bindT (newID r) (\<lambda>fresh.
     let i = (if vpi_PluginID item = vq_PluginID p then rootReview else fresh) in
     bindT (if p_Type (n_Plugin n) \<noteq> PluginTypeConnector then loadVisibilityRelease (n_Plugin n) (n_PublishedID n)
            else returnT \<lparr>vl_Plugin = n_Plugin n, vl_Relations = []\<rparr>) (\<lambda>frozen.
     thenT (insertRequest ErrDuplicateKey (visibilityRequest i t (s_SpaceID sc) (vpi_PluginID item) (vq_Operator p) frozen))
    (thenT (insertVisibilityReview \<lparr>vr_ReviewID = i, vr_PublishedVersionID = n_PublishedID n,
              vr_SourceVisibility = p_Visibility (n_Plugin n), vr_TargetVisibility = vq_Visibility p\<rparr>)
    (bindT (queryT (\<lambda>s. \<exists>g \<in> set (groups s). g_ReviewID g = i)) (\<lambda>dup.
     thenT (refuseT dup ErrDuplicateKey)
       (modifyT (\<lambda>s. s\<lparr>groups := groups s @
          [\<lparr>g_ReviewID = i, g_RootReviewID = rootReview, g_PluginID = vpi_PluginID item, g_Plan = plan\<rparr>]\<rparr>)))))))))"

text \<open>A member of the group: its locked plugin, its open request, and the node without the flag its
  own request sets.\<close>

definition groupNode :: "Scope \<Rightarrow> visibilityGroupMember \<Rightarrow> (string \<times> visibilityNode) stx" where
  "groupNode sc m =
     bindT (getReviewedPluginForUpdate (s_SpaceID sc) (gm_PluginID m)) (\<lambda>p.
     bindT (queryT (\<lambda>s. find (\<lambda>q. rr_ID q = gm_ReviewID m \<and> rr_SpaceID q = s_SpaceID sc) (reviews s))) (\<lambda>row.
     bindT (someT ErrSnapshotMissing row) (\<lambda>q.
     thenT (refuseT (rr_Status q \<noteq> ReviewStatusPending) ErrConflict)
    (bindT (queryT (\<lambda>s. readVisibilityNode s (p_ID p))) (\<lambda>x.
     bindT (liftT x) (\<lambda>n. returnT (p_ID p, n\<lparr>n_Pending := False\<rparr>)))))))"

definition groupReader :: "Store \<Rightarrow> (string \<times> visibilityNode) list \<Rightarrow> bool \<Rightarrow> string \<Rightarrow> RepoError + visibilityNode" where
  "groupReader s nodes strict pid = (case map_of (rev nodes) pid of Some n \<Rightarrow> Inr n | None \<Rightarrow> readPlanNode s pid strict)"

definition applyMember ::
  "Repo \<Rightarrow> Scope \<Rightarrow> (string \<times> visibilityNode) list \<Rightarrow> Operator \<Rightarrow> VisibilityPlanItem \<Rightarrow> unit stx" where
  "applyMember r owner nodes m item =
     bindT (someT ErrConflict (map_of (rev nodes) (vpi_PluginID item))) (\<lambda>n.
     bindT (now r) (\<lambda>t. applyAudience r owner (n_Plugin n) (vpi_To item) m ''visibility_approve'' t))"

definition validateMember :: "Repo \<Rightarrow> (string \<times> visibilityNode) list \<Rightarrow> VisibilityPlanItem \<Rightarrow> unit stx" where
  "validateMember r nodes item =
     bindT (someT ErrConflict (map_of (rev nodes) (vpi_PluginID item))) (\<lambda>n.
     whenT (p_Type (n_Plugin n) \<noteq> PluginTypeConnector)
       (bindT (loadVisibilityRelease (n_Plugin n) (n_PublishedID n)) (\<lambda>f.
        validateVisibilityGraph r (f\<lparr>vl_Plugin := (vl_Plugin f)\<lparr>p_Visibility := vpi_To item\<rparr>\<rparr>))))"

definition applyVisibilityGroup ::
  "Repo \<Rightarrow> Scope \<Rightarrow> string \<Rightarrow> Operator \<Rightarrow> ReviewDecisionSource \<Rightarrow> unit stx" where
  "applyVisibilityGroup r sc reviewID m source =
     bindT (queryT (\<lambda>s. visibilityGroup s reviewID)) (\<lambda>group.
     bindT (someT ErrConflict group) (\<lambda>(_, members, plan).
     bindT (mapT (groupNode sc) members) (\<lambda>nodes.
     bindT (someT ErrConflict (map_of (rev nodes) (vp_PluginID plan))) (\<lambda>root.
     let owner = \<lparr>s_CallerUID = p_OwnerUID (n_Plugin root), s_SpaceID = s_SpaceID sc, s_Admin = False\<rparr> in
     bindT (queryT (\<lambda>s. buildVisibilityPlan r owner root PluginVisibilitySpace
              (groupReader s nodes (references r)) (references r))) (\<lambda>x.
     bindT (liftT x) (\<lambda>current.
     thenT (refuseT (vp_Revision current \<noteq> vp_Revision plan \<or> vp_Blockers current \<noteq> []) ErrConflict)
    (thenT (forT (applyMember r owner nodes m) (vp_Changes plan))
    (thenT (forT (validateMember r nodes) (vp_Changes plan))
       (forT (\<lambda>g. bindT (now r) (\<lambda>t. settleVisibilityReview (gm_ReviewID g) (o_OperatorID m) (o_OperatorName m) source t))
          members)))))))))"

definition narrowDependent :: "Repo \<Rightarrow> Scope \<Rightarrow> string \<Rightarrow> VisibilityPlanItem \<Rightarrow> unit stx" where
  "narrowDependent r sc rootID item =
     bindT (now r) (\<lambda>t.
     thenT (suspendDependency (vpi_PluginID item) rootID t)
    (bindT (now r) (\<lambda>t. demoteEmbeddedChildren (vpi_PluginID item) (vpi_Type item) (s_SpaceID sc) t)))"

definition openGroup ::
  "Repo \<Rightarrow> Scope \<Rightarrow> VisibilityParams \<Rightarrow> visibilityNode \<Rightarrow> VisibilityPlan \<Rightarrow> VisibilityResult stx" where
  "openGroup r sc p root plan =
     bindT (queryT (\<lambda>s. autoApprove s (s_SpaceID sc))) (\<lambda>auto.
     bindT (now r) (\<lambda>t.
     bindT (newID r) (\<lambda>rootReview.
     thenT (forT (openGroupMember r sc p plan rootReview t) (vp_Changes plan))
    (thenT (whenT auto (applyVisibilityGroup r sc rootReview (vq_Operator p) ReviewDecisionSourcePolicy))
       (returnT \<lparr>vo_Plugin = (if auto then (n_Plugin root)\<lparr>p_Visibility := vq_Visibility p\<rparr> else n_Plugin root),
          vo_PublishedVersionID = n_PublishedID root, vo_ReviewID = rootReview, vo_Pending = \<not> auto,
          vo_ReviewCreated = True\<rparr>)))))"

definition confirmVisibilityPlan ::
  "Repo \<Rightarrow> Scope \<Rightarrow> VisibilityParams \<Rightarrow> VisibilityPlan \<Rightarrow> VisibilityResult stx" where
  "confirmVisibilityPlan r sc p preview =
     thenT (forT (\<lambda>i. bindT (getReviewedPluginForUpdate (s_SpaceID sc) i) (\<lambda>_. returnT ()))
       (sortStringsUnique (map vpi_PluginID (vp_Changes preview @ vp_Affected preview))))
    (bindT (queryT (\<lambda>s. readVisibilityNode s (vq_PluginID p))) (\<lambda>x.
     bindT (liftT x) (\<lambda>root.
     thenT (refuseT (\<not> ownNode sc root) ErrNotFound)
    (bindT (queryT (\<lambda>s. visibilityPlanWithImpact r s sc root (vq_Visibility p) (references r))) (\<lambda>y.
     bindT (liftT y) (\<lambda>plan.
     thenT (refuseT (\<not> sameVisibilityPlan preview plan \<or> n_Pending root) ErrConflict)
       (if p_Visibility (n_Plugin root) = vq_Visibility p then returnT (unchangedResult (n_Plugin root) (n_PublishedID root))
        else if vq_Visibility p = PluginVisibilityPrivate then
          bindT (now r) (\<lambda>t.
          thenT (applyAudience r sc (n_Plugin root) PluginVisibilityPrivate (vq_Operator p) ''visibility_change'' t)
         (thenT (forT (narrowDependent r sc (p_ID (n_Plugin root))) (vp_Affected plan))
            (returnT (unchangedResult ((n_Plugin root)\<lparr>p_Visibility := PluginVisibilityPrivate\<rparr>) (n_PublishedID root)))))
        else openGroup r sc p root plan)))))))"

definition changeVisibilityPlan :: "Repo \<Rightarrow> Scope \<Rightarrow> VisibilityParams \<Rightarrow> VisibilityResult stx" where
  "changeVisibilityPlan r sc p =
     bindT (queryT (\<lambda>s. VisibilityPlan r s sc (vq_PluginID p) (vq_Visibility p))) (\<lambda>x.
     bindT (liftT x) (\<lambda>preview.
     thenT (refuseT (vp_Revision preview \<noteq> vq_ExpectedPlanRevision p \<or> vp_Blockers preview \<noteq> []) ErrConflict)
       (confirmVisibilityPlan r sc p preview)))"

definition ChangeVisibility :: "Repo \<Rightarrow> Scope \<Rightarrow> VisibilityParams \<Rightarrow> VisibilityResult stx" where
  "ChangeVisibility r sc p =
     (if vq_ExpectedPlanRevision p \<noteq> '''' then changeVisibilityPlan r sc p else changeVisibilityDirect r sc p)"

section \<open>What an audience change may touch\<close>

text \<open>A plugin row without the columns an audience change writes.\<close>

definition contentOf :: "Plugin \<Rightarrow> Plugin" where
  "contentOf p = p\<lparr>p_Visibility := PluginVisibilityPrivate, p_ListingState := PluginListingStateDraft, p_UpdatedAt := 0\<rparr>"

definition audienceStep :: "Store \<Rightarrow> Store \<Rightarrow> bool" where
  "audienceStep s t \<longleftrightarrow>
     sameExcept {TPlugins, TReviews, TVisReviews, TGroups, TPlacements, TAudits, TSuspensions} s t \<and>
     keepsCol contentOf s t \<and> requestsKept s t \<and> keepsQueue s t \<and> appendOnly s t \<and> placementsKept s t"

interpretation audience: tx_frame audienceStep
proof unfold_locales
  show "audienceStep s s" for s
    by (simp add: audienceStep_def touch.frame_refl column.frame_refl queue.frame_refl queueInv.frame_refl history.frame_refl shelfFrame.frame_refl)
  show "audienceStep s u" if "audienceStep s t" "audienceStep t u" for s t u
    using that unfolding audienceStep_def
    by (elim conjE, intro conjI)
      (erule (1) touch.frame_trans column.frame_trans queue.frame_trans queueInv.frame_trans history.frame_trans shelfFrame.frame_trans)+
qed

named_theorems audiences "statements of an audience change"

lemma touches_audience [audiences]:
  assumes "steps (sameExcept X) m" and "X \<subseteq> {TVisReviews, TGroups, TSuspensions}"
  shows "steps audienceStep m"
proof (rule stepsI)
  fix s a t assume run: "m s = Inr (a, t)"
  have x: "sameExcept X s t" by (rule stepsD [OF assms(1) run])
  have "sameExcept {TPlugins, TReviews, TVisReviews, TGroups, TPlacements, TAudits, TSuspensions} s t"
    by (rule sameExcept_mono [OF _ x]) (use assms(2) in blast)
  moreover have "keepsCol contentOf s t"
    by (rule stepsD [OF touches_keeps [OF assms(1)] run]) (use assms(2) in blast)
  moreover have "requestsKept s t" "keepsQueue s t"
    by (rule stepsD [OF touches_requestsKept [OF assms(1)] run] stepsD [OF touches_keepsQueue [OF assms(1)] run],
        use assms(2) in blast)+
  moreover have "appendOnly s t"
    by (rule stepsD [OF touches_history [OF assms(1)] run]) (use assms(2) in blast)
  moreover have "placementsKept s t"
    by (rule stepsD [OF touches_shelf [OF assms(1)] run]) (use assms(2) in blast)
  ultimately show "audienceStep s t" by (simp add: audienceStep_def)
qed

lemma placement_audience [audiences]: "steps audienceStep (ensureVisibleDefaultPlacement r t pid cat)"
proof (rule stepsI)
  fix s a s' assume run: "ensureVisibleDefaultPlacement r t pid cat s = Inr (a, s')"
  note touch = ensurePlacement_touches [of "{TPlacements}" r t pid cat, simplified]
  show "audienceStep s s'"
    using sameExcept_mono [OF _ stepsD [OF touch run], of "{TPlugins, TReviews, TVisReviews, TGroups, TPlacements, TAudits, TSuspensions}"]
      stepsD [OF touches_keeps [OF touch] run] stepsD [OF touches_requestsKept [OF touch] run]
      stepsD [OF touches_keepsQueue [OF touch] run] stepsD [OF touches_history [OF touch] run] stepsD [OF ensurePlacement_shelf run]
    by (simp add: audienceStep_def)
qed

lemma plugins_audience:
  assumes "\<And>q. c q \<Longrightarrow> contentOf (f q) = contentOf q"
  shows "steps audienceStep (updatePlugins c f)"
proof (rule stepsI)
  fix s n t assume run: "updatePlugins c f s = Inr (n, t)"
  note touch = updatePlugins_touches [of "{TPlugins}" c f, simplified]
  have "keepsCol contentOf s t" by (rule stepsD [OF updatePlugins_keeps run]) (rule assms)
  moreover have "sameExcept {TPlugins, TReviews, TVisReviews, TGroups, TPlacements, TAudits, TSuspensions} s t"
    by (rule stepsD [OF updatePlugins_touches run]) simp
  moreover have "requestsKept s t" "keepsQueue s t" "appendOnly s t" "placementsKept s t"
    using stepsD [OF touches_requestsKept [OF touch] run] stepsD [OF touches_keepsQueue [OF touch] run]
      stepsD [OF touches_history [OF touch] run] stepsD [OF touches_shelf [OF touch] run] by simp_all
  ultimately show "audienceStep s t" by (simp add: audienceStep_def)
qed

text \<open>A statement on the requests that settles or adds.\<close>

lemma reviews_audience:
  assumes "steps (sameExcept {TReviews}) m" and "steps requestsKept m" and "steps keepsQueue m"
  shows "steps audienceStep m"
proof (rule stepsI)
  fix s n t assume run: "m s = Inr (n, t)"
  have "sameExcept {TPlugins, TReviews, TVisReviews, TGroups, TPlacements, TAudits, TSuspensions} s t"
    by (rule sameExcept_mono [OF _ stepsD [OF assms(1) run]]) simp
  then show "audienceStep s t"
    using stepsD [OF touches_keeps [OF assms(1)] run] stepsD [OF touches_history [OF assms(1)] run] stepsD [OF touches_shelf [OF assms(1)] run]
      stepsD [OF assms(2) run] stepsD [OF assms(3) run] by (simp add: audienceStep_def)
qed

lemma audit_audience [audiences]: "steps audienceStep (insertAudit i t p act m b a)"
proof (rule stepsI)
  fix s u s' assume run: "insertAudit i t p act m b a s = Inr (u, s')"
  note touch = insertAudit_touches [of "{TAudits}" i t p act m b a, simplified]
  show "audienceStep s s'"
    using sameExcept_mono [OF _ stepsD [OF touch run], of "{TPlugins, TReviews, TVisReviews, TGroups, TPlacements, TAudits, TSuspensions}"]
      stepsD [OF touches_keeps [OF touch] run] stepsD [OF touches_requestsKept [OF touch] run]
      stepsD [OF touches_keepsQueue [OF touch] run] stepsD [OF insertAudit_appends run] stepsD [OF touches_shelf [OF touch] run]
    by (simp add: audienceStep_def)
qed

lemma contentOf_marks [simp]:
  "contentOf (setAudience v t p) = contentOf p" "contentOf (setChildAudience v t p) = contentOf p"
  "contentOf (markDown t p) = contentOf p" "contentOf (markPublished t p) = contentOf p"
  by (simp_all add: contentOf_def setAudience_def setChildAudience_def markDown_def markPublished_def)

lemma markSettled_fields [simp]:
  "sameRequest q (markSettled u n src t q)" "rr_Status (markSettled u n src t q) = ReviewStatusApproved"
  "rr_ID (markSettled u n src t q) = rr_ID q" "rr_PluginID (markSettled u n src t q) = rr_PluginID q"
  by (simp_all add: sameRequest_def markSettled_def)

lemmas clock_audience [audiences] =
  touches_audience [OF now_touches [of "{}"], simplified] touches_audience [OF newID_touches [of "{}"], simplified]
  touches_audience [OF mustAffect_touches [of "{}"], simplified] touches_audience [OF getReviewed_touches [of "{}"], simplified]
  touches_audience [OF getOwnedForUpdate_touches [of "{}"], simplified]

lemma reads_audience: "steps (=) m \<Longrightarrow> steps audienceStep m"
  by (rule touches_audience [OF reads_touches [of m "{}"]]) simp_all

lemma syncEdge_audience [audiences]: "steps audienceStep (syncEdge root target t ty e queue)"
  unfolding syncEdge_def by (intro audience.steps_rules plugins_audience) simp

text \<open>Whatever every edge keeps, the whole queue keeps.\<close>

lemma syncLoop_steps:
  assumes R: "tx_frame R" and edge: "\<And>ty e q. steps R (syncEdge root target t ty e q)"
  shows "steps R (syncLoop k root target t queue seen)"
proof (induction k arbitrary: queue seen)
  case 0
  then show ?case by (simp add: tx_frame.steps_throw [OF R])
next
  case (Suc k)
  show ?case
  proof (cases queue)
    case Nil
    then show ?thesis by (simp add: tx_frame.steps_return [OF R])
  next
    case (Cons n rest)
    show ?thesis
      unfolding syncLoop.simps Cons list.case Let_def
      by (intro tx_frame.steps_if [OF R] tx_frame.steps_bind [OF R] tx_frame.steps_query [OF R] tx_frame.steps_fold [OF R] edge Suc.IH)
  qed
qed

lemma syncAudience_steps:
  assumes R: "tx_frame R" and edge: "\<And>ty e q. steps R (syncEdge root target t ty e q)"
  shows "steps R (syncVisibilityEmbeddedAudience root target t)"
  unfolding syncVisibilityEmbeddedAudience_def
  by (intro tx_frame.steps_if [OF R] tx_frame.steps_bind [OF R] tx_frame.steps_query [OF R] tx_frame.steps_throw [OF R]
      syncLoop_steps [OF R edge])

lemma syncAudience_audience [audiences]: "steps audienceStep (syncVisibilityEmbeddedAudience root target t)"
  by (rule syncAudience_steps) (rule audience.tx_frame_axioms, rule audiences)

lemma applyAudience_audience [audiences]: "steps audienceStep (applyAudience r sc p target m act t)"
  unfolding applyAudience_def by (intro audience.steps_rules audiences plugins_audience) simp

lemma settle_requests [requests]:
  "steps requestsKept (settleVisibilityReview i u n src t)" "steps keepsQueue (settleVisibilityReview i u n src t)"
  unfolding settleVisibilityReview_def
  by (intro queue.steps_rules queueInv.steps_rules requests touches_requestsKept [OF mustAffect_touches [of "{}"]]
      touches_keepsQueue [OF mustAffect_touches [of "{}"]]; simp)+

lemma settle_touches [touches]: "TReviews \<in> X \<Longrightarrow> steps (sameExcept X) (settleVisibilityReview i u n src t)"
  unfolding settleVisibilityReview_def by (intro touch.steps_rules touches)

lemma settle_audience [audiences]: "steps audienceStep (settleVisibilityReview i u n src t)"
  by (rule reviews_audience) (auto intro: touches requests)

lemma insertRequest_audience [audiences]: "steps audienceStep (insertRequest e row)"
  by (rule reviews_audience) (auto intro: touches requests)

lemma insertVisibilityReview_touches [touches]: "TVisReviews \<in> X \<Longrightarrow> steps (sameExcept X) (insertVisibilityReview row)"
  unfolding insertVisibilityReview_def
  by (intro touch.steps_rules touch.steps_modify) (auto simp: sameExcept_def kept_def)

lemma insertVisibilityReview_audience [audiences]: "steps audienceStep (insertVisibilityReview row)"
  by (rule touches_audience [OF insertVisibilityReview_touches [of "{TVisReviews}"]]) simp_all

lemma loadVisibilityRelease_reads [reads]: "steps (=) (loadVisibilityRelease p v)"
  unfolding loadVisibilityRelease_def by (intro reading.steps_rules)

lemma validateVisibilityGraph_reads [reads]: "steps (=) (validateVisibilityGraph r f)"
  unfolding validateVisibilityGraph_def by (intro reading.steps_rules reads)

lemmas graph_audience [audiences] = reads_audience [OF loadVisibilityRelease_reads] reads_audience [OF validateVisibilityGraph_reads]
  reads_audience [OF rejectPublishedIncoming_reads]

lemma requestAudience_audience [audiences]: "steps audienceStep (requestAudience r sc p c pub)"
  unfolding requestAudience_def by (intro audience.steps_rules audiences)

lemma changeDirect_audience [audiences]: "steps audienceStep (changeVisibilityDirect r sc p)"
  unfolding changeVisibilityDirect_def by (intro audience.steps_rules audiences)

lemma suspendDependency_audience [audiences]: "steps audienceStep (suspendDependency i src t)"
  unfolding suspendDependency_def
  by (intro audience.steps_rules plugins_audience touches_audience [where X = "{TSuspensions}"] touch.steps_modify)
    (auto simp: sameExcept_def kept_def)

lemma demote_audience [audiences]: "steps audienceStep (demoteEmbeddedChildren i ty sp t)"
  unfolding demoteEmbeddedChildren_def demoteChild_def by (intro audience.steps_rules plugins_audience) simp

lemma insertGroup_audience:
  "steps audienceStep (modifyT (\<lambda>s. s\<lparr>groups := groups s @ [row]\<rparr>))"
  by (rule touches_audience [where X = "{TGroups}"], rule touch.steps_modify) (auto simp: sameExcept_def kept_def)

lemma openGroupMember_audience [audiences]: "steps audienceStep (openGroupMember r sc p plan root t item)"
  unfolding openGroupMember_def Let_def by (intro audience.steps_rules audiences insertGroup_audience)

lemma groupNode_reads [reads]: "steps (=) (groupNode sc m)"
  unfolding groupNode_def by (intro reading.steps_rules reads)

lemma applyMember_audience [audiences]: "steps audienceStep (applyMember r sc nodes m item)"
  unfolding applyMember_def by (intro audience.steps_rules audiences)

lemma validateMember_reads [reads]: "steps (=) (validateMember r nodes item)"
  unfolding validateMember_def by (intro reading.steps_rules reads)

lemma applyGroup_audience [audiences]: "steps audienceStep (applyVisibilityGroup r sc i m src)"
  unfolding applyVisibilityGroup_def Let_def
  by (intro audience.steps_rules audiences reads_audience [OF groupNode_reads] reads_audience [OF validateMember_reads])

lemma narrowDependent_audience [audiences]: "steps audienceStep (narrowDependent r sc i item)"
  unfolding narrowDependent_def by (intro audience.steps_rules audiences)

lemma openGroup_audience [audiences]: "steps audienceStep (openGroup r sc p root plan)"
  unfolding openGroup_def by (intro audience.steps_rules audiences)

lemma confirm_audience [audiences]: "steps audienceStep (confirmVisibilityPlan r sc p preview)"
  unfolding confirmVisibilityPlan_def by (intro audience.steps_rules audiences)

lemma ChangeVisibility_audience: "steps audienceStep (ChangeVisibility r sc p)"
  unfolding ChangeVisibility_def changeVisibilityPlan_def by (intro audience.steps_rules audiences)

text \<open>C13: an audience change updates the effective audience only. Content, labels, version
  pointers, names and every other column of every plugin, all edges, versions and releases stay
  as they are; the audit log and the release history only grow; requests keep what they froze,
  decided ones do not change, and no plugin gets a second open request.\<close>

theorem ChangeVisibility_audience_only:
  assumes "ChangeVisibility r sc p s = Inr (out, s')"
  shows "map contentOf (plugins s') = map contentOf (plugins s) \<and> relations s' = relations s \<and>
    versions s' = versions s \<and> releases s' = releases s \<and> prefix (audits s) (audits s') \<and>
    requestsKept s s' \<and> keepsQueue s s'"
proof -
  have "audienceStep s s'" by (rule stepsD [OF ChangeVisibility_audience assms])
  then show ?thesis
    by (auto simp: audienceStep_def keepsCol_def appendOnly_def dest: sameExcept_tables)
qed

definition sampleChange :: "string \<Rightarrow> string \<Rightarrow> PluginVisibility \<Rightarrow> VisibilityParams" where
  "sampleChange pid vid target = \<lparr>vq_PluginID = pid, vq_ExpectedPublishedVersionID = vid, vq_ExpectedPlanRevision = '''',
     vq_Visibility = target, vq_Operator = sampleOperator\<rparr>"

theorem ChangeVisibility_audience_only_witness:
  "\<exists>out s'. ChangeVisibility managedRepo sampleOwner (sampleChange ''k'' ''vk'' PluginVisibilitySpace) planStore = Inr (out, s') \<and>
     p_Visibility (vo_Plugin out) = PluginVisibilitySpace \<and> map contentOf (plugins s') = map contentOf (plugins planStore)"
proof -
  let ?run = "ChangeVisibility managedRepo sampleOwner (sampleChange ''k'' ''vk'' PluginVisibilitySpace) planStore"
  have ok: "case ?run of Inl _ \<Rightarrow> False | Inr (out, _) \<Rightarrow> p_Visibility (vo_Plugin out) = PluginVisibilitySpace" by code_simp
  then obtain out s' where run: "?run = Inr (out, s')" by (cases ?run) auto
  with ok ChangeVisibility_audience_only [OF run] show ?thesis by simp
qed

section \<open>The review gate\<close>

text \<open>No row becomes readable by its whole Space.\<close>

definition noExposure :: "Store \<Rightarrow> Store \<Rightarrow> bool" where
  "noExposure s t \<longleftrightarrow> (\<forall>q \<in> set (plugins t). orgListed q \<longrightarrow> (\<exists>p \<in> set (plugins s). p_ID p = p_ID q \<and> orgListed p))"

lemma noExposure_same: "plugins t = plugins s \<Longrightarrow> noExposure s t"
  unfolding noExposure_def by metis

lemma noExposure_trans: "noExposure s t \<Longrightarrow> noExposure t u \<Longrightarrow> noExposure s u"
  unfolding noExposure_def by metis

interpretation gate: tx_frame noExposure
  by unfold_locales (auto intro: noExposure_same noExposure_trans)

named_theorems gates "statements that expose nothing"

lemma touches_gate: "steps (sameExcept X) m \<Longrightarrow> TPlugins \<notin> X \<Longrightarrow> steps noExposure m"
  by (erule steps_mono) (auto intro: noExposure_same dest: sameExcept_plugins)

lemma plugins_gate:
  assumes "\<And>q. c q \<Longrightarrow> p_ID (f q) = p_ID q" and "\<And>q. c q \<Longrightarrow> orgListed (f q) \<Longrightarrow> orgListed q"
  shows "steps noExposure (updatePlugins c f)"
proof (rule stepsI)
  fix s n t assume "updatePlugins c f s = Inr (n, t)"
  then have t: "plugins t = updateWhere c f (plugins s)" by (simp add: tx_simps)
  show "noExposure s t"
    unfolding noExposure_def t
  proof (intro ballI impI)
    fix q assume "q \<in> set (updateWhere c f (plugins s))" "orgListed q"
    then show "\<exists>p \<in> set (plugins s). p_ID p = p_ID q \<and> orgListed p"
      by (elim updateWhere_memE) (use assms in force)+
  qed
qed

lemma orgListed_marks [simp]:
  "\<not> orgListed (markDown t p)" "\<not> orgListed (setAudience PluginVisibilityPrivate t p)"
  "\<not> orgListed (setChildAudience PluginVisibilityPrivate t p)"
  by (simp_all add: orgListed_def markDown_def setAudience_def setChildAudience_def)

lemma marks_id [simp]:
  "p_ID (markDown t p) = p_ID p" "p_ID (setAudience v t p) = p_ID p" "p_ID (setChildAudience v t p) = p_ID p"
  by (simp_all add: markDown_def setAudience_def setChildAudience_def)

lemmas clock_gate [gates] =
  touches_gate [OF now_touches [of "{}"], simplified] touches_gate [OF newID_touches [of "{}"], simplified]
  touches_gate [OF mustAffect_touches [of "{}"], simplified] touches_gate [OF getReviewed_touches [of "{}"], simplified]
  touches_gate [OF getOwnedForUpdate_touches [of "{}"], simplified]
  touches_gate [OF ensurePlacement_touches [of "{TPlacements}"], simplified]
  touches_gate [OF insertAudit_touches [of "{TAudits}"], simplified]

lemma narrow_gate [gates]: "steps noExposure (applyAudience r sc p PluginVisibilityPrivate m act t)"
proof -
  have "steps noExposure (syncEdge p PluginVisibilityPrivate t ty e q)" for ty e q
    unfolding syncEdge_def by (intro gate.steps_rules plugins_gate) simp_all
  then have "steps noExposure (syncVisibilityEmbeddedAudience p PluginVisibilityPrivate t)"
    by (rule syncAudience_steps [OF gate.tx_frame_axioms])
  then show ?thesis unfolding applyAudience_def by (intro gate.steps_rules gates plugins_gate) simp_all
qed

lemma narrowDependent_gate [gates]: "steps noExposure (narrowDependent r sc i item)"
  unfolding narrowDependent_def suspendDependency_def demoteEmbeddedChildren_def demoteChild_def
  by (intro gate.steps_rules gates plugins_gate touches_gate [where X = "{TSuspensions}"] touch.steps_modify)
    (auto simp: sameExcept_def kept_def)

text \<open>What holds as long as the Space's policy does not approve by itself.\<close>

definition unlessAuto :: "string \<Rightarrow> (Store \<Rightarrow> Store \<Rightarrow> bool) \<Rightarrow> Store \<Rightarrow> Store \<Rightarrow> bool" where
  "unlessAuto spaceID R s t \<longleftrightarrow> policies t = policies s \<and> (\<not> autoApprove s spaceID \<longrightarrow> R s t)"

lemma autoApprove_same: "policies t = policies s \<Longrightarrow> autoApprove t x = autoApprove s x"
  by (simp add: autoApprove_def)

lemma unlessAuto_frame: "tx_frame R \<Longrightarrow> tx_frame (unlessAuto x R)"
  unfolding tx_frame_def unlessAuto_def by (metis autoApprove_same)

lemma audienceStep_policies: "audienceStep s t \<Longrightarrow> policies t = policies s"
  by (auto simp: audienceStep_def dest: sameExcept_tables)

lemma unlessAuto_both: "steps audienceStep m \<Longrightarrow> steps R m \<Longrightarrow> steps (unlessAuto x R) m"
  unfolding steps_def unlessAuto_def by (metis audienceStep_policies)

text \<open>The policy is read once; only its automatic branch is unconstrained.\<close>

lemma unlessAuto_policy:
  assumes "\<And>a. steps audienceStep (f a)" and "steps R (f False)"
  shows "steps (unlessAuto x R) (bindT (queryT (\<lambda>s. autoApprove s x)) f)"
proof (rule stepsI)
  fix s a t assume "bindT (queryT (\<lambda>s. autoApprove s x)) f s = Inr (a, t)"
  then have run: "f (autoApprove s x) s = Inr (a, t)" by (simp add: tx_simps)
  have "policies t = policies s"
    by (rule audienceStep_policies [OF stepsD [OF assms(1) run]])
  moreover have "R s t" if "\<not> autoApprove s x" using stepsD [OF assms(2)] run that by simp
  ultimately show "unlessAuto x R s t" by (simp add: unlessAuto_def)
qed

abbreviation samePlugins :: "Store \<Rightarrow> Store \<Rightarrow> bool" where
  "samePlugins s t \<equiv> plugins t = plugins s"

interpretation rows: tx_frame samePlugins
  by unfold_locales simp_all

named_theorems rowfree "statements that leave the plugin rows alone"

lemma touches_rows: "steps (sameExcept X) m \<Longrightarrow> TPlugins \<notin> X \<Longrightarrow> steps samePlugins m"
  by (erule steps_mono) (auto dest: sameExcept_plugins)

lemmas statement_rows [rowfree] =
  touches_rows [OF now_touches [of "{}"], simplified] touches_rows [OF newID_touches [of "{}"], simplified]
  touches_rows [OF insertRequest_touches [of "{TReviews}"], simplified]
  touches_rows [OF insertVisibilityReview_touches [of "{TVisReviews}"], simplified]
  touches_rows [OF reads_touches [OF loadVisibilityRelease_reads, of "{}"], simplified]
  touches_rows [OF reads_touches [OF validateVisibilityGraph_reads, of "{}"], simplified]
  touches_rows [OF getReviewed_touches [of "{}"], simplified]
  touches_rows [OF getOwnedForUpdate_touches [of "{}"], simplified]

lemma openGroupMember_rows [rowfree]: "steps samePlugins (openGroupMember r sc p plan root t item)"
  unfolding openGroupMember_def Let_def
  by (intro rows.steps_rules rowfree touches_rows [where X = "{TGroups}"] touch.steps_modify)
    (auto simp: sameExcept_def kept_def)

interpretation silent: tx_frame "unlessAuto x samePlugins" for x
  by (rule unlessAuto_frame [OF rows.tx_frame_axioms])

interpretation guarded: tx_frame "unlessAuto x noExposure" for x
  by (rule unlessAuto_frame [OF gate.tx_frame_axioms])

lemma requestAudience_silent: "steps (unlessAuto (s_SpaceID sc) samePlugins) (requestAudience r sc p c pub)"
  unfolding requestAudience_def
proof (rule silent.steps_bind [OF unlessAuto_both], rule graph_audience, rule rowfree,
       rule silent.steps_then [OF unlessAuto_both], rule graph_audience, rule rowfree,
       rule unlessAuto_policy, goal_cases)
  case 1
  show ?case by (intro audience.steps_rules audiences)
next
  case 2
  show ?case unfolding whenT_def if_False by (intro rows.steps_rules rowfree)
qed

lemma openGroup_silent: "steps (unlessAuto (s_SpaceID sc) samePlugins) (openGroup r sc p root plan)"
  unfolding openGroup_def
proof (rule unlessAuto_policy, goal_cases)
  case 1
  show ?case by (intro audience.steps_rules audiences)
next
  case 2
  show ?case unfolding whenT_def if_False by (intro rows.steps_rules rowfree)
qed

text \<open>Widening opens a request and touches no row.\<close>

lemma ChangeVisibility_silent:
  assumes "vq_Visibility p \<noteq> PluginVisibilityPrivate"
  shows "steps (unlessAuto (s_SpaceID sc) samePlugins) (ChangeVisibility r sc p)"
proof -
  note quiet = unlessAuto_both [OF clock_audience(5) statement_rows(8)] unlessAuto_both [OF clock_audience(4) statement_rows(7)]
  have "steps (unlessAuto (s_SpaceID sc) samePlugins) (changeVisibilityDirect r sc p)"
    unfolding changeVisibilityDirect_def using assms
    by (simp only: if_False) (intro silent.steps_rules quiet requestAudience_silent)
  moreover have "steps (unlessAuto (s_SpaceID sc) samePlugins) (confirmVisibilityPlan r sc p preview)" for preview
    unfolding confirmVisibilityPlan_def using assms
    by (simp only: if_False) (intro silent.steps_rules quiet openGroup_silent)
  ultimately show ?thesis
    unfolding ChangeVisibility_def changeVisibilityPlan_def by (intro silent.steps_rules)
qed

lemma ChangeVisibility_narrows:
  assumes "vq_Visibility p = PluginVisibilityPrivate"
  shows "steps noExposure (ChangeVisibility r sc p)"
proof -
  note quiet = gates touches_gate [OF reads_touches [OF rejectPublishedIncoming_reads, of "{}"], simplified]
  have "steps noExposure (changeVisibilityDirect r sc p)"
    unfolding changeVisibilityDirect_def assms by (simp only: if_True simp_thms) (intro gate.steps_rules quiet)
  moreover have "steps noExposure (confirmVisibilityPlan r sc p preview)" for preview
    unfolding confirmVisibilityPlan_def assms by (simp only: if_True simp_thms) (intro gate.steps_rules quiet)
  ultimately show ?thesis
    unfolding ChangeVisibility_def changeVisibilityPlan_def by (intro gate.steps_rules)
qed

text \<open>C14: in a Space whose policy does not approve automatically, no audience change of an owner
  makes a row readable by the Space: widening leaves every plugin row exactly as it is (it opens
  requests), and narrowing only takes rows away.\<close>

theorem ChangeVisibility_review_gate:
  assumes "ChangeVisibility r sc p s = Inr (out, s')" and "\<not> autoApprove s (s_SpaceID sc)"
  shows "noExposure s s' \<and> (vq_Visibility p \<noteq> PluginVisibilityPrivate \<longrightarrow> plugins s' = plugins s)"
proof (cases "vq_Visibility p = PluginVisibilityPrivate")
  case True
  with stepsD [OF ChangeVisibility_narrows assms(1)] show ?thesis by simp
next
  case False
  with stepsD [OF ChangeVisibility_silent assms(1)] assms(2) show ?thesis by (simp add: unlessAuto_def noExposure_same)
qed

definition gatedStore :: Store where
  "gatedStore = planStore\<lparr>policies := [\<lparr>pol_SpaceID = ''s1'', pol_IsAutoApproveEnabled = False,
     pol_UpdatedBy = ''admin'', pol_UpdatedByName = ''Admin'', pol_CreatedAt = 0, pol_UpdatedAt = 0\<rparr>]\<rparr>"

theorem ChangeVisibility_review_gate_witness:
  "\<exists>out s'. ChangeVisibility managedRepo sampleOwner (sampleChange ''k'' ''vk'' PluginVisibilitySpace) gatedStore = Inr (out, s') \<and>
     vo_Pending out \<and> plugins s' = plugins gatedStore \<and> map rr_PluginID (reviews s') = [''k'']"
proof -
  let ?run = "ChangeVisibility managedRepo sampleOwner (sampleChange ''k'' ''vk'' PluginVisibilitySpace) gatedStore"
  have ok: "case ?run of Inl _ \<Rightarrow> False | Inr (out, t) \<Rightarrow> vo_Pending out \<and> map rr_PluginID (reviews t) = [''k'']" by code_simp
  then obtain out s' where run: "?run = Inr (out, s')" by (cases ?run) auto
  have "\<not> autoApprove gatedStore (s_SpaceID sampleOwner)" by code_simp
  with ok run ChangeVisibility_review_gate [OF run] show ?thesis by (simp add: sampleChange_def)
qed

section \<open>Termination of the audience queue\<close>

definition nodeKey :: "audienceNode \<Rightarrow> string" where
  "nodeKey n = seenKey (p_ID (an_Plugin n)) (an_Pin n)"

abbreviation edgeKeys :: "PluginRelation list \<Rightarrow> string set" where
  "edgeKeys es \<equiv> (\<lambda>e. seenKey (r_TargetPluginID e) (r_TargetVersionID e)) ` set es"

lemma sum_list_sort: "sum_list (map f (sort_key k xs)) = (sum_list (map f xs) :: nat)"
proof -
  have "sum_list (map f (insort_key k x ys)) = f x + sum_list (map f ys)" for x ys
    by (induction ys) auto
  then show ?thesis by (induction xs) auto
qed

lemma releaseHistory_length: "length (releaseHistory s pid) \<le> length (releases s) * length (allEdges s)"
proof -
  have "length (concat (map vre_Relations (concat (map (\<lambda>v. map (\<lambda>rel. \<lparr>vre_ID = v_ID v, vre_Label = rel_VersionLabel rel,
       vre_Name = manifestNameSQL (v_Manifest v), vre_Relations = v_Relations v\<rparr>)
       (filter (\<lambda>rel. rel_PluginID rel = pid \<and> rel_VersionID rel = v_ID v) rels)) vs))))
     \<le> length rels * length (concat (map v_Relations vs))" for rels :: "PluginVersionRelease list" and vs
    by (induction vs) (auto simp: length_concat comp_def sum_list_triv add_mult_distrib2 intro!: add_mono)
  from this [of "releases s" "sort_key v_ID (filter (\<lambda>v. v_PluginID v = pid) (versions s))"]
  have "length (releaseHistory s pid) \<le> length (releases s) *
      length (concat (map v_Relations (sort_key v_ID (filter (\<lambda>v. v_PluginID v = pid) (versions s)))))"
    by (simp add: releaseHistory_def releasedEdges_def)
  also have "\<dots> \<le> length (releases s) * length (allEdges s)"
  proof (rule mult_le_mono2)
    have "length (concat (map v_Relations (sort_key v_ID vs))) = length (concat (map v_Relations vs))" for vs
      by (simp add: length_concat comp_def sum_list_sort)
    moreover have "length (concat (map v_Relations (filter P vs))) \<le> length (concat (map v_Relations vs))" for P vs
      by (induction vs) auto
    ultimately show "length (concat (map v_Relations (sort_key v_ID (filter (\<lambda>v. v_PluginID v = pid) (versions s)))))
        \<le> length (allEdges s)" unfolding allEdges_def length_append by (metis trans_le_add1)
  qed
  finally show ?thesis .
qed

lemma versionRow_edges: "versionRow s pid vid = Some v \<Longrightarrow> set (v_Relations v) \<subseteq> set (allEdges s)"
  by (auto simp: versionRow_def allEdges_def dest: find_Some_mem)

lemma versionRow_edges_length:
  assumes "versionRow s pid vid = Some v"
  shows "length (v_Relations v) \<le> length (allEdges s)"
proof -
  have "v \<in> set (versions s)" using assms by (auto simp: versionRow_def dest: find_Some_mem)
  then have "length (v_Relations v) \<le> length (concat (map v_Relations (versions s)))"
    by (auto simp: length_concat intro!: member_le_sum_list)
  then show ?thesis by (simp add: allEdges_def)
qed

lemma liveEdgeRefs_length: "length (liveEdgeRefs s pid) \<le> length (allEdges s)"
  unfolding liveEdgeRefs_def allEdges_def by (simp add: trans_le_add2)

lemma ownedRelations_length:
  "length (visibilityOwnedRelations s pid pin b) \<le> (length (releases s) + 2) * length (allEdges s)"
proof -
  note len = releaseHistory_length [of s pid] liveEdgeRefs_length [of s pid] versionRow_edges_length
  show ?thesis
    unfolding visibilityOwnedRelations_def
    by (auto split: option.split dest!: len(3)) (use len(1,2) in linarith)+
qed

lemma ownedRelations_keys: "edgeKeys (visibilityOwnedRelations s pid pin b) \<subseteq> edgeKeys (allEdges s)"
proof -
  have live: "edgeKeys (liveEdgeRefs s pid) \<subseteq> edgeKeys (allEdges s)"
    by (auto simp: liveEdgeRefs_def allEdges_def)
  have "set (releaseHistory s pid) \<subseteq> set (allEdges s)"
    by (auto simp: releaseHistory_def releasedEdges_def allEdges_def)
  then have past: "edgeKeys (releaseHistory s pid) \<subseteq> edgeKeys (allEdges s)" by blast
  have row: "versionRow s pid vid = Some v \<Longrightarrow> edgeKeys (v_Relations v) \<subseteq> edgeKeys (allEdges s)" for vid v
    using versionRow_edges by blast
  show ?thesis
    unfolding visibilityOwnedRelations_def using live past
    by (auto split: option.split simp del: image_subset_iff dest!: row simp: image_Un)
qed

text \<open>An edge adds at most its own target to the queue.\<close>

lemma syncEdge_Inr:
  assumes "syncEdge root target t ty e queue s = Inr (q', s')"
  shows "\<exists>ns. q' = queue @ ns \<and> length ns \<le> 1 \<and> nodeKey ` set ns \<subseteq> edgeKeys [e]"
  using assms unfolding syncEdge_def
  by (auto simp: tx_simps nodeKey_def ownedRow_def split: option.splits if_splits dest!: find_Some_mem)

lemma syncFold_Inr:
  "foldT (syncEdge root target t ty) es queue s = Inr (q', s') \<Longrightarrow>
     \<exists>ns. q' = queue @ ns \<and> length ns \<le> length es \<and> nodeKey ` set ns \<subseteq> edgeKeys es"
proof (induction es arbitrary: queue s)
  case Nil
  then show ?case by (simp add: tx_simps)
next
  case (Cons e es)
  from Cons.prems obtain q1 s1 where one: "syncEdge root target t ty e queue s = Inr (q1, s1)"
    and rest: "foldT (syncEdge root target t ty) es q1 s1 = Inr (q', s')" by (auto simp: tx_simps)
  from syncEdge_Inr [OF one] obtain ns where ns: "q1 = queue @ ns" "length ns \<le> 1" "nodeKey ` set ns \<subseteq> edgeKeys [e]"
    by blast
  from Cons.IH [OF rest] obtain ms where ms: "q' = q1 @ ms" "length ms \<le> length es" "nodeKey ` set ms \<subseteq> edgeKeys es"
    by blast
  show ?case by (rule exI [of _ "ns @ ms"]) (use ns ms in auto)
qed

lemma syncFold_raises: "raises {} (foldT (syncEdge root target t ty) es queue)"
  unfolding syncEdge_def by (intro errors)

lemma syncFold_touches: "steps (sameExcept {TPlugins}) (foldT (syncEdge root target t ty) es queue)"
  unfolding syncEdge_def by (intro touch.steps_rules touches) simp

lemma syncLoop_fuel:
  assumes "finite K" "edgeKeys (allEdges s) \<subseteq> K" "nodeKey ` set queue \<subseteq> K"
    and "card (K - set seen) * ((length (releases s) + 2) * length (allEdges s)) + length queue < k"
  shows "syncLoop k root target t queue seen s \<noteq> Inl OutOfFuel"
  using assms(2-)
proof (induction k arbitrary: queue seen s)
  case 0
  then show ?case by simp
next
  case (Suc k)
  let ?B = "(length (releases s) + 2) * length (allEdges s)"
  show ?case
  proof (cases queue)
    case Nil
    then show ?thesis by (simp add: returnT_def)
  next
    case (Cons n rest)
    have fewer: "card (K - set (seen @ [nodeKey n])) * ?B + ?B \<le> card (K - set seen) * ?B" if "nodeKey n \<notin> set seen"
    proof -
      have "K - set seen = insert (nodeKey n) (K - set (seen @ [nodeKey n]))" using that Suc.prems(2) Cons by auto
      then have "card (K - set seen) = Suc (card (K - set (seen @ [nodeKey n])))"
        using assms(1) by (metis Diff_iff UnCI card_insert_disjoint finite_Diff list.set_intros(1) set_append)
      then show ?thesis by simp
    qed
    have same: "syncLoop k root target t rest seen s \<noteq> Inl OutOfFuel"
      by (rule Suc.IH) (use Suc.prems Cons in auto)
    have leaf: "syncLoop k root target t rest (seen @ [nodeKey n]) s \<noteq> Inl OutOfFuel" if "nodeKey n \<notin> set seen"
      by (rule Suc.IH) (use Suc.prems Cons fewer [OF that] in auto)
    have deep: "syncLoop k root target t q' (seen @ [nodeKey n]) s' \<noteq> Inl OutOfFuel"
      if new: "nodeKey n \<notin> set seen"
        and run: "foldT (syncEdge root target t ty) (visibilityOwnedRelations s i pin b) rest s = Inr (q', s')" for q' s' ty i pin b
    proof -
      have edges: "allEdges s' = allEdges s" "releases s' = releases s"
        using sameExcept_tables [OF stepsD [OF syncFold_touches run]] by (simp_all add: allEdges_def)
      from syncFold_Inr [OF run] obtain ns where ns: "q' = rest @ ns"
        "length ns \<le> length (visibilityOwnedRelations s i pin b)"
        "nodeKey ` set ns \<subseteq> edgeKeys (visibilityOwnedRelations s i pin b)" by blast
      have "length ns \<le> ?B" using ns(2) ownedRelations_length [of s i pin b] by linarith
      moreover have "nodeKey ` set ns \<subseteq> K" using ns(3) ownedRelations_keys [of s i pin b] Suc.prems(1) by blast
      ultimately show ?thesis
        by (intro Suc.IH) (use Suc.prems Cons fewer [OF new] ns(1) in \<open>auto simp: edges\<close>)
    qed
    show ?thesis
      using same leaf deep raisesD [OF syncFold_raises]
      by (auto simp: Cons Let_def nodeKey_def [symmetric] bindT_Inl queryT_def)
  qed
qed

text \<open>The propagation of an audience to the embedded children ends, on every graph: an edge
  cycle among containers or among version pins does not keep it running.\<close>

theorem syncVisibilityEmbeddedAudience_total:
  "syncVisibilityEmbeddedAudience root target t s \<noteq> Inl OutOfFuel"
proof -
  let ?root = "\<lparr>an_Plugin = root, an_Pin = None\<rparr>"
  let ?K = "insert (nodeKey ?root) (edgeKeys (allEdges s))"
  let ?B = "(length (releases s) + 2) * length (allEdges s)"
  have "card (edgeKeys (allEdges s)) \<le> length (allEdges s)"
    using card_image_le [of "set (allEdges s)"] card_length [of "allEdges s"] by (meson finite_set le_trans)
  then have "card ?K \<le> length (allEdges s) + 1" by (simp add: card_insert_if)
  then have "card ?K * ?B \<le> (length (allEdges s) + 1) * ?B" by (rule mult_le_mono1)
  also have "\<dots> \<le> (length (allEdges s) + 1) * (?B + 1)" by (rule mult_le_mono2) simp
  finally have "card (?K - set []) * ?B + length [?root] < syncFuel s" by (simp add: syncFuel_def)
  then have "syncLoop (syncFuel s) root target t [?root] [] s \<noteq> Inl OutOfFuel"
    by (intro syncLoop_fuel [where K = ?K]) auto
  then show ?thesis
    by (simp add: syncVisibilityEmbeddedAudience_def tx_simps bindT_def queryT_def throwT_def)
qed

end
