(* ===== verification/Approval.thy ===== *)
theory Approval
  imports Visibility
begin

text \<open>
  Approving a review request (\<open>ApproveReview\<close> of \<open>review.go\<close>, \<open>version_review.go\<close>,
  \<open>approveVisibilityReview\<close> of \<open>visibility.go\<close>): the frozen content replaces the live row in the
  first listing of an unmanaged plugin and in its upgrades, becomes a release without touching
  the draft of a managed one, and an audience request changes the audience alone. The request is
  settled, a card's receipt is claimed, and an audit row is written in the same transaction.

  The columns the Go code scans one by one are the locked request \<open>q\<close>. The unique index on the
  name columns is not modelled: each statement that writes them runs \<open>rejectPluginNameCollision\<close>
  first.
\<close>

record ApproveReviewParams =
  ap_CardReceipt :: "CardActionReceipt option"
  ap_ReviewID :: string
  ap_ReviewerUID :: string
  ap_ReviewerName :: string
  ap_DecisionSource :: "ReviewDecisionSource option"
  ap_RequestID :: string
  ap_Now :: time

definition reviewer :: "ApproveReviewParams \<Rightarrow> string option \<Rightarrow> Operator" where
  "reviewer p remark = \<lparr>o_OperatorID = ap_ReviewerUID p, o_OperatorName = ap_ReviewerName p,
     o_RequestID = ap_RequestID p, o_Remark = remark\<rparr>"

text \<open>\<open>now := p.Now\<close>, or the clock when it is zero.\<close>

definition decidedAt :: "Repo \<Rightarrow> ApproveReviewParams \<Rightarrow> time stx" where
  "decidedAt r p = (if ap_Now p = 0 then now r else returnT (ap_Now p))"

definition frozenPlugin :: "Plugin \<Rightarrow> PluginReviewRequest \<Rightarrow> Plugin" where
  "frozenPlugin current q = current\<lparr>p_Name := fst (manifestNameAndTags (rr_Manifest q)),
     p_Tags := snd (manifestNameAndTags (rr_Manifest q)), p_Manifest := rr_Manifest q, p_Package := rr_Package q,
     p_AttachmentKeys := rr_AttachmentKeys q, p_ManifestHash := rr_ManifestHash q, p_PluginHash := rr_PluginHash q,
     p_CurrentVersion := Some (rr_Version q)\<rparr>"

section \<open>Audience requests\<close>

definition approveVisibilityReview :: "Repo \<Rightarrow> Scope \<Rightarrow> ApproveReviewParams \<Rightarrow> Plugin \<Rightarrow> Plugin stx" where
  "approveVisibilityReview r sc p current =
     bindT (queryT (\<lambda>s. case visibilityGroup s (ap_ReviewID p) of None \<Rightarrow> '''' | Some (root, _) \<Rightarrow> root)) (\<lambda>root.
     if root \<noteq> '''' then
       thenT (applyVisibilityGroup r sc (ap_ReviewID p) (reviewer p None) (decisionSource (ap_DecisionSource p)))
         (returnT (current\<lparr>p_Visibility := PluginVisibilitySpace\<rparr>))
     else
       bindT (queryT (\<lambda>s. find (\<lambda>x. vr_ReviewID x = ap_ReviewID p) (visReviews s))) (\<lambda>row.
       bindT (someT ErrSnapshotMissing row) (\<lambda>v.
       thenT (refuseT (p_ListingState current \<noteq> PluginListingStatePublished \<or>
                       p_Visibility current \<noteq> vr_SourceVisibility v \<or>
                       p_PublishedVersionID current \<noteq> Some (vr_PublishedVersionID v) \<or>
                       vr_SourceVisibility v \<noteq> PluginVisibilityPrivate \<or>
                       vr_TargetVisibility v \<noteq> PluginVisibilitySpace) ErrConflict)
      (bindT (loadVisibilityRelease current (vr_PublishedVersionID v)) (\<lambda>f.
       thenT (validateVisibilityGraph r (f\<lparr>vl_Plugin := (vl_Plugin f)\<lparr>p_Visibility := vr_TargetVisibility v\<rparr>\<rparr>))
      (bindT (decidedAt r p) (\<lambda>t.
       thenT (applyAudience r sc current (vr_TargetVisibility v) (reviewer p None) ''visibility_approve'' t)
      (thenT (settleVisibilityReview (ap_ReviewID p) (ap_ReviewerUID p) (ap_ReviewerName p)
                (decisionSource (ap_DecisionSource p)) t)
         (returnT (current\<lparr>p_Visibility := vr_TargetVisibility v\<rparr>))))))))))"

section \<open>Managed releases\<close>

definition keepDraft :: "Plugin \<Rightarrow> time \<Rightarrow> Plugin \<Rightarrow> Plugin" where
  "keepDraft current t q = q\<lparr>p_CurrentVersionID := p_CurrentVersionID current, p_CurrentVersion := p_CurrentVersion current,
     p_ListingState := PluginListingStatePublished, p_UpdatedAt := t\<rparr>"

definition finishManagedReview ::
  "Repo \<Rightarrow> Scope \<Rightarrow> ApproveReviewParams \<Rightarrow> Plugin \<Rightarrow> PluginReviewRequest \<Rightarrow> string \<Rightarrow> time \<Rightarrow> Plugin stx" where
  "finishManagedReview r sc p current q versionID t =
     bindT (updatePlugins (\<lambda>x. p_ID x = p_ID current \<and> p_SpaceID x = Some (s_SpaceID sc) \<and> p_DeletedAt x = None)
              (keepDraft current t)) (\<lambda>_.
     thenT (ensureVisibleDefaultPlacement r t (p_ID current) (p_CategoryID current))
    (thenT (whenT (p_ListingState current \<noteq> PluginListingStatePublished)
              (promoteFrozenEmbeddedChildren (p_ID current) (p_Type current) (rr_Relations q) (s_SpaceID sc)
                 (p_Visibility current) t))
    (thenT (settleVisibilityReview (ap_ReviewID p) (ap_ReviewerUID p) (ap_ReviewerName p)
              (decisionSource (ap_DecisionSource p)) t)
    (bindT (newID r) (\<lambda>auditID.
     thenT (insertAudit auditID t (frozenPlugin current q) ''review_approve'' (reviewer p None)
              (p_PluginHash current) (rr_PluginHash q))
       (returnT ((frozenPlugin current q)\<lparr>p_CurrentVersionID := Some versionID,
          p_ListingState := PluginListingStatePublished\<rparr>)))))))"

definition approveManagedReviewInTx ::
  "Repo \<Rightarrow> Scope \<Rightarrow> ApproveReviewParams \<Rightarrow> Plugin \<Rightarrow> PluginReviewRequest \<Rightarrow> Plugin stx" where
  "approveManagedReviewInTx r sc p current q =
     thenT (refuseT (p_Visibility current \<noteq> PluginVisibilitySpace) ErrConflict)
    (bindT (queryT (\<lambda>s. liveRelationTargetSet s (p_ID current))) (\<lambda>live.
     thenT (lockReferences r \<lparr>s_CallerUID = p_OwnerUID current, s_SpaceID = s_SpaceID sc, s_Admin = False\<rparr>
              current (rr_Relations q) live)
    (bindT (decidedAt r p) (\<lambda>t.
     thenT (approveConnectorRevisions r (p_ID current) (ap_ReviewID p))
    (bindT (snapshotVersion r t (frozenPlugin current q) (rr_Relations q) (rr_Changelog q) (ap_ReviewerUID p) (references r)) (\<lambda>versionID.
     thenT (recordRelease r (frozenPlugin current q) versionID (rr_Version q) (ap_ReviewerUID p) t)
       (finishManagedReview r sc p current q versionID t)))))))"

section \<open>Unmanaged plugins\<close>

text \<open>The label rules are run again on the locked row.\<close>

definition checkLabel :: "Plugin \<Rightarrow> PluginReviewRequest \<Rightarrow> unit stx" where
  "checkLabel current q =
     thenT (refuseT (case p_CurrentVersion current of None \<Rightarrow> False | Some v \<Rightarrow> \<not> VersionNotRegressed v (rr_Version q))
              ErrVersionRegressed)
    (bindT (queryT (\<lambda>s. publishedVersionLabels s (rr_PluginID q) current)) (\<lambda>published.
       refuseT (rr_Version q \<in> set published) ErrLabelTaken))"

text \<open>The frozen edges, reconciled with the live ones and locked under the owner's scope.\<close>

definition lockFrozen :: "Scope \<Rightarrow> Plugin \<Rightarrow> PluginReviewRequest \<Rightarrow> PluginRelation list stx" where
  "lockFrozen sc current q =
     bindT (queryT (\<lambda>s. (liveRelationTargetSet s (rr_PluginID q), reconcileFrozenRelations s (rr_PluginID q) (rr_Relations q))))
       (\<lambda>(live, frozen).
     thenT (lockRelationTargets \<lparr>s_CallerUID = p_OwnerUID current, s_SpaceID = s_SpaceID sc, s_Admin = False\<rparr>
              (current\<lparr>p_Visibility := PluginVisibilitySpace\<rparr>) frozen live)
       (returnT frozen))"

definition stampFrozen :: "PluginReviewRequest \<Rightarrow> string option \<Rightarrow> string \<Rightarrow> time \<Rightarrow> Plugin \<Rightarrow> Plugin" where
  "stampFrozen q nameKey nameScope t p =
     p\<lparr>p_Name := fst (manifestNameAndTags (rr_Manifest q)), p_Tags := snd (manifestNameAndTags (rr_Manifest q)),
       p_Manifest := rr_Manifest q, p_Package := rr_Package q, p_AttachmentKeys := rr_AttachmentKeys q,
       p_ManifestHash := rr_ManifestHash q, p_PluginHash := rr_PluginHash q, p_UpdatedAt := t,
       p_NameKey := nameKey, p_NameScope := nameScope\<rparr>"

definition applyFrozen :: "Repo \<Rightarrow> Scope \<Rightarrow> Plugin \<Rightarrow> PluginReviewRequest \<Rightarrow> time \<Rightarrow> unit stx" where
  "applyFrozen r sc current q t =
     (let row = (\<lambda>x. p_ID x = rr_PluginID q \<and> p_SpaceID x = Some (s_SpaceID sc) \<and> p_DeletedAt x = None);
          listed = (\<lambda>x. p_Visibility x = PluginVisibilitySpace \<and> p_ListingState x = PluginListingStatePublished) in
      bindT (liftT (pluginNameColumns r (fst (manifestNameAndTags (rr_Manifest q))) (p_Type current) (p_SpaceID current)))
        (\<lambda>(nameKey, nameScope).
      thenT (case nameKey of
               None \<Rightarrow> returnT ()
             | Some k \<Rightarrow> whenT (\<not> p_IsEmbedded current) (rejectPluginNameCollision r current k nameScope))
        (if \<not> listed current then
           bindT (updatePlugins (\<lambda>x. row x \<and> \<not> listed x)
             (\<lambda>x. (stampFrozen q nameKey nameScope t x)\<lparr>p_Visibility := PluginVisibilitySpace,
                     p_ListingState := PluginListingStatePublished\<rparr>)) mustChangeState
         else bindT (updatePlugins row (stampFrozen q nameKey nameScope t)) (\<lambda>_. returnT ()))))"

definition settleApproval :: "ApproveReviewParams \<Rightarrow> time \<Rightarrow> unit stx" where
  "settleApproval p t =
     bindT (updateReviews (\<lambda>x. rr_ID x = ap_ReviewID p)
              (markSettled (ap_ReviewerUID p) (ap_ReviewerName p) (decisionSource (ap_DecisionSource p)) t)) mustAffect"

definition nonEmptyText :: "string option \<Rightarrow> string option" where
  "nonEmptyText x = (if x = Some '''' then None else x)"

definition approveUnmanaged :: "Repo \<Rightarrow> Scope \<Rightarrow> ApproveReviewParams \<Rightarrow> Plugin \<Rightarrow> PluginReviewRequest \<Rightarrow> Plugin stx" where
  "approveUnmanaged r sc p current q =
     thenT (checkLabel current q)
    (bindT (decidedAt r p) (\<lambda>t.
     bindT (lockFrozen sc current q) (\<lambda>frozen.
     thenT (applyFrozen r sc current q t)
    (thenT (ensureVisibleDefaultPlacement r t (rr_PluginID q) (p_CategoryID current))
    (bindT (syncRelations r t (rr_PluginID q) (p_OwnerUID current) frozen False) (\<lambda>sync.
     thenT (whenT (\<not> (p_Visibility current = PluginVisibilitySpace \<and> p_ListingState current = PluginListingStatePublished))
              (promoteEmbeddedChildren (rr_PluginID q) (p_Type current) (s_SpaceID sc) (p_Visibility current) t))
    (bindT (snapshotVersion r t (frozenPlugin current q) (sy_Relations sync) (nonEmptyText (rr_Changelog q)) (ap_ReviewerUID p) (references r)) (\<lambda>_.
     thenT (settleApproval p t)
    (bindT (newID r) (\<lambda>auditID.
     thenT (insertAudit auditID t (frozenPlugin current q) ''review_approve''
              (reviewer p (Some (''decision_source='' @ sourceText (decisionSource (ap_DecisionSource p)))))
              (p_PluginHash current) (rr_PluginHash q))
       (getReviewedPluginForUpdate (s_SpaceID sc) (rr_PluginID q))))))))))))"

definition ApproveReview :: "Repo \<Rightarrow> Scope \<Rightarrow> ApproveReviewParams \<Rightarrow> Plugin stx" where
  "ApproveReview r sc p =
     bindT (now r) (\<lambda>claimedAt.
     thenT (claimCardActionReceipt (ap_CardReceipt p) (ap_ReviewID p) ''approve'' (ap_DecisionSource p) claimedAt)
    (bindT (lockRequest (ap_ReviewID p) (s_SpaceID sc)) (\<lambda>q.
     bindT (getReviewedPluginForUpdate (s_SpaceID sc) (rr_PluginID q)) (\<lambda>current.
     if rr_Kind q = ReviewKindVisibility then
       thenT (refuseT (\<not> versionManagement r) ErrConflict) (approveVisibilityReview r sc p current)
     else if versionManagement r \<and> versioned current then approveManagedReviewInTx r sc p current q
     else approveUnmanaged r sc p current q))))"

section \<open>What an approval leaves alone\<close>

lemma claimReceipt_keeps [keeps]: "steps (keepsCol f) (claimCardActionReceipt c i d src t)"
  by (rule touches_keeps [OF claimReceipt_touches [of "{TReceipts}"]]) simp_all

lemma decidedAt_touches [touches]: "steps (sameExcept X) (decidedAt r p)"
  unfolding decidedAt_def by (intro touch.steps_rules touches)

lemmas statement_keeps [keeps] =
  touches_keeps [OF now_touches [of "{}"], simplified] touches_keeps [OF newID_touches [of "{}"], simplified]
  touches_keeps [OF decidedAt_touches [of "{}"], simplified] touches_keeps [OF getReviewed_touches [of "{}"], simplified]
  touches_keeps [OF ensurePlacement_touches [of "{TPlacements}"], simplified]
  touches_keeps [OF insertAudit_touches [of "{TAudits}"], simplified]
  touches_keeps [OF settle_touches [of "{TReviews}"], simplified]
  touches_keeps [OF approveConnectorRevisions_touches [of "{TBaselines}"], simplified]
  touches_keeps [OF reads_touches [OF lockRequest_reads, of "{}"], simplified]
  touches_keeps [OF reads_touches [OF lockReferences_reads, of "{}"], simplified]
  touches_keeps [OF reads_touches [OF validateReleaseReferences_reads, of "{}"], simplified]
  touches_keeps [OF rejectPluginNameCollision_touches [of "{}"], simplified]

lemma snapshotVersion_keeps [keeps]:
  assumes "\<And>q i l t. f (q\<lparr>p_CurrentVersionID := i, p_CurrentVersion := l, p_UpdatedAt := t\<rparr>) = f q"
    and "\<And>q l t. f (q\<lparr>p_CurrentVersion := l, p_UpdatedAt := t\<rparr>) = f q"
  shows "steps (keepsCol f) (snapshotVersion r t p rels cl who idx)"
  unfolding snapshotVersion_def
  by (intro column.steps_rules keeps assms column.steps_modify touches_keeps [OF writeReferenceIndex_touches [of "{TRefEdges, TRefIndex}"]])
    (auto simp: keepsCol_def)

lemma recordRelease_keeps [keeps]:
  assumes "\<And>q v k n. f (stampRelease v k n q) = f q"
    and "\<And>q a t. f (q\<lparr>p_Visibility := a, p_ListingState := PluginListingStatePublished, p_UpdatedAt := t\<rparr>) = f q"
  shows "steps (keepsCol f) (recordRelease r p v l a t)"
  unfolding recordRelease_def
  by (intro column.steps_rules keeps assms touches_keeps [OF insertRelease_touches [of "{TReleases}"]]
      touches_keeps [OF RefreshConnectorBaselines_touches [of "{TBaselines}"]]) simp_all

text \<open>The columns of a draft that no release writes.\<close>

definition draftOf :: "Plugin \<Rightarrow> Plugin" where
  "draftOf p = p\<lparr>p_Visibility := PluginVisibilityPrivate, p_ListingState := PluginListingStateDraft, p_UpdatedAt := 0,
     p_CurrentVersionID := None, p_CurrentVersion := None, p_PublishedVersionID := None, p_PublishedNameKey := None,
     p_NameScope := ''''\<rparr>"

lemma approveManaged_keeps: "steps (keepsCol draftOf) (approveManagedReviewInTx r sc p current q)"
  unfolding approveManagedReviewInTx_def finishManagedReview_def
  by (intro column.steps_rules keeps) (simp_all add: draftOf_def keepDraft_def stampRelease_def)

lemma approveManaged_touches [touches]:
  "steps (sameExcept {TPlugins, TVersions, TRefEdges, TRefIndex, TReleases, TBaselines, TSuspensions, TPlacements, TReviews, TAudits})
     (approveManagedReviewInTx r sc p current q)"
  unfolding approveManagedReviewInTx_def finishManagedReview_def
  by (intro touch.steps_rules touches reads_touches [OF lockReferences_reads]) auto

section \<open>A managed approval releases what was frozen\<close>

lemma approveManaged_run:
  assumes "approveManagedReviewInTx r sc p current q s = Inr (out, s')"
  obtains t s1 vid s2 s3 where "p_Visibility current = PluginVisibilitySpace" and "sameExcept {TBaselines} s s1"
    and "snapshotVersion r t (frozenPlugin current q) (rr_Relations q) (rr_Changelog q) (ap_ReviewerUID p) (references r) s1 = Inr (vid, s2)"
    and "recordRelease r (frozenPlugin current q) vid (rr_Version q) (ap_ReviewerUID p) t s2 = Inr ((), s3)"
    and "finishManagedReview r sc p current q vid t s3 = Inr (out, s')"
proof -
  from assms obtain t a b vid s2 s3 where vis: "p_Visibility current = PluginVisibilitySpace"
    and at: "decidedAt r p s = Inr (t, a)" and con: "approveConnectorRevisions r (p_ID current) (ap_ReviewID p) a = Inr ((), b)"
    and snap: "snapshotVersion r t (frozenPlugin current q) (rr_Relations q) (rr_Changelog q) (ap_ReviewerUID p) (references r) b = Inr (vid, s2)"
    and rest: "recordRelease r (frozenPlugin current q) vid (rr_Version q) (ap_ReviewerUID p) t s2 = Inr ((), s3)"
      "finishManagedReview r sc p current q vid t s3 = Inr (out, s')"
    unfolding approveManagedReviewInTx_def
    by (auto simp: bindT_Inr thenT_Inr refuseT_Inr queryT_Inr dest!: readsD [OF lockReferences_reads])
  have "sameExcept {TBaselines} s b"
    by (rule touch.frame_trans [OF stepsD [OF decidedAt_touches at] stepsD [OF approveConnectorRevisions_touches con]]) simp
  from that [OF vis this snap rest] show thesis .
qed

lemma versioned_frozen [simp]: "versioned (frozenPlugin current q) = versioned current"
  by (simp add: frozenPlugin_def versioned_def)

lemma frozenPlugin_fields [simp]:
  "p_ID (frozenPlugin c q) = p_ID c" "p_Manifest (frozenPlugin c q) = rr_Manifest q" "p_Package (frozenPlugin c q) = rr_Package q"
  "p_AttachmentKeys (frozenPlugin c q) = rr_AttachmentKeys q" "p_ManifestHash (frozenPlugin c q) = rr_ManifestHash q"
  "p_PluginHash (frozenPlugin c q) = rr_PluginHash q" "p_CurrentVersion (frozenPlugin c q) = Some (rr_Version q)"
  by (simp_all add: frozenPlugin_def)

text \<open>What holds of all rows and depends on kept columns only, still holds.\<close>

lemma keepsCol_all:
  assumes "keepsCol f s t" and "\<forall>x \<in> set (plugins s). P x" and "\<And>x y. f x = f y \<Longrightarrow> P x \<Longrightarrow> P y"
  shows "\<forall>x \<in> set (plugins t). P x"
  using assms(2,3) keepsCol_row [OF assms(1)] by metis

text \<open>A version row holds what a request froze.\<close>

definition freezes :: "PluginReviewRequest \<Rightarrow> PluginVersion \<Rightarrow> bool" where
  "freezes q v \<longleftrightarrow> v_PluginID v = rr_PluginID q \<and> v_Manifest v = rr_Manifest q \<and> v_Package v = rr_Package q \<and>
     v_AttachmentKeys v = rr_AttachmentKeys q \<and> v_ManifestHash v = rr_ManifestHash q \<and> v_PluginHash v = rr_PluginHash q"

definition pointerOf :: "Plugin \<Rightarrow> string \<times> string option \<times> nat option \<times> string option \<times> string option" where
  "pointerOf p = (p_ID p, p_SpaceID p, p_DeletedAt p, p_CurrentVersionID p, p_CurrentVersion p)"

lemma finishManaged_run:
  assumes run: "finishManagedReview r sc p current q vid t s = Inr (out, s')"
  shows "keepsCol (\<lambda>x. (p_ID x, p_PublishedVersionID x, p_DeletedAt x)) s s'"
    and "versions s' = versions s" and "releases s' = releases s" and "relations s' = relations s"
    and "\<forall>x \<in> set (plugins s'). p_ID x = p_ID current \<and> p_SpaceID x = Some (s_SpaceID sc) \<and> p_DeletedAt x = None \<longrightarrow>
      p_CurrentVersionID x = p_CurrentVersionID current \<and> p_CurrentVersion x = p_CurrentVersion current"
proof -
  have "steps (keepsCol (\<lambda>x. (p_ID x, p_PublishedVersionID x, p_DeletedAt x))) (finishManagedReview r sc p current q vid t)"
    unfolding finishManagedReview_def by (intro column.steps_rules keeps) (simp_all add: keepDraft_def)
  from stepsD [OF this run] show "keepsCol (\<lambda>x. (p_ID x, p_PublishedVersionID x, p_DeletedAt x)) s s'" .
  have "steps (sameExcept {TPlugins, TPlacements, TReviews, TAudits}) (finishManagedReview r sc p current q vid t)"
    unfolding finishManagedReview_def by (intro touch.steps_rules touches) simp_all
  from stepsD [OF this run] show "versions s' = versions s" "releases s' = releases s" "relations s' = relations s"
    by (auto dest: sameExcept_tables)
  let ?row = "\<lambda>x. p_ID x = p_ID current \<and> p_SpaceID x = Some (s_SpaceID sc) \<and> p_DeletedAt x = None"
  let ?s1 = "s\<lparr>plugins := updateWhere ?row (keepDraft current t) (plugins s)\<rparr>"
  have "\<exists>rest. finishManagedReview r sc p current q vid t = bindT (updatePlugins ?row (keepDraft current t)) (\<lambda>_. rest) \<and>
      steps (keepsCol pointerOf) rest"
    unfolding finishManagedReview_def
    by (rule exI, rule conjI, rule refl, intro column.steps_rules keeps) (simp_all add: pointerOf_def)
  then obtain rest where split: "finishManagedReview r sc p current q vid t = bindT (updatePlugins ?row (keepDraft current t)) (\<lambda>_. rest)"
    and keep: "steps (keepsCol pointerOf) rest" by blast
  have "keepsCol pointerOf ?s1 s'" by (rule stepsD [OF keep]) (use run split in \<open>simp add: bindT_Inr updatePlugins_def\<close>)
  moreover have "\<forall>x \<in> set (plugins ?s1). ?row x \<longrightarrow> p_CurrentVersionID x = p_CurrentVersionID current \<and> p_CurrentVersion x = p_CurrentVersion current"
    by (auto simp: keepDraft_def elim!: updateWhere_memE)
  ultimately show "\<forall>x \<in> set (plugins s'). ?row x \<longrightarrow> p_CurrentVersionID x = p_CurrentVersionID current \<and> p_CurrentVersion x = p_CurrentVersion current"
    by (rule keepsCol_all) (auto simp: pointerOf_def)
qed

text \<open>What the transaction has read when it dispatches on the request.\<close>

lemma ApproveReview_run:
  assumes "ApproveReview r sc p s = Inr (out, s')"
  obtains s1 q current where "sameExcept {TReceipts} s s1"
    and "claimCardActionReceipt (ap_CardReceipt p) (ap_ReviewID p) ''approve'' (ap_DecisionSource p)
       (nowAt r (tickCount s)) (s\<lparr>tickCount := Suc (tickCount s)\<rparr>) = Inr ((), s1)"
    and "find (openRequest (ap_ReviewID p) (s_SpaceID sc)) (reviews s) = Some q"
    and "find (reviewedRow (s_SpaceID sc) (rr_PluginID q)) (plugins s) = Some current"
    and "(if rr_Kind q = ReviewKindVisibility then
       thenT (refuseT (\<not> versionManagement r) ErrConflict) (approveVisibilityReview r sc p current)
     else if versionManagement r \<and> versioned current then approveManagedReviewInTx r sc p current q
     else approveUnmanaged r sc p current q) s1 = Inr (out, s')"
proof -
  from assms obtain s1 q current where claim: "claimCardActionReceipt (ap_CardReceipt p) (ap_ReviewID p) ''approve''
        (ap_DecisionSource p) (nowAt r (tickCount s)) (s\<lparr>tickCount := Suc (tickCount s)\<rparr>) = Inr ((), s1)"
    and q: "find (openRequest (ap_ReviewID p) (s_SpaceID sc)) (reviews s1) = Some q"
    and cur: "find (reviewedRow (s_SpaceID sc) (rr_PluginID q)) (plugins s1) = Some current"
    and rest: "(if rr_Kind q = ReviewKindVisibility then
       thenT (refuseT (\<not> versionManagement r) ErrConflict) (approveVisibilityReview r sc p current)
     else if versionManagement r \<and> versioned current then approveManagedReviewInTx r sc p current q
     else approveUnmanaged r sc p current q) s1 = Inr (out, s')"
    unfolding ApproveReview_def
    by (auto simp only: bindT_Inr thenT_Inr now_Inr lockRequest_Inr getReviewed_Inr)
  have same: "sameExcept {TReceipts} s s1"
    using stepsD [OF claimReceipt_touches [of "{TReceipts}"] claim] by (auto simp: sameExcept_def kept_def)
  then have "reviews s1 = reviews s" "plugins s1 = plugins s" by (auto dest: sameExcept_tables)
  with that [OF same claim _ _ rest] q cur show thesis by simp
qed

text \<open>C15: approving a content request of a managed plugin releases exactly what the request froze
  and leaves the author's draft alone. One version row is appended with the frozen documents,
  files, hashes and edges; it is released under the requested label and becomes the published
  version; content, name and edges of every row, and the version the draft points at, stay as the
  author last saved them. Only a plugin of the Space audience can be released this way.\<close>

theorem ApproveReview_managed_releases:
  assumes run: "ApproveReview r sc p s = Inr (out, s')" and "versionManagement r" and ids: "\<And>n. idAt r n \<noteq> ''''"
    and q: "find (openRequest (ap_ReviewID p) (s_SpaceID sc)) (reviews s) = Some q" and "rr_Kind q \<noteq> ReviewKindVisibility"
    and cur: "find (reviewedRow (s_SpaceID sc) (rr_PluginID q)) (plugins s) = Some current" and ver: "versioned current"
  shows "\<exists>v. versions s' = versions s @ [v] \<and> freezes q v \<and> v_Relations v = EncodeSnapshotRelations (rr_Relations q) \<and>
    releaseRow s' (rr_PluginID q) (v_ID v) (rr_Version q) \<and>
    (\<forall>x \<in> set (plugins s'). p_ID x = rr_PluginID q \<and> p_DeletedAt x = None \<longrightarrow> p_PublishedVersionID x = Some (v_ID v)) \<and>
    map draftOf (plugins s') = map draftOf (plugins s) \<and> relations s' = relations s \<and>
    (\<forall>x \<in> set (plugins s'). reviewedRow (s_SpaceID sc) (rr_PluginID q) x \<longrightarrow>
       p_CurrentVersionID x = p_CurrentVersionID current \<and> p_CurrentVersion x = p_CurrentVersion current) \<and>
    p_Visibility current = PluginVisibilitySpace"
proof -
  from run obtain s1 where s1: "sameExcept {TReceipts} s s1" and tx: "approveManagedReviewInTx r sc p current q s1 = Inr (out, s')"
    by (rule ApproveReview_run) (use assms in auto)
  have id: "p_ID current = rr_PluginID q" using find_Some_mem [OF cur] by (simp add: reviewedRow_def)
  from tx obtain t s2 vid s3 s4 where vis: "p_Visibility current = PluginVisibilitySpace" and s2: "sameExcept {TBaselines} s1 s2"
    and snap: "snapshotVersion r t (frozenPlugin current q) (rr_Relations q) (rr_Changelog q) (ap_ReviewerUID p) (references r) s2 = Inr (vid, s3)"
    and rel: "recordRelease r (frozenPlugin current q) vid (rr_Version q) (ap_ReviewerUID p) t s3 = Inr ((), s4)"
    and fin: "finishManagedReview r sc p current q vid t s4 = Inr (out, s')"
    by (rule approveManaged_run)
  from snap obtain v where v: "versions s3 = versions s2 @ [v]" "v_ID v = vid" "v_PluginID v = p_ID current" "v_Manifest v = rr_Manifest q"
    "v_Package v = rr_Package q" "v_AttachmentKeys v = rr_AttachmentKeys q" "v_ManifestHash v = rr_ManifestHash q"
    "v_PluginHash v = rr_PluginHash q" "v_Relations v = EncodeSnapshotRelations (rr_Relations q)" "vid = idAt r (idCount s2)"
    by (rule snapshotVersion_run) (use ver in auto)
  note f = finishManaged_run [OF fin] and rec = recordRelease_run [OF rel]
  have "versions s4 = versions s3"
    using stepsD [OF recordRelease_touches [of "{TPlugins, TSuspensions, TReleases, TBaselines}"] rel] by (auto dest: sameExcept_tables)
  moreover have "versions s2 = versions s" using sameExcept_tables [OF s1] sameExcept_tables [OF s2] by simp
  ultimately have vs: "versions s' = versions s @ [v]" using f(2) v(1) by simp
  have row: "releaseRow s' (rr_PluginID q) (v_ID v) (rr_Version q)"
    using rec(1) ver v(2,10) ids f(3) id by (simp add: releaseRow_def)
  have ptr: "\<forall>x \<in> set (plugins s'). p_ID x = rr_PluginID q \<and> p_DeletedAt x = None \<longrightarrow> p_PublishedVersionID x = Some (v_ID v)"
    using rec(3) ver v(2,10) ids id keepsCol_row [OF f(1)] by simp (metis (mono_tags, lifting) Pair_inject)
  have draft: "map draftOf (plugins s') = map draftOf (plugins s)"
    using stepsD [OF approveManaged_keeps tx] sameExcept_plugins [OF s1] by (simp add: keepsCol_def)
  have edges: "relations s' = relations s"
    using stepsD [OF approveManaged_touches tx] s1 by (auto dest!: sameExcept_relations)
  show ?thesis
    by (rule exI [of _ v]) (use vs row ptr draft edges vis v f(5) id in \<open>auto simp: freezes_def reviewedRow_def\<close>)
qed

section \<open>Approvals only add history\<close>

lemma claimReceipt_appends [appends]: "steps appendOnly (claimCardActionReceipt c i d src t)"
  unfolding claimCardActionReceipt_def insertCardActionReceipt_def
  by (intro history.steps_rules mapError_steps modify_appends) simp

lemma snapshotVersion_appends [appends]: "steps appendOnly (snapshotVersion r t p rels cl who idx)"
  unfolding snapshotVersion_def
  by (intro history.steps_rules modify_appends touches_history [OF updatePlugins_touches [of "{TPlugins}"]]
      touches_history [OF newID_touches [of "{}"]] touches_history [OF writeReferenceIndex_touches [of "{TRefEdges, TRefIndex}"]])
    simp_all

lemma recordRelease_appends [appends]: "steps appendOnly (recordRelease r p v l a t)"
  unfolding recordRelease_def insertRelease_def
  by (intro history.steps_rules modify_appends touches_history [OF updatePlugins_touches [of "{TPlugins}"]]
      touches_history [OF reads_touches [OF validateReleaseReferences_reads, of "{}"]]
      touches_history [OF RefreshConnectorBaselines_touches [of "{TBaselines}"]]
      touches_history [OF rejectPluginNameCollision_touches [of "{}"]]
      touches_history [OF clearRecovered_touches [of "{TPlugins, TSuspensions}"]])
    simp_all

lemma settleApproval_touches [touches]: "TReviews \<in> X \<Longrightarrow> steps (sameExcept X) (settleApproval p t)"
  unfolding settleApproval_def by (intro touch.steps_rules touches)

lemma applyFrozen_touches [touches]: "TPlugins \<in> X \<Longrightarrow> steps (sameExcept X) (applyFrozen r sc c q t)"
  unfolding applyFrozen_def Let_def by (intro touch.steps_rules touches)

lemma checkLabel_reads [reads]: "steps (=) (checkLabel c q)"
  unfolding checkLabel_def by (intro reading.steps_rules)

lemma lockFrozen_reads [reads]: "steps (=) (lockFrozen sc c q)"
  unfolding lockFrozen_def by (intro reading.steps_rules reads)

lemmas approval_appends [appends] =
  touches_history [OF now_touches [of "{}"], simplified] touches_history [OF newID_touches [of "{}"], simplified]
  touches_history [OF decidedAt_touches [of "{}"], simplified] touches_history [OF getReviewed_touches [of "{}"], simplified]
  touches_history [OF updatePlugins_touches [of "{TPlugins}"], simplified]
  touches_history [OF ensurePlacement_touches [of "{TPlacements}"], simplified]
  touches_history [OF settle_touches [of "{TReviews}"], simplified]
  touches_history [OF settleApproval_touches [of "{TReviews}"], simplified]
  touches_history [OF applyFrozen_touches [of "{TPlugins}"], simplified]
  touches_history [OF approveConnectorRevisions_touches [of "{TBaselines}"], simplified]
  touches_history [OF promoteFrozen_touches [of "{TPlugins}"], simplified]
  touches_history [OF promoteEmbeddedChildren_touches [of "{TPlugins}"], simplified]
  touches_history [OF syncRelations_touches [of "{TRelations}"], simplified]
  touches_history [OF reads_touches [OF lockRequest_reads, of "{}"], simplified]
  touches_history [OF reads_touches [OF lockReferences_reads, of "{}"], simplified]
  touches_history [OF reads_touches [OF lockFrozen_reads, of "{}"], simplified]
  touches_history [OF reads_touches [OF checkLabel_reads, of "{}"], simplified]

lemma audience_appends: "steps audienceStep m \<Longrightarrow> steps appendOnly m"
  by (erule steps_mono) (simp add: audienceStep_def)

lemma decidedAt_audience [audiences]: "steps audienceStep (decidedAt r p)"
  by (rule touches_audience [OF decidedAt_touches [of "{}"]]) simp

lemma approveVisibility_audience [audiences]: "steps audienceStep (approveVisibilityReview r sc p c)"
  unfolding approveVisibilityReview_def by (intro audience.steps_rules audiences)

lemma ApproveReview_appends [appends]: "steps appendOnly (ApproveReview r sc p)"
  unfolding ApproveReview_def approveManagedReviewInTx_def finishManagedReview_def approveUnmanaged_def
  by (intro history.steps_rules appends audience_appends [OF approveVisibility_audience])

lemma RejectReview_appends [appends]: "steps appendOnly (RejectReview r sc p)"
  unfolding RejectReview_def
  by (intro history.steps_rules appends touches_history [OF updateReviews_touches [of "{TReviews}"]]
      touches_history [OF mustAffect_touches [of "{}"]] touches_history [OF finishGroup_touches [of "{TReviews}"]]) simp_all

section \<open>A card event decides once\<close>

lemma claimReceipt_run:
  assumes "claimCardActionReceipt (Some c) i d src t s = Inr (u, s')"
  shows "receipts s' = receipts s @ [c\<lparr>cr_CreatedAt := (if cr_CreatedAt c = 0 then t else cr_CreatedAt c)\<rparr>]"
    and "\<forall>x \<in> set (receipts s). cr_EventID x \<noteq> cr_EventID c" and "cr_ReviewID c = i" and "cr_Decision c = d"
  using assms by (auto simp: claimCardActionReceipt_def mapError_def insertCardActionReceipt_def tx_simps split: sum.splits)

lemma claimReceipt_replayed:
  assumes "x \<in> set (receipts s)" and "cr_EventID x = cr_EventID c"
  shows "claimCardActionReceipt (Some c) i d src t s \<in> {Inl ErrReceiptBinding, Inl ErrCardActionReplayed}"
proof -
  have "insertCardActionReceipt c t s = Inl ErrConflict"
    using assms by (auto simp: insertCardActionReceipt_def bindT_def thenT_def queryT_def refuseT_def throwT_def)
  then show ?thesis by (simp add: claimCardActionReceipt_def thenT_def bindT_def refuseT_def throwT_def returnT_def mapError_def)
qed

lemma decision_replayed:
  assumes "x \<in> set (receipts s)" and "cr_EventID x = cr_EventID c"
  shows "ap_CardReceipt p = Some c \<Longrightarrow> ApproveReview r sc p s \<in> {Inl ErrReceiptBinding, Inl ErrCardActionReplayed}"
    and "rj_CardReceipt p' = Some c \<Longrightarrow> RejectReview r sc p' s \<in> {Inl ErrReceiptBinding, Inl ErrCardActionReplayed}"
proof -
  let ?s1 = "s\<lparr>tickCount := Suc (tickCount s)\<rparr>"
  have again: "claimCardActionReceipt (Some c) i d src t ?s1 \<in> {Inl ErrReceiptBinding, Inl ErrCardActionReplayed}" for i d src t
    using assms by (intro claimReceipt_replayed [of x]) simp_all
  show "ApproveReview r sc p s \<in> {Inl ErrReceiptBinding, Inl ErrCardActionReplayed}" if "ap_CardReceipt p = Some c"
    unfolding ApproveReview_def using again [of "ap_ReviewID p" "''approve''" "ap_DecisionSource p" "nowAt r (tickCount s)"] that
    by (auto simp: bindT_def thenT_def now_def)
  show "RejectReview r sc p' s \<in> {Inl ErrReceiptBinding, Inl ErrCardActionReplayed}" if "rj_CardReceipt p' = Some c"
    unfolding RejectReview_def using again [of "rj_ReviewID p'" "''deny''" "rj_DecisionSource p'" "nowAt r (tickCount s)"] that
    by (auto simp: bindT_def thenT_def now_def)
qed

lemma find_append_new: "(\<forall>x \<in> set xs. \<not> P x) \<Longrightarrow> P y \<Longrightarrow> find P (xs @ y # zs) = Some y"
  by (induction xs) auto

text \<open>A card event decides at most once. After an approval that carried a receipt, and in
  every later state (history is only ever appended to), the stored receipt of the event is the
  one of that approval, with its response; whoever replays the event, to approve or to reject,
  in whatever scope, is refused and nothing changes.\<close>

theorem card_event_decides_once:
  assumes run: "ApproveReview r sc p s = Inr (out, s1)" and c: "ap_CardReceipt p = Some c" and later: "appendOnly s1 s2"
  shows "(\<exists>x. GetCardActionReceipt s2 (cr_EventID c) = Some x \<and> cr_Decision x = ''approve'' \<and>
       cr_ReviewID x = ap_ReviewID p \<and> cr_StoredResponse x = cr_StoredResponse c) \<and>
    (\<forall>r' sc' p' c'. ap_CardReceipt p' = Some c' \<and> cr_EventID c' = cr_EventID c \<longrightarrow>
       ApproveReview r' sc' p' s2 \<in> {Inl ErrReceiptBinding, Inl ErrCardActionReplayed}) \<and>
    (\<forall>r' sc' p' c'. rj_CardReceipt p' = Some c' \<and> cr_EventID c' = cr_EventID c \<longrightarrow>
       RejectReview r' sc' p' s2 \<in> {Inl ErrReceiptBinding, Inl ErrCardActionReplayed})"
proof -
  from run obtain s0 q current where claim: "claimCardActionReceipt (Some c) (ap_ReviewID p) ''approve'' (ap_DecisionSource p)
       (nowAt r (tickCount s)) (s\<lparr>tickCount := Suc (tickCount s)\<rparr>) = Inr ((), s0)"
    and rest: "(if rr_Kind q = ReviewKindVisibility then
       thenT (refuseT (\<not> versionManagement r) ErrConflict) (approveVisibilityReview r sc p current)
     else if versionManagement r \<and> versioned current then approveManagedReviewInTx r sc p current q
     else approveUnmanaged r sc p current q) s0 = Inr (out, s1)"
    by (rule ApproveReview_run) (use c in simp)
  have "steps appendOnly (if rr_Kind q = ReviewKindVisibility then
       thenT (refuseT (\<not> versionManagement r) ErrConflict) (approveVisibilityReview r sc p current)
     else if versionManagement r \<and> versioned current then approveManagedReviewInTx r sc p current q
     else approveUnmanaged r sc p current q)"
    unfolding approveManagedReviewInTx_def finishManagedReview_def approveUnmanaged_def
    by (intro history.steps_rules appends audience_appends [OF approveVisibility_audience])
  from history.frame_trans [OF stepsD [OF this rest] later] have "prefix (receipts s0) (receipts s2)" by (simp add: appendOnly_def)
  note claimed = claimReceipt_run [OF claim]
  define x where "x = c\<lparr>cr_CreatedAt := (if cr_CreatedAt c = 0 then nowAt r (tickCount s) else cr_CreatedAt c)\<rparr>"
  obtain zs where s2: "receipts s2 = receipts s @ x # zs"
    using \<open>prefix (receipts s0) (receipts s2)\<close> claimed(1) by (auto simp: prefix_def x_def)
  have "GetCardActionReceipt s2 (cr_EventID c) = Some x"
    unfolding GetCardActionReceipt_def s2 by (rule find_append_new) (use claimed(2) in \<open>auto simp: x_def\<close>)
  then have "\<exists>x. GetCardActionReceipt s2 (cr_EventID c) = Some x \<and> cr_Decision x = ''approve'' \<and>
       cr_ReviewID x = ap_ReviewID p \<and> cr_StoredResponse x = cr_StoredResponse c"
    using claimed(3,4) by (simp add: x_def)
  moreover have "x \<in> set (receipts s2)" "cr_EventID x = cr_EventID c" using s2 by (simp_all add: x_def)
  ultimately show ?thesis using decision_replayed [of x s2] by metis
qed

definition sampleApprove :: ApproveReviewParams where
  "sampleApprove = \<lparr>ap_CardReceipt = None, ap_ReviewID = ''q1'', ap_ReviewerUID = ''u9'', ap_ReviewerName = ''n'',
     ap_DecisionSource = None, ap_RequestID = ''x'', ap_Now = 0\<rparr>"

definition sampleReceipt :: CardActionReceipt where
  "sampleReceipt = \<lparr>cr_EventID = ''e1'', cr_StoredResponse = Some (JObj []), cr_ReviewID = ''q1'', cr_Decision = ''approve'', cr_CreatedAt = 0\<rparr>"

definition approvalStore :: Store where
  "approvalStore = emptyStore\<lparr>plugins := [(samplePlugin ''k'' PluginTypeSkill ''u1'')\<lparr>p_ListingState := PluginListingStateDraft\<rparr>],
     reviews := [(sampleRequest ''q1'' ''k'')\<lparr>rr_Version := ''2.0.0'', rr_Manifest := Some (JObj [(''plugin_name'', JStr ''K'')])\<rparr>]\<rparr>"

theorem ApproveReview_managed_releases_witness:
  "\<exists>out s' v. ApproveReview managedRepo sampleOwner sampleApprove approvalStore = Inr (out, s') \<and>
     versions s' = versions approvalStore @ [v] \<and> releaseRow s' ''k'' (v_ID v) ''2.0.0''"
proof -
  let ?run = "ApproveReview managedRepo sampleOwner sampleApprove approvalStore"
  let ?q = "hd (reviews approvalStore)" and ?c = "hd (plugins approvalStore)"
  have "\<not> isl ?run" by code_simp
  then obtain out s' where run: "?run = Inr (out, s')" by (auto dest: tx_runs)
  have "versionManagement managedRepo" by (simp add: managedRepo_def)
  moreover have "idAt managedRepo n \<noteq> []" for n by (simp add: managedRepo_def)
  moreover have "find (openRequest (ap_ReviewID sampleApprove) (s_SpaceID sampleOwner)) (reviews approvalStore) = Some ?q" by code_simp
  moreover have "rr_Kind ?q \<noteq> ReviewKindVisibility" by code_simp
  moreover have "find (reviewedRow (s_SpaceID sampleOwner) (rr_PluginID ?q)) (plugins approvalStore) = Some ?c" by code_simp
  moreover have "versioned ?c" by code_simp
  moreover have "rr_PluginID ?q = ''k''" "rr_Version ?q = ''2.0.0''" by code_simp+
  ultimately show ?thesis using run ApproveReview_managed_releases [OF run, of ?q ?c] by auto
qed

theorem card_event_decides_once_witness:
  "\<exists>out s'. ApproveReview managedRepo sampleOwner
       (sampleApprove\<lparr>ap_CardReceipt := Some sampleReceipt, ap_DecisionSource := Some ReviewDecisionSourceIM\<rparr>) approvalStore = Inr (out, s') \<and>
     GetCardActionReceipt s' ''e1'' \<noteq> None \<and>
     ApproveReview managedRepo sampleOwner (sampleApprove\<lparr>ap_CardReceipt := Some sampleReceipt\<rparr>) s'
       \<in> {Inl ErrReceiptBinding, Inl ErrCardActionReplayed}"
proof -
  let ?p = "sampleApprove\<lparr>ap_CardReceipt := Some sampleReceipt, ap_DecisionSource := Some ReviewDecisionSourceIM\<rparr>"
  let ?run = "ApproveReview managedRepo sampleOwner ?p approvalStore"
  have "\<not> isl ?run" by code_simp
  then obtain out s' where run: "?run = Inr (out, s')" by (auto dest: tx_runs)
  have c: "ap_CardReceipt ?p = Some sampleReceipt" by simp
  have "cr_EventID sampleReceipt = ''e1''" by code_simp
  with card_event_decides_once [OF run c history.frame_refl] run show ?thesis by auto
qed

section \<open>An unmanaged approval lists what was frozen\<close>

text \<open>A property of all rows that a transaction keeps.\<close>

definition keepsAll :: "(Plugin \<Rightarrow> bool) \<Rightarrow> Store \<Rightarrow> Store \<Rightarrow> bool" where
  "keepsAll P s t \<longleftrightarrow> ((\<forall>x \<in> set (plugins s). P x) \<longrightarrow> (\<forall>x \<in> set (plugins t). P x))"

interpretation rowInv: tx_frame "keepsAll P" for P
  by unfold_locales (simp_all add: keepsAll_def)

lemma updatePlugins_keepsAll: "(\<And>x. c x \<Longrightarrow> P x \<Longrightarrow> P (f x)) \<Longrightarrow> steps (keepsAll P) (updatePlugins c f)"
  by (rule stepsI) (simp add: keepsAll_def updatePlugins_Inr set_updateWhere, blast)

lemma touches_keepsAll: "steps (sameExcept X) m \<Longrightarrow> TPlugins \<notin> X \<Longrightarrow> steps (keepsAll P) m"
  by (erule steps_mono) (simp add: keepsAll_def sameExcept_plugins)

lemma keeps_keepsAll:
  assumes "steps (keepsCol f) m" and "\<And>x y. f x = f y \<Longrightarrow> P x \<Longrightarrow> P y"
  shows "steps (keepsAll P) m"
proof (rule stepsI)
  fix s a t assume "m s = Inr (a, t)"
  then have kept: "keepsCol f s t" by (rule stepsD [OF assms(1)])
  show "keepsAll P s t" unfolding keepsAll_def by (intro impI keepsCol_all [OF kept]) (auto intro: assms(2))
qed

text \<open>The row shows the frozen content to the whole Space.\<close>

definition showsFrozen :: "string \<Rightarrow> PluginReviewRequest \<Rightarrow> Plugin \<Rightarrow> bool" where
  "showsFrozen spaceID q x \<longleftrightarrow> (p_ID x = rr_PluginID q \<and> p_SpaceID x = Some spaceID \<and> p_DeletedAt x = None \<longrightarrow>
     p_Name x = fst (manifestNameAndTags (rr_Manifest q)) \<and> p_Tags x = snd (manifestNameAndTags (rr_Manifest q)) \<and>
     p_Manifest x = rr_Manifest q \<and> p_Package x = rr_Package q \<and> p_AttachmentKeys x = rr_AttachmentKeys q \<and>
     p_ManifestHash x = rr_ManifestHash q \<and> p_PluginHash x = rr_PluginHash q \<and> orgListed x)"

lemma applyFrozen_run:
  assumes run: "applyFrozen r sc current q t s = Inr (u, s')"
  obtains k n where "plugins s' = (if orgListed current
      then updateWhere (\<lambda>x. p_ID x = rr_PluginID q \<and> p_SpaceID x = Some (s_SpaceID sc) \<and> p_DeletedAt x = None) (stampFrozen q k n t) (plugins s)
      else updateWhere (\<lambda>x. (p_ID x = rr_PluginID q \<and> p_SpaceID x = Some (s_SpaceID sc) \<and> p_DeletedAt x = None) \<and> \<not> orgListed x)
        (\<lambda>x. (stampFrozen q k n t x)\<lparr>p_Visibility := PluginVisibilitySpace, p_ListingState := PluginListingStatePublished\<rparr>) (plugins s))"
proof -
  have names: "t' = s" if "(case nameKey of None \<Rightarrow> returnT () | Some k \<Rightarrow> whenT b (rejectPluginNameCollision r current k n)) s = Inr (u', t')"
    for nameKey b n u' t'
    using that by (cases nameKey) (simp_all add: returnT_Inr whenT_Inr rejectPluginNameCollision_Inr split: if_splits)
  from run show thesis
    unfolding applyFrozen_def Let_def orgListed_def [symmetric]
    by (cases "orgListed current")
      (clarsimp simp: bindT_Inr thenT_Inr liftT_Inr updatePlugins_Inr mustChangeState_Inr returnT_Inr dest!: names; rule that; simp)+
qed

lemma applyFrozen_shows:
  assumes run: "applyFrozen r sc current q t s = Inr (u, s')" and cur: "find (reviewedRow (s_SpaceID sc) (rr_PluginID q)) (plugins s) = Some current"
    and uniq: "distinct (map p_ID (plugins s))"
  shows "\<forall>x \<in> set (plugins s'). showsFrozen (s_SpaceID sc) q x"
proof -
  let ?row = "\<lambda>x. p_ID x = rr_PluginID q \<and> p_SpaceID x = Some (s_SpaceID sc) \<and> p_DeletedAt x = None"
  have current: "current \<in> set (plugins s)" "p_ID current = rr_PluginID q" using find_Some_mem [OF cur] by (auto simp: reviewedRow_def)
  have only: "x = current" if "x \<in> set (plugins s)" "?row x" for x
    using that current uniq by (auto simp: distinct_map inj_on_def)
  from run obtain k n where s': "plugins s' = (if orgListed current then updateWhere ?row (stampFrozen q k n t) (plugins s)
      else updateWhere (\<lambda>x. ?row x \<and> \<not> orgListed x)
        (\<lambda>x. (stampFrozen q k n t x)\<lparr>p_Visibility := PluginVisibilitySpace, p_ListingState := PluginListingStatePublished\<rparr>) (plugins s))"
    by (rule applyFrozen_run)
  have stamped: "showsFrozen (s_SpaceID sc) q (stampFrozen q k n t x)" if "orgListed x" for x
    using that by (simp add: showsFrozen_def stampFrozen_def orgListed_def)
  have first: "showsFrozen (s_SpaceID sc) q ((stampFrozen q k n t x)\<lparr>p_Visibility := PluginVisibilitySpace,
      p_ListingState := PluginListingStatePublished\<rparr>)" for x
    by (simp add: showsFrozen_def stampFrozen_def orgListed_def)
  have other: "showsFrozen (s_SpaceID sc) q x" if "\<not> ?row x" for x using that by (simp only: showsFrozen_def) blast
  show ?thesis
  proof (cases "orgListed current")
    case True
    show ?thesis
    proof
      fix x assume "x \<in> set (plugins s')"
      then have "x \<in> set (updateWhere ?row (stampFrozen q k n t) (plugins s))" by (simp only: s' True if_True)
      then show "showsFrozen (s_SpaceID sc) q x"
        by (cases rule: updateWhere_memE) (use only stamped True other in blast)+
    qed
  next
    case False
    show ?thesis
    proof
      fix x assume "x \<in> set (plugins s')"
      then have "x \<in> set (updateWhere (\<lambda>x. ?row x \<and> \<not> orgListed x)
        (\<lambda>x. (stampFrozen q k n t x)\<lparr>p_Visibility := PluginVisibilitySpace, p_ListingState := PluginListingStatePublished\<rparr>) (plugins s))"
        by (simp only: s' False if_False)
      then show "showsFrozen (s_SpaceID sc) q x"
        by (cases rule: updateWhere_memE) (use only first False other in blast)+
    qed
  qed
qed

lemma promoteEmbedded_shows: "steps (keepsAll (showsFrozen sp q)) (promoteEmbeddedChildren topID ty sp' a t)"
  unfolding promoteEmbeddedChildren_def promoteEmbeddedIDs_def promoteChild_def
  by (intro rowInv.steps_rules updatePlugins_keepsAll) (auto simp: showsFrozen_def orgListed_def)

lemma snapshotVersion_shows: "steps (keepsAll (showsFrozen sp q)) (snapshotVersion r t p rels cl who idx)"
  by (rule keeps_keepsAll [where f = "showsFrozen sp q"], rule snapshotVersion_keeps)
    (simp_all add: showsFrozen_def orgListed_def)

text \<open>The edges and the children of the listed row.\<close>

lemma relist_touches:
  "steps (sameExcept {TPlugins, TRelations}) (bindT (syncRelations r t i owner es keep) (\<lambda>_. whenT b (promoteEmbeddedChildren i ty sp a t)))"
  by (intro touch.steps_rules touches) simp_all

lemma relist_shows:
  "steps (keepsAll (showsFrozen sp q)) (bindT (syncRelations r t i owner es keep) (\<lambda>_. whenT b (promoteEmbeddedChildren i ty sp' a t)))"
  by (intro rowInv.steps_rules promoteEmbedded_shows touches_keepsAll [OF syncRelations_touches [of "{TRelations}"]]) simp_all

text \<open>The label a snapshot declares becomes the current label of the row.\<close>

lemma snapshotVersion_label:
  assumes "snapshotVersion r t p rels cl who idx s = Inr (vid, s')" and "hasLabel (p_CurrentVersion p)"
  shows "\<forall>x \<in> set (plugins s'). p_ID x = p_ID p \<and> p_DeletedAt x = None \<longrightarrow> p_CurrentVersion x = p_CurrentVersion p"
proof -
  obtain u f where s': "plugins s' = updateWhere (\<lambda>q. p_ID q = p_ID p \<and> p_DeletedAt q = None) f u"
    and f: "\<And>q. p_CurrentVersion (f q) = p_CurrentVersion p"
    using assms unfolding snapshotVersion_def
    by (cases "p_Type p = PluginTypeConnector")
      (auto simp: tx_simps declaredLabel_def hasLabel_def split: option.splits)
  show ?thesis unfolding s' by (auto simp: f elim!: updateWhere_memE)
qed

lemma approveUnmanaged_run:
  assumes "approveUnmanaged r sc p current q s = Inr (out, s')"
  obtains t s1 frozen s2 s3 s4 edges vid s5 where "checkLabel current q s = Inr ((), s)" and "sameExcept {} s s1"
    and "applyFrozen r sc current q t s1 = Inr ((), s2)"
    and "ensureVisibleDefaultPlacement r t (rr_PluginID q) (p_CategoryID current) s2 = Inr ((), s3)"
    and "bindT (syncRelations r t (rr_PluginID q) (p_OwnerUID current) frozen False) (\<lambda>_.
       whenT (\<not> orgListed current) (promoteEmbeddedChildren (rr_PluginID q) (p_Type current) (s_SpaceID sc) (p_Visibility current) t)) s3
       = Inr ((), s4)"
    and "snapshotVersion r t (frozenPlugin current q) edges (nonEmptyText (rr_Changelog q)) (ap_ReviewerUID p) (references r) s4 = Inr (vid, s5)"
    and "find (reviewedRow (s_SpaceID sc) (rr_PluginID q)) (plugins s') = Some out"
    and "sameExcept {TReviews, TAudits} s5 s'"
    and "\<exists>s6. settleApproval p t s5 = Inr ((), s6) \<and> reviews s' = reviews s6"
proof -
  let ?m = "reviewer p (Some (''decision_source='' @ sourceText (decisionSource (ap_DecisionSource p))))"
  from assms obtain s0 t s1 frozen s1' s2 s3 y u vid s4 s5 s6 i s7 s8 where lab: "checkLabel current q s = Inr ((), s0)"
    and at: "decidedAt r p s0 = Inr (t, s1)" and lock: "lockFrozen sc current q s1 = Inr (frozen, s1')"
    and app: "applyFrozen r sc current q t s1' = Inr ((), s2)"
    and pl: "ensureVisibleDefaultPlacement r t (rr_PluginID q) (p_CategoryID current) s2 = Inr ((), s3)"
    and sync: "syncRelations r t (rr_PluginID q) (p_OwnerUID current) frozen False s3 = Inr (y, u)"
    and kids: "whenT (\<not> orgListed current)
       (promoteEmbeddedChildren (rr_PluginID q) (p_Type current) (s_SpaceID sc) (p_Visibility current) t) u = Inr ((), s4)"
    and snap: "snapshotVersion r t (frozenPlugin current q) (sy_Relations y) (nonEmptyText (rr_Changelog q)) (ap_ReviewerUID p) (references r) s4 = Inr (vid, s5)"
    and set: "settleApproval p t s5 = Inr ((), s6)" and new: "newID r s6 = Inr (i, s7)"
    and aud: "insertAudit i t (frozenPlugin current q) ''review_approve'' ?m (p_PluginHash current) (rr_PluginHash q) s7 = Inr ((), s8)"
    and fin: "getReviewedPluginForUpdate (s_SpaceID sc) (rr_PluginID q) s8 = Inr (out, s')"
    unfolding approveUnmanaged_def orgListed_def [symmetric] by (auto simp only: bindT_Inr thenT_Inr)
  have s0: "s0 = s" and s1': "s1' = s1" using readsD [OF checkLabel_reads lab] readsD [OF lockFrozen_reads lock] by simp_all
  have "find (reviewedRow (s_SpaceID sc) (rr_PluginID q)) (plugins s') = Some out" and s8: "s' = s8" using fin by (auto simp: getReviewed_Inr)
  moreover have "sameExcept {TReviews, TAudits} s5 s'"
    unfolding s8 by (intro touch.frame_trans [OF stepsD [OF settleApproval_touches set] touch.frame_trans [OF stepsD [OF newID_touches new]
        stepsD [OF insertAudit_touches aud]]]) simp_all
  moreover have "bindT (syncRelations r t (rr_PluginID q) (p_OwnerUID current) frozen False) (\<lambda>_.
       whenT (\<not> orgListed current) (promoteEmbeddedChildren (rr_PluginID q) (p_Type current) (s_SpaceID sc) (p_Visibility current) t)) s3
       = Inr ((), s4)" using sync kids by (auto simp only: bindT_Inr)
  moreover have "reviews s8 = reviews s7" by (rule sameExcept_reviews [OF stepsD [OF insertAudit_touches [of "{TAudits}"] aud]]) simp_all
  then have "\<exists>s6. settleApproval p t s5 = Inr ((), s6) \<and> reviews s' = reviews s6"
    using set s8 sameExcept_reviews [OF stepsD [OF newID_touches [of "{}"] new]] by simp
  ultimately show thesis
    using that [OF _ stepsD [OF decidedAt_touches at [unfolded s0]] app [unfolded s1'] pl _ snap] lab s0 by blast
qed

text \<open>C16: approving a content request of an unmanaged plugin publishes exactly what the request
  froze. The row then shows the frozen documents, files, hashes, name and tags to the whole Space
  under the approved label, a version row with the same content is appended, and the plugin is
  placed in the market. The label was neither behind the current one nor published before.\<close>

theorem ApproveReview_unmanaged_publishes:
  assumes run: "ApproveReview r sc p s = Inr (out, s')" and uniq: "distinct (map p_ID (plugins s))"
    and q: "find (openRequest (ap_ReviewID p) (s_SpaceID sc)) (reviews s) = Some q" and "rr_Kind q \<noteq> ReviewKindVisibility"
    and cur: "find (reviewedRow (s_SpaceID sc) (rr_PluginID q)) (plugins s) = Some current"
    and "\<not> (versionManagement r \<and> versioned current)" and label: "rr_Version q \<noteq> ''''"
  shows "reviewedRow (s_SpaceID sc) (rr_PluginID q) out \<and> out \<in> set (plugins s') \<and>
    (\<forall>x \<in> set (plugins s'). showsFrozen (s_SpaceID sc) q x) \<and>
    (\<forall>x \<in> set (plugins s'). p_ID x = rr_PluginID q \<and> p_DeletedAt x = None \<longrightarrow> p_CurrentVersion x = Some (rr_Version q)) \<and>
    (versioned current \<longrightarrow> (\<exists>v. versions s' = versions s @ [v] \<and> freezes q v \<and> v_DeclaredVersion v = Some (rr_Version q))) \<and>
    marketPlaced s' (rr_PluginID q) \<and> rr_Version q \<notin> set (publishedVersionLabels s (rr_PluginID q) current) \<and>
    (\<forall>l. p_CurrentVersion current = Some l \<longrightarrow> VersionNotRegressed l (rr_Version q))"
proof -
  from run obtain s0 where s0: "sameExcept {TReceipts} s s0" and tx: "approveUnmanaged r sc p current q s0 = Inr (out, s')"
    by (rule ApproveReview_run) (use assms in auto)
  have id: "p_ID current = rr_PluginID q" using find_Some_mem [OF cur] by (simp add: reviewedRow_def)
  from tx obtain t s1 frozen s2 s3 s4 edges vid s5 where lab: "checkLabel current q s0 = Inr ((), s0)" and s1: "sameExcept {} s0 s1"
    and app: "applyFrozen r sc current q t s1 = Inr ((), s2)"
    and pl: "ensureVisibleDefaultPlacement r t (rr_PluginID q) (p_CategoryID current) s2 = Inr ((), s3)"
    and mid: "bindT (syncRelations r t (rr_PluginID q) (p_OwnerUID current) frozen False) (\<lambda>_.
       whenT (\<not> orgListed current) (promoteEmbeddedChildren (rr_PluginID q) (p_Type current) (s_SpaceID sc) (p_Visibility current) t)) s3
       = Inr ((), s4)"
    and snap: "snapshotVersion r t (frozenPlugin current q) edges (nonEmptyText (rr_Changelog q)) (ap_ReviewerUID p) (references r) s4 = Inr (vid, s5)"
    and fin: "find (reviewedRow (s_SpaceID sc) (rr_PluginID q)) (plugins s') = Some out" and s5: "sameExcept {TReviews, TAudits} s5 s'"
    by (rule approveUnmanaged_run)
  have same: "plugins s1 = plugins s" "plugins s3 = plugins s2" "plugins s' = plugins s5"
    using s0 s1 s5 stepsD [OF ensurePlacement_touches [of "{TPlacements}"] pl] by (simp_all add: sameExcept_plugins)
  note shown = applyFrozen_shows [OF app]
  have "\<forall>x \<in> set (plugins s2). showsFrozen (s_SpaceID sc) q x" using shown cur uniq same(1) by simp
  moreover have "keepsAll (showsFrozen (s_SpaceID sc) q) s3 s4"
    by (rule stepsD [OF relist_shows mid])
  moreover have "keepsAll (showsFrozen (s_SpaceID sc) q) s4 s5" by (rule stepsD [OF snapshotVersion_shows snap])
  ultimately have rows: "\<forall>x \<in> set (plugins s'). showsFrozen (s_SpaceID sc) q x" using same(2,3) by (simp add: keepsAll_def)
  note s4 = stepsD [OF relist_touches mid]
  have vs: "versions s4 = versions s"
    using sameExcept_tables [OF s0] sameExcept_tables [OF s1] sameExcept_tables [OF s4]
      sameExcept_tables [OF stepsD [OF applyFrozen_touches [of "{TPlugins}"] app]]
      sameExcept_tables [OF stepsD [OF ensurePlacement_touches [of "{TPlacements}"] pl]] by simp
  have ver: "\<exists>v. versions s' = versions s @ [v] \<and> freezes q v \<and> v_DeclaredVersion v = Some (rr_Version q)" if "versioned current"
    by (rule snapshotVersion_run [OF snap])
      (use that vs label id sameExcept_versions [OF s5] in \<open>auto simp: freezes_def declaredLabel_def\<close>)
  have "placements s' = placements s3"
    using sameExcept_tables [OF s4] sameExcept_tables [OF s5]
      sameExcept_tables [OF stepsD [OF snapshotVersion_touches [of "{TPlugins, TVersions, TRefEdges, TRefIndex}"] snap]] by simp
  then have placed: "marketPlaced s' (rr_PluginID q)" using ensurePlacement_placed [OF pl] by (simp add: marketPlaced_def)
  have current: "\<forall>x \<in> set (plugins s'). p_ID x = rr_PluginID q \<and> p_DeletedAt x = None \<longrightarrow> p_CurrentVersion x = Some (rr_Version q)"
    using snapshotVersion_label [OF snap] label same(3) id by (simp add: hasLabel_def)
  have "reviews s0 = reviews s" using s0 by (rule sameExcept_reviews) simp
  then have "rr_Version q \<notin> set (publishedVersionLabels s (rr_PluginID q) current)"
    "\<forall>l. p_CurrentVersion current = Some l \<longrightarrow> VersionNotRegressed l (rr_Version q)"
    using lab by (simp_all add: checkLabel_def tx_simps publishedVersionLabels_def split: option.splits)
  with find_Some_mem [OF fin] rows ver placed current show ?thesis by blast
qed

theorem ApproveReview_unmanaged_publishes_witness:
  "\<exists>out s'. ApproveReview sampleRepo sampleOwner sampleApprove approvalStore = Inr (out, s') \<and>
     p_CurrentVersion out = Some ''2.0.0'' \<and> marketPlaced s' ''k''"
proof -
  let ?run = "ApproveReview sampleRepo sampleOwner sampleApprove approvalStore"
  let ?q = "hd (reviews approvalStore)" and ?c = "hd (plugins approvalStore)"
  have "\<not> isl ?run" by code_simp
  then obtain out s' where run: "?run = Inr (out, s')" by (auto dest: tx_runs)
  have "distinct (map p_ID (plugins approvalStore))" by code_simp
  moreover have "find (openRequest (ap_ReviewID sampleApprove) (s_SpaceID sampleOwner)) (reviews approvalStore) = Some ?q" by code_simp
  moreover have "rr_Kind ?q \<noteq> ReviewKindVisibility" by code_simp
  moreover have "find (reviewedRow (s_SpaceID sampleOwner) (rr_PluginID ?q)) (plugins approvalStore) = Some ?c" by code_simp
  moreover have "\<not> (versionManagement sampleRepo \<and> versioned ?c)" by code_simp
  moreover have q: "rr_PluginID ?q = ''k''" "rr_Version ?q = ''2.0.0''" by code_simp+
  ultimately show ?thesis using run ApproveReview_unmanaged_publishes [OF run, of ?q ?c] by (auto simp: reviewedRow_def)
qed

section \<open>An approval settles the request\<close>

lemma sync_touches [touches]: "TPlugins \<in> X \<Longrightarrow> steps (sameExcept X) (syncVisibilityEmbeddedAudience root v t)"
  by (rule syncAudience_steps [OF touch.tx_frame_axioms]) (auto simp: syncEdge_def intro!: touch.steps_rules touches)

lemma applyAudience_touches [touches]:
  "TPlugins \<in> X \<Longrightarrow> TPlacements \<in> X \<Longrightarrow> TAudits \<in> X \<Longrightarrow> steps (sameExcept X) (applyAudience r sc p v m act t)"
  unfolding applyAudience_def by (intro touch.steps_rules touches)

lemma applyMember_touches [touches]:
  "TPlugins \<in> X \<Longrightarrow> TPlacements \<in> X \<Longrightarrow> TAudits \<in> X \<Longrightarrow> steps (sameExcept X) (applyMember r sc ns m item)"
  unfolding applyMember_def by (intro touch.steps_rules touches)

lemma settle_marks:
  assumes "settleVisibilityReview i u n src t s = Inr (x, s')" and "q \<in> set (reviews s)" and "rr_Status q = ReviewStatusPending"
  shows "rr_ID q = i \<Longrightarrow> markSettled u n src t q \<in> set (reviews s')" and "rr_ID q \<noteq> i \<Longrightarrow> q \<in> set (reviews s')"
proof -
  have s': "reviews s' = updateWhere (\<lambda>q. rr_ID q = i \<and> rr_Status q = ReviewStatusPending) (markSettled u n src t) (reviews s)"
    using assms(1) by (auto simp: settleVisibilityReview_def bindT_Inr updateReviews_Inr mustAffect_Inr)
  show "markSettled u n src t q \<in> set (reviews s')" if "rr_ID q = i"
    unfolding s' by (simp only: set_updateWhere, rule image_eqI [OF _ assms(2)]) (simp add: that assms(3))
  show "q \<in> set (reviews s')" if "rr_ID q \<noteq> i" using assms(2) that unfolding s' by (intro updateWhere_keepI) simp_all
qed

lemma group_marks:
  "forT (\<lambda>g. bindT (now r) (\<lambda>t. settleVisibilityReview (gm_ReviewID g) u n src t)) ms s = Inr (x, s') \<Longrightarrow>
     q \<in> set (reviews s) \<Longrightarrow> rr_Status q = ReviewStatusPending \<Longrightarrow> rr_ID q \<in> gm_ReviewID ` set ms \<Longrightarrow>
     \<exists>t. markSettled u n src t q \<in> set (reviews s')"
proof (induction ms arbitrary: s)
  case Nil
  then show ?case by simp
next
  case (Cons g ms)
  let ?loop = "forT (\<lambda>g. bindT (now r) (\<lambda>t. settleVisibilityReview (gm_ReviewID g) u n src t)) ms"
  from Cons.prems(1) obtain y s1 where
    one: "settleVisibilityReview (gm_ReviewID g) u n src (nowAt r (tickCount s)) (s\<lparr>tickCount := Suc (tickCount s)\<rparr>) = Inr (y, s1)"
    and rest: "?loop s1 = Inr (x, s')" by (auto simp: bindT_Inr thenT_Inr now_Inr)
  note marks = settle_marks [OF one, of q]
  have kept: "steps requestsKept ?loop"
    by (intro queue.steps_rules requests touches_requestsKept [OF now_touches [of "{}"]]) simp
  show ?case
  proof (cases "rr_ID q = gm_ReviewID g")
    case True
    then have "markSettled u n src (nowAt r (tickCount s)) q \<in> set (reviews s1)" using marks(1) Cons.prems(2,3) by simp
    then have "markSettled u n src (nowAt r (tickCount s)) q \<in> set (reviews s')"
      by (rule requestsKept_decided [OF stepsD [OF kept rest]]) simp
    then show ?thesis by blast
  next
    case False
    show ?thesis by (rule Cons.IH [OF rest]) (use marks(2) Cons.prems False in auto)
  qed
qed

lemma applyGroup_run:
  assumes "applyVisibilityGroup r sc i m src s = Inr (x, s')"
  obtains root members plan nodes and n :: visibilityNode and s1 s2 s3 where "visibilityGroup s i = Some (root, members, plan)"
    and "mapT (groupNode sc) members s = Inr (nodes, s1)"
    and "forT (applyMember r \<lparr>s_CallerUID = p_OwnerUID (n_Plugin n), s_SpaceID = s_SpaceID sc, s_Admin = False\<rparr> nodes m) (vp_Changes plan) s1
       = Inr ((), s2)"
    and "forT (validateMember r nodes) (vp_Changes plan) s2 = Inr ((), s3)"
    and "forT (\<lambda>g. bindT (now r) (\<lambda>t. settleVisibilityReview (gm_ReviewID g) (o_OperatorID m) (o_OperatorName m) src t)) members s3
      = Inr (x, s')"
proof -
  from assms show thesis
    unfolding applyVisibilityGroup_def Let_def
    by (clarsimp simp: bindT_Inr thenT_Inr queryT_Inr someT_Inr liftT_Inr refuseT_Inr) (rule that, assumption+, simp)
qed

lemma group_settles:
  assumes run: "applyVisibilityGroup r sc i m src s = Inr (x, s')" and q: "q \<in> set (reviews s)" "rr_ID q = i" "rr_Status q = ReviewStatusPending"
  shows "\<exists>t. markSettled (o_OperatorID m) (o_OperatorName m) src t q \<in> set (reviews s')"
proof -
  from run obtain root members plan nodes and n :: visibilityNode and s1 s2' s2 where grp: "visibilityGroup s i = Some (root, members, plan)"
    and nodes: "mapT (groupNode sc) members s = Inr (nodes, s1)"
    and app: "forT (applyMember r \<lparr>s_CallerUID = p_OwnerUID (n_Plugin n), s_SpaceID = s_SpaceID sc, s_Admin = False\<rparr> nodes m) (vp_Changes plan) s1
       = Inr ((), s2')"
    and val: "forT (validateMember r nodes) (vp_Changes plan) s2' = Inr ((), s2)"
    and settle: "forT (\<lambda>g. bindT (now r) (\<lambda>t. settleVisibilityReview (gm_ReviewID g) (o_OperatorID m) (o_OperatorName m) src t)) members s2
      = Inr (x, s')"
    by (rule applyGroup_run)
  have "steps (=) (mapT (groupNode sc) members)" by (intro reading.steps_rules reads)
  then have s1: "s1 = s" using nodes by (rule readsD)
  have "steps (=) (forT (validateMember r nodes) (vp_Changes plan))" by (intro reading.steps_rules reads)
  then have s2: "s2 = s2'" using val by (rule readsD)
  have "steps (sameExcept {TPlugins, TPlacements, TAudits})
      (forT (applyMember r \<lparr>s_CallerUID = p_OwnerUID (n_Plugin n), s_SpaceID = s_SpaceID sc, s_Admin = False\<rparr> nodes m) (vp_Changes plan))"
    by (intro touch.steps_rules touches) simp_all
  from sameExcept_reviews [OF stepsD [OF this app]] have "reviews s2 = reviews s" by (simp add: s1 s2)
  moreover have "i \<in> gm_ReviewID ` set members"
    using grp q(1,2) by (force simp: visibilityGroup_def dest!: find_Some_mem)
  ultimately show ?thesis using group_marks [OF settle] q by simp
qed

lemma approveVisibility_settles:
  assumes run: "approveVisibilityReview r sc p current s = Inr (out, s')"
    and q: "q \<in> set (reviews s)" "rr_ID q = ap_ReviewID p" "rr_Status q = ReviewStatusPending"
  shows "\<exists>t. markSettled (ap_ReviewerUID p) (ap_ReviewerName p) (decisionSource (ap_DecisionSource p)) t q \<in> set (reviews s')"
proof (cases "case visibilityGroup s (ap_ReviewID p) of None \<Rightarrow> [] | Some (root, _) \<Rightarrow> root")
  case (Cons c cs)
  with run have "applyVisibilityGroup r sc (ap_ReviewID p) (reviewer p None) (decisionSource (ap_DecisionSource p)) s = Inr ((), s')"
    by (auto simp: approveVisibilityReview_def bindT_Inr thenT_Inr queryT_Inr returnT_Inr)
  from group_settles [OF this q] show ?thesis by (simp add: reviewer_def)
next
  case Nil
  with run obtain f t s2 s3 where at: "decidedAt r p s = Inr (t, s2)"
    and app: "applyAudience r sc current PluginVisibilitySpace (reviewer p None) ''visibility_approve'' t s2 = Inr ((), s3)"
    and settle: "settleVisibilityReview (ap_ReviewID p) (ap_ReviewerUID p) (ap_ReviewerName p) (decisionSource (ap_DecisionSource p)) t s3 = Inr (f, s')"
    by (clarsimp simp: approveVisibilityReview_def bindT_Inr thenT_Inr queryT_Inr someT_Inr refuseT_Inr returnT_Inr
        dest!: readsD [OF loadVisibilityRelease_reads] readsD [OF validateVisibilityGraph_reads])
  have "reviews s3 = reviews s"
    using sameExcept_reviews [OF stepsD [OF decidedAt_touches [of "{}"] at]]
      sameExcept_reviews [OF stepsD [OF applyAudience_touches [of "{TPlugins, TPlacements, TAudits}"] app]] by simp
  with settle_marks(1) [OF settle, of q] q show ?thesis by auto
qed

lemma approveManaged_settles:
  assumes run: "approveManagedReviewInTx r sc p current q' s = Inr (out, s')"
    and q: "q \<in> set (reviews s)" "rr_ID q = ap_ReviewID p" "rr_Status q = ReviewStatusPending"
  shows "\<exists>t. markSettled (ap_ReviewerUID p) (ap_ReviewerName p) (decisionSource (ap_DecisionSource p)) t q \<in> set (reviews s')"
proof -
  from run obtain t s1 vid s2 s3 where pre: "sameExcept {TBaselines} s s1"
    and snap: "snapshotVersion r t (frozenPlugin current q') (rr_Relations q') (rr_Changelog q') (ap_ReviewerUID p) (references r) s1 = Inr (vid, s2)"
    and rel: "recordRelease r (frozenPlugin current q') vid (rr_Version q') (ap_ReviewerUID p) t s2 = Inr ((), s3)"
    and fin: "finishManagedReview r sc p current q' vid t s3 = Inr (out, s')"
    by (rule approveManaged_run)
  from fin obtain s4 s5 where upd: "thenT (bindT (updatePlugins (\<lambda>x. p_ID x = p_ID current \<and> p_SpaceID x = Some (s_SpaceID sc) \<and> p_DeletedAt x = None)
        (keepDraft current t)) (\<lambda>_. ensureVisibleDefaultPlacement r t (p_ID current) (p_CategoryID current)))
      (whenT (p_ListingState current \<noteq> PluginListingStatePublished)
         (promoteFrozenEmbeddedChildren (p_ID current) (p_Type current) (rr_Relations q') (s_SpaceID sc) (p_Visibility current) t)) s3 = Inr ((), s4)"
    and settle: "settleVisibilityReview (ap_ReviewID p) (ap_ReviewerUID p) (ap_ReviewerName p) (decisionSource (ap_DecisionSource p)) t s4 = Inr ((), s5)"
    and same: "reviews s' = reviews s5"
    unfolding finishManagedReview_def by (auto simp: bindT_Inr thenT_Inr newID_Inr auditRow_inserted returnT_Inr)
  have "sameExcept {TPlugins, TPlacements} s3 s4"
    using upd by (rule stepsD [rotated], intro touch.steps_rules touches) simp_all
  then have "reviews s4 = reviews s3" by (rule sameExcept_reviews) simp
  moreover have "reviews s3 = reviews s"
    using sameExcept_reviews [OF pre] sameExcept_reviews [OF stepsD [OF snapshotVersion_touches [of "{TPlugins, TVersions, TRefEdges, TRefIndex}"] snap]]
      sameExcept_reviews [OF stepsD [OF recordRelease_touches [of "{TPlugins, TSuspensions, TReleases, TBaselines}"] rel]] by simp
  ultimately show ?thesis using settle_marks(1) [OF settle, of q] q same by auto
qed

lemma approveUnmanaged_settles:
  assumes run: "approveUnmanaged r sc p current q' s = Inr (out, s')" and ok: "queueOK s"
    and q: "find (openRequest (ap_ReviewID p) (s_SpaceID sc)) (reviews s) = Some q"
  shows "\<exists>t. markSettled (ap_ReviewerUID p) (ap_ReviewerName p) (decisionSource (ap_DecisionSource p)) t q \<in> set (reviews s')"
    and "requestsKept s s'" and "queueOK s'"
proof -
  from run obtain t s1 frozen s2 s3 s4 edges vid s5 s6 where s1: "sameExcept {} s s1" and app: "applyFrozen r sc current q' t s1 = Inr ((), s2)"
    and pl: "ensureVisibleDefaultPlacement r t (rr_PluginID q') (p_CategoryID current) s2 = Inr ((), s3)"
    and mid: "bindT (syncRelations r t (rr_PluginID q') (p_OwnerUID current) frozen False) (\<lambda>_.
       whenT (\<not> orgListed current) (promoteEmbeddedChildren (rr_PluginID q') (p_Type current) (s_SpaceID sc) (p_Visibility current) t)) s3
       = Inr ((), s4)"
    and snap: "snapshotVersion r t (frozenPlugin current q') edges (nonEmptyText (rr_Changelog q')) (ap_ReviewerUID p) (references r) s4 = Inr (vid, s5)"
    and settle: "settleApproval p t s5 = Inr ((), s6)" and s': "reviews s' = reviews s6"
    by (elim approveUnmanaged_run exE conjE)
  have s5: "reviews s5 = reviews s"
    using sameExcept_reviews [OF s1] sameExcept_reviews [OF stepsD [OF applyFrozen_touches [of "{TPlugins}"] app]]
      sameExcept_reviews [OF stepsD [OF ensurePlacement_touches [of "{TPlacements}"] pl]] sameExcept_reviews [OF stepsD [OF relist_touches mid]]
      sameExcept_reviews [OF stepsD [OF snapshotVersion_touches [of "{TPlugins, TVersions, TRefEdges, TRefIndex}"] snap]] by simp
  from settle obtain n where upd: "updateReviews (\<lambda>x. rr_ID x = ap_ReviewID p)
      (markSettled (ap_ReviewerUID p) (ap_ReviewerName p) (decisionSource (ap_DecisionSource p)) t) s5 = Inr (n, s6)"
    by (auto simp: settleApproval_def bindT_Inr mustAffect_Inr)
  have one: "requestsKept s5 s6" "queueOK s6" "markSettled (ap_ReviewerUID p) (ap_ReviewerName p) (decisionSource (ap_DecisionSource p)) t q \<in> set (reviews s6)"
    by (rule settle_one [OF _ _ _ _ upd]; use ok q s5 in \<open>simp add: queueOK_def\<close>)+
  show "\<exists>t. markSettled (ap_ReviewerUID p) (ap_ReviewerName p) (decisionSource (ap_DecisionSource p)) t q \<in> set (reviews s')"
    using one(3) s' by auto
  show "requestsKept s s'" by (rule requestsKept_cong [OF one(1)]) (simp_all add: s5 s')
  show "queueOK s'" using one(2) s' by (simp add: queueOK_def)
qed

lemmas other_requests =
  touches_requestsKept [OF decidedAt_touches [of "{}"], simplified] touches_requestsKept [OF newID_touches [of "{}"], simplified]
  touches_requestsKept [OF updatePlugins_touches [of "{TPlugins}"], simplified]
  touches_requestsKept [OF ensurePlacement_touches [of "{TPlacements}"], simplified]
  touches_requestsKept [OF insertAudit_touches [of "{TAudits}"], simplified]
  touches_requestsKept [OF promoteFrozen_touches [of "{TPlugins}"], simplified]
  touches_requestsKept [OF reads_touches [OF lockReferences_reads, of "{}"], simplified]
  touches_requestsKept [OF approveConnectorRevisions_touches [of "{TBaselines}"], simplified]
  touches_requestsKept [OF snapshotVersion_touches [of "{TPlugins, TVersions, TRefEdges, TRefIndex}"], simplified]
  touches_requestsKept [OF recordRelease_touches [of "{TPlugins, TSuspensions, TReleases, TBaselines}"], simplified]

lemmas other_keepsQueue =
  touches_keepsQueue [OF decidedAt_touches [of "{}"], simplified] touches_keepsQueue [OF newID_touches [of "{}"], simplified]
  touches_keepsQueue [OF updatePlugins_touches [of "{TPlugins}"], simplified]
  touches_keepsQueue [OF ensurePlacement_touches [of "{TPlacements}"], simplified]
  touches_keepsQueue [OF insertAudit_touches [of "{TAudits}"], simplified]
  touches_keepsQueue [OF promoteFrozen_touches [of "{TPlugins}"], simplified]
  touches_keepsQueue [OF reads_touches [OF lockReferences_reads, of "{}"], simplified]
  touches_keepsQueue [OF approveConnectorRevisions_touches [of "{TBaselines}"], simplified]
  touches_keepsQueue [OF snapshotVersion_touches [of "{TPlugins, TVersions, TRefEdges, TRefIndex}"], simplified]
  touches_keepsQueue [OF recordRelease_touches [of "{TPlugins, TSuspensions, TReleases, TBaselines}"], simplified]

lemma approveManaged_requests:
  "steps requestsKept (approveManagedReviewInTx r sc p c q)" "steps keepsQueue (approveManagedReviewInTx r sc p c q)"
  unfolding approveManagedReviewInTx_def finishManagedReview_def
  by (intro queue.steps_rules queueInv.steps_rules requests other_requests other_keepsQueue)+

lemma ApproveReview_decides:
  assumes run: "ApproveReview r sc p s = Inr (out, s')" and ok: "queueOK s"
  shows "\<exists>q t. q \<in> set (reviews s) \<and> openRequest (ap_ReviewID p) (s_SpaceID sc) q \<and>
    markSettled (ap_ReviewerUID p) (ap_ReviewerName p) (decisionSource (ap_DecisionSource p)) t q \<in> set (reviews s') \<and>
    requestsKept s s' \<and> queueOK s'"
proof -
  let ?marked = "\<lambda>q. \<exists>t. markSettled (ap_ReviewerUID p) (ap_ReviewerName p) (decisionSource (ap_DecisionSource p)) t q \<in> set (reviews s')"
  from run obtain s1 q current where s1: "sameExcept {TReceipts} s s1"
    and q: "find (openRequest (ap_ReviewID p) (s_SpaceID sc)) (reviews s) = Some q"
    and rest: "(if rr_Kind q = ReviewKindVisibility then
       thenT (refuseT (\<not> versionManagement r) ErrConflict) (approveVisibilityReview r sc p current)
     else if versionManagement r \<and> versioned current then approveManagedReviewInTx r sc p current q
     else approveUnmanaged r sc p current q) s1 = Inr (out, s')"
    by (rule ApproveReview_run)
  have r1: "reviews s1 = reviews s" using s1 by (rule sameExcept_reviews) simp
  have ok1: "queueOK s1" and q1: "find (openRequest (ap_ReviewID p) (s_SpaceID sc)) (reviews s1) = Some q"
    using ok q r1 by (simp_all add: queueOK_def)
  have mem: "q \<in> set (reviews s1)" "rr_ID q = ap_ReviewID p" "rr_Status q = ReviewStatusPending" "openRequest (ap_ReviewID p) (s_SpaceID sc) q"
    using find_Some_mem [OF q1] by (simp_all add: openRequest_def pendingReview_def)
  have "?marked q \<and> requestsKept s1 s' \<and> queueOK s'"
  proof (cases "rr_Kind q = ReviewKindVisibility")
    case True
    then have vis: "approveVisibilityReview r sc p current s1 = Inr (out, s')" using rest by (simp add: thenT_Inr refuseT_Inr)
    from stepsD [OF approveVisibility_audience vis] approveVisibility_settles [OF vis mem(1-3)] ok1
    show ?thesis by (simp add: audienceStep_def keepsQueue_def)
  next
    case False
    show ?thesis
    proof (cases "versionManagement r \<and> versioned current")
      case True
      then have man: "approveManagedReviewInTx r sc p current q s1 = Inr (out, s')" using rest False by simp
      from stepsD [OF approveManaged_requests(1) man] stepsD [OF approveManaged_requests(2) man] approveManaged_settles [OF man mem(1-3)] ok1
      show ?thesis by (simp add: keepsQueue_def)
    next
      case unmanaged: False
      then have "approveUnmanaged r sc p current q s1 = Inr (out, s')" using rest False by (simp only: if_False)
      from approveUnmanaged_settles [OF this ok1 q1] show ?thesis by blast
    qed
  qed
  then have "?marked q" "requestsKept s s'" "queueOK s'" by (auto intro: requestsKept_cong simp: r1)
  with mem show ?thesis unfolding r1 by blast
qed



section \<open>The children of a container that was private\<close>

text \<open>The first listing stamps the Space audience on the container itself, but hands its embedded
  children the audience the row had before the update: a private container becomes readable
  by the Space while its bundled skill stays private.\<close>

definition privateContainer :: Store where
  "privateContainer = emptyStore\<lparr>
     plugins := [(samplePlugin ''e'' PluginTypeExpert ''u1'')\<lparr>p_Visibility := PluginVisibilityPrivate,
                    p_ListingState := PluginListingStateDraft\<rparr>,
                 (samplePlugin ''k'' PluginTypeSkill ''u1'')\<lparr>p_IsEmbedded := True, p_Visibility := PluginVisibilityPrivate,
                    p_ListingState := PluginListingStateDraft\<rparr>],
     relations := [sampleEdge ''e'' ''k'' ''expert_skill''],
     reviews := [(sampleRequest ''q1'' ''e'')\<lparr>rr_Version := ''2.0.0'', rr_Manifest := Some (JObj [(''plugin_name'', JStr ''E'')]),
        rr_Relations := [sampleEdge ''e'' ''k'' ''expert_skill'']\<rparr>]\<rparr>"

lemma private_container_children_stay_private:
  "case ApproveReview sampleRepo sampleOwner sampleApprove privateContainer of
     Inl _ \<Rightarrow> False
   | Inr (_, s') \<Rightarrow> map (\<lambda>x. (p_ID x, p_Visibility x, p_ListingState x)) (plugins s') =
       [(''e'', PluginVisibilitySpace, PluginListingStatePublished), (''k'', PluginVisibilityPrivate, PluginListingStatePublished)]"
  by code_simp

end
