(* ===== verification/Writes.thy ===== *)
theory Writes
  imports Approval
begin

text \<open>
  The save transactions of \<open>write.go\<close>: creating a plugin or a container graph, rebuilding a
  container in place, updating, rating and deleting, with the guards that are re-derived from the
  locked row.

  A \<open>Mutation\<close> carries the submitted row, its edges and placements and the flags of the caller.
  \<open>insertRelations\<close> and \<open>syncRelations\<close> assign edge ids in the caller's slice; the model passes the
  slice with the assigned ids on. Dereferencing a missing label is \<open>NilDereference\<close>, a panic in
  the code.
\<close>

record Mutation =
  m_ExpectedDraftRevision :: "string option"
  m_RetainExistingReferences :: bool
  m_ExpectedCurrentVersionID :: string
  m_Plugin :: Plugin
  m_Relations :: "PluginRelation list"
  m_Placements :: "PluginPlacement list"
  m_Operator :: Operator
  m_SnapshotVersion :: bool
  m_Changelog :: "string option"
  m_ResetListingToDraft :: bool
  m_RefusePendingReview :: bool
  m_EnforceListingGate :: bool
  m_EnforceForwardOnlyVersion :: bool

text \<open>The operator id, by which rows are attributed.\<close>

abbreviation m_OperatorID :: "Mutation \<Rightarrow> string" where
  "m_OperatorID m \<equiv> o_OperatorID (m_Operator m)"

section \<open>Creating\<close>

text \<open>Tenant writes are pinned to the caller's identity and Space.\<close>

definition pinIdentity :: "Scope \<Rightarrow> Plugin \<Rightarrow> Plugin" where
  "pinIdentity sc p = (if s_Admin sc then p else p\<lparr>p_OwnerUID := s_CallerUID sc, p_SpaceID := Some (s_SpaceID sc)\<rparr>)"

definition snapshotIf :: "Repo \<Rightarrow> time \<Rightarrow> Mutation \<Rightarrow> Plugin \<Rightarrow> PluginRelation list \<Rightarrow> string option \<Rightarrow> string stx" where
  "snapshotIf r t m p rels changelog =
     (if m_SnapshotVersion m then snapshotVersion r t p rels changelog (m_OperatorID m) (references r) else returnT '''')"

definition releaseCreated :: "Repo \<Rightarrow> Scope \<Rightarrow> Mutation \<Rightarrow> Plugin \<Rightarrow> string \<Rightarrow> unit stx" where
  "releaseCreated r sc m p versionID =
     whenT (versionManagement r \<and> s_Admin sc \<and> p_ListingState p = PluginListingStatePublished \<and> versionID \<noteq> '''')
       (bindT (now r) (\<lambda>t.
        bindT (someT NilDereference (p_CurrentVersion p)) (\<lambda>label. recordRelease r p versionID label (m_OperatorID m) t)))"

definition auditCreate :: "Repo \<Rightarrow> time \<Rightarrow> Mutation \<Rightarrow> Plugin \<Rightarrow> unit stx" where
  "auditCreate r t m p = bindT (newID r) (\<lambda>i. insertAudit i t p ''create'' (m_Operator m) '''' (p_PluginHash p))"

definition createdSync :: "PluginRelation list \<Rightarrow> string \<Rightarrow> RelationSync" where
  "createdSync rels versionID = \<lparr>sy_Created = map r_ID rels, sy_Updated = [], sy_Deleted = [], sy_Relations = rels,
     sy_NewVersionID = versionID, sy_DraftRevision = ''''\<rparr>"

definition Create :: "Repo \<Rightarrow> Scope \<Rightarrow> Mutation \<Rightarrow> RelationSync stx" where
  "Create r sc m =
     bindT (now r) (\<lambda>t.
     bindT (if p_ID (m_Plugin m) = '''' then newID r else returnT (p_ID (m_Plugin m))) (\<lambda>i.
     let p = (pinIdentity sc (m_Plugin m))\<lparr>p_ID := i\<rparr> in
     thenT (lockPluginCategory (p_CategoryID p) (p_Type p))
    (thenT (lockReferences r sc p (m_Relations m) [])
    (thenT (insertPlugin r t p)
    (bindT (insertRelations r t (p_ID p) (m_OperatorID m) (m_Relations m)) (\<lambda>rels.
     thenT (insertPlacements r t (p_ID p) (m_Placements m))
    (bindT (snapshotIf r t m p rels (m_Changelog m)) (\<lambda>versionID.
     thenT (releaseCreated r sc m p versionID)
    (thenT (auditCreate r t m p)
       (returnT (createdSync rels versionID)))))))))))"

text \<open>Phase 1 of a graph write: every row, with the ids it may not repeat.\<close>

definition insertNode :: "Repo \<Rightarrow> Scope \<Rightarrow> time \<Rightarrow> string list \<Rightarrow> Mutation \<Rightarrow> Mutation list \<Rightarrow> Mutation list stx" where
  "insertNode r sc t taken m done =
     (let p = pinIdentity sc (m_Plugin m) in
      thenT (refuseT (p_ID p = '''') ErrInvalidRelation)
     (thenT (refuseT (p_ID p \<in> set (taken @ map (\<lambda>x. p_ID (m_Plugin x)) done)) ErrConflict)
     (thenT (lockPluginCategory (p_CategoryID p) (p_Type p))
     (thenT (insertPlugin r t p)
        (returnT (done @ [m\<lparr>m_Plugin := p\<rparr>]))))))"

definition insertNodes :: "Repo \<Rightarrow> Scope \<Rightarrow> time \<Rightarrow> string list \<Rightarrow> Mutation list \<Rightarrow> Mutation list stx" where
  "insertNodes r sc t taken nodes = foldT (insertNode r sc t taken) nodes []"

text \<open>Phase 2: the edges of a node, whose targets may be in the graph.\<close>

definition wireNode :: "Repo \<Rightarrow> Scope \<Rightarrow> time \<Rightarrow> string list \<Rightarrow> bool \<Rightarrow> Mutation \<Rightarrow> Mutation stx" where
  "wireNode r sc t inGraph placed m =
     thenT (lockReferences r sc (m_Plugin m) (m_Relations m) inGraph)
    (bindT (insertRelations r t (p_ID (m_Plugin m)) (m_OperatorID m) (m_Relations m)) (\<lambda>rels.
     thenT (whenT placed (insertPlacements r t (p_ID (m_Plugin m)) (m_Placements m)))
       (returnT (m\<lparr>m_Relations := rels\<rparr>))))"

definition graphIDs :: "Mutation list \<Rightarrow> string list" where
  "graphIDs nodes = map (\<lambda>m. p_ID (m_Plugin m)) nodes"

definition CreateGraph :: "Repo \<Rightarrow> Scope \<Rightarrow> Mutation list \<Rightarrow> RelationSync list stx" where
  "CreateGraph r sc nodes0 =
     thenT (refuseT (nodes0 = []) ErrInvalidRelation)
    (bindT (now r) (\<lambda>t.
     bindT (insertNodes r sc t [] nodes0) (\<lambda>nodes1.
     bindT (mapT (wireNode r sc t (graphIDs nodes1) True) nodes1) (\<lambda>nodes.
     bindT (mapT (\<lambda>m. snapshotIf r t m (m_Plugin m) (m_Relations m) (m_Changelog m)) nodes) (\<lambda>versionIDs.
     thenT (forT (\<lambda>(m, versionID). releaseCreated r sc m (m_Plugin m) versionID) (zip nodes versionIDs))
    (thenT (forT (\<lambda>m. auditCreate r t m (m_Plugin m)) nodes)
       (returnT (map (\<lambda>(m, versionID). createdSync (m_Relations m) versionID) (zip nodes versionIDs)))))))))"

section \<open>Content of a row\<close>

text \<open>The columns an in-place save writes, and the rows it may write.\<close>

definition writeContent :: "Plugin \<Rightarrow> string option \<Rightarrow> string \<Rightarrow> time \<Rightarrow> Plugin \<Rightarrow> Plugin" where
  "writeContent p nameKey nameScope t q =
     q\<lparr>p_Name := p_Name p, p_Type := p_Type p, p_CategoryID := p_CategoryID p, p_Tags := p_Tags p, p_Publisher := p_Publisher p,
       p_Visibility := p_Visibility p, p_Icon := p_Icon p, p_ToolCount := p_ToolCount p, p_Manifest := p_Manifest p,
       p_Package := p_Package p, p_AttachmentKeys := p_AttachmentKeys p, p_ManifestHash := p_ManifestHash p,
       p_PluginHash := p_PluginHash p, p_Status := p_Status p, p_UpdatedAt := t, p_NameKey := nameKey, p_NameScope := nameScope\<rparr>"

definition writableRow :: "Scope \<Rightarrow> string \<Rightarrow> Plugin \<Rightarrow> bool" where
  "writableRow sc pid q \<longleftrightarrow> p_ID q = pid \<and>
     (s_Admin sc \<or> p_OwnerUID q = s_CallerUID sc \<and> p_SpaceID q = Some (s_SpaceID sc)) \<and> p_DeletedAt q = None"

definition saveRow :: "Repo \<Rightarrow> Scope \<Rightarrow> time \<Rightarrow> Plugin \<Rightarrow> Plugin \<Rightarrow> bool \<Rightarrow> unit stx" where
  "saveRow r sc t prior p resetListing =
     bindT (liftT (pluginNameColumns r (p_Name p) (p_Type p) (p_SpaceID p))) (\<lambda>(nameKey, nameScope).
     thenT (case nameKey of
              None \<Rightarrow> returnT ()
            | Some k \<Rightarrow> whenT (\<not> p_IsEmbedded prior) (rejectPluginNameCollision r p k nameScope))
    (thenT (bindT (updatePlugins (writableRow sc (p_ID p))
              (\<lambda>q. (writeContent p nameKey nameScope t q)\<lparr>p_ListingState :=
                  (if resetListing then PluginListingStateDraft else p_ListingState q)\<rparr>)) (\<lambda>_. returnT ()))
       (syncDefaultPlacement r t (p_ID p) (p_CategoryID p))))"

section \<open>Removing a row\<close>

definition markDeleted :: "time \<Rightarrow> Plugin \<Rightarrow> Plugin" where
  "markDeleted t q = q\<lparr>p_DeletedAt := Some t, p_UpdatedAt := t, p_ListingState := PluginListingStateDraft\<rparr>"

text \<open>The statements every delete runs on one row: the row, its outgoing edges, its open request.\<close>

definition softDelete :: "Scope \<Rightarrow> time \<Rightarrow> string \<Rightarrow> Operator \<Rightarrow> unit stx" where
  "softDelete sc t pid m =
     bindT (updatePlugins (writableRow sc pid) (markDeleted t)) (\<lambda>n.
     thenT (mustAffect n)
    (thenT (updateRelations (\<lambda>e. r_SourcePluginID e = pid \<and> r_DeletedAt e = None) (markEdgeDeleted t))
       (cancelPendingReviewFor t pid (o_OperatorID m) (o_OperatorName m) reasonCanceledOnDelete)))"

text \<open>A plugin in an open visibility group, or one a published version or a live plugin uses, stays.\<close>

definition deleteGuards :: "Repo \<Rightarrow> string \<Rightarrow> Plugin \<Rightarrow> unit stx" where
  "deleteGuards r pid prior =
     thenT (whenT (versionManagement r) (rejectPendingVisibilityMutation (p_ID prior)))
    (thenT (rejectPublishedIncomingRelations r (p_ID prior))
       (rejectLiveIncomingRelations pid))"

definition auditDelete :: "Repo \<Rightarrow> time \<Rightarrow> Operator \<Rightarrow> Plugin \<Rightarrow> unit stx" where
  "auditDelete r t m prior = bindT (newID r) (\<lambda>i. insertAudit i t prior ''delete'' m (p_PluginHash prior) '''')"

definition softDeleteRebuiltChild :: "Repo \<Rightarrow> Scope \<Rightarrow> time \<Rightarrow> Operator \<Rightarrow> string \<Rightarrow> unit stx" where
  "softDeleteRebuiltChild r sc t m pid =
     bindT (queryT (\<lambda>s. find (ownedRow sc pid) (plugins s))) (\<lambda>row.
       case row of
         None \<Rightarrow> returnT ()
       | Some prior \<Rightarrow> thenT (softDelete sc t pid m) (auditDelete r t m prior))"

definition Delete :: "Repo \<Rightarrow> Scope \<Rightarrow> string \<Rightarrow> Operator \<Rightarrow> unit stx" where
  "Delete r sc pid m =
     bindT (getOwnedForUpdate sc pid) (\<lambda>prior.
     thenT (deleteGuards r pid prior)
    (bindT (now r) (\<lambda>t. thenT (softDelete sc t pid m) (auditDelete r t m prior))))"

definition DeleteGraph :: "Repo \<Rightarrow> Scope \<Rightarrow> string \<Rightarrow> Operator \<Rightarrow> unit stx" where
  "DeleteGraph r sc topID m =
     bindT (getOwnedForUpdate sc topID) (\<lambda>prior.
     thenT (deleteGuards r topID prior)
    (bindT (queryT (\<lambda>s. collectEmbeddedChildren s topID (p_Type prior))) (\<lambda>childIDs.
     bindT (now r) (\<lambda>t.
     thenT (softDelete sc t topID m)
    (thenT (auditDelete r t m prior)
       (forT (softDeleteRebuiltChild r sc t m) childIDs))))))"

section \<open>Rebuilding a container\<close>

text \<open>A new child takes audience, listing state, Space and owner of the locked top.\<close>

definition stampChild :: "Plugin \<Rightarrow> Mutation \<Rightarrow> Mutation" where
  "stampChild prior m = m\<lparr>m_Plugin := (m_Plugin m)\<lparr>p_Visibility := NormalizeLegacyVisibility (p_Visibility prior),
     p_ListingState := p_ListingState prior, p_SpaceID := p_SpaceID prior, p_OwnerUID := p_OwnerUID prior\<rparr>\<rparr>"

definition stampTop :: "Plugin \<Rightarrow> Plugin \<Rightarrow> Plugin" where
  "stampTop prior p = p\<lparr>p_Visibility := NormalizeLegacyVisibility (p_Visibility prior), p_SpaceID := p_SpaceID prior,
     p_OwnerUID := p_OwnerUID prior\<rparr>"

text \<open>An omitted note keeps the note of the editable draft.\<close>

definition draftNote :: "Plugin \<Rightarrow> Mutation \<Rightarrow> string option stx" where
  "draftNote prior m =
     (if m_SnapshotVersion m \<and> m_Changelog m = None then editableDraftChangelog prior else returnT (m_Changelog m))"

definition auditUpdate :: "Repo \<Rightarrow> time \<Rightarrow> Mutation \<Rightarrow> Plugin \<Rightarrow> Plugin \<Rightarrow> unit stx" where
  "auditUpdate r t m prior p =
     bindT (newID r) (\<lambda>i. insertAudit i t p ''update'' (m_Operator m) (p_PluginHash prior) (p_PluginHash p))"

definition rebuildTop ::
  "Repo \<Rightarrow> Scope \<Rightarrow> time \<Rightarrow> Plugin \<Rightarrow> Mutation \<Rightarrow> Plugin \<Rightarrow> Mutation list \<Rightarrow> string list \<Rightarrow> RelationSync stx" where
  "rebuildTop r sc t prior root p kids oldChildIDs =
     thenT (lockPluginCategory (p_CategoryID p) (p_Type p))
    (thenT (saveRow r sc t prior p False)
    (thenT (lockReferences r sc p (m_Relations root) (p_ID p # graphIDs kids))
    (bindT (syncRelations r t (p_ID p) (m_OperatorID root) (m_Relations root) (references r)) (\<lambda>sync.
     thenT (forT (softDeleteRebuiltChild r sc t (m_Operator root)) oldChildIDs)
    (bindT (draftNote prior root) (\<lambda>note.
     bindT (snapshotIf r t root p (sy_Relations sync) note) (\<lambda>versionID.
     thenT (auditUpdate r t root prior p)
    (thenT (forT (\<lambda>m. auditCreate r t m (m_Plugin m)) kids)
       (returnT (sync\<lparr>sy_NewVersionID := versionID,
          sy_DraftRevision := savedDraftRevision r prior p versionID False (m_SnapshotVersion root)\<rparr>))))))))))"

definition RebuildGraph :: "Repo \<Rightarrow> Scope \<Rightarrow> Mutation \<Rightarrow> Mutation list \<Rightarrow> RelationSync stx" where
  "RebuildGraph r sc root newChildren =
     bindT (now r) (\<lambda>t.
     bindT (getOwnedForUpdate sc (p_ID (m_Plugin root))) (\<lambda>prior.
     thenT (refuseT (versionManagement r \<and> versioned prior \<and> p_ListingState prior = PluginListingStatePublished) ErrConflict)
    (thenT (refuseT (p_Type (m_Plugin root) \<noteq> p_Type prior) ErrInvalidRelation)
    (bindT (queryT (\<lambda>s. collectEmbeddedChildren s (p_ID (m_Plugin root)) (p_Type prior))) (\<lambda>oldChildIDs.
     let p = stampTop prior (m_Plugin root) in
     bindT (insertNodes r sc t [p_ID p] (map (stampChild prior) newChildren)) (\<lambda>kids1.
     bindT (mapT (wireNode r sc t (p_ID p # graphIDs kids1) False) kids1) (\<lambda>kids.
       rebuildTop r sc t prior root p kids oldChildIDs)))))))"

section \<open>Updating\<close>

text \<open>The guards on the locked row; the result is whether the save un-lists the row.\<close>

definition updateGuards :: "Repo \<Rightarrow> Plugin \<Rightarrow> Mutation \<Rightarrow> bool stx" where
  "updateGuards r prior m =
     (let published = p_ListingState prior = PluginListingStatePublished;
          changed = p_Visibility (m_Plugin m) \<noteq> p_Visibility prior in
     thenT (whenT (versionManagement r) (rejectPendingVisibilityMutation (p_ID prior)))
    (thenT (refuseT (case m_ExpectedDraftRevision m of None \<Rightarrow> False | Some x \<Rightarrow> x \<noteq> PluginDraftRevision r prior) ErrConflict)
    (thenT (refuseT (m_ExpectedCurrentVersionID m \<noteq> '''' \<and> p_CurrentVersionID prior \<noteq> Some (m_ExpectedCurrentVersionID m)) ErrConflict)
    (thenT (refuseT (versionManagement r \<and> versioned prior \<and> published \<and> p_PublishedVersionID prior = None)
              ErrVersionBaselineUnavailable)
    (thenT (whenT (references r \<and> changed) (rejectPublishedMutation r prior))
    (thenT (refuseT (versionManagement r \<and> versioned prior \<and> published \<and> changed) ErrConflict)
    (bindT (queryT (\<lambda>s. pendingFor s (p_ID (m_Plugin m)))) (\<lambda>pending.
     thenT (refuseT (m_RefusePendingReview m \<and> pending) ErrReviewPending)
    (thenT (refuseT (m_EnforceListingGate m \<and> published \<and> p_Visibility prior = PluginVisibilitySpace \<and>
                     \<not> (versionManagement r \<and> versioned prior)) ErrListedRequiresReview)
    (thenT (refuseT (m_EnforceForwardOnlyVersion m \<and>
                     (case (p_CurrentVersion prior, p_CurrentVersion (m_Plugin m)) of
                        (Some cur, Some new) \<Rightarrow> \<not> VersionNotRegressed cur new | _ \<Rightarrow> False)) ErrVersionRegressed)
       (returnT (if m_EnforceListingGate m then published \<and> changed else m_ResetListingToDraft m))))))))))))"

text \<open>Targets of the submitted edges: all of them, or those that changed where existing ones may be kept.\<close>

definition lockSaved :: "Repo \<Rightarrow> Scope \<Rightarrow> Plugin \<Rightarrow> Mutation \<Rightarrow> unit stx" where
  "lockSaved r sc prior m =
     bindT (queryT (\<lambda>s. liveRelationTargetSet s (p_ID (m_Plugin m)))) (\<lambda>owned.
     if m_RetainExistingReferences m \<and> versionManagement r \<and> p_Visibility prior = p_Visibility (m_Plugin m) then
       bindT (retainedDraftReferences (m_Plugin m) (m_Relations m) (references r)) (\<lambda>changed.
         if references r then validateChangedDraftReferences (m_Plugin m) changed
         else lockRelationTargets sc (m_Plugin m) changed owned)
     else lockReferences r sc (m_Plugin m) (m_Relations m) owned)"

text \<open>Whether the save changes anything a version row records.\<close>

definition saveChanges :: "Plugin \<Rightarrow> Plugin \<Rightarrow> RelationSync \<Rightarrow> bool \<Rightarrow> bool" where
  "saveChanges prior p sync noteChanged \<longleftrightarrow>
     \<not> (p_PluginHash p = p_PluginHash prior \<and> p_ManifestHash p = p_ManifestHash prior) \<or>
     p_CurrentVersion p \<noteq> p_CurrentVersion prior \<or>
     sy_Created sync \<noteq> [] \<or> sy_Updated sync \<noteq> [] \<or> sy_Deleted sync \<noteq> [] \<or>
     \<not> sameAttachmentKeys (p_AttachmentKeys p) (p_AttachmentKeys prior) \<or> noteChanged"

text \<open>The note of the new version, and whether it differs from the draft's.\<close>

definition savedNote :: "Plugin \<Rightarrow> Mutation \<Rightarrow> (string option \<times> bool) stx" where
  "savedNote prior m =
     (if m_SnapshotVersion m \<or> m_Changelog m \<noteq> None then
        bindT (editableDraftChangelog prior) (\<lambda>previous.
          returnT (case m_Changelog m of
            Some x \<Rightarrow> (Some x, (case previous of None \<Rightarrow> '''' | Some y \<Rightarrow> y) \<noteq> x)
          | None \<Rightarrow> (previous, False)))
      else returnT (m_Changelog m, False))"

text \<open>An administrator's save of a listed system row is a publication.\<close>

definition releaseSaved :: "Repo \<Rightarrow> Scope \<Rightarrow> Plugin \<Rightarrow> Mutation \<Rightarrow> bool \<Rightarrow> string \<Rightarrow> unit stx" where
  "releaseSaved r sc prior m resetListing versionID =
     whenT (versionManagement r \<and> s_Admin sc \<and> versionID \<noteq> '''' \<and> (p_SpaceID prior = None \<or> p_SpaceID prior = Some '''') \<and>
            \<not> resetListing \<and> p_ListingState prior = PluginListingStatePublished \<and> versioned (m_Plugin m))
       (bindT (now r) (\<lambda>t.
        recordRelease r (m_Plugin m) versionID (declaredLabel (p_CurrentVersion (m_Plugin m))) (m_OperatorID m) t))"

text \<open>After the row: edges, the version and its release, the audit row.\<close>

definition finishSave :: "Repo \<Rightarrow> Scope \<Rightarrow> time \<Rightarrow> Plugin \<Rightarrow> Mutation \<Rightarrow> bool \<Rightarrow> RelationSync stx" where
  "finishSave r sc t prior m resetListing =
     (let p = m_Plugin m in
     bindT (syncRelations r t (p_ID p) (m_OperatorID m) (m_Relations m) (references r)) (\<lambda>sync.
     bindT (savedNote prior m) (\<lambda>(note, noteChanged).
     bindT (if saveChanges prior p sync noteChanged then snapshotIf r t m p (sy_Relations sync) note else returnT '''') (\<lambda>versionID.
     thenT (releaseSaved r sc prior m resetListing versionID)
    (thenT (auditUpdate r t m prior p)
       (returnT (sync\<lparr>sy_NewVersionID := versionID,
          sy_DraftRevision := savedDraftRevision r prior p versionID resetListing (m_SnapshotVersion m)\<rparr>)))))))"

definition updateInTx :: "Repo \<Rightarrow> Scope \<Rightarrow> Mutation \<Rightarrow> RelationSync stx" where
  "updateInTx r sc m =
     bindT (getOwnedForUpdate sc (p_ID (m_Plugin m))) (\<lambda>prior.
     bindT (updateGuards r prior m) (\<lambda>resetListing.
     bindT (now r) (\<lambda>t.
     thenT (refuseT (p_Type (m_Plugin m) \<noteq> p_Type prior) ErrInvalidRelation)
    (thenT (lockPluginCategory (p_CategoryID (m_Plugin m)) (p_Type (m_Plugin m)))
    (thenT (lockSaved r sc prior m)
    (thenT (saveRow r sc t prior (m_Plugin m) resetListing)
       (finishSave r sc t prior m resetListing)))))))"

definition Update :: "Repo \<Rightarrow> Scope \<Rightarrow> Mutation \<Rightarrow> RelationSync stx" where
  "Update r sc m = updateInTx r sc m"

record RatingParams =
  rt_PluginID :: string
  rt_Rating :: "int option"
  rt_Operator :: Operator

definition ratingAuditValue :: "int option \<Rightarrow> string" where
  "ratingAuditValue x = (case x of None \<Rightarrow> ''null'' | Some i \<Rightarrow> itoa i)"

definition UpdateRating :: "Repo \<Rightarrow> Scope \<Rightarrow> RatingParams \<Rightarrow> Plugin stx" where
  "UpdateRating r sc p =
     bindT (getOwnedForUpdate sc (rt_PluginID p)) (\<lambda>current.
     bindT (now r) (\<lambda>t.
     thenT (bindT (updatePlugins (\<lambda>q. p_ID q = rt_PluginID p \<and> p_DeletedAt q = None)
              (\<lambda>q. q\<lparr>p_Rating := rt_Rating p, p_UpdatedAt := t\<rparr>)) (\<lambda>_. returnT ()))
    (let after = current\<lparr>p_Rating := rt_Rating p, p_UpdatedAt := t\<rparr> in
     bindT (newID r) (\<lambda>i.
     thenT (insertAudit i t after ''rate''
              ((rt_Operator p)\<lparr>o_Remark := Some (''rating:'' @ ratingAuditValue (p_Rating current) @ ''->'' @ ratingAuditValue (rt_Rating p))\<rparr>)
              (p_PluginHash current) (p_PluginHash current))
       (returnT after)))))"

section \<open>What the saves write\<close>

lemma saveRow_touches [touches]: "TPlugins \<in> X \<Longrightarrow> TPlacements \<in> X \<Longrightarrow> steps (sameExcept X) (saveRow r sc t prior p b)"
  unfolding saveRow_def by (intro touch.steps_rules touches)

lemma snapshotIf_touches [touches]:
  assumes "TPlugins \<in> X" "TVersions \<in> X" "TRefEdges \<in> X" "TRefIndex \<in> X"
  shows "steps (sameExcept X) (snapshotIf r t m p rels cl)"
  unfolding snapshotIf_def by (intro touch.steps_rules touches assms)

lemma audit_touches [touches]:
  "TAudits \<in> X \<Longrightarrow> steps (sameExcept X) (auditUpdate r t m prior p)" "TAudits \<in> X \<Longrightarrow> steps (sameExcept X) (auditCreate r t m p)"
  unfolding auditUpdate_def auditCreate_def by (intro touch.steps_rules touches; assumption)+

lemma softDelete_touches [touches]:
  "TPlugins \<in> X \<Longrightarrow> TRelations \<in> X \<Longrightarrow> TReviews \<in> X \<Longrightarrow> steps (sameExcept X) (softDelete sc t pid m)"
  unfolding softDelete_def by (intro touch.steps_rules touches)

lemma auditDelete_touches [touches]: "TAudits \<in> X \<Longrightarrow> steps (sameExcept X) (auditDelete r t m prior)"
  unfolding auditDelete_def by (intro touch.steps_rules touches)

lemma deleteGuards_reads [reads]: "steps (=) (deleteGuards r pid prior)"
  unfolding deleteGuards_def by (intro reading.steps_rules reads)

lemma softDeleteChild_touches [touches]:
  "TPlugins \<in> X \<Longrightarrow> TRelations \<in> X \<Longrightarrow> TReviews \<in> X \<Longrightarrow> TAudits \<in> X \<Longrightarrow> steps (sameExcept X) (softDeleteRebuiltChild r sc t m pid)"
  unfolding softDeleteRebuiltChild_def by (intro touch.steps_rules touches)

lemma update_reads [reads]:
  "steps (=) (updateGuards r prior m)" "steps (=) (lockSaved r sc prior m)" "steps (=) (savedNote prior m)" "steps (=) (draftNote prior m)"
  unfolding updateGuards_def lockSaved_def savedNote_def draftNote_def Let_def by (intro reading.steps_rules reads)+

section \<open>A tenant's save never reaches the market\<close>

text \<open>A row a transaction does not change.\<close>

definition keepsRow :: "Plugin \<Rightarrow> Store \<Rightarrow> Store \<Rightarrow> bool" where
  "keepsRow x s t \<longleftrightarrow> (x \<in> set (plugins s) \<longrightarrow> x \<in> set (plugins t))"

interpretation row: tx_frame "keepsRow x" for x
  by unfold_locales (simp_all add: keepsRow_def)

lemma touches_row: "steps (sameExcept X) m \<Longrightarrow> TPlugins \<notin> X \<Longrightarrow> steps (keepsRow x) m"
  by (erule steps_mono) (simp add: keepsRow_def sameExcept_plugins)

lemma updatePlugins_row: "\<not> c x \<Longrightarrow> steps (keepsRow x) (updatePlugins c f)"
  by (rule stepsI) (simp add: keepsRow_def updatePlugins_Inr updateWhere_keepI)

named_theorems keepsrows "statements that leave a row alone"

lemmas statement_rows' [keepsrows] =
  touches_row [OF now_touches [of "{}"], simplified] touches_row [OF newID_touches [of "{}"], simplified]
  touches_row [OF getOwnedForUpdate_touches [of "{}"], simplified]
  touches_row [OF reads_touches [OF update_reads(1), of "{}"], simplified] touches_row [OF reads_touches [OF update_reads(2), of "{}"], simplified]
  touches_row [OF reads_touches [OF update_reads(3), of "{}"], simplified]
  touches_row [OF reads_touches [OF lockPluginCategory_reads, of "{}"], simplified]
  touches_row [OF rejectPluginNameCollision_touches [of "{}"], simplified]
  touches_row [OF syncDefaultPlacement_touches [of "{TPlacements}"], simplified]
  touches_row [OF syncRelations_touches [of "{TRelations}"], simplified]
  touches_row [OF audit_touches(1) [of "{TAudits}"], simplified]

lemma saveRow_row [keepsrows]: "p_ID x \<noteq> p_ID p \<Longrightarrow> steps (keepsRow x) (saveRow r sc t prior p b)"
  unfolding saveRow_def by (intro row.steps_rules keepsrows updatePlugins_row) (simp add: writableRow_def)

lemma snapshotVersion_row [keepsrows]: "p_ID x \<noteq> p_ID p \<Longrightarrow> steps (keepsRow x) (snapshotVersion r t p rels cl who idx)"
  unfolding snapshotVersion_def
  by (intro row.steps_rules keepsrows updatePlugins_row row.steps_modify touches_row [OF writeReferenceIndex_touches [of "{TRefEdges, TRefIndex}"]])
    (simp_all add: keepsRow_def)

lemma snapshotIf_row [keepsrows]: "p_ID x \<noteq> p_ID p \<Longrightarrow> steps (keepsRow x) (snapshotIf r t m p rels cl)"
  unfolding snapshotIf_def by (intro row.steps_rules keepsrows)

text \<open>Only an administrator's save records a release.\<close>

lemma releaseSaved_tenant: "\<not> s_Admin sc \<Longrightarrow> releaseSaved r sc prior m b vid = returnT ()"
  by (simp add: releaseSaved_def whenT_def)

lemma Update_other_rows:
  assumes "\<not> s_Admin sc" and "p_ID x \<noteq> p_ID (m_Plugin m)"
  shows "steps (keepsRow x) (Update r sc m)"
  unfolding Update_def updateInTx_def finishSave_def Let_def releaseSaved_tenant [OF assms(1)]
  by (intro row.steps_rules keepsrows assms)

lemma updateGuards_run:
  assumes "updateGuards r prior m s = Inr (b, s')"
  shows "case m_ExpectedDraftRevision m of None \<Rightarrow> True | Some x \<Rightarrow> x = PluginDraftRevision r prior"
    and "m_ExpectedCurrentVersionID m \<noteq> '''' \<Longrightarrow> p_CurrentVersionID prior = Some (m_ExpectedCurrentVersionID m)"
    and "m_EnforceListingGate m \<Longrightarrow> b = (p_ListingState prior = PluginListingStatePublished \<and> p_Visibility (m_Plugin m) \<noteq> p_Visibility prior)"
    and "m_EnforceListingGate m \<Longrightarrow> orgListed prior \<Longrightarrow> versionManagement r \<and> versioned prior"
    and "m_EnforceForwardOnlyVersion m \<Longrightarrow> p_CurrentVersion prior = Some cur \<Longrightarrow> p_CurrentVersion (m_Plugin m) = Some new \<Longrightarrow>
      VersionNotRegressed cur new"
  using assms unfolding updateGuards_def Let_def orgListed_def
  by (auto simp: bindT_Inr thenT_Inr refuseT_Inr queryT_Inr returnT_Inr split: option.splits)

lemma saveRow_run:
  assumes run: "saveRow r sc t prior p b s = Inr (u, s')"
  obtains k n where "plugins s' = updateWhere (writableRow sc (p_ID p))
    (\<lambda>q. (writeContent p k n t q)\<lparr>p_ListingState := (if b then PluginListingStateDraft else p_ListingState q)\<rparr>) (plugins s)"
proof -
  have names: "t' = s" if "(case nameKey of None \<Rightarrow> returnT () | Some k \<Rightarrow> whenT b (rejectPluginNameCollision r p k n)) s = Inr (u', t')"
    for nameKey b n u' t'
    using that by (cases nameKey) (simp_all add: returnT_Inr whenT_Inr rejectPluginNameCollision_Inr split: if_splits)
  have placed: "plugins b = plugins a" if "syncDefaultPlacement r t i c a = Inr (u', b)" for a b i c u'
    by (rule sameExcept_plugins [OF stepsD [OF syncDefaultPlacement_touches [of "{TPlacements}"] that]]) simp_all
  from run show thesis
    unfolding saveRow_def
    by (clarsimp simp: bindT_Inr thenT_Inr liftT_Inr updatePlugins_Inr returnT_Inr dest!: names placed) (rule that, simp)
qed

lemma saveRow_hidden:
  assumes run: "saveRow r sc t prior p b s = Inr (u, s')" and prior: "find (ownedRow sc (p_ID p)) (plugins s) = Some prior"
    and uniq: "distinct (map p_ID (plugins s))"
    and gate: "b = (p_ListingState prior = PluginListingStatePublished \<and> p_Visibility p \<noteq> p_Visibility prior)"
  shows "noExposure s s'"
proof -
  have mem: "prior \<in> set (plugins s)" "p_ID prior = p_ID p" using find_Some_mem [OF prior] by (simp_all add: ownedRow_def)
  from run obtain k n where s': "plugins s' = updateWhere (writableRow sc (p_ID p))
    (\<lambda>q. (writeContent p k n t q)\<lparr>p_ListingState := (if b then PluginListingStateDraft else p_ListingState q)\<rparr>) (plugins s)"
    by (rule saveRow_run)
  show ?thesis
    unfolding noExposure_def s'
  proof (intro ballI impI)
    fix q assume q: "q \<in> set (updateWhere (writableRow sc (p_ID p))
      (\<lambda>q. (writeContent p k n t q)\<lparr>p_ListingState := (if b then PluginListingStateDraft else p_ListingState q)\<rparr>) (plugins s))"
      and org: "orgListed q"
    from q show "\<exists>x \<in> set (plugins s). p_ID x = p_ID q \<and> orgListed x"
    proof (cases rule: updateWhere_memE)
      case (1 y)
      then have "y = prior" using mem uniq by (auto simp: writableRow_def distinct_map inj_on_def)
      with 1 org gate have "orgListed prior" "p_ID q = p_ID prior"
        by (auto simp: orgListed_def writeContent_def split: if_splits)
      with mem show ?thesis by auto
    qed (use org in blast)
  qed
qed

lemma snapshotIf_gate: "steps noExposure (snapshotIf r t m p rels cl)"
  unfolding snapshotIf_def snapshotVersion_def
  by (intro gate.steps_rules gates plugins_gate gate.steps_modify touches_gate [OF writeReferenceIndex_touches [of "{TRefEdges, TRefIndex}"]])
    (simp_all add: noExposure_same orgListed_def)

lemma finishSave_gate:
  assumes "\<not> s_Admin sc"
  shows "steps noExposure (finishSave r sc t prior m b)"
  unfolding finishSave_def Let_def releaseSaved_tenant [OF assms]
  by (intro gate.steps_rules snapshotIf_gate touches_gate [OF syncRelations_touches [of "{TRelations}"]]
      touches_gate [OF reads_touches [OF update_reads(3), of "{}"]] touches_gate [OF audit_touches(1) [of "{TAudits}"]]) simp_all

lemma Update_run:
  assumes run: "Update r sc m s = Inr (out, s')"
  obtains prior b t s1 s2 where "find (ownedRow sc (p_ID (m_Plugin m))) (plugins s) = Some prior" and "updateGuards r prior m s = Inr (b, s)"
    and "s1 = s\<lparr>tickCount := Suc (tickCount s)\<rparr>" and "saveRow r sc t prior (m_Plugin m) b s1 = Inr ((), s2)"
    and "finishSave r sc t prior m b s2 = Inr (out, s')"
proof -
  from run show thesis
    unfolding Update_def updateInTx_def
    by (clarsimp simp: bindT_Inr thenT_Inr getOwnedForUpdate_Inr now_Inr refuseT_Inr
        dest!: readsD [OF update_reads(2)] readsD [OF lockPluginCategory_reads])
      (frule readsD [OF update_reads(1)], rule that, simp_all)
qed

lemma Update_pointers:
  assumes "\<not> s_Admin sc"
  shows "steps (keepsCol (\<lambda>x. (p_ID x, p_PublishedVersionID x))) (Update r sc m)"
  unfolding Update_def updateInTx_def finishSave_def saveRow_def snapshotIf_def Let_def releaseSaved_tenant [OF assms]
  by (intro column.steps_rules keeps touches_keeps [OF getOwnedForUpdate_touches [of "{}"]]
      touches_keeps [OF reads_touches [OF update_reads(1), of "{}"]] touches_keeps [OF reads_touches [OF update_reads(2), of "{}"]]
      touches_keeps [OF reads_touches [OF update_reads(3), of "{}"]] touches_keeps [OF reads_touches [OF lockPluginCategory_reads, of "{}"]]
      touches_keeps [OF syncDefaultPlacement_touches [of "{TPlacements}"]] touches_keeps [OF syncRelations_touches [of "{TRelations}"]]
      touches_keeps [OF audit_touches(1) [of "{TAudits}"]])
    (simp_all add: writeContent_def)

lemma Update_hidden:
  assumes run: "Update r sc m s = Inr (out, s')" and "\<not> s_Admin sc" and gate: "m_EnforceListingGate m"
    and uniq: "distinct (map p_ID (plugins s))"
  shows "noExposure s s'" and "map (\<lambda>x. (p_ID x, p_PublishedVersionID x)) (plugins s') = map (\<lambda>x. (p_ID x, p_PublishedVersionID x)) (plugins s)"
proof -
  from run obtain prior b t s1 s2 where prior: "find (ownedRow sc (p_ID (m_Plugin m))) (plugins s) = Some prior"
    and guards: "updateGuards r prior m s = Inr (b, s)" and s1: "s1 = s\<lparr>tickCount := Suc (tickCount s)\<rparr>"
    and save: "saveRow r sc t prior (m_Plugin m) b s1 = Inr ((), s2)" and fin: "finishSave r sc t prior m b s2 = Inr (out, s')"
    by (rule Update_run)
  have "noExposure s1 s2" by (rule saveRow_hidden [OF save]) (use prior uniq updateGuards_run(3) [OF guards] gate s1 in simp_all)
  moreover have "noExposure s2 s'" by (rule stepsD [OF finishSave_gate fin]) fact
  ultimately show "noExposure s s'" using noExposure_trans [of s1 s2 s'] s1 by (simp add: noExposure_def)
  have "keepsCol (\<lambda>x. (p_ID x, p_PublishedVersionID x)) s s'" by (rule stepsD [OF Update_pointers run]) fact
  then show "map (\<lambda>x. (p_ID x, p_PublishedVersionID x)) (plugins s') = map (\<lambda>x. (p_ID x, p_PublishedVersionID x)) (plugins s)"
    by (simp add: keepsCol_def)
qed

text \<open>C18: a tenant's save never reaches the market. The listing gate is decided on the locked row: no
  row becomes readable by the Space; a row the Space can read, unless versions of it are managed,
  is left exactly as it was; and no row's published version changes.\<close>

theorem Update_review_gate:
  assumes run: "Update r sc m s = Inr (out, s')" and "\<not> s_Admin sc" and gate: "m_EnforceListingGate m"
    and uniq: "distinct (map p_ID (plugins s))"
  shows "noExposure s s' \<and>
    (\<forall>x \<in> set (plugins s). orgListed x \<and> \<not> (versionManagement r \<and> versioned x) \<longrightarrow> x \<in> set (plugins s')) \<and>
    map (\<lambda>x. (p_ID x, p_PublishedVersionID x)) (plugins s') = map (\<lambda>x. (p_ID x, p_PublishedVersionID x)) (plugins s)"
proof -
  from run obtain prior b t s1 s2 where prior: "find (ownedRow sc (p_ID (m_Plugin m))) (plugins s) = Some prior"
    and guards: "updateGuards r prior m s = Inr (b, s)"
    by (rule Update_run)
  note g = updateGuards_run [OF guards]
  have "x \<in> set (plugins s')" if x: "x \<in> set (plugins s)" "orgListed x" "\<not> (versionManagement r \<and> versioned x)" for x
  proof (cases "p_ID x = p_ID (m_Plugin m)")
    case True
    then have "x = prior" using find_Some_mem [OF prior] x(1) uniq by (auto simp: ownedRow_def distinct_map inj_on_def)
    with g(4) gate x(2,3) show ?thesis by blast
  next
    case False
    with stepsD [OF Update_other_rows run] assms(2) x(1) show ?thesis by (simp add: keepsRow_def)
  qed
  with Update_hidden [OF assms] show ?thesis by blast
qed

definition sampleMutation :: "Plugin \<Rightarrow> Mutation" where
  "sampleMutation p = \<lparr>m_ExpectedDraftRevision = None, m_RetainExistingReferences = False, m_ExpectedCurrentVersionID = '''',
     m_Plugin = p, m_Relations = [], m_Placements = [], m_Operator = sampleOperator, m_SnapshotVersion = True, m_Changelog = None,
     m_ResetListingToDraft = False, m_RefusePendingReview = True, m_EnforceListingGate = True, m_EnforceForwardOnlyVersion = True\<rparr>"

definition draftPlugin :: Plugin where
  "draftPlugin = (samplePlugin ''d'' PluginTypeSkill ''u1'')\<lparr>p_Visibility := PluginVisibilityPrivate,
     p_ListingState := PluginListingStatePublished, p_Package := Some JNull\<rparr>"

definition savedStore :: Store where
  "savedStore = emptyStore\<lparr>plugins := [samplePlugin ''k'' PluginTypeSkill ''u2'', draftPlugin]\<rparr>"

theorem Update_review_gate_witness:
  "\<exists>out s'. Update sampleRepo sampleOwner (sampleMutation (draftPlugin\<lparr>p_Visibility := PluginVisibilitySpace, p_PluginHash := ''h2''\<rparr>)) savedStore = Inr (out, s') \<and>
     noExposure savedStore s' \<and> length (versions s') = 1"
proof -
  let ?m = "sampleMutation (draftPlugin\<lparr>p_Visibility := PluginVisibilitySpace, p_PluginHash := ''h2''\<rparr>)"
  let ?run = "Update sampleRepo sampleOwner ?m savedStore"
  have ok: "case ?run of Inl _ \<Rightarrow> False | Inr (_, t) \<Rightarrow> length (versions t) = 1" by code_simp
  then obtain out s' where run: "?run = Inr (out, s')" by (cases ?run) auto
  have "\<not> s_Admin sampleOwner" "m_EnforceListingGate ?m" "distinct (map p_ID (plugins savedStore))" by code_simp+
  with ok run Update_review_gate [OF run] show ?thesis by simp
qed

section \<open>Deleting takes the whole container down\<close>

text \<open>A soft-deleted plugin has no open request.\<close>

definition noOrphans :: "Store \<Rightarrow> bool" where
  "noOrphans s \<longleftrightarrow> (\<forall>x \<in> set (plugins s). p_DeletedAt x \<noteq> None \<longrightarrow> \<not> pendingFor s (p_ID x))"

definition keepsOrphans :: "Store \<Rightarrow> Store \<Rightarrow> bool" where
  "keepsOrphans s t \<longleftrightarrow> (noOrphans s \<longrightarrow> noOrphans t)"

interpretation orphan: tx_frame keepsOrphans
  by unfold_locales (simp_all add: keepsOrphans_def)

lemma touches_orphans: "steps (sameExcept X) m \<Longrightarrow> TPlugins \<notin> X \<Longrightarrow> TReviews \<notin> X \<Longrightarrow> steps keepsOrphans m"
  by (erule steps_mono) (simp add: keepsOrphans_def noOrphans_def pendingFor_def sameExcept_plugins sameExcept_reviews)

lemma softDelete_run:
  assumes "softDelete sc t pid m s = Inr (u, s')"
  shows "plugins s' = updateWhere (writableRow sc pid) (markDeleted t) (plugins s)"
    and "relations s' = updateWhere (\<lambda>e. r_SourcePluginID e = pid \<and> r_DeletedAt e = None) (markEdgeDeleted t) (relations s)"
    and "reviews s' = updateWhere (\<lambda>q. rr_PluginID q = pid \<and> pendingReview q)
      (markCanceled t (o_OperatorID m) (o_OperatorName m) reasonCanceledOnDelete) (reviews s)"
  using assms by (simp_all add: softDelete_def updateRelations_def bindT_Inr thenT_Inr updatePlugins_Inr mustAffect_Inr modifyT_Inr cancelPendingReviewFor_Inr)

lemma softDelete_pending:
  assumes "softDelete sc t pid m s = Inr (u, s')"
  shows "\<not> pendingFor s' pid" and "pendingFor s' i \<Longrightarrow> pendingFor s i"
proof -
  have closed: "\<not> pendingReview (markCanceled t who name why q)" for who name why q by (simp add: pendingReview_def markCanceled_def)
  show "\<not> pendingFor s' pid" "pendingFor s' i \<Longrightarrow> pendingFor s i"
    unfolding pendingFor_def softDelete_run(3) [OF assms] by (blast elim!: updateWhere_memE dest: closed [THEN notE])+
qed

lemma softDelete_orphans: "steps keepsOrphans (softDelete sc t pid m)"
proof (rule stepsI)
  fix s u s' assume run: "softDelete sc t pid m s = Inr (u, s')"
  note pend = softDelete_pending [OF run]
  have "\<not> pendingFor s' (p_ID x)" if "noOrphans s" "x \<in> set (plugins s')" "p_DeletedAt x \<noteq> None" for x
    using that(2) unfolding softDelete_run(1) [OF run]
    by (cases rule: updateWhere_memE) (use pend that(1,3) in \<open>auto simp: noOrphans_def markDeleted_def writableRow_def\<close>)
  then show "keepsOrphans s s'" by (auto simp: keepsOrphans_def noOrphans_def)
qed

lemma softDelete_gone:
  "softDelete sc t pid m s = Inr (u, s') \<Longrightarrow> \<forall>x \<in> set (plugins s'). \<not> ownedRow sc pid x"
  by (drule softDelete_run(1)) (auto simp: ownedRow_def writableRow_def markDeleted_def elim!: updateWhere_memE)

lemma softDelete_stays_gone: "steps (keepsAll (\<lambda>x. \<not> ownedRow sc' i x)) (softDelete sc t pid m)"
  unfolding softDelete_def
  by (intro rowInv.steps_rules updatePlugins_keepsAll touches_keepsAll [OF mustAffect_touches [of "{}"]]
      touches_keepsAll [OF updateRelations_touches [of "{TRelations}"]] touches_keepsAll [OF cancelPendingReviewFor_touches [of "{TReviews}"]])
    (simp_all add: ownedRow_def markDeleted_def)

lemma softDelete_gate: "steps noExposure (softDelete sc t pid m)"
  unfolding softDelete_def
  by (intro gate.steps_rules gates plugins_gate touches_gate [OF updateRelations_touches [of "{TRelations}"]]
      touches_gate [OF cancelPendingReviewFor_touches [of "{TReviews}"]])
    (simp_all add: markDeleted_def orgListed_def)

lemma softDelete_other: "p_ID x \<noteq> pid \<Longrightarrow> steps (keepsRow x) (softDelete sc t pid m)"
  unfolding softDelete_def
  by (intro row.steps_rules updatePlugins_row touches_row [OF mustAffect_touches [of "{}"]]
      touches_row [OF updateRelations_touches [of "{TRelations}"]] touches_row [OF cancelPendingReviewFor_touches [of "{TReviews}"]])
    (simp_all add: writableRow_def)

lemmas auditDelete_frames =
  touches_orphans [OF auditDelete_touches [of "{TAudits}"], simplified] touches_gate [OF auditDelete_touches [of "{TAudits}"], simplified]
  touches_row [OF auditDelete_touches [of "{TAudits}"], simplified] touches_keepsAll [OF auditDelete_touches [of "{TAudits}"], simplified]

lemma softDeleteChild_orphans: "steps keepsOrphans (softDeleteRebuiltChild r sc t m c)"
  unfolding softDeleteRebuiltChild_def by (intro orphan.steps_rules softDelete_orphans auditDelete_frames)

lemma softDeleteChild_gate: "steps noExposure (softDeleteRebuiltChild r sc t m c)"
  unfolding softDeleteRebuiltChild_def by (intro gate.steps_rules softDelete_gate auditDelete_frames)

lemma softDeleteChild_other: "p_ID x \<noteq> c \<Longrightarrow> steps (keepsRow x) (softDeleteRebuiltChild r sc t m c)"
  unfolding softDeleteRebuiltChild_def by (intro row.steps_rules softDelete_other auditDelete_frames)

lemma softDeleteChild_stays_gone: "steps (keepsAll (\<lambda>x. \<not> ownedRow sc' i x)) (softDeleteRebuiltChild r sc t m c)"
  unfolding softDeleteRebuiltChild_def by (intro rowInv.steps_rules softDelete_stays_gone auditDelete_frames)

lemma softDeleteChild_gone:
  assumes run: "softDeleteRebuiltChild r sc t m c s = Inr (u, s')"
  shows "\<forall>x \<in> set (plugins s'). \<not> ownedRow sc c x"
proof (cases "find (ownedRow sc c) (plugins s)")
  case None
  with run have "s' = s" by (simp add: softDeleteRebuiltChild_def bindT_Inr queryT_Inr returnT_Inr)
  with None show ?thesis by (simp add: find_None_iff)
next
  case (Some prior)
  with run obtain u1 s1 where del: "softDelete sc t c m s = Inr (u1, s1)" and rest: "auditDelete r t m prior s1 = Inr (u, s')"
    by (auto simp: softDeleteRebuiltChild_def bindT_Inr thenT_Inr queryT_Inr)
  have "keepsAll (\<lambda>x. \<not> ownedRow sc c x) s1 s'" by (rule stepsD [OF auditDelete_frames(4) rest])
  with softDelete_gone [OF del] show ?thesis by (simp add: keepsAll_def)
qed

lemma DeleteGraph_run:
  assumes run: "DeleteGraph r sc topID m s = Inr (u, s')"
  obtains prior t s0 s1 s2 where "find (ownedRow sc topID) (plugins s) = Some prior" and "deleteGuards r topID prior s = Inr ((), s)"
    and "s0 = s\<lparr>tickCount := Suc (tickCount s)\<rparr>" and "softDelete sc t topID m s0 = Inr ((), s1)" and "auditDelete r t m prior s1 = Inr ((), s2)"
    and "forT (softDeleteRebuiltChild r sc t m) (collectEmbeddedChildren s topID (p_Type prior)) s2 = Inr ((), s')"
proof -
  from run show thesis
    unfolding DeleteGraph_def
    by (clarsimp simp: bindT_Inr thenT_Inr getOwnedForUpdate_Inr now_Inr queryT_Inr)
      (frule readsD [OF deleteGuards_reads], rule that, simp_all)
qed

text \<open>A soft-deleted source keeps no live edge.\<close>

definition cutEdges :: "string \<Rightarrow> Store \<Rightarrow> Store \<Rightarrow> bool" where
  "cutEdges i s t \<longleftrightarrow> ((\<forall>e \<in> set (relations s). r_SourcePluginID e = i \<longrightarrow> r_DeletedAt e \<noteq> None) \<longrightarrow>
     (\<forall>e \<in> set (relations t). r_SourcePluginID e = i \<longrightarrow> r_DeletedAt e \<noteq> None))"

interpretation cut: tx_frame "cutEdges i" for i
  by unfold_locales (simp_all add: cutEdges_def)

lemma softDelete_edges:
  assumes run: "softDelete sc t pid m s = Inr (u, s')"
  shows "\<forall>e \<in> set (relations s'). r_SourcePluginID e = pid \<longrightarrow> r_DeletedAt e \<noteq> None" and "cutEdges i s s'"
proof -
  have dead: "r_DeletedAt (markEdgeDeleted t e) \<noteq> None" for e by (simp add: markEdgeDeleted_def)
  show "\<forall>e \<in> set (relations s'). r_SourcePluginID e = pid \<longrightarrow> r_DeletedAt e \<noteq> None"
    unfolding softDelete_run(2) [OF run] ball_updateWhere using dead by (simp split: if_splits)
  show "cutEdges i s s'"
    unfolding cutEdges_def softDelete_run(2) [OF run] ball_updateWhere using dead by simp
qed

lemma softDeleteChild_cut: "steps (cutEdges i) (softDeleteRebuiltChild r sc t m c)"
proof -
  have "steps (cutEdges i) (auditDelete r t m prior)" for prior
    by (rule steps_mono [OF auditDelete_touches [of "{TAudits}"]]) (simp_all add: cutEdges_def sameExcept_relations)
  moreover have "steps (cutEdges i) (softDelete sc t c m)" by (rule stepsI) (rule softDelete_edges(2))
  ultimately show ?thesis unfolding softDeleteRebuiltChild_def by (intro cut.steps_rules)
qed

text \<open>C19: deleting a container deletes it and every embedded child the caller owns, in one
  transaction. Nothing live uses the container; afterwards neither it nor one of its children is an
  owned row, it has no live edge and no open request, a deleted row with an open request is nowhere
  created, no row becomes readable by the Space, and every other row is as it was.\<close>

theorem DeleteGraph_removes:
  assumes run: "DeleteGraph r sc topID m s = Inr (u, s')"
  shows "\<exists>prior. prior \<in> set (plugins s) \<and> ownedRow sc topID prior \<and>
    rejectLiveIncomingRelations topID s = Inr ((), s) \<and>
    (\<forall>x \<in> set (plugins s'). \<forall>i \<in> insert topID (set (collectEmbeddedChildren s topID (p_Type prior))). \<not> ownedRow sc i x) \<and>
    (\<forall>e \<in> set (relations s'). r_SourcePluginID e = topID \<longrightarrow> r_DeletedAt e \<noteq> None) \<and>
    (noOrphans s \<longrightarrow> noOrphans s') \<and> noExposure s s' \<and>
    (\<forall>x \<in> set (plugins s). p_ID x \<notin> insert topID (set (collectEmbeddedChildren s topID (p_Type prior))) \<longrightarrow> x \<in> set (plugins s'))"
proof -
  from run obtain prior t s0 s1 s2 where prior: "find (ownedRow sc topID) (plugins s) = Some prior"
    and guards: "deleteGuards r topID prior s = Inr ((), s)" and s0: "s0 = s\<lparr>tickCount := Suc (tickCount s)\<rparr>"
    and top: "softDelete sc t topID m s0 = Inr ((), s1)" and aud: "auditDelete r t m prior s1 = Inr ((), s2)"
    and kids: "forT (softDeleteRebuiltChild r sc t m) (collectEmbeddedChildren s topID (p_Type prior)) s2 = Inr ((), s')"
    by (rule DeleteGraph_run)
  let ?kids = "collectEmbeddedChildren s topID (p_Type prior)"
  have s2: "plugins s2 = plugins s1" "reviews s2 = reviews s1" "relations s2 = relations s1"
    using stepsD [OF auditDelete_touches [of "{TAudits}"] aud] by (simp_all add: sameExcept_plugins sameExcept_reviews sameExcept_relations)
  have "\<forall>x \<in> set (plugins s'). \<not> ownedRow sc topID x"
    using softDelete_gone [OF top] s2 stepsD [OF rowInv.steps_for [OF softDeleteChild_stays_gone] kids] by (simp add: keepsAll_def)
  moreover have "\<forall>x \<in> set (plugins s'). \<not> ownedRow sc i x" if "i \<in> set ?kids" for i
    by (rule forT_establishes [OF kids softDeleteChild_gone _ that])
      (assumption, use stepsD [OF softDeleteChild_stays_gone] in \<open>simp add: keepsAll_def\<close>)
  moreover have "\<forall>e \<in> set (relations s'). r_SourcePluginID e = topID \<longrightarrow> r_DeletedAt e \<noteq> None"
    using softDelete_edges(1) [OF top] s2 stepsD [OF cut.steps_for [OF softDeleteChild_cut] kids] by (simp add: cutEdges_def)
  moreover have "noOrphans s \<longrightarrow> noOrphans s'"
    using stepsD [OF softDelete_orphans top] stepsD [OF orphan.steps_for [OF softDeleteChild_orphans] kids] s2 s0
    by (simp add: keepsOrphans_def noOrphans_def pendingFor_def)
  moreover have "noExposure s s'"
    using noExposure_trans [OF stepsD [OF softDelete_gate top], of s'] stepsD [OF gate.steps_for [OF softDeleteChild_gate] kids] s2 s0
    by (simp add: noExposure_def)
  moreover have "x \<in> set (plugins s')" if "x \<in> set (plugins s)" "p_ID x \<noteq> topID" "p_ID x \<notin> set ?kids" for x
  proof -
    have "steps (keepsRow x) (forT (softDeleteRebuiltChild r sc t m) ?kids)"
      by (rule row.steps_for_mem, rule softDeleteChild_other) (use that(3) in metis)
    from stepsD [OF this kids] stepsD [OF softDelete_other top] that s2 s0 show ?thesis by (simp add: keepsRow_def)
  qed
  moreover have "rejectLiveIncomingRelations topID s = Inr ((), s)"
    using guards by (auto simp: deleteGuards_def thenT_Inr dest!: readsD [OF rejectPublishedIncoming_reads] readsD [OF reading.steps_when [OF rejectPendingVisibility_reads]])
  ultimately show ?thesis using find_Some_mem [OF prior] by (intro exI [of _ prior]) blast
qed

definition bundleStore :: Store where
  "bundleStore = emptyStore\<lparr>
     plugins := [samplePlugin ''e'' PluginTypeExpert ''u1'', (samplePlugin ''k'' PluginTypeSkill ''u1'')\<lparr>p_IsEmbedded := True\<rparr>,
                 samplePlugin ''x'' PluginTypeSkill ''u1''],
     relations := [sampleEdge ''e'' ''k'' ''expert_skill'']\<rparr>"

theorem DeleteGraph_removes_witness:
  "\<exists>s'. DeleteGraph sampleRepo sampleOwner ''e'' sampleOperator bundleStore = Inr ((), s') \<and> noExposure bundleStore s' \<and>
     map p_ID (filter (\<lambda>x. p_DeletedAt x = None) (plugins s')) = [''x'']"
proof -
  let ?run = "DeleteGraph sampleRepo sampleOwner ''e'' sampleOperator bundleStore"
  have ok: "case ?run of Inl _ \<Rightarrow> False | Inr (_, t) \<Rightarrow> map p_ID (filter (\<lambda>x. p_DeletedAt x = None) (plugins t)) = [''x'']" by code_simp
  then obtain s' where run: "?run = Inr ((), s')" by (cases ?run) auto
  from DeleteGraph_removes [OF run] have "noExposure bundleStore s'" by blast
  with ok run show ?thesis by simp
qed

section \<open>What is created is what was submitted\<close>

definition newEdge :: "time \<Rightarrow> string \<Rightarrow> string \<Rightarrow> PluginRelation \<Rightarrow> PluginRelation" where
  "newEdge t source creator x = x\<lparr>r_SourcePluginID := source, r_TargetPluginType := None, r_CreatedBy := creator,
     r_CreatedAt := t, r_UpdatedAt := t, r_DeletedAt := None\<rparr>"

lemma insertRelations_run:
  assumes "insertRelations r t src c xs s = Inr (rels, s')"
  shows "relations s' = relations s @ map (newEdge t src c) rels" and "list_all2 (\<lambda>x y. y = x\<lparr>r_ID := r_ID y\<rparr>) xs rels"
proof -
  have "relations s' = relations s @ map (newEdge t src c) rels \<and> list_all2 (\<lambda>x y. y = x\<lparr>r_ID := r_ID y\<rparr>) xs rels"
    using assms unfolding insertRelations_def
  proof (induction xs arbitrary: s rels)
    case (Cons x xs)
    from Cons.prems obtain i s1 s2 rels' where one: "(if r_ID x = '''' then newID r else returnT (r_ID x)) s = Inr (i, s1)"
      and row: "insertRelationRow t src c (x\<lparr>r_ID := i\<rparr>) s1 = Inr ((), s2)" and rels: "rels = x\<lparr>r_ID := i\<rparr> # rels'"
      and rest: "mapT (\<lambda>x. bindT (if r_ID x = '''' then newID r else returnT (r_ID x)) (\<lambda>i.
        thenT (insertRelationRow t src c (x\<lparr>r_ID := i\<rparr>)) (returnT (x\<lparr>r_ID := i\<rparr>)))) xs s2 = Inr (rels', s')"
      by (auto simp: bindT_Inr thenT_Inr returnT_Inr)
    have "relations s1 = relations s" using one by (simp add: newID_Inr returnT_Inr split: if_splits)
    moreover have "relations s2 = relations s1 @ [newEdge t src c (x\<lparr>r_ID := i\<rparr>)]"
      using row by (simp add: insertRelationRow_def newEdge_def bindT_Inr thenT_Inr queryT_Inr refuseT_Inr modifyT_Inr)
    ultimately show ?case using Cons.IH [OF rest] rels by simp
  qed (simp add: returnT_Inr)
  then show "relations s' = relations s @ map (newEdge t src c) rels" "list_all2 (\<lambda>x y. y = x\<lparr>r_ID := r_ID y\<rparr>) xs rels" by blast+
qed

lemma insertPlugin_run:
  assumes run: "insertPlugin r t p s = Inr (u, s')"
  obtains k n where "plugins s' = plugins s @ [p\<lparr>p_Rating := None, p_PublishedVersionID := None, p_NameKey := k, p_PublishedNameKey := None,
       p_NameScope := n, p_CreatedAt := t, p_UpdatedAt := t, p_DeletedAt := None\<rparr>]" and "p_ID p \<notin> p_ID ` set (plugins s)"
proof -
  have names: "t' = s" if "(case nameKey of None \<Rightarrow> returnT () | Some k \<Rightarrow> whenT b (rejectPluginNameCollision r p k n)) s = Inr (u', t')"
    for nameKey b n u' t'
    using that by (cases nameKey) (simp_all add: returnT_Inr whenT_Inr rejectPluginNameCollision_Inr split: if_splits)
  from run show thesis
    unfolding insertPlugin_def
    by (clarsimp simp: bindT_Inr thenT_Inr liftT_Inr queryT_Inr refuseT_Inr modifyT_Inr dest!: names) (rule that, simp, metis imageE)
qed

lemma releaseCreated_tenant: "\<not> s_Admin sc \<Longrightarrow> releaseCreated r sc m p vid = returnT ()"
  by (simp add: releaseCreated_def whenT_def)

lemma Create_run:
  assumes run: "Create r sc m s = Inr (out, s')" and "\<not> s_Admin sc"
  obtains i t s0 s1 s2 s3 s4 p rels vid where "p = (pinIdentity sc (m_Plugin m))\<lparr>p_ID := i\<rparr>"
    and "plugins s0 = plugins s" and "relations s0 = relations s" and "versions s0 = versions s"
    and "insertPlugin r t p s0 = Inr ((), s1)"
    and "insertRelations r t i (m_OperatorID m) (m_Relations m) s1 = Inr (rels, s2)"
    and "insertPlacements r t i (m_Placements m) s2 = Inr ((), s3)" and "snapshotIf r t m p rels (m_Changelog m) s3 = Inr (vid, s4)"
    and "auditCreate r t m p s4 = Inr ((), s')" and "out = createdSync rels vid"
proof -
  have fresh: "plugins b = plugins a \<and> relations b = relations a \<and> versions b = versions a"
    if "(if c then newID r else returnT x) a = Inr (i, b)" for c x i a b
    using that by (cases c) (simp_all add: newID_Inr returnT_Inr)
  from run show thesis
    unfolding Create_def Let_def releaseCreated_tenant [OF assms(2)]
    by (clarsimp simp: bindT_Inr thenT_Inr now_Inr returnT_Inr dest!: readsD [OF lockPluginCategory_reads] readsD [OF lockReferences_reads] fresh)
      (rule that, simp_all)
qed

text \<open>The columns of a row that the caller submits; the others are the server's.\<close>

definition submission :: "Plugin \<Rightarrow> Plugin" where
  "submission x = x\<lparr>p_Rating := None, p_CurrentVersionID := None, p_CurrentVersion := None, p_PublishedVersionID := None, p_NameKey := None,
     p_PublishedNameKey := None, p_NameScope := '''', p_CreatedAt := 0, p_UpdatedAt := 0, p_DeletedAt := None\<rparr>"

lemma snapshotIf_submission: "steps (keepsCol submission) (snapshotIf r t m p rels cl)"
  unfolding snapshotIf_def by (intro column.steps_rules keeps) (simp_all add: submission_def)

text \<open>C20: creating and reading back. A tenant's creation adds one row, under a new id, with the
  submitted columns and the caller's identity and Space; its edges are the submitted ones, under
  their assigned ids; a version, where one is recorded, holds the submitted document and those
  edges; and nothing else of the three tables changes.\<close>

theorem Create_roundtrip:
  assumes run: "Create r sc m s = Inr (out, s')" and tenant: "\<not> s_Admin sc"
  shows "\<exists>i t. i \<notin> p_ID ` set (plugins s) \<and>
    map submission (plugins s') = map submission (plugins s) @
      [submission ((m_Plugin m)\<lparr>p_ID := i, p_OwnerUID := s_CallerUID sc, p_SpaceID := Some (s_SpaceID sc)\<rparr>)] \<and>
    relations s' = relations s @ map (newEdge t i (m_OperatorID m)) (sy_Relations out) \<and>
    list_all2 (\<lambda>x y. y = x\<lparr>r_ID := r_ID y\<rparr>) (m_Relations m) (sy_Relations out) \<and>
    (m_SnapshotVersion m \<and> versioned (m_Plugin m) \<longrightarrow>
      (\<exists>v. versions s' = versions s @ [v] \<and> v_ID v = sy_NewVersionID out \<and> v_PluginID v = i \<and>
        v_Manifest v = p_Manifest (m_Plugin m) \<and> v_Package v = p_Package (m_Plugin m) \<and> v_PluginHash v = p_PluginHash (m_Plugin m) \<and>
        v_Relations v = EncodeSnapshotRelations (sy_Relations out)))"
proof -
  from run tenant obtain i t s0 s1 s2 s3 s4 p rels vid where p: "p = (pinIdentity sc (m_Plugin m))\<lparr>p_ID := i\<rparr>"
    and s0: "plugins s0 = plugins s" "relations s0 = relations s" "versions s0 = versions s"
    and row: "insertPlugin r t p s0 = Inr ((), s1)" and rels: "insertRelations r t i (m_OperatorID m) (m_Relations m) s1 = Inr (rels, s2)"
    and plc: "insertPlacements r t i (m_Placements m) s2 = Inr ((), s3)"
    and snap: "snapshotIf r t m p rels (m_Changelog m) s3 = Inr (vid, s4)" and aud: "auditCreate r t m p s4 = Inr ((), s')"
    and out: "out = createdSync rels vid" by (rule Create_run)
  have pin: "p = (m_Plugin m)\<lparr>p_ID := i, p_OwnerUID := s_CallerUID sc, p_SpaceID := Some (s_SpaceID sc)\<rparr>"
    using p tenant by (simp add: pinIdentity_def)
  from row obtain k n where s1: "plugins s1 = plugins s0 @ [p\<lparr>p_Rating := None, p_PublishedVersionID := None, p_NameKey := k,
      p_PublishedNameKey := None, p_NameScope := n, p_CreatedAt := t, p_UpdatedAt := t, p_DeletedAt := None\<rparr>]" and new: "p_ID p \<notin> p_ID ` set (plugins s0)"
    by (rule insertPlugin_run)
  note f1 = stepsD [OF insertPlugin_touches [of "{TPlugins}"] row] and f2 = stepsD [OF insertRelations_touches [of "{TRelations}"] rels]
    and f3 = stepsD [OF insertPlacements_touches [of "{TPlacements}"] plc] and f5 = stepsD [OF audit_touches(2) [of "{TAudits}"] aud]
    and f4 = stepsD [OF snapshotIf_touches [of "{TPlugins, TVersions, TRefEdges, TRefIndex}"] snap]
  have same: "relations s1 = relations s0" "versions s3 = versions s0" "plugins s3 = plugins s1" "relations s' = relations s2" "versions s' = versions s4" "plugins s' = plugins s4"
    using f1 f2 f3 f4 f5 by (simp_all add: sameExcept_plugins sameExcept_relations sameExcept_versions)
  have "map submission (plugins s4) = map submission (plugins s3)"
    using stepsD [OF snapshotIf_submission snap] by (simp add: keepsCol_def)
  then have "map submission (plugins s') = map submission (plugins s) @ [submission p]"
    using same s1 s0 by (simp add: submission_def)
  moreover have "relations s' = relations s @ map (newEdge t i (m_OperatorID m)) rels"
    using insertRelations_run(1) [OF rels] same s0 by simp
  moreover have "\<exists>v. versions s' = versions s @ [v] \<and> v_ID v = vid \<and> v_PluginID v = i \<and> v_Manifest v = p_Manifest p \<and>
      v_Package v = p_Package p \<and> v_PluginHash v = p_PluginHash p \<and> v_Relations v = EncodeSnapshotRelations rels"
    if "m_SnapshotVersion m" "versioned (m_Plugin m)"
  proof -
    have "snapshotVersion r t p rels (m_Changelog m) (m_OperatorID m) (references r) s3 = Inr (vid, s4)" "versioned p"
      using snap that pin by (simp_all add: snapshotIf_def versioned_def)
    then show ?thesis by (rule snapshotVersion_run) (use same s0 p in auto)
  qed
  ultimately show ?thesis
    using new s0 insertRelations_run(2) [OF rels] pin out by (intro exI [of _ i] exI [of _ t]) (simp add: createdSync_def)
qed

theorem Create_roundtrip_witness:
  "\<exists>out s'. Create sampleRepo sampleOwner (sampleMutation (draftPlugin\<lparr>p_ID := ''n'', p_Name := ''other''\<rparr>)) savedStore = Inr (out, s') \<and>
     length (plugins s') = 3 \<and> (\<exists>v. versions s' = versions savedStore @ [v] \<and> v_ID v = sy_NewVersionID out)"
proof -
  let ?m = "sampleMutation (draftPlugin\<lparr>p_ID := ''n'', p_Name := ''other''\<rparr>)"
  let ?run = "Create sampleRepo sampleOwner ?m savedStore"
  have ok: "case ?run of Inl _ \<Rightarrow> False | Inr (_, t) \<Rightarrow> length (plugins t) = 3" by code_simp
  then obtain out s' where run: "?run = Inr (out, s')" by (cases ?run) auto
  have hyps: "\<not> s_Admin sampleOwner" "m_SnapshotVersion ?m \<and> versioned (m_Plugin ?m)" by code_simp+
  from Create_roundtrip [OF run hyps(1)] hyps(2) have "\<exists>v. versions s' = versions savedStore @ [v] \<and> v_ID v = sy_NewVersionID out" by blast
  with ok run show ?thesis by simp
qed

end
