(* ===== verification/Scenes.thy ===== *)
theory Scenes
  imports Snapshots
begin

text \<open>
  The administration of the catalog's shelves: the scene registry and the placements of plugins
  (\<open>repository/plugin/scene.go\<close>), the category taxonomy (\<open>repository/plugin/admin_category.go\<close>),
  and the two services over them (\<open>service/plugin/scenes.go\<close>, \<open>service/plugin/categories.go\<close>).

  Every plugin is on the shelf \<open>default\<close>, which the market list reads; that scene cannot be
  removed and its placements cannot be hidden or removed. The plugin types of a category are the
  decoded members of its JSON array, so the decoding errors of \<open>droppedPluginTypes\<close> do not arise.
  The order of strings in an \<open>ORDER BY\<close> is the order of their bytes.
\<close>

section \<open>Reads\<close>

text \<open>A row an administrator can place: live and not part of a container.\<close>

definition placeable :: "Store \<Rightarrow> string \<Rightarrow> Plugin option" where
  "placeable s pid = find (\<lambda>p. p_ID p = pid \<and> p_Status p = 1 \<and> p_DeletedAt p = None \<and> \<not> p_IsEmbedded p) (plugins s)"

definition usesScene :: "Store \<Rightarrow> string \<Rightarrow> PluginPlacement \<Rightarrow> bool" where
  "usesScene s code x \<longleftrightarrow> pl_PlacementCode x = code \<and> placeable s (pl_PluginID x) \<noteq> None"

definition shownCategory :: "string \<Rightarrow> CategoryPlacementRow \<Rightarrow> bool" where
  "shownCategory code x \<longleftrightarrow> cp_PlacementCode x = code \<and> cp_Visible x"

record PluginScene =
  ps_Row :: SceneRow
  ps_PluginCount :: nat
  ps_CategoryCount :: nat

definition sceneView :: "Store \<Rightarrow> SceneRow \<Rightarrow> PluginScene" where
  "sceneView s x = \<lparr>ps_Row = x,
     ps_PluginCount = length (remdups (map pl_PluginID (filter (usesScene s (sc_Code x)) (placements s)))),
     ps_CategoryCount = length (remdups (map cp_CategoryID (filter (shownCategory (sc_Code x)) (catPlacements s))))\<rparr>"

definition ListScenes :: "Store \<Rightarrow> PluginScene list" where
  "ListScenes s = map (sceneView s) (sort_key sc_SortOrder (sort_key sc_Code (scenes s)))"

definition GetScene :: "string \<Rightarrow> PluginScene stx" where
  "GetScene sceneID =
     bindT (queryT (\<lambda>s. map_option (sceneView s) (find (\<lambda>x. sc_ID x = sceneID) (scenes s)))) (someT ErrNotFound)"

section \<open>Scenes\<close>

definition updateScenes :: "(SceneRow \<Rightarrow> bool) \<Rightarrow> (SceneRow \<Rightarrow> SceneRow) \<Rightarrow> nat stx" where
  "updateScenes c f = (\<lambda>s. Inr (affected c f (scenes s), s\<lparr>scenes := updateWhere c f (scenes s)\<rparr>))"

definition CreateScene :: "Repo \<Rightarrow> SceneRow \<Rightarrow> unit stx" where
  "CreateScene r scene =
     bindT (now r) (\<lambda>t.
     bindT (queryT (\<lambda>s. \<exists>x \<in> set (scenes s). sc_ID x = sc_ID scene \<or> sc_Code x = sc_Code scene)) (\<lambda>dup.
     thenT (refuseT dup ErrConflict)
       (modifyT (\<lambda>s. s\<lparr>scenes := scenes s @ [scene\<lparr>sc_CreatedAt := t, sc_UpdatedAt := t\<rparr>]\<rparr>))))"

record SceneUpdate =
  su_Name :: "string option"
  su_Description :: "string option"
  su_SortOrder :: "int option"

definition setScene :: "SceneUpdate \<Rightarrow> time \<Rightarrow> SceneRow \<Rightarrow> SceneRow" where
  "setScene u t x = x\<lparr>sc_Name := (case su_Name u of None \<Rightarrow> sc_Name x | Some v \<Rightarrow> v),
     sc_Description := (case su_Description u of None \<Rightarrow> sc_Description x | Some v \<Rightarrow> v),
     sc_SortOrder := (case su_SortOrder u of None \<Rightarrow> sc_SortOrder x | Some v \<Rightarrow> v), sc_UpdatedAt := t\<rparr>"

text \<open>An update that changes nothing affects no row; the second read tells it from a missing scene.\<close>

definition UpdateScene :: "Repo \<Rightarrow> string \<Rightarrow> SceneUpdate \<Rightarrow> unit stx" where
  "UpdateScene r sceneID u =
     bindT (now r) (\<lambda>t.
     bindT (updateScenes (\<lambda>x. sc_ID x = sceneID) (setScene u t)) (\<lambda>n.
     whenT (n = 0) (bindT (GetScene sceneID) (\<lambda>_. returnT ()))))"

definition sceneReferences :: "Store \<Rightarrow> string \<Rightarrow> nat" where
  "sceneReferences s code =
     length (filter (usesScene s code) (placements s)) + length (filter (shownCategory code) (catPlacements s))"

definition DeleteScene :: "string \<Rightarrow> unit stx" where
  "DeleteScene sceneID =
     bindT (queryT (\<lambda>s. find (\<lambda>x. sc_ID x = sceneID) (scenes s))) (\<lambda>row.
     bindT (someT ErrNotFound row) (\<lambda>x.
     thenT (refuseT (sc_Code x = ''default'') ErrConflict)
    (bindT (queryT (\<lambda>s. sceneReferences s (sc_Code x))) (\<lambda>count.
     thenT (refuseT (0 < count) ErrConflict)
    (thenT (modifyT (\<lambda>s. s\<lparr>placements := filter (\<lambda>y. pl_PlacementCode y \<noteq> sc_Code x) (placements s)\<rparr>))
    (thenT (modifyT (\<lambda>s. s\<lparr>catPlacements := filter (\<lambda>y. cp_PlacementCode y \<noteq> sc_Code x) (catPlacements s)\<rparr>))
       (modifyT (\<lambda>s. s\<lparr>scenes := filter (\<lambda>y. sc_ID y \<noteq> sceneID) (scenes s)\<rparr>))))))))"

section \<open>Placements\<close>

record AdminPluginPlacement =
  av_ID :: string
  av_SceneID :: string
  av_SceneCode :: string
  av_SceneName :: string
  av_PlacedID :: string
  av_PluginName :: string
  av_PluginType :: PluginType
  av_CategoryID :: "string option"
  av_CategoryName :: "string option"
  av_IsVisible :: bool
  av_SortOrder :: int
  av_CreatedAt :: time
  av_UpdatedAt :: time

text \<open>The joins of the two placement reads: the scene by its code, the plugin by its id, and the
  category when it is live.\<close>

definition placementJoin :: "Store \<Rightarrow> PluginPlacement \<Rightarrow> (SceneRow \<times> Plugin \<times> PluginPlacement) option" where
  "placementJoin s x =
     (case (find (\<lambda>y. sc_Code y = pl_PlacementCode x) (scenes s), placeable s (pl_PluginID x)) of
        (Some scene, Some p) \<Rightarrow> Some (scene, p, x)
      | _ \<Rightarrow> None)"

definition liveCategory :: "CategoryRow \<Rightarrow> bool" where
  "liveCategory c \<longleftrightarrow> cat_Status c = 1 \<and> cat_DeletedAt c = None"

definition placementView :: "Store \<Rightarrow> SceneRow \<times> Plugin \<times> PluginPlacement \<Rightarrow> AdminPluginPlacement" where
  "placementView s = (\<lambda>(scene, p, x). \<lparr>av_ID = pl_ID x, av_SceneID = sc_ID scene, av_SceneCode = sc_Code scene, av_SceneName = sc_Name scene,
     av_PlacedID = p_ID p, av_PluginName = p_Name p, av_PluginType = p_Type p, av_CategoryID = pl_CategoryID x,
     av_CategoryName = map_option cat_Name (find (\<lambda>c. Some (cat_ID c) = pl_CategoryID x \<and> liveCategory c) (categories s)),
     av_IsVisible = pl_Visible x, av_SortOrder = pl_SortOrder x, av_CreatedAt = pl_CreatedAt x, av_UpdatedAt = pl_UpdatedAt x\<rparr>)"

text \<open>\<open>LIKE ... ESCAPE '!'\<close>; \<open>same\<close> is the equality of characters under the column's collation. A
  trailing escape stands for itself.\<close>

fun likeMatch :: "(char \<Rightarrow> char \<Rightarrow> bool) \<Rightarrow> string \<Rightarrow> string \<Rightarrow> bool" where
  "likeMatch same [] s \<longleftrightarrow> s = []"
| "likeMatch same (c # pat) s \<longleftrightarrow>
     (if c = CHR ''%'' then likeMatch same pat s \<or> (case s of [] \<Rightarrow> False | _ # s' \<Rightarrow> likeMatch same (c # pat) s')
      else if c = CHR ''_'' then s \<noteq> [] \<and> likeMatch same pat (drop (runeLen s) s)
      else if c = CHR ''!'' then
        (case pat of
           [] \<Rightarrow> s = [c]
         | d # pat' \<Rightarrow> (case s of [] \<Rightarrow> False | x # s' \<Rightarrow> same d x \<and> likeMatch same pat' s'))
      else (case s of [] \<Rightarrow> False | x # s' \<Rightarrow> same c x \<and> likeMatch same pat s'))"

definition escapeLike :: "string \<Rightarrow> string" where
  "escapeLike s = concat (map (\<lambda>c. if c \<in> {CHR ''!'', CHR ''%'', CHR ''_''} then [CHR ''!'', c] else [c]) s)"

record PlacementListFilter =
  pf_SceneCode :: string
  pf_Type :: "PluginType option"
  pf_Keyword :: string
  pf_Limit :: int
  pf_Offset :: int

definition placementMatches :: "(char \<Rightarrow> char \<Rightarrow> bool) \<Rightarrow> PlacementListFilter \<Rightarrow> SceneRow \<times> Plugin \<times> PluginPlacement \<Rightarrow> bool" where
  "placementMatches same f = (\<lambda>(scene, p, x).
     (pf_SceneCode f = '''' \<or> pl_PlacementCode x = pf_SceneCode f) \<and>
     (case pf_Type f of None \<Rightarrow> True | Some ty \<Rightarrow> p_Type p = ty) \<and>
     (pf_Keyword f = '''' \<or> likeMatch same (''%'' @ escapeLike (pf_Keyword f) @ ''%'') (p_Name p)))"

definition placementOrder :: "(SceneRow \<times> Plugin \<times> PluginPlacement) list \<Rightarrow> (SceneRow \<times> Plugin \<times> PluginPlacement) list" where
  "placementOrder rows =
     sort_key (\<lambda>(scene, p, x). sc_SortOrder scene) (sort_key (\<lambda>(scene, p, x). pl_SortOrder x)
       (sort_key (\<lambda>(scene, p, x). p_Name p) (sort_key (\<lambda>(scene, p, x). p_ID p) (sort_key (\<lambda>(scene, p, x). pl_ID x) rows))))"

definition placementLimit :: "int \<Rightarrow> int" where
  "placementLimit limit = (let l = (if limit \<le> 0 then 20 else limit) in if l > 100 then 100 else l)"

definition ListPlacements :: "(char \<Rightarrow> char \<Rightarrow> bool) \<Rightarrow> Store \<Rightarrow> PlacementListFilter \<Rightarrow> AdminPluginPlacement list \<times> nat" where
  "ListPlacements same s f =
     (let rows = filter (placementMatches same f) (List.map_filter (placementJoin s) (placements s)) in
      (map (placementView s) (take (nat (placementLimit (pf_Limit f))) (drop (nat (max (pf_Offset f) 0)) (placementOrder rows))),
       length rows))"

definition GetPlacement :: "string \<Rightarrow> AdminPluginPlacement stx" where
  "GetPlacement placementID =
     bindT (queryT (\<lambda>s. map_option (placementView s)
       (Option.bind (find (\<lambda>x. pl_ID x = placementID) (placements s)) (placementJoin s)))) (someT ErrNotFound)"

definition sceneByCode :: "string \<Rightarrow> SceneRow stx" where
  "sceneByCode code = bindT (queryT (\<lambda>s. find (\<lambda>x. sc_Code x = code) (scenes s))) (someT ErrNotFound)"

definition placeablePlugin :: "string \<Rightarrow> Plugin stx" where
  "placeablePlugin pid = bindT (queryT (\<lambda>s. placeable s pid)) (someT ErrNotFound)"

definition insertPlacement :: "PluginPlacement \<Rightarrow> unit stx" where
  "insertPlacement x =
     bindT (queryT (\<lambda>s. placementTaken s (pl_ID x) (pl_PlacementCode x) (pl_PluginID x))) (\<lambda>dup.
     thenT (refuseT dup ErrConflict) (modifyT (\<lambda>s. s\<lparr>placements := placements s @ [x]\<rparr>)))"

definition CreatePlacement :: "Repo \<Rightarrow> string \<Rightarrow> string \<Rightarrow> string \<Rightarrow> bool \<Rightarrow> int \<Rightarrow> unit stx" where
  "CreatePlacement r placementID sceneCode pluginID visible sortOrder =
     bindT (sceneByCode sceneCode) (\<lambda>scene.
     thenT (refuseT (sc_Code scene = ''default'' \<and> \<not> visible) ErrConflict)
    (bindT (placeablePlugin pluginID) (\<lambda>p.
     bindT (queryT (\<lambda>s. \<exists>x \<in> set (placements s). pl_PluginID x = pluginID \<and> pl_PlacementCode x = sceneCode)) (\<lambda>duplicate.
     thenT (refuseT duplicate ErrConflict)
    (bindT (now r) (\<lambda>t.
       insertPlacement \<lparr>pl_ID = placementID, pl_PlacementCode = sceneCode, pl_PluginID = pluginID, pl_CategoryID = p_CategoryID p,
         pl_Visible = visible, pl_SortOrder = sortOrder, pl_CreatedAt = t, pl_UpdatedAt = t\<rparr>))))))"

record PlacementUpdate =
  pu_IsVisible :: "bool option"
  pu_SortOrder :: "int option"

definition setPlacement :: "PlacementUpdate \<Rightarrow> time \<Rightarrow> PluginPlacement \<Rightarrow> PluginPlacement" where
  "setPlacement u t x = x\<lparr>pl_Visible := (case pu_IsVisible u of None \<Rightarrow> pl_Visible x | Some v \<Rightarrow> v),
     pl_SortOrder := (case pu_SortOrder u of None \<Rightarrow> pl_SortOrder x | Some v \<Rightarrow> v), pl_UpdatedAt := t\<rparr>"

definition UpdatePlacement :: "Repo \<Rightarrow> string \<Rightarrow> PlacementUpdate \<Rightarrow> unit stx" where
  "UpdatePlacement r placementID u =
     bindT (queryT (\<lambda>s. find (\<lambda>x. pl_ID x = placementID) (placements s))) (\<lambda>row.
     bindT (someT ErrNotFound row) (\<lambda>found.
     bindT (placeablePlugin (pl_PluginID found)) (\<lambda>p.
     bindT (queryT (\<lambda>s. find (\<lambda>x. pl_ID x = placementID \<and> pl_PluginID x = p_ID p) (placements s))) (\<lambda>locked.
     bindT (someT ErrNotFound locked) (\<lambda>x.
     thenT (refuseT (pl_PlacementCode x = ''default'' \<and> pu_IsVisible u = Some False) ErrConflict)
    (bindT (now r) (\<lambda>t.
       modifyT (\<lambda>s. s\<lparr>placements := updateWhere (\<lambda>y. pl_ID y = placementID) (setPlacement u t) (placements s)\<rparr>))))))))"

definition DeletePlacement :: "string \<Rightarrow> unit stx" where
  "DeletePlacement placementID =
     bindT (queryT (\<lambda>s. find (\<lambda>x. pl_ID x = placementID) (placements s))) (\<lambda>row.
     bindT (someT ErrNotFound row) (\<lambda>x.
     thenT (refuseT (pl_PlacementCode x = ''default'') ErrConflict)
    (bindT (queryT (\<lambda>s. length (filter (\<lambda>y. pl_ID y = placementID) (placements s)))) (\<lambda>n.
     thenT (modifyT (\<lambda>s. s\<lparr>placements := filter (\<lambda>y. pl_ID y \<noteq> placementID) (placements s)\<rparr>))
       (refuseT (n = 0) ErrNotFound)))))"

text \<open>The batch: each item is locked, then removed, updated or created; a business error names the
  item by its index in the request.\<close>

record PlacementBatchItem =
  bi_PlacementID :: string
  bi_PluginID :: string
  bi_InputIndex :: nat

datatype SceneError = SceneFailure RepoError | BatchItemError nat RepoError

definition failT :: "('e \<Rightarrow> 'f) \<Rightarrow> ('s, 'e, 'a) tx \<Rightarrow> ('s, 'f, 'a) tx" where
  "failT g m = (\<lambda>s. case m s of Inl e \<Rightarrow> Inl (g e) | Inr x \<Rightarrow> Inr x)"

definition firstPlacement :: "Store \<Rightarrow> string \<Rightarrow> string \<Rightarrow> PluginPlacement option" where
  "firstPlacement s code pid =
     (case sort_key pl_ID (filter (\<lambda>x. pl_PluginID x = pid \<and> pl_PlacementCode x = code) (placements s)) of [] \<Rightarrow> None | x # _ \<Rightarrow> Some x)"

definition setPlacementItem ::
  "Repo \<Rightarrow> string \<Rightarrow> bool \<Rightarrow> bool \<Rightarrow> int \<Rightarrow> PlacementBatchItem \<Rightarrow> unit stx" where
  "setPlacementItem r code isPlaced isVisible sortOrder item =
     bindT (placeablePlugin (bi_PluginID item)) (\<lambda>p.
     if \<not> isPlaced then
       modifyT (\<lambda>s. s\<lparr>placements := filter (\<lambda>y. \<not> (pl_PlacementCode y = code \<and> pl_PluginID y = bi_PluginID item)) (placements s)\<rparr>)
     else
       bindT (queryT (\<lambda>s. firstPlacement s code (bi_PluginID item))) (\<lambda>existing.
       bindT (now r) (\<lambda>t.
       case existing of
         Some x \<Rightarrow> modifyT (\<lambda>s. s\<lparr>placements := updateWhere (\<lambda>y. pl_ID y = pl_ID x)
             (\<lambda>y. y\<lparr>pl_CategoryID := p_CategoryID p, pl_Visible := isVisible, pl_SortOrder := sortOrder, pl_UpdatedAt := t\<rparr>) (placements s)\<rparr>)
       | None \<Rightarrow> insertPlacement \<lparr>pl_ID = bi_PlacementID item, pl_PlacementCode = code, pl_PluginID = bi_PluginID item,
             pl_CategoryID = p_CategoryID p, pl_Visible = isVisible, pl_SortOrder = sortOrder, pl_CreatedAt = t, pl_UpdatedAt = t\<rparr>)))"

definition BatchSetPlacements ::
  "Repo \<Rightarrow> string \<Rightarrow> PlacementBatchItem list \<Rightarrow> bool \<Rightarrow> bool \<Rightarrow> int \<Rightarrow> (Store, SceneError, unit) tx" where
  "BatchSetPlacements r sceneCode items isPlaced isVisible sortOrder =
     bindT (failT SceneFailure (sceneByCode sceneCode)) (\<lambda>scene.
     thenT (refuseT (sc_Code scene = ''default'' \<and> (\<not> isPlaced \<or> \<not> isVisible)) (SceneFailure ErrConflict))
       (forT (\<lambda>item. failT (BatchItemError (bi_InputIndex item))
          (setPlacementItem r (sc_Code scene) isPlaced isVisible sortOrder item)) items))"

section \<open>Categories\<close>

record PluginCategory =
  pc_Row :: CategoryRow
  pc_PluginCount :: nat

definition ListAdminCategories :: "Store \<Rightarrow> PluginType \<Rightarrow> PluginCategory list" where
  "ListAdminCategories s typ =
     map (\<lambda>c. \<lparr>pc_Row = c, pc_PluginCount = length (filter (\<lambda>p. p_CategoryID p = Some (cat_ID c) \<and> p_Type p = typ \<and>
              \<not> p_IsEmbedded p \<and> p_Status p = 1 \<and> p_DeletedAt p = None) (plugins s))\<rparr>)
       (sort_key cat_SortOrder (sort_key cat_ID (filter (\<lambda>c. liveCategory c \<and> typ \<in> set (cat_Types c)) (categories s))))"

definition CreateCategory :: "Repo \<Rightarrow> CategoryRow \<Rightarrow> unit stx" where
  "CreateCategory r c =
     bindT (now r) (\<lambda>t.
     bindT (queryT (\<lambda>s. \<exists>x \<in> set (categories s). cat_ID x = cat_ID c)) (\<lambda>dup.
     thenT (refuseT dup ErrDuplicateKey)
       (modifyT (\<lambda>s. s\<lparr>categories := categories s @
          [c\<lparr>cat_Status := 1, cat_CreatedAt := t, cat_UpdatedAt := t, cat_DeletedAt := None\<rparr>]\<rparr>))))"

definition droppedPluginTypes :: "PluginType list \<Rightarrow> PluginType list \<Rightarrow> PluginType list" where
  "droppedPluginTypes cur nxt = filter (\<lambda>ty. ty \<notin> set nxt) cur"

definition updateCategories :: "(CategoryRow \<Rightarrow> bool) \<Rightarrow> (CategoryRow \<Rightarrow> CategoryRow) \<Rightarrow> nat stx" where
  "updateCategories c f = (\<lambda>s. Inr (affected c f (categories s), s\<lparr>categories := updateWhere c f (categories s)\<rparr>))"

definition categoryPlugins :: "Store \<Rightarrow> string \<Rightarrow> (PluginType \<Rightarrow> bool) \<Rightarrow> nat" where
  "categoryPlugins s cid typed =
     length (filter (\<lambda>p. p_CategoryID p = Some cid \<and> typed (p_Type p) \<and> p_Status p = 1 \<and> p_DeletedAt p = None) (plugins s))"

definition UpdateCategory :: "Repo \<Rightarrow> CategoryRow \<Rightarrow> unit stx" where
  "UpdateCategory r c =
     bindT (queryT (\<lambda>s. find (\<lambda>x. cat_ID x = cat_ID c \<and> cat_DeletedAt x = None) (categories s))) (\<lambda>row.
     bindT (someT ErrNotFound row) (\<lambda>current.
     thenT (forT (\<lambda>typ. bindT (queryT (\<lambda>s. categoryPlugins s (cat_ID c) (\<lambda>ty. ty = typ))) (\<lambda>count. refuseT (0 < count) ErrConflict))
             (droppedPluginTypes (cat_Types current) (cat_Types c)))
    (bindT (now r) (\<lambda>t.
     bindT (updateCategories (\<lambda>x. cat_ID x = cat_ID c \<and> cat_DeletedAt x = None)
       (\<lambda>x. x\<lparr>cat_Name := cat_Name c, cat_IconKey := cat_IconKey c, cat_Types := cat_Types c, cat_SortOrder := cat_SortOrder c,
              cat_UpdatedAt := t\<rparr>)) mustAffect))))"

definition DeleteCategory :: "Repo \<Rightarrow> string \<Rightarrow> unit stx" where
  "DeleteCategory r cid =
     bindT (queryT (\<lambda>s. find (\<lambda>x. cat_ID x = cid \<and> cat_DeletedAt x = None) (categories s))) (\<lambda>row.
     bindT (someT ErrNotFound row) (\<lambda>_.
     bindT (queryT (\<lambda>s. categoryPlugins s cid (\<lambda>_. True))) (\<lambda>count.
     thenT (refuseT (0 < count) ErrConflict)
    (bindT (now r) (\<lambda>t.
     bindT (updateCategories (\<lambda>x. cat_ID x = cid \<and> cat_DeletedAt x = None) (\<lambda>x. x\<lparr>cat_Status := 0, cat_DeletedAt := Some t\<rparr>))
       (\<lambda>_. returnT ()))))))"

section \<open>Frames\<close>

lemma failT_Inr [tx_simps]: "failT g m s = Inr x \<longleftrightarrow> m s = Inr x"
  by (auto simp: failT_def split: sum.splits)

lemma failT_steps: "steps R m \<Longrightarrow> steps R (failT g m)"
  by (auto simp: steps_def failT_def split: sum.splits)

lemma shelf_statements [touches]:
  "TScenes \<in> X \<Longrightarrow> steps (sameExcept X) (updateScenes c f)" "TCategories \<in> X \<Longrightarrow> steps (sameExcept X) (updateCategories d g)"
  by (auto simp: steps_def updateScenes_def updateCategories_def sameExcept_def kept_def)

lemma shelf_reads [reads]: "steps (=) (GetScene i)" "steps (=) (GetPlacement j)" "steps (=) (sceneByCode c)" "steps (=) (placeablePlugin pid)"
  unfolding GetScene_def GetPlacement_def sceneByCode_def placeablePlugin_def by (intro reading.steps_rules)+

lemma insertPlacement_touches [touches]: "TPlacements \<in> X \<Longrightarrow> steps (sameExcept X) (insertPlacement x)"
  unfolding insertPlacement_def by (intro touch.steps_rules touch.steps_modify) (simp add: sameExcept_def kept_def)

lemma scene_touches:
  "steps (sameExcept {TScenes}) (CreateScene r scene)" "steps (sameExcept {TScenes}) (UpdateScene r i u)"
  "steps (sameExcept {TScenes, TPlacements, TCatPlacements}) (DeleteScene i)"
  unfolding CreateScene_def UpdateScene_def DeleteScene_def
  by (intro touch.steps_rules touch.steps_modify touches reads [THEN reads_touches]; simp add: sameExcept_def kept_def)+

lemma placement_touches:
  "steps (sameExcept {TPlacements}) (CreatePlacement r i c pid v n)" "steps (sameExcept {TPlacements}) (UpdatePlacement r i w)"
  "steps (sameExcept {TPlacements}) (DeletePlacement i)" "steps (sameExcept {TPlacements}) (setPlacementItem r c b v n item)"
  unfolding CreatePlacement_def UpdatePlacement_def DeletePlacement_def setPlacementItem_def
  by (intro touch.steps_rules touch.steps_modify touches reads [THEN reads_touches]; simp add: sameExcept_def kept_def)+

lemma batch_touches: "steps (sameExcept {TPlacements}) (BatchSetPlacements r c items b v n)"
  unfolding BatchSetPlacements_def
  by (intro touch.steps_rules failT_steps placement_touches reads [THEN reads_touches])

lemma category_touches:
  "steps (sameExcept {TCategories}) (CreateCategory r c)" "steps (sameExcept {TCategories}) (UpdateCategory r c)"
  "steps (sameExcept {TCategories}) (DeleteCategory r i)"
  unfolding CreateCategory_def UpdateCategory_def DeleteCategory_def
  by (intro touch.steps_rules touch.steps_modify touches; simp add: sameExcept_def kept_def)+

section \<open>Searching\<close>

lemma likeMatch_percent: "likeMatch same (CHR ''%'' # pat) s \<longleftrightarrow> (\<exists>pre post. s = pre @ post \<and> likeMatch same pat post)"
proof (induction s)
  case (Cons x s)
  have "likeMatch same (CHR ''%'' # pat) (x # s) \<longleftrightarrow> likeMatch same pat (x # s) \<or> likeMatch same (CHR ''%'' # pat) s" by simp
  also have "\<dots> \<longleftrightarrow> (\<exists>pre post. x # s = pre @ post \<and> likeMatch same pat post)"
    unfolding Cons.IH by (metis append_Cons append_Nil list.sel(3) neq_Nil_conv)
  finally show ?case .
qed simp

lemma likeMatch_escaped:
  "likeMatch same (escapeLike k @ pat) s \<longleftrightarrow> (\<exists>mid post. s = mid @ post \<and> list_all2 same k mid \<and> likeMatch same pat post)"
proof (induction k arbitrary: s)
  case (Cons c k)
  have head: "escapeLike (c # k) = (if c \<in> {CHR ''!'', CHR ''%'', CHR ''_''} then [CHR ''!'', c] else [c]) @ escapeLike k"
    by (simp add: escapeLike_def)
  have "likeMatch same (escapeLike (c # k) @ pat) s \<longleftrightarrow> (\<exists>x s'. s = x # s' \<and> same c x \<and> likeMatch same (escapeLike k @ pat) s')"
    unfolding head by (cases s) auto
  also have "\<dots> \<longleftrightarrow> (\<exists>x mid post. s = x # mid @ post \<and> same c x \<and> list_all2 same k mid \<and> likeMatch same pat post)"
    using Cons.IH by blast
  also have "\<dots> \<longleftrightarrow> (\<exists>mid post. s = mid @ post \<and> list_all2 same (c # k) mid \<and> likeMatch same pat post)"
    unfolding list_all2_Cons1 by (metis append_Cons)
  finally show ?case .
qed (simp add: escapeLike_def)

text \<open>The keyword search finds the names that contain the keyword, wildcards included.\<close>

lemma likeMatch_contains:
  "likeMatch same (''%'' @ escapeLike k @ ''%'') s \<longleftrightarrow> (\<exists>pre mid post. s = pre @ mid @ post \<and> list_all2 same k mid)"
proof -
  have tail: "likeMatch same ''%'' post" for post by (induction post) simp_all
  have "likeMatch same (''%'' @ escapeLike k @ ''%'') s \<longleftrightarrow> (\<exists>pre rest. s = pre @ rest \<and> likeMatch same (escapeLike k @ ''%'') rest)"
    using likeMatch_percent [of same "escapeLike k @ ''%''" s] by simp
  also have "\<dots> \<longleftrightarrow> (\<exists>pre mid post. s = pre @ mid @ post \<and> list_all2 same k mid)"
    unfolding likeMatch_escaped using tail by blast
  finally show ?thesis .
qed

lemma mem_map_filter: "y \<in> set (List.map_filter g xs) \<longleftrightarrow> (\<exists>x \<in> set xs. g x = Some y)"
  by (force simp: map_filter_def)

lemma placementLimit_bounds: "0 < placementLimit n \<and> placementLimit n \<le> 100"
  by (simp add: placementLimit_def Let_def)

lemma set_placementOrder [simp]: "set (placementOrder rows) = set rows"
  by (simp add: placementOrder_def)

lemma placementJoin_Some:
  "placementJoin s x = Some (scene, p, y) \<longleftrightarrow>
     y = x \<and> find (\<lambda>y. sc_Code y = pl_PlacementCode x) (scenes s) = Some scene \<and> placeable s (pl_PluginID x) = Some p"
  by (auto simp: placementJoin_def split: option.splits)

text \<open>A placement that answers a search, with its scene and its plugin.\<close>

definition placementHit :: "(char \<Rightarrow> char \<Rightarrow> bool) \<Rightarrow> Store \<Rightarrow> PlacementListFilter \<Rightarrow> SceneRow \<Rightarrow> Plugin \<Rightarrow> PluginPlacement \<Rightarrow> bool" where
  "placementHit same s f scene p x \<longleftrightarrow> x \<in> set (placements s) \<and>
     find (\<lambda>y. sc_Code y = pl_PlacementCode x) (scenes s) = Some scene \<and> placeable s (pl_PluginID x) = Some p \<and>
     (pf_SceneCode f = '''' \<or> pl_PlacementCode x = pf_SceneCode f) \<and> (\<forall>ty. pf_Type f = Some ty \<longrightarrow> p_Type p = ty) \<and>
     (\<exists>pre mid post. p_Name p = pre @ mid @ post \<and> list_all2 same (pf_Keyword f) mid)"

lemma keyword_contains:
  "(k = '''' \<or> likeMatch same (''%'' @ escapeLike k @ ''%'') n) \<longleftrightarrow> (\<exists>pre mid post. n = pre @ mid @ post \<and> list_all2 same k mid)"
proof (cases "k = ''''")
  case True
  have "n = [] @ [] @ n \<and> list_all2 same k []" by (simp add: True)
  then show ?thesis using True by blast
qed (simp only: likeMatch_contains simp_thms)

lemma placement_rows:
  "(scene, p, x) \<in> set (filter (placementMatches same f) (List.map_filter (placementJoin s) (placements s))) \<longleftrightarrow> placementHit same s f scene p x"
  unfolding placementHit_def placementMatches_def keyword_contains set_filter mem_map_filter placementJoin_Some
  by (auto simp: mem_map_filter placementJoin_Some split: option.splits)

text \<open>The placement search. A page has at most 100 rows; every row of it is a placement of a live,
  independent plugin on a registered scene that matches the filter, where the keyword matches the
  names that contain it character by character, so that a wildcard in it is an ordinary character;
  and when the limit admits the whole result the page is complete.
\<close>

theorem ListPlacements_searches:
  assumes "ListPlacements same s f = (page, found)"
  shows "length page \<le> 100 \<and> length page \<le> found \<and>
    (\<forall>v \<in> set page. \<exists>scene p x. placementHit same s f scene p x \<and> v = placementView s (scene, p, x)) \<and>
    (found \<le> nat (placementLimit (pf_Limit f)) \<and> pf_Offset f \<le> 0 \<longrightarrow>
       (\<forall>scene p x. placementHit same s f scene p x \<longrightarrow> placementView s (scene, p, x) \<in> set page))"
proof -
  let ?rows = "filter (placementMatches same f) (List.map_filter (placementJoin s) (placements s))"
  let ?n = "nat (placementLimit (pf_Limit f))" and ?o = "nat (max (pf_Offset f) 0)"
  let ?shown = "take ?n (drop ?o (placementOrder ?rows))"
  from assms have page: "page = map (placementView s) ?shown" and found: "found = length ?rows"
    by (auto simp: ListPlacements_def Let_def)
  have "length page \<le> ?n" "length page \<le> found" by (simp_all add: page found placementOrder_def)
  moreover have "?n \<le> 100" using placementLimit_bounds [of "pf_Limit f"] by linarith
  moreover have "\<exists>scene p x. placementHit same s f scene p x \<and> w = placementView s (scene, p, x)" if "w \<in> set page" for w
  proof -
    from that obtain y where y: "y \<in> set ?shown" "w = placementView s y" unfolding page set_map by (rule imageE) simp
    then have "y \<in> set ?rows" by (metis in_set_dropD in_set_takeD set_placementOrder)
    moreover obtain scene p x where "y = (scene, p, x)" by (rule prod_cases3)
    ultimately show ?thesis using y(2) placement_rows by blast
  qed
  moreover have "placementView s (scene, p, x) \<in> set page"
    if hit: "placementHit same s f scene p x" and whole: "found \<le> ?n" "pf_Offset f \<le> 0" for scene p x
  proof -
    have "?shown = placementOrder ?rows" using whole by (simp add: found placementOrder_def)
    moreover have "(scene, p, x) \<in> set ?rows" using hit unfolding placement_rows .
    ultimately show ?thesis unfolding page set_map by simp
  qed
  ultimately show ?thesis by (intro conjI ballI impI allI) (linarith, simp, blast, blast)
qed

section \<open>Scenes go only when nothing shows there\<close>

lemma DeleteScene_run:
  assumes "DeleteScene i s = Inr (u, t)"
  obtains x where "find (\<lambda>x. sc_ID x = i) (scenes s) = Some x" and "sc_Code x \<noteq> ''default''" and "sceneReferences s (sc_Code x) = 0"
    and "t = s\<lparr>placements := filter (\<lambda>y. pl_PlacementCode y \<noteq> sc_Code x) (placements s),
               catPlacements := filter (\<lambda>y. cp_PlacementCode y \<noteq> sc_Code x) (catPlacements s),
               scenes := filter (\<lambda>y. sc_ID y \<noteq> i) (scenes s)\<rparr>"
  using assms by (auto simp: DeleteScene_def tx_simps)

lemma DeleteScene_market: "DeleteScene i s = Inr (u, t) \<Longrightarrow> marketPlaced t pid \<longleftrightarrow> marketPlaced s pid"
  by (erule DeleteScene_run) (auto simp: marketPlaced_def defaultPlacementCode_def)

text \<open>Removing a scene. It succeeds only on a scene other than the default one where no live,
  independent plugin is placed and no category is shown; afterwards nothing refers to the scene,
  and no placement of another scene and no placement of a plugin the console shows is gone.
\<close>

theorem DeleteScene_unused:
  assumes "DeleteScene i s = Inr (u, t)"
  shows "\<exists>code. (\<exists>x \<in> set (scenes s). sc_ID x = i \<and> sc_Code x = code) \<and> code \<noteq> ''default'' \<and>
     (\<forall>x \<in> set (placements s). pl_PlacementCode x = code \<longrightarrow> placeable s (pl_PluginID x) = None) \<and>
     (\<forall>x \<in> set (catPlacements s). cp_PlacementCode x = code \<longrightarrow> \<not> cp_Visible x) \<and>
     (\<forall>x \<in> set (placements t). pl_PlacementCode x \<noteq> code) \<and> (\<forall>x \<in> set (catPlacements t). cp_PlacementCode x \<noteq> code) \<and>
     (\<forall>x \<in> set (scenes t). sc_ID x \<noteq> i) \<and>
     (\<forall>x \<in> set (placements s). pl_PlacementCode x \<noteq> code \<or> placeable s (pl_PluginID x) \<noteq> None \<longrightarrow> x \<in> set (placements t)) \<and>
     (\<forall>x \<in> set (scenes s). sc_ID x \<noteq> i \<longrightarrow> x \<in> set (scenes t)) \<and> plugins t = plugins s \<and>
     (\<forall>pid. marketPlaced t pid \<longleftrightarrow> marketPlaced s pid)"
proof -
  from assms obtain x where x: "find (\<lambda>x. sc_ID x = i) (scenes s) = Some x" "sc_Code x \<noteq> ''default''" "sceneReferences s (sc_Code x) = 0"
    and t: "t = s\<lparr>placements := filter (\<lambda>y. pl_PlacementCode y \<noteq> sc_Code x) (placements s),
               catPlacements := filter (\<lambda>y. cp_PlacementCode y \<noteq> sc_Code x) (catPlacements s),
               scenes := filter (\<lambda>y. sc_ID y \<noteq> i) (scenes s)\<rparr>"
    by (rule DeleteScene_run)
  have used: "\<forall>y \<in> set (placements s). pl_PlacementCode y = sc_Code x \<longrightarrow> placeable s (pl_PluginID y) = None"
    "\<forall>y \<in> set (catPlacements s). cp_PlacementCode y = sc_Code x \<longrightarrow> \<not> cp_Visible y"
    using x(3) by (auto simp: sceneReferences_def filter_empty_conv usesScene_def shownCategory_def)
  have "marketPlaced t pid \<longleftrightarrow> marketPlaced s pid" for pid by (rule DeleteScene_market [OF assms])
  moreover have "x \<in> set (scenes s)" "sc_ID x = i" using find_Some_mem [OF x(1)] by auto
  ultimately show ?thesis using x(2) used by (intro exI [of _ "sc_Code x"]) (simp add: t, blast)
qed

section \<open>The batch sets exactly the placements it names\<close>

definition placementKeys :: "Store \<Rightarrow> bool" where
  "placementKeys s \<longleftrightarrow> distinct (map pl_ID (placements s)) \<and> distinct (map placementKey (placements s))"

definition at :: "string \<Rightarrow> string \<Rightarrow> PluginPlacement \<Rightarrow> bool" where
  "at code pid x \<longleftrightarrow> pl_PlacementCode x = code \<and> pl_PluginID x = pid"

lemma at_unique: "placementKeys s \<Longrightarrow> x \<in> set (placements s) \<Longrightarrow> y \<in> set (placements s) \<Longrightarrow> at code pid x \<Longrightarrow> at code pid y \<Longrightarrow> x = y"
  by (rule distinct_key_eq [of placementKey]) (auto simp: placementKeys_def at_def placementKey_def)

lemma firstPlacement_Some:
  assumes "firstPlacement s code pid = Some x"
  shows "x \<in> set (placements s) \<and> at code pid x"
proof -
  let ?xs = "filter (\<lambda>x. pl_PluginID x = pid \<and> pl_PlacementCode x = code) (placements s)"
  from assms obtain ys where "sort_key pl_ID ?xs = x # ys" by (auto simp: firstPlacement_def split: list.splits)
  then have "x \<in> set (sort_key pl_ID ?xs)" by (simp only: list.set_intros)
  then show ?thesis by (simp add: at_def)
qed

lemma firstPlacement_None: "firstPlacement s code pid = None \<longleftrightarrow> (\<forall>x \<in> set (placements s). \<not> at code pid x)"
proof -
  let ?xs = "filter (\<lambda>x. pl_PluginID x = pid \<and> pl_PlacementCode x = code) (placements s)"
  have "firstPlacement s code pid = None \<longleftrightarrow> sort_key pl_ID ?xs = []" by (simp add: firstPlacement_def split: list.splits)
  also have "\<dots> \<longleftrightarrow> ?xs = []" unfolding length_0_conv [symmetric] length_sort ..
  also have "\<dots> \<longleftrightarrow> (\<forall>x \<in> set (placements s). \<not> at code pid x)" unfolding filter_empty_conv at_def by blast
  finally show ?thesis .
qed

text \<open>What one item of a placing batch does.\<close>

definition placedAs :: "Store \<Rightarrow> string \<Rightarrow> bool \<Rightarrow> int \<Rightarrow> string \<Rightarrow> PluginPlacement \<Rightarrow> bool" where
  "placedAs s code isVisible sortOrder pid y \<longleftrightarrow> at code pid y \<and> pl_Visible y = isVisible \<and> pl_SortOrder y = sortOrder \<and>
     (\<exists>p. placeable s pid = Some p \<and> pl_CategoryID y = p_CategoryID p)"

lemma placedAs_plugins: "plugins s = plugins t \<Longrightarrow> placedAs s = placedAs t"
  by (intro ext) (simp add: placedAs_def placeable_def)

lemma place_item:
  assumes run: "setPlacementItem r code True v n item s = Inr (u, t)" and keys: "placementKeys s"
  shows "plugins t = plugins s \<and> placementKeys t \<and> (\<exists>y \<in> set (placements t). placedAs s code v n (bi_PluginID item) y) \<and>
    (\<forall>y. \<not> at code (bi_PluginID item) y \<longrightarrow> y \<in> set (placements t) \<longleftrightarrow> y \<in> set (placements s))"
proof -
  let ?pid = "bi_PluginID item"
  from run obtain p where p: "placeable s ?pid = Some p"
    by (auto simp: setPlacementItem_def placeablePlugin_def tx_simps)
  show ?thesis
  proof (cases "firstPlacement s code ?pid")
    case None
    with run p obtain tm where new: "\<not> placementTaken s (bi_PlacementID item) code ?pid" and pl: "plugins t = plugins s"
      and t: "placements t = placements s @ [\<lparr>pl_ID = bi_PlacementID item, pl_PlacementCode = code, pl_PluginID = ?pid,
             pl_CategoryID = p_CategoryID p, pl_Visible = v, pl_SortOrder = n, pl_CreatedAt = tm, pl_UpdatedAt = tm\<rparr>]"
      by (auto simp: setPlacementItem_def placeablePlugin_def insertPlacement_def tx_simps now_def placementTaken_def)
    have "placementKeys t" using keys new unfolding placementKeys_def t by (auto simp: placementTaken_def placementKey_def)
    moreover have "\<exists>y \<in> set (placements t). placedAs s code v n ?pid y" by (simp add: t placedAs_def at_def p)
    ultimately show ?thesis by (auto simp: pl t at_def)
  next
    case (Some x)
    let ?f = "\<lambda>tm y. y\<lparr>pl_CategoryID := p_CategoryID p, pl_Visible := v, pl_SortOrder := n, pl_UpdatedAt := tm\<rparr>"
    from run p Some obtain tm where pl: "plugins t = plugins s"
      and t: "placements t = updateWhere (\<lambda>y. pl_ID y = pl_ID x) (?f tm) (placements s)"
      by (auto simp: setPlacementItem_def placeablePlugin_def tx_simps now_def)
    have x: "x \<in> set (placements s)" "at code ?pid x" using firstPlacement_Some [OF Some] by auto
    have mine: "at code ?pid y" if "y \<in> set (placements s)" "pl_ID y = pl_ID x" for y
      using distinct_key_eq [of pl_ID, OF _ that(1) x(1) that(2)] keys x(2) by (simp add: placementKeys_def)
    have "placementKeys t" using keys by (simp add: placementKeys_def t map_updateWhere_key placementKey_def)
    moreover have "?f tm x \<in> set (placements t)" unfolding t by (rule updateWhere_imageI [OF x(1)]) simp
    moreover have "placedAs s code v n ?pid (?f tm x)" using x(2) by (simp add: placedAs_def at_def p)
    moreover have "y \<in> set (placements t) \<longleftrightarrow> y \<in> set (placements s)" if out: "\<not> at code ?pid y" for y
    proof
      assume "y \<in> set (placements t)"
      then show "y \<in> set (placements s)"
        unfolding t using mine out by (auto elim!: updateWhere_memE simp: at_def)
    next
      assume "y \<in> set (placements s)"
      with mine out show "y \<in> set (placements t)" unfolding t by (blast intro: updateWhere_keepI)
    qed
    ultimately show ?thesis using pl by blast
  qed
qed

lemma place_items:
  assumes "forT (\<lambda>item. failT (g item) (setPlacementItem r code True v n item)) items s = Inr (u, t)"
    and "placementKeys s" and "distinct (map bi_PluginID items)"
  shows "plugins t = plugins s \<and> placementKeys t \<and> (\<forall>item \<in> set items. \<exists>y \<in> set (placements t). placedAs s code v n (bi_PluginID item) y) \<and>
    (\<forall>y. (\<forall>item \<in> set items. \<not> at code (bi_PluginID item) y) \<longrightarrow> y \<in> set (placements t) \<longleftrightarrow> y \<in> set (placements s))"
  using assms
proof (induction items arbitrary: s)
  case Nil
  then show ?case by (simp add: tx_simps)
next
  case (Cons item items)
  then obtain w where one: "setPlacementItem r code True v n item s = Inr ((), w)"
    and rest: "forT (\<lambda>item. failT (g item) (setPlacementItem r code True v n item)) items w = Inr (u, t)"
    by (auto simp: tx_simps)
  have a: "plugins w = plugins s" "placementKeys w" "\<exists>y \<in> set (placements w). placedAs s code v n (bi_PluginID item) y"
    "\<And>y. \<not> at code (bi_PluginID item) y \<Longrightarrow> y \<in> set (placements w) \<longleftrightarrow> y \<in> set (placements s)"
    using place_item [OF one Cons.prems(2)] by blast+
  have ih: "plugins t = plugins w" "placementKeys t" "\<forall>item \<in> set items. \<exists>y \<in> set (placements t). placedAs w code v n (bi_PluginID item) y"
    "\<And>y. \<forall>item \<in> set items. \<not> at code (bi_PluginID item) y \<Longrightarrow> y \<in> set (placements t) \<longleftrightarrow> y \<in> set (placements w)"
    using Cons.IH [OF rest a(2)] Cons.prems(3) by auto
  have other: "\<not> at code (bi_PluginID i) y" if "i \<in> set items" "placedAs s code v n (bi_PluginID item) y" for i y
    using that Cons.prems(3) by (auto simp: placedAs_def at_def)
  have "\<exists>y \<in> set (placements t). placedAs s code v n (bi_PluginID item) y"
    using a(3) ih(4) other by blast
  then show ?case using a ih placedAs_plugins [OF a(1)] by simp
qed

lemma remove_items:
  "forT (\<lambda>item. failT (g item) (setPlacementItem r code False v n item)) items s = Inr (u, t) \<Longrightarrow>
   t = s\<lparr>placements := filter (\<lambda>y. \<forall>item \<in> set items. \<not> at code (bi_PluginID item) y) (placements s)\<rparr>"
proof (induction items arbitrary: s)
  case (Cons item items)
  then obtain w where one: "setPlacementItem r code False v n item s = Inr ((), w)"
    and rest: "forT (\<lambda>item. failT (g item) (setPlacementItem r code False v n item)) items w = Inr (u, t)"
    by (auto simp: tx_simps)
  from one have w: "w = s\<lparr>placements := filter (\<lambda>y. \<not> at code (bi_PluginID item) y) (placements s)\<rparr>"
    by (auto simp: setPlacementItem_def placeablePlugin_def tx_simps at_def)
  show ?case unfolding Cons.IH [OF rest] w by (simp add: conj_commute)
qed (simp add: tx_simps)

section \<open>Concrete runs\<close>

definition sampleScene :: "string \<Rightarrow> string \<Rightarrow> SceneRow" where
  "sampleScene i code = \<lparr>sc_ID = i, sc_Code = code, sc_Name = code, sc_Description = '''', sc_SortOrder = 0, sc_CreatedAt = 0, sc_UpdatedAt = 0\<rparr>"

definition samplePlacement :: "string \<Rightarrow> string \<Rightarrow> string \<Rightarrow> PluginPlacement" where
  "samplePlacement i code pid = \<lparr>pl_ID = i, pl_PlacementCode = code, pl_PluginID = pid, pl_CategoryID = None, pl_Visible = True,
     pl_SortOrder = 0, pl_CreatedAt = 0, pl_UpdatedAt = 0\<rparr>"

definition shelfStore :: Store where
  "shelfStore = emptyStore\<lparr>plugins := [samplePlugin ''a_b'' PluginTypeSkill ''u1'', samplePlugin ''axb'' PluginTypeSkill ''u1''],
     scenes := [sampleScene ''d'' ''default'', sampleScene ''s'' ''spring''],
     placements := [samplePlacement ''p1'' ''default'' ''a_b'', samplePlacement ''p2'' ''default'' ''axb'', samplePlacement ''p3'' ''spring'' ''gone'']\<rparr>"

text \<open>The keyword \<open>a_\<close> finds the plugin with the underscore only.\<close>

theorem ListPlacements_searches_witness:
  "let f = \<lparr>pf_SceneCode = ''default'', pf_Type = None, pf_Keyword = ''a_'', pf_Limit = 10, pf_Offset = 0\<rparr> in
   map av_ID (fst (ListPlacements (=) shelfStore f)) = [''p1''] \<and>
   (\<exists>scene p x. placementHit (=) shelfStore f scene p x \<and> p_Name p = ''a_b'')"
proof -
  let ?f = "\<lparr>pf_SceneCode = ''default'', pf_Type = None, pf_Keyword = ''a_'', pf_Limit = 10, pf_Offset = 0\<rparr> :: PlacementListFilter"
  have ids: "map av_ID (fst (ListPlacements (=) shelfStore ?f)) = [''p1'']" and names: "map av_PluginName (fst (ListPlacements (=) shelfStore ?f)) = [''a_b'']"
    by code_simp+
  obtain page n where run: "ListPlacements (=) shelfStore ?f = (page, n)" by (rule prod.exhaust)
  with names obtain v where v: "v \<in> set page" "av_PluginName v = ''a_b''" by (cases page) auto
  with ListPlacements_searches [OF run] obtain scene p x
    where "placementHit (=) shelfStore ?f scene p x" "v = placementView shelfStore (scene, p, x)" by blast
  with v(2) have "placementHit (=) shelfStore ?f scene p x \<and> p_Name p = ''a_b''" by (simp add: placementView_def)
  then show ?thesis using ids unfolding Let_def by blast
qed

theorem DeleteScene_unused_witness:
  "\<exists>t. DeleteScene ''s'' shelfStore = Inr ((), t) \<and> DeleteScene ''d'' shelfStore = Inl ErrConflict \<and>
     (\<forall>x \<in> set (scenes t). sc_ID x \<noteq> ''s'') \<and> marketPlaced t ''a_b''"
proof -
  have d: "DeleteScene ''d'' shelfStore = Inl ErrConflict" and m: "marketPlaced shelfStore ''a_b''" by code_simp+
  have "\<not> isl (DeleteScene ''s'' shelfStore)" by code_simp
  then obtain t where run: "DeleteScene ''s'' shelfStore = Inr ((), t)" using tx_runs [of "DeleteScene ''s''" shelfStore] by auto
  with DeleteScene_unused [OF run] d m show ?thesis by blast
qed

end
