(* ===== verification/System.thy ===== *)
theory System
  imports Writes Scenes
begin

text \<open>
  The repository as a transition system. A step is the commit of one of the transactions of
  \<open>internal/repository/plugin\<close>; a transaction that fails is rolled back and is no step. The
  invariants below hold of every store that can be reached from an empty one.
\<close>

section \<open>Primary keys and append-only tables\<close>

text \<open>Ids name one row; a version and a label are released at most once.\<close>

definition keysOK :: "Store \<Rightarrow> bool" where
  "keysOK s \<longleftrightarrow> distinct (map p_ID (plugins s)) \<and> distinct (map r_ID (relations s)) \<and> distinct (map v_ID (versions s)) \<and>
     distinct (map rel_VersionID (releases s)) \<and> distinct (map (\<lambda>x. (rel_PluginID x, rel_VersionLabel x)) (releases s)) \<and>
     distinct (map cr_EventID (receipts s))"

definition ledgerStep :: "Store \<Rightarrow> Store \<Rightarrow> bool" where
  "ledgerStep s t \<longleftrightarrow> appendOnly s t \<and> (keysOK s \<longrightarrow> keysOK t)"

interpretation ledger: tx_frame ledgerStep
  by unfold_locales (auto simp: ledgerStep_def intro: history.frame_refl history.frame_trans)

named_theorems ledgers "statements that keep the keys and only append to the history"

lemma touches_ledger:
  assumes "steps (sameExcept X) m" and "X \<inter> {TPlugins, TRelations, TVersions, TReleases, TReceipts, TAudits} = {}"
  shows "steps ledgerStep m"
proof (rule stepsI)
  fix s u t assume run: "m s = Inr (u, t)"
  from stepsD [OF assms(1) run] assms(2)
  have "plugins t = plugins s" "relations t = relations s" "versions t = versions s" "releases t = releases s" "receipts t = receipts s"
    by (auto intro: sameExcept_plugins sameExcept_relations sameExcept_versions sameExcept_releases sameExcept_receipts)
  moreover have "appendOnly s t" by (rule stepsD [OF touches_history [OF assms(1)] run]) (use assms(2) in blast)
  ultimately show "ledgerStep s t" by (simp add: ledgerStep_def keysOK_def)
qed

lemma plugins_ledger:
  assumes "steps (keepsCol p_ID) m" and "steps (sameExcept X) m" and "X \<inter> {TRelations, TVersions, TReleases, TReceipts, TAudits} = {}"
  shows "steps ledgerStep m"
proof (rule stepsI)
  fix s u t assume run: "m s = Inr (u, t)"
  from stepsD [OF assms(2) run] assms(3)
  have "relations t = relations s" "versions t = versions s" "releases t = releases s" "receipts t = receipts s"
    by (auto intro: sameExcept_relations sameExcept_versions sameExcept_releases sameExcept_receipts)
  moreover have "appendOnly s t" by (rule stepsD [OF touches_history [OF assms(2)] run]) (use assms(3) in blast)
  ultimately show "ledgerStep s t" using stepsD [OF assms(1) run] by (simp add: ledgerStep_def keysOK_def keepsCol_def)
qed

lemma updatePlugins_ledger [ledgers]: "(\<And>x. p_ID (f x) = p_ID x) \<Longrightarrow> steps ledgerStep (updatePlugins c f)"
  by (rule plugins_ledger [OF updatePlugins_keeps updatePlugins_touches [of "{TPlugins}"]]) simp_all

lemma updateRelations_ledger [ledgers]: "(\<And>x. r_ID (f x) = r_ID x) \<Longrightarrow> steps ledgerStep (updateRelations c f)"
  unfolding updateRelations_def
  by (rule ledger.steps_modify) (simp add: ledgerStep_def keysOK_def appendOnly_def map_updateWhere_key)

text \<open>An INSERT behind its key check.\<close>

lemma insert_ledger:
  assumes "\<And>s. \<not> dup s \<Longrightarrow> ledgerStep s (f s)" and "steps ledgerStep m"
  shows "steps ledgerStep (bindT (queryT dup) (\<lambda>d. thenT (refuseT d e) (thenT (modifyT f) m)))"
proof (rule stepsI)
  fix s u t assume "bindT (queryT dup) (\<lambda>d. thenT (refuseT d e) (thenT (modifyT f) m)) s = Inr (u, t)"
  then have "\<not> dup s" "m (f s) = Inr (u, t)" by (auto simp: bindT_Inr thenT_Inr queryT_Inr refuseT_Inr modifyT_Inr)
  with assms(1) stepsD [OF assms(2)] show "ledgerStep s t" by (blast intro: ledger.frame_trans)
qed

lemma insertAudit_ledger [ledgers]: "steps ledgerStep (insertAudit i t p act m b a)"
proof (rule stepsI)
  fix s u s' assume run: "insertAudit i t p act m b a s = Inr (u, s')"
  from stepsD [OF insertAudit_touches [of "{TAudits}"] run]
  have "plugins s' = plugins s" "relations s' = relations s" "versions s' = versions s" "releases s' = releases s" "receipts s' = receipts s"
    by (simp_all add: sameExcept_plugins sameExcept_relations sameExcept_versions sameExcept_releases sameExcept_receipts)
  with stepsD [OF insertAudit_appends run] show "ledgerStep s s'" by (simp add: ledgerStep_def keysOK_def)
qed

lemma audience_ledger: "steps audienceStep m \<Longrightarrow> steps ledgerStep m"
proof (erule steps_mono)
  fix s t assume a: "audienceStep s t"
  have "map p_ID xs = map p_ID (map contentOf xs)" for xs by (simp add: contentOf_def)
  with a have "map p_ID (plugins t) = map p_ID (plugins s)" by (metis audienceStep_def keepsCol_def)
  moreover have "relations t = relations s" "versions t = versions s" "releases t = releases s" "receipts t = receipts s"
    using a by (auto simp: audienceStep_def intro: sameExcept_relations sameExcept_versions sameExcept_releases sameExcept_receipts)
  ultimately show "ledgerStep s t" using a by (simp add: ledgerStep_def keysOK_def audienceStep_def)
qed

lemmas statement_ledgers [ledgers] =
  touches_ledger [OF now_touches [of "{}"], simplified] touches_ledger [OF newID_touches [of "{}"], simplified]
  touches_ledger [OF getOwnedForUpdate_touches [of "{}"], simplified] touches_ledger [OF getReviewed_touches [of "{}"], simplified]
  touches_ledger [OF mustAffect_touches [of "{}"], simplified] touches_ledger [OF mustChangeState_touches [of "{}"], simplified]
  touches_ledger [OF decidedAt_touches [of "{}"], simplified]
  touches_ledger [OF ensurePlacement_touches [of "{TPlacements}"], simplified]
  touches_ledger [OF syncDefaultPlacement_touches [of "{TPlacements}"], simplified]
  touches_ledger [OF insertPlacements_touches [of "{TPlacements}"], simplified]
  touches_ledger [OF rejectPluginNameCollision_touches [of "{}"], simplified]
  touches_ledger [OF cancelPendingReviewFor_touches [of "{TReviews}"], simplified]
  touches_ledger [OF updateReviews_touches [of "{TReviews}"], simplified]
  touches_ledger [OF settle_touches [of "{TReviews}"], simplified] touches_ledger [OF settleApproval_touches [of "{TReviews}"], simplified]
  touches_ledger [OF finishGroup_touches [of "{TReviews}"], simplified] touches_ledger [OF insertRequest_touches [of "{TReviews}"], simplified]
  touches_ledger [OF RefreshConnectorBaselines_touches [of "{TBaselines}"], simplified]
  touches_ledger [OF approveConnectorRevisions_touches [of "{TBaselines}"], simplified]
  touches_ledger [OF writeReferenceIndex_touches [of "{TRefEdges, TRefIndex}"], simplified]

lemma reads_ledger: "steps (=) m \<Longrightarrow> steps ledgerStep m"
  by (rule touches_ledger [OF reads_touches [of _ "{}"]]) simp_all

lemmas read_ledgers [ledgers] = reads [THEN reads_ledger]

lemmas cascade_ledgers [ledgers] =
  plugins_ledger [OF promoteFrozen_keeps promoteFrozen_touches [of "{TPlugins}"], simplified]
  plugins_ledger [OF clearRecovered_keeps clearRecovered_touches [of "{TPlugins, TSuspensions}"], simplified]

lemma promoteEmbedded_ledger [ledgers]: "steps ledgerStep (promoteEmbeddedChildren i ty sp a t)"
  unfolding promoteEmbeddedChildren_def promoteEmbeddedIDs_def promoteChild_def by (intro ledger.steps_rules ledgers) simp_all

lemma insertPlugin_ledger [ledgers]: "steps ledgerStep (insertPlugin r t p)"
proof (rule stepsI)
  fix s u s' assume run: "insertPlugin r t p s = Inr (u, s')"
  then obtain k n where "plugins s' = plugins s @ [p\<lparr>p_Rating := None, p_PublishedVersionID := None, p_NameKey := k, p_PublishedNameKey := None,
       p_NameScope := n, p_CreatedAt := t, p_UpdatedAt := t, p_DeletedAt := None\<rparr>]" and "p_ID p \<notin> p_ID ` set (plugins s)"
    by (rule insertPlugin_run)
  moreover from stepsD [OF insertPlugin_touches [of "{TPlugins}"] run]
  have "relations s' = relations s" "versions s' = versions s" "releases s' = releases s" "receipts s' = receipts s"
    by (simp_all add: sameExcept_relations sameExcept_versions sameExcept_releases sameExcept_receipts)
  moreover have "appendOnly s s'" by (rule stepsD [OF touches_history [OF insertPlugin_touches [of "{TPlugins}"]] run]) simp_all
  ultimately show "ledgerStep s s'" by (simp add: ledgerStep_def keysOK_def)
qed

lemma insertRelationRow_ledger [ledgers]: "steps ledgerStep (insertRelationRow t src c x)"
  by (rule stepsI)
    (auto simp: insertRelationRow_def bindT_Inr thenT_Inr queryT_Inr refuseT_Inr modifyT_Inr ledgerStep_def keysOK_def appendOnly_def)

lemma relation_ledgers [ledgers]:
  "steps ledgerStep (insertRelations r t src c xs)" "steps ledgerStep (syncRelation r t src c k rel st)"
  "steps ledgerStep (deleteEdge t src i)" "steps ledgerStep (syncRelations r t src c xs k)"
proof -
  show "steps ledgerStep (insertRelations r t src c xs)" unfolding insertRelations_def by (intro ledger.steps_rules ledgers)
  have sync: "steps ledgerStep (syncRelation r t src c k rel st)" for rel st
    unfolding syncRelation_def Let_def by (intro ledger.steps_rules ledgers) (simp_all add: rewriteEdge_fields)
  have del: "steps ledgerStep (deleteEdge t src i)" for i
    unfolding deleteEdge_def by (intro ledgers) (simp add: markEdgeDeleted_fields)
  show "steps ledgerStep (syncRelation r t src c k rel st)" "steps ledgerStep (deleteEdge t src i)" by (rule sync del)+
  show "steps ledgerStep (syncRelations r t src c xs k)"
    unfolding syncRelations_def Let_def by (intro ledger.steps_rules sync del)
qed

lemma snapshotVersion_ledger [ledgers]: "steps ledgerStep (snapshotVersion r t p rels cl who idx)"
  unfolding snapshotVersion_def
  by (intro ledger.steps_if ledger.steps_then ledger.steps_when insert_ledger ledger.steps_rules ledgers)
    (auto simp: ledgerStep_def keysOK_def appendOnly_def)

lemma insertRelease_ledger [ledgers]: "steps ledgerStep (insertRelease pid vid label who t)"
  by (rule stepsI)
    (auto simp: insertRelease_def bindT_Inr thenT_Inr queryT_Inr refuseT_Inr modifyT_Inr someT_Inr ledgerStep_def keysOK_def appendOnly_def)

lemma recordRelease_ledger [ledgers]: "steps ledgerStep (recordRelease r p v l a t)"
  unfolding recordRelease_def by (intro ledger.steps_rules ledgers) (simp_all add: stampRelease_def)

lemma insertReceipt_ledger [ledgers]: "steps ledgerStep (insertCardActionReceipt c t)"
  by (rule stepsI)
    (auto simp: insertCardActionReceipt_def bindT_Inr thenT_Inr queryT_Inr refuseT_Inr modifyT_Inr ledgerStep_def keysOK_def appendOnly_def)

lemma claimReceipt_ledger [ledgers]: "steps ledgerStep (claimCardActionReceipt c i d src t)"
  unfolding claimCardActionReceipt_def by (intro ledger.steps_rules mapError_steps ledgers)

section \<open>Every transaction keeps the keys\<close>

lemma publish_ledger [ledgers]: "steps ledgerStep (PublishPlugin r sc p)"
  unfolding PublishPlugin_def by (intro ledger.steps_rules ledgers) (simp add: markPublished_def)

lemma suspendDependency_ledger [ledgers]: "steps ledgerStep (suspendDependency pid src t)"
  by (rule audience_ledger [OF suspendDependency_audience])

lemma suspendSources_ledger: "steps ledgerStep (suspendSources sp pid t ids q seen)"
proof (induction ids arbitrary: q seen)
  case (Cons source ids)
  then show ?case unfolding suspendSources.simps by (intro ledger.steps_rules ledgers audience_ledger [OF demote_audience])
qed (simp add: ledger.steps_return)

lemma suspendLoop_ledger: "steps ledgerStep (suspendLoop fuel sp t q seen)"
proof (induction fuel arbitrary: q seen)
  case (Suc fuel)
  then show ?case
    by (cases q) (auto intro!: ledger.steps_rules ledgers suspendSources_ledger touches_ledger [OF incomingPublishedSources_touches [of "{}"]])
qed (simp add: ledger.steps_throw)

lemma delist_ledger [ledgers]: "steps ledgerStep (DelistPlugin r sc p)"
  unfolding DelistPlugin_def suspendDelistedDependents_def
  by (intro ledger.steps_rules ledgers suspendLoop_ledger audience_ledger [OF demote_audience]) (simp_all add: markDown_def)

lemma publishManaged_ledger [ledgers]: "steps ledgerStep (PublishManaged r sc p)"
  unfolding PublishManaged_def relabelDraft_def finishManagedPublish_def by (intro ledger.steps_rules ledgers) (simp add: markPublished_def)

lemma adopt_ledger [ledgers]: "steps ledgerStep (AdoptPublishedBaseline r sc p)"
  unfolding AdoptPublishedBaseline_def by (intro ledger.steps_rules ledgers)

lemma submit_ledger [ledgers]: "steps ledgerStep (InsertReviewRequest r sc q snap)"
  unfolding InsertReviewRequest_def insertReviewInTx_def Let_def
  by (intro ledger.steps_rules ledgers touches_ledger [OF submittedRelations_touches [of "{}"]]) simp

lemma reject_ledger [ledgers]: "steps ledgerStep (RejectReview r sc p)"
  unfolding RejectReview_def by (intro ledger.steps_rules ledgers)

lemma withdraw_ledger [ledgers]: "steps ledgerStep (CancelReview r sc i uid)"
  by (rule touches_ledger [OF CancelReview_touches [of "{TReviews}"]]) simp_all

lemma approve_ledger [ledgers]: "steps ledgerStep (ApproveReview r sc p)"
  unfolding ApproveReview_def approveManagedReviewInTx_def finishManagedReview_def approveUnmanaged_def applyFrozen_def Let_def
  by (intro ledger.steps_rules ledgers audience_ledger [OF approveVisibility_audience]) (simp_all add: keepDraft_def stampFrozen_def)

lemma save_ledgers [ledgers]:
  "steps ledgerStep (snapshotIf r t m p rels cl)" "steps ledgerStep (auditCreate r t m p)" "steps ledgerStep (auditUpdate r t m prior p)"
  "steps ledgerStep (releaseCreated r sc m p vid)" "steps ledgerStep (releaseSaved r sc prior m b vid)" "steps ledgerStep (auditDelete r t op p)"
  "steps ledgerStep (saveRow r sc t prior p b)" "steps ledgerStep (softDelete sc t pid op)"
  unfolding snapshotIf_def auditCreate_def auditUpdate_def releaseCreated_def releaseSaved_def auditDelete_def saveRow_def softDelete_def
  by (intro ledger.steps_rules ledgers; simp add: writeContent_def markDeleted_def markEdgeDeleted_fields)+

lemma node_ledgers [ledgers]:
  "steps ledgerStep (insertNodes r sc t taken ms)" "steps ledgerStep (wireNode r sc t ids b m)"
  "steps ledgerStep (softDeleteRebuiltChild r sc t op pid)"
  unfolding insertNodes_def insertNode_def wireNode_def softDeleteRebuiltChild_def Let_def
  by (intro ledger.steps_rules ledgers)+

lemma write_ledgers [ledgers]:
  "steps ledgerStep (Create r sc m)" "steps ledgerStep (CreateGraph r sc ms)" "steps ledgerStep (Update r sc m)"
  "steps ledgerStep (UpdateRating r sc p)" "steps ledgerStep (Delete r sc pid op)" "steps ledgerStep (DeleteGraph r sc pid op)"
  "steps ledgerStep (RebuildGraph r sc m ms)"
  unfolding Create_def CreateGraph_def Update_def updateInTx_def finishSave_def UpdateRating_def Delete_def DeleteGraph_def RebuildGraph_def
    rebuildTop_def Let_def
  by (intro ledger.steps_rules ledgers; simp)+

section \<open>The review queue\<close>

definition queueStep :: "Store \<Rightarrow> Store \<Rightarrow> bool" where
  "queueStep s t \<longleftrightarrow> (queueOK s \<longrightarrow> queueOK t \<and> requestsKept s t)"

interpretation queued: tx_frame queueStep
  by unfold_locales (auto simp: queueStep_def intro: queue.frame_refl queue.frame_trans)

lemma requests_queued: "steps requestsKept m \<Longrightarrow> steps keepsQueue m \<Longrightarrow> steps queueStep m"
  unfolding steps_def queueStep_def keepsQueue_def by blast

lemma touches_queued: "steps (sameExcept X) m \<Longrightarrow> TReviews \<notin> X \<Longrightarrow> steps queueStep m"
  by (rule requests_queued) (rule touches_requestsKept touches_keepsQueue; assumption)+

lemma audience_queued: "steps audienceStep m \<Longrightarrow> steps queueStep m"
  by (erule steps_mono) (simp add: audienceStep_def queueStep_def keepsQueue_def)

lemma cancelPending_queued: "steps queueStep (cancelPendingReviewFor t pid who name why)"
  unfolding cancelPendingReviewFor_def
  by (intro queued.steps_rules requests_queued requests)
    (simp_all add: pendingReview_def sameRequest_def markCanceled_def)

text \<open>Transactions that leave the queue alone.\<close>

lemma publish_queued:
  "steps queueStep (PublishPlugin r sc p)" "steps queueStep (PublishManaged r sc p)" "steps queueStep (AdoptPublishedBaseline r sc a)"
  using touches_queued [OF PublishPlugin_touches] touches_queued [OF PublishManaged_touches] touches_queued [OF AdoptPublishedBaseline_touches] by simp_all

lemma receipt_queued: "steps queueStep (InsertCardActionReceipt r c)"
  unfolding InsertCardActionReceipt_def
  by (rule touches_queued [of "- {TReviews}"], intro touch.steps_rules touches) simp_all

lemma policy_queued: "steps queueStep (UpsertReviewPolicy r sc b u n)"
  unfolding UpsertReviewPolicy_def
  by (intro queued.steps_rules queued.steps_modify touches_queued [OF now_touches [of "{}"]]) (simp_all add: queueStep_def queueOK_def requestsKept_same)

lemma save_queued:
  "steps queueStep (Create r sc m)" "steps queueStep (CreateGraph r sc ms)" "steps queueStep (Update r sc m)" "steps queueStep (UpdateRating r sc p)"
  unfolding Create_def CreateGraph_def insertNodes_def insertNode_def wireNode_def Update_def updateInTx_def finishSave_def UpdateRating_def
    releaseCreated_def releaseSaved_def Let_def
  by (rule touches_queued [of "- {TReviews}"]; (intro touch.steps_rules touches reads [THEN reads_touches])?; simp)+

text \<open>Transactions that open or settle requests.\<close>

lemmas statement_queued =
  touches_queued [OF now_touches [of "{}"], simplified] touches_queued [OF newID_touches [of "{}"], simplified]
  touches_queued [OF getOwnedForUpdate_touches [of "{}"], simplified] touches_queued [OF getReviewed_touches [of "{}"], simplified]
  touches_queued [OF mustAffect_touches [of "{}"], simplified] touches_queued [OF mustChangeState_touches [of "{}"], simplified]
  touches_queued [OF updatePlugins_touches [of "{TPlugins}"], simplified] touches_queued [OF updateRelations_touches [of "{TRelations}"], simplified]
  touches_queued [OF insertAudit_touches [of "{TAudits}"], simplified] touches_queued [OF auditDelete_touches [of "{TAudits}"], simplified]
  audit_touches [THEN touches_queued, of "{TAudits}", simplified]
  touches_queued [OF demoteEmbeddedChildren_touches [of "{TPlugins}"], simplified]
  touches_queued [OF suspendDelistedDependents_touches [of "{TPlugins, TSuspensions}"], simplified]
  touches_queued [OF submittedRelations_touches [of "{}"], simplified]
  touches_queued [OF saveRow_touches [of "{TPlugins, TPlacements}"], simplified]
  touches_queued [OF syncRelations_touches [of "{TRelations}"], simplified]
  touches_queued [OF snapshotIf_touches [of "{TPlugins, TVersions, TRefEdges, TRefIndex}"], simplified]
  cancelPending_queued reads [THEN reads_touches, THEN touches_queued, of "{}", simplified]

lemma delist_queued: "steps queueStep (DelistPlugin r sc p)"
  unfolding DelistPlugin_def by (intro queued.steps_rules statement_queued)

lemma submit_queued: "steps queueStep (InsertReviewRequest r sc q snap)"
  unfolding InsertReviewRequest_def insertReviewInTx_def Let_def
  by (intro queued.steps_rules statement_queued requests_queued requests)

lemma softDelete_queued: "steps queueStep (softDelete sc t pid op)" "steps queueStep (softDeleteRebuiltChild r sc t op pid)"
proof -
  show one: "steps queueStep (softDelete sc t pid op)" for pid unfolding softDelete_def by (intro queued.steps_rules statement_queued)
  show "steps queueStep (softDeleteRebuiltChild r sc t op pid)"
    unfolding softDeleteRebuiltChild_def by (intro queued.steps_rules statement_queued one)
qed

lemma node_queued: "steps queueStep (insertNodes r sc t taken ms)" "steps queueStep (wireNode r sc t ids b m)"
  unfolding insertNodes_def insertNode_def wireNode_def Let_def
  by (rule touches_queued [of "- {TReviews}"]; (intro touch.steps_rules touches reads [THEN reads_touches])?; simp)+

lemma delete_queued:
  "steps queueStep (Delete r sc pid op)" "steps queueStep (DeleteGraph r sc pid op)" "steps queueStep (RebuildGraph r sc m ms)"
  unfolding Delete_def DeleteGraph_def RebuildGraph_def rebuildTop_def Let_def
  by (intro queued.steps_rules statement_queued softDelete_queued node_queued)+

lemma decide_queued:
  "steps queueStep (RejectReview r sc p)" "steps queueStep (ApproveReview r sc a)" "steps queueStep (CancelReview r sc i uid)"
proof -
  show "steps queueStep (RejectReview r sc p)"
    by (rule stepsI) (use RejectReview_queue in \<open>force simp: queueStep_def\<close>)
  show "steps queueStep (ApproveReview r sc a)"
    by (rule stepsI) (use ApproveReview_decides in \<open>fastforce simp: queueStep_def\<close>)
  show "steps queueStep (CancelReview r sc i uid)" by (intro requests_queued CancelReview_requests)
qed

section \<open>The transition system\<close>

inductive commit :: "Repo \<Rightarrow> Store \<Rightarrow> Store \<Rightarrow> bool" for r :: Repo where
  Create: "Create r sc m s = Inr (out, t) \<Longrightarrow> commit r s t"
| CreateGraph: "CreateGraph r sc ms s = Inr (outs, t) \<Longrightarrow> commit r s t"
| Update: "Update r sc m s = Inr (out, t) \<Longrightarrow> commit r s t"
| RebuildGraph: "RebuildGraph r sc m ms s = Inr (out, t) \<Longrightarrow> commit r s t"
| UpdateRating: "UpdateRating r sc rating s = Inr (p, t) \<Longrightarrow> commit r s t"
| Delete: "Delete r sc pid op s = Inr ((), t) \<Longrightarrow> commit r s t"
| DeleteGraph: "DeleteGraph r sc pid op s = Inr ((), t) \<Longrightarrow> commit r s t"
| Publish: "PublishPlugin r sc pub s = Inr (p, t) \<Longrightarrow> commit r s t"
| PublishManaged: "PublishManaged r sc pub s = Inr (p, t) \<Longrightarrow> commit r s t"
| Adopt: "AdoptPublishedBaseline r sc adopt s = Inr (p, t) \<Longrightarrow> commit r s t"
| Delist: "DelistPlugin r sc del s = Inr (p, t) \<Longrightarrow> commit r s t"
| ChangeVisibility: "ChangeVisibility r sc vis s = Inr (res, t) \<Longrightarrow> commit r s t"
| Submit: "InsertReviewRequest r sc q snap s = Inr (row, t) \<Longrightarrow> commit r s t"
| Approve: "ApproveReview r sc appr s = Inr (p, t) \<Longrightarrow> commit r s t"
| Reject: "RejectReview r sc rej s = Inr (keys, t) \<Longrightarrow> commit r s t"
| Withdraw: "CancelReview r sc i uid s = Inr (keys, t) \<Longrightarrow> commit r s t"
| Receipt: "InsertCardActionReceipt r c s = Inr ((), t) \<Longrightarrow> commit r s t"
| Policy: "UpsertReviewPolicy r sc enabled uid name s = Inr (pol, t) \<Longrightarrow> commit r s t"
| CreateScene: "CreateScene r scene s = Inr ((), t) \<Longrightarrow> commit r s t"
| UpdateScene: "UpdateScene r i u s = Inr ((), t) \<Longrightarrow> commit r s t"
| DeleteScene: "DeleteScene i s = Inr ((), t) \<Longrightarrow> commit r s t"
| CreatePlacement: "CreatePlacement r i code pid v n s = Inr ((), t) \<Longrightarrow> commit r s t"
| UpdatePlacement: "UpdatePlacement r i w s = Inr ((), t) \<Longrightarrow> commit r s t"
| DeletePlacement: "DeletePlacement i s = Inr ((), t) \<Longrightarrow> commit r s t"
| BatchSetPlacements: "BatchSetPlacements r code items b v n s = Inr ((), t) \<Longrightarrow> commit r s t"
| CreateCategory: "CreateCategory r cat s = Inr ((), t) \<Longrightarrow> commit r s t"
| UpdateCategory: "UpdateCategory r cat s = Inr ((), t) \<Longrightarrow> commit r s t"
| DeleteCategory: "DeleteCategory r i s = Inr ((), t) \<Longrightarrow> commit r s t"

inductive reach :: "Repo \<Rightarrow> Store \<Rightarrow> bool" for r :: Repo where
  init: "reach r emptyStore"
| step: "reach r s \<Longrightarrow> commit r s t \<Longrightarrow> reach r t"

lemma receipt_ledger: "steps ledgerStep (InsertCardActionReceipt r c)"
  unfolding InsertCardActionReceipt_def by (intro ledger.steps_rules ledgers)

lemma policy_ledger: "steps ledgerStep (UpsertReviewPolicy r sc b u n)"
  unfolding UpsertReviewPolicy_def
  by (intro ledger.steps_rules ledger.steps_modify ledgers) (simp_all add: ledgerStep_def keysOK_def appendOnly_def)

text \<open>The administration of the shelves touches neither.\<close>

lemmas console_ledger =
  scene_touches [THEN touches_ledger, simplified] placement_touches [THEN touches_ledger, simplified]
  batch_touches [THEN touches_ledger, simplified] category_touches [THEN touches_ledger, simplified]

lemmas console_queued =
  scene_touches [THEN touches_queued, simplified] placement_touches [THEN touches_queued, simplified]
  batch_touches [THEN touches_queued, simplified] category_touches [THEN touches_queued, simplified]

text \<open>Every commit keeps the keys, the history and the queue.\<close>

lemma commit_ledger: "commit r s t \<Longrightarrow> ledgerStep s t"
  by (induction rule: commit.induct)
    (erule ledgers [THEN stepsD] receipt_ledger [THEN stepsD] policy_ledger [THEN stepsD] audience_ledger [OF ChangeVisibility_audience, THEN stepsD]
      console_ledger [THEN stepsD])+

lemma commit_queue: "commit r s t \<Longrightarrow> queueStep s t"
  by (induction rule: commit.induct)
    (erule publish_queued [THEN stepsD] receipt_queued [THEN stepsD] policy_queued [THEN stepsD] save_queued [THEN stepsD]
      delist_queued [THEN stepsD] submit_queued [THEN stepsD] delete_queued [THEN stepsD] decide_queued [THEN stepsD]
      audience_queued [OF ChangeVisibility_audience, THEN stepsD] console_queued [THEN stepsD])+

lemma reach_ok: "reach r s \<Longrightarrow> keysOK s \<and> queueOK s"
proof (induction rule: reach.induct)
  case init
  show ?case by (simp add: keysOK_def queueOK_def emptyStore_def)
next
  case (step s t)
  then show ?case using commit_ledger [of r s t] commit_queue [of r s t] by (simp add: ledgerStep_def queueStep_def)
qed

lemma reach_star: "reach r s \<Longrightarrow> (commit r)\<^sup>*\<^sup>* s t \<Longrightarrow> reach r t"
  by (rotate_tac 1, induction rule: rtranclp_induct) (auto intro: reach.step)

lemma commits_keep: "reach r s \<Longrightarrow> (commit r)\<^sup>*\<^sup>* s t \<Longrightarrow> appendOnly s t \<and> requestsKept s t"
proof (rotate_tac 1, induction rule: rtranclp_induct)
  case base
  show ?case by (simp add: history.frame_refl queue.frame_refl)
next
  case (step t u)
  then have "reach r t" by (blast intro: reach_star)
  with reach_ok commit_ledger [OF step(2)] commit_queue [OF step(2)]
  have "appendOnly t u" "requestsKept t u" by (auto simp: ledgerStep_def queueStep_def)
  with step show ?case by (blast intro: history.frame_trans queue.frame_trans)
qed

section \<open>The queue refines a register of requests\<close>

text \<open>
  The specification: a partial map from request ids to what was frozen and its status. A request
  is submitted as pending under a new id, and a pending one is decided; nothing else happens.
\<close>

type_synonym frozen = "string \<times> string \<times> ReviewKind \<times> string \<times> raw \<times> raw \<times> PluginRelation list \<times> raw \<times> string"
type_synonym register = "string \<rightharpoonup> frozen \<times> ReviewStatus"

inductive registerStep :: "register \<Rightarrow> register \<Rightarrow> bool" where
  submit: "m i = None \<Longrightarrow> registerStep m (m(i \<mapsto> (c, ReviewStatusPending)))"
| decide: "m i = Some (c, ReviewStatusPending) \<Longrightarrow> d \<noteq> ReviewStatusPending \<Longrightarrow> registerStep m (m(i \<mapsto> (c, d)))"

definition frozenOf :: "PluginReviewRequest \<Rightarrow> frozen" where
  "frozenOf q = (rr_PluginID q, rr_SpaceID q, rr_Kind q, rr_Version q, rr_Manifest q, rr_Package q, rr_Relations q,
     rr_AttachmentKeys q, rr_ApplicantUID q)"

definition registerOf :: "Store \<Rightarrow> register" where
  "registerOf s i = map_option (\<lambda>q. (frozenOf q, rr_Status q)) (find (\<lambda>q. rr_ID q = i) (reviews s))"

text \<open>One entry moves forward.\<close>

definition entryStep :: "(frozen \<times> ReviewStatus) option \<Rightarrow> (frozen \<times> ReviewStatus) option \<Rightarrow> bool" where
  "entryStep x y \<longleftrightarrow> x = y \<or> (\<exists>c d. y = Some (c, d) \<and> (x = None \<or> x = Some (c, ReviewStatusPending)))"

lemma entry_steps: "entryStep (m i) y \<Longrightarrow> registerStep\<^sup>*\<^sup>* m (m(i := y))"
proof -
  assume "entryStep (m i) y"
  then consider "m i = y" | c d where "y = Some (c, d)" "m i = None" | c d where "y = Some (c, d)" "m i = Some (c, ReviewStatusPending)"
    unfolding entryStep_def by blast
  then show ?thesis
  proof cases
    case 1
    then show ?thesis by (metis fun_upd_triv rtranclp.rtrancl_refl)
  next
    case (2 c d)
    have new: "registerStep m (m(i \<mapsto> (c, ReviewStatusPending)))" using 2(2) by (rule submit)
    show ?thesis
    proof (cases "d = ReviewStatusPending")
      case False
      then have "registerStep (m(i \<mapsto> (c, ReviewStatusPending))) ((m(i \<mapsto> (c, ReviewStatusPending)))(i \<mapsto> (c, d)))" by (intro decide) simp_all
      with new 2(1) show ?thesis by (simp add: converse_rtranclp_into_rtranclp)
    qed (use new 2(1) in \<open>simp add: r_into_rtranclp\<close>)
  next
    case (3 c d)
    then show ?thesis
      by (cases "d = ReviewStatusPending") (auto simp: fun_upd_idem intro: r_into_rtranclp decide)
  qed
qed

lemma register_steps:
  assumes "\<And>i. entryStep (m i) (n i)" and "finite {i. m i \<noteq> n i}"
  shows "registerStep\<^sup>*\<^sup>* m n"
  using assms(2,1)
proof (induction "{i. m i \<noteq> n i}" arbitrary: m rule: finite_induct)
  case empty
  then have "m = n" by auto
  then show ?case by simp
next
  case (insert i A)
  have "A = {j. (m(i := n i)) j \<noteq> n j}" using insert.hyps(2,4) by auto
  then have "registerStep\<^sup>*\<^sup>* (m(i := n i)) n" by (rule insert.hyps(3)) (use insert.prems in \<open>auto simp: entryStep_def\<close>)
  moreover have "registerStep\<^sup>*\<^sup>* m (m(i := n i))" by (rule entry_steps) (rule insert.prems)
  ultimately show ?case by (rule rtranclp_trans [rotated])
qed

lemma find_unique: "distinct (map k xs) \<Longrightarrow> x \<in> set xs \<Longrightarrow> find (\<lambda>y. k y = k x) xs = Some x"
  by (induction xs) auto

lemma registerOf_kept:
  assumes "requestsKept s t" and "queueOK t"
  shows "entryStep (registerOf s i) (registerOf t i)"
proof (cases "find (\<lambda>q. rr_ID q = i) (reviews s)")
  case None
  then have "registerOf s i = None" by (simp add: registerOf_def)
  then show ?thesis unfolding entryStep_def by (metis not_None_eq surj_pair)
next
  case (Some q)
  then have q: "q \<in> set (reviews s)" "rr_ID q = i" using find_Some_mem [OF Some] by simp_all
  with assms(1) obtain q' where q': "q' \<in> set (reviews t)" "keptAs q q'" unfolding requestsKept_def by blast
  then have "rr_ID q' = i" "frozenOf q' = frozenOf q" "rr_Status q \<noteq> ReviewStatusPending \<Longrightarrow> q' = q"
    using q(2) by (auto simp: keptAs_def sameRequest_def frozenOf_def)
  moreover have "find (\<lambda>x. rr_ID x = i) (reviews t) = Some q'"
    using find_unique [of rr_ID "reviews t" q'] assms(2) q'(1) calculation(1) by (simp add: queueOK_def)
  ultimately have "registerOf s i = Some (frozenOf q, rr_Status q)" "registerOf t i = Some (frozenOf q, rr_Status q')"
    "rr_Status q \<noteq> ReviewStatusPending \<Longrightarrow> rr_Status q' = rr_Status q"
    using Some by (simp_all add: registerOf_def)
  then show ?thesis unfolding entryStep_def by metis
qed

lemma registerOf_None: "i \<notin> rr_ID ` set (reviews s) \<Longrightarrow> registerOf s i = None"
  unfolding registerOf_def option.map_disc_iff find_None_iff by blast

lemma registerOf_finite: "finite {i. registerOf s i \<noteq> registerOf t i}"
proof (rule finite_subset)
  show "{i. registerOf s i \<noteq> registerOf t i} \<subseteq> rr_ID ` (set (reviews s) \<union> set (reviews t))"
    using registerOf_None by (metis (mono_tags, lifting) UnCI image_Un mem_Collect_eq subsetI)
qed simp

text \<open>A simulation: under an invariant, a concrete step is a run of abstract ones.\<close>

locale simulation =
  fixes cstep :: "'c \<Rightarrow> 'c \<Rightarrow> bool" and astep :: "'a \<Rightarrow> 'a \<Rightarrow> bool" and abs :: "'c \<Rightarrow> 'a" and inv :: "'c \<Rightarrow> bool"
  assumes inv_step: "inv s \<Longrightarrow> cstep s t \<Longrightarrow> inv t"
    and sim_step: "inv s \<Longrightarrow> cstep s t \<Longrightarrow> astep\<^sup>*\<^sup>* (abs s) (abs t)"
begin

lemma inv_run: "cstep\<^sup>*\<^sup>* s t \<Longrightarrow> inv s \<Longrightarrow> inv t"
  by (induction rule: rtranclp_induct) (auto intro: inv_step)

lemma sim_run: "cstep\<^sup>*\<^sup>* s t \<Longrightarrow> inv s \<Longrightarrow> astep\<^sup>*\<^sup>* (abs s) (abs t)"
  by (induction rule: rtranclp_induct) (auto intro: rtranclp_trans sim_step inv_run)

end

interpretation register: simulation "commit r" registerStep registerOf "reach r" for r
proof unfold_locales
  show "reach r s \<Longrightarrow> commit r s t \<Longrightarrow> reach r t" for s t by (rule reach.step)
  show "registerStep\<^sup>*\<^sup>* (registerOf s) (registerOf t)" if "reach r s" "commit r s t" for s t
  proof -
    have "queueOK t" "requestsKept s t" using reach_ok [OF that(1)] commit_queue [OF that(2)] by (simp_all add: queueStep_def)
    then show ?thesis by (intro register_steps registerOf_kept registerOf_finite)
  qed
qed


text \<open>C22: the history is only ever added to. Whatever transactions commit after a reachable store,
  its audit rows, versions, releases and card receipts are still there in their order, and each
  of its requests is still there with what it froze, and unchanged when it was decided.\<close>

theorem history_immutable:
  assumes "reach r s" and "(commit r)\<^sup>*\<^sup>* s t"
  shows "appendOnly s t \<and> requestsKept s t"
  using assms by (rule commits_keep)


section \<open>An open request can always be closed\<close>

lemma CancelReview_succeeds:
  assumes ok: "queueOK s" and q: "q \<in> set (reviews s)" "pendingReview q"
    and row: "\<exists>p \<in> set (plugins s). reviewedRow (rr_SpaceID q) (rr_PluginID q) p"
    and alone: "\<forall>g \<in> set (groups s). g_ReviewID g \<noteq> rr_ID q" and sc: "s_SpaceID sc = rr_SpaceID q"
  shows "\<exists>out s'. CancelReview r sc (rr_ID q) (rr_ApplicantUID q) s = Inr (out, s')"
proof -
  let ?own = "ownRequest (rr_ID q) (rr_SpaceID q) (rr_ApplicantUID q)"
  have "x = q" if "x \<in> set (reviews s)" "?own x" for x
    using that q(1) ok distinct_key_eq [of rr_ID "reviews s" x q] by (simp add: queueOK_def ownRequest_def)
  moreover have own: "?own q" using q(2) by (simp add: ownRequest_def pendingReview_def)
  ultimately have found: "find ?own (reviews s) = Some q"
    using q(1) by (metis find_None_iff find_Some_mem not_None_eq)
  from row obtain p where p: "find (reviewedRow (rr_SpaceID q) (rr_PluginID q)) (plugins s) = Some p"
    by (metis find_None_iff not_None_eq)
  have aff: "0 < affected (\<lambda>x. ?own x \<and> rr_Status x = ReviewStatusPending) (markWithdrawn t) (reviews s)" for t
  proof -
    have "rr_Status (markWithdrawn t q) \<noteq> rr_Status q" using q(2) by (simp add: markWithdrawn_def pendingReview_def)
    then show ?thesis unfolding affected_pos using q own by (metis pendingReview_def)
  qed
  have "find (\<lambda>g. g_ReviewID g = rr_ID q) (groups s) = None" using alone by (simp add: find_None_iff)
  then have "groupMembers (s\<lparr>tickCount := n, reviews := x\<rparr>) (rr_ID q) = []" for n x
    by (simp add: groupMembers_def visibilityGroup_def)
  moreover have "mapError ErrNotFound ErrConflict (mustAffect n) s = Inr ((), s)" if "0 < n" for n and s :: Store
    using that by (simp add: mapError_def mustAffect_def tx_eval)
  ultimately show ?thesis using q(2) sc found p aff
    by (simp add: CancelReview_def finishVisibilityGroup_def pendingReview_def tx_eval thenT_def bindT_def queryT_def returnT_def now_def updateReviews_def)
qed

lemma CancelReview_found:
  "CancelReview r sc i uid s = Inr (out, t) \<Longrightarrow> \<exists>q. find (ownRequest i (s_SpaceID sc) uid) (reviews s) = Some q"
  by (auto simp: CancelReview_def bindT_Inr queryT_Inr someT_Inr)


section \<open>A run\<close>

text \<open>An owner creates a draft skill for the Space and submits it for review.\<close>

definition stateAfter :: "RepoError + ('a \<times> Store) \<Rightarrow> Store" where
  "stateAfter x = (case x of Inl _ \<Rightarrow> emptyStore | Inr (_, s) \<Rightarrow> s)"

lemma stateAfter_run: "\<not> isl x \<Longrightarrow> \<exists>out. x = Inr (out, stateAfter x)"
  by (cases x) (auto simp: stateAfter_def)

definition firstStore :: Store where
  "firstStore = stateAfter (Create sampleRepo sampleOwner
     (sampleMutation (draftPlugin\<lparr>p_ListingState := PluginListingStateDraft, p_Visibility := PluginVisibilitySpace\<rparr>)) emptyStore)"

definition queuedStore :: Store where
  "queuedStore = stateAfter (InsertReviewRequest sampleRepo sampleOwner (sampleRequest '''' ''d'') sampleFrozen firstStore)"

lemma sample_run: "reach sampleRepo firstStore" "commit sampleRepo firstStore queuedStore" "reach sampleRepo queuedStore"
proof -
  let ?m = "sampleMutation (draftPlugin\<lparr>p_ListingState := PluginListingStateDraft, p_Visibility := PluginVisibilitySpace\<rparr>)"
  have "\<not> isl (Create sampleRepo sampleOwner ?m emptyStore)" by code_simp
  from stateAfter_run [OF this] have "commit sampleRepo emptyStore firstStore" unfolding firstStore_def by (elim exE, intro commit.Create)
  then show first: "reach sampleRepo firstStore" by (rule reach.step [OF reach.init])
  have "\<not> isl (InsertReviewRequest sampleRepo sampleOwner (sampleRequest '''' ''d'') sampleFrozen firstStore)" by code_simp
  from stateAfter_run [OF this] show queued: "commit sampleRepo firstStore queuedStore"
    unfolding queuedStore_def by (elim exE, intro commit.Submit)
  show "reach sampleRepo queuedStore" using first queued by (rule reach.step)
qed


theorem history_immutable_witness: "appendOnly firstStore queuedStore \<and> requestsKept firstStore queuedStore \<and> length (versions firstStore) = 1"
proof -
  have "length (versions firstStore) = 1" by code_simp
  with history_immutable [OF sample_run(1) r_into_rtranclp, OF sample_run(2)] show ?thesis by simp
qed



end
