(* ===== verification/Console.thy ===== *)
theory Console
  imports Scenes
begin

text \<open>
  The administration services over scenes, placements and categories,
  \<open>service/plugin/scenes.go\<close> and \<open>service/plugin/categories.go\<close>: what they refuse before the
  repository is called, the values they normalise, and how they report its errors.

  A service call is a sequence of repository transactions, each committed or rolled back by
  itself. A plugin type is one of the four, so \<open>validPluginType\<close> holds of every argument; an
  absent type filter is \<open>None\<close>. Ids are minted with the generator of the repository.
\<close>

section \<open>Service calls\<close>

datatype ServiceError = SvcInvalidRequest | SvcNotFound | SvcConflict | SvcStore RepoError | SvcBatchItem nat ServiceError

type_synonym 'a svc = "Store \<Rightarrow> (ServiceError + 'a) \<times> Store"

definition returnS :: "'a \<Rightarrow> 'a svc" where
  "returnS a = (\<lambda>s. (Inr a, s))"

definition bindS :: "'a svc \<Rightarrow> ('a \<Rightarrow> 'b svc) \<Rightarrow> 'b svc" where
  "bindS m f = (\<lambda>s. case m s of (Inl e, t) \<Rightarrow> (Inl e, t) | (Inr a, t) \<Rightarrow> f a t)"

definition refuseS :: "bool \<Rightarrow> ServiceError \<Rightarrow> 'a svc \<Rightarrow> 'a svc" where
  "refuseS b e m = (if b then (\<lambda>s. (Inl e, s)) else m)"

definition callS :: "('e \<Rightarrow> ServiceError) \<Rightarrow> (Store, 'e, 'a) tx \<Rightarrow> 'a svc" where
  "callS g m = (\<lambda>s. atomicT (failT g m) s)"

definition mapSceneStoreError :: "RepoError \<Rightarrow> ServiceError" where
  "mapSceneStoreError e = (case e of ErrNotFound \<Rightarrow> SvcNotFound | ErrConflict \<Rightarrow> SvcConflict | _ \<Rightarrow> SvcStore e)"

definition mapBatchError :: "SceneError \<Rightarrow> ServiceError" where
  "mapBatchError e = (case e of SceneFailure x \<Rightarrow> mapSceneStoreError x | BatchItemError i x \<Rightarrow> SvcBatchItem i (mapSceneStoreError x))"

section \<open>Scenes\<close>

definition sceneStart :: "char \<Rightarrow> bool" where
  "sceneStart c \<longleftrightarrow> CHR ''a'' \<le> c \<and> c \<le> CHR ''z'' \<or> CHR ''0'' \<le> c \<and> c \<le> CHR ''9''"

definition validSceneCode :: "string \<Rightarrow> bool" where
  "validSceneCode code =
     (case code of
        [] \<Rightarrow> False
      | c # rest \<Rightarrow> sceneStart c \<and> list_all (\<lambda>x. sceneStart x \<or> x \<in> {CHR ''.'', CHR ''_'', CHR ''-''}) rest \<and> length rest \<le> 127)"

definition validSceneText :: "string \<Rightarrow> string \<Rightarrow> bool" where
  "validSceneText name description \<longleftrightarrow> name \<noteq> '''' \<and> runeCount name \<le> 128 \<and> runeCount description \<le> 1024"

record SceneCreateParams =
  scp_Code :: string
  scp_Name :: string
  scp_Description :: string
  scp_SortOrder :: int

definition AdminListScenes :: "PluginScene list svc" where
  "AdminListScenes = callS mapSceneStoreError (queryT ListScenes)"

definition AdminCreateScene :: "Repo \<Rightarrow> SceneCreateParams \<Rightarrow> PluginScene svc" where
  "AdminCreateScene r p =
     (let code = trimSpace (scp_Code p); name = trimSpace (scp_Name p); description = trimSpace (scp_Description p) in
      refuseS (\<not> validSceneCode code \<or> \<not> validSceneText name description \<or> scp_SortOrder p < 0) SvcInvalidRequest
     (bindS (callS mapSceneStoreError (newID r)) (\<lambda>i.
      bindS (callS mapSceneStoreError (CreateScene r \<lparr>sc_ID = i, sc_Code = code, sc_Name = name, sc_Description = description,
              sc_SortOrder = scp_SortOrder p, sc_CreatedAt = 0, sc_UpdatedAt = 0\<rparr>)) (\<lambda>_.
      callS mapSceneStoreError (GetScene i)))))"

definition AdminUpdateScene :: "Repo \<Rightarrow> string \<Rightarrow> SceneUpdate \<Rightarrow> PluginScene svc" where
  "AdminUpdateScene r sceneID p =
     (let name = map_option trimSpace (su_Name p); description = map_option trimSpace (su_Description p) in
      refuseS (trimSpace sceneID = '''' \<or> su_Name p = None \<and> su_Description p = None \<and> su_SortOrder p = None) SvcInvalidRequest
     (refuseS (case name of None \<Rightarrow> False | Some n \<Rightarrow> n = '''' \<or> 128 < runeCount n) SvcInvalidRequest
     (refuseS (case description of None \<Rightarrow> False | Some d \<Rightarrow> 1024 < runeCount d) SvcInvalidRequest
     (refuseS (case su_SortOrder p of None \<Rightarrow> False | Some n \<Rightarrow> n < 0) SvcInvalidRequest
     (bindS (callS mapSceneStoreError (UpdateScene r sceneID (p\<lparr>su_Name := name, su_Description := description\<rparr>))) (\<lambda>_.
      callS mapSceneStoreError (GetScene sceneID)))))))"

definition AdminDeleteScene :: "string \<Rightarrow> unit svc" where
  "AdminDeleteScene sceneID =
     refuseS (trimSpace sceneID = '''') SvcInvalidRequest (callS mapSceneStoreError (DeleteScene sceneID))"

section \<open>Placements\<close>

definition maxListLimit :: int where
  "maxListLimit = 100"

definition AdminListPlacements ::
  "(char \<Rightarrow> char \<Rightarrow> bool) \<Rightarrow> PlacementListFilter \<Rightarrow> (AdminPluginPlacement list \<times> nat) svc" where
  "AdminListPlacements same p =
     refuseS (pf_Limit p < 0 \<or> pf_Limit p > maxListLimit \<or> pf_Offset p < 0) SvcInvalidRequest
       (callS mapSceneStoreError (queryT (\<lambda>s. ListPlacements same s
          (p\<lparr>pf_SceneCode := trimSpace (pf_SceneCode p), pf_Keyword := trimSpace (pf_Keyword p)\<rparr>))))"

record PlacementCreateParams =
  pcp_SceneCode :: string
  pcp_PluginID :: string
  pcp_IsVisible :: bool
  pcp_SortOrder :: int

definition AdminCreatePlacement :: "Repo \<Rightarrow> PlacementCreateParams \<Rightarrow> AdminPluginPlacement svc" where
  "AdminCreatePlacement r p =
     (let code = trimSpace (pcp_SceneCode p); pid = trimSpace (pcp_PluginID p) in
      refuseS (\<not> validSceneCode code \<or> pid = '''' \<or> pcp_SortOrder p < 0) SvcInvalidRequest
     (refuseS (code = ''default'' \<and> \<not> pcp_IsVisible p) SvcConflict
     (bindS (callS mapSceneStoreError (newID r)) (\<lambda>i.
      bindS (callS mapSceneStoreError (CreatePlacement r i code pid (pcp_IsVisible p) (pcp_SortOrder p))) (\<lambda>_.
      callS mapSceneStoreError (GetPlacement i))))))"

definition AdminUpdatePlacement :: "Repo \<Rightarrow> string \<Rightarrow> PlacementUpdate \<Rightarrow> AdminPluginPlacement svc" where
  "AdminUpdatePlacement r placementID p =
     refuseS (trimSpace placementID = '''' \<or> pu_IsVisible p = None \<and> pu_SortOrder p = None) SvcInvalidRequest
    (refuseS (case pu_SortOrder p of None \<Rightarrow> False | Some n \<Rightarrow> n < 0) SvcInvalidRequest
    (bindS (callS mapSceneStoreError (UpdatePlacement r placementID p)) (\<lambda>_.
     callS mapSceneStoreError (GetPlacement placementID))))"

definition AdminDeletePlacement :: "string \<Rightarrow> unit svc" where
  "AdminDeletePlacement placementID =
     refuseS (trimSpace placementID = '''') SvcInvalidRequest (callS mapSceneStoreError (DeletePlacement placementID))"

record PlacementBatchParams =
  pbp_SceneCode :: string
  pbp_PluginIDs :: "string list"
  pbp_IsPlaced :: bool
  pbp_IsVisible :: bool
  pbp_SortOrder :: int

text \<open>The ids of a batch, trimmed: the first empty or repeated one is reported with its index.\<close>

fun batchIDs :: "nat \<Rightarrow> string list \<Rightarrow> string list \<Rightarrow> ServiceError + string list" where
  "batchIDs i seen [] = Inr (rev seen)"
| "batchIDs i seen (x # xs) =
     (if trimSpace x = '''' \<or> trimSpace x \<in> set seen then Inl (SvcBatchItem i SvcInvalidRequest)
      else batchIDs (Suc i) (trimSpace x # seen) xs)"

definition batchItem :: "Repo \<Rightarrow> bool \<Rightarrow> nat \<times> string \<Rightarrow> PlacementBatchItem stx" where
  "batchItem r isPlaced = (\<lambda>(i, pid).
     bindT (if isPlaced then newID r else returnT '''') (\<lambda>x. returnT \<lparr>bi_PlacementID = x, bi_PluginID = pid, bi_InputIndex = i\<rparr>))"

definition AdminBatchSetPlacements :: "Repo \<Rightarrow> PlacementBatchParams \<Rightarrow> unit svc" where
  "AdminBatchSetPlacements r p =
     (let code = trimSpace (pbp_SceneCode p) in
      refuseS (\<not> validSceneCode code \<or> pbp_PluginIDs p = [] \<or> 100 < length (pbp_PluginIDs p) \<or> pbp_SortOrder p < 0) SvcInvalidRequest
     (refuseS (code = ''default'' \<and> (\<not> pbp_IsPlaced p \<or> \<not> pbp_IsVisible p)) SvcConflict
     (case batchIDs 0 [] (pbp_PluginIDs p) of
        Inl e \<Rightarrow> (\<lambda>s. (Inl e, s))
      | Inr ids \<Rightarrow>
          bindS (callS mapSceneStoreError (mapT (batchItem r (pbp_IsPlaced p)) (zip [0..<length ids] ids))) (\<lambda>items.
          callS mapBatchError (BatchSetPlacements r code (sort_key bi_PluginID items)
            (pbp_IsPlaced p) (pbp_IsVisible p) (pbp_SortOrder p))))))"

section \<open>Categories\<close>

definition mapCategoryErr :: "RepoError \<Rightarrow> ServiceError" where
  "mapCategoryErr e = (case e of ErrNotFound \<Rightarrow> SvcNotFound | ErrConflict \<Rightarrow> SvcConflict | _ \<Rightarrow> SvcStore e)"

definition marshalPluginTypes :: "string \<Rightarrow> PluginType list \<Rightarrow> (ServiceError + PluginType list)" where
  "marshalPluginTypes name types = (if name = '''' \<or> types = [] then Inl SvcInvalidRequest else Inr types)"

definition AdminListCategories :: "PluginType \<Rightarrow> PluginCategory list svc" where
  "AdminListCategories typ = callS mapCategoryErr (queryT (\<lambda>s. ListAdminCategories s typ))"

text \<open>The category a write passes on; the repository stamps the columns that are zero here.\<close>

definition categoryOf :: "string \<Rightarrow> string \<Rightarrow> string \<Rightarrow> PluginType list \<Rightarrow> int \<Rightarrow> int \<Rightarrow> CategoryRow" where
  "categoryOf i name iconKey types sortOrder status = \<lparr>cat_ID = i, cat_Name = name, cat_IconKey = iconKey, cat_Types = types,
     cat_SortOrder = sortOrder, cat_Status = status, cat_CreatedAt = 0, cat_UpdatedAt = 0, cat_DeletedAt = None\<rparr>"

definition AdminCreateCategory :: "Repo \<Rightarrow> string \<Rightarrow> string \<Rightarrow> PluginType list \<Rightarrow> int \<Rightarrow> CategoryRow svc" where
  "AdminCreateCategory r name iconKey types sortOrder =
     (case marshalPluginTypes (trimSpace name) types of
        Inl e \<Rightarrow> (\<lambda>s. (Inl e, s))
      | Inr raw \<Rightarrow>
          bindS (callS mapCategoryErr (newID r)) (\<lambda>i.
          let cat = categoryOf i (trimSpace name) iconKey raw sortOrder 1 in
          bindS (callS mapCategoryErr (CreateCategory r cat)) (\<lambda>_. returnS cat)))"

definition AdminUpdateCategory :: "Repo \<Rightarrow> string \<Rightarrow> string \<Rightarrow> string \<Rightarrow> PluginType list \<Rightarrow> int \<Rightarrow> CategoryRow svc" where
  "AdminUpdateCategory r cid name iconKey types sortOrder =
     refuseS (trimSpace cid = '''') SvcInvalidRequest
     (case marshalPluginTypes (trimSpace name) types of
        Inl e \<Rightarrow> (\<lambda>s. (Inl e, s))
      | Inr raw \<Rightarrow>
          (let cat = categoryOf cid (trimSpace name) iconKey raw sortOrder 0 in
          bindS (callS mapCategoryErr (UpdateCategory r cat)) (\<lambda>_. returnS cat)))"

definition AdminDeleteCategory :: "Repo \<Rightarrow> string \<Rightarrow> unit svc" where
  "AdminDeleteCategory r cid =
     refuseS (trimSpace cid = '''') SvcInvalidRequest (callS mapCategoryErr (DeleteCategory r cid))"

section \<open>A batch of placements\<close>

lemma callS_Inr: "callS g m s = (Inr a, t) \<longleftrightarrow> m s = Inr (a, t)"
  by (simp add: callS_def tx_simps)

lemma callS_Inl: "callS g m s = (Inl e, t) \<Longrightarrow> t = s"
  by (simp add: callS_def atomicT_Inl)

lemma callS_frame: "steps R m \<Longrightarrow> (\<And>x. R x x) \<Longrightarrow> callS g m s = (res, t) \<Longrightarrow> R s t"
  by (cases res) (auto dest: callS_Inl simp: callS_Inr intro: stepsD)

lemma bindS_cases:
  assumes "bindS m f s = (res, t)"
  obtains (stop) e where "m s = (Inl e, t)" "res = Inl e" | (go) a u where "m s = (Inr a, u)" "f a u = (res, t)"
  using assms unfolding bindS_def by (auto split: prod.splits sum.splits)

lemma batchIDs_Inr:
  "batchIDs i seen xs = Inr ids \<Longrightarrow> distinct seen \<Longrightarrow>
     ids = rev seen @ map trimSpace xs \<and> distinct ids \<and> '''' \<notin> set (map trimSpace xs)"
  by (induction i seen xs rule: batchIDs.induct) (fastforce split: if_splits)+

lemma batch_items:
  "mapT (batchItem r b) (zip [i..<i + length ids] ids) s = Inr (items, t) \<Longrightarrow>
     map bi_PluginID items = ids \<and> map bi_InputIndex items = [i..<i + length ids] \<and> sameExcept {} s t"
proof (induction ids arbitrary: i s items)
  case Nil
  then show ?case by (simp add: tx_simps touch.frame_refl)
next
  case (Cons x ids)
  have upt: "[i..<i + length (x # ids)] = i # [Suc i..<Suc i + length ids]" by (simp add: upt_conv_Cons del: upt_Suc)
  from Cons.prems obtain item u rest where one: "batchItem r b (i, x) s = Inr (item, u)"
    and more: "mapT (batchItem r b) (zip [Suc i..<Suc i + length ids] ids) u = Inr (rest, t)" and items: "items = item # rest"
    unfolding upt by (auto simp: tx_simps)
  from one have "bi_PluginID item = x" "bi_InputIndex item = i" by (auto simp: batchItem_def tx_simps)
  moreover have "steps (sameExcept {}) (batchItem r b (i, x))"
    unfolding batchItem_def prod.case by (intro touch.steps_rules touches)
  from stepsD [OF this one] have "sameExcept {} s u" .
  ultimately show ?case using Cons.IH [OF more] items unfolding upt by (auto intro: touch.frame_trans)
qed

lemma placed_once:
  assumes "placementKeys t" and "\<exists>y \<in> set (placements t). placedAs s code v n pid y"
  shows "\<exists>y. {x \<in> set (placements t). at code pid x} = {y} \<and> placedAs s code v n pid y"
proof -
  from assms(2) obtain y where y: "y \<in> set (placements t)" "placedAs s code v n pid y" by blast
  then have "at code pid y" by (simp add: placedAs_def)
  with y have "{x \<in> set (placements t). at code pid x} = {y}" by (blast intro: at_unique [OF assms(1)])
  with y(2) show ?thesis by blast
qed

lemma BatchSet_exact:
  assumes "BatchSetPlacements r code items isPlaced v n s = Inr (u, t)" and "placementKeys s" and "distinct (map bi_PluginID items)"
  shows "(code = ''default'' \<longrightarrow> isPlaced \<and> v) \<and> plugins t = plugins s \<and> placementKeys t \<and>
    (\<forall>pid \<in> bi_PluginID ` set items. if isPlaced then \<exists>y. {x \<in> set (placements t). at code pid x} = {y} \<and> placedAs s code v n pid y
       else {x \<in> set (placements t). at code pid x} = {}) \<and>
    (\<forall>y. (\<forall>pid \<in> bi_PluginID ` set items. \<not> at code pid y) \<longrightarrow> y \<in> set (placements t) \<longleftrightarrow> y \<in> set (placements s))"
proof -
  from assms(1) obtain scene where "find (\<lambda>x. sc_Code x = code) (scenes s) = Some scene"
    and guard: "sc_Code scene = ''default'' \<longrightarrow> isPlaced \<and> v"
    and loop: "forT (\<lambda>item. failT (BatchItemError (bi_InputIndex item)) (setPlacementItem r (sc_Code scene) isPlaced v n item)) items s = Inr (u, t)"
    by (auto simp: BatchSetPlacements_def sceneByCode_def tx_simps)
  then have code: "sc_Code scene = code" using find_Some_mem [of _ "scenes s" scene] by auto
  show ?thesis
  proof (cases isPlaced)
    case True
    with loop have "forT (\<lambda>item. failT (BatchItemError (bi_InputIndex item)) (setPlacementItem r code True v n item)) items s = Inr (u, t)"
      by (simp add: code)
    from place_items [OF this assms(2,3)] guard placed_once [of t s code v n] show ?thesis unfolding code using True by simp
  next
    case False
    with loop have "forT (\<lambda>item. failT (BatchItemError (bi_InputIndex item)) (setPlacementItem r code False v n item)) items s = Inr (u, t)"
      by (simp add: code)
    from remove_items [OF this]
    have t: "t = s\<lparr>placements := filter (\<lambda>y. \<forall>item \<in> set items. \<not> at code (bi_PluginID item) y) (placements s)\<rparr>" .
    have "placementKeys t" using assms(2) by (simp add: t placementKeys_def distinct_map_filter)
    moreover have "plugins t = plugins s" by (simp add: t)
    moreover have "y \<in> set (placements t) \<longleftrightarrow> y \<in> set (placements s) \<and> (\<forall>pid \<in> bi_PluginID ` set items. \<not> at code pid y)" for y
      unfolding t by simp
    ultimately show ?thesis using guard False unfolding code by simp blast
  qed
qed

text \<open>The batch call of the console, through the service and the repository. If it fails, no table
  has changed. If it succeeds, the plugin ids it was given are non-empty and pairwise different
  after trimming, the plugins it names have exactly one placement on the scene, with the requested
  visibility and order and the plugin's category (or none, when the batch removes), and every
  other placement is as before. On the default scene only showing is possible.
\<close>

theorem AdminBatchSetPlacements_exact:
  assumes keys: "placementKeys s" and run: "AdminBatchSetPlacements r p s = (res, t)"
  shows "let code = trimSpace (pbp_SceneCode p); ids = map trimSpace (pbp_PluginIDs p) in
    case res of
      Inl e \<Rightarrow> sameExcept {} s t
    | Inr _ \<Rightarrow> distinct ids \<and> '''' \<notin> set ids \<and> length ids \<le> 100 \<and> plugins t = plugins s \<and> placementKeys t \<and>
        (code = ''default'' \<longrightarrow> pbp_IsPlaced p \<and> pbp_IsVisible p) \<and>
        (\<forall>pid \<in> set ids.
           if pbp_IsPlaced p then \<exists>y. {x \<in> set (placements t). at code pid x} = {y} \<and> placedAs s code (pbp_IsVisible p) (pbp_SortOrder p) pid y
           else {x \<in> set (placements t). at code pid x} = {}) \<and>
        (\<forall>y. (\<forall>pid \<in> set ids. \<not> at code pid y) \<longrightarrow> y \<in> set (placements t) \<longleftrightarrow> y \<in> set (placements s))"
proof -
  define code where "code = trimSpace (pbp_SceneCode p)"
  define ids where "ids = map trimSpace (pbp_PluginIDs p)"
  have same: "sameExcept {} s s" by (rule touch.frame_refl)
  show ?thesis
  proof (cases "\<not> validSceneCode code \<or> pbp_PluginIDs p = [] \<or> 100 < length (pbp_PluginIDs p) \<or> pbp_SortOrder p < 0 \<or>
      code = ''default'' \<and> (\<not> pbp_IsPlaced p \<or> \<not> pbp_IsVisible p) \<or> isl (batchIDs 0 [] (pbp_PluginIDs p))")
    case True
    with run have "isl res" "t = s"
      by (auto simp: AdminBatchSetPlacements_def Let_def refuseS_def code_def split: if_splits sum.splits)
    then show ?thesis by (auto simp: Let_def isl_def same)
  next
    case False
    then obtain ids' where ids': "batchIDs 0 [] (pbp_PluginIDs p) = Inr ids'" by (cases "batchIDs 0 [] (pbp_PluginIDs p)") auto
    then have fine: "ids' = ids" "distinct ids" "'''' \<notin> set ids" using batchIDs_Inr [OF ids'] by (auto simp: ids_def)
    have short: "length ids \<le> 100" using False by (simp add: ids_def)
    from run False ids' have body:
      "bindS (callS mapSceneStoreError (mapT (batchItem r (pbp_IsPlaced p)) (zip [0..<length ids] ids))) (\<lambda>items.
          callS mapBatchError (BatchSetPlacements r code (sort_key bi_PluginID items) (pbp_IsPlaced p) (pbp_IsVisible p) (pbp_SortOrder p))) s = (res, t)"
      by (cases "code = ''default''") (simp_all add: AdminBatchSetPlacements_def Let_def refuseS_def code_def fine(1))
    then show ?thesis
    proof (cases rule: bindS_cases)
      case (stop e)
      then show ?thesis using callS_Inl [OF stop(1)] same by (simp add: Let_def)
    next
      case (go items w)
      from go(1) have mint: "map bi_PluginID items = ids" "sameExcept {} s w"
        using batch_items [where i = 0] by (auto simp: callS_Inr)
      have w: "plugins w = plugins s" "placements w = placements s"
        using sameExcept_tables [OF mint(2)] by simp_all
      have ids_eq: "bi_PluginID ` set (sort_key bi_PluginID items) = set ids" "distinct (map bi_PluginID (sort_key bi_PluginID items))"
        using mint(1) fine(2) by (auto simp: distinct_map)
      show ?thesis
      proof (cases res)
        case (Inl e)
        with go(2) have "t = w" by (simp add: callS_Inl)
        with mint(2) Inl show ?thesis by (simp add: Let_def)
      next
        case (Inr x)
        with go(2) have set: "BatchSetPlacements r code (sort_key bi_PluginID items) (pbp_IsPlaced p) (pbp_IsVisible p) (pbp_SortOrder p) w = Inr (x, t)"
          by (simp add: callS_Inr)
        have "placementKeys w" using keys by (simp add: placementKeys_def w)
        note set_batch = BatchSet_exact [OF set this ids_eq(2), unfolded ids_eq(1) placedAs_plugins [OF w(1)] w]
        show ?thesis using set_batch fine short Inr unfolding Let_def code_def ids_def by simp
      qed
    qed
  qed
qed

definition sampleBatch :: PlacementBatchParams where
  "sampleBatch = \<lparr>pbp_SceneCode = '' spring'', pbp_PluginIDs = [''axb'', ''a_b ''], pbp_IsPlaced = True, pbp_IsVisible = False, pbp_SortOrder = 3\<rparr>"

theorem AdminBatchSetPlacements_exact_witness:
  "\<exists>t. AdminBatchSetPlacements sampleRepo sampleBatch shelfStore = (Inr (), t) \<and>
     (\<exists>y. {x \<in> set (placements t). at ''spring'' ''a_b'' x} = {y} \<and> \<not> pl_Visible y \<and> pl_SortOrder y = 3)"
proof -
  have keys: "placementKeys shelfStore" by code_simp
  have "fst (AdminBatchSetPlacements sampleRepo sampleBatch shelfStore) = Inr ()" by code_simp
  then obtain t where run: "AdminBatchSetPlacements sampleRepo sampleBatch shelfStore = (Inr (), t)" by (metis prod.collapse)
  have "trimSpace (pbp_SceneCode sampleBatch) = ''spring''" "map trimSpace (pbp_PluginIDs sampleBatch) = [''axb'', ''a_b'']"
    "pbp_IsPlaced sampleBatch" "\<not> pbp_IsVisible sampleBatch" "pbp_SortOrder sampleBatch = 3" by code_simp+
  with AdminBatchSetPlacements_exact [OF keys run] run show ?thesis by (auto simp: Let_def placedAs_def)
qed

end
