(* ===== verification/Shelves.thy ===== *)
theory Shelves
  imports System Console
begin

text \<open>
  What the administration of the shelves guarantees to the rest of the system: in every store the
  transactions reach, the category of a live plugin is live and admits the plugin's type, a plugin
  has at most one placement on a shelf, and a plugin that is visible on the default shelf stays
  visible there.
\<close>

section \<open>Categories in use\<close>

definition serves :: "Store \<Rightarrow> string option \<Rightarrow> PluginType \<Rightarrow> bool" where
  "serves s cat ty \<longleftrightarrow>
     (case cat of None \<Rightarrow> True | Some c \<Rightarrow> \<exists>x \<in> set (categories s). cat_ID x = c \<and> liveCategory x \<and> ty \<in> set (cat_Types x))"

definition shelved :: "Store \<Rightarrow> bool" where
  "shelved s \<longleftrightarrow> (\<forall>p \<in> set (plugins s). p_Status p = 1 \<and> p_DeletedAt p = None \<longrightarrow> serves s (p_CategoryID p) (p_Type p))"

definition shelfOK :: "Store \<Rightarrow> bool" where
  "shelfOK s \<longleftrightarrow> shelved s \<and> distinct (map cat_ID (categories s)) \<and> distinct (map sc_ID (scenes s)) \<and> distinct (map sc_Code (scenes s)) \<and>
     distinct (map placementKey (placements s))"

definition shelfStep :: "Store \<Rightarrow> Store \<Rightarrow> bool" where
  "shelfStep s t \<longleftrightarrow> (shelfOK s \<longrightarrow> shelfOK t) \<and> (\<forall>pid. marketPlaced s pid \<longrightarrow> marketPlaced t pid)"

text \<open>A step of a transaction that has locked the category \<open>cat\<close> for the type \<open>ty\<close>.\<close>

definition servedStep :: "string option \<Rightarrow> PluginType \<Rightarrow> Store \<Rightarrow> Store \<Rightarrow> bool" where
  "servedStep cat ty s t \<longleftrightarrow> categories t = categories s \<and> (serves s cat ty \<longrightarrow> shelfStep s t)"

lemma serves_same: "categories t = categories s \<Longrightarrow> serves t cat ty = serves s cat ty"
  by (cases cat) (simp_all add: serves_def)

interpretation shelf: tx_frame shelfStep
  by unfold_locales (auto simp: shelfStep_def)

interpretation served: tx_frame "servedStep cat ty" for cat ty
proof unfold_locales
  show "servedStep cat ty s s" for s by (simp add: servedStep_def shelf.frame_refl)
  show "servedStep cat ty s u" if "servedStep cat ty s t" "servedStep cat ty t u" for s t u
    using that unfolding servedStep_def by (metis serves_same shelf.frame_trans)
qed

lemma served_shelf: "steps (servedStep None PluginTypeSkill) m \<Longrightarrow> steps shelfStep m"
  by (erule steps_mono) (simp add: servedStep_def serves_def)

lemma lockPluginCategory_serves: "lockPluginCategory cat ty s = Inr (u, t) \<Longrightarrow> t = s \<and> serves s cat ty"
  by (auto simp: lockPluginCategory_def serves_def liveCategory_def tx_simps split: option.splits)

lemma lock_then:
  assumes "steps (servedStep cat ty) m"
  shows "steps (servedStep cat' ty') (thenT (lockPluginCategory cat ty) m)"
proof (rule stepsI)
  fix s u t assume "thenT (lockPluginCategory cat ty) m s = Inr (u, t)"
  then have "serves s cat ty" "m s = Inr (u, t)" using lockPluginCategory_serves by (auto simp: thenT_Inr)
  with stepsD [OF assms] show "servedStep cat' ty' s t" by (auto simp: servedStep_def)
qed

section \<open>Statements\<close>

named_theorems serving "statements that keep the shelves"

definition shelfCols :: "Plugin \<Rightarrow> string option \<times> PluginType \<times> int \<times> time option" where
  "shelfCols p = (p_CategoryID p, p_Type p, p_Status p, p_DeletedAt p)"

lemma shelved_cols:
  assumes "map shelfCols (plugins t) = map shelfCols (plugins s)" and "categories t = categories s" and "shelved s"
  shows "shelved t"
  unfolding shelved_def
proof (intro ballI impI)
  fix p assume p: "p \<in> set (plugins t)" "p_Status p = 1 \<and> p_DeletedAt p = None"
  from p(1) assms(1) have "shelfCols p \<in> shelfCols ` set (plugins s)" by (metis image_eqI image_set)
  then obtain q where "q \<in> set (plugins s)" "shelfCols q = shelfCols p" by (metis imageE)
  with assms(3) p(2) show "serves t (p_CategoryID p) (p_Type p)"
    by (auto simp: shelved_def shelfCols_def serves_same [OF assms(2)])
qed

lemma cols_served:
  assumes "map shelfCols (plugins t) = map shelfCols (plugins s)" and "categories t = categories s" and "scenes t = scenes s"
    and "placementsKept s t"
  shows "servedStep cat ty s t"
  using assms shelved_cols [OF assms(1,2)] by (auto simp: servedStep_def shelfStep_def shelfOK_def placementsKept_def)

lemma touches_served:
  assumes "steps (sameExcept X) m" and "X \<inter> {TPlugins, TCategories, TScenes, TPlacements} = {}"
  shows "steps (servedStep cat ty) m"
proof (rule stepsI)
  fix s u t assume run: "m s = Inr (u, t)"
  from stepsD [OF assms(1) run] assms(2) have "plugins t = plugins s" "categories t = categories s" "scenes t = scenes s" "placements t = placements s"
    by (auto simp: sameExcept_def kept_def)
  then show "servedStep cat ty s t" by (intro cols_served placementsKept_same) simp_all
qed

lemma placements_served:
  assumes "steps (sameExcept {TPlacements}) m" and "steps placementsKept m"
  shows "steps (servedStep cat ty) m"
proof (rule stepsI)
  fix s u t assume run: "m s = Inr (u, t)"
  from stepsD [OF assms(1) run] have "plugins t = plugins s" "categories t = categories s" "scenes t = scenes s"
    by (auto simp: sameExcept_def kept_def)
  then show "servedStep cat ty s t" using stepsD [OF assms(2) run] by (intro cols_served) simp_all
qed

lemma keeps_served:
  assumes "steps (keepsCol shelfCols) m" and "steps (sameExcept X) m" and "X \<inter> {TCategories, TScenes, TPlacements} = {}"
  shows "steps (servedStep cat ty) m"
proof (rule stepsI)
  fix s u t assume run: "m s = Inr (u, t)"
  from stepsD [OF assms(2) run] assms(3) have "categories t = categories s" "scenes t = scenes s" "placements t = placements s"
    by (auto simp: sameExcept_def kept_def)
  then show "servedStep cat ty s t" using stepsD [OF assms(1) run] by (intro cols_served placementsKept_same) (simp_all add: keepsCol_def)
qed

lemma reads_served: "steps (=) m \<Longrightarrow> steps (servedStep cat ty) m"
  by (rule touches_served [OF reads_touches [of _ "{}"]]) simp_all

lemma audience_served: "steps audienceStep m \<Longrightarrow> steps (servedStep cat ty) m"
proof (erule steps_mono)
  fix s t assume a: "audienceStep s t"
  have cols: "map shelfCols xs = map shelfCols (map contentOf xs)" for xs by (simp add: contentOf_def shelfCols_def)
  from a have "map contentOf (plugins t) = map contentOf (plugins s)" by (simp add: audienceStep_def keepsCol_def)
  then have "map shelfCols (plugins t) = map shelfCols (plugins s)" by (metis cols)
  moreover have "categories t = categories s" "scenes t = scenes s" using a by (auto simp: audienceStep_def sameExcept_def kept_def)
  ultimately show "servedStep cat ty s t" using a by (intro cols_served) (simp_all add: audienceStep_def)
qed

text \<open>An update of plugin rows that revives no row and changes the category and type of a row only to
  the locked ones.\<close>

lemma rows_served:
  assumes "\<And>x. c x \<Longrightarrow> p_CategoryID (f x) = cat \<and> p_Type (f x) = ty \<or>
      p_CategoryID (f x) = p_CategoryID x \<and> p_Type (f x) = p_Type x \<and> p_Status (f x) = p_Status x \<and>
      (p_DeletedAt (f x) = None \<longrightarrow> p_DeletedAt x = None)"
  shows "steps (servedStep cat ty) (updatePlugins c f)"
proof (rule stepsI)
  fix s n t assume "updatePlugins c f s = Inr (n, t)"
  then have t: "t = s\<lparr>plugins := updateWhere c f (plugins s)\<rparr>" by (simp add: updatePlugins_def)
  have cats: "serves t a b = serves s a b" for a b by (rule serves_same) (simp add: t)
  have "shelved t" if ok: "shelved s" and lock: "serves s cat ty"
    unfolding shelved_def
  proof (intro ballI impI)
    fix p assume p: "p \<in> set (plugins t)" "p_Status p = 1 \<and> p_DeletedAt p = None"
    from p(1) obtain q where q: "q \<in> set (plugins s)" "p = (if c q then f q else q)" by (auto simp: t set_updateWhere)
    with p(2) assms [of q]
    have "p_CategoryID p = cat \<and> p_Type p = ty \<or>
        p_Status q = 1 \<and> p_DeletedAt q = None \<and> p_CategoryID p = p_CategoryID q \<and> p_Type p = p_Type q"
      by (auto split: if_splits)
    with ok q(1) lock show "serves t (p_CategoryID p) (p_Type p)" unfolding cats by (auto simp: shelved_def)
  qed
  then show "servedStep cat ty s t" by (auto simp: servedStep_def shelfStep_def shelfOK_def t marketPlaced_def)
qed

lemma updatePlugins_served [serving]:
  assumes "\<And>x. c x \<Longrightarrow> p_CategoryID (f x) = p_CategoryID x \<and> p_Type (f x) = p_Type x \<and> p_Status (f x) = p_Status x \<and>
      (p_DeletedAt (f x) = None \<longrightarrow> p_DeletedAt x = None)"
  shows "steps (servedStep cat ty) (updatePlugins c f)"
  by (rule rows_served) (use assms in blast)

lemma insertPlugin_served [serving]: "steps (servedStep (p_CategoryID p) (p_Type p)) (insertPlugin r t p)"
proof (rule stepsI)
  fix s u s' assume run: "insertPlugin r t p s = Inr (u, s')"
  then obtain k n where pl: "plugins s' = plugins s @ [p\<lparr>p_Rating := None, p_PublishedVersionID := None, p_NameKey := k, p_PublishedNameKey := None,
       p_NameScope := n, p_CreatedAt := t, p_UpdatedAt := t, p_DeletedAt := None\<rparr>]"
    by (rule insertPlugin_run)
  from stepsD [OF insertPlugin_touches [of "{TPlugins}"] run]
  have same: "categories s' = categories s" "scenes s' = scenes s" "placements s' = placements s" by (simp_all add: sameExcept_def kept_def)
  have "shelved s'" if "shelved s" "serves s (p_CategoryID p) (p_Type p)"
    using that by (auto simp: shelved_def pl serves_same [OF same(1)])
  then show "servedStep (p_CategoryID p) (p_Type p) s s'" using same by (auto simp: servedStep_def shelfStep_def shelfOK_def marketPlaced_def)
qed

lemma insertPlacements_served [serving]: "steps (servedStep cat ty) (insertPlacements r t pid xs)"
proof (rule placements_served)
  show "steps (sameExcept {TPlacements}) (insertPlacements r t pid xs)" by (rule insertPlacements_touches) simp
  have one: "steps placementsKept (bindT (queryT (\<lambda>s. placementTaken s i (pl_PlacementCode x) pid)) (\<lambda>dup. thenT (refuseT dup ErrDuplicateKey)
      (modifyT (\<lambda>s. s\<lparr>placements := placements s @ [x\<lparr>pl_ID := i, pl_PluginID := pid, pl_CreatedAt := t, pl_UpdatedAt := t\<rparr>]\<rparr>))))" for i x
    by (rule stepsI, rule placementsKept_add) (auto simp: tx_simps placementTaken_def placementKey_def)
  show "steps placementsKept (insertPlacements r t pid xs)"
    unfolding insertPlacements_def
    by (intro shelfFrame.steps_for shelfFrame.steps_bind shelfFrame.steps_if newID_shelf shelfFrame.steps_return one)
qed

lemmas placing_served [serving] =
  placements_served [OF ensurePlacement_touches [of "{TPlacements}"] ensurePlacement_shelf, simplified]
  placements_served [OF syncDefaultPlacement_touches [of "{TPlacements}"] syncDefaultPlacement_shelf, simplified]

lemmas statement_served [serving] =
  touches_served [OF now_touches [of "{}"], simplified] touches_served [OF newID_touches [of "{}"], simplified]
  touches_served [OF getOwnedForUpdate_touches [of "{}"], simplified] touches_served [OF getReviewed_touches [of "{}"], simplified]
  touches_served [OF mustAffect_touches [of "{}"], simplified] touches_served [OF mustChangeState_touches [of "{}"], simplified]
  touches_served [OF decidedAt_touches [of "{}"], simplified] touches_served [OF rejectPluginNameCollision_touches [of "{}"], simplified]
  touches_served [OF updateRelations_touches [of "{TRelations}"], simplified]
  touches_served [OF insertAudit_touches [of "{TAudits}"], simplified]
  touches_served [OF cancelPendingReviewFor_touches [of "{TReviews}"], simplified]
  touches_served [OF updateReviews_touches [of "{TReviews}"], simplified]
  touches_served [OF settle_touches [of "{TReviews}"], simplified] touches_served [OF settleApproval_touches [of "{TReviews}"], simplified]
  touches_served [OF finishGroup_touches [of "{TReviews}"], simplified] touches_served [OF insertRequest_touches [of "{TReviews}"], simplified]
  touches_served [OF RefreshConnectorBaselines_touches [of "{TBaselines}"], simplified]
  touches_served [OF approveConnectorRevisions_touches [of "{TBaselines}"], simplified]
  touches_served [OF writeReferenceIndex_touches [of "{TRefEdges, TRefIndex}"], simplified]
  touches_served [OF insertRelease_touches [of "{TReleases}"], simplified]
  touches_served [OF claimReceipt_touches [of "{TReceipts}"], simplified]
  touches_served [OF syncRelations_touches [of "{TRelations}"], simplified]
  touches_served [OF submittedRelations_touches [of "{}"], simplified]
  reads [THEN reads_served]

lemma shelfCols_marks:
  "shelfCols (q\<lparr>p_CurrentVersionID := i, p_CurrentVersion := l, p_UpdatedAt := t\<rparr>) = shelfCols q"
  "shelfCols (q\<lparr>p_CurrentVersion := l, p_UpdatedAt := t\<rparr>) = shelfCols q" "shelfCols (stampRelease v k n q) = shelfCols q"
  "shelfCols (q\<lparr>p_Visibility := a, p_ListingState := b, p_UpdatedAt := t\<rparr>) = shelfCols q"
  by (simp_all add: shelfCols_def stampRelease_def)

lemmas cascade_served [serving] =
  keeps_served [OF promoteFrozen_keeps [OF shelfCols_marks(4)] promoteFrozen_touches [of "{TPlugins}"], simplified]
  keeps_served [OF clearRecovered_keeps [OF shelfCols_marks(4)] clearRecovered_touches [of "{TPlugins, TSuspensions}"], simplified]
  keeps_served [OF snapshotVersion_keeps [OF shelfCols_marks(1,2)] snapshotVersion_touches [of "{TPlugins, TVersions, TRefEdges, TRefIndex}"], simplified]
  keeps_served [OF recordRelease_keeps [OF shelfCols_marks(3,4)] recordRelease_touches [of "{TPlugins, TReleases, TBaselines, TSuspensions}"], simplified]

section \<open>Every transaction keeps the shelves\<close>

lemma promoteEmbedded_served [serving]: "steps (servedStep cat ty) (promoteEmbeddedChildren i pty sp a t)"
  unfolding promoteEmbeddedChildren_def promoteEmbeddedIDs_def promoteChild_def by (intro served.steps_rules serving) simp_all

lemma insertRelations_served [serving]: "steps (servedStep cat ty) (insertRelations r t src c xs)"
  by (rule touches_served [OF insertRelations_touches [of "{TRelations}"]]) simp_all

lemma publish_served:
  "steps (servedStep cat ty) (PublishPlugin r sc p)" "steps (servedStep cat ty) (PublishManaged r sc p)"
  "steps (servedStep cat ty) (AdoptPublishedBaseline r sc a)"
  unfolding PublishPlugin_def PublishManaged_def AdoptPublishedBaseline_def relabelDraft_def finishManagedPublish_def
  by (intro served.steps_rules serving; simp add: markPublished_def)+

lemma suspendSources_served: "steps (servedStep cat ty) (suspendSources sp pid t ids q seen)"
proof (induction ids arbitrary: q seen)
  case (Cons source ids)
  then show ?case
    unfolding suspendSources.simps
    by (intro served.steps_rules serving audience_served [OF suspendDependency_audience] audience_served [OF demote_audience])
qed (simp add: served.steps_return)

lemma suspendLoop_served: "steps (servedStep cat ty) (suspendLoop fuel sp t q seen)"
proof (induction fuel arbitrary: q seen)
  case (Suc fuel)
  then show ?case
    by (cases q) (auto intro!: served.steps_rules serving suspendSources_served touches_served [OF incomingPublishedSources_touches [of "{}"]])
qed (simp add: served.steps_throw)

lemma delist_served: "steps (servedStep cat ty) (DelistPlugin r sc p)"
  unfolding DelistPlugin_def suspendDelistedDependents_def
  by (intro served.steps_rules serving suspendLoop_served audience_served [OF demote_audience]) (simp_all add: markDown_def)

lemma queue_served:
  "steps (servedStep cat ty) (InsertReviewRequest r sc q snap)" "steps (servedStep cat ty) (RejectReview r sc p)"
  "steps (servedStep cat ty) (CancelReview r sc i uid)"
proof -
  show "steps (servedStep cat ty) (InsertReviewRequest r sc q snap)"
    unfolding InsertReviewRequest_def insertReviewInTx_def Let_def by (intro served.steps_rules serving)
  show "steps (servedStep cat ty) (RejectReview r sc p)" unfolding RejectReview_def by (intro served.steps_rules serving mapError_steps)
  show "steps (servedStep cat ty) (CancelReview r sc i uid)"
    by (rule touches_served [OF CancelReview_touches [of "{TReviews}"]]) simp_all
qed

lemma approve_served: "steps (servedStep cat ty) (ApproveReview r sc p)"
  unfolding ApproveReview_def approveManagedReviewInTx_def finishManagedReview_def approveUnmanaged_def applyFrozen_def Let_def
  by (intro served.steps_rules serving audience_served [OF approveVisibility_audience]) (simp_all add: keepDraft_def stampFrozen_def)

lemma misc_served:
  "steps (servedStep cat ty) (InsertCardActionReceipt r c)" "steps (servedStep cat ty) (UpsertReviewPolicy r sc b u n)"
  "steps (servedStep cat ty) (ChangeVisibility r sc v)"
proof -
  show "steps (servedStep cat ty) (InsertCardActionReceipt r c)"
    unfolding InsertCardActionReceipt_def
    by (rule touches_served [of "{TReceipts}"], intro touch.steps_rules touches) simp_all
  show "steps (servedStep cat ty) (UpsertReviewPolicy r sc b u n)"
    unfolding UpsertReviewPolicy_def
    by (intro served.steps_rules serving served.steps_modify cols_served placementsKept_same) simp_all
  show "steps (servedStep cat ty) (ChangeVisibility r sc v)" by (rule audience_served [OF ChangeVisibility_audience])
qed

text \<open>Writes lock the category they store.\<close>

lemma saveRow_served [serving]: "steps (servedStep (p_CategoryID p) (p_Type p)) (saveRow r sc t prior p b)"
  unfolding saveRow_def by (intro served.steps_rules rows_served serving) (simp add: writeContent_def)

lemma row_served [serving]:
  "steps (servedStep cat ty) (snapshotIf r t m p rels cl)" "steps (servedStep cat ty) (auditCreate r t m p)"
  "steps (servedStep cat ty) (auditUpdate r t m prior p)" "steps (servedStep cat ty) (releaseCreated r sc m p vid)"
  "steps (servedStep cat ty) (releaseSaved r sc prior m b vid)" "steps (servedStep cat ty) (auditDelete r t op p)"
  "steps (servedStep cat ty) (softDelete sc t pid op)"
  unfolding snapshotIf_def auditCreate_def auditUpdate_def releaseCreated_def releaseSaved_def auditDelete_def softDelete_def
  by (intro served.steps_rules serving; simp add: markDeleted_def)+

lemma insertNode_served [serving]: "steps (servedStep cat ty) (insertNode r sc t taken m ms)"
  unfolding insertNode_def Let_def by (intro lock_then served.steps_rules serving)

lemma node_served [serving]:
  "steps (servedStep cat ty) (insertNodes r sc t taken ms)" "steps (servedStep cat ty) (wireNode r sc t ids b m)"
  "steps (servedStep cat ty) (softDeleteRebuiltChild r sc t op pid)"
  unfolding insertNodes_def wireNode_def softDeleteRebuiltChild_def Let_def by (intro served.steps_rules serving)+

lemma write_served:
  "steps (servedStep cat ty) (Create r sc m)" "steps (servedStep cat ty) (CreateGraph r sc ms)" "steps (servedStep cat ty) (Update r sc m)"
  "steps (servedStep cat ty) (UpdateRating r sc p)" "steps (servedStep cat ty) (Delete r sc pid op)" "steps (servedStep cat ty) (DeleteGraph r sc pid op)"
  "steps (servedStep cat ty) (RebuildGraph r sc m ms)"
  unfolding Create_def CreateGraph_def Update_def updateInTx_def finishSave_def UpdateRating_def Delete_def DeleteGraph_def RebuildGraph_def
    rebuildTop_def Let_def
  by (intro lock_then served.steps_rules serving; simp)+

section \<open>The console keeps the shelves\<close>

text \<open>The console works by placement id, so what it keeps of the default shelf rests on the primary key.\<close>

definition consoleStep :: "Store \<Rightarrow> Store \<Rightarrow> bool" where
  "consoleStep s t \<longleftrightarrow> (shelfOK s \<longrightarrow> shelfOK t) \<and>
     (distinct (map pl_ID (placements s)) \<longrightarrow> distinct (map pl_ID (placements t)) \<and> (\<forall>pid. marketPlaced s pid \<longrightarrow> marketPlaced t pid))"

interpretation console: tx_frame consoleStep
  by unfold_locales (auto simp: consoleStep_def)

lemma shelved_same: "plugins t = plugins s \<Longrightarrow> categories t = categories s \<Longrightarrow> shelved t = shelved s"
  unfolding shelved_def by (simp add: serves_same [of t s])

lemma console_placements:
  assumes "plugins t = plugins s" "categories t = categories s" "scenes t = scenes s"
    and "distinct (map placementKey (placements s)) \<Longrightarrow> distinct (map placementKey (placements t))"
    and "distinct (map pl_ID (placements s)) \<Longrightarrow> distinct (map pl_ID (placements t))"
    and "distinct (map pl_ID (placements s)) \<Longrightarrow> (\<And>x. x \<in> set (placements s) \<Longrightarrow> pl_PlacementCode x = defaultPlacementCode \<Longrightarrow> pl_Visible x \<Longrightarrow>
           \<exists>y \<in> set (placements t). placementKey y = placementKey x \<and> pl_Visible y)"
  shows "consoleStep s t"
proof -
  have "marketPlaced t pid" if keys: "distinct (map pl_ID (placements s))" and shown: "marketPlaced s pid" for pid
  proof -
    from shown obtain x where x: "x \<in> set (placements s)" "pl_PluginID x = pid" "pl_PlacementCode x = defaultPlacementCode" "pl_Visible x"
      unfolding marketPlaced_def by blast
    from assms(6) [OF keys x(1,3,4)] obtain y where "y \<in> set (placements t)" "placementKey y = placementKey x" "pl_Visible y" by blast
    with x(2,3) have "y \<in> set (placements t)" "pl_PluginID y = pid" "pl_PlacementCode y = defaultPlacementCode" "pl_Visible y"
      by (simp_all add: placementKey_def)
    then show ?thesis unfolding marketPlaced_def by blast
  qed
  then show ?thesis using assms(1-5) shelved_same [OF assms(1,2)] by (simp add: consoleStep_def shelfOK_def)
qed

lemma insertPlacement_console: "steps consoleStep (insertPlacement x)"
proof (rule stepsI)
  fix s u t assume "insertPlacement x s = Inr (u, t)"
  then have new: "\<not> placementTaken s (pl_ID x) (pl_PlacementCode x) (pl_PluginID x)" and t: "t = s\<lparr>placements := placements s @ [x]\<rparr>"
    by (auto simp: insertPlacement_def tx_simps)
  have "pl_ID x \<notin> pl_ID ` set (placements s)" "placementKey x \<notin> placementKey ` set (placements s)"
    using new by (auto simp: placementTaken_def placementKey_def)
  then show "consoleStep s t" by (intro console_placements) (simp_all add: t, blast)
qed

lemma reads_console: "steps (=) m \<Longrightarrow> steps consoleStep m"
  by (erule steps_mono) (simp add: console.frame_refl)

lemma now_console: "steps consoleStep (now r)"
proof (rule stepsI)
  fix s u t assume "now r s = Inr (u, t)"
  then have "plugins t = plugins s" "categories t = categories s" "scenes t = scenes s" "placements t = placements s" by (auto simp: now_def)
  then show "consoleStep s t" by (intro console_placements) (simp_all, blast)
qed

text \<open>An update by placement id.\<close>

lemma update_placement_console:
  assumes "x \<in> set (placements s)" and "\<And>y. placementKey (f y) = placementKey y \<and> pl_ID (f y) = pl_ID y"
    and "pl_PlacementCode x = defaultPlacementCode \<Longrightarrow> pl_Visible x \<Longrightarrow> pl_Visible (f x)"
    and "placements t = updateWhere (\<lambda>y. pl_ID y = pl_ID x) f (placements s)" and "sameExcept {TPlacements} s t"
  shows "consoleStep s t"
proof (rule console_placements)
  show "plugins t = plugins s" "categories t = categories s" "scenes t = scenes s" using assms(5) by (simp_all add: sameExcept_def kept_def)
next
  fix y assume keys: "distinct (map pl_ID (placements s))" and y: "y \<in> set (placements s)" "pl_PlacementCode y = defaultPlacementCode" "pl_Visible y"
  let ?y = "if pl_ID y = pl_ID x then f y else y"
  have "?y \<in> set (placements t)" using y(1) by (simp add: assms(4) set_updateWhere)
  moreover have "pl_ID y = pl_ID x \<Longrightarrow> y = x" using keys y(1) assms(1) by (rule distinct_key_eq)
  then have "placementKey ?y = placementKey y \<and> pl_Visible ?y" using assms(2,3) y(2,3) by auto
  ultimately show "\<exists>y' \<in> set (placements t). placementKey y' = placementKey y \<and> pl_Visible y'" by blast
qed (simp_all add: assms(4) map_updateWhere_key assms(2))

text \<open>A removal that leaves the default shelf alone.\<close>

lemma remove_placement_console:
  assumes "placements t = filter P (placements s)" and "plugins t = plugins s" "categories t = categories s" "scenes t = scenes s"
    and "distinct (map pl_ID (placements s)) \<Longrightarrow>
      (\<And>x. x \<in> set (placements s) \<Longrightarrow> pl_PlacementCode x = defaultPlacementCode \<Longrightarrow> P x)"
  shows "consoleStep s t"
proof (rule console_placements)
  fix x assume "distinct (map pl_ID (placements s))" "x \<in> set (placements s)" "pl_PlacementCode x = defaultPlacementCode" "pl_Visible x"
  moreover from assms(5) [OF this(1-3)] have "P x" .
  ultimately have "x \<in> set (placements t)" by (simp add: assms(1))
  with \<open>pl_Visible x\<close> show "\<exists>y \<in> set (placements t). placementKey y = placementKey x \<and> pl_Visible y" by blast
qed (simp_all add: assms(1-4) distinct_map_filter)

lemma scene_console:
  "steps consoleStep (CreateScene r scene)" "steps consoleStep (UpdateScene r i w)"
proof (rule_tac [!] stepsI)
  fix s u t assume run: "CreateScene r scene s = Inr (u, t)"
  then obtain tm where new: "\<not> (\<exists>y \<in> set (scenes s). sc_ID y = sc_ID scene \<or> sc_Code y = sc_Code scene)"
    and sc: "scenes t = scenes s @ [scene\<lparr>sc_CreatedAt := tm, sc_UpdatedAt := tm\<rparr>]"
    by (auto simp: CreateScene_def tx_simps now_def)
  from stepsD [OF scene_touches(1) run] have same: "plugins t = plugins s" "categories t = categories s" "placements t = placements s"
    by (simp_all add: sameExcept_def kept_def)
  have "sc_ID y \<noteq> sc_ID scene \<and> sc_Code y \<noteq> sc_Code scene" if "y \<in> set (scenes s)" for y using new that by blast
  then have "sc_ID scene \<notin> sc_ID ` set (scenes s)" "sc_Code scene \<notin> sc_Code ` set (scenes s)" by (metis imageE)+
  then show "consoleStep s t" using shelved_same [OF same(1,2)] same by (simp add: consoleStep_def shelfOK_def sc marketPlaced_def)
next
  fix s u t assume run: "UpdateScene r i w s = Inr (u, t)"
  then obtain tm where sc: "scenes t = updateWhere (\<lambda>x. sc_ID x = i) (setScene w tm) (scenes s)"
    unfolding UpdateScene_def bindT_Inr whenT_Inr
    by (elim exE conjE) (auto simp: now_def updateScenes_def tx_simps GetScene_def split: if_splits)
  from stepsD [OF scene_touches(2) run] have same: "plugins t = plugins s" "categories t = categories s" "placements t = placements s"
    by (simp_all add: sameExcept_def kept_def)
  have "map sc_ID (scenes t) = map sc_ID (scenes s)" "map sc_Code (scenes t) = map sc_Code (scenes s)"
    unfolding sc by (rule map_updateWhere_key, simp add: setScene_def)+
  then show "consoleStep s t" using shelved_same [OF same(1,2)] same by (simp add: consoleStep_def shelfOK_def marketPlaced_def)
qed

lemma DeleteScene_console: "steps consoleStep (DeleteScene i)"
proof (rule stepsI)
  fix s u t assume run: "DeleteScene i s = Inr (u, t)"
  then obtain x where "find (\<lambda>x. sc_ID x = i) (scenes s) = Some x" and "sc_Code x \<noteq> ''default''" and "sceneReferences s (sc_Code x) = 0"
    and t: "t = s\<lparr>placements := filter (\<lambda>y. pl_PlacementCode y \<noteq> sc_Code x) (placements s),
               catPlacements := filter (\<lambda>y. cp_PlacementCode y \<noteq> sc_Code x) (catPlacements s),
               scenes := filter (\<lambda>y. sc_ID y \<noteq> i) (scenes s)\<rparr>"
    by (rule DeleteScene_run)
  have "plugins t = plugins s" "categories t = categories s" by (simp_all add: t)
  from shelved_same [OF this] have "shelfOK s \<longrightarrow> shelfOK t" by (simp add: shelfOK_def t distinct_map_filter)
  moreover have "marketPlaced s pid \<longrightarrow> marketPlaced t pid" for pid using DeleteScene_market [OF run] by blast
  ultimately show "consoleStep s t" by (simp add: consoleStep_def t distinct_map_filter)
qed

lemma placement_console:
  "steps consoleStep (CreatePlacement r i code pid v n)" "steps consoleStep (UpdatePlacement r i w)" "steps consoleStep (DeletePlacement i)"
proof -
  show "steps consoleStep (CreatePlacement r i code pid v n)"
    unfolding CreatePlacement_def by (intro console.steps_rules now_console insertPlacement_console reads [THEN reads_console])
  show "steps consoleStep (UpdatePlacement r i w)"
  proof (rule stepsI)
    fix s u t assume run: "UpdatePlacement r i w s = Inr (u, t)"
    then obtain x tm pid where x: "find (\<lambda>x. pl_ID x = i \<and> pl_PluginID x = pid) (placements s) = Some x"
      and guard: "\<not> (pl_PlacementCode x = ''default'' \<and> pu_IsVisible w = Some False)"
      and pl: "placements t = updateWhere (\<lambda>y. pl_ID y = i) (setPlacement w tm) (placements s)"
      by (fastforce simp: UpdatePlacement_def placeablePlugin_def tx_simps now_def)
    from find_Some_mem [OF x] have x: "x \<in> set (placements s)" "pl_ID x = i" by auto
    show "consoleStep s t"
    proof (rule update_placement_console [OF x(1)])
      show "placements t = updateWhere (\<lambda>y. pl_ID y = pl_ID x) (setPlacement w tm) (placements s)" unfolding x(2) by (rule pl)
      show "sameExcept {TPlacements} s t" by (rule stepsD [OF placement_touches(2) run])
    qed (use guard in \<open>auto simp: setPlacement_def placementKey_def defaultPlacementCode_def split: option.splits\<close>)
  qed
  show "steps consoleStep (DeletePlacement i)"
  proof (rule stepsI)
    fix s u t assume run: "DeletePlacement i s = Inr (u, t)"
    then obtain x where x: "find (\<lambda>x. pl_ID x = i) (placements s) = Some x" "pl_PlacementCode x \<noteq> ''default''"
      and t: "t = s\<lparr>placements := filter (\<lambda>y. pl_ID y \<noteq> i) (placements s)\<rparr>"
      by (auto simp: DeletePlacement_def tx_simps)
    from find_Some_mem [OF x(1)] have mem: "x \<in> set (placements s)" "pl_ID x = i" by auto
    show "consoleStep s t"
    proof (rule remove_placement_console [where P = "\<lambda>y. pl_ID y \<noteq> i"])
      fix y assume "distinct (map pl_ID (placements s))" "y \<in> set (placements s)" "pl_PlacementCode y = defaultPlacementCode"
      with mem x(2) show "pl_ID y \<noteq> i" using distinct_key_eq [of pl_ID "placements s" y x] by (auto simp: defaultPlacementCode_def)
    qed (simp_all add: t)
  qed
qed

lemma batch_item_console:
  assumes "code = ''default'' \<Longrightarrow> b \<and> v"
  shows "steps consoleStep (setPlacementItem r code b v n item)"
proof (rule stepsI)
  fix s u t assume run: "setPlacementItem r code b v n item s = Inr (u, t)"
  note same = stepsD [OF placement_touches(4) run]
  from run obtain p where p: "placeable s (bi_PluginID item) = Some p" by (auto simp: setPlacementItem_def placeablePlugin_def tx_simps)
  show "consoleStep s t"
  proof (cases b)
    case False
    with run p have "placements t = filter (\<lambda>y. \<not> (pl_PlacementCode y = code \<and> pl_PluginID y = bi_PluginID item)) (placements s)"
      by (auto simp: setPlacementItem_def placeablePlugin_def tx_simps)
    then show ?thesis
      by (rule remove_placement_console) (use same False assms in \<open>auto simp: sameExcept_def kept_def defaultPlacementCode_def\<close>)
  next
    case True
    show ?thesis
    proof (cases "firstPlacement s code (bi_PluginID item)")
      case None
      with run True obtain tm w x where "now r s = Inr (tm, w)" "insertPlacement x w = Inr (u, t)"
        by (auto simp: setPlacementItem_def placeablePlugin_def tx_simps)
      then show ?thesis using stepsD [OF now_console] stepsD [OF insertPlacement_console] by (blast intro: console.frame_trans)
    next
      case (Some x)
      let ?f = "\<lambda>tm y. y\<lparr>pl_CategoryID := p_CategoryID p, pl_Visible := v, pl_SortOrder := n, pl_UpdatedAt := tm\<rparr>"
      from run p True Some obtain tm where pl: "placements t = updateWhere (\<lambda>y. pl_ID y = pl_ID x) (?f tm) (placements s)"
        by (auto simp: setPlacementItem_def placeablePlugin_def tx_simps now_def)
      have x: "x \<in> set (placements s)" "pl_PlacementCode x = code" using firstPlacement_Some [OF Some] by (auto simp: at_def)
      show ?thesis
        by (rule update_placement_console [OF x(1) _ _ pl same])
          (use assms x(2) in \<open>simp_all add: placementKey_def defaultPlacementCode_def\<close>)
    qed
  qed
qed

lemma batch_console: "steps consoleStep (BatchSetPlacements r code items b v n)"
proof (rule stepsI)
  fix s u t assume "BatchSetPlacements r code items b v n s = Inr (u, t)"
  then obtain scene where "find (\<lambda>x. sc_Code x = code) (scenes s) = Some scene" and guard: "sc_Code scene = ''default'' \<longrightarrow> b \<and> v"
    and loop: "forT (\<lambda>item. failT (BatchItemError (bi_InputIndex item)) (setPlacementItem r (sc_Code scene) b v n item)) items s = Inr (u, t)"
    by (auto simp: BatchSetPlacements_def sceneByCode_def tx_simps)
  have "steps consoleStep (forT (\<lambda>item. failT (BatchItemError (bi_InputIndex item)) (setPlacementItem r (sc_Code scene) b v n item)) items)"
    by (intro console.steps_for failT_steps batch_item_console) (use guard in blast)
  from stepsD [OF this loop] show "consoleStep s t" .
qed

section \<open>Categories go only when no live plugin needs them\<close>

lemma category_console:
  assumes "sameExcept {TCategories} s t" and "shelfOK s \<Longrightarrow> distinct (map cat_ID (categories t))"
    and "\<And>p. shelfOK s \<Longrightarrow> p \<in> set (plugins s) \<Longrightarrow> p_Status p = 1 \<Longrightarrow> p_DeletedAt p = None \<Longrightarrow>
      serves s (p_CategoryID p) (p_Type p) \<Longrightarrow> serves t (p_CategoryID p) (p_Type p)"
  shows "consoleStep s t"
proof -
  have same: "plugins t = plugins s" "scenes t = scenes s" "placements t = placements s" using assms(1) by (simp_all add: sameExcept_def kept_def)
  have "shelved t" if "shelfOK s"
    unfolding shelved_def same using that assms(3) [OF that] by (auto simp: shelfOK_def shelved_def)
  then show ?thesis using assms(2) by (auto simp: consoleStep_def shelfOK_def same marketPlaced_def)
qed

lemma serves_mono:
  assumes "serves s c ty" and "\<And>x. x \<in> set (categories s) \<Longrightarrow> c = Some (cat_ID x) \<Longrightarrow> liveCategory x \<Longrightarrow> ty \<in> set (cat_Types x) \<Longrightarrow>
      \<exists>y \<in> set (categories t). cat_ID y = cat_ID x \<and> liveCategory y \<and> ty \<in> set (cat_Types y)"
  shows "serves t c ty"
proof (cases c)
  case (Some a)
  with assms(1) obtain x where x: "x \<in> set (categories s)" "cat_ID x = a" "liveCategory x" "ty \<in> set (cat_Types x)"
    unfolding serves_def by auto
  from assms(2) [OF x(1) _ x(3,4)] x(2) Some show ?thesis unfolding serves_def by simp
qed (simp add: serves_def)

lemma CreateCategory_console: "steps consoleStep (CreateCategory r c)"
proof (rule stepsI)
  fix s u t assume run: "CreateCategory r c s = Inr (u, t)"
  then obtain tm where new: "\<forall>x \<in> set (categories s). cat_ID x \<noteq> cat_ID c"
    and cats: "categories t = categories s @ [c\<lparr>cat_Status := 1, cat_CreatedAt := tm, cat_UpdatedAt := tm, cat_DeletedAt := None\<rparr>]"
    by (auto simp: CreateCategory_def tx_simps now_def)
  show "consoleStep s t"
  proof (rule category_console [OF stepsD [OF category_touches(1) run]])
    show "shelfOK s \<Longrightarrow> distinct (map cat_ID (categories t))" using new by (auto simp: cats shelfOK_def)
    show "serves s (p_CategoryID p) (p_Type p) \<Longrightarrow> serves t (p_CategoryID p) (p_Type p)" for p
      by (erule serves_mono) (unfold cats, auto)
  qed
qed

lemma forT_checks: "forT (\<lambda>x. bindT (queryT (f x)) (\<lambda>n. refuseT (0 < n) e)) xs s = Inr (u, t) \<longleftrightarrow> t = s \<and> (\<forall>x \<in> set xs. f x s = (0 :: nat))"
  by (induction xs arbitrary: s) (auto simp: tx_simps)

lemma UpdateCategory_run:
  assumes "UpdateCategory r c s = Inr (u, t)"
  obtains current f where "find (\<lambda>x. cat_ID x = cat_ID c \<and> cat_DeletedAt x = None) (categories s) = Some current"
    and "\<forall>ty \<in> set (cat_Types current). ty \<notin> set (cat_Types c) \<longrightarrow> categoryPlugins s (cat_ID c) (\<lambda>a. a = ty) = 0"
    and "categories t = updateWhere (\<lambda>x. cat_ID x = cat_ID c \<and> cat_DeletedAt x = None) f (categories s)"
    and "\<forall>x. cat_ID (f x) = cat_ID x \<and> liveCategory (f x) = liveCategory x \<and> cat_Types (f x) = cat_Types c"
proof -
  from assms obtain current tm where "find (\<lambda>x. cat_ID x = cat_ID c \<and> cat_DeletedAt x = None) (categories s) = Some current"
    and "\<forall>ty \<in> set (droppedPluginTypes (cat_Types current) (cat_Types c)). categoryPlugins s (cat_ID c) (\<lambda>a. a = ty) = 0"
    and "categories t = updateWhere (\<lambda>x. cat_ID x = cat_ID c \<and> cat_DeletedAt x = None)
       (\<lambda>x. x\<lparr>cat_Name := cat_Name c, cat_IconKey := cat_IconKey c, cat_Types := cat_Types c, cat_SortOrder := cat_SortOrder c,
              cat_UpdatedAt := tm\<rparr>) (categories s)"
    by (auto simp: UpdateCategory_def tx_simps forT_checks now_def updateCategories_def mustAffect_def)
  then show thesis by (intro that) (auto simp: droppedPluginTypes_def liveCategory_def)
qed

lemma categoryPlugins_none:
  "categoryPlugins s cid f = 0 \<Longrightarrow> p \<in> set (plugins s) \<Longrightarrow> p_Status p = 1 \<Longrightarrow> p_DeletedAt p = None \<Longrightarrow> f (p_Type p) \<Longrightarrow> p_CategoryID p \<noteq> Some cid"
  unfolding categoryPlugins_def length_0_conv filter_empty_conv by blast

lemma UpdateCategory_console: "steps consoleStep (UpdateCategory r c)"
proof (rule stepsI)
  fix s u t assume run: "UpdateCategory r c s = Inr (u, t)"
  then obtain current f where find: "find (\<lambda>x. cat_ID x = cat_ID c \<and> cat_DeletedAt x = None) (categories s) = Some current"
    and unused: "\<forall>ty \<in> set (cat_Types current). ty \<notin> set (cat_Types c) \<longrightarrow> categoryPlugins s (cat_ID c) (\<lambda>a. a = ty) = 0"
    and cats: "categories t = updateWhere (\<lambda>x. cat_ID x = cat_ID c \<and> cat_DeletedAt x = None) f (categories s)"
    and f: "\<forall>x. cat_ID (f x) = cat_ID x \<and> liveCategory (f x) = liveCategory x \<and> cat_Types (f x) = cat_Types c"
    by (rule UpdateCategory_run)
  from find_Some_mem [OF find] have current: "current \<in> set (categories s)" "cat_ID current = cat_ID c" by auto
  show "consoleStep s t"
  proof (rule category_console [OF stepsD [OF category_touches(2) run]])
    show "shelfOK s \<Longrightarrow> distinct (map cat_ID (categories t))" by (simp add: cats shelfOK_def map_updateWhere_key f)
  next
    fix p assume ok: "shelfOK s" and p: "p \<in> set (plugins s)" "p_Status p = 1" "p_DeletedAt p = None" "serves s (p_CategoryID p) (p_Type p)"
    show "serves t (p_CategoryID p) (p_Type p)"
    proof (rule serves_mono [OF p(4)])
      fix x assume x: "x \<in> set (categories s)" "p_CategoryID p = Some (cat_ID x)" "liveCategory x" "p_Type p \<in> set (cat_Types x)"
      show "\<exists>y \<in> set (categories t). cat_ID y = cat_ID x \<and> liveCategory y \<and> p_Type p \<in> set (cat_Types y)"
      proof (cases "cat_ID x = cat_ID c")
        case True
        with ok x(1) current have "x = current" by (intro distinct_key_eq [of cat_ID]) (simp_all add: shelfOK_def)
        then have "p_Type p \<in> set (cat_Types c)" using bspec [OF unused, of "p_Type p"] categoryPlugins_none [OF _ p(1-3)] x(2,4) True by metis
        moreover have "f x \<in> set (categories t)" unfolding cats by (rule updateWhere_imageI [OF x(1)]) (use True x(3) in \<open>simp add: liveCategory_def\<close>)
        ultimately show ?thesis using f x(3) by metis
      next
        case False
        then have "x \<in> set (categories t)" unfolding cats by (intro updateWhere_keepI [OF x(1)]) simp
        with x(3,4) show ?thesis by blast
      qed
    qed
  qed
qed

lemma DeleteCategory_console: "steps consoleStep (DeleteCategory r cid)"
proof (rule stepsI)
  fix s u t assume run: "DeleteCategory r cid s = Inr (u, t)"
  then obtain tm where unused: "categoryPlugins s cid (\<lambda>_. True) = 0"
    and cats: "categories t = updateWhere (\<lambda>x. cat_ID x = cid \<and> cat_DeletedAt x = None) (\<lambda>x. x\<lparr>cat_Status := 0, cat_DeletedAt := Some tm\<rparr>) (categories s)"
    by (auto simp: DeleteCategory_def tx_simps now_def updateCategories_def)
  show "consoleStep s t"
  proof (rule category_console [OF stepsD [OF category_touches(3) run]])
    show "shelfOK s \<Longrightarrow> distinct (map cat_ID (categories t))" by (simp add: cats shelfOK_def map_updateWhere_key)
  next
    fix p assume p: "p \<in> set (plugins s)" "p_Status p = 1" "p_DeletedAt p = None" "serves s (p_CategoryID p) (p_Type p)"
    show "serves t (p_CategoryID p) (p_Type p)"
    proof (rule serves_mono [OF p(4)])
      fix x assume x: "x \<in> set (categories s)" "p_CategoryID p = Some (cat_ID x)" "liveCategory x" "p_Type p \<in> set (cat_Types x)"
      with categoryPlugins_none [OF unused p(1-3)] have "cat_ID x \<noteq> cid" by auto
      then have "x \<in> set (categories t)" unfolding cats by (intro updateWhere_keepI [OF x(1)]) simp
      with x(3,4) show "\<exists>y \<in> set (categories t). cat_ID y = cat_ID x \<and> liveCategory y \<and> p_Type p \<in> set (cat_Types y)" by blast
    qed
  qed
qed

section \<open>Every reachable store\<close>

lemma shelf_console: "shelfStep s t \<Longrightarrow> (shelfOK s \<longrightarrow> shelfOK t) \<and> (marketPlaced s pid \<longrightarrow> marketPlaced t pid)"
  by (simp add: shelfStep_def)

lemmas commit_served = publish_served delist_served queue_served approve_served misc_served write_served

lemmas commit_console = scene_console DeleteScene_console placement_console batch_console CreateCategory_console
  UpdateCategory_console DeleteCategory_console

lemma commit_shelf: "commit r s t \<Longrightarrow> shelfStep s t \<or> consoleStep s t"
  by (induction rule: commit.induct)
    (erule commit_served [THEN served_shelf, THEN stepsD, THEN disjI1] commit_console [THEN stepsD, THEN disjI2])+

lemma reach_shelf: "reach r s \<Longrightarrow> shelfOK s"
proof (induction rule: reach.induct)
  case init
  show ?case by (simp add: shelfOK_def shelved_def emptyStore_def)
next
  case (step s t)
  then show ?case using commit_shelf [of r s t] by (auto simp: shelfStep_def consoleStep_def)
qed

text \<open>C27: No live plugin is ever stranded. In every store the transactions reach, the category of a
  live plugin is a live category that admits the plugin's type, so that every later save of the
  plugin still passes the category check; and a plugin has at most one placement on a shelf.
\<close>

theorem categories_never_stranded:
  assumes "reach r s" and "p \<in> set (plugins s)" and "p_Status p = 1" and "p_DeletedAt p = None"
  shows "lockPluginCategory (p_CategoryID p) (p_Type p) s = Inr ((), s) \<and>
    (\<forall>x \<in> set (placements s). \<forall>y \<in> set (placements s).
       pl_PluginID x = p_ID p \<and> pl_PluginID y = p_ID p \<and> pl_PlacementCode x = pl_PlacementCode y \<longrightarrow> x = y)"
proof -
  have ok: "shelfOK s" by (rule reach_shelf [OF assms(1)])
  with assms(2-4) have "serves s (p_CategoryID p) (p_Type p)" by (simp add: shelfOK_def shelved_def)
  then have "lockPluginCategory (p_CategoryID p) (p_Type p) s = Inr ((), s)"
    by (cases "p_CategoryID p") (auto simp: lockPluginCategory_def serves_def liveCategory_def tx_defs)
  moreover have "x = y" if "x \<in> set (placements s)" "y \<in> set (placements s)" "placementKey x = placementKey y" for x y
    using ok that by (intro distinct_key_eq [of placementKey]) (simp_all add: shelfOK_def)
  ultimately show ?thesis by (simp add: placementKey_def)
qed

text \<open>No transaction, of a tenant or of an administrator, takes a plugin off the default shelf or
  hides it there: what is shown to the market stays shown.
\<close>

theorem default_shelf_protected:
  assumes "commit r s t" and "distinct (map pl_ID (placements s))" and "marketPlaced s pid"
  shows "marketPlaced t pid"
  using commit_shelf [OF assms(1)] assms(2,3) by (auto simp: shelfStep_def consoleStep_def)

section \<open>A run of the console\<close>

text \<open>An administrator creates a category, an owner files a skill under it; the category can then neither
  be removed nor lose the type.\<close>

definition sampleCategory :: "PluginType list \<Rightarrow> CategoryRow" where
  "sampleCategory types = categoryOf ''c'' ''Tools'' '''' types 0 1"

definition filedMutation :: Mutation where
  "filedMutation = (sampleMutation (draftPlugin\<lparr>p_ListingState := PluginListingStateDraft, p_CategoryID := Some ''c''\<rparr>))
     \<lparr>m_Placements := [samplePlacement ''x'' ''default'' ''d'']\<rparr>"

definition categoryStore :: Store where
  "categoryStore = stateAfter (CreateCategory sampleRepo (sampleCategory [PluginTypeSkill]) emptyStore)"

definition filedStore :: Store where
  "filedStore = stateAfter (Create sampleRepo sampleOwner filedMutation categoryStore)"

lemma filed_run: "reach sampleRepo filedStore"
proof -
  have "\<not> isl (CreateCategory sampleRepo (sampleCategory [PluginTypeSkill]) emptyStore)" by code_simp
  from stateAfter_run [OF this] have "commit sampleRepo emptyStore categoryStore"
    unfolding categoryStore_def by (elim exE) (rule commit.CreateCategory, simp)
  then have first: "reach sampleRepo categoryStore" by (rule reach.step [OF reach.init])
  have "\<not> isl (Create sampleRepo sampleOwner filedMutation categoryStore)" by code_simp
  from stateAfter_run [OF this] have "commit sampleRepo categoryStore filedStore" unfolding filedStore_def by (elim exE, intro commit.Create)
  with first show ?thesis by (rule reach.step)
qed

theorem categories_never_stranded_witness:
  "DeleteCategory sampleRepo ''c'' filedStore = Inl ErrConflict \<and>
   UpdateCategory sampleRepo (sampleCategory [PluginTypeExpert]) filedStore = Inl ErrConflict \<and>
   (\<exists>p \<in> set (plugins filedStore). p_CategoryID p = Some ''c'' \<and> lockPluginCategory (Some ''c'') (p_Type p) filedStore = Inr ((), filedStore))"
proof -
  let ?p = "hd (plugins filedStore)"
  have ok: "DeleteCategory sampleRepo ''c'' filedStore = Inl ErrConflict" "UpdateCategory sampleRepo (sampleCategory [PluginTypeExpert]) filedStore = Inl ErrConflict"
    and p: "plugins filedStore \<noteq> []" "p_Status ?p = 1" "p_DeletedAt ?p = None" "p_CategoryID ?p = Some ''c''" by code_simp+
  from categories_never_stranded [OF filed_run hd_in_set [OF p(1)] p(2,3)] have "lockPluginCategory (Some ''c'') (p_Type ?p) filedStore = Inr ((), filedStore)"
    by (simp add: p(4))
  with ok p(4) hd_in_set [OF p(1)] show ?thesis by blast
qed

theorem default_shelf_protected_witness:
  "DeletePlacement ''x'' filedStore = Inl ErrConflict \<and> marketPlaced filedStore ''d'' \<and>
   (\<exists>t. CreateScene sampleRepo (sampleScene ''s'' ''spring'') filedStore = Inr ((), t) \<and> marketPlaced t ''d'')"
proof -
  have shown: "DeletePlacement ''x'' filedStore = Inl ErrConflict" "marketPlaced filedStore ''d''" "distinct (map pl_ID (placements filedStore))" by code_simp+
  have "\<not> isl (CreateScene sampleRepo (sampleScene ''s'' ''spring'') filedStore)" by code_simp
  then obtain t where run: "CreateScene sampleRepo (sampleScene ''s'' ''spring'') filedStore = Inr ((), t)"
    using tx_runs [of "CreateScene sampleRepo (sampleScene ''s'' ''spring'')" filedStore] by auto
  from default_shelf_protected [OF commit.CreateScene [OF run] shown(3,2)] run shown show ?thesis by blast
qed

end
