(* ===== verification/Ordering.thy ===== *)
theory Ordering
  imports Versions "HOL-Library.Product_Lexorder"
begin

text \<open>
  The order the version rules of \<open>internal/model/version.go\<close> compute, against a reference: the
  library's lexicographic order on triples of natural numbers.
\<close>

definition versionKey :: "version_parts \<Rightarrow> nat \<times> nat \<times> nat" where
  "versionKey p = (case p of (a, b, c) \<Rightarrow> (unat a, unat b, unat c))"

lemma partsNotLess_key: "partsNotLess p q \<longleftrightarrow> versionKey p \<le> versionKey q"
  by (cases p; cases q) (auto simp: partsNotLess_def versionKey_def word_less_nat_alt word_unat_eq_iff)

lemma versionKey_inject: "versionKey p = versionKey q \<longleftrightarrow> p = q"
  by (cases p; cases q) (auto simp: versionKey_def word_unat_eq_iff)

text \<open>On labels that parse, the two rules are the lexicographic order of the three numbers: a draft
  keeps its label or moves up (\<open>\<le>\<close>), a release moves up (\<open><\<close>). No 64-bit comparison wraps.\<close>

theorem version_rules_lexicographic:
  assumes "ParseVersion a = Some p" and "ParseVersion b = Some q"
  shows "(VersionNotRegressed a b \<longleftrightarrow> versionKey p \<le> versionKey q) \<and> (VersionAdvanced a b \<longleftrightarrow> versionKey p < versionKey q)"
proof -
  have "p = q" if "trimSpace a = trimSpace b" using trim_eq_parse [OF that] assms by simp
  then show ?thesis
    using assms by (auto simp: VersionNotRegressed_alt VersionAdvanced_alt partsNotLess_key less_le versionKey_inject)
qed

theorem version_rules_lexicographic_witness:
  "VersionAdvanced ''1.9.0'' ''1.10.0'' \<and> \<not> VersionNotRegressed ''1.10.0'' ''1.9.0''"
proof -
  have "ParseVersion ''1.9.0'' = Some (1, 9, 0)" "ParseVersion ''1.10.0'' = Some (1, 10, 0)" by code_simp+
  with version_rules_lexicographic [of "''1.9.0''" "(1, 9, 0)" "''1.10.0''" "(1, 10, 0)"]
    version_rules_lexicographic [of "''1.10.0''" "(1, 10, 0)" "''1.9.0''" "(1, 9, 0)"]
  show ?thesis by (simp add: versionKey_def)
qed

end
