(* ===== verification/Attempts.thy ===== *)
theory Attempts
  imports Store
begin

text \<open>
  Installation attempts: the table of \<open>repository/plugin/install_attempt.go\<close>, the dispatch of
  \<open>createPinnedInstallation\<close> in \<open>service/plugin/install_attempt.go\<close>, and the protocol they form
  with a remote fleet that may commit a request whose answer is lost.

  An attempt is one row per caller, Space, workspace and idempotency key. A sender takes a lease
  before it calls the fleet and reports afterwards; senders crash, answers are lost and leases run
  out, so several sends of one attempt can be in flight. The statements are single-row UPDATEs:
  their assignments read the old column values from left to right, as in MySQL.
\<close>

section \<open>The table\<close>

datatype AttemptState = PREPARED | UNKNOWN | DISPATCHING | FAILED | SUCCEEDED | EXPIRED

record InstallAttempt =
  ia_WorkspaceID :: string
  ia_KeyDigest :: string
  ia_PluginID :: string
  ia_RootVersionID :: string
  ia_AdapterVersion :: string
  ia_InputFingerprint :: string
  ia_RequestFingerprint :: string
  ia_AgentID :: string
  ia_TeamID :: string
  ia_Completed :: bool
  ia_CreatedAt :: time
  ia_FrozenPlan :: raw
  ia_HMACKeyID :: string
  ia_IntentDigest :: string
  ia_State :: AttemptState
  ia_HadUnknown :: bool
  ia_LeaseToken :: "string option"
  ia_LeaseUntil :: "time option"
  ia_RetryUntil :: "time option"

record AttemptRow =
  at_SpaceID :: string
  at_CallerUID :: string
  at_Row :: InstallAttempt

type_synonym 'a atx = "(AttemptRow list, RepoError, 'a) tx"

text \<open>The primary key.\<close>

definition attemptKey :: "AttemptRow \<Rightarrow> string \<times> string \<times> string \<times> string" where
  "attemptKey x = (at_SpaceID x, at_CallerUID x, ia_WorkspaceID (at_Row x), ia_KeyDigest (at_Row x))"

definition ownAttempt :: "Scope \<Rightarrow> string \<Rightarrow> string \<Rightarrow> AttemptRow \<Rightarrow> bool" where
  "ownAttempt sc workspace key x \<longleftrightarrow> attemptKey x = (s_SpaceID sc, s_CallerUID sc, workspace, key)"

definition setRow :: "(InstallAttempt \<Rightarrow> InstallAttempt) \<Rightarrow> AttemptRow \<Rightarrow> AttemptRow" where
  "setRow f x = x\<lparr>at_Row := f (at_Row x)\<rparr>"

definition updateAttempts :: "(AttemptRow \<Rightarrow> bool) \<Rightarrow> (InstallAttempt \<Rightarrow> InstallAttempt) \<Rightarrow> nat atx" where
  "updateAttempts c f = (\<lambda>s. Inr (affected c (setRow f) s, updateWhere c (setRow f) s))"

definition GetInstallAttempt :: "AttemptRow list \<Rightarrow> Scope \<Rightarrow> string \<Rightarrow> string \<Rightarrow> InstallAttempt option" where
  "GetInstallAttempt s sc workspace key = map_option at_Row (find (ownAttempt sc workspace key) s)"

definition installInitialState :: "InstallAttempt \<Rightarrow> AttemptState" where
  "installInitialState a = (if ia_FrozenPlan a = None then UNKNOWN else PREPARED)"

definition claimedRow :: "Scope \<Rightarrow> InstallAttempt \<Rightarrow> time \<Rightarrow> AttemptRow" where
  "claimedRow sc a t = \<lparr>at_SpaceID = s_SpaceID sc, at_CallerUID = s_CallerUID sc,
     at_Row = a\<lparr>ia_AgentID := '''', ia_TeamID := '''', ia_Completed := False, ia_CreatedAt := t, ia_State := installInitialState a,
       ia_HadUnknown := (ia_FrozenPlan a = None), ia_LeaseToken := None, ia_LeaseUntil := None, ia_RetryUntil := None\<rparr>\<rparr>"

definition ClaimInstallAttempt :: "Scope \<Rightarrow> InstallAttempt \<Rightarrow> time \<Rightarrow> InstallAttempt option atx" where
  "ClaimInstallAttempt sc a t =
     thenT (modifyT (\<lambda>s. if \<exists>x \<in> set s. ownAttempt sc (ia_WorkspaceID a) (ia_KeyDigest a) x then s else s @ [claimedRow sc a t]))
       (queryT (\<lambda>s. GetInstallAttempt s sc (ia_WorkspaceID a) (ia_KeyDigest a)))"

definition CompleteInstallAttempt :: "Scope \<Rightarrow> InstallAttempt \<Rightarrow> unit atx" where
  "CompleteInstallAttempt sc a =
     bindT (updateAttempts
       (\<lambda>x. ownAttempt sc (ia_WorkspaceID a) (ia_KeyDigest a) x \<and> ia_RequestFingerprint (at_Row x) = ia_RequestFingerprint a \<and>
            ia_RootVersionID (at_Row x) = ia_RootVersionID a \<and>
            (\<not> ia_Completed (at_Row x) \<or> ia_AgentID (at_Row x) = ia_AgentID a \<and> ia_TeamID (at_Row x) = ia_TeamID a))
       (\<lambda>b. b\<lparr>ia_Completed := True, ia_AgentID := ia_AgentID a, ia_TeamID := ia_TeamID a\<rparr>)) (\<lambda>n.
     whenT (n = 0)
       (bindT (queryT (\<lambda>s. GetInstallAttempt s sc (ia_WorkspaceID a) (ia_KeyDigest a))) (\<lambda>existing.
        refuseT (case existing of
            None \<Rightarrow> True
          | Some b \<Rightarrow> \<not> ia_Completed b \<or> ia_RootVersionID b \<noteq> ia_RootVersionID a \<or>
              ia_RequestFingerprint b \<noteq> ia_RequestFingerprint a \<or> ia_AgentID b \<noteq> ia_AgentID a \<or> ia_TeamID b \<noteq> ia_TeamID a)
          ErrConflict)))"

section \<open>Leases\<close>

definition takeLease :: "string \<Rightarrow> time \<Rightarrow> time \<Rightarrow> time \<Rightarrow> InstallAttempt \<Rightarrow> InstallAttempt" where
  "takeLease token t lease retry b = b\<lparr>ia_HadUnknown := (ia_State b = DISPATCHING \<or> ia_HadUnknown b), ia_State := DISPATCHING,
     ia_LeaseToken := Some token, ia_LeaseUntil := Some (t + lease),
     ia_RetryUntil := Some (case ia_RetryUntil b of None \<Rightarrow> t + retry | Some u \<Rightarrow> u)\<rparr>"

definition leaseFree :: "InstallAttempt \<Rightarrow> time \<Rightarrow> InstallAttempt \<Rightarrow> bool" where
  "leaseFree a t b \<longleftrightarrow> ia_FrozenPlan b \<noteq> None \<and> ia_RequestFingerprint b = ia_RequestFingerprint a \<and>
     ia_State b \<in> {PREPARED, UNKNOWN, DISPATCHING, FAILED} \<and>
     (case ia_LeaseUntil b of None \<Rightarrow> True | Some u \<Rightarrow> u \<le> t) \<and> (case ia_RetryUntil b of None \<Rightarrow> True | Some u \<Rightarrow> t < u)"

definition AcquireInstallDispatch :: "Scope \<Rightarrow> InstallAttempt \<Rightarrow> string \<Rightarrow> time \<Rightarrow> time \<Rightarrow> time \<Rightarrow> bool atx" where
  "AcquireInstallDispatch sc a token t lease retry =
     bindT (updateAttempts (\<lambda>x. ownAttempt sc (ia_WorkspaceID a) (ia_KeyDigest a) x \<and> leaseFree a t (at_Row x))
       (takeLease token t lease retry)) (\<lambda>n. returnT (n = 1))"

text \<open>The statements of a sender that holds the lease.\<close>

definition holdsLease :: "Scope \<Rightarrow> InstallAttempt \<Rightarrow> string \<Rightarrow> AttemptRow \<Rightarrow> bool" where
  "holdsLease sc a token x \<longleftrightarrow> ownAttempt sc (ia_WorkspaceID a) (ia_KeyDigest a) x \<and>
     ia_LeaseToken (at_Row x) = Some token \<and> ia_State (at_Row x) = DISPATCHING"

definition dropLease :: "InstallAttempt \<Rightarrow> InstallAttempt" where
  "dropLease b = b\<lparr>ia_LeaseToken := None, ia_LeaseUntil := None\<rparr>"

definition SetInstallDispatchUnknown :: "Scope \<Rightarrow> InstallAttempt \<Rightarrow> string \<Rightarrow> unit atx" where
  "SetInstallDispatchUnknown sc a token =
     bindT (updateAttempts (holdsLease sc a token)
       (\<lambda>b. (dropLease b)\<lparr>ia_State := UNKNOWN, ia_HadUnknown := True\<rparr>)) (\<lambda>_. returnT ())"

definition FinishInstallDispatch :: "Scope \<Rightarrow> InstallAttempt \<Rightarrow> string \<Rightarrow> bool atx" where
  "FinishInstallDispatch sc a token =
     bindT (updateAttempts (\<lambda>x. holdsLease sc a token x \<and> ia_RequestFingerprint (at_Row x) = ia_RequestFingerprint a)
       (\<lambda>b. (dropLease b)\<lparr>ia_Completed := True, ia_State := SUCCEEDED, ia_AgentID := ia_AgentID a, ia_TeamID := ia_TeamID a\<rparr>))
       (\<lambda>n. returnT (n = 1))"

definition FailInstallDispatch :: "Scope \<Rightarrow> InstallAttempt \<Rightarrow> string \<Rightarrow> bool atx" where
  "FailInstallDispatch sc a token =
     bindT (updateAttempts (\<lambda>x. holdsLease sc a token x \<and> \<not> ia_HadUnknown (at_Row x))
       (\<lambda>b. (dropLease b)\<lparr>ia_State := FAILED\<rparr>)) (\<lambda>n. returnT (n = 1))"

text \<open>\<open>NOW(3)\<close> is the database's clock, an argument here.\<close>

definition ExpireInstallAttempt :: "Scope \<Rightarrow> InstallAttempt \<Rightarrow> time \<Rightarrow> unit atx" where
  "ExpireInstallAttempt sc a t =
     bindT (updateAttempts (\<lambda>x. ownAttempt sc (ia_WorkspaceID a) (ia_KeyDigest a) x \<and> ia_State (at_Row x) \<noteq> SUCCEEDED \<and>
         (case ia_RetryUntil (at_Row x) of None \<Rightarrow> False | Some u \<Rightarrow> u \<le> t))
       (\<lambda>b. (dropLease b)\<lparr>ia_State := EXPIRED\<rparr>)) (\<lambda>_. returnT ())"

section \<open>The dispatch\<close>

text \<open>An answer of the fleet: a result, or an error that is an API response or not.\<close>

record CapabilityAPIError =
  ce_Status :: int
  ce_Code :: string
  ce_ConflictResource :: string

datatype Answer = Installed string string "bool option" | Refused "CapabilityAPIError option"

definition definiteInstallationRejection :: "CapabilityAPIError option \<Rightarrow> bool" where
  "definiteInstallationRejection e =
     (case e of
        None \<Rightarrow> False
      | Some u \<Rightarrow>
          if ce_Status u \<in> {400, 401, 403, 404, 413, 415, 422, 429} then True
          else ce_Status u = 409 \<and>
            (ce_Code u = ''DUPLICATE'' \<or> ce_Code u = ''IDEMPOTENCY_KEY_REUSED'' \<or>
             ce_Code u = ''CONFLICT'' \<and> ce_ConflictResource u \<noteq> ''''))"

definition minutes :: "nat \<Rightarrow> time" where
  "minutes n = n * 60000"

definition installReceiptWindow :: time where
  "installReceiptWindow = minutes (24 * 60)"

datatype DispatchError = DispatchConflict | DispatchIntegrity | AttemptExpired "time option"
  | AttemptFailed "CapabilityAPIError option" bool "time option" | PersistenceUncertain "time option"

text \<open>Before the call: a finished receipt without a deadline and a passed deadline are refused, an
  unfinished attempt takes the lease and reads the deadline it now has. The result is the attempt
  value the rest of the request works with. The clock of the expiry statement is \<open>dbNow\<close>.\<close>

definition startDispatch :: "Scope \<Rightarrow> InstallAttempt \<Rightarrow> string \<Rightarrow> time \<Rightarrow> time \<Rightarrow> (DispatchError + InstallAttempt) atx" where
  "startDispatch sc a token t dbNow =
     (if ia_RetryUntil a = None \<and> ia_Completed a then returnT (Inl DispatchConflict)
      else if (case ia_RetryUntil a of None \<Rightarrow> False | Some u \<Rightarrow> u \<le> t) then
        thenT (ExpireInstallAttempt sc a dbNow) (returnT (Inl (AttemptExpired (ia_RetryUntil a))))
      else if ia_Completed a then returnT (Inr a)
      else
        bindT (AcquireInstallDispatch sc a token t (minutes 3) (installReceiptWindow - minutes 1)) (\<lambda>acquired.
        if \<not> acquired then returnT (Inl DispatchConflict)
        else bindT (queryT (\<lambda>s. GetInstallAttempt s sc (ia_WorkspaceID a) (ia_KeyDigest a))) (\<lambda>row.
          case row of
            None \<Rightarrow> returnT (Inl DispatchIntegrity)
          | Some b \<Rightarrow>
              if ia_RetryUntil b = None then returnT (Inl DispatchIntegrity)
              else returnT (Inr (a\<lparr>ia_RetryUntil := ia_RetryUntil b, ia_LeaseToken := ia_LeaseToken b,
                     ia_LeaseUntil := ia_LeaseUntil b, ia_State := ia_State b, ia_HadUnknown := ia_HadUnknown b\<rparr>)))))"

record InstallationOutcome =
  io_AgentID :: string
  io_SquadID :: string
  io_Replayed :: bool

text \<open>After the call. The flag of the result says that the installation is counted (\<open>trackInstall\<close>).\<close>

definition finishDispatch ::
  "Scope \<Rightarrow> InstallAttempt \<Rightarrow> string \<Rightarrow> time \<Rightarrow> Answer \<Rightarrow> ((DispatchError + InstallationOutcome) \<times> bool) atx" where
  "finishDispatch sc a token t answer =
     (case answer of
        Refused e \<Rightarrow>
          bindT (if ia_Completed a then returnT (\<not> definiteInstallationRejection e)
                 else
                   bindT (if definiteInstallationRejection e
                          then bindT (FailInstallDispatch sc a token) (\<lambda>rejected. returnT (\<not> rejected))
                          else returnT True) (\<lambda>unknown.
                   thenT (whenT unknown (SetInstallDispatchUnknown sc a token)) (returnT unknown))) (\<lambda>unknown.
          returnT (Inl (AttemptFailed e unknown
            (Some (case ia_RetryUntil a of None \<Rightarrow> t + (installReceiptWindow - minutes 1) | Some u \<Rightarrow> u))), False))
      | Installed expert team replayed \<Rightarrow>
          if ia_Completed a then
            returnT (if ia_AgentID a \<noteq> expert \<or> ia_TeamID a \<noteq> team then Inl DispatchIntegrity
                     else Inr \<lparr>io_AgentID = ia_AgentID a, io_SquadID = ia_TeamID a, io_Replayed = True\<rparr>, False)
          else
            bindT (FinishInstallDispatch sc (a\<lparr>ia_AgentID := expert, ia_TeamID := team\<rparr>) token) (\<lambda>transitioned.
            returnT (if \<not> transitioned then (Inl (PersistenceUncertain (ia_RetryUntil a)), False)
                     else (Inr \<lparr>io_AgentID = expert, io_SquadID = team, io_Replayed = (replayed = Some True)\<rparr>, True))))"

section \<open>The protocol\<close>

text \<open>
  Every lease is a send the fleet may commit. Its fate is open until the fleet commits it or
  answers with a definite rejection, which means that this send was not committed. The ghost
  fields record the sends and the counted installations of each attempt.
\<close>

datatype Fate = Flying | Committed | Rejected

record Send =
  sd_Key :: "string \<times> string \<times> string \<times> string"
  sd_Token :: string
  sd_At :: time
  sd_Fate :: Fate

record Protocol =
  pr_Rows :: "AttemptRow list"
  pr_Sends :: "Send list"
  pr_Tracked :: "(string \<times> string \<times> string \<times> string) list"
  pr_Clock :: time

definition requestKey :: "Scope \<Rightarrow> InstallAttempt \<Rightarrow> string \<times> string \<times> string \<times> string" where
  "requestKey sc a = (s_SpaceID sc, s_CallerUID sc, ia_WorkspaceID a, ia_KeyDigest a)"

definition resolveSend :: "string \<Rightarrow> Fate \<Rightarrow> Send list \<Rightarrow> Send list" where
  "resolveSend token fate = updateWhere (\<lambda>d. sd_Token d = token \<and> sd_Fate d = Flying) (\<lambda>d. d\<lparr>sd_Fate := fate\<rparr>)"

text \<open>What an answer says about the send it answers.\<close>

definition truthful :: "Answer \<Rightarrow> Fate \<Rightarrow> bool" where
  "truthful answer fate =
     (case answer of Installed _ _ _ \<Rightarrow> fate = Committed | Refused e \<Rightarrow> definiteInstallationRejection e \<longrightarrow> fate = Rejected)"

text \<open>The steps: a request claims its attempt, a sender starts with a fresh token, the fleet decides a
  send, a sender reports; all of them interleave, and a sender may stop at any point.\<close>

inductive protocolStep :: "Protocol \<Rightarrow> Protocol \<Rightarrow> bool" where
  Claim: "ClaimInstallAttempt sc a t (pr_Rows s) = Inr (row, rows) \<Longrightarrow> protocolStep s (s\<lparr>pr_Rows := rows\<rparr>)"
| Start: "pr_Clock s \<le> t \<Longrightarrow> token \<notin> sd_Token ` set (pr_Sends s) \<Longrightarrow> \<not> ia_Completed a \<Longrightarrow>
    startDispatch sc a token t dbNow (pr_Rows s) = Inr (Inr b, rows) \<Longrightarrow>
    protocolStep s (s\<lparr>pr_Rows := rows, pr_Clock := t,
      pr_Sends := pr_Sends s @ [\<lparr>sd_Key = requestKey sc a, sd_Token = token, sd_At = t, sd_Fate = Flying\<rparr>]\<rparr>)"
| Refuse: "pr_Clock s \<le> t \<Longrightarrow> startDispatch sc a token t dbNow (pr_Rows s) = Inr (Inl e, rows) \<Longrightarrow>
    protocolStep s (s\<lparr>pr_Rows := rows, pr_Clock := t\<rparr>)"
| Decide: "protocolStep s (s\<lparr>pr_Sends := resolveSend token fate (pr_Sends s)\<rparr>)"
| Report: "d \<in> set (pr_Sends s) \<Longrightarrow> sd_Token d = token \<Longrightarrow> sd_Key d = requestKey sc a \<Longrightarrow> truthful answer (sd_Fate d) \<Longrightarrow>
    \<not> ia_Completed a \<Longrightarrow> finishDispatch sc a token t answer (pr_Rows s) = Inr ((out, counted), rows) \<Longrightarrow>
    protocolStep s (s\<lparr>pr_Rows := rows, pr_Tracked := (if counted then requestKey sc a # pr_Tracked s else pr_Tracked s)\<rparr>)"

inductive protocolReach :: "Protocol \<Rightarrow> bool" where
  init: "protocolReach \<lparr>pr_Rows = [], pr_Sends = [], pr_Tracked = [], pr_Clock = 0\<rparr>"
| step: "protocolReach s \<Longrightarrow> protocolStep s t \<Longrightarrow> protocolReach t"

text \<open>The invariant of a row and its sends: where no send is uncertain, only the holder of the lease
  may have an open or committed send; the deadline is fixed by the first send.\<close>

definition rowSafe :: "Send list \<Rightarrow> InstallAttempt \<Rightarrow> bool" where
  "rowSafe sends b \<longleftrightarrow>
     (ia_State b \<in> {PREPARED, FAILED} \<longrightarrow> \<not> ia_HadUnknown b \<and> (\<forall>d \<in> set sends. sd_Fate d = Rejected)) \<and>
     (ia_State b = UNKNOWN \<longrightarrow> ia_HadUnknown b) \<and>
     (ia_State b = DISPATCHING \<and> \<not> ia_HadUnknown b \<longrightarrow> (\<forall>d \<in> set sends. sd_Fate d = Rejected \<or> ia_LeaseToken b = Some (sd_Token d)))"

definition rowTimed :: "time \<Rightarrow> Send list \<Rightarrow> InstallAttempt \<Rightarrow> bool" where
  "rowTimed clock sends b \<longleftrightarrow>
     (case ia_RetryUntil b of
        None \<Rightarrow> sends = []
      | Some u \<Rightarrow> u \<le> clock + (installReceiptWindow - minutes 1) \<and>
          (\<forall>d \<in> set sends. sd_At d < u \<and> u \<le> sd_At d + (installReceiptWindow - minutes 1)))"

definition sendsOf :: "Protocol \<Rightarrow> string \<times> string \<times> string \<times> string \<Rightarrow> Send list" where
  "sendsOf s k = filter (\<lambda>d. sd_Key d = k) (pr_Sends s)"

definition protocolOK :: "Protocol \<Rightarrow> bool" where
  "protocolOK s \<longleftrightarrow> distinct (map attemptKey (pr_Rows s)) \<and> distinct (map sd_Token (pr_Sends s)) \<and>
     (\<forall>d \<in> set (pr_Sends s). sd_Key d \<in> attemptKey ` set (pr_Rows s)) \<and> set (pr_Tracked s) \<subseteq> attemptKey ` set (pr_Rows s) \<and>
     (\<forall>x \<in> set (pr_Rows s). rowSafe (sendsOf s (attemptKey x)) (at_Row x) \<and> rowTimed (pr_Clock s) (sendsOf s (attemptKey x)) (at_Row x) \<and>
        count_list (pr_Tracked s) (attemptKey x) = (if ia_State (at_Row x) = SUCCEEDED then 1 else 0))"

section \<open>The invariant holds\<close>

lemma updateAttempts_Inr: "updateAttempts c f s = Inr (n, t) \<longleftrightarrow> n = affected c (setRow f) s \<and> t = updateWhere c (setRow f) s"
  by (auto simp: updateAttempts_def)

definition keepsKey :: "(InstallAttempt \<Rightarrow> InstallAttempt) \<Rightarrow> bool" where
  "keepsKey f \<longleftrightarrow> (\<forall>b. ia_WorkspaceID (f b) = ia_WorkspaceID b \<and> ia_KeyDigest (f b) = ia_KeyDigest b)"

lemma attemptKey_setRow: "keepsKey f \<Longrightarrow> attemptKey (setRow f x) = attemptKey x"
  by (simp add: keepsKey_def attemptKey_def setRow_def)

lemma map_attemptKey: "keepsKey f \<Longrightarrow> map attemptKey (updateWhere c (setRow f) rows) = map attemptKey rows"
  by (intro map_updateWhere_key) (simp add: attemptKey_setRow)

text \<open>An UPDATE of the row of one key touches one row or none.\<close>

lemma affected_own:
  assumes "distinct (map attemptKey rows)" and own: "\<And>x. c x \<Longrightarrow> attemptKey x = k" and "\<And>x. c x \<Longrightarrow> g x \<noteq> x"
  shows "affected c g rows = (if \<exists>x \<in> set rows. c x then 1 else 0)"
  using assms(1)
proof (induction rows)
  case (Cons x rows)
  show ?case
  proof (cases "c x")
    case True
    have "\<not> c y" if "y \<in> set rows" for y
    proof
      assume "c y"
      then have "attemptKey x \<in> attemptKey ` set rows" using own True that by (metis imageI)
      with Cons.prems show False by simp
    qed
    then have "filter (\<lambda>r. c r \<and> g r \<noteq> r) rows = []" by (simp add: filter_empty_conv)
    with True assms(3) [of x] show ?thesis by (simp add: affected_def)
  next
    case False
    with Cons show ?thesis by (simp add: affected_def)
  qed
qed (simp add: affected_def)

text \<open>An UPDATE keeps the invariant when it keeps it for each row.\<close>

lemma protocolOK_update:
  assumes ok: "protocolOK s" and rows: "pr_Rows s' = updateWhere c (setRow f) (pr_Rows s)" and key: "keepsKey f"
    and "distinct (map sd_Token (pr_Sends s'))" and "\<forall>d \<in> set (pr_Sends s'). sd_Key d \<in> attemptKey ` set (pr_Rows s)"
    and "set (pr_Tracked s') \<subseteq> attemptKey ` set (pr_Rows s)"
    and each: "\<And>x. x \<in> set (pr_Rows s) \<Longrightarrow>
      rowSafe (sendsOf s' (attemptKey x)) (if c x then f (at_Row x) else at_Row x) \<and>
      rowTimed (pr_Clock s') (sendsOf s' (attemptKey x)) (if c x then f (at_Row x) else at_Row x) \<and>
      count_list (pr_Tracked s') (attemptKey x) = (if ia_State (if c x then f (at_Row x) else at_Row x) = SUCCEEDED then 1 else 0)"
  shows "protocolOK s'"
proof -
  have keys: "map attemptKey (pr_Rows s') = map attemptKey (pr_Rows s)" unfolding rows using key by (rule map_attemptKey)
  then have "attemptKey ` set (pr_Rows s') = attemptKey ` set (pr_Rows s)" by (metis list.set_map)
  moreover have "rowSafe (sendsOf s' (attemptKey y)) (at_Row y) \<and> rowTimed (pr_Clock s') (sendsOf s' (attemptKey y)) (at_Row y) \<and>
        count_list (pr_Tracked s') (attemptKey y) = (if ia_State (at_Row y) = SUCCEEDED then 1 else 0)" if "y \<in> set (pr_Rows s')" for y
    using that unfolding rows
  proof (cases rule: updateWhere_memE)
    case (1 x)
    with each [of x] show ?thesis by (simp add: attemptKey_setRow [OF key]) (simp add: setRow_def)
  next
    case 2
    with each [of y] show ?thesis by simp
  qed
  ultimately show ?thesis using assms(4-6) ok keys unfolding protocolOK_def by simp
qed

lemma protocolOK_row:
  assumes "protocolOK s" and "x \<in> set (pr_Rows s)"
  shows "rowSafe (sendsOf s (attemptKey x)) (at_Row x)" and "rowTimed (pr_Clock s) (sendsOf s (attemptKey x)) (at_Row x)"
    and "count_list (pr_Tracked s) (attemptKey x) = (if ia_State (at_Row x) = SUCCEEDED then 1 else 0)"
  using assms by (simp_all add: protocolOK_def)

lemma rowTimed_later: "rowTimed clock sends b \<Longrightarrow> clock \<le> t \<Longrightarrow> rowTimed t sends b"
  by (auto simp: rowTimed_def split: option.splits)

text \<open>Taking a lease, with the send it starts and without.\<close>

lemma keepsKey_ops: "keepsKey (takeLease token t l w)" "keepsKey (\<lambda>b. (dropLease b)\<lparr>ia_State := st\<rparr>)"
  "keepsKey (\<lambda>b. (dropLease b)\<lparr>ia_State := st, ia_HadUnknown := u\<rparr>)"
  "keepsKey (\<lambda>b. (dropLease b)\<lparr>ia_Completed := True, ia_State := st, ia_AgentID := ag, ia_TeamID := te\<rparr>)"
  by (simp_all add: keepsKey_def takeLease_def dropLease_def)

lemma takeLease_safe:
  assumes "rowSafe sends b" and "ia_State b \<in> {PREPARED, UNKNOWN, DISPATCHING, FAILED}" and "\<forall>d \<in> set new. sd_Token d = token"
  shows "rowSafe (sends @ new) (takeLease token t l w b)"
  using assms by (auto simp: rowSafe_def takeLease_def)

lemma takeLease_timed:
  assumes "rowTimed clock sends b" and "clock \<le> t" and "leaseFree a t b" and "\<forall>d \<in> set new. sd_At d = t"
  shows "rowTimed t (sends @ new) (takeLease token t l (installReceiptWindow - minutes 1) b)"
  using assms by (auto simp: rowTimed_def takeLease_def leaseFree_def installReceiptWindow_def minutes_def split: option.splits)

lemma acquire_run:
  assumes "AcquireInstallDispatch sc a token t l w rows = Inr (ok, rows')" and "distinct (map attemptKey rows)" and "0 < l"
  defines "c \<equiv> (\<lambda>x. attemptKey x = requestKey sc a \<and> leaseFree a t (at_Row x))"
  shows "rows' = updateWhere c (setRow (takeLease token t l w)) rows" and "ok \<longleftrightarrow> (\<exists>x \<in> set rows. c x)"
proof -
  have c: "(\<lambda>x. ownAttempt sc (ia_WorkspaceID a) (ia_KeyDigest a) x \<and> leaseFree a t (at_Row x)) = c"
    by (simp add: c_def ownAttempt_def requestKey_def)
  have run: "rows' = updateWhere c (setRow (takeLease token t l w)) rows" "ok \<longleftrightarrow> affected c (setRow (takeLease token t l w)) rows = 1"
    using assms(1) by (auto simp: AcquireInstallDispatch_def bindT_Inr updateAttempts_Inr returnT_Inr c)
  have "setRow (takeLease token t l w) x \<noteq> x" if "c x" for x
  proof
    assume "setRow (takeLease token t l w) x = x"
    then have "at_Row (setRow (takeLease token t l w) x) = at_Row x" by simp
    then have "ia_LeaseUntil (at_Row x) = Some (t + l)" by (simp add: setRow_def) (drule arg_cong [where f = ia_LeaseUntil], simp add: takeLease_def)
    with that assms(3) show False by (simp add: c_def leaseFree_def)
  qed
  then have "affected c (setRow (takeLease token t l w)) rows = (if \<exists>x \<in> set rows. c x then 1 else 0)"
    by (intro affected_own [OF assms(2), where k = "requestKey sc a"]) (auto simp: c_def)
  with run show "rows' = updateWhere c (setRow (takeLease token t l w)) rows" "ok \<longleftrightarrow> (\<exists>x \<in> set rows. c x)" by auto
qed

lemma holdsLease_key: "holdsLease sc a token x \<Longrightarrow> attemptKey x = requestKey sc a"
  by (simp add: holdsLease_def ownAttempt_def requestKey_def)

lemma protocolOK_same:
  assumes ok: "protocolOK s" and rows: "pr_Rows s' = updateWhere c (setRow f) (pr_Rows s)" and key: "keepsKey f"
    and same: "pr_Sends s' = pr_Sends s" "pr_Tracked s' = pr_Tracked s" "pr_Clock s \<le> pr_Clock s'"
    and each: "\<And>x. x \<in> set (pr_Rows s) \<Longrightarrow> c x \<Longrightarrow> rowSafe (sendsOf s (attemptKey x)) (at_Row x) \<Longrightarrow>
      rowSafe (sendsOf s (attemptKey x)) (f (at_Row x)) \<and> ia_RetryUntil (f (at_Row x)) = ia_RetryUntil (at_Row x) \<and>
      ia_State (at_Row x) \<noteq> SUCCEEDED \<and> ia_State (f (at_Row x)) \<noteq> SUCCEEDED"
  shows "protocolOK s'"
proof (rule protocolOK_update [OF ok rows key])
  show "distinct (map sd_Token (pr_Sends s'))" "\<forall>d \<in> set (pr_Sends s'). sd_Key d \<in> attemptKey ` set (pr_Rows s)"
    "set (pr_Tracked s') \<subseteq> attemptKey ` set (pr_Rows s)" using ok same by (simp_all add: protocolOK_def)
  fix x assume x: "x \<in> set (pr_Rows s)"
  have sends: "sendsOf s' (attemptKey x) = sendsOf s (attemptKey x)" by (simp add: sendsOf_def same)
  note r = protocolOK_row [OF ok x]
  have "rowTimed (pr_Clock s') (sendsOf s (attemptKey x)) (at_Row x)" using r(2) same(3) by (rule rowTimed_later)
  then show "rowSafe (sendsOf s' (attemptKey x)) (if c x then f (at_Row x) else at_Row x) \<and>
      rowTimed (pr_Clock s') (sendsOf s' (attemptKey x)) (if c x then f (at_Row x) else at_Row x) \<and>
      count_list (pr_Tracked s') (attemptKey x) = (if ia_State (if c x then f (at_Row x) else at_Row x) = SUCCEEDED then 1 else 0)"
    using r each [OF x _ r(1)] unfolding sends same by (auto simp: rowTimed_def)
qed

lemma unknown_ok:
  assumes "protocolOK s" and run: "SetInstallDispatchUnknown sc a token (pr_Rows s) = Inr (u, rows)"
  shows "protocolOK (s\<lparr>pr_Rows := rows\<rparr>)"
proof (rule protocolOK_same [OF assms(1) _ keepsKey_ops(3)])
  show "pr_Rows (s\<lparr>pr_Rows := rows\<rparr>) = updateWhere (holdsLease sc a token) (setRow (\<lambda>b. (dropLease b)\<lparr>ia_State := UNKNOWN, ia_HadUnknown := True\<rparr>)) (pr_Rows s)"
    using run by (simp add: SetInstallDispatchUnknown_def bindT_Inr updateAttempts_Inr returnT_Inr)
qed (auto simp: rowSafe_def dropLease_def holdsLease_def)

lemma expire_ok:
  assumes "protocolOK s" and run: "ExpireInstallAttempt sc a dbNow (pr_Rows s) = Inr (u, rows)" and "pr_Clock s \<le> t"
  shows "protocolOK (s\<lparr>pr_Rows := rows, pr_Clock := t\<rparr>)"
proof (rule protocolOK_same [OF assms(1) _ keepsKey_ops(2)])
  show "pr_Rows (s\<lparr>pr_Rows := rows, pr_Clock := t\<rparr>) = updateWhere (\<lambda>x. ownAttempt sc (ia_WorkspaceID a) (ia_KeyDigest a) x \<and> ia_State (at_Row x) \<noteq> SUCCEEDED \<and>
         (case ia_RetryUntil (at_Row x) of None \<Rightarrow> False | Some u \<Rightarrow> u \<le> dbNow)) (setRow (\<lambda>b. (dropLease b)\<lparr>ia_State := EXPIRED\<rparr>)) (pr_Rows s)"
    using run by (simp add: ExpireInstallAttempt_def bindT_Inr updateAttempts_Inr returnT_Inr)
qed (use assms(3) in \<open>auto simp: rowSafe_def dropLease_def\<close>)

lemma sends_unique:
  "protocolOK s \<Longrightarrow> d \<in> set (pr_Sends s) \<Longrightarrow> d' \<in> set (pr_Sends s) \<Longrightarrow> sd_Token d' = sd_Token d \<Longrightarrow> d' = d"
  by (auto simp: protocolOK_def distinct_map inj_on_def)

lemma fail_ok:
  assumes ok: "protocolOK s" and run: "FailInstallDispatch sc a token (pr_Rows s) = Inr (b, rows)"
    and d: "d \<in> set (pr_Sends s)" "sd_Token d = token" "sd_Fate d = Rejected"
  shows "protocolOK (s\<lparr>pr_Rows := rows\<rparr>)"
proof (rule protocolOK_same [OF ok _ keepsKey_ops(2)])
  show "pr_Rows (s\<lparr>pr_Rows := rows\<rparr>) = updateWhere (\<lambda>x. holdsLease sc a token x \<and> \<not> ia_HadUnknown (at_Row x))
      (setRow (\<lambda>b. (dropLease b)\<lparr>ia_State := FAILED\<rparr>)) (pr_Rows s)"
    using run by (simp add: FailInstallDispatch_def bindT_Inr updateAttempts_Inr returnT_Inr)
  fix x assume x: "holdsLease sc a token x \<and> \<not> ia_HadUnknown (at_Row x)" and safe: "rowSafe (sendsOf s (attemptKey x)) (at_Row x)"
  have "sd_Fate d' = Rejected" if "d' \<in> set (sendsOf s (attemptKey x))" for d'
  proof -
    have "sd_Fate d' = Rejected \<or> sd_Token d' = token" using that safe x by (auto simp: rowSafe_def holdsLease_def)
    then show ?thesis using sends_unique [OF ok d(1), of d'] that d by (auto simp: sendsOf_def)
  qed
  with x show "rowSafe (sendsOf s (attemptKey x)) ((dropLease (at_Row x))\<lparr>ia_State := FAILED\<rparr>) \<and>
      ia_RetryUntil ((dropLease (at_Row x))\<lparr>ia_State := FAILED\<rparr>) = ia_RetryUntil (at_Row x) \<and>
      ia_State (at_Row x) \<noteq> SUCCEEDED \<and> ia_State ((dropLease (at_Row x))\<lparr>ia_State := FAILED\<rparr>) \<noteq> SUCCEEDED"
    by (auto simp: rowSafe_def dropLease_def holdsLease_def)
qed simp_all

lemma finish_ok:
  assumes ok: "protocolOK s" and run: "FinishInstallDispatch sc a token (pr_Rows s) = Inr (won, rows)"
  shows "protocolOK (s\<lparr>pr_Rows := rows, pr_Tracked := (if won then requestKey sc a # pr_Tracked s else pr_Tracked s)\<rparr>)"
proof -
  let ?c = "\<lambda>x. holdsLease sc a token x \<and> ia_RequestFingerprint (at_Row x) = ia_RequestFingerprint a"
  let ?f = "\<lambda>b. (dropLease b)\<lparr>ia_Completed := True, ia_State := SUCCEEDED, ia_AgentID := ia_AgentID a, ia_TeamID := ia_TeamID a\<rparr>"
  let ?s = "s\<lparr>pr_Rows := rows, pr_Tracked := (if won then requestKey sc a # pr_Tracked s else pr_Tracked s)\<rparr>"
  have rows: "rows = updateWhere ?c (setRow ?f) (pr_Rows s)" and n: "won \<longleftrightarrow> affected ?c (setRow ?f) (pr_Rows s) = 1"
    using run by (auto simp: FinishInstallDispatch_def bindT_Inr updateAttempts_Inr returnT_Inr)
  have "setRow ?f x \<noteq> x" if "?c x" for x
  proof
    assume "setRow ?f x = x"
    then have "ia_State (at_Row (setRow ?f x)) = ia_State (at_Row x)" by simp
    with that show False by (simp add: setRow_def holdsLease_def)
  qed
  then have "affected ?c (setRow ?f) (pr_Rows s) = (if \<exists>x \<in> set (pr_Rows s). ?c x then 1 else 0)"
    using ok by (intro affected_own [where k = "requestKey sc a"]) (auto simp: protocolOK_def dest: holdsLease_key)
  then have won: "won \<longleftrightarrow> (\<exists>x \<in> set (pr_Rows s). ?c x)" using n by auto
  have key: "?c x \<longleftrightarrow> attemptKey x = requestKey sc a" if w: "won" "x \<in> set (pr_Rows s)" for x
  proof -
    obtain y where y: "y \<in> set (pr_Rows s)" "?c y" using won w(1) by blast
    have "x = y" if "attemptKey x = requestKey sc a"
      using that y holdsLease_key [of sc a token y] w(2) ok distinct_key_eq [of attemptKey "pr_Rows s" x y]
      by (auto simp: protocolOK_def)
    with y holdsLease_key [of sc a token x] show ?thesis by auto
  qed
  show ?thesis
  proof (rule protocolOK_update [OF ok _ keepsKey_ops(4)])
    show "pr_Rows ?s = updateWhere ?c (setRow ?f) (pr_Rows s)" using rows by simp
    show "distinct (map sd_Token (pr_Sends ?s))" "\<forall>d \<in> set (pr_Sends ?s). sd_Key d \<in> attemptKey ` set (pr_Rows s)"
      using ok by (simp_all add: protocolOK_def)
    have "requestKey sc a \<in> attemptKey ` set (pr_Rows s)" if "won" using that won holdsLease_key [of sc a token] by (metis imageI)
    then show "set (pr_Tracked ?s) \<subseteq> attemptKey ` set (pr_Rows s)" using ok by (simp add: protocolOK_def)
    fix x assume x: "x \<in> set (pr_Rows s)"
    note r = protocolOK_row [OF ok x]
    have "sendsOf ?s (attemptKey x) = sendsOf s (attemptKey x)" by (simp add: sendsOf_def)
    moreover have "\<not> ?c x" if "\<not> won" using that won x by blast
    ultimately show "rowSafe (sendsOf ?s (attemptKey x)) (if ?c x then ?f (at_Row x) else at_Row x) \<and>
      rowTimed (pr_Clock ?s) (sendsOf ?s (attemptKey x)) (if ?c x then ?f (at_Row x) else at_Row x) \<and>
      count_list (pr_Tracked ?s) (attemptKey x) = (if ia_State (if ?c x then ?f (at_Row x) else at_Row x) = SUCCEEDED then 1 else 0)"
      using r key [OF _ x] by (cases "?c x"; cases "won") (auto simp: rowSafe_def rowTimed_def dropLease_def holdsLease_def)
  qed
qed

lemma acquire_ok:
  assumes ok: "protocolOK s" and run: "AcquireInstallDispatch sc a token t (minutes 3) (installReceiptWindow - minutes 1) (pr_Rows s) = Inr (got, rows)"
    and t: "pr_Clock s \<le> t"
    and new: "\<forall>d \<in> set new. sd_Token d = token \<and> sd_At d = t \<and> sd_Key d = requestKey sc a" "distinct (map sd_Token (pr_Sends s @ new))" "new \<noteq> [] \<longrightarrow> got"
  shows "protocolOK (s\<lparr>pr_Rows := rows, pr_Clock := t, pr_Sends := pr_Sends s @ new\<rparr>)"
proof -
  let ?c = "\<lambda>x. attemptKey x = requestKey sc a \<and> leaseFree a t (at_Row x)"
  let ?f = "takeLease token t (minutes 3) (installReceiptWindow - minutes 1)"
  let ?s = "s\<lparr>pr_Rows := rows, pr_Clock := t, pr_Sends := pr_Sends s @ new\<rparr>"
  have rows: "rows = updateWhere ?c (setRow ?f) (pr_Rows s)" and got: "got \<longleftrightarrow> (\<exists>x \<in> set (pr_Rows s). ?c x)"
    by (rule acquire_run [OF run]; use ok in \<open>simp add: protocolOK_def minutes_def\<close>)+
  have only: "filter (\<lambda>d. sd_Key d = attemptKey x) new = (if attemptKey x = requestKey sc a then new else [])" for x
    using new(1) by (auto simp: filter_empty_conv filter_id_conv)
  have hit: "?c x" if h: "new \<noteq> []" "x \<in> set (pr_Rows s)" "attemptKey x = requestKey sc a" for x
  proof -
    obtain y where y: "y \<in> set (pr_Rows s)" "?c y" using got new(3) h(1) by blast
    have "x = y" using h(2,3) y ok distinct_key_eq [of attemptKey "pr_Rows s" x y] by (simp add: protocolOK_def)
    with y show ?thesis by simp
  qed
  show ?thesis
  proof (rule protocolOK_update [OF ok _ keepsKey_ops(1)])
    show "pr_Rows ?s = updateWhere ?c (setRow ?f) (pr_Rows s)" using rows by simp
    show "distinct (map sd_Token (pr_Sends ?s))" using new(2) by simp
    have "requestKey sc a \<in> attemptKey ` set (pr_Rows s)" if "new \<noteq> []" using that new(3) got by (metis imageI)
    then have "\<forall>d \<in> set new. sd_Key d \<in> attemptKey ` set (pr_Rows s)" using new(1) by (cases new) simp_all
    then show "\<forall>d \<in> set (pr_Sends ?s). sd_Key d \<in> attemptKey ` set (pr_Rows s)" using ok by (simp add: protocolOK_def ball_Un)
    show "set (pr_Tracked ?s) \<subseteq> attemptKey ` set (pr_Rows s)" using ok by (simp add: protocolOK_def)
    fix x assume x: "x \<in> set (pr_Rows s)"
    note r = protocolOK_row [OF ok x]
    have sends: "sendsOf ?s (attemptKey x) = sendsOf s (attemptKey x) @ (if attemptKey x = requestKey sc a then new else [])"
      by (simp add: sendsOf_def only)
    show "rowSafe (sendsOf ?s (attemptKey x)) (if ?c x then ?f (at_Row x) else at_Row x) \<and>
      rowTimed (pr_Clock ?s) (sendsOf ?s (attemptKey x)) (if ?c x then ?f (at_Row x) else at_Row x) \<and>
      count_list (pr_Tracked ?s) (attemptKey x) = (if ia_State (if ?c x then ?f (at_Row x) else at_Row x) = SUCCEEDED then 1 else 0)"
    proof (cases "?c x")
      case True
      have "ia_State (at_Row x) \<in> {PREPARED, UNKNOWN, DISPATCHING, FAILED}" using True by (simp add: leaseFree_def)
      then have "rowSafe (sendsOf s (attemptKey x) @ new) (?f (at_Row x))"
        using takeLease_safe [OF r(1), of new token] new(1) by blast
      moreover have "rowTimed t (sendsOf s (attemptKey x) @ new) (?f (at_Row x))"
        using takeLease_timed [OF r(2) t, of a new token] True new(1) by blast
      moreover have "ia_State (?f (at_Row x)) = DISPATCHING" "ia_State (at_Row x) \<noteq> SUCCEEDED"
        using True by (auto simp: takeLease_def leaseFree_def)
      ultimately show ?thesis using True r(3) unfolding sends by simp
    next
      case False
      then have "attemptKey x = requestKey sc a \<Longrightarrow> new = []" using hit [OF _ x] by blast
      then have same: "sendsOf ?s (attemptKey x) = sendsOf s (attemptKey x)" unfolding sends by simp
      show ?thesis unfolding same using False r(1,3) rowTimed_later [OF r(2) t] by (simp del: de_Morgan_conj)
    qed
  qed
qed

lemma claim_ok:
  assumes ok: "protocolOK s" and run: "ClaimInstallAttempt sc a t (pr_Rows s) = Inr (row, rows)"
  shows "protocolOK (s\<lparr>pr_Rows := rows\<rparr>)"
proof (cases "\<exists>x \<in> set (pr_Rows s). ownAttempt sc (ia_WorkspaceID a) (ia_KeyDigest a) x")
  case True
  with run have "rows = pr_Rows s" by (simp add: ClaimInstallAttempt_def thenT_Inr modifyT_Inr queryT_Inr)
  with ok show ?thesis by simp
next
  case False
  let ?x = "claimedRow sc a t"
  from run False have rows: "rows = pr_Rows s @ [?x]" by (simp add: ClaimInstallAttempt_def thenT_Inr modifyT_Inr queryT_Inr)
  have key: "attemptKey ?x = requestKey sc a" by (simp add: attemptKey_def claimedRow_def requestKey_def)
  have new: "requestKey sc a \<notin> attemptKey ` set (pr_Rows s)" using False by (auto simp: ownAttempt_def requestKey_def)
  have "\<forall>d \<in> set (pr_Sends s). sd_Key d \<noteq> requestKey sc a" "requestKey sc a \<notin> set (pr_Tracked s)"
    using ok new unfolding protocolOK_def by (metis, metis subsetD)
  then have none: "sendsOf (s\<lparr>pr_Rows := rows\<rparr>) (requestKey sc a) = []" "requestKey sc a \<notin> set (pr_Tracked s)"
    by (simp_all add: sendsOf_def filter_empty_conv)
  have old: "sendsOf (s\<lparr>pr_Rows := rows\<rparr>) k = sendsOf s k" for k by (simp add: sendsOf_def)
  have "rowSafe [] (at_Row ?x)" "rowTimed c [] (at_Row ?x)" "ia_State (at_Row ?x) \<noteq> SUCCEEDED" for c
    by (simp_all add: rowSafe_def rowTimed_def claimedRow_def installInitialState_def)
  with none ok new show ?thesis
    unfolding protocolOK_def by (simp add: rows key old count_list_0_iff ball_Un) (auto simp: sendsOf_def)
qed

lemma resolve_ok: "protocolOK s \<Longrightarrow> protocolOK (s\<lparr>pr_Sends := resolveSend token fate (pr_Sends s)\<rparr>)"
proof -
  assume ok: "protocolOK s"
  let ?s = "s\<lparr>pr_Sends := resolveSend token fate (pr_Sends s)\<rparr>"
  have tokens: "map sd_Token (resolveSend token fate ds) = map sd_Token ds" and keys: "map sd_Key (resolveSend token fate ds) = map sd_Key ds" for ds
    unfolding resolveSend_def by (simp_all add: map_updateWhere_key)
  have sends: "sendsOf ?s k = resolveSend token fate (sendsOf s k)" for k
    unfolding sendsOf_def resolveSend_def by (simp add: updateWhere_def filter_map comp_def if_distrib cong: if_cong)
  have safe: "rowSafe (resolveSend token fate ds) b" if "rowSafe ds b" for ds b
    using that unfolding rowSafe_def resolveSend_def ball_updateWhere by auto
  have timed: "rowTimed c (resolveSend token fate ds) b" if "rowTimed c ds b" for c ds b
    using that unfolding rowTimed_def resolveSend_def by (auto simp: ball_updateWhere split: option.splits)
  have "sd_Key ` set (resolveSend token fate (pr_Sends s)) = sd_Key ` set (pr_Sends s)" using keys by (metis list.set_map)
  moreover have "sd_Key ` set (pr_Sends s) \<subseteq> attemptKey ` set (pr_Rows s)" using ok by (simp add: protocolOK_def image_subset_iff)
  ultimately have "\<forall>d \<in> set (resolveSend token fate (pr_Sends s)). sd_Key d \<in> attemptKey ` set (pr_Rows s)"
    by (simp flip: image_subset_iff)
  then show ?thesis using ok safe timed unfolding protocolOK_def by (simp add: tokens sends)
qed

lemma start_run:
  assumes "startDispatch sc a token t dbNow rows = Inr (Inr b, rows')" and "\<not> ia_Completed a"
  shows "AcquireInstallDispatch sc a token t (minutes 3) (installReceiptWindow - minutes 1) rows = Inr (True, rows')"
  using assms by (auto simp: startDispatch_def bindT_Inr thenT_Inr returnT_Inr queryT_Inr split: if_splits option.splits)

lemma refuse_run:
  assumes "startDispatch sc a token t dbNow rows = Inr (Inl e, rows')"
  obtains "rows' = rows" | "ExpireInstallAttempt sc a dbNow rows = Inr ((), rows')"
  | got where "AcquireInstallDispatch sc a token t (minutes 3) (installReceiptWindow - minutes 1) rows = Inr (got, rows')"
  using assms by (auto simp: startDispatch_def bindT_Inr thenT_Inr returnT_Inr queryT_Inr split: if_splits option.splits)

lemma report_ok:
  assumes ok: "protocolOK s" and d: "d \<in> set (pr_Sends s)" "sd_Token d = token" and truth: "truthful answer (sd_Fate d)"
    and unfin: "\<not> ia_Completed a" and run: "finishDispatch sc a token t answer (pr_Rows s) = Inr ((out, counted), rows)"
  shows "protocolOK (s\<lparr>pr_Rows := rows, pr_Tracked := (if counted then requestKey sc a # pr_Tracked s else pr_Tracked s)\<rparr>)"
proof (cases answer)
  case (Installed expert team replayed)
  let ?a = "a\<lparr>ia_AgentID := expert, ia_TeamID := team\<rparr>"
  from run unfin Installed have fin: "FinishInstallDispatch sc ?a token (pr_Rows s) = Inr (counted, rows)"
    by (auto simp: finishDispatch_def bindT_Inr returnT_Inr split: if_splits)
  have key: "requestKey sc ?a = requestKey sc a" by (simp add: requestKey_def)
  show ?thesis by (rule finish_ok [OF ok fin, unfolded key])
next
  case (Refused e)
  with run unfin have not: "\<not> counted" by (auto simp: finishDispatch_def bindT_Inr returnT_Inr)
  from run unfin Refused consider "SetInstallDispatchUnknown sc a token (pr_Rows s) = Inr ((), rows)"
    | b where "definiteInstallationRejection e" "FailInstallDispatch sc a token (pr_Rows s) = Inr (b, rows)"
    | b rows1 where "definiteInstallationRejection e" "FailInstallDispatch sc a token (pr_Rows s) = Inr (b, rows1)"
      "SetInstallDispatchUnknown sc a token rows1 = Inr ((), rows)"
    by (auto simp: finishDispatch_def bindT_Inr thenT_Inr whenT_Inr returnT_Inr split: if_splits)
  then show ?thesis
  proof cases
    case 1
    from unknown_ok [OF ok this] not show ?thesis by simp
  next
    case (2 b)
    then have "sd_Fate d = Rejected" using truth Refused by (simp add: truthful_def)
    from fail_ok [OF ok 2(2) d this] not show ?thesis by simp
  next
    case (3 b rows1)
    then have "sd_Fate d = Rejected" using truth Refused by (simp add: truthful_def)
    from fail_ok [OF ok 3(2) d this] have "protocolOK (s\<lparr>pr_Rows := rows1\<rparr>)" .
    from unknown_ok [OF this, of sc a token] 3(3) not show ?thesis by simp
  qed
qed

lemma protocol_invariant: "protocolReach s \<Longrightarrow> protocolOK s"
proof (induction rule: protocolReach.induct)
  case init
  show ?case by (simp add: protocolOK_def)
next
  case (step s t)
  from step(2) show ?case
  proof cases
    case (Claim sc a t row rows)
    with claim_ok [OF step(3)] show ?thesis by simp
  next
    case (Start t token a sc dbNow b rows)
    let ?new = "[\<lparr>sd_Key = requestKey sc a, sd_Token = token, sd_At = t, sd_Fate = Flying\<rparr>]"
    have "distinct (map sd_Token (pr_Sends s @ ?new))" using step(3) Start by (simp add: protocolOK_def)
    with acquire_ok [OF step(3) start_run, of sc a token t dbNow b rows ?new] Start show ?thesis by simp
  next
    case (Refuse t sc a token dbNow e rows)
    from Refuse(3) show ?thesis
    proof (cases rule: refuse_run)
      case 1
      have "protocolOK (s\<lparr>pr_Clock := t\<rparr>)"
        by (rule protocolOK_same [OF step(3), of _ "\<lambda>_. False" "\<lambda>b. b"]) (simp_all add: updateWhere_none keepsKey_def Refuse)
      with 1 Refuse show ?thesis by simp
    next
      case 2
      from expire_ok [OF step(3) 2] Refuse show ?thesis by simp
    next
      case (3 got)
      have "distinct (map sd_Token (pr_Sends s @ []))" using step(3) by (simp add: protocolOK_def)
      with acquire_ok [OF step(3) 3, of "[]"] Refuse show ?thesis by simp
    qed
  next
    case (Decide token fate)
    with resolve_ok [OF step(3)] show ?thesis by simp
  next
    case (Report d token sc a answer t out counted rows)
    with report_ok [OF step(3), of d token answer a sc t out counted rows] show ?thesis by simp
  qed
qed

section \<open>What the protocol guarantees\<close>

text \<open>C25: a failed attempt was never installed. In every interleaving of requests, lost answers,
  expired leases and late commits, an attempt is recorded as failed only when every send it
  ever made was definitely rejected, and the uncertainty latch is off.\<close>

theorem failed_attempt_never_installed:
  assumes "protocolReach s" and "x \<in> set (pr_Rows s)" and "ia_State (at_Row x) = FAILED"
  shows "\<not> ia_HadUnknown (at_Row x) \<and> (\<forall>d \<in> set (pr_Sends s). sd_Key d = attemptKey x \<longrightarrow> sd_Fate d = Rejected)"
  using protocolOK_row(1) [OF protocol_invariant [OF assms(1)] assms(2)] assms(3) by (simp add: rowSafe_def sendsOf_def)

text \<open>An installation is counted exactly once: the number of times an attempt was counted is one
  if it is recorded as succeeded and zero otherwise, however many senders reported success.\<close>

theorem install_counted_once:
  assumes "protocolReach s" and "x \<in> set (pr_Rows s)"
  shows "count_list (pr_Tracked s) (attemptKey x) = (if ia_State (at_Row x) = SUCCEEDED then 1 else 0)"
  by (rule protocolOK_row(3) [OF protocol_invariant [OF assms(1)] assms(2)])


section \<open>A run\<close>

text \<open>The first send is rejected by validation, the second one installs.\<close>

definition sampleAttempt :: InstallAttempt where
  "sampleAttempt = \<lparr>ia_WorkspaceID = ''w'', ia_KeyDigest = ''kd'', ia_PluginID = ''e'', ia_RootVersionID = ''v'', ia_AdapterVersion = ''original-v1'',
     ia_InputFingerprint = ''in'', ia_RequestFingerprint = ''rq'', ia_AgentID = '''', ia_TeamID = '''', ia_Completed = False, ia_CreatedAt = 0,
     ia_FrozenPlan = Some JNull, ia_HMACKeyID = ''h'', ia_IntentDigest = ''i'', ia_State = PREPARED, ia_HadUnknown = False,
     ia_LeaseToken = None, ia_LeaseUntil = None, ia_RetryUntil = None\<rparr>"

definition badRequest :: Answer where
  "badRequest = Refused (Some \<lparr>ce_Status = 422, ce_Code = ''INVALID'', ce_ConflictResource = ''''\<rparr>)"

definition sampleRow :: "AttemptState \<Rightarrow> string option \<Rightarrow> time option \<Rightarrow> time option \<Rightarrow> AttemptRow" where
  "sampleRow st token lease retry = \<lparr>at_SpaceID = ''s1'', at_CallerUID = ''u1'',
     at_Row = sampleAttempt\<lparr>ia_State := st, ia_LeaseToken := token, ia_LeaseUntil := lease, ia_RetryUntil := retry\<rparr>\<rparr>"

definition sampleSend :: "string \<Rightarrow> time \<Rightarrow> Fate \<Rightarrow> Send" where
  "sampleSend token t fate = \<lparr>sd_Key = (''s1'', ''u1'', ''w'', ''kd''), sd_Token = token, sd_At = t, sd_Fate = fate\<rparr>"

definition sampleProtocol :: "AttemptRow list \<Rightarrow> Send list \<Rightarrow> (string \<times> string \<times> string \<times> string) list \<Rightarrow> time \<Rightarrow> Protocol" where
  "sampleProtocol rows sends tracked clock = \<lparr>pr_Rows = rows, pr_Sends = sends, pr_Tracked = tracked, pr_Clock = clock\<rparr>"

definition runRejected :: Protocol where
  "runRejected = sampleProtocol [sampleRow FAILED None None (Some 86340010)] [sampleSend ''t1'' 10 Rejected] [] 10"

definition runInstalled :: Protocol where
  "runInstalled = sampleProtocol
     [(sampleRow SUCCEEDED None None (Some 86340010))\<lparr>at_Row := (at_Row (sampleRow SUCCEEDED None None (Some 86340010)))\<lparr>ia_Completed := True, ia_AgentID := ''x''\<rparr>\<rparr>]
     [sampleSend ''t1'' 10 Rejected, sampleSend ''t2'' 30 Committed] [(''s1'', ''u1'', ''w'', ''kd'')] 30"

lemmas run_eval = startDispatch_def finishDispatch_def AcquireInstallDispatch_def FailInstallDispatch_def FinishInstallDispatch_def
  ClaimInstallAttempt_def GetInstallAttempt_def updateAttempts_def thenT_def bindT_def returnT_def queryT_def modifyT_def whenT_def
  claimedRow_def sampleAttempt_def sampleOwner_def ownAttempt_def attemptKey_def leaseFree_def takeLease_def holdsLease_def dropLease_def
  setRow_def affected_def installInitialState_def minutes_def installReceiptWindow_def badRequest_def definiteInstallationRejection_def
  sampleRow_def sampleSend_def sampleProtocol_def requestKey_def resolveSend_def truthful_def

lemma sample_protocol: "protocolReach runRejected" "protocolReach runInstalled"
proof -
  let ?s0 = "sampleProtocol [] [] [] 0" and ?s1 = "sampleProtocol [sampleRow PREPARED None None None] [] [] 0"
    and ?s2 = "sampleProtocol [sampleRow DISPATCHING (Some ''t1'') (Some 180010) (Some 86340010)] [sampleSend ''t1'' 10 Flying] [] 10"
    and ?s3 = "sampleProtocol [sampleRow DISPATCHING (Some ''t1'') (Some 180010) (Some 86340010)] [sampleSend ''t1'' 10 Rejected] [] 10"
    and ?s5 = "sampleProtocol [sampleRow DISPATCHING (Some ''t2'') (Some 180030) (Some 86340010)]
      [sampleSend ''t1'' 10 Rejected, sampleSend ''t2'' 30 Flying] [] 30"
    and ?s6 = "sampleProtocol [sampleRow DISPATCHING (Some ''t2'') (Some 180030) (Some 86340010)]
      [sampleSend ''t1'' 10 Rejected, sampleSend ''t2'' 30 Committed] [] 30"
  have start1: "startDispatch sampleOwner sampleAttempt ''t1'' 10 10 (pr_Rows ?s1) = Inr (Inr (at_Row (sampleRow DISPATCHING (Some ''t1'') (Some 180010) (Some 86340010))), pr_Rows ?s2)"
    by (simp add: run_eval)
  have start2: "startDispatch sampleOwner sampleAttempt ''t2'' 30 30 (pr_Rows runRejected) = Inr (Inr (at_Row (sampleRow DISPATCHING (Some ''t2'') (Some 180030) (Some 86340010))), pr_Rows ?s5)"
    by (simp add: runRejected_def run_eval)
  have fin1: "finishDispatch sampleOwner sampleAttempt ''t1'' 20 badRequest (pr_Rows ?s3) =
      Inr ((Inl (AttemptFailed (Some \<lparr>ce_Status = 422, ce_Code = ''INVALID'', ce_ConflictResource = ''''\<rparr>) False (Some 86340020)), False), pr_Rows runRejected)"
    by (simp add: runRejected_def run_eval)
  have fin2: "finishDispatch sampleOwner sampleAttempt ''t2'' 40 (Installed ''x'' '''' None) (pr_Rows ?s6) =
      Inr ((Inr \<lparr>io_AgentID = ''x'', io_SquadID = '''', io_Replayed = False\<rparr>, True), pr_Rows runInstalled)"
    by (simp add: runInstalled_def run_eval)
  have "protocolStep ?s0 ?s1" using Claim [of sampleOwner sampleAttempt 0 ?s0] by (simp add: run_eval)
  moreover have "protocolReach ?s0" using protocolReach.init by (simp add: sampleProtocol_def)
  moreover have "protocolStep ?s1 ?s2"
    using Start [of ?s1 10 "''t1''", OF _ _ _ start1] by (simp add: sampleProtocol_def sampleSend_def requestKey_def sampleAttempt_def sampleOwner_def)
  moreover have "protocolStep ?s2 ?s3" using Decide [of ?s2 "''t1''" Rejected] by (simp add: run_eval)
  moreover have "protocolStep ?s3 runRejected"
    using Report [of "sampleSend ''t1'' 10 Rejected" ?s3, OF _ _ _ _ _ fin1]
    by (simp add: runRejected_def sampleProtocol_def sampleSend_def requestKey_def sampleAttempt_def sampleOwner_def badRequest_def truthful_def)
  ultimately show rej: "protocolReach runRejected" by (blast intro: protocolReach.step)
  have "protocolStep runRejected ?s5"
    using Start [of runRejected 30 "''t2''", OF _ _ _ start2]
    by (simp add: runRejected_def sampleProtocol_def sampleSend_def requestKey_def sampleAttempt_def sampleOwner_def)
  moreover have "protocolStep ?s5 ?s6" using Decide [of ?s5 "''t2''" Committed] by (simp add: run_eval)
  moreover have "protocolStep ?s6 runInstalled"
    using Report [of "sampleSend ''t2'' 30 Committed" ?s6, OF _ _ _ _ _ fin2]
    by (simp add: runInstalled_def sampleProtocol_def sampleSend_def requestKey_def sampleAttempt_def sampleOwner_def truthful_def)
  ultimately show "protocolReach runInstalled" using rej by (blast intro: protocolReach.step)
qed

theorem failed_attempt_never_installed_witness:
  "\<exists>x \<in> set (pr_Rows runRejected). ia_State (at_Row x) = FAILED \<and> length (pr_Sends runRejected) = 1 \<and>
     (\<forall>d \<in> set (pr_Sends runRejected). sd_Key d = attemptKey x \<longrightarrow> sd_Fate d = Rejected)"
proof -
  let ?x = "sampleRow FAILED None None (Some 86340010)"
  have "?x \<in> set (pr_Rows runRejected)" "length (pr_Sends runRejected) = 1" by (simp_all add: runRejected_def sampleProtocol_def)
  moreover have "ia_State (at_Row ?x) = FAILED" by (simp add: sampleRow_def)
  ultimately show ?thesis using failed_attempt_never_installed [OF sample_protocol(1), of ?x] by blast
qed

theorem install_counted_once_witness:
  "\<exists>x \<in> set (pr_Rows runInstalled). ia_State (at_Row x) = SUCCEEDED \<and> count_list (pr_Tracked runInstalled) (attemptKey x) = 1"
proof -
  have "\<exists>x \<in> set (pr_Rows runInstalled). ia_State (at_Row x) = SUCCEEDED" by (simp add: runInstalled_def sampleProtocol_def sampleRow_def)
  then obtain x where "x \<in> set (pr_Rows runInstalled)" "ia_State (at_Row x) = SUCCEEDED" by blast
  with install_counted_once [OF sample_protocol(2), of x] show ?thesis by auto
qed


end
