(* ===== verification/Reads.thy ===== *)
theory Reads
  imports Scenes Releases
begin

text \<open>
  Catalog reads: the plugin row, its relations and its relation graph, the lists with their filters
  and orders (\<open>repository/plugin/read.go\<close>, \<open>graph_review.go\<close>), the version list with the redaction of
  its relations and the category facets (\<open>history.go\<close>), and the batched reads of an installation
  (\<open>install_read.go\<close>).

  A method that issues several statements outside a transaction reads several stores, one per
  statement, as other requests may commit in between. The counters of \<open>resource_metrics\<close> and the
  ranking formula of the order \<open>comprehensive\<close> are the argument \<open>score\<close>; the columns of the review
  state a list can carry are not part of the row.
\<close>

section \<open>One row\<close>

definition livePlugin :: "Plugin \<Rightarrow> bool" where
  "livePlugin p \<longleftrightarrow> p_Status p = 1 \<and> p_DeletedAt p = None"

definition visibleTo :: "Scope \<Rightarrow> Plugin \<Rightarrow> bool" where
  "visibleTo sc p \<longleftrightarrow> s_Admin sc \<or> visibilitySQL (s_SpaceID sc) (s_CallerUID sc) p"

text \<open>The columns a statement selects: the package only on demand, the published pointer only with the
  join on its release, never the keys of the name index.\<close>

definition scanPluginRow :: "bool \<Rightarrow> string option \<Rightarrow> Plugin \<Rightarrow> Plugin" where
  "scanPluginRow includePackage published p =
     p\<lparr>p_Package := (if includePackage then p_Package p else None),
       p_AttachmentKeys := (if includePackage then p_AttachmentKeys p else None),
       p_PublishedVersionID := published, p_NameKey := None, p_PublishedNameKey := None, p_NameScope := ''''\<rparr>"

definition Get :: "Store \<Rightarrow> Scope \<Rightarrow> string \<Rightarrow> RepoError + Plugin" where
  "Get s sc pluginID =
     (case find (\<lambda>p. p_ID p = pluginID \<and> livePlugin p \<and> visibleTo sc p) (plugins s) of
        None \<Rightarrow> Inl ErrNotFound | Some p \<Rightarrow> Inr (scanPluginRow True None p))"

text \<open>The edges from the given sources whose target is live and visible, with the target's type.\<close>

definition edgeRow :: "Store \<Rightarrow> Scope \<Rightarrow> (string \<Rightarrow> bool) \<Rightarrow> PluginRelation \<Rightarrow> PluginRelation option" where
  "edgeRow s sc source e =
     (if source (r_SourcePluginID e) \<and> r_Status e = 1 \<and> r_DeletedAt e = None then
        map_option (\<lambda>p. e\<lparr>r_TargetPluginType := Some (p_Type p)\<rparr>)
          (find (\<lambda>p. p_ID p = r_TargetPluginID e \<and> livePlugin p \<and> visibleTo sc p) (plugins s))
      else None)"

definition edgeRows :: "Store \<Rightarrow> Scope \<Rightarrow> (string \<Rightarrow> bool) \<Rightarrow> PluginRelation list" where
  "edgeRows s sc source = sort_key r_SortOrder (sort_key r_ID (List.map_filter (edgeRow s sc source) (relations s)))"

definition GetWithRelations :: "Store \<Rightarrow> Store \<Rightarrow> Scope \<Rightarrow> string \<Rightarrow> RepoError + (Plugin \<times> PluginRelation list)" where
  "GetWithRelations s0 s1 sc pluginID =
     (case Get s0 sc pluginID of Inl e \<Rightarrow> Inl e | Inr p \<Rightarrow> Inr (p, edgeRows s1 sc (\<lambda>i. i = pluginID)))"

definition CountDeclaredRelations :: "Store \<Rightarrow> string \<Rightarrow> nat" where
  "CountDeclaredRelations s pluginID =
     length (filter (\<lambda>e. r_SourcePluginID e = pluginID \<and> r_Status e = 1 \<and> r_DeletedAt e = None \<and>
       (\<exists>p \<in> set (plugins s). p_ID p = r_TargetPluginID e \<and> livePlugin p)) (relations s))"

definition CountMemberRelations :: "Store \<Rightarrow> string list \<Rightarrow> (string \<times> nat) list" where
  "CountMemberRelations s teamIDs =
     filter (\<lambda>(_, n). 0 < n) (map (\<lambda>team. (team, length (filter (\<lambda>e. r_SourcePluginID e = team \<and> r_Type e = ''expert_team_expert'' \<and>
       r_Status e = 1 \<and> r_DeletedAt e = None \<and> (\<exists>p \<in> set (plugins s). p_ID p = r_TargetPluginID e \<and> livePlugin p)) (relations s)))) (remdups teamIDs))"

section \<open>The relation graph\<close>

definition graphEdgeLimit :: nat where
  "graphEdgeLimit = maxGraphEdges + 1"

record graphEdges =
  ge_rels :: "PluginRelation list"
  ge_targetIDs :: "string list"

definition newGraphEdges :: graphEdges where
  "newGraphEdges = \<lparr>ge_rels = [], ge_targetIDs = []\<rparr>"

fun drain :: "PluginRelation list \<Rightarrow> graphEdges \<Rightarrow> RepoError + graphEdges" where
  "drain [] g = Inr g"
| "drain (x # rows) g =
     (if maxGraphEdges \<le> length (ge_rels g) then Inl ErrGraphTooLarge
      else if r_TargetPluginID x \<in> set (ge_targetIDs g) then drain rows (g\<lparr>ge_rels := ge_rels g @ [x]\<rparr>)
      else if maxGraphNodes \<le> length (ge_targetIDs g) then Inl ErrGraphTooLarge
      else drain rows (g\<lparr>ge_rels := ge_rels g @ [x], ge_targetIDs := ge_targetIDs g @ [r_TargetPluginID x]\<rparr>))"

text \<open>The two edge queries. \<open>limit\<close> is the LIMIT of the statements.\<close>

definition levelOne :: "(PluginRelation list \<Rightarrow> PluginRelation list) \<Rightarrow> Store \<Rightarrow> Scope \<Rightarrow> string \<Rightarrow> RepoError + graphEdges" where
  "levelOne limit s sc rootID = drain (limit (edgeRows s sc (\<lambda>i. i = rootID))) newGraphEdges"

definition levelTwo ::
  "(PluginRelation list \<Rightarrow> PluginRelation list) \<Rightarrow> Store \<Rightarrow> Scope \<Rightarrow> Plugin \<Rightarrow> graphEdges \<Rightarrow> RepoError + graphEdges" where
  "levelTwo limit s sc root g =
     (if p_Type root = PluginTypeExpertTeam \<and> ge_targetIDs g \<noteq> [] then
        drain (limit (sort_key r_SourcePluginID (edgeRows s sc (\<lambda>i. i \<in> set (ge_targetIDs g))))) g
      else Inr g)"

definition graphNode :: "Store \<Rightarrow> Scope \<Rightarrow> string \<Rightarrow> Plugin option" where
  "graphNode s sc i = map_option (scanPluginRow False None) (find (\<lambda>p. p_ID p = i \<and> livePlugin p \<and> visibleTo sc p) (plugins s))"

text \<open>The node query, and the edges that lost an end between the queries.\<close>

definition graphNodes :: "Store \<Rightarrow> Scope \<Rightarrow> Plugin \<Rightarrow> graphEdges \<Rightarrow> PluginRelation list \<times> Plugin list" where
  "graphNodes s sc root g =
     (let present = graphNode s sc; ids = ge_targetIDs g;
          nodes = List.map_filter present ids;
          rels = (if length nodes \<noteq> length ids then
                    filter (\<lambda>e. (r_SourcePluginID e = p_ID root \<or> present (r_SourcePluginID e) \<noteq> None) \<and>
                                present (r_TargetPluginID e) \<noteq> None) (ge_rels g)
                  else ge_rels g) in
      if ids = [] then (ge_rels g, []) else (rels, nodes))"

definition graphClosure ::
  "(PluginRelation list \<Rightarrow> PluginRelation list) \<Rightarrow> Store \<Rightarrow> Store \<Rightarrow> Store \<Rightarrow> Store \<Rightarrow> Scope \<Rightarrow> string \<Rightarrow>
   RepoError + (Plugin \<times> PluginRelation list \<times> Plugin list)" where
  "graphClosure limit s0 s1 s2 s3 sc rootID =
     (case Get s0 sc rootID of
        Inl e \<Rightarrow> Inl e
      | Inr root \<Rightarrow>
          if p_Type root = PluginTypeSkill \<or> p_Type root = PluginTypeConnector then Inr (root, [], [])
          else (case levelOne limit s1 sc rootID of
            Inl e \<Rightarrow> Inl e
          | Inr g \<Rightarrow> (case levelTwo limit s2 sc root g of
              Inl e \<Rightarrow> Inl e
            | Inr h \<Rightarrow> Inr (root, graphNodes s3 sc root h))))"

definition GetGraphClosure ::
  "Store \<Rightarrow> Store \<Rightarrow> Store \<Rightarrow> Store \<Rightarrow> Scope \<Rightarrow> string \<Rightarrow> RepoError + (Plugin \<times> PluginRelation list \<times> Plugin list)" where
  "GetGraphClosure = graphClosure (take graphEdgeLimit)"

section \<open>Lists\<close>

record ListFilter =
  fl_PlacementCode :: string
  fl_Type :: "PluginType option"
  fl_CategoryID :: string
  fl_Tags :: "string list"
  fl_Keyword :: string
  fl_Mine :: bool
  fl_Sort :: string
  fl_Limit :: int
  fl_Offset :: int
  fl_AllSpaces :: bool
  fl_Visibility :: "PluginVisibility option"

text \<open>\<open>JSON_UNQUOTE(JSON_EXTRACT(m,'$.key'))\<close> of a string member.\<close>

definition manifestText :: "string \<Rightarrow> raw \<Rightarrow> string option" where
  "manifestText key m = (case m of None \<Rightarrow> None | Some doc \<Rightarrow> (case mapField key doc of Some (JStr x) \<Rightarrow> Some x | _ \<Rightarrow> None))"

text \<open>\<open>JSON_CONTAINS(tags, JSON_QUOTE(tag), '$')\<close>\<close>

fun jsonContains :: "string \<Rightarrow> json \<Rightarrow> bool" where
  "jsonContains tag (JStr x) = (x = tag)"
| "jsonContains tag (JArr xs) = list_ex (jsonContains tag) xs"
| "jsonContains tag _ = False"

text \<open>A listed row shows the released content, not the draft.\<close>

definition publishedListProjection :: "Store \<Rightarrow> Plugin \<Rightarrow> Plugin" where
  "publishedListProjection s p =
     (let pv = (case p_PublishedVersionID p of None \<Rightarrow> None | Some v \<Rightarrow> find (\<lambda>x. v_PluginID x = p_ID p \<and> v_ID x = v) (versions s));
          doc = Option.bind pv v_Manifest in
      p\<lparr>p_Name := (case manifestText ''plugin_name'' doc of Some n \<Rightarrow> n | None \<Rightarrow> p_Name p),
        p_Tags := (if p_PublishedVersionID p = None then p_Tags p
                   else Some (case Option.bind doc (mapField ''labels'') of Some (JArr xs) \<Rightarrow> JArr xs | _ \<Rightarrow> JArr [])),
        p_Manifest := coalesce doc (p_Manifest p),
        p_ManifestHash := (case pv of None \<Rightarrow> p_ManifestHash p | Some v \<Rightarrow> v_ManifestHash v),
        p_PluginHash := (case pv of None \<Rightarrow> p_PluginHash p | Some v \<Rightarrow> v_PluginHash v),
        p_CurrentVersionID := coalesce (p_PublishedVersionID p) (p_CurrentVersionID p),
        p_CurrentVersion := coalesce (Option.bind pv v_DeclaredVersion) (p_CurrentVersion p)\<rparr>)"

definition dependencyAvailabilitySQL :: "Store \<Rightarrow> Plugin \<Rightarrow> bool" where
  "dependencyAvailabilitySQL s p \<longleftrightarrow> \<not> unavailableDependencySQL s p"

definition listedSQL :: "Plugin \<Rightarrow> bool" where
  "listedSQL p \<longleftrightarrow> p_ListingState p = PluginListingStatePublished"

text \<open>The WHERE clause on a row \<open>p\<close>, the row \<open>v\<close> its columns are read from, and its placements.\<close>

definition keywordSQL :: "(char \<Rightarrow> char \<Rightarrow> bool) \<Rightarrow> string \<Rightarrow> Plugin \<Rightarrow> bool" where
  "keywordSQL same k v \<longleftrightarrow> likeMatch same (''%'' @ escapeLike k @ ''%'') (p_Name v) \<or>
     (case manifestText ''description'' (p_Manifest v) of None \<Rightarrow> False | Some d \<Rightarrow> likeMatch same (''%'' @ escapeLike k @ ''%'') d)"

definition placedRows :: "Store \<Rightarrow> ListFilter \<Rightarrow> Plugin \<Rightarrow> PluginPlacement list" where
  "placedRows s f p = filter (\<lambda>x. pl_PluginID x = p_ID p \<and> pl_PlacementCode x = fl_PlacementCode f \<and> pl_Visible x \<and>
     (fl_CategoryID f = '''' \<or> pl_CategoryID x = Some (fl_CategoryID f))) (placements s)"

definition buildListQuery :: "(char \<Rightarrow> char \<Rightarrow> bool) \<Rightarrow> Store \<Rightarrow> Scope \<Rightarrow> ListFilter \<Rightarrow> (Plugin \<Rightarrow> Plugin) \<Rightarrow> Plugin \<Rightarrow> bool" where
  "buildListQuery same s sc f view p \<longleftrightarrow>
     livePlugin p \<and> \<not> p_IsEmbedded p \<and>
     (fl_AllSpaces f \<or> visibilitySQL (s_SpaceID sc) (s_CallerUID sc) p) \<and>
     (case fl_Visibility f of None \<Rightarrow> True | Some v \<Rightarrow> p_Visibility p = v) \<and>
     (case fl_Type f of None \<Rightarrow> True | Some ty \<Rightarrow> p_Type p = ty) \<and>
     (if fl_PlacementCode f \<noteq> '''' then placedRows s f p \<noteq> []
      else fl_CategoryID f = '''' \<or> p_CategoryID p = Some (fl_CategoryID f)) \<and>
     (\<forall>tag \<in> set (fl_Tags f). case p_Tags (view p) of None \<Rightarrow> False | Some doc \<Rightarrow> jsonContains tag doc) \<and>
     (fl_Keyword f = '''' \<or> keywordSQL same (fl_Keyword f) (view p)) \<and>
     (if fl_Mine f then p_OwnerUID p = s_CallerUID sc \<and> p_SpaceID p = Some (s_SpaceID sc)
      else fl_AllSpaces f \<or> listedSQL p \<and> dependencyAvailabilitySQL s p)"

definition listOrder :: "(string \<Rightarrow> string \<Rightarrow> int) \<Rightarrow> Store \<Rightarrow> ListFilter \<Rightarrow> Plugin list \<Rightarrow> Plugin list" where
  "listOrder score s f rows =
     (let byID = sort_key p_ID rows; recent = rev (sort_key p_CreatedAt byID) in
      if fl_Sort f = ''oldest'' then sort_key p_CreatedAt byID
      else if fl_Sort f = ''updated'' then rev (sort_key p_UpdatedAt byID)
      else if fl_Sort f = ''name'' then sort_key p_Name byID
      else if fl_Sort f \<in> {''views'', ''installs'', ''downloads'', ''comprehensive''} then
        rev (sort_key (\<lambda>p. score (fl_Sort f) (p_ID p)) (sort_key p_CreatedAt byID))
      else if fl_Sort f = ''placement'' \<and> fl_PlacementCode f \<noteq> '''' then
        sort_key (\<lambda>p. Min (set (map pl_SortOrder (placedRows s f p)))) byID
      else recent)"

definition clampLimit :: "int \<Rightarrow> nat" where
  "clampLimit limit = (if limit \<le> 0 then 20 else if limit > 100 then 100 else nat limit)"

definition listView :: "Repo \<Rightarrow> Store \<Rightarrow> ListFilter \<Rightarrow> Plugin \<Rightarrow> Plugin" where
  "listView r s f = (if versionManagement r \<and> \<not> fl_Mine f \<and> \<not> fl_AllSpaces f then publishedListProjection s else (\<lambda>p. p))"

text \<open>The published pointer of the caller's own rows, when it names a formal release.\<close>

definition ownRelease :: "Repo \<Rightarrow> Store \<Rightarrow> ListFilter \<Rightarrow> Plugin \<Rightarrow> string option" where
  "ownRelease r s f p =
     (if versionManagement r \<and> fl_Mine f \<and> \<not> fl_AllSpaces f \<and> p_Type p \<noteq> PluginTypeConnector \<and> releaseExists s (p_ID p) (p_PublishedVersionID p)
      then p_PublishedVersionID p else None)"

definition ListPlugins ::
  "(char \<Rightarrow> char \<Rightarrow> bool) \<Rightarrow> (string \<Rightarrow> string \<Rightarrow> int) \<Rightarrow> Repo \<Rightarrow> Store \<Rightarrow> Store \<Rightarrow> Scope \<Rightarrow> ListFilter \<Rightarrow> Plugin list \<times> nat" where
  "ListPlugins same score r s0 s1 sc f =
     (let total = length (filter (buildListQuery same s0 sc f (listView r s0 f)) (plugins s0));
          rows = map (listView r s1 f) (filter (buildListQuery same s1 sc f (listView r s1 f)) (plugins s1)) in
      (map (\<lambda>p. scanPluginRow False (ownRelease r s1 f p) p)
         (take (clampLimit (fl_Limit f)) (drop (nat (max (fl_Offset f) 0)) (listOrder score s1 f rows))), total))"

text \<open>The scene codes of an administrator's page, hidden placements included.\<close>

definition hydrateSceneCodes :: "Store \<Rightarrow> Plugin list \<Rightarrow> (string \<times> string list) list" where
  "hydrateSceneCodes s ps =
     map (\<lambda>p. (p_ID p, sort (map pl_PlacementCode (filter (\<lambda>x. pl_PluginID x = p_ID p) (placements s))))) ps"

section \<open>Facets and versions\<close>

definition facetPlugins :: "Store \<Rightarrow> Scope \<Rightarrow> string \<Rightarrow> PluginType \<Rightarrow> string \<Rightarrow> Plugin list" where
  "facetPlugins s sc code typ cid =
     filter (\<lambda>p. (\<exists>x \<in> set (placements s). pl_PluginID x = p_ID p \<and> pl_PlacementCode x = code \<and> pl_CategoryID x = Some cid \<and> pl_Visible x) \<and>
       p_Type p = typ \<and> livePlugin p \<and> visibilitySQL (s_SpaceID sc) (s_CallerUID sc) p \<and> listedSQL p \<and> dependencyAvailabilitySQL s p) (plugins s)"

definition ListPlacementCategories :: "Store \<Rightarrow> Scope \<Rightarrow> string \<Rightarrow> PluginType \<Rightarrow> PluginCategory list" where
  "ListPlacementCategories s sc placementCode typ =
     map snd (sort_key (\<lambda>(cp, c). cp_SortOrder cp) (sort_key (\<lambda>(cp, c). cat_ID (pc_Row c))
       (concat (map (\<lambda>cp. map (\<lambda>c. (cp, \<lparr>pc_Row = c\<lparr>cat_SortOrder := cp_SortOrder cp\<rparr>,
            pc_PluginCount = length (facetPlugins s sc placementCode typ (cat_ID c))\<rparr>))
          (filter (\<lambda>c. cat_ID c = cp_CategoryID cp \<and> liveCategory c) (categories s)))
        (filter (\<lambda>cp. cp_PlacementCode cp = placementCode \<and> cp_PluginType cp = typ \<and> cp_Visible cp) (catPlacements s))))))"

text \<open>The tag chips. Labels are strings the column of the JSON table admits; they are grouped exactly.\<close>

record TagListFilter =
  tf_PlacementCode :: string
  tf_Type :: "PluginType option"
  tf_Keyword :: string
  tf_Mine :: bool
  tf_Limit :: int

definition tagsColumn :: "Repo \<Rightarrow> Store \<Rightarrow> bool \<Rightarrow> Plugin \<Rightarrow> raw" where
  "tagsColumn r s mine p =
     (if versionManagement r \<and> \<not> mine then
        (case p_PublishedVersionID p of
           None \<Rightarrow> p_Tags p
         | Some v \<Rightarrow> coalesce (Option.bind (Option.bind (versionRow s (p_ID p) v) v_Manifest) (mapField ''labels'')) (Some (JArr [])))
      else p_Tags p)"

fun tagNames :: "raw \<Rightarrow> string list" where
  "tagNames (Some (JArr xs)) = List.map_filter (\<lambda>x. case x of JStr t \<Rightarrow> Some t | _ \<Rightarrow> None) xs"
| "tagNames _ = []"

definition tagHits :: "(char \<Rightarrow> char \<Rightarrow> bool) \<Rightarrow> Repo \<Rightarrow> Store \<Rightarrow> TagListFilter \<Rightarrow> Plugin \<Rightarrow> string list" where
  "tagHits same r s f p =
     filter (\<lambda>t. t \<noteq> '''' \<and> (trimSpace (tf_Keyword f) = '''' \<or> likeMatch same (''%'' @ escapeLike (trimSpace (tf_Keyword f)) @ ''%'') t))
       (tagNames (tagsColumn r s (tf_Mine f) p))"

definition tagRow :: "Store \<Rightarrow> Scope \<Rightarrow> TagListFilter \<Rightarrow> Plugin \<Rightarrow> bool" where
  "tagRow s sc f p \<longleftrightarrow>
     (tf_PlacementCode f = '''' \<or>
      (\<exists>x \<in> set (placements s). pl_PluginID x = p_ID p \<and> pl_PlacementCode x = tf_PlacementCode f \<and> pl_Visible x)) \<and>
     livePlugin p \<and> \<not> p_IsEmbedded p \<and> visibilitySQL (s_SpaceID sc) (s_CallerUID sc) p \<and>
     (case tf_Type f of None \<Rightarrow> True | Some ty \<Rightarrow> p_Type p = ty) \<and>
     (if tf_Mine f then p_OwnerUID p = s_CallerUID sc \<and> p_SpaceID p = Some (s_SpaceID sc)
      else listedSQL p \<and> dependencyAvailabilitySQL s p)"

definition tagLimit :: "int \<Rightarrow> nat" where
  "tagLimit limit = (if limit \<le> 0 then 50 else if limit > 100 then 100 else nat limit)"

definition ListTags :: "(char \<Rightarrow> char \<Rightarrow> bool) \<Rightarrow> Repo \<Rightarrow> Store \<Rightarrow> Scope \<Rightarrow> TagListFilter \<Rightarrow> (string \<times> nat) list" where
  "ListTags same r s sc f =
     (let rows = filter (tagRow s sc f) (plugins s);
          tags = remdups (concat (map (tagHits same r s f) rows));
          counted = map (\<lambda>t. (t, length (filter (\<lambda>p. t \<in> set (tagHits same r s f p)) rows))) tags in
      take (tagLimit (tf_Limit f)) (sort_key (\<lambda>(_, n). - int n) (sort_key fst counted)))"

definition visibleTargetIDs :: "Store \<Rightarrow> Scope \<Rightarrow> string \<Rightarrow> bool" where
  "visibleTargetIDs s sc i \<longleftrightarrow> (\<exists>p \<in> set (plugins s). p_ID p = i \<and> livePlugin p \<and> visibleTo sc p)"

definition redactVersionRelations :: "Store \<Rightarrow> Scope \<Rightarrow> PluginVersion list \<Rightarrow> PluginVersion list" where
  "redactVersionRelations s sc vs =
     (if \<forall>v \<in> set vs. \<forall>e \<in> set (v_Relations v). r_TargetPluginID e = '''' then vs
      else map (\<lambda>v. v\<lparr>v_Relations := filter (\<lambda>e. visibleTargetIDs s sc (r_TargetPluginID e)) (v_Relations v)\<rparr>) vs)"

text \<open>The metadata columns of the version list.\<close>

definition versionMetadata :: "PluginVersion \<Rightarrow> PluginVersion" where
  "versionMetadata v = v\<lparr>v_DeclaredVersion := None, v_Manifest := None, v_Package := None, v_AttachmentKeys := None,
     v_SnapshotSchemaVersion := None, v_Artifacts := None\<rparr>"

definition versionRows :: "Store \<Rightarrow> Scope \<Rightarrow> string \<Rightarrow> PluginVersion list" where
  "versionRows s sc pluginID = filter (\<lambda>v. v_PluginID v = pluginID \<and>
     (\<exists>p \<in> set (plugins s). p_ID p = pluginID \<and> livePlugin p \<and> visibilitySQL (s_SpaceID sc) (s_CallerUID sc) p)) (versions s)"

definition ListVersions ::
  "Store \<Rightarrow> Store \<Rightarrow> Store \<Rightarrow> Store \<Rightarrow> Scope \<Rightarrow> string \<Rightarrow> int \<Rightarrow> int \<Rightarrow> RepoError + (PluginVersion list \<times> nat)" where
  "ListVersions s0 s1 s2 s3 sc pluginID limit offset =
     (case Get s0 sc pluginID of
        Inl e \<Rightarrow> Inl e
      | Inr _ \<Rightarrow> Inr (redactVersionRelations s3 sc (map versionMetadata (take (clampLimit limit) (drop (nat (max offset 0))
            (rev (sort_key v_CreatedAt (sort_key v_ID (versionRows s2 sc pluginID))))))),
          length (versionRows s1 sc pluginID)))"

section \<open>Reads of an installation\<close>

definition installAccess :: "Scope \<Rightarrow> Plugin \<Rightarrow> bool" where
  "installAccess sc p \<longleftrightarrow> p_Visibility p = PluginVisibilitySystem \<or> p_Visibility p = PluginVisibilityPublic \<or>
     p_SpaceID p = Some (s_SpaceID sc) \<and>
     (p_Visibility p = PluginVisibilitySpace \<or> p_Visibility p = PluginVisibilityPrivate \<and> p_OwnerUID p = s_CallerUID sc)"

definition maxInstallReads :: nat where
  "maxInstallReads = 631"

definition GetInstallPlugins :: "Store \<Rightarrow> Scope \<Rightarrow> string list \<Rightarrow> RepoError + Plugin list" where
  "GetInstallPlugins s sc ids =
     (if maxInstallReads < length ids then Inl ErrGraphTooLarge
      else Inr (map (scanPluginRow True None)
        (filter (\<lambda>p. p_ID p \<in> set ids \<and> livePlugin p \<and> \<not> p_IsEmbedded p \<and> installAccess sc p) (plugins s))))"

definition GetInstallVersions :: "Store \<Rightarrow> Scope \<Rightarrow> (string \<times> string) list \<Rightarrow> RepoError + PluginVersion list" where
  "GetInstallVersions s sc keys =
     (if maxInstallReads < length keys then Inl ErrGraphTooLarge
      else Inr (filter (\<lambda>v. (v_PluginID v, v_ID v) \<in> set keys \<and> releaseExists s (v_PluginID v) (Some (v_ID v)) \<and>
         (\<exists>p \<in> set (plugins s). p_ID p = v_PluginID v \<and> p_Type p \<noteq> PluginTypeConnector \<and> livePlugin p \<and> \<not> p_IsEmbedded p \<and> installAccess sc p)) (versions s)))"

section \<open>The graph is bounded and closed\<close>

lemma drain_take:
  "length (ge_rels g) \<le> maxGraphEdges \<Longrightarrow> maxGraphEdges < n + length (ge_rels g) \<Longrightarrow> drain (take n rows) g = drain rows g"
proof (induction rows arbitrary: n g)
  case (Cons x rows)
  then obtain m where n: "n = Suc m" by (cases n) auto
  show ?case
  proof (cases "maxGraphEdges \<le> length (ge_rels g)")
    case False
    then have "drain (take m rows) (g\<lparr>ge_rels := ge_rels g @ [x]\<rparr>) = drain rows (g\<lparr>ge_rels := ge_rels g @ [x]\<rparr>)"
      "drain (take m rows) (g\<lparr>ge_rels := ge_rels g @ [x], ge_targetIDs := ge_targetIDs g @ [r_TargetPluginID x]\<rparr>) =
       drain rows (g\<lparr>ge_rels := ge_rels g @ [x], ge_targetIDs := ge_targetIDs g @ [r_TargetPluginID x]\<rparr>)"
      using Cons.prems n by (auto intro!: Cons.IH)
    then show ?thesis by (simp add: n)
  qed (simp add: n)
qed simp

text \<open>What a scan leaves.\<close>

definition graphOK :: "graphEdges \<Rightarrow> bool" where
  "graphOK g \<longleftrightarrow> length (ge_rels g) \<le> maxGraphEdges \<and> length (ge_targetIDs g) \<le> maxGraphNodes \<and> distinct (ge_targetIDs g) \<and>
     r_TargetPluginID ` set (ge_rels g) = set (ge_targetIDs g)"

lemma drain_ok:
  "drain rows g = Inr h \<Longrightarrow> graphOK g \<Longrightarrow> graphOK h \<and> ge_rels h = ge_rels g @ rows \<and> set (ge_targetIDs g) \<subseteq> set (ge_targetIDs h)"
proof (induction rows g rule: drain.induct)
  case (2 x rows g)
  then show ?case by (auto simp: graphOK_def insert_absorb split: if_splits)
qed auto

lemma edgeRow_Some:
  "edgeRow s sc source e = Some x \<longleftrightarrow> source (r_SourcePluginID e) \<and> r_Status e = 1 \<and> r_DeletedAt e = None \<and>
     (\<exists>p. graphNode s sc (r_TargetPluginID e) = Some p \<and> x = e\<lparr>r_TargetPluginType := Some (p_Type p)\<rparr>)"
  by (auto simp: edgeRow_def graphNode_def scanPluginRow_def)

lemma edgeRows_mem:
  "x \<in> set (edgeRows s sc source) \<Longrightarrow> source (r_SourcePluginID x) \<and> graphNode s sc (r_TargetPluginID x) \<noteq> None \<and>
     (\<exists>e \<in> set (relations s). r_ID x = r_ID e \<and> r_SourcePluginID x = r_SourcePluginID e \<and> r_TargetPluginID x = r_TargetPluginID e)"
  unfolding edgeRows_def set_sort mem_map_filter edgeRow_Some by fastforce

text \<open>A row that was read: it was selected from a live row the caller may see.\<close>

definition readFrom :: "Store \<Rightarrow> Scope \<Rightarrow> Plugin \<Rightarrow> bool" where
  "readFrom s sc p \<longleftrightarrow> (\<exists>q \<in> set (plugins s). p_ID q = p_ID p \<and> livePlugin q \<and> visibleTo sc q \<and> p_Type q = p_Type p \<and> p_Manifest q = p_Manifest p)"

lemma scanPluginRow_cols [simp]:
  "p_ID (scanPluginRow b v p) = p_ID p" "p_Type (scanPluginRow b v p) = p_Type p" "p_Manifest (scanPluginRow b v p) = p_Manifest p"
  "p_Visibility (scanPluginRow b v p) = p_Visibility p" "p_SpaceID (scanPluginRow b v p) = p_SpaceID p" "p_OwnerUID (scanPluginRow b v p) = p_OwnerUID p"
  "p_ListingState (scanPluginRow b v p) = p_ListingState p" "p_Package (scanPluginRow False v p) = None"
  "p_PublishedVersionID (scanPluginRow b v p) = v"
  by (simp_all add: scanPluginRow_def)

lemma Get_Inr:
  assumes "Get s sc i = Inr p"
  shows "p_ID p = i \<and> readFrom s sc p"
proof -
  from assms obtain q where q: "find (\<lambda>p. p_ID p = i \<and> livePlugin p \<and> visibleTo sc p) (plugins s) = Some q" and p: "p = scanPluginRow True None q"
    by (auto simp: Get_def split: option.splits)
  from find_Some_mem [OF q] show ?thesis unfolding readFrom_def p by auto
qed

lemma graphNode_Some:
  assumes "graphNode s sc i = Some p"
  shows "p_ID p = i \<and> readFrom s sc p"
proof -
  from assms obtain q where q: "find (\<lambda>p. p_ID p = i \<and> livePlugin p \<and> visibleTo sc p) (plugins s) = Some q" and p: "p = scanPluginRow False None q"
    by (auto simp: graphNode_def)
  from find_Some_mem [OF q] show ?thesis unfolding readFrom_def p by auto
qed

lemma map_filter_ids: "map p_ID (List.map_filter (graphNode s sc) ids) = filter (\<lambda>i. graphNode s sc i \<noteq> None) ids"
  by (induction ids) (auto simp: map_filter_simps dest: graphNode_Some split: option.splits)

lemma set_map_filter_ids: "p_ID ` set (List.map_filter (graphNode s sc) ids) = {i \<in> set ids. graphNode s sc i \<noteq> None}"
  using arg_cong [OF map_filter_ids, of set] by simp

lemma map_filter_all: "length (List.map_filter (graphNode s sc) ids) = length ids \<longleftrightarrow> (\<forall>i \<in> set ids. graphNode s sc i \<noteq> None)"
proof -
  have len: "length (List.map_filter (graphNode s sc) ids) = length (filter (\<lambda>i. graphNode s sc i \<noteq> None) ids)"
    using arg_cong [OF map_filter_ids, of length] by simp
  show ?thesis
  proof
    assume "length (List.map_filter (graphNode s sc) ids) = length ids"
    then have "\<not> (\<exists>i \<in> set ids. \<not> graphNode s sc i \<noteq> None)"
      using length_filter_less [of _ ids "\<lambda>i. graphNode s sc i \<noteq> None"] unfolding len by fastforce
    then show "\<forall>i \<in> set ids. graphNode s sc i \<noteq> None" by blast
  qed (simp add: len)
qed

lemma graphNodes_closed:
  assumes "graphOK g" and "\<forall>e \<in> set (ge_rels g). r_SourcePluginID e = p_ID root \<or> r_SourcePluginID e \<in> set (ge_targetIDs g)"
    and "graphNodes s sc root g = (rels, nodes)"
  shows "length rels \<le> maxGraphEdges \<and> length nodes \<le> maxGraphNodes \<and> distinct (map p_ID nodes) \<and>
    (\<forall>p \<in> set nodes. readFrom s sc p) \<and>
    (\<forall>e \<in> set rels. (r_SourcePluginID e = p_ID root \<or> r_SourcePluginID e \<in> p_ID ` set nodes) \<and> r_TargetPluginID e \<in> p_ID ` set nodes)"
proof (cases "ge_targetIDs g = []")
  case True
  with assms show ?thesis by (auto simp: graphNodes_def graphOK_def)
next
  case False
  have nodes: "nodes = List.map_filter (graphNode s sc) (ge_targetIDs g)"
    and rels: "rels = (if length nodes \<noteq> length (ge_targetIDs g) then
        filter (\<lambda>e. (r_SourcePluginID e = p_ID root \<or> graphNode s sc (r_SourcePluginID e) \<noteq> None) \<and> graphNode s sc (r_TargetPluginID e) \<noteq> None) (ge_rels g)
      else ge_rels g)"
    using assms(3) False by (auto simp: graphNodes_def Let_def)
  have ids: "map p_ID nodes = filter (\<lambda>i. graphNode s sc i \<noteq> None) (ge_targetIDs g)" unfolding nodes by (rule map_filter_ids)
  then have "distinct (map p_ID nodes)" using assms(1) by (simp add: graphOK_def)
  moreover have "length nodes \<le> maxGraphNodes"
    using assms(1) unfolding graphOK_def length_map [of p_ID, symmetric] ids by (blast intro: le_trans [OF length_filter_le])
  moreover have "length rels \<le> maxGraphEdges"
    using assms(1) unfolding rels graphOK_def by (auto intro: le_trans [OF length_filter_le])
  moreover have "\<forall>p \<in> set nodes. readFrom s sc p"
    unfolding nodes by (auto simp: mem_map_filter dest: graphNode_Some)
  moreover have "(r_SourcePluginID e = p_ID root \<or> r_SourcePluginID e \<in> p_ID ` set nodes) \<and> r_TargetPluginID e \<in> p_ID ` set nodes" if e: "e \<in> set rels" for e
  proof -
    from e have mem: "e \<in> set (ge_rels g)" unfolding rels by (auto split: if_splits)
    then have tgt: "r_TargetPluginID e \<in> set (ge_targetIDs g)" using assms(1) unfolding graphOK_def by blast
    have present: "(r_SourcePluginID e \<in> set (ge_targetIDs g) \<longrightarrow> r_SourcePluginID e = p_ID root \<or> graphNode s sc (r_SourcePluginID e) \<noteq> None) \<and>
        graphNode s sc (r_TargetPluginID e) \<noteq> None"
    proof (cases "length nodes = length (ge_targetIDs g)")
      case True
      then show ?thesis using tgt unfolding nodes map_filter_all by blast
    next
      case False
      with e show ?thesis unfolding rels by auto
    qed
    then show ?thesis using assms(2) mem tgt unfolding nodes set_map_filter_ids by blast
  qed
  ultimately show ?thesis by blast
qed

lemma levelOne_ok:
  assumes "levelOne (take graphEdgeLimit) s sc rootID = Inr g"
  shows "graphOK g \<and> (\<forall>e \<in> set (ge_rels g). r_SourcePluginID e = rootID)"
proof -
  have "graphOK newGraphEdges" by (simp add: newGraphEdges_def graphOK_def)
  with assms have "graphOK g" "ge_rels g = take graphEdgeLimit (edgeRows s sc (\<lambda>i. i = rootID))"
    unfolding levelOne_def by (auto dest!: drain_ok simp: newGraphEdges_def)
  then show ?thesis by (auto dest!: in_set_takeD edgeRows_mem)
qed

lemma levelTwo_ok:
  assumes "levelTwo (take graphEdgeLimit) s sc root g = Inr h" and g: "graphOK g" and src: "\<forall>e \<in> set (ge_rels g). r_SourcePluginID e = rootID"
  shows "graphOK h \<and> (\<forall>e \<in> set (ge_rels h). r_SourcePluginID e = rootID \<or> r_SourcePluginID e \<in> set (ge_targetIDs h))"
proof (cases "p_Type root = PluginTypeExpertTeam \<and> ge_targetIDs g \<noteq> []")
  case True
  let ?rows = "take graphEdgeLimit (sort_key r_SourcePluginID (edgeRows s sc (\<lambda>i. i \<in> set (ge_targetIDs g))))"
  from assms(1) True have "drain ?rows g = Inr h" by (simp add: levelTwo_def)
  from drain_ok [OF this g] have h: "graphOK h" "ge_rels h = ge_rels g @ ?rows" "set (ge_targetIDs g) \<subseteq> set (ge_targetIDs h)" by blast+
  have "r_SourcePluginID e \<in> set (ge_targetIDs g)" if "e \<in> set ?rows" for e
    using in_set_takeD [OF that] unfolding set_sort by (rule edgeRows_mem [THEN conjunct1])
  with h src show ?thesis by auto
next
  case False
  with assms show ?thesis by (auto simp: levelTwo_def)
qed

text \<open>A graph request is answered with one root and a closed, bounded, readable graph, whatever commits
  between its statements: at most 2000 edges and the node cap, distinct nodes the caller may see when
  they are read, and every edge runs between the root and returned nodes.\<close>

theorem GetGraphClosure_closed:
  assumes "GetGraphClosure s0 s1 s2 s3 sc rootID = Inr (root, rels, nodes)"
  shows "p_ID root = rootID \<and> readFrom s0 sc root \<and>
    length rels \<le> maxGraphEdges \<and> length nodes \<le> maxGraphNodes \<and> distinct (map p_ID nodes) \<and>
    (\<forall>p \<in> set nodes. readFrom s3 sc p \<and> p_Package p = None) \<and>
    (\<forall>e \<in> set rels. (r_SourcePluginID e = rootID \<or> r_SourcePluginID e \<in> p_ID ` set nodes) \<and> r_TargetPluginID e \<in> p_ID ` set nodes)"
proof -
  from assms have root: "Get s0 sc rootID = Inr root"
    unfolding GetGraphClosure_def graphClosure_def by (auto split: sum.splits if_splits)
  note Get_Inr [OF root]
  moreover from assms root consider "rels = []" "nodes = []"
    | g h where "levelOne (take graphEdgeLimit) s1 sc rootID = Inr g" "levelTwo (take graphEdgeLimit) s2 sc root g = Inr h"
        "graphNodes s3 sc root h = (rels, nodes)"
    unfolding GetGraphClosure_def graphClosure_def by (auto split: sum.splits if_splits)
  then have "length rels \<le> maxGraphEdges \<and> length nodes \<le> maxGraphNodes \<and> distinct (map p_ID nodes) \<and>
    (\<forall>p \<in> set nodes. readFrom s3 sc p \<and> p_Package p = None) \<and>
    (\<forall>e \<in> set rels. (r_SourcePluginID e = rootID \<or> r_SourcePluginID e \<in> p_ID ` set nodes) \<and> r_TargetPluginID e \<in> p_ID ` set nodes)"
  proof cases
    case 2
    from levelOne_ok [OF 2(1)] levelTwo_ok [OF 2(2)] have h: "graphOK h"
      "\<forall>e \<in> set (ge_rels h). r_SourcePluginID e = p_ID root \<or> r_SourcePluginID e \<in> set (ge_targetIDs h)"
      using Get_Inr [OF root] by auto
    have "\<forall>p \<in> set nodes. p_Package p = None"
      using 2(3) by (auto simp: graphNodes_def Let_def mem_map_filter graphNode_def split: if_splits)
    with graphNodes_closed [OF h 2(3)] Get_Inr [OF root] show ?thesis by auto
  qed simp
  ultimately show ?thesis by blast
qed

text \<open>The LIMIT of the two edge statements bounds the scan and changes no answer.\<close>

lemma GetGraphClosure_limit:
  "GetGraphClosure s0 s1 s2 s3 sc rootID = graphClosure (\<lambda>rows. rows) s0 s1 s2 s3 sc rootID"
proof -
  have one: "levelOne (take graphEdgeLimit) s1 sc rootID = levelOne (\<lambda>rows. rows) s1 sc rootID"
    unfolding levelOne_def by (rule drain_take) (simp_all add: newGraphEdges_def graphEdgeLimit_def)
  have two: "levelTwo (take graphEdgeLimit) s2 sc root g = levelTwo (\<lambda>rows. rows) s2 sc root g"
    if "levelOne (\<lambda>rows. rows) s1 sc rootID = Inr g" for root g
  proof -
    from levelOne_ok that one have "length (ge_rels g) \<le> maxGraphEdges" unfolding graphOK_def by metis
    then show ?thesis unfolding levelTwo_def by (simp add: drain_take graphEdgeLimit_def)
  qed
  show ?thesis unfolding GetGraphClosure_def graphClosure_def one by (auto simp: two split: sum.splits)
qed

lemma graphNodes_complete:
  assumes "graphOK g" and "\<forall>e \<in> set (ge_rels g). graphNode s sc (r_TargetPluginID e) \<noteq> None"
  shows "fst (graphNodes s sc root g) = ge_rels g \<and> map p_ID (snd (graphNodes s sc root g)) = ge_targetIDs g"
proof -
  from assms have all: "\<forall>i \<in> set (ge_targetIDs g). graphNode s sc i \<noteq> None" unfolding graphOK_def by (metis imageE)
  then have "filter (\<lambda>i. graphNode s sc i \<noteq> None) (ge_targetIDs g) = ge_targetIDs g" by (rule filter_True)
  with map_filter_ids [of s sc "ge_targetIDs g"] all show ?thesis
    unfolding graphNodes_def Let_def map_filter_all by simp
qed

text \<open>C28: Read on one store, a container's graph is returned whole although both edge statements carry a
  LIMIT: its edges are all the edges from it to plugins the caller may see and, for a team, all the
  edges from its members, and its nodes are exactly the targets of the edges.\<close>

theorem GetGraphClosure_complete:
  assumes ok: "GetGraphClosure s s s s sc rootID = Inr (root, rels, nodes)"
    and container: "p_Type root = PluginTypeExpert \<or> p_Type root = PluginTypeExpertTeam"
  shows "rels = edgeRows s sc (\<lambda>i. i = rootID) @
      (if p_Type root = PluginTypeExpertTeam
       then sort_key r_SourcePluginID (edgeRows s sc (\<lambda>i. i \<in> r_TargetPluginID ` set (edgeRows s sc (\<lambda>i. i = rootID)))) else [])
    \<and> p_ID ` set nodes = r_TargetPluginID ` set rels"
proof -
  from ok container obtain g h where g: "levelOne (\<lambda>rows. rows) s sc rootID = Inr g" and h: "levelTwo (\<lambda>rows. rows) s sc root g = Inr h"
    and n: "graphNodes s sc root h = (rels, nodes)"
    unfolding GetGraphClosure_limit graphClosure_def by (auto split: sum.splits if_splits)
  have "graphOK newGraphEdges" by (simp add: newGraphEdges_def graphOK_def)
  from drain_ok [OF g [unfolded levelOne_def] this] have gok: "graphOK g" and grels: "ge_rels g = edgeRows s sc (\<lambda>i. i = rootID)"
    by (simp_all add: newGraphEdges_def)
  then have gids: "set (ge_targetIDs g) = r_TargetPluginID ` set (edgeRows s sc (\<lambda>i. i = rootID))" unfolding graphOK_def by simp
  let ?two = "if p_Type root = PluginTypeExpertTeam \<and> ge_targetIDs g \<noteq> []
    then sort_key r_SourcePluginID (edgeRows s sc (\<lambda>i. i \<in> set (ge_targetIDs g))) else []"
  have hok: "graphOK h" and hrels: "ge_rels h = edgeRows s sc (\<lambda>i. i = rootID) @ ?two"
    using h drain_ok [OF _ gok] gok grels unfolding levelTwo_def by (auto split: if_splits)
  have none: "sort_key r_SourcePluginID (edgeRows s sc (\<lambda>i. i \<in> set (ge_targetIDs g))) = []" if "ge_targetIDs g = []"
    using edgeRows_mem [of _ s sc "\<lambda>i. i \<in> set (ge_targetIDs g)"] that by (metis empty_iff empty_set set_empty2 set_sort subsetI subset_empty)
  have two: "?two = (if p_Type root = PluginTypeExpertTeam
    then sort_key r_SourcePluginID (edgeRows s sc (\<lambda>i. i \<in> r_TargetPluginID ` set (edgeRows s sc (\<lambda>i. i = rootID)))) else [])"
    using none unfolding gids by auto
  have "\<forall>e \<in> set (ge_rels h). graphNode s sc (r_TargetPluginID e) \<noteq> None"
    unfolding hrels by (auto dest!: edgeRows_mem split: if_splits)
  from graphNodes_complete [OF hok this, of root] n have "rels = ge_rels h" and "set (ge_targetIDs h) = p_ID ` set nodes"
    unfolding set_map [symmetric] by auto
  with hok show ?thesis unfolding hrels two graphOK_def by simp
qed

section \<open>What a list returns\<close>

lemma listOrder_set: "set (listOrder score s f rows) = set rows"
  by (simp add: listOrder_def Let_def)

lemma listOrder_length: "length (listOrder score s f rows) = length rows"
  by (simp add: listOrder_def Let_def)

lemma clampLimit_le: "clampLimit n \<le> 100"
  by (auto simp: clampLimit_def)

lemma buildListQuery_row:
  assumes "buildListQuery same s sc f view p"
  shows "livePlugin p \<and> \<not> p_IsEmbedded p \<and> (\<not> fl_AllSpaces f \<longrightarrow> visibilitySQL (s_SpaceID sc) (s_CallerUID sc) p) \<and>
    (fl_Mine f \<longrightarrow> p_OwnerUID p = s_CallerUID sc \<and> p_SpaceID p = Some (s_SpaceID sc)) \<and>
    (\<not> fl_AllSpaces f \<longrightarrow> \<not> fl_Mine f \<longrightarrow> p_ListingState p = PluginListingStatePublished \<and> \<not> unavailableDependencySQL s p)"
  using assms by (cases "fl_Mine f") (simp_all add: buildListQuery_def listedSQL_def dependencyAvailabilitySQL_def, blast+)

lemma publishedListProjection_cols [simp]:
  "p_ID (publishedListProjection s p) = p_ID p" "p_Type (publishedListProjection s p) = p_Type p"
  by (simp_all add: publishedListProjection_def Let_def)

lemma ListPlugins_mem:
  assumes "x \<in> set (fst (ListPlugins same score r s0 s1 sc f))"
  obtains p where "p \<in> set (plugins s1)" "buildListQuery same s1 sc f (listView r s1 f) p"
    "x = scanPluginRow False (ownRelease r s1 f (listView r s1 f p)) (listView r s1 f p)"
  using assms unfolding ListPlugins_def Let_def fst_conv set_map
  by (auto dest!: in_set_takeD in_set_dropD simp: listOrder_set intro: that)

text \<open>C29: A list returns at most a hundred rows, live and never bundled. Outside the administrator's list
  every row is visible to the caller; in the caller's own list it is the caller's in the Space; on the
  grid it is published with every dependency available, and under version management it shows the
  released document, never the draft. The total counts the rows the page is cut from.\<close>

theorem ListPlugins_scoped:
  "length (fst (ListPlugins same score r s0 s1 sc f)) \<le> 100 \<and>
   (\<forall>x \<in> set (fst (ListPlugins same score r s0 s1 sc f)). \<exists>p \<in> set (plugins s1).
      p_ID x = p_ID p \<and> livePlugin p \<and> \<not> p_IsEmbedded p \<and> p_Package x = None \<and>
      (\<not> fl_AllSpaces f \<longrightarrow> visibilitySQL (s_SpaceID sc) (s_CallerUID sc) p) \<and>
      (fl_Mine f \<longrightarrow> p_OwnerUID p = s_CallerUID sc \<and> p_SpaceID p = Some (s_SpaceID sc)) \<and>
      (\<not> fl_AllSpaces f \<and> \<not> fl_Mine f \<longrightarrow> p_ListingState p = PluginListingStatePublished \<and> \<not> unavailableDependencySQL s1 p \<and>
         (\<forall>v doc. versionManagement r \<and> p_PublishedVersionID p = Some v \<and> Option.bind (versionRow s1 (p_ID p) v) v_Manifest = Some doc \<longrightarrow>
            p_Manifest x = Some doc \<and> p_CurrentVersionID x = Some v))) \<and>
   (s0 = s1 \<longrightarrow> fl_Offset f \<le> 0 \<and> snd (ListPlugins same score r s0 s1 sc f) \<le> clampLimit (fl_Limit f) \<longrightarrow>
      length (fst (ListPlugins same score r s0 s1 sc f)) = snd (ListPlugins same score r s0 s1 sc f))"
proof (intro conjI ballI impI)
  show "length (fst (ListPlugins same score r s0 s1 sc f)) \<le> 100"
    using clampLimit_le [of "fl_Limit f"] by (simp add: ListPlugins_def Let_def min_def)
next
  fix x
  assume "x \<in> set (fst (ListPlugins same score r s0 s1 sc f))"
  then obtain p where p: "p \<in> set (plugins s1)" "buildListQuery same s1 sc f (listView r s1 f) p"
    "x = scanPluginRow False (ownRelease r s1 f (listView r s1 f p)) (listView r s1 f p)"
    by (rule ListPlugins_mem)
  have x: "p_ID x = p_ID p" "p_Package x = None" unfolding p(3) by (simp_all add: listView_def)
  have doc: "p_Manifest x = Some d \<and> p_CurrentVersionID x = Some v"
    if "\<not> fl_AllSpaces f \<and> \<not> fl_Mine f" "versionManagement r \<and> p_PublishedVersionID p = Some v \<and> Option.bind (versionRow s1 (p_ID p) v) v_Manifest = Some d" for v d
    using that unfolding p(3) by (simp add: listView_def publishedListProjection_def scanPluginRow_def versionRow_def Let_def coalesce_def)
  from buildListQuery_row [OF p(2)] doc x show "\<exists>p \<in> set (plugins s1). p_ID x = p_ID p \<and> livePlugin p \<and> \<not> p_IsEmbedded p \<and> p_Package x = None \<and>
      (\<not> fl_AllSpaces f \<longrightarrow> visibilitySQL (s_SpaceID sc) (s_CallerUID sc) p) \<and>
      (fl_Mine f \<longrightarrow> p_OwnerUID p = s_CallerUID sc \<and> p_SpaceID p = Some (s_SpaceID sc)) \<and>
      (\<not> fl_AllSpaces f \<and> \<not> fl_Mine f \<longrightarrow> p_ListingState p = PluginListingStatePublished \<and> \<not> unavailableDependencySQL s1 p \<and>
         (\<forall>v doc. versionManagement r \<and> p_PublishedVersionID p = Some v \<and> Option.bind (versionRow s1 (p_ID p) v) v_Manifest = Some doc \<longrightarrow>
            p_Manifest x = Some doc \<and> p_CurrentVersionID x = Some v))"
    using p(1) by blast
next
  assume "s0 = s1" and "fl_Offset f \<le> 0 \<and> snd (ListPlugins same score r s0 s1 sc f) \<le> clampLimit (fl_Limit f)"
  then show "length (fst (ListPlugins same score r s0 s1 sc f)) = snd (ListPlugins same score r s0 s1 sc f)"
    by (simp add: ListPlugins_def Let_def listOrder_length)
qed

section \<open>Facets and history\<close>

text \<open>The grid a facet leads to: the facet's shelf and type, filtered by a category or by a tag.\<close>

definition gridFilter :: "string \<Rightarrow> PluginType option \<Rightarrow> string \<Rightarrow> string list \<Rightarrow> ListFilter" where
  "gridFilter code typ cid tags = \<lparr>fl_PlacementCode = code, fl_Type = typ, fl_CategoryID = cid, fl_Tags = tags, fl_Keyword = '''',
     fl_Mine = False, fl_Sort = '''', fl_Limit = 0, fl_Offset = 0, fl_AllSpaces = False, fl_Visibility = None\<rparr>"

lemma gridFilter_query:
  "buildListQuery same s sc (gridFilter code typ cid tags) view p \<longleftrightarrow>
     livePlugin p \<and> \<not> p_IsEmbedded p \<and> visibilitySQL (s_SpaceID sc) (s_CallerUID sc) p \<and>
     (case typ of None \<Rightarrow> True | Some ty \<Rightarrow> p_Type p = ty) \<and>
     (if code \<noteq> '''' then (\<exists>x \<in> set (placements s). pl_PluginID x = p_ID p \<and> pl_PlacementCode x = code \<and> pl_Visible x \<and> (cid = '''' \<or> pl_CategoryID x = Some cid))
      else cid = '''' \<or> p_CategoryID p = Some cid) \<and>
     (\<forall>tag \<in> set tags. case p_Tags (view p) of None \<Rightarrow> False | Some doc \<Rightarrow> jsonContains tag doc) \<and> listedSQL p \<and> dependencyAvailabilitySQL s p"
  by (auto simp: buildListQuery_def gridFilter_def placedRows_def filter_empty_conv)

lemma ListPlugins_total:
  "snd (ListPlugins same score r s s sc f) = length (filter (buildListQuery same s sc f (listView r s f)) (plugins s))"
  by (simp add: ListPlugins_def Let_def)

lemma tagNames_mem: "t \<in> set (tagNames doc) \<longleftrightarrow> (\<exists>xs. doc = Some (JArr xs) \<and> JStr t \<in> set xs)"
proof -
  have str: "(case x of JStr t \<Rightarrow> Some t | _ \<Rightarrow> None) = Some t \<longleftrightarrow> x = JStr t" for x
    by (simp split: json.split)
  show ?thesis by (cases doc rule: tagNames.cases) (simp_all add: mem_map_filter str)
qed

lemma tagNames_contains: "t \<in> set (tagNames doc) \<Longrightarrow> case doc of None \<Rightarrow> False | Some d \<Rightarrow> jsonContains t d"
  by (force simp: tagNames_mem list_ex_iff)

lemma tagsColumn_view:
  assumes "t \<in> set (tagNames (tagsColumn r s False p))"
  shows "case p_Tags (listView r s (gridFilter code typ cid tags) p) of None \<Rightarrow> False | Some doc \<Rightarrow> jsonContains t doc"
proof (cases "versionManagement r")
  case True
  show ?thesis
  proof (cases "p_PublishedVersionID p")
    case None
    with True assms show ?thesis
      using tagNames_contains [of t "p_Tags p"] by (simp add: tagsColumn_def listView_def gridFilter_def publishedListProjection_def Let_def)
  next
    case (Some v)
    let ?labels = "Option.bind (Option.bind (versionRow s (p_ID p) v) v_Manifest) (mapField ''labels'')"
    from assms True Some obtain xs where xs: "?labels = Some (JArr xs)" "t \<in> set (tagNames (Some (JArr xs)))"
      by (cases ?labels; cases "the ?labels") (auto simp: tagsColumn_def coalesce_def map_filter_simps)
    from tagNames_contains [OF xs(2)] xs(1) True Some show ?thesis
      by (simp add: listView_def gridFilter_def publishedListProjection_def versionRow_def Let_def)
  qed
next
  case False
  with assms tagNames_contains [of t "p_Tags p"] show ?thesis by (simp add: tagsColumn_def listView_def gridFilter_def)
qed

lemma length_filter_le_filter:
  assumes "\<And>x. x \<in> set xs \<Longrightarrow> P x \<Longrightarrow> Q x"
  shows "length (filter P xs) \<le> length (filter Q xs)"
  using assms by (induction xs) auto

text \<open>No chip leads to an empty grid: each tag offered for a shelf and a type counts at least one
  plugin, and at most as many as the grid filtered by the tag holds; at most a hundred are offered,
  each once.\<close>

theorem ListTags_match_grid:
  "distinct (map fst (ListTags same r s sc f)) \<and> length (ListTags same r s sc f) \<le> 100 \<and>
   (\<forall>(t, n) \<in> set (ListTags same r s sc f). 0 < n \<and>
     (\<not> tf_Mine f \<longrightarrow> n \<le> snd (ListPlugins like score r s s sc (gridFilter (tf_PlacementCode f) (tf_Type f) '''' [t]))))"
proof -
  let ?rows = "filter (tagRow s sc f) (plugins s)"
  let ?n = "\<lambda>t. length (filter (\<lambda>p. t \<in> set (tagHits same r s f p)) ?rows)"
  let ?counted = "map (\<lambda>t. (t, ?n t)) (remdups (concat (map (tagHits same r s f) ?rows)))"
  let ?sorted = "sort_key (\<lambda>(_, n). - int n) (sort_key fst ?counted)"
  have tags: "ListTags same r s sc f = take (tagLimit (tf_Limit f)) ?sorted" by (simp add: ListTags_def Let_def)
  have "distinct ?counted \<and> inj_on fst (set ?counted)" by (auto simp: distinct_map inj_on_def)
  then have "distinct (map fst ?sorted)" unfolding distinct_map set_sort distinct_sort .
  then have "distinct (map fst (ListTags same r s sc f))" unfolding tags take_map [symmetric] by (rule distinct_take)
  moreover have "length (ListTags same r s sc f) \<le> 100" unfolding tags by (auto simp: tagLimit_def)
  moreover have "0 < n \<and> (\<not> tf_Mine f \<longrightarrow> n \<le> snd (ListPlugins like score r s s sc (gridFilter (tf_PlacementCode f) (tf_Type f) '''' [t])))"
    if "(t, n) \<in> set (ListTags same r s sc f)" for t n
  proof -
    from in_set_takeD [OF that [unfolded tags]] obtain p where p: "p \<in> set ?rows" "t \<in> set (tagHits same r s f p)" and n: "n = ?n t"
      unfolding set_sort by auto
    then have "0 < n" by (auto simp: length_greater_0_conv filter_empty_conv)
    moreover have "n \<le> snd (ListPlugins like score r s s sc (gridFilter (tf_PlacementCode f) (tf_Type f) '''' [t]))" if "\<not> tf_Mine f"
      unfolding n ListPlugins_total filter_filter gridFilter_query
      using that by (intro length_filter_le_filter) (auto simp: tagRow_def tagHits_def intro: tagsColumn_view)
    ultimately show ?thesis by blast
  qed
  ultimately show ?thesis by blast
qed

text \<open>The count of a category is the total of the grid it leads to, on every shelf that places no
  bundled plugin in it.\<close>

theorem ListPlacementCategories_match_grid:
  assumes "c \<in> set (ListPlacementCategories s sc code typ)" and "code \<noteq> ''''" and "cat_ID (pc_Row c) \<noteq> ''''"
    and "\<forall>x \<in> set (placements s). \<forall>p \<in> set (plugins s). pl_PluginID x = p_ID p \<and> pl_CategoryID x = Some (cat_ID (pc_Row c)) \<longrightarrow> \<not> p_IsEmbedded p"
  shows "pc_PluginCount c = snd (ListPlugins same score r s s sc (gridFilter code (Some typ) (cat_ID (pc_Row c)) []))"
proof -
  from assms(1) have "pc_PluginCount c = length (facetPlugins s sc code typ (cat_ID (pc_Row c)))"
    by (auto simp: ListPlacementCategories_def)
  also have "facetPlugins s sc code typ (cat_ID (pc_Row c)) =
      filter (buildListQuery same s sc (gridFilter code (Some typ) (cat_ID (pc_Row c)) []) (listView r s (gridFilter code (Some typ) (cat_ID (pc_Row c)) []))) (plugins s)"
    unfolding facetPlugins_def gridFilter_query using assms(2-4) by (intro filter_cong [OF refl]) auto
  finally show ?thesis unfolding ListPlugins_total .
qed

lemma redactVersionRelations_mem:
  assumes "v \<in> set (redactVersionRelations s sc vs)"
  obtains v0 where "v0 \<in> set vs" "v_ID v = v_ID v0" "v_Version v = v_Version v0" "v_Manifest v = v_Manifest v0"
    "v_Package v = v_Package v0" "set (v_Relations v) \<subseteq> set (v_Relations v0)"
    "\<forall>e \<in> set (v_Relations v). r_TargetPluginID e = '''' \<or> visibleTargetIDs s sc (r_TargetPluginID e)"
proof (cases "\<forall>v \<in> set vs. \<forall>e \<in> set (v_Relations v). r_TargetPluginID e = ''''")
  case True
  with assms show thesis by (intro that [of v]) (simp_all add: redactVersionRelations_def)
next
  case False
  with assms obtain v0 where "v0 \<in> set vs" "v = v0\<lparr>v_Relations := filter (\<lambda>e. visibleTargetIDs s sc (r_TargetPluginID e)) (v_Relations v0)\<rparr>"
    unfolding redactVersionRelations_def by auto
  then show thesis by (intro that [of v0]) simp_all
qed

text \<open>The version list discloses no more than the current state does: no document of any version, at
  most a hundred rows of a plugin the caller may read, and of a stored snapshot only the relations
  whose target the caller may see now.\<close>

theorem ListVersions_redacted:
  assumes "ListVersions s0 s1 s2 s3 sc pluginID limit offset = Inr (vs, n)"
  shows "length vs \<le> 100 \<and> (\<exists>p. Get s0 sc pluginID = Inr p) \<and>
    (\<forall>v \<in> set vs. v_Manifest v = None \<and> v_Package v = None \<and>
      (\<forall>e \<in> set (v_Relations v). r_TargetPluginID e = '''' \<or> visibleTargetIDs s3 sc (r_TargetPluginID e)) \<and>
      (\<exists>w \<in> set (versions s2). v_ID v = v_ID w \<and> v_PluginID w = pluginID \<and> v_Version v = v_Version w \<and> set (v_Relations v) \<subseteq> set (v_Relations w)))"
proof -
  let ?page = "map versionMetadata (take (clampLimit limit) (drop (nat (max offset 0)) (rev (sort_key v_CreatedAt (sort_key v_ID (versionRows s2 sc pluginID))))))"
  from assms have vs: "vs = redactVersionRelations s3 sc ?page" and ok: "\<exists>p. Get s0 sc pluginID = Inr p"
    by (auto simp: ListVersions_def split: sum.splits)
  have "length vs = length ?page" unfolding vs redactVersionRelations_def by simp
  also have "\<dots> \<le> 100" using clampLimit_le [of limit] by simp
  finally have len: "length vs \<le> 100" .
  have row: "\<exists>w \<in> set (versionRows s2 sc pluginID). v = versionMetadata w" if "v \<in> set ?page" for v
    using that by (auto dest!: in_set_takeD in_set_dropD)
  have "v_Manifest v = None \<and> v_Package v = None \<and>
      (\<forall>e \<in> set (v_Relations v). r_TargetPluginID e = '''' \<or> visibleTargetIDs s3 sc (r_TargetPluginID e)) \<and>
      (\<exists>w \<in> set (versions s2). v_ID v = v_ID w \<and> v_PluginID w = pluginID \<and> v_Version v = v_Version w \<and> set (v_Relations v) \<subseteq> set (v_Relations w))"
    if "v \<in> set vs" for v
  proof -
    from that obtain v0 where v0: "v0 \<in> set ?page" and v: "v_ID v = v_ID v0" "v_Version v = v_Version v0" "v_Manifest v = v_Manifest v0"
        "v_Package v = v_Package v0" "set (v_Relations v) \<subseteq> set (v_Relations v0)"
      and rels: "\<forall>e \<in> set (v_Relations v). r_TargetPluginID e = '''' \<or> visibleTargetIDs s3 sc (r_TargetPluginID e)"
      unfolding vs by (rule redactVersionRelations_mem)
    from row [OF v0] obtain w where "w \<in> set (versionRows s2 sc pluginID)" "v0 = versionMetadata w" by blast
    then have "w \<in> set (versions s2)" "v_PluginID w = pluginID" "v_ID v0 = v_ID w" "v_Version v0 = v_Version w"
      "v_Relations v0 = v_Relations w" "v_Manifest v0 = None" "v_Package v0 = None"
      by (simp_all add: versionRows_def versionMetadata_def)
    with v rels show ?thesis by metis
  qed
  with len ok show ?thesis by blast
qed

text \<open>Whom a row may be distributed to: everybody, or its Space, or its owner there.\<close>

definition inAudience :: "Scope \<Rightarrow> Plugin \<Rightarrow> bool" where
  "inAudience sc p \<longleftrightarrow> (case p_Visibility p of
       PluginVisibilityPrivate \<Rightarrow> p_SpaceID p = Some (s_SpaceID sc) \<and> p_OwnerUID p = s_CallerUID sc
     | PluginVisibilitySpace \<Rightarrow> p_SpaceID p = Some (s_SpaceID sc)
     | _ \<Rightarrow> True)"

text \<open>An installation reads only what it may distribute: whatever the caller's role, plugins and
  versions of the caller's audience that are live and not bundled, and of the versions only formal
  releases, never of a connector; a batch over the bound is refused.\<close>

theorem install_reads_audience:
  "(\<forall>ps. GetInstallPlugins s sc ids = Inr ps \<longrightarrow> length ids \<le> maxInstallReads \<and>
     (\<forall>p \<in> set ps. p_ID p \<in> set ids \<and> (\<exists>q \<in> set (plugins s). p_ID q = p_ID p \<and> inAudience sc q \<and> livePlugin q \<and> \<not> p_IsEmbedded q))) \<and>
   (\<forall>vs. GetInstallVersions s sc keys = Inr vs \<longrightarrow> length keys \<le> maxInstallReads \<and>
     (\<forall>v \<in> set vs. (v_PluginID v, v_ID v) \<in> set keys \<and> v \<in> set (versions s) \<and> releaseExists s (v_PluginID v) (Some (v_ID v)) \<and>
       (\<exists>q \<in> set (plugins s). p_ID q = v_PluginID v \<and> inAudience sc q \<and> livePlugin q \<and> \<not> p_IsEmbedded q \<and> p_Type q \<noteq> PluginTypeConnector)))"
  by (auto simp: GetInstallPlugins_def GetInstallVersions_def installAccess_def inAudience_def split: if_splits)

section \<open>A small catalog\<close>

text \<open>A released skill in a category, and an expert that uses it.\<close>

definition catalogStore :: Store where
  "catalogStore = emptyStore\<lparr>
     plugins := [(samplePlugin ''k'' PluginTypeSkill ''u1'')\<lparr>p_PublishedVersionID := Some ''v1''\<rparr>, samplePlugin ''e'' PluginTypeExpert ''u2''],
     relations := [sampleEdge ''e'' ''k'' ''expert_skill''],
     versions := [(sampleVersion ''k'' ''v1'' [])\<lparr>v_Manifest := Some (JObj [(''labels'', JArr [JStr ''x''])])\<rparr>,
       sampleVersion ''e'' ''v2'' [sampleEdge ''e'' ''k'' ''expert_skill'', sampleEdge ''e'' ''hidden'' ''expert_skill'']],
     releases := [sampleRelease ''k'' ''v1''],
     categories := [\<lparr>cat_ID = ''c'', cat_Name = ''c'', cat_IconKey = '''', cat_Types = [PluginTypeSkill], cat_SortOrder = 0, cat_Status = 1,
       cat_CreatedAt = 0, cat_UpdatedAt = 0, cat_DeletedAt = None\<rparr>],
     catPlacements := [\<lparr>cp_ID = ''cp'', cp_PlacementCode = ''default'', cp_PluginType = PluginTypeSkill, cp_CategoryID = ''c'', cp_Visible = True, cp_SortOrder = 0\<rparr>],
     placements := [(samplePlacement ''p1'' ''default'' ''k'')\<lparr>pl_CategoryID := Some ''c''\<rparr>]\<rparr>"

theorem GetGraphClosure_closed_witness:
  "\<exists>root rels nodes. GetGraphClosure catalogStore catalogStore catalogStore catalogStore sampleOwner ''e'' = Inr (root, rels, nodes) \<and>
     p_ID root = ''e'' \<and> rels \<noteq> [] \<and> (\<forall>e \<in> set rels. r_TargetPluginID e \<in> p_ID ` set nodes)"
proof -
  let ?run = "GetGraphClosure catalogStore catalogStore catalogStore catalogStore sampleOwner ''e''"
  have "\<not> isl ?run" "fst (snd (projr ?run)) \<noteq> []" by code_simp+
  then obtain root rels nodes where run: "?run = Inr (root, rels, nodes)" and "rels \<noteq> []" by (cases ?run) auto
  with GetGraphClosure_closed [OF run] show ?thesis by blast
qed

theorem GetGraphClosure_complete_witness:
  "\<exists>root rels nodes. GetGraphClosure catalogStore catalogStore catalogStore catalogStore sampleOwner ''e'' = Inr (root, rels, nodes) \<and>
     rels = edgeRows catalogStore sampleOwner (\<lambda>i. i = ''e'') \<and> map r_TargetPluginID rels = [''k''] \<and> p_ID ` set nodes = {''k''}"
proof -
  let ?run = "GetGraphClosure catalogStore catalogStore catalogStore catalogStore sampleOwner ''e''"
  have "\<not> isl ?run" "p_Type (fst (projr ?run)) = PluginTypeExpert" "map r_TargetPluginID (fst (snd (projr ?run))) = [''k'']" by code_simp+
  then obtain root rels nodes where run: "?run = Inr (root, rels, nodes)" and "p_Type root = PluginTypeExpert"
    and k: "map r_TargetPluginID rels = [''k'']" by (cases ?run) auto
  moreover from k have "r_TargetPluginID ` set rels = {''k''}" by (metis empty_set list.simps(15) set_map)
  ultimately show ?thesis using GetGraphClosure_complete [OF run] by simp
qed

theorem ListPlugins_scoped_witness:
  "let page = fst (ListPlugins (=) (\<lambda>_ _. 0) managedRepo catalogStore catalogStore sampleOwner (gridFilter '''' None '''' [''x''])) in
   map p_ID page = [''k''] \<and> p_Manifest (hd page) = Some (JObj [(''labels'', JArr [JStr ''x''])])"
proof -
  let ?f = "gridFilter '''' None '''' [''x'']"
  let ?page = "fst (ListPlugins (=) (\<lambda>_ _. 0) managedRepo catalogStore catalogStore sampleOwner ?f)"
  have ids: "map p_ID ?page = [''k'']" by code_simp
  then have mem: "hd ?page \<in> set ?page" "p_ID (hd ?page) = ''k''" by (cases ?page; simp)+
  have grid: "\<not> fl_AllSpaces ?f \<and> \<not> fl_Mine ?f" "versionManagement managedRepo" by (simp_all add: gridFilter_def managedRepo_def)
  have rows: "\<forall>p \<in> set (plugins catalogStore). p_ID p = ''k'' \<longrightarrow> p_PublishedVersionID p = Some ''v1''"
    and doc: "Option.bind (versionRow catalogStore ''k'' ''v1'') v_Manifest = Some (JObj [(''labels'', JArr [JStr ''x''])])"
    by code_simp+
  from ListPlugins_scoped [of "(=)" "\<lambda>_ _. 0" managedRepo catalogStore catalogStore sampleOwner ?f] mem grid rows doc ids
  show ?thesis unfolding Let_def by metis
qed

theorem ListTags_match_grid_witness:
  "let f = \<lparr>tf_PlacementCode = ''default'', tf_Type = Some PluginTypeSkill, tf_Keyword = '''', tf_Mine = False, tf_Limit = 0\<rparr> in
   ListTags (=) managedRepo catalogStore sampleOwner f = [(''x'', 1)] \<and>
   1 \<le> snd (ListPlugins (=) (\<lambda>_ _. 0) managedRepo catalogStore catalogStore sampleOwner (gridFilter ''default'' (Some PluginTypeSkill) '''' [''x'']))"
proof -
  let ?f = "\<lparr>tf_PlacementCode = ''default'', tf_Type = Some PluginTypeSkill, tf_Keyword = '''', tf_Mine = False, tf_Limit = 0\<rparr> :: TagListFilter"
  have "ListTags (=) managedRepo catalogStore sampleOwner ?f = [(''x'', 1)]" by code_simp
  with ListTags_match_grid [of "(=)" managedRepo catalogStore sampleOwner ?f "(=)" "\<lambda>_ _. 0"] show ?thesis by simp
qed

theorem ListPlacementCategories_match_grid_witness:
  "\<exists>c \<in> set (ListPlacementCategories catalogStore sampleOwner ''default'' PluginTypeSkill). pc_PluginCount c = 1 \<and>
     snd (ListPlugins (=) (\<lambda>_ _. 0) managedRepo catalogStore catalogStore sampleOwner (gridFilter ''default'' (Some PluginTypeSkill) ''c'' [])) = 1"
proof -
  let ?cs = "ListPlacementCategories catalogStore sampleOwner ''default'' PluginTypeSkill"
  have cs: "map (\<lambda>c. (cat_ID (pc_Row c), pc_PluginCount c)) ?cs = [(''c'', 1)]" by code_simp
  then obtain c where c: "c \<in> set ?cs" "cat_ID (pc_Row c) = ''c''" "pc_PluginCount c = 1" by (cases ?cs) auto
  have "\<forall>x \<in> set (placements catalogStore). \<forall>p \<in> set (plugins catalogStore). pl_PluginID x = p_ID p \<and> pl_CategoryID x = Some ''c'' \<longrightarrow> \<not> p_IsEmbedded p"
    by code_simp
  with ListPlacementCategories_match_grid [OF c(1), of "(=)" "\<lambda>_ _. 0" managedRepo] c show ?thesis by auto
qed

theorem ListVersions_redacted_witness:
  "\<exists>vs n. ListVersions catalogStore catalogStore catalogStore catalogStore sampleOwner ''e'' 0 0 = Inr (vs, n) \<and> map v_ID vs = [''v2''] \<and>
     (\<forall>v \<in> set vs. \<forall>e \<in> set (v_Relations v). r_TargetPluginID e \<noteq> ''hidden'')"
proof -
  let ?run = "ListVersions catalogStore catalogStore catalogStore catalogStore sampleOwner ''e'' 0 0"
  have "\<not> isl ?run" "map v_ID (fst (projr ?run)) = [''v2'']" by code_simp+
  then obtain vs n where run: "?run = Inr (vs, n)" and "map v_ID vs = [''v2'']" by (cases ?run) auto
  moreover have "\<not> visibleTargetIDs catalogStore sampleOwner ''hidden''" by code_simp
  ultimately show ?thesis using ListVersions_redacted [OF run] by fastforce
qed

theorem install_reads_audience_witness:
  "\<exists>vs. GetInstallVersions catalogStore sampleOwner [(''k'', ''v1''), (''e'', ''v2'')] = Inr vs \<and> map v_ID vs = [''v1''] \<and>
     (\<forall>v \<in> set vs. releaseExists catalogStore (v_PluginID v) (Some (v_ID v)))"
proof -
  let ?run = "GetInstallVersions catalogStore sampleOwner [(''k'', ''v1''), (''e'', ''v2'')]"
  have "\<not> isl ?run" "map v_ID (projr ?run) = [''v1'']" by code_simp+
  then obtain vs where run: "?run = Inr vs" and "map v_ID vs = [''v1'']" by (cases ?run) auto
  with install_reads_audience [of catalogStore sampleOwner "[]", THEN conjunct2, THEN spec, THEN mp, OF run, THEN conjunct2]
  show ?thesis by (intro exI [of _ vs]) simp
qed

end
