(* ===== verification/Files.thy ===== *)
theory Files
  imports Snapshots
begin

text \<open>
  The files behind a version: \<open>verifyVersionFiles\<close>, \<open>versionFileBytes\<close> and \<open>legacyVersionPointer\<close> of
  \<open>service/plugin/version_management.go\<close>, with the document helpers of \<open>documents.go\<close>, \<open>artifact.go\<close>
  and \<open>version_artifacts.go\<close>. Every approval of a managed version passes this check first.

  The object store is a function from keys to bytes, \<open>None\<close> where it returns an error; the service may
  run without one. A digest is computed by the \<open>Repo\<close> record's \<open>sha256\<close>. The configured limits are below
  the largest 64-bit integer, so that a limit plus one does not wrap.
\<close>

section \<open>Errors of the plugin service\<close>

datatype PluginError =
    ENotFound | EConflict | ENameTaken | EInvalidRequest | ERelationInUse | EGraphTooLarge | EDeadlock
  | EReviewPending | EListedRequiresReview | EVersionBaselineUnavailable | EVersionRegressed | ELabelTaken
  | EReviewContentRequired | ELegacySnapshot | EIntegrity | ETooLarge | EReviewInvalid | EReviewForbidden
  | EReviewPolicyForbidden | EReasonRequired | ECardBadDecision | ENotPublished | EReviewField string string
  | EDependencyHidden | EReferenceIndexIncomplete | EAlreadyPublished | ERepo RepoError | EUnreadable | EDriver | ERoleUnavailable | EReceiptUnavailable | EBadReceipt

text \<open>An error of the repository becomes an error of the service; any other error passes through.\<close>

definition mapStoreError :: "PluginError \<Rightarrow> PluginError" where
  "mapStoreError err =
     (case err of
        ERepo (ReferenceValidationError field reason) \<Rightarrow> EReviewField field reason
      | ERepo ErrNotFound \<Rightarrow> ENotFound
      | ERepo ErrConflict \<Rightarrow> EConflict
      | ERepo ErrNameTaken \<Rightarrow> ENameTaken
      | ERepo ErrInvalidName \<Rightarrow> EInvalidRequest
      | ERepo ErrPluginNameEmpty \<Rightarrow> EInvalidRequest
      | ERepo ErrPluginNameTooLong \<Rightarrow> EInvalidRequest
      | ERepo ErrRelationInUse \<Rightarrow> ERelationInUse
      | ERepo ErrGraphTooLarge \<Rightarrow> EGraphTooLarge
      | ERepo ErrDeadlock \<Rightarrow> EDeadlock
      | ERepo ErrReviewPending \<Rightarrow> EReviewPending
      | ERepo ErrListedRequiresReview \<Rightarrow> EListedRequiresReview
      | ERepo ErrVersionBaselineUnavailable \<Rightarrow> EVersionBaselineUnavailable
      | ERepo ErrVersionRegressed \<Rightarrow> EVersionRegressed
      | ERepo ErrLabelTaken \<Rightarrow> ELabelTaken
      | ERepo ErrReviewContentRequired \<Rightarrow> EReviewContentRequired
      | ERepo ErrLegacySnapshotArtifacts \<Rightarrow> ELegacySnapshot
      | ERepo ErrInvalidRelation \<Rightarrow> EInvalidRequest
      | ERepo ErrInvalidCategory \<Rightarrow> EInvalidRequest
      | ERepo ErrInvalidPlacement \<Rightarrow> EInvalidRequest
      | _ \<Rightarrow> err)"

section \<open>Attachments\<close>

record FileStore =
  fs_Storage :: "(string \<Rightarrow> string option) option"
  fs_MaxAttachmentBytes :: int
  fs_MaxArchiveBytes :: int

definition attachmentsOf :: "(json \<Rightarrow> 'a option) \<Rightarrow> raw \<Rightarrow> 'a list option" where
  "attachmentsOf decode pkg =
     (case pkg of
        Some JNull \<Rightarrow> Some []
      | Some (JObj kvs) \<Rightarrow>
          (case structField ''attachments'' (JObj kvs) of
             None \<Rightarrow> Some []
           | Some JNull \<Rightarrow> Some []
           | Some (JArr xs) \<Rightarrow> if list_all (\<lambda>x. decode x \<noteq> None) xs then Some (List.map_filter decode xs) else None
           | Some _ \<Rightarrow> None)
      | _ \<Rightarrow> None)"

definition attachmentView :: "json \<Rightarrow> Attachment option" where
  "attachmentView v = (if strictString (structField ''storage_uri'' v) = None then None else decodeAttachment v)"

definition decodePackageAttachments :: "raw \<Rightarrow> Attachment list" where
  "decodePackageAttachments pkg = (case attachmentsOf attachmentView pkg of None \<Rightarrow> [] | Some xs \<Rightarrow> xs)"

text \<open>Path, content type and content of an attachment, the other members unread.\<close>

definition rawView :: "json \<Rightarrow> (string \<times> string \<times> string) option" where
  "rawView v =
     (if v = JNull then Some ('''', '''', '''')
      else case (v, strictString (structField ''path'' v), strictString (structField ''content_type'' v),
            strictString (structField ''raw_content'' v)) of
        (JObj _, Some p, Some c, Some rc) \<Rightarrow> Some (p, c, rc)
      | _ \<Rightarrow> None)"

definition rawAttachmentContent :: "raw \<Rightarrow> string \<Rightarrow> string option" where
  "rawAttachmentContent pkg path =
     (case attachmentsOf rawView pkg of
        None \<Rightarrow> None
      | Some xs \<Rightarrow> map_option (\<lambda>(_, _, content). content) (find (\<lambda>(p, c, _). p = path \<and> c = ''raw'') xs))"

definition attachmentKeyMap :: "raw \<Rightarrow> (string \<times> string) list" where
  "attachmentKeyMap doc =
     (case doc of None \<Rightarrow> [] | Some v \<Rightarrow> if snd (stringMap v) then fst (stringMap v) else [])"

section \<open>Reading a file of a version\<close>

definition readArtifactBytes :: "(string \<Rightarrow> string option) \<Rightarrow> string \<Rightarrow> int \<Rightarrow> PluginError + string" where
  "readArtifactBytes get key limit =
     (if limit < 0 then Inl ETooLarge
      else case get key of
        None \<Rightarrow> Inl EUnreadable
      | Some body \<Rightarrow> if int (length body) > limit then Inl ETooLarge else Inr body)"

text \<open>\<open>json.Unmarshal\<close> of a member that has to be there; \<open>null\<close> keeps the zero value.\<close>

definition presentInt :: "json option \<Rightarrow> int option" where
  "presentInt v = (if v = None then None else strictInt v)"

definition presentString :: "json option \<Rightarrow> string option" where
  "presentString v = (if v = None then None else strictString v)"

definition pointerField :: "string \<Rightarrow> string option" where
  "pointerField filePath =
     (if filePath = ''SKILL.md'' then Some ''object_key''
      else if filePath = ''skill/package.zip'' then Some ''zip_object_key''
      else if filePath = ''skill/ref.json/object_key'' then Some ''object_key''
      else if filePath = ''skill/ref.json/zip_object_key'' then Some ''zip_object_key''
      else if filePath = ''skill/ref.json/file_url'' then Some ''file_url''
      else None)"

definition pointerAt :: "json \<Rightarrow> string \<Rightarrow> PluginError + (string \<times> int \<times> string) option" where
  "pointerAt ref field0 =
     (let key0 = stringOr '''' (mapField field0 ref);
          field = (if key0 = '''' \<and> field0 = ''zip_object_key'' then ''file_url'' else field0);
          key = stringOr '''' (mapField field ref) in
      if key = '''' then Inr None
      else case (presentInt (mapField (field @ ''_size'') ref), presentString (mapField (field @ ''_hash'') ref)) of
        (Some len, Some d) \<Rightarrow> if len < 0 \<or> length d \<noteq> 71 then Inl EIntegrity else Inr (Some (key, len, d))
      | _ \<Rightarrow> Inl EIntegrity)"

definition legacyVersionPointer :: "Repo \<Rightarrow> raw \<Rightarrow> string \<Rightarrow> PluginError + (string \<times> int \<times> string) option" where
  "legacyVersionPointer r pkg filePath =
     (case pointerField filePath of
        None \<Rightarrow> Inr None
      | Some field \<Rightarrow>
          (case rawAttachmentContent pkg ''skill/ref.json'' of
             None \<Rightarrow> Inr None
           | Some content \<Rightarrow>
               (case unmarshal r content of
                  Some (JObj kvs) \<Rightarrow> pointerAt (JObj kvs) field
                | Some JNull \<Rightarrow> Inr None
                | _ \<Rightarrow> Inl EIntegrity)))"

definition trustedPluginArtifactKey :: "string \<Rightarrow> Plugin \<Rightarrow> bool" where
  "trustedPluginArtifactKey key p = Allows p key"

text \<open>The bytes of an object, when they are those a size and a digest declare.\<close>

definition verifiedObject ::
  "Repo \<Rightarrow> FileStore \<Rightarrow> Plugin \<Rightarrow> string \<Rightarrow> int \<Rightarrow> int \<Rightarrow> string \<Rightarrow> PluginError + string" where
  "verifiedObject r fs p key limit len d =
     (case fs_Storage fs of
        None \<Rightarrow> Inl EIntegrity
      | Some get \<Rightarrow>
          if \<not> trustedPluginArtifactKey key p then Inl EIntegrity
          else case readArtifactBytes get key limit of
            Inl _ \<Rightarrow> Inl EIntegrity
          | Inr body \<Rightarrow> if int (length body) \<noteq> len \<or> d \<noteq> ''sha256:'' @ sha256 r body then Inl EIntegrity else Inr body)"

definition pointerLimit :: "FileStore \<Rightarrow> string \<Rightarrow> int" where
  "pointerLimit fs filePath =
     (if filePath = ''skill/package.zip'' \<or> suffix ''/zip_object_key'' filePath \<or> suffix ''/file_url'' filePath
      then fs_MaxArchiveBytes fs else fs_MaxAttachmentBytes fs)"

definition versionFileBytes :: "Repo \<Rightarrow> FileStore \<Rightarrow> Plugin \<Rightarrow> raw \<Rightarrow> raw \<Rightarrow> string \<Rightarrow> PluginError + string" where
  "versionFileBytes r fs p pkg keys filePath =
     (case legacyVersionPointer r pkg filePath of
        Inl e \<Rightarrow> Inl e
      | Inr (Some (key, len, d)) \<Rightarrow> verifiedObject r fs p key (pointerLimit fs filePath) len d
      | Inr None \<Rightarrow>
          (case find (\<lambda>a. at_Path a = filePath) (decodePackageAttachments pkg) of
             None \<Rightarrow> Inl ENotFound
           | Some a \<Rightarrow>
               if at_ContentType a = ''raw'' then
                 (if int (length (at_RawContent a)) > fs_MaxAttachmentBytes fs then Inl ETooLarge else Inr (at_RawContent a))
               else if at_ContentType a \<noteq> ''storage'' then Inl EIntegrity
               else (let key = (case map_of (attachmentKeyMap keys) filePath of None \<Rightarrow> '''' | Some k \<Rightarrow> k) in
                 verifiedObject r fs p key (fs_MaxAttachmentBytes fs) (at_Size a) (at_Hash a))))"

section \<open>Verifying all files of a version\<close>

definition pointerFiles :: "string list" where
  "pointerFiles = [''skill/ref.json/object_key'', ''skill/ref.json/zip_object_key'', ''skill/ref.json/file_url'']"

fun verifyPointers ::
  "Repo \<Rightarrow> FileStore \<Rightarrow> Plugin \<Rightarrow> raw \<Rightarrow> raw \<Rightarrow> string list \<Rightarrow> int \<Rightarrow> PluginError + int" where
  "verifyPointers r fs p pkg keys [] tot = Inr tot"
| "verifyPointers r fs p pkg keys (f # rest) tot =
     (case legacyVersionPointer r pkg f of
        Inl e \<Rightarrow> Inl e
      | Inr None \<Rightarrow> verifyPointers r fs p pkg keys rest tot
      | Inr (Some _) \<Rightarrow>
          (case versionFileBytes r fs p pkg keys f of
             Inl e \<Rightarrow> Inl e
           | Inr body \<Rightarrow> if tot + int (length body) > fs_MaxArchiveBytes fs then Inl ETooLarge
               else verifyPointers r fs p pkg keys rest (tot + int (length body))))"

fun verifyAttachments ::
  "Repo \<Rightarrow> FileStore \<Rightarrow> Plugin \<Rightarrow> raw \<Rightarrow> raw \<Rightarrow> Attachment list \<Rightarrow> string list \<Rightarrow> int \<Rightarrow> PluginError + int" where
  "verifyAttachments r fs p pkg keys [] seen tot = Inr tot"
| "verifyAttachments r fs p pkg keys (a # rest) seen tot =
     (if at_Path a = '''' \<or> at_Path a \<in> set seen then Inl EIntegrity
      else case versionFileBytes r fs p pkg keys (at_Path a) of
        Inl e \<Rightarrow> Inl e
      | Inr body \<Rightarrow> if tot + int (length body) > fs_MaxArchiveBytes fs then Inl ETooLarge
          else verifyAttachments r fs p pkg keys rest (at_Path a # seen) (tot + int (length body)))"

definition verifyVersionFiles :: "Repo \<Rightarrow> FileStore \<Rightarrow> Plugin \<Rightarrow> raw \<Rightarrow> raw \<Rightarrow> PluginError + int" where
  "verifyVersionFiles r fs p pkg keys =
     (case attachmentsOf attachmentView pkg of
        None \<Rightarrow> Inl EIntegrity
      | Some attachments \<Rightarrow>
          (case verifyPointers r fs p pkg keys pointerFiles 0 of
             Inl e \<Rightarrow> Inl e
           | Inr tot \<Rightarrow> verifyAttachments r fs p pkg keys attachments [] tot))"

section \<open>What verified files are\<close>

text \<open>The bytes a storage object with a declared size and digest holds, under a key of the plugin's own namespace.\<close>

definition declaredBytes :: "Repo \<Rightarrow> FileStore \<Rightarrow> Plugin \<Rightarrow> string \<Rightarrow> int \<Rightarrow> string \<Rightarrow> string \<Rightarrow> bool" where
  "declaredBytes r fs p key len d body \<longleftrightarrow>
     Allows p key \<and> (\<exists>get. fs_Storage fs = Some get \<and> get key = Some body) \<and> len = int (length body) \<and> d = ''sha256:'' @ sha256 r body"

lemma verifiedObject_sound: "verifiedObject r fs p key limit len d = Inr body \<Longrightarrow> declaredBytes r fs p key len d body"
  by (auto simp: verifiedObject_def declaredBytes_def readArtifactBytes_def trustedPluginArtifactKey_def
      split: option.splits if_splits sum.splits)

lemma Allows_nonempty: "Allows p key \<Longrightarrow> key \<noteq> ''''"
  by (auto simp: Allows_def within_def split: option.splits)

lemma versionFileBytes_sound:
  assumes "versionFileBytes r fs p pkg keys f = Inr body"
  shows "(\<exists>key len d. legacyVersionPointer r pkg f = Inr (Some (key, len, d)) \<and> declaredBytes r fs p key len d body) \<or>
    (\<exists>a \<in> set (decodePackageAttachments pkg). at_Path a = f \<and>
       (at_ContentType a = ''raw'' \<and> body = at_RawContent a \<or>
        at_ContentType a = ''storage'' \<and> (\<exists>key. map_of (attachmentKeyMap keys) f = Some key \<and> declaredBytes r fs p key (at_Size a) (at_Hash a) body)))"
proof (cases "legacyVersionPointer r pkg f")
  case (Inl e)
  with assms show ?thesis by (simp add: versionFileBytes_def)
next
  case ptr: (Inr x)
  show ?thesis
  proof (cases x)
    case (Some y)
    obtain key len d where y: "y = (key, len, d)" by (cases y)
    with assms ptr Some have "verifiedObject r fs p key (pointerLimit fs f) len d = Inr body" by (simp add: versionFileBytes_def)
    with ptr Some y show ?thesis using verifiedObject_sound by blast
  next
    case None
    with assms ptr obtain a where a: "find (\<lambda>a. at_Path a = f) (decodePackageAttachments pkg) = Some a"
      by (auto simp: versionFileBytes_def split: option.splits)
    then have mem: "a \<in> set (decodePackageAttachments pkg)" "at_Path a = f" by (auto simp: find_Some_iff in_set_conv_nth)
    show ?thesis
    proof (cases "at_ContentType a = ''raw''")
      case True
      with assms ptr None a have "body = at_RawContent a" by (simp add: versionFileBytes_def split: if_splits)
      with True mem show ?thesis by blast
    next
      case False
      let ?key = "case map_of (attachmentKeyMap keys) f of None \<Rightarrow> '''' | Some k \<Rightarrow> k"
      from False assms ptr None a have storage: "at_ContentType a = ''storage''"
        and ver: "verifiedObject r fs p ?key (fs_MaxAttachmentBytes fs) (at_Size a) (at_Hash a) = Inr body"
        by (simp_all add: versionFileBytes_def Let_def split: if_splits)
      from verifiedObject_sound [OF ver] have dec: "declaredBytes r fs p ?key (at_Size a) (at_Hash a) body" .
      then have "?key \<noteq> ''''" by (auto simp: declaredBytes_def dest: Allows_nonempty)
      then obtain key where "map_of (attachmentKeyMap keys) f = Some key" by (cases "map_of (attachmentKeyMap keys) f") auto
      with dec storage mem show ?thesis by auto
    qed
  qed
qed

lemma verifyPointers_sound:
  "verifyPointers r fs p pkg keys files tot = Inr n \<Longrightarrow> tot \<le> n \<and> (n = tot \<or> n \<le> fs_MaxArchiveBytes fs) \<and>
     (\<forall>f \<in> set files. legacyVersionPointer r pkg f = Inr None \<or> (\<exists>body. versionFileBytes r fs p pkg keys f = Inr body))"
proof (induction files arbitrary: tot)
  case Nil
  then show ?case by simp
next
  case (Cons f files)
  show ?case
  proof (cases "legacyVersionPointer r pkg f")
    case (Inl e)
    with Cons.prems show ?thesis by simp
  next
    case (Inr x)
    show ?thesis
    proof (cases x)
      case None
      with Cons.prems Inr have "verifyPointers r fs p pkg keys files tot = Inr n" by simp
      from Cons.IH [OF this] Inr None show ?thesis by auto
    next
      case (Some y)
      with Cons.prems Inr obtain body where body: "versionFileBytes r fs p pkg keys f = Inr body"
        and small: "tot + int (length body) \<le> fs_MaxArchiveBytes fs"
        and rest: "verifyPointers r fs p pkg keys files (tot + int (length body)) = Inr n"
        by (auto split: sum.splits if_splits)
      from Cons.IH [OF rest] body small show ?thesis by auto
    qed
  qed
qed

lemma verifyAttachments_sound:
  "verifyAttachments r fs p pkg keys as seen tot = Inr n \<Longrightarrow>
     distinct (map at_Path as) \<and> set (map at_Path as) \<inter> insert '''' (set seen) = {} \<and>
     (\<exists>bodies. map Inr bodies = map (\<lambda>a. versionFileBytes r fs p pkg keys (at_Path a)) as \<and> n = tot + int (length (concat bodies))) \<and>
     (as = [] \<or> n \<le> fs_MaxArchiveBytes fs)"
proof (induction as arbitrary: seen tot)
  case Nil
  then show ?case by simp
next
  case (Cons a as)
  from Cons.prems obtain body where fresh: "at_Path a \<noteq> ''''" "at_Path a \<notin> set seen"
    and body: "versionFileBytes r fs p pkg keys (at_Path a) = Inr body"
    and small: "tot + int (length body) \<le> fs_MaxArchiveBytes fs"
    and rest: "verifyAttachments r fs p pkg keys as (at_Path a # seen) (tot + int (length body)) = Inr n"
    by (auto split: sum.splits if_splits)
  from Cons.IH [OF rest] obtain bodies where ih: "distinct (map at_Path as)" "set (map at_Path as) \<inter> insert '''' (set (at_Path a # seen)) = {}"
    "map Inr bodies = map (\<lambda>a. versionFileBytes r fs p pkg keys (at_Path a)) as"
    "n = tot + int (length body) + int (length (concat bodies))" "as = [] \<or> n \<le> fs_MaxArchiveBytes fs" by blast
  have "map Inr (body # bodies) = map (\<lambda>a. versionFileBytes r fs p pkg keys (at_Path a)) (a # as)" using ih(3) body by simp
  moreover have "n = tot + int (length (concat (body # bodies)))" using ih(4) by simp
  moreover have "n \<le> fs_MaxArchiveBytes fs" using ih small by auto
  moreover have "distinct (map at_Path (a # as))" "set (map at_Path (a # as)) \<inter> insert '''' (set seen) = {}" using ih fresh by auto
  ultimately show ?case by blast
qed


definition sampleFiles :: FileStore where
  "sampleFiles = \<lparr>fs_Storage = Some (\<lambda>k. if k = ''plugins/s1/attachments/a.bin'' then Some ''hi'' else None),
     fs_MaxAttachmentBytes = 10, fs_MaxArchiveBytes = 20\<rparr>"

definition filedPackage :: raw where
  "filedPackage = Some (JObj [(''attachments'', JArr
     [JObj [(''path'', JStr ''SKILL.md''), (''content_type'', JStr ''raw''), (''raw_content'', JStr ''text'')],
      JObj [(''path'', JStr ''a.bin''), (''content_type'', JStr ''storage''), (''content_size'', JNum 2), (''content_hash'', JStr ''sha256:hi'')]])])"

definition filedKeys :: raw where
  "filedKeys = Some (JObj [(''a.bin'', JStr ''plugins/s1/attachments/a.bin'')])"


end
