(* ===== verification/Decisions.thy ===== *)
theory Decisions
  imports System Reads Files "HOL-Library.AList"
begin

text \<open>
  Review decisions in the service layer (\<open>service/plugin/review.go\<close>, \<open>review_policy.go\<close>, the takedown of
  \<open>listing.go\<close> and \<open>approveWithVersionFiles\<close> of \<open>version_management.go\<close>): the decisions of the web surface, the
  automatic approval with its compensation, the cleanup of storage objects, and the idempotent callback of
  an approval card.

  A service method is a sequence of statements, each of which reads the store or commits one transaction of
  the repository. Between two statements other requests may commit: \<open>sv_Others\<close> is what happened before the
  \<open>n\<close>-th statement. A statement can fail, and the answer of a transaction can be lost after it was committed
  (\<open>sv_Outcome\<close>). The log of a run keeps its own commits and what it asked of the object store, the parse
  tasks and the notifier, in order. The role service of the messaging server is \<open>sv_MemberRole\<close>.
\<close>

section \<open>Service runs\<close>

datatype Outcome = Works | Fails | Lost

datatype Event = Commit Store Store | DeleteObject string | ReleaseParseTask string | DispatchReviewCard string

record World =
  w_Store :: Store
  w_Turn :: nat
  w_Log :: "Event list"

record Service =
  sv_Repo :: Repo
  sv_VersionManagement :: bool
  sv_Files :: FileStore
  sv_RoleEnabled :: bool
  sv_MemberRole :: "string \<Rightarrow> string \<Rightarrow> PluginError + int option"
  sv_ParseTasks :: bool
  sv_Now :: "nat \<Rightarrow> time"
  sv_Others :: "nat \<Rightarrow> Store \<Rightarrow> Store"
  sv_Outcome :: "nat \<Rightarrow> Outcome"

type_synonym 'a run = "World \<Rightarrow> (PluginError + 'a) \<times> World"

definition returnW :: "'a \<Rightarrow> 'a run" where
  "returnW a = (\<lambda>w. (Inr a, w))"

definition failW :: "PluginError \<Rightarrow> 'a run" where
  "failW e = (\<lambda>w. (Inl e, w))"

definition bindW :: "'a run \<Rightarrow> ('a \<Rightarrow> 'b run) \<Rightarrow> 'b run" where
  "bindW m f = (\<lambda>w. case m w of (Inl e, w') \<Rightarrow> (Inl e, w') | (Inr a, w') \<Rightarrow> f a w')"

definition liftW :: "PluginError + 'a \<Rightarrow> 'a run" where
  "liftW x = (\<lambda>w. (x, w))"

definition tryW :: "'a run \<Rightarrow> (PluginError + 'a) run" where
  "tryW m = (\<lambda>w. case m w of (x, w') \<Rightarrow> (Inr x, w'))"

definition mapErrorW :: "(PluginError \<Rightarrow> PluginError) \<Rightarrow> 'a run \<Rightarrow> 'a run" where
  "mapErrorW g m = (\<lambda>w. case m w of (Inl e, w') \<Rightarrow> (Inl (g e), w') | (Inr a, w') \<Rightarrow> (Inr a, w'))"

definition guardW :: "bool \<Rightarrow> PluginError \<Rightarrow> unit run" where
  "guardW b e = (if b then failW e else returnW ())"

definition arrive :: "Service \<Rightarrow> World \<Rightarrow> World" where
  "arrive sv w = w\<lparr>w_Store := sv_Others sv (w_Turn w) (w_Store w), w_Turn := Suc (w_Turn w)\<rparr>"

definition readW :: "Service \<Rightarrow> (Store \<Rightarrow> RepoError + 'a) \<Rightarrow> 'a run" where
  "readW sv f = (\<lambda>w. let w1 = arrive sv w in
     (if sv_Outcome sv (w_Turn w) = Works then map_sum ERepo id (f (w_Store w1)) else Inl EDriver, w1))"

definition commitW :: "Service \<Rightarrow> 'a stx \<Rightarrow> 'a run" where
  "commitW sv m = (\<lambda>w. let w1 = arrive sv w in
     if sv_Outcome sv (w_Turn w) = Fails then (Inl EDriver, w1)
     else case m (w_Store w1) of
       Inl e \<Rightarrow> (Inl (ERepo e), w1)
     | Inr (a, t) \<Rightarrow> (if sv_Outcome sv (w_Turn w) = Lost then Inl EDriver else Inr a,
         w1\<lparr>w_Store := t, w_Log := w_Log w1 @ [Commit (w_Store w1) t]\<rparr>))"

definition tellW :: "Event list \<Rightarrow> unit run" where
  "tellW es = (\<lambda>w. (Inr (), w\<lparr>w_Log := w_Log w @ es\<rparr>))"

definition clockW :: "Service \<Rightarrow> time run" where
  "clockW sv = (\<lambda>w. (Inr (sv_Now sv (w_Turn w)), w))"

section \<open>Callers\<close>

record Caller =
  c_UID :: string
  c_Name :: string
  c_SpaceID :: string
  c_BotUID :: string
  c_BotName :: string
  c_RequestID :: string
  c_IsSystemAdmin :: bool
  c_SpaceRole :: int

definition validateCaller :: "Caller \<Rightarrow> unit run" where
  "validateCaller c = guardW (trimSpace (c_UID c) = '''' \<or> trimSpace (c_SpaceID c) = '''') EInvalidRequest"

definition scope :: "Caller \<Rightarrow> Scope" where
  "scope c = \<lparr>s_CallerUID = c_UID c, s_SpaceID = c_SpaceID c, s_Admin = False\<rparr>"

definition isReviewer :: "Caller \<Rightarrow> bool" where
  "isReviewer c \<longleftrightarrow> c_IsSystemAdmin c \<or> SpaceRoleAdmin \<le> c_SpaceRole c"

definition maxRejectReasonRunes :: nat where
  "maxRejectReasonRunes = 1000"

section \<open>Decisions on the web\<close>

text \<open>\<open>GetWithRelations\<close> as two statements; the relations are not used.\<close>

definition verifyFrozenFiles :: "Service \<Rightarrow> Scope \<Rightarrow> string \<Rightarrow> unit run" where
  "verifyFrozenFiles sv sc reviewID =
     bindW (readW sv (\<lambda>s. LoadReviewSnapshot s sc reviewID True)) (\<lambda>rr.
     let own = \<lparr>s_CallerUID = rr_ApplicantUID rr, s_SpaceID = rr_SpaceID rr, s_Admin = False\<rparr> in
     bindW (readW sv (\<lambda>s. Get s own (rr_PluginID rr))) (\<lambda>p.
     bindW (readW sv (\<lambda>s. Inr (edgeRows s own (\<lambda>i. i = rr_PluginID rr)))) (\<lambda>_.
     if p_Type p \<noteq> PluginTypeConnector
     then bindW (liftW (verifyVersionFiles (sv_Repo sv) (sv_Files sv) p (rr_Package rr) (rr_AttachmentKeys rr))) (\<lambda>_. returnW ())
     else returnW ())))"

definition approveWithVersionFiles :: "Service \<Rightarrow> Scope \<Rightarrow> ApproveReviewParams \<Rightarrow> Plugin run" where
  "approveWithVersionFiles sv sc params =
     bindW (if sv_VersionManagement sv then verifyFrozenFiles sv sc (ap_ReviewID params) else returnW ())
     (\<lambda>_. commitW sv (ApproveReview (sv_Repo sv) sc params))"

definition orphanedKeys :: "raw \<Rightarrow> string list \<Rightarrow> string list" where
  "orphanedKeys frozenKeys retained =
     filter (\<lambda>k. k \<noteq> '''' \<and> k \<notin> set retained) (map snd (AList.clearjunk (attachmentKeyMap frozenKeys)))"

definition cleanupOrphanedReviewObjects :: "raw \<Rightarrow> string list \<Rightarrow> unit run" where
  "cleanupOrphanedReviewObjects frozenKeys retained = tellW (map DeleteObject (orphanedKeys frozenKeys retained))"

definition ServiceApproveReview :: "Service \<Rightarrow> Caller \<Rightarrow> string \<Rightarrow> Plugin run" where
  "ServiceApproveReview sv caller reviewID0 =
     bindW (validateCaller caller) (\<lambda>_.
     let reviewID = trimSpace reviewID0 in
     bindW (guardW (reviewID = '''') EReviewInvalid) (\<lambda>_.
     bindW (guardW (\<not> isReviewer caller) EReviewForbidden) (\<lambda>_.
     mapErrorW mapStoreError (approveWithVersionFiles sv (scope caller)
       \<lparr>ap_CardReceipt = None, ap_ReviewID = reviewID, ap_ReviewerUID = c_UID caller, ap_ReviewerName = c_Name caller,
        ap_DecisionSource = Some ReviewDecisionSourceWeb, ap_RequestID = c_RequestID caller, ap_Now = 0\<rparr>))))"

definition ServiceRejectReview :: "Service \<Rightarrow> Caller \<Rightarrow> string \<Rightarrow> string \<Rightarrow> unit run" where
  "ServiceRejectReview sv caller reviewID0 reason0 =
     bindW (validateCaller caller) (\<lambda>_.
     let reviewID = trimSpace reviewID0; reason = trimSpace reason0 in
     bindW (guardW (reviewID = '''') EReviewInvalid) (\<lambda>_.
     bindW (guardW (reason = '''') EReasonRequired) (\<lambda>_.
     bindW (guardW (maxRejectReasonRunes < runeLen reason) EReviewInvalid) (\<lambda>_.
     bindW (guardW (\<not> isReviewer caller) EReviewForbidden) (\<lambda>_.
     bindW (mapErrorW mapStoreError (commitW sv (RejectReview (sv_Repo sv) (scope caller)
       \<lparr>rj_CardReceipt = None, rj_ReviewID = reviewID, rj_ReviewerUID = c_UID caller, rj_ReviewerName = c_Name caller,
        rj_Reason = reason, rj_DecisionSource = Some ReviewDecisionSourceWeb, rj_RequestID = c_RequestID caller, rj_Now = 0\<rparr>)))
     (\<lambda>(frozenKeys, retained). cleanupOrphanedReviewObjects frozenKeys retained))))))"

definition ServiceCancelReview :: "Service \<Rightarrow> Caller \<Rightarrow> string \<Rightarrow> unit run" where
  "ServiceCancelReview sv caller reviewID0 =
     bindW (validateCaller caller) (\<lambda>_.
     let reviewID = trimSpace reviewID0 in
     bindW (guardW (reviewID = '''') EReviewInvalid) (\<lambda>_.
     bindW (mapErrorW mapStoreError (commitW sv (CancelReview (sv_Repo sv) (scope caller) reviewID (c_UID caller))))
     (\<lambda>(frozenKeys, retained). cleanupOrphanedReviewObjects frozenKeys retained)))"

definition manifestDescription :: "raw \<Rightarrow> string" where
  "manifestDescription manifest = (case manifest of None \<Rightarrow> '''' | Some v \<Rightarrow> stringOr '''' (structField ''description'' v))"

definition frozenReadmePaths :: "string list" where
  "frozenReadmePaths = [''SKILL.md'', ''README.md'', ''AGENTS.md'']"

definition frozenReadme :: "raw \<Rightarrow> raw \<Rightarrow> string" where
  "frozenReadme pkg manifest =
     (case List.map_filter (\<lambda>path. case rawAttachmentContent pkg path of
          None \<Rightarrow> None | Some content \<Rightarrow> if trimSpace content = '''' then None else Some content) frozenReadmePaths of
        [] \<Rightarrow> manifestDescription manifest
      | content # _ \<Rightarrow> content)"

text \<open>A request is read with the text to review; the address of its icon is not part of the model.\<close>

definition ServiceGetReview :: "Service \<Rightarrow> Caller \<Rightarrow> string \<Rightarrow> (PluginReviewRequest \<times> string) run" where
  "ServiceGetReview sv caller reviewID0 =
     bindW (validateCaller caller) (\<lambda>_.
     let reviewID = trimSpace reviewID0 in
     bindW (guardW (reviewID = '''') EReviewInvalid) (\<lambda>_.
     bindW (mapErrorW mapStoreError (readW sv (\<lambda>s. LoadReviewSnapshot s (scope caller) reviewID (isReviewer caller)))) (\<lambda>rr.
     returnW (rr, frozenReadme (rr_Package rr) (rr_Manifest rr)))))"

definition ServiceListReviews ::
  "Service \<Rightarrow> Caller \<Rightarrow> string \<Rightarrow> ReviewStatus option \<Rightarrow> int \<Rightarrow> int \<Rightarrow> (PluginReviewRequest list \<times> nat) run" where
  "ServiceListReviews sv caller mode status page0 pageSize0 =
     bindW (validateCaller caller) (\<lambda>_.
     let pageSize = (if pageSize0 \<le> 0 \<or> pageSize0 > 100 then 20 else pageSize0); page = (if page0 < 1 then 1 else page0);
         f = (\<lambda>uid. \<lparr>lf_SpaceID = c_SpaceID caller, lf_ApplicantUID = uid, lf_Status = status, lf_Limit = pageSize,
                lf_Offset = (page - 1) * pageSize\<rparr>) in
     if mode = ''mine'' then mapErrorW mapStoreError (readW sv (\<lambda>s. Inr (ListReviewRequests s (f (c_UID caller)))))
     else if mode = ''space'' then
       bindW (guardW (\<not> isReviewer caller) EReviewForbidden) (\<lambda>_.
       mapErrorW mapStoreError (readW sv (\<lambda>s. Inr (ListReviewRequests s (f '''')))))
     else failW EReviewInvalid)"

definition ServiceGetReviewPolicy :: "Service \<Rightarrow> Caller \<Rightarrow> (bool \<times> time option) run" where
  "ServiceGetReviewPolicy sv caller =
     bindW (validateCaller caller) (\<lambda>_. mapErrorW mapStoreError (readW sv (\<lambda>s. Inr (GetReviewPolicy s (scope caller)))))"

definition UpdateReviewPolicy :: "Service \<Rightarrow> Caller \<Rightarrow> bool \<Rightarrow> (bool \<times> time option) run" where
  "UpdateReviewPolicy sv caller enabled =
     bindW (validateCaller caller) (\<lambda>_.
     bindW (guardW (c_SpaceRole caller < SpaceRoleAdmin) EReviewPolicyForbidden) (\<lambda>_.
     mapErrorW mapStoreError (commitW sv (UpsertReviewPolicy (sv_Repo sv) (scope caller) enabled (c_UID caller) (c_Name caller)))))"

definition Delist :: "Service \<Rightarrow> Caller \<Rightarrow> string \<Rightarrow> string \<Rightarrow> Plugin run" where
  "Delist sv caller pluginID0 reason0 =
     bindW (validateCaller caller) (\<lambda>_.
     let pluginID = trimSpace pluginID0; reason = trimSpace reason0 in
     bindW (guardW (pluginID = '''') EInvalidRequest) (\<lambda>_.
     bindW (guardW (maxRejectReasonRunes < runeLen reason) (EReviewField ''reason'' ''too_long'')) (\<lambda>_.
     bindW (guardW (\<not> isReviewer caller) EReviewForbidden) (\<lambda>_.
     mapErrorW (\<lambda>e. if e = ERepo ErrConflict then ENotPublished else mapStoreError e)
       (commitW sv (DelistPlugin (sv_Repo sv) (scope caller)
         \<lparr>dp_PluginID = pluginID, dp_Operator = \<lparr>o_OperatorID = c_UID caller, o_OperatorName = c_Name caller,
            o_RequestID = c_RequestID caller, o_Remark = None\<rparr>, dp_Reason = reason\<rparr>))))))"

section \<open>Automatic approval\<close>

text \<open>The request was just submitted; the approval is a second transaction. A card is dispatched when the
  request may still be pending after the compensation failed.\<close>

definition autoApproveReview :: "Service \<Rightarrow> Caller \<Rightarrow> PluginReviewRequest \<Rightarrow> string \<Rightarrow> Plugin run" where
  "autoApproveReview sv caller review parseTaskID =
     bindW (tryW (approveWithVersionFiles sv (scope caller)
       \<lparr>ap_CardReceipt = None, ap_ReviewID = rr_ID review, ap_ReviewerUID = c_UID caller, ap_ReviewerName = c_Name caller,
        ap_DecisionSource = Some ReviewDecisionSourcePolicy, ap_RequestID = c_RequestID caller, ap_Now = 0\<rparr>))
     (\<lambda>approved. case approved of
        Inr published \<Rightarrow> returnW published
      | Inl approveErr \<Rightarrow>
          bindW (tryW (commitW sv (CancelReview (sv_Repo sv) (scope caller) (rr_ID review) (c_UID caller))))
          (\<lambda>canceled. case canceled of
             Inl cancelErr \<Rightarrow> bindW (tellW [DispatchReviewCard (rr_ID review)]) (\<lambda>_. failW (mapStoreError approveErr))
           | Inr (frozenKeys, retained) \<Rightarrow>
               bindW (cleanupOrphanedReviewObjects frozenKeys retained) (\<lambda>_.
               bindW (if trimSpace parseTaskID \<noteq> '''' \<and> sv_ParseTasks sv then tellW [ReleaseParseTask (trimSpace parseTaskID)]
                      else returnW ())
               (\<lambda>_. failW (mapStoreError approveErr)))))"

section \<open>The card protocol\<close>

record CardActionResult =
  ca_Disposition :: string
  ca_State :: string
  ca_Requester :: string
  ca_Display :: "(string \<times> string) list"

definition cardState :: "ReviewStatus \<Rightarrow> string" where
  "cardState status =
     (case status of ReviewStatusApproved \<Rightarrow> ''approved'' | ReviewStatusRejected \<Rightarrow> ''denied''
        | ReviewStatusCanceled \<Rightarrow> ''cancelled'' | _ \<Rightarrow> ''pending'')"

text \<open>The stored response: the answer with the operator it is bound to. Empty members are omitted.\<close>

definition storedCardAction :: "CardActionResult \<Rightarrow> string \<Rightarrow> json" where
  "storedCardAction res operatorUID = JObj
     ([(''disposition'', JStr (ca_Disposition res)), (''state'', JStr (ca_State res))] @
      (if ca_Requester res = '''' then [] else [(''requester_uid'', JStr (ca_Requester res))]) @
      (if ca_Display res = [] then [] else [(''display'', JObj (map (\<lambda>(k, v). (k, JStr v)) (ca_Display res)))]) @
      (if operatorUID = '''' then [] else [(''_operator_uid'', JStr operatorUID)]))"

text \<open>A Go map is an association list without repetition; the last of repeated members decides.\<close>

definition displayOf :: "json option \<Rightarrow> (string \<times> string) list option" where
  "displayOf v =
     (case v of
        None \<Rightarrow> Some []
      | Some x \<Rightarrow> if snd (stringMap x) then Some (rev (AList.clearjunk (fst (stringMap x)))) else None)"

definition decodeStored :: "raw \<Rightarrow> (CardActionResult \<times> string) option" where
  "decodeStored doc =
     (case doc of
        Some JNull \<Rightarrow> Some (\<lparr>ca_Disposition = '''', ca_State = '''', ca_Requester = '''', ca_Display = []\<rparr>, '''')
      | Some (JObj kvs) \<Rightarrow>
          (case (strictString (structField ''disposition'' (JObj kvs)), strictString (structField ''state'' (JObj kvs)),
                 strictString (structField ''requester_uid'' (JObj kvs)), displayOf (structField ''display'' (JObj kvs)),
                 strictString (structField ''_operator_uid'' (JObj kvs))) of
             (Some d, Some st, Some who, Some shown, Some op) \<Rightarrow>
               Some (\<lparr>ca_Disposition = d, ca_State = st, ca_Requester = who, ca_Display = shown\<rparr>, op)
           | _ \<Rightarrow> None)
      | _ \<Rightarrow> None)"

definition cardActionReceipt ::
  "string \<Rightarrow> string \<Rightarrow> string \<Rightarrow> string \<Rightarrow> CardActionResult \<Rightarrow> time \<Rightarrow> CardActionReceipt" where
  "cardActionReceipt eventID reviewID decision operatorUID res t =
     \<lparr>cr_EventID = eventID, cr_StoredResponse = Some (storedCardAction res operatorUID), cr_ReviewID = reviewID,
      cr_Decision = decision, cr_CreatedAt = t\<rparr>"

definition decodeCardActionReceipt ::
  "CardActionReceipt \<Rightarrow> string \<Rightarrow> string \<Rightarrow> string \<Rightarrow> PluginError + CardActionResult" where
  "decodeCardActionReceipt rec reviewID decision operatorUID =
     (if cr_ReviewID rec \<noteq> reviewID \<or> cr_Decision rec \<noteq> decision then Inl ECardBadDecision
      else case decodeStored (cr_StoredResponse rec) of
        None \<Rightarrow> Inl EBadReceipt
      | Some (res, who) \<Rightarrow> if who \<noteq> '''' \<and> who \<noteq> operatorUID then Inl ECardBadDecision else Inr res)"

definition replayCardAction :: "Service \<Rightarrow> string \<Rightarrow> string \<Rightarrow> string \<Rightarrow> string \<Rightarrow> CardActionResult run" where
  "replayCardAction sv eventID reviewID decision operatorUID =
     bindW (readW sv (\<lambda>s. Inr (GetCardActionReceipt s eventID))) (\<lambda>existing.
     case existing of
       None \<Rightarrow> failW EReceiptUnavailable
     | Some rec \<Rightarrow> liftW (decodeCardActionReceipt rec reviewID decision operatorUID))"

text \<open>The name of the plugin is joined by the statement that reads the request.\<close>

definition cardRequest :: "Store \<Rightarrow> string \<Rightarrow> RepoError + (PluginReviewRequest \<times> string)" where
  "cardRequest s reviewID =
     map_sum id (\<lambda>q. (q, case find (\<lambda>p. p_ID p = rr_PluginID q \<and> p_DeletedAt p = None) (plugins s) of
       None \<Rightarrow> '''' | Some p \<Rightarrow> p_Name p)) (GetReviewRequestAnySpace s reviewID)"

definition cardResult :: "string \<Rightarrow> string \<Rightarrow> PluginReviewRequest \<Rightarrow> string \<Rightarrow> CardActionResult" where
  "cardResult disposition st q name =
     \<lparr>ca_Disposition = disposition, ca_State = st, ca_Requester = rr_ApplicantUID q, ca_Display = [(''title'', name)]\<rparr>"

definition cardConflict :: "Service \<Rightarrow> PluginReviewRequest \<Rightarrow> string \<Rightarrow> CardActionResult run" where
  "cardConflict sv q name =
     bindW (tryW (readW sv (\<lambda>s. cardRequest s (rr_ID q)))) (\<lambda>reread.
     case reread of
       Inl e \<Rightarrow> if e = ERepo ErrNotFound then returnW (cardResult ''not_found'' ''cancelled'' q name) else failW e
     | Inr (cur, curName) \<Rightarrow> returnW (cardResult ''conflict'' (cardState (rr_Status cur)) cur curName))"

definition operatorRole :: "Service \<Rightarrow> string \<Rightarrow> string \<Rightarrow> int option run" where
  "operatorRole sv spaceID uid = (if sv_RoleEnabled sv then liftW (sv_MemberRole sv spaceID uid) else failW ERoleUnavailable)"

definition DefaultIMDenyReason :: string where
  "DefaultIMDenyReason =
     [CHR 0xE7, CHR 0xAE, CHR 0xA1, CHR 0xE7, CHR 0x90, CHR 0x86, CHR 0xE5, CHR 0x91, CHR 0x98, CHR 0xE5,
     CHR 0x9C, CHR 0xA8, CHR 0xE6, CHR 0xB6, CHR 0x88, CHR 0xE6, CHR 0x81, CHR 0xAF, CHR 0xE5, CHR 0x8D,
     CHR 0xA1, CHR 0xE7, CHR 0x89, CHR 0x87, CHR 0xE4, CHR 0xB8, CHR 0xAD, CHR 0xE6, CHR 0x8B, CHR 0x92,
     CHR 0xE7, CHR 0xBB, CHR 0x9D, CHR 0x2C, CHR 0xE6, CHR 0x9C, CHR 0xAA, CHR 0xE5, CHR 0xA1, CHR 0xAB,
     CHR 0xE5, CHR 0x86, CHR 0x99, CHR 0xE5, CHR 0x8E, CHR 0x9F, CHR 0xE5, CHR 0x9B, CHR 0xA0]"

text \<open>The decision itself, in the Space of the request, with the receipt committed in its transaction.\<close>

definition applyCardDecision ::
  "Service \<Rightarrow> string \<Rightarrow> string \<Rightarrow> string \<Rightarrow> PluginReviewRequest \<Rightarrow> CardActionReceipt \<Rightarrow> unit run" where
  "applyCardDecision sv operatorUID decision reviewID q receipt =
     (let sc = \<lparr>s_CallerUID = operatorUID, s_SpaceID = rr_SpaceID q, s_Admin = False\<rparr> in
      if decision = ''approve'' then
        bindW (approveWithVersionFiles sv sc
          \<lparr>ap_CardReceipt = Some receipt, ap_ReviewID = reviewID, ap_ReviewerUID = operatorUID, ap_ReviewerName = operatorUID,
           ap_DecisionSource = Some ReviewDecisionSourceIM, ap_RequestID = '''', ap_Now = 0\<rparr>) (\<lambda>_. returnW ())
      else
        bindW (commitW sv (RejectReview (sv_Repo sv) sc
          \<lparr>rj_CardReceipt = Some receipt, rj_ReviewID = reviewID, rj_ReviewerUID = operatorUID, rj_ReviewerName = operatorUID,
           rj_Reason = DefaultIMDenyReason, rj_DecisionSource = Some ReviewDecisionSourceIM, rj_RequestID = '''', rj_Now = 0\<rparr>))
        (\<lambda>(frozenKeys, retained). cleanupOrphanedReviewObjects frozenKeys retained))"

definition refusedCard :: "Service \<Rightarrow> PluginReviewRequest \<Rightarrow> string \<Rightarrow> PluginError \<Rightarrow> CardActionResult run" where
  "refusedCard sv q name err =
     (case mapStoreError err of
        ENotFound \<Rightarrow> returnW (cardResult ''not_found'' ''cancelled'' q name)
      | EConflict \<Rightarrow> cardConflict sv q name
      | EVersionRegressed \<Rightarrow> returnW ((cardResult ''forbidden'' ''pending'' q name)
          \<lparr>ca_Display := [(''reason'', ''version_moved_past_resubmit_required''), (''title'', name)]\<rparr>)
      | ELabelTaken \<Rightarrow> returnW ((cardResult ''forbidden'' ''pending'' q name)
          \<lparr>ca_Display := [(''reason'', ''version_label_taken_resubmit_required''), (''title'', name)]\<rparr>)
      | mapped \<Rightarrow> failW mapped)"

definition decideCardAction :: "Service \<Rightarrow> string \<Rightarrow> string \<Rightarrow> string \<Rightarrow> string \<Rightarrow> CardActionResult run" where
  "decideCardAction sv eventID operatorUID decision reviewID =
     bindW (tryW (readW sv (\<lambda>s. cardRequest s reviewID))) (\<lambda>loaded.
     case loaded of
       Inl e \<Rightarrow>
         if mapStoreError e = ENotFound
         then returnW \<lparr>ca_Disposition = ''not_found'', ca_State = ''cancelled'', ca_Requester = '''', ca_Display = []\<rparr>
         else failW (mapStoreError e)
     | Inr (q, name) \<Rightarrow>
         bindW (operatorRole sv (rr_SpaceID q) operatorUID) (\<lambda>role.
         if role = None \<or> the role < SpaceRoleAdmin
         then returnW \<lparr>ca_Disposition = ''forbidden'', ca_State = ''pending'', ca_Requester = '''', ca_Display = []\<rparr>
         else if rr_Status q \<noteq> ReviewStatusPending then cardConflict sv q name
         else
           let res = cardResult ''applied'' (if decision = ''deny'' then ''denied'' else ''approved'') q name in
           bindW (clockW sv) (\<lambda>t.
           bindW (tryW (applyCardDecision sv operatorUID decision reviewID q
              (cardActionReceipt eventID reviewID decision operatorUID res t))) (\<lambda>applied.
           case applied of Inl e \<Rightarrow> refusedCard sv q name e | Inr _ \<Rightarrow> returnW res))))"

text \<open>An answer that is not an applied decision is made durable before it is given.\<close>

definition keepCardAnswer :: "Service \<Rightarrow> string \<Rightarrow> string \<Rightarrow> string \<Rightarrow> string \<Rightarrow> CardActionResult \<Rightarrow> CardActionResult run" where
  "keepCardAnswer sv eventID operatorUID decision reviewID res =
     (if ca_Disposition res = ''applied'' then returnW res
      else
        bindW (clockW sv) (\<lambda>t.
        bindW (tryW (commitW sv (InsertCardActionReceipt (sv_Repo sv) (cardActionReceipt eventID reviewID decision operatorUID res t))))
        (\<lambda>kept. case kept of
           Inl e \<Rightarrow> if e = ERepo ErrConflict then replayCardAction sv eventID reviewID decision operatorUID else failW e
         | Inr _ \<Rightarrow> returnW res)))"

definition DecideReviewFromCard :: "Service \<Rightarrow> string \<Rightarrow> string \<Rightarrow> string \<Rightarrow> string \<Rightarrow> CardActionResult run" where
  "DecideReviewFromCard sv eventID0 operatorUID0 decision0 reviewID0 =
     (let eventID = trimSpace eventID0; operatorUID = trimSpace operatorUID0; reviewID = trimSpace reviewID0;
          decision = trimSpace decision0 in
      bindW (guardW (eventID = '''' \<or> operatorUID = '''' \<or> reviewID = '''') ECardBadDecision) (\<lambda>_.
      bindW (guardW (decision \<noteq> ''approve'' \<and> decision \<noteq> ''deny'') ECardBadDecision) (\<lambda>_.
      bindW (readW sv (\<lambda>s. Inr (GetCardActionReceipt s eventID))) (\<lambda>existing.
      case existing of
        Some rec \<Rightarrow> liftW (decodeCardActionReceipt rec reviewID decision operatorUID)
      | None \<Rightarrow>
          bindW (tryW (decideCardAction sv eventID operatorUID decision reviewID)) (\<lambda>decided.
          case decided of
            Inl e \<Rightarrow> if e = ERepo ErrCardActionReplayed then replayCardAction sv eventID reviewID decision operatorUID else failW e
          | Inr res \<Rightarrow> keepCardAnswer sv eventID operatorUID decision reviewID res)))))"

section \<open>Runs and relations on worlds\<close>

definition runs :: "(World \<Rightarrow> World \<Rightarrow> bool) \<Rightarrow> 'a run \<Rightarrow> bool" where
  "runs R m \<longleftrightarrow> (\<forall>w. R w (snd (m w)))"

lemma runsD: "runs R m \<Longrightarrow> m w = (x, w') \<Longrightarrow> R w w'"
  by (metis runs_def snd_conv)

locale run_frame =
  fixes R :: "World \<Rightarrow> World \<Rightarrow> bool"
  assumes run_refl: "R w w" and run_trans: "R u v \<Longrightarrow> R v w \<Longrightarrow> R u w"
begin

lemma runs_pure: "runs R (returnW a)" "runs R (failW e)" "runs R (liftW x)" "runs R (guardW b e)" "runs R (clockW sv)"
  by (simp_all add: runs_def returnW_def failW_def liftW_def guardW_def clockW_def run_refl)

lemma runs_bind: "runs R m \<Longrightarrow> (\<And>a. runs R (f a)) \<Longrightarrow> runs R (bindW m f)"
proof (unfold runs_def, rule allI)
  fix w assume m: "\<forall>w. R w (snd (m w))" and f: "\<And>a. \<forall>w. R w (snd (f a w))"
  obtain x w1 where x: "m w = (x, w1)" by (cases "m w")
  with m have "R w w1" by (metis snd_conv)
  with x f show "R w (snd (bindW m f w))" by (cases x) (auto simp: bindW_def intro: run_trans)
qed

lemma runs_bind_result:
  assumes m: "runs R m" and f: "\<And>a w w'. m w = (Inr a, w') \<Longrightarrow> runs R (f a)" shows "runs R (bindW m f)"
proof (unfold runs_def, rule allI)
  fix w
  obtain x w1 where x: "m w = (x, w1)" by (cases "m w")
  show "R w (snd (bindW m f w))"
  proof (cases x)
    case (Inl e)
    with x runsD [OF m x] show ?thesis by (simp add: bindW_def)
  next
    case (Inr a)
    with x f have "R w1 (snd (f a w1))" by (simp add: runs_def)
    with x Inr runsD [OF m x] show ?thesis by (auto simp: bindW_def intro: run_trans)
  qed
qed

lemma runs_try: "runs R m \<Longrightarrow> runs R (tryW m)"
  by (simp add: runs_def tryW_def split_beta)

lemma runs_mapError: "runs R m \<Longrightarrow> runs R (mapErrorW g m)"
proof (unfold runs_def, rule allI)
  fix w assume m: "\<forall>w. R w (snd (m w))"
  obtain x w1 where x: "m w = (x, w1)" by (cases "m w")
  with m have "R w w1" by (metis snd_conv)
  with x show "R w (snd (mapErrorW g m w))" by (cases x) (simp_all add: mapErrorW_def)
qed

lemma runs_if: "runs R m \<Longrightarrow> runs R n \<Longrightarrow> runs R (if b then m else n)"
  by simp

lemma runs_cases:
  "(\<And>e. runs R (f e)) \<Longrightarrow> (\<And>a. runs R (g a)) \<Longrightarrow> runs R (case x of Inl e \<Rightarrow> f e | Inr a \<Rightarrow> g a)"
  "runs R m \<Longrightarrow> (\<And>a. runs R (h a)) \<Longrightarrow> runs R (case y of None \<Rightarrow> m | Some a \<Rightarrow> h a)"
  "(\<And>a b. runs R (k a b)) \<Longrightarrow> runs R (case z of (a, b) \<Rightarrow> k a b)"
  by (simp_all split: sum.split option.split prod.split)

lemmas runs_rules = runs_pure runs_bind runs_try runs_mapError runs_if runs_cases

end

text \<open>The store moves by commits only, own ones and those of others.\<close>

definition peers :: "Service \<Rightarrow> bool" where
  "peers sv \<longleftrightarrow> (\<forall>n s. (commit (sv_Repo sv))\<^sup>*\<^sup>* s (sv_Others sv n s))"

definition moves :: "Repo \<Rightarrow> World \<Rightarrow> World \<Rightarrow> bool" where
  "moves r w w' \<longleftrightarrow> (commit r)\<^sup>*\<^sup>* (w_Store w) (w_Store w')"

interpretation storeRun: run_frame "moves r" for r
  by unfold_locales (auto simp: moves_def)

lemma readW_moves: "peers sv \<Longrightarrow> runs (moves (sv_Repo sv)) (readW sv f)"
  by (simp add: runs_def moves_def readW_def arrive_def peers_def Let_def)

lemma tellW_moves: "runs (moves r) (tellW es)"
  by (simp add: runs_def moves_def tellW_def)

lemma commitW_moves:
  assumes "peers sv" and step: "\<And>s a t. m s = Inr (a, t) \<Longrightarrow> commit (sv_Repo sv) s t"
  shows "runs (moves (sv_Repo sv)) (commitW sv m)"
  unfolding runs_def
proof
  fix w
  have others: "(commit (sv_Repo sv))\<^sup>*\<^sup>* (w_Store w) (w_Store (arrive sv w))" using assms(1) by (simp add: peers_def arrive_def)
  show "moves (sv_Repo sv) w (snd (commitW sv m w))"
  proof (cases "m (w_Store (arrive sv w))")
    case (Inl e)
    with others show ?thesis by (simp add: moves_def commitW_def Let_def)
  next
    case (Inr y)
    obtain a t where "y = (a, t)" by (cases y)
    with Inr step have "commit (sv_Repo sv) (w_Store (arrive sv w)) t" by simp
    with others \<open>y = (a, t)\<close> Inr show ?thesis by (auto simp: moves_def commitW_def Let_def)
  qed
qed

text \<open>What a run adds to the log.\<close>

definition logs :: "(Event \<Rightarrow> bool) \<Rightarrow> World \<Rightarrow> World \<Rightarrow> bool" where
  "logs P w w' \<longleftrightarrow> (\<exists>evs. w_Log w' = w_Log w @ evs \<and> list_all P evs)"

interpretation logRun: run_frame "logs P" for P
  by unfold_locales (auto simp: logs_def)

lemma readW_logs: "runs (logs P) (readW sv f)"
  by (simp add: runs_def logs_def readW_def arrive_def Let_def)

lemma tellW_logs: "list_all P es \<Longrightarrow> runs (logs P) (tellW es)"
  by (simp add: runs_def logs_def tellW_def)

lemma commitW_logs:
  assumes "\<And>s a t. m s = Inr (a, t) \<Longrightarrow> P (Commit s t)" shows "runs (logs P) (commitW sv m)"
proof -
  have "logs P w (snd (commitW sv m w))" for w
    using assms by (cases "m (w_Store (arrive sv w))") (auto simp: logs_def commitW_def arrive_def Let_def)
  then show ?thesis by (simp add: runs_def)
qed

text \<open>Reading off a successful run.\<close>

lemma bindW_Inr: "bindW m f w = (Inr b, w') \<longleftrightarrow> (\<exists>a w1. m w = (Inr a, w1) \<and> f a w1 = (Inr b, w'))"
  by (auto simp: bindW_def split: prod.splits sum.splits)

lemma run_Inr:
  "returnW a w = (Inr b, w') \<longleftrightarrow> b = a \<and> w' = w" "failW e w = (Inr b, w') \<longleftrightarrow> False"
  "liftW x w = (Inr b, w') \<longleftrightarrow> x = Inr b \<and> w' = w" "guardW c e w = (Inr u, w') \<longleftrightarrow> \<not> c \<and> w' = w"
  "tryW m w = (Inr y, w') \<longleftrightarrow> m w = (y, w')" "clockW sv w = (Inr t, w') \<longleftrightarrow> t = sv_Now sv (w_Turn w) \<and> w' = w"
  "tellW es w = (Inr u, w') \<longleftrightarrow> w' = w\<lparr>w_Log := w_Log w @ es\<rparr>"
  "mapErrorW g m w = (Inr b, w') \<longleftrightarrow> m w = (Inr b, w')"
  by (auto simp: returnW_def failW_def liftW_def guardW_def tryW_def clockW_def tellW_def mapErrorW_def split: prod.splits sum.splits)

lemma readW_Inr:
  "readW sv f w = (Inr a, w') \<longleftrightarrow> sv_Outcome sv (w_Turn w) = Works \<and> f (w_Store w') = Inr a \<and> w' = arrive sv w"
  by (auto simp: readW_def Let_def map_sum_def split: sum.splits if_splits)

lemma commitW_Inr:
  "commitW sv m w = (Inr a, w') \<longleftrightarrow> sv_Outcome sv (w_Turn w) = Works \<and>
     (\<exists>t. m (w_Store (arrive sv w)) = Inr (a, t) \<and>
        w' = (arrive sv w)\<lparr>w_Store := t, w_Log := w_Log (arrive sv w) @ [Commit (w_Store (arrive sv w)) t]\<rparr>)"
  by (cases "sv_Outcome sv (w_Turn w)"; cases "m (w_Store (arrive sv w))") (auto simp: commitW_def Let_def)

lemmas runsInr = bindW_Inr run_Inr readW_Inr commitW_Inr

section \<open>A card answer is durable\<close>

lemma stored_names:
  "list_all (\<lambda>c. asciiLower c = c) ''disposition_state_requester_uid_display_operator_uid''"
  by code_simp

lemma displayOf_map: "distinct (map fst d) \<Longrightarrow> displayOf (Some (JObj (map (\<lambda>(k, v). (k, JStr v)) d))) = Some d"
proof -
  assume d: "distinct (map fst d)"
  have "map (\<lambda>(k, x). (k, stringOr '''' (Some x))) (rev (map (\<lambda>(k, v). (k, JStr v)) d)) = rev d"
    by (simp add: rev_map stringOr_def split_beta comp_def)
  moreover have "distinct (map fst (rev d))" using d by (simp add: rev_map [symmetric])
  then have "AList.clearjunk (rev d) = rev d" by (rule distinct_clearjunk_id)
  ultimately show ?thesis by (simp add: displayOf_def stringMap_def list_all_iff split_beta)
qed

lemma decodeStored_stored:
  "distinct (map fst (ca_Display res)) \<Longrightarrow> decodeStored (Some (storedCardAction res op)) = Some (res, op)"
  using stored_names by (cases res) (simp add: decodeStored_def storedCardAction_def structField_def displayOf_map
      strictString_def asString_def displayOf_def [of None])

text \<open>The store answers an event.\<close>

definition answers :: "Store \<Rightarrow> string \<Rightarrow> string \<Rightarrow> string \<Rightarrow> string \<Rightarrow> CardActionResult \<Rightarrow> bool" where
  "answers s eventID reviewID decision operatorUID res \<longleftrightarrow>
     (\<exists>c. GetCardActionReceipt s eventID = Some c \<and> decodeCardActionReceipt c reviewID decision operatorUID = Inr res)"

lemma answers_kept: "answers s ev rid dec op res \<Longrightarrow> appendOnly s t \<Longrightarrow> answers t ev rid dec op res"
proof -
  assume "answers s ev rid dec op res" and "appendOnly s t"
  then obtain c zs where "find (\<lambda>c. cr_EventID c = ev) (receipts s) = Some c" "decodeCardActionReceipt c rid dec op = Inr res"
    "receipts t = receipts s @ zs" by (auto simp: answers_def GetCardActionReceipt_def appendOnly_def prefix_def)
  moreover have "find P (xs @ zs) = Some c" if "find P xs = Some c" for P xs using that by (induction xs) auto
  ultimately show ?thesis by (auto simp: answers_def GetCardActionReceipt_def)
qed

lemma receipt_answers:
  assumes "receipts t = receipts s @ c' # zs" and "\<forall>x \<in> set (receipts s). cr_EventID x \<noteq> ev" and "distinct (map fst (ca_Display res))"
    and "c' = (cardActionReceipt ev rid dec op res n)\<lparr>cr_CreatedAt := m\<rparr>"
  shows "answers t ev rid dec op res"
proof -
  have "GetCardActionReceipt t ev = Some c'"
    unfolding GetCardActionReceipt_def assms(1) by (rule find_append_new) (use assms in \<open>auto simp: cardActionReceipt_def\<close>)
  moreover have "decodeCardActionReceipt c' rid dec op = Inr res"
    using assms by (simp add: decodeCardActionReceipt_def cardActionReceipt_def decodeStored_stored)
  ultimately show ?thesis by (simp add: answers_def)
qed

lemma claimed_answers:
  assumes "claimCardActionReceipt (Some (cardActionReceipt ev rid dec op res n)) i d src t s = Inr ((), s1)" and "prefix (receipts s1) (receipts s2)"
    and "distinct (map fst (ca_Display res))"
  shows "answers s2 ev rid dec op res"
proof -
  let ?c = "cardActionReceipt ev rid dec op res n"
  note run = claimReceipt_run [OF assms(1)]
  from assms(2) obtain zs where "receipts s2 = receipts s1 @ zs" by (auto simp: prefix_def)
  with run(1) have "receipts s2 = receipts s @ ?c\<lparr>cr_CreatedAt := (if cr_CreatedAt ?c = 0 then t else cr_CreatedAt ?c)\<rparr> # zs" by simp
  from receipt_answers [OF this _ assms(3) refl] run(2) show ?thesis by (simp add: cardActionReceipt_def)
qed

lemma approval_receipt:
  assumes run: "ApproveReview r sc p s = Inr (out, s')" and c: "ap_CardReceipt p = Some (cardActionReceipt ev rid dec op res n)"
    and "distinct (map fst (ca_Display res))"
  shows "answers s' ev rid dec op res"
proof -
  from run obtain s0 q current where claim: "claimCardActionReceipt (ap_CardReceipt p) (ap_ReviewID p) ''approve'' (ap_DecisionSource p)
       (nowAt r (tickCount s)) (s\<lparr>tickCount := Suc (tickCount s)\<rparr>) = Inr ((), s0)"
    and rest: "(if rr_Kind q = ReviewKindVisibility then
       thenT (refuseT (\<not> versionManagement r) ErrConflict) (approveVisibilityReview r sc p current)
     else if versionManagement r \<and> versioned current then approveManagedReviewInTx r sc p current q
     else approveUnmanaged r sc p current q) s0 = Inr (out, s')"
    by (rule ApproveReview_run)
  have "steps appendOnly (if rr_Kind q = ReviewKindVisibility then
       thenT (refuseT (\<not> versionManagement r) ErrConflict) (approveVisibilityReview r sc p current)
     else if versionManagement r \<and> versioned current then approveManagedReviewInTx r sc p current q
     else approveUnmanaged r sc p current q)"
    unfolding approveManagedReviewInTx_def finishManagedReview_def approveUnmanaged_def
    by (intro history.steps_rules appends audience_appends [OF approveVisibility_audience])
  from stepsD [OF this rest] claimed_answers [OF claim [unfolded c] _ assms(3)] show ?thesis by (simp add: appendOnly_def)
qed

lemma rejection_receipt:
  assumes run: "RejectReview r sc p s = Inr ((keys, retained), s')" and c: "rj_CardReceipt p = Some (cardActionReceipt ev rid dec op res n)"
    and d: "distinct (map fst (ca_Display res))"
  shows "answers s' ev rid dec op res"
proof -
  from run obtain q current t k s1 s2 s3 where claim: "claimCardActionReceipt (rj_CardReceipt p) (rj_ReviewID p) ''deny''
         (rj_DecisionSource p) (nowAt r (tickCount s)) (s\<lparr>tickCount := Suc (tickCount s)\<rparr>) = Inr ((), s1)"
    and q: "find (openRequest (rj_ReviewID p) (s_SpaceID sc)) (reviews s1) = Some q"
    and cur: "find (reviewedRow (s_SpaceID sc) (rr_PluginID q)) (plugins s1) = Some current"
    and s2: "sameExcept {} s1 s2" and upd: "updateReviews (\<lambda>x. rr_ID x = rj_ReviewID p) (markRejected p t) s2 = Inr (k, s3)"
    and fin: "finishVisibilityGroup (rj_ReviewID p) (s_SpaceID sc) ReviewStatusRejected (rj_ReviewerUID p)
              (rj_ReviewerName p) (rj_Reason p) t
           (s3\<lparr>idCount := Suc (idCount s3), audits := audits s3 @ [auditRow (idAt r (idCount s3)) t current ''review_reject''
              \<lparr>o_OperatorID = rj_ReviewerUID p, o_OperatorName = rj_ReviewerName p, o_RequestID = rj_RequestID p,
               o_Remark = Some (''decision_source='' @ sourceText (decisionSource (rj_DecisionSource p)))\<rparr>
              (p_PluginHash current) (p_PluginHash current)]\<rparr>) = Inr ((), s')"
    and "keys = rr_AttachmentKeys q" and "retained = retainedAttachmentKeys s' (p_ID current) (p_AttachmentKeys current)"
    by (rule RejectReview_run)
  have "receipts s3 = receipts s2" using upd by (simp add: tx_simps)
  then have "receipts s' = receipts s1"
    using s2 stepsD [OF finishGroup_touches [of "{TReviews}"] fin] by (simp add: sameExcept_def kept_def)
  with claimed_answers [OF claim [unfolded c] _ d] show ?thesis by simp
qed

lemma apply_answers:
  assumes run: "applyCardDecision sv op dec rid q (cardActionReceipt ev rid dec op res n) w = (Inr u, w')"
    and d: "distinct (map fst (ca_Display res))"
  shows "answers (w_Store w') ev rid dec op res"
proof (cases "dec = ''approve''")
  case True
  let ?sc = "\<lparr>s_CallerUID = op, s_SpaceID = rr_SpaceID q, s_Admin = False\<rparr>"
  let ?p = "\<lparr>ap_CardReceipt = Some (cardActionReceipt ev rid dec op res n), ap_ReviewID = rid, ap_ReviewerUID = op, ap_ReviewerName = op,
     ap_DecisionSource = Some ReviewDecisionSourceIM, ap_RequestID = '''', ap_Now = 0\<rparr>"
  from run True obtain p where "approveWithVersionFiles sv ?sc ?p w = (Inr p, w')" by (auto simp: applyCardDecision_def Let_def runsInr)
  then obtain s where "ApproveReview (sv_Repo sv) ?sc ?p s = Inr (p, w_Store w')"
    by (auto simp: approveWithVersionFiles_def bindW_Inr commitW_Inr)
  from approval_receipt [OF this _ d] show ?thesis by simp
next
  case False
  let ?sc = "\<lparr>s_CallerUID = op, s_SpaceID = rr_SpaceID q, s_Admin = False\<rparr>"
  let ?p = "\<lparr>rj_CardReceipt = Some (cardActionReceipt ev rid dec op res n), rj_ReviewID = rid, rj_ReviewerUID = op, rj_ReviewerName = op,
     rj_Reason = DefaultIMDenyReason, rj_DecisionSource = Some ReviewDecisionSourceIM, rj_RequestID = '''', rj_Now = 0\<rparr>"
  from run False obtain keys retained s where "RejectReview (sv_Repo sv) ?sc ?p s = Inr ((keys, retained), w_Store w')"
    by (auto simp: applyCardDecision_def Let_def bindW_Inr commitW_Inr run_Inr cleanupOrphanedReviewObjects_def)
  from rejection_receipt [OF this _ d] show ?thesis by simp
qed

lemma cardConflict_result:
  "cardConflict sv q name w = (Inr res, w') \<Longrightarrow> ca_Disposition res \<noteq> ''applied'' \<and> distinct (map fst (ca_Display res))"
proof -
  assume "cardConflict sv q name w = (Inr res, w')"
  then obtain reread w1 where "(case reread of
       Inl e \<Rightarrow> if e = ERepo ErrNotFound then returnW (cardResult ''not_found'' ''cancelled'' q name) else failW e
     | Inr (cur, curName) \<Rightarrow> returnW (cardResult ''conflict'' (cardState (rr_Status cur)) cur curName)) w1 = (Inr res, w')"
    unfolding cardConflict_def bindW_Inr by blast
  then show ?thesis by (cases reread) (auto simp: run_Inr cardResult_def split: if_splits prod.splits)
qed

lemma refusedCard_result:
  "refusedCard sv q name e w = (Inr res, w') \<Longrightarrow> ca_Disposition res \<noteq> ''applied'' \<and> distinct (map fst (ca_Display res))"
  using cardConflict_result [of sv q name w res w']
  by (auto simp: refusedCard_def runsInr cardResult_def split: PluginError.splits)

lemma decide_answers:
  assumes run: "decideCardAction sv ev op dec rid w = (Inr res, w')"
  shows "distinct (map fst (ca_Display res)) \<and> (ca_Disposition res = ''applied'' \<longrightarrow> answers (w_Store w') ev rid dec op res)"
proof -
  from run obtain loaded w1 where loaded: "(case loaded of
       Inl e \<Rightarrow>
         if mapStoreError e = ENotFound
         then returnW \<lparr>ca_Disposition = ''not_found'', ca_State = ''cancelled'', ca_Requester = '''', ca_Display = []\<rparr>
         else failW (mapStoreError e)
     | Inr (q, name) \<Rightarrow>
         bindW (operatorRole sv (rr_SpaceID q) op) (\<lambda>role.
         if role = None \<or> the role < SpaceRoleAdmin
         then returnW \<lparr>ca_Disposition = ''forbidden'', ca_State = ''pending'', ca_Requester = '''', ca_Display = []\<rparr>
         else if rr_Status q \<noteq> ReviewStatusPending then cardConflict sv q name
         else
           let res = cardResult ''applied'' (if dec = ''deny'' then ''denied'' else ''approved'') q name in
           bindW (clockW sv) (\<lambda>t.
           bindW (tryW (applyCardDecision sv op dec rid q
              (cardActionReceipt ev rid dec op res t))) (\<lambda>applied.
           case applied of Inl e \<Rightarrow> refusedCard sv q name e | Inr _ \<Rightarrow> returnW res)))) w1 = (Inr res, w')"
    unfolding decideCardAction_def bindW_Inr by blast
  show ?thesis
  proof (cases loaded)
    case (Inl e)
    with loaded show ?thesis by (auto simp: run_Inr split: if_splits)
  next
    case (Inr y)
    obtain q name where y: "y = (q, name)" by (cases y)
    let ?res = "cardResult ''applied'' (if dec = ''deny'' then ''denied'' else ''approved'') q name"
    from loaded Inr y obtain role w2 where
      "(if role = None \<or> the role < SpaceRoleAdmin
         then returnW \<lparr>ca_Disposition = ''forbidden'', ca_State = ''pending'', ca_Requester = '''', ca_Display = []\<rparr>
         else if rr_Status q \<noteq> ReviewStatusPending then cardConflict sv q name
         else
           let res = cardResult ''applied'' (if dec = ''deny'' then ''denied'' else ''approved'') q name in
           bindW (clockW sv) (\<lambda>t.
           bindW (tryW (applyCardDecision sv op dec rid q
              (cardActionReceipt ev rid dec op res t))) (\<lambda>applied.
           case applied of Inl e \<Rightarrow> refusedCard sv q name e | Inr _ \<Rightarrow> returnW res))) w2 = (Inr res, w')"
      by (auto simp only: sum.case prod.case bindW_Inr)
    then consider "ca_Disposition res = ''forbidden'' \<and> ca_Display res = []" | "cardConflict sv q name w2 = (Inr res, w')"
      | t applied w3 where "applyCardDecision sv op dec rid q (cardActionReceipt ev rid dec op ?res t) w2 = (applied, w3)"
          "(case applied of Inl e \<Rightarrow> refusedCard sv q name e | Inr _ \<Rightarrow> returnW ?res) w3 = (Inr res, w')"
      by (auto simp: Let_def bindW_Inr run_Inr split: if_splits)
    then show ?thesis
    proof cases
      case 3
      show ?thesis
      proof (cases applied)
        case (Inl e)
        with 3(2) refusedCard_result [of sv q name e w3 res w'] show ?thesis by simp
      next
        case (Inr u)
        with 3(2) have "res = ?res" "w' = w3" by (simp_all add: run_Inr)
        moreover have "distinct (map fst (ca_Display ?res))" by (simp add: cardResult_def)
        ultimately show ?thesis using apply_answers 3(1) Inr by blast
      qed
    qed (use cardConflict_result in \<open>auto\<close>)
  qed
qed

lemma replay_answers:
  "replayCardAction sv ev rid dec op w = (Inr res, w') \<Longrightarrow> answers (w_Store w') ev rid dec op res"
  by (auto simp: replayCardAction_def runsInr answers_def split: option.splits)

lemma keep_answers:
  assumes "keepCardAnswer sv ev op dec rid res w = (Inr out, w')" and "distinct (map fst (ca_Display res))"
    and "ca_Disposition res = ''applied'' \<longrightarrow> answers (w_Store w) ev rid dec op res"
  shows "answers (w_Store w') ev rid dec op out"
proof (cases "ca_Disposition res = ''applied''")
  case True
  with assms show ?thesis by (simp add: keepCardAnswer_def run_Inr)
next
  case False
  with assms(1) obtain t kept w1 where
      kept: "commitW sv (InsertCardActionReceipt (sv_Repo sv) (cardActionReceipt ev rid dec op res t)) w = (kept, w1)"
    and rest: "(case kept of
           Inl e \<Rightarrow> if e = ERepo ErrConflict then replayCardAction sv ev rid dec op else failW e
         | Inr _ \<Rightarrow> returnW res) w1 = (Inr out, w')"
    by (auto simp: keepCardAnswer_def bindW_Inr run_Inr)
  show ?thesis
  proof (cases kept)
    case (Inl e)
    with rest show ?thesis using replay_answers by (auto simp: run_Inr split: if_splits)
  next
    case (Inr u)
    with rest have out: "out = res" "w' = w1" by (simp_all add: run_Inr)
    let ?c = "cardActionReceipt ev rid dec op res t"
    from kept Inr obtain s where "InsertCardActionReceipt (sv_Repo sv) ?c s = Inr ((), w_Store w1)" by (auto simp: commitW_Inr)
    then obtain n where "receipts (w_Store w1) = receipts s @ ?c\<lparr>cr_CreatedAt := n\<rparr> # []" "\<forall>x \<in> set (receipts s). cr_EventID x \<noteq> ev"
      by (auto simp: InsertCardActionReceipt_def insertCardActionReceipt_def tx_simps cardActionReceipt_def)
    from receipt_answers [OF this assms(2) refl] out show ?thesis by simp
  qed
qed

lemma DecideReview_answers:
  assumes "DecideReviewFromCard sv ev op dec rid w = (Inr res, w')"
  shows "answers (w_Store w') (trimSpace ev) (trimSpace rid) (trimSpace dec) (trimSpace op) res"
proof -
  let ?ev = "trimSpace ev" and ?op = "trimSpace op" and ?dec = "trimSpace dec" and ?rid = "trimSpace rid"
  from assms obtain existing w1 where old: "existing = GetCardActionReceipt (w_Store w1) ?ev"
    and rest: "(case existing of
        Some rec \<Rightarrow> liftW (decodeCardActionReceipt rec ?rid ?dec ?op)
      | None \<Rightarrow>
          bindW (tryW (decideCardAction sv ?ev ?op ?dec ?rid)) (\<lambda>decided.
          case decided of
            Inl e \<Rightarrow> if e = ERepo ErrCardActionReplayed then replayCardAction sv ?ev ?rid ?dec ?op else failW e
          | Inr res \<Rightarrow> keepCardAnswer sv ?ev ?op ?dec ?rid res)) w1 = (Inr res, w')"
    unfolding DecideReviewFromCard_def Let_def bindW_Inr readW_Inr by auto
  show ?thesis
  proof (cases existing)
    case (Some rec)
    from rest [unfolded Some] have "decodeCardActionReceipt rec ?rid ?dec ?op = Inr res" "w' = w1" by (simp_all add: run_Inr)
    with old [symmetric] Some show ?thesis by (simp add: answers_def)
  next
    case None
    with rest obtain decided w2 where decided: "decideCardAction sv ?ev ?op ?dec ?rid w1 = (decided, w2)"
      and keep: "(case decided of
            Inl e \<Rightarrow> if e = ERepo ErrCardActionReplayed then replayCardAction sv ?ev ?rid ?dec ?op else failW e
          | Inr res \<Rightarrow> keepCardAnswer sv ?ev ?op ?dec ?rid res) w2 = (Inr res, w')"
      by (auto simp: bindW_Inr run_Inr)
    show ?thesis
    proof (cases decided)
      case (Inl e)
      with keep show ?thesis using replay_answers by (auto simp: run_Inr split: if_splits)
    next
      case (Inr out)
      with keep decided show ?thesis using decide_answers keep_answers by auto
    qed
  qed
qed

lemma DecideReview_replays:
  assumes "GetCardActionReceipt (w_Store (arrive sv w)) (trimSpace ev) = Some c" and "sv_Outcome sv (w_Turn w) = Works"
  shows "DecideReviewFromCard sv ev op dec rid w =
     (if trimSpace ev = '''' \<or> trimSpace op = '''' \<or> trimSpace rid = '''' \<or> trimSpace dec \<noteq> ''approve'' \<and> trimSpace dec \<noteq> ''deny''
      then (Inl ECardBadDecision, w)
      else (decodeCardActionReceipt c (trimSpace rid) (trimSpace dec) (trimSpace op), arrive sv w))"
  using assms by (auto simp: DecideReviewFromCard_def Let_def bindW_def guardW_def failW_def returnW_def readW_def liftW_def)

lemma DecideReview_wellformed:
  "DecideReviewFromCard sv ev op dec rid w = (Inr res, w') \<Longrightarrow>
     trimSpace ev \<noteq> '''' \<and> trimSpace op \<noteq> '''' \<and> trimSpace rid \<noteq> '''' \<and> (trimSpace dec = ''approve'' \<or> trimSpace dec = ''deny'')"
  unfolding DecideReviewFromCard_def Let_def bindW_Inr run_Inr by auto

text \<open>Every method moves the store by commits only.\<close>

lemma approveFiles_moves: "peers sv \<Longrightarrow> runs (moves (sv_Repo sv)) (approveWithVersionFiles sv sc p)"
  unfolding approveWithVersionFiles_def verifyFrozenFiles_def Let_def
  by (intro storeRun.runs_rules readW_moves commitW_moves commit.Approve)

lemma card_moves: "peers sv \<Longrightarrow> runs (moves (sv_Repo sv)) (DecideReviewFromCard sv ev op dec rid)"
proof -
  assume sv: "peers sv"
  note parts = storeRun.runs_rules readW_moves [OF sv] approveFiles_moves [OF sv] tellW_moves
    commitW_moves [OF sv] commit.Reject commit.Receipt
  have conflict: "runs (moves (sv_Repo sv)) (cardConflict sv q name)" for q name
    unfolding cardConflict_def by (intro parts)
  have refused: "runs (moves (sv_Repo sv)) (refusedCard sv q name e)" for q name e
    unfolding refusedCard_def by (cases "mapStoreError e"; simp; (rule conflict | intro parts))
  have replay: "runs (moves (sv_Repo sv)) (replayCardAction sv ev rid dec op)" for ev rid dec op
    unfolding replayCardAction_def by (intro parts)
  have applied: "runs (moves (sv_Repo sv)) (applyCardDecision sv op dec rid q c)" for op dec rid q c
    unfolding applyCardDecision_def cleanupOrphanedReviewObjects_def Let_def by (intro parts) assumption
  have decide: "runs (moves (sv_Repo sv)) (decideCardAction sv ev op dec rid)" for ev op dec rid
    unfolding decideCardAction_def operatorRole_def Let_def by (intro parts conflict refused applied)
  have keep: "runs (moves (sv_Repo sv)) (keepCardAnswer sv ev op dec rid res)" for ev op dec rid res
    unfolding keepCardAnswer_def by (intro parts replay) simp
  show ?thesis unfolding DecideReviewFromCard_def Let_def by (intro parts decide keep replay)
qed

text \<open>C33: an answer to a card event is final. Once a delivery has been answered, in every state the system reaches
  afterwards, whatever commits in between, a redelivery gets the same answer and makes no decision, no
  deletion and no other change; the event cannot be reused for another request or another decision. This
  holds of applied decisions and of refusals, and when an earlier delivery committed and its answer was lost.\<close>

theorem card_answer_durable:
  assumes run: "DecideReviewFromCard sv ev op dec rid w = (Inr res, w1)" and env: "peers sv" and reach: "reach (sv_Repo sv) (w_Store w)"
    and later: "(commit (sv_Repo sv))\<^sup>*\<^sup>* (w_Store w1) (w_Store w2)"
    and env2: "peers sv2" and repo: "sv_Repo sv2 = sv_Repo sv" and works: "sv_Outcome sv2 (w_Turn w2) = Works"
  shows "fst (DecideReviewFromCard sv2 ev op dec rid w2) = Inr res \<and>
    (\<forall>op' dec' rid'. w_Log (snd (DecideReviewFromCard sv2 ev op' dec' rid' w2)) = w_Log w2 \<and>
       ((trimSpace dec', trimSpace rid') \<noteq> (trimSpace dec, trimSpace rid) \<longrightarrow>
          fst (DecideReviewFromCard sv2 ev op' dec' rid' w2) = Inl ECardBadDecision))"
proof -
  have "(commit (sv_Repo sv))\<^sup>*\<^sup>* (w_Store w) (w_Store w1)"
    using runsD [OF card_moves [OF env] run] by (simp add: moves_def)
  with reach have r1: "reach (sv_Repo sv) (w_Store w1)" by (rule reach_star)
  have "(commit (sv_Repo sv))\<^sup>*\<^sup>* (w_Store w1) (w_Store (arrive sv2 w2))"
    using later env2 repo by (auto simp: peers_def arrive_def intro: rtranclp_trans)
  from commits_keep [OF r1 this] have "appendOnly (w_Store w1) (w_Store (arrive sv2 w2))" by simp
  from answers_kept [OF DecideReview_answers [OF run] this] obtain c where
    c: "GetCardActionReceipt (w_Store (arrive sv2 w2)) (trimSpace ev) = Some c"
    and dec: "decodeCardActionReceipt c (trimSpace rid) (trimSpace dec) (trimSpace op) = Inr res" by (auto simp: answers_def)
  note again = DecideReview_replays [OF c works]
  have "cr_ReviewID c = trimSpace rid" "cr_Decision c = trimSpace dec" using dec by (auto simp: decodeCardActionReceipt_def split: if_splits)
  then have "decodeCardActionReceipt c (trimSpace rid') (trimSpace dec') op' = Inl ECardBadDecision"
    if "(trimSpace dec', trimSpace rid') \<noteq> (trimSpace dec, trimSpace rid)" for rid' dec' op'
    using that by (auto simp: decodeCardActionReceipt_def)
  with dec DecideReview_wellformed [OF run] show ?thesis by (auto simp: again arrive_def)
qed

section \<open>Only a reviewer of the Space decides\<close>

text \<open>The effects of a callback: it records its answer, or it decides an open request with the receipt of the
  event, which had none before, after the role service has named the operator an administrator of the Space.\<close>

fun cardEvent :: "Service \<Rightarrow> string \<Rightarrow> string \<Rightarrow> string \<Rightarrow> string \<Rightarrow> Event \<Rightarrow> bool" where
  "cardEvent sv ev op dec rid (Commit a b) \<longleftrightarrow> sameExcept {TReceipts} a b \<or>
     (\<exists>q \<in> set (reviews a). \<exists>role. openRequest rid (rr_SpaceID q) q \<and> sv_RoleEnabled sv \<and>
        sv_MemberRole sv (rr_SpaceID q) op = Inr (Some role) \<and> SpaceRoleAdmin \<le> role \<and>
        (\<forall>c \<in> set (receipts a). cr_EventID c \<noteq> ev) \<and>
        (\<exists>c \<in> set (receipts b). cr_EventID c = ev \<and> cr_Decision c = dec \<and> cr_ReviewID c = rid))"
| "cardEvent sv ev op dec rid (DeleteObject k) \<longleftrightarrow> dec = ''deny''"
| "cardEvent sv ev op dec rid _ \<longleftrightarrow> False"

lemma answers_receipt: "answers s ev rid dec op res \<Longrightarrow> \<exists>c \<in> set (receipts s). cr_EventID c = ev \<and> cr_Decision c = dec \<and> cr_ReviewID c = rid"
  unfolding answers_def GetCardActionReceipt_def
  by (auto simp: decodeCardActionReceipt_def split: if_splits dest!: find_Some_mem)

lemma approval_opens:
  assumes "ApproveReview r sc p s = Inr (out, s')" and "ap_CardReceipt p = Some c"
  shows "(\<exists>q \<in> set (reviews s). openRequest (ap_ReviewID p) (s_SpaceID sc) q) \<and> (\<forall>x \<in> set (receipts s). cr_EventID x \<noteq> cr_EventID c)"
proof -
  from assms(1) obtain s1 q current where claim: "claimCardActionReceipt (ap_CardReceipt p) (ap_ReviewID p) ''approve'' (ap_DecisionSource p)
       (nowAt r (tickCount s)) (s\<lparr>tickCount := Suc (tickCount s)\<rparr>) = Inr ((), s1)"
    and "find (openRequest (ap_ReviewID p) (s_SpaceID sc)) (reviews s) = Some q"
    by (rule ApproveReview_run)
  then show ?thesis using claimReceipt_run(2) [OF claim [unfolded assms(2)]] by (auto dest!: find_Some_mem)
qed

lemma rejection_opens:
  assumes "RejectReview r sc p s = Inr (out, s')"
  shows "(\<exists>q \<in> set (reviews s). openRequest (rj_ReviewID p) (s_SpaceID sc) q) \<and>
    (\<forall>c. rj_CardReceipt p = Some c \<longrightarrow> (\<forall>x \<in> set (receipts s). cr_EventID x \<noteq> cr_EventID c))"
proof -
  obtain keys retained where out: "out = (keys, retained)" by (cases out)
  from assms obtain s1 q where claim: "claimCardActionReceipt (rj_CardReceipt p) (rj_ReviewID p) ''deny''
         (rj_DecisionSource p) (nowAt r (tickCount s)) (s\<lparr>tickCount := Suc (tickCount s)\<rparr>) = Inr ((), s1)"
    and q: "find (openRequest (rj_ReviewID p) (s_SpaceID sc)) (reviews s1) = Some q"
    unfolding RejectReview_def by (auto simp only: bindT_Inr thenT_Inr now_Inr lockRequest_Inr)
  have "reviews s1 = reviews s"
    using stepsD [OF claimReceipt_touches [of "{TReceipts}"] claim] by (simp add: sameExcept_reviews)
  with q have "\<exists>q \<in> set (reviews s). openRequest (rj_ReviewID p) (s_SpaceID sc) q" by (auto dest!: find_Some_mem)
  moreover have "\<forall>x \<in> set (receipts s). cr_EventID x \<noteq> cr_EventID c" if "rj_CardReceipt p = Some c" for c
    using claimReceipt_run(2) [OF claim [unfolded that]] by simp
  ultimately show ?thesis by blast
qed

lemma cardEvent_decision:
  assumes "\<exists>q \<in> set (reviews a). openRequest rid space q" and "sv_RoleEnabled sv" and "sv_MemberRole sv space op = Inr (Some role)"
    and "SpaceRoleAdmin \<le> role" and "\<forall>c \<in> set (receipts a). cr_EventID c \<noteq> ev" and "answers b ev rid dec op res"
  shows "cardEvent sv ev op dec rid (Commit a b)"
proof -
  from assms(1) obtain q where "q \<in> set (reviews a)" "openRequest rid (rr_SpaceID q) q" "rr_SpaceID q = space"
    by (auto simp: openRequest_def)
  with assms(2-5) answers_receipt [OF assms(6)] show ?thesis unfolding cardEvent.simps by blast
qed

lemma approveFiles_logs:
  assumes "\<And>s a t. ApproveReview (sv_Repo sv) sc p s = Inr (a, t) \<Longrightarrow> P (Commit s t)"
  shows "runs (logs P) (approveWithVersionFiles sv sc p)"
  unfolding approveWithVersionFiles_def verifyFrozenFiles_def Let_def
  by (intro logRun.runs_rules readW_logs commitW_logs) (erule assms)

lemma card_reads_logs:
  "runs (logs P) (cardConflict sv q name)" "runs (logs P) (refusedCard sv q name e)" "runs (logs P) (replayCardAction sv ev rid dec op)"
proof -
  note parts = logRun.runs_rules readW_logs
  show conflict: "runs (logs P) (cardConflict sv q name)" unfolding cardConflict_def by (intro parts)
  show "runs (logs P) (refusedCard sv q name e)"
    unfolding refusedCard_def by (cases "mapStoreError e"; simp; (rule conflict | intro parts))
  show "runs (logs P) (replayCardAction sv ev rid dec op)" unfolding replayCardAction_def by (intro parts)
qed

lemma apply_logs:
  assumes role: "sv_RoleEnabled sv" "sv_MemberRole sv (rr_SpaceID q) op = Inr (Some role)" "SpaceRoleAdmin \<le> role"
    and vocab: "dec = ''approve'' \<or> dec = ''deny''" and res: "distinct (map fst (ca_Display res))"
  shows "runs (logs (cardEvent sv ev op dec rid)) (applyCardDecision sv op dec rid q (cardActionReceipt ev rid dec op res t))"
proof -
  let ?P = "cardEvent sv ev op dec rid"
  let ?sc = "\<lparr>s_CallerUID = op, s_SpaceID = rr_SpaceID q, s_Admin = False\<rparr>" and ?c = "cardActionReceipt ev rid dec op res t"
  have ap: "?P (Commit s s')" if "ApproveReview (sv_Repo sv) ?sc p s = Inr (out, s')" "ap_CardReceipt p = Some ?c" "ap_ReviewID p = rid" for p s s' out
    using approval_opens [OF that(1,2)] that(3)
    by (intro cardEvent_decision [OF _ role _ approval_receipt [OF that(1,2) res]]) (simp_all add: cardActionReceipt_def)
  have rj: "?P (Commit s s')" if "RejectReview (sv_Repo sv) ?sc p s = Inr (out, s')" "rj_CardReceipt p = Some ?c" "rj_ReviewID p = rid" for p s s' out
  proof -
    have "RejectReview (sv_Repo sv) ?sc p s = Inr ((fst out, snd out), s')" using that(1) by simp
    from rejection_receipt [OF this that(2) res] rejection_opens [OF that(1)] that(2,3) show ?thesis
      by (intro cardEvent_decision [OF _ role]) (simp_all add: cardActionReceipt_def)
  qed
  show ?thesis
  proof (cases "dec = ''approve''")
    case True
    let ?p = "\<lparr>ap_CardReceipt = Some ?c, ap_ReviewID = rid, ap_ReviewerUID = op, ap_ReviewerName = op,
         ap_DecisionSource = Some ReviewDecisionSourceIM, ap_RequestID = '''', ap_Now = 0\<rparr>"
    from True have "applyCardDecision sv op dec rid q ?c = bindW (approveWithVersionFiles sv ?sc ?p) (\<lambda>_. returnW ())"
      by (simp add: applyCardDecision_def)
    moreover have "runs (logs ?P) (approveWithVersionFiles sv ?sc ?p)" by (rule approveFiles_logs) (erule ap; simp)
    ultimately show ?thesis by (simp add: logRun.runs_bind logRun.runs_pure)
  next
    case False
    with vocab have tell: "list_all ?P (map DeleteObject ks)" for ks by (simp add: list_all_iff)
    let ?p = "\<lparr>rj_CardReceipt = Some ?c, rj_ReviewID = rid, rj_ReviewerUID = op, rj_ReviewerName = op,
         rj_Reason = DefaultIMDenyReason, rj_DecisionSource = Some ReviewDecisionSourceIM, rj_RequestID = '''', rj_Now = 0\<rparr>"
    from False have "applyCardDecision sv op dec rid q ?c = bindW (commitW sv (RejectReview (sv_Repo sv) ?sc ?p))
        (\<lambda>(frozenKeys, retained). cleanupOrphanedReviewObjects frozenKeys retained)"
      by (simp add: applyCardDecision_def)
    moreover have "runs (logs ?P) (commitW sv (RejectReview (sv_Repo sv) ?sc ?p))" by (rule commitW_logs) (erule rj; simp)
    moreover have "runs (logs ?P) (cleanupOrphanedReviewObjects ks kept)" for ks kept
      unfolding cleanupOrphanedReviewObjects_def by (rule tellW_logs [OF tell])
    ultimately show ?thesis by (simp add: logRun.runs_bind split_beta)
  qed
qed

lemma authorized_logs:
  assumes vocab: "dec = ''approve'' \<or> dec = ''deny''"
  shows "runs (logs (cardEvent sv ev op dec rid)) (bindW (operatorRole sv (rr_SpaceID q) op) (\<lambda>role.
         if role = None \<or> the role < SpaceRoleAdmin
         then returnW \<lparr>ca_Disposition = ''forbidden'', ca_State = ''pending'', ca_Requester = '''', ca_Display = []\<rparr>
         else if rr_Status q \<noteq> ReviewStatusPending then cardConflict sv q name
         else
           let res = cardResult ''applied'' (if dec = ''deny'' then ''denied'' else ''approved'') q name in
           bindW (clockW sv) (\<lambda>t.
           bindW (tryW (applyCardDecision sv op dec rid q (cardActionReceipt ev rid dec op res t))) (\<lambda>applied.
           case applied of Inl e \<Rightarrow> refusedCard sv q name e | Inr _ \<Rightarrow> returnW res))))"
proof (rule logRun.runs_bind_result, goal_cases)
  case 1
  show ?case unfolding operatorRole_def by (intro logRun.runs_rules)
next
  case (2 role w w')
  then have role: "sv_RoleEnabled sv" "sv_MemberRole sv (rr_SpaceID q) op = Inr role"
    by (auto simp: operatorRole_def run_Inr split: if_splits)
  show ?case
  proof (cases "role = None \<or> the role < SpaceRoleAdmin")
    case True
    then show ?thesis by (simp add: logRun.runs_pure)
  next
    case False
    then obtain n where n: "role = Some n" "SpaceRoleAdmin \<le> n" by auto
    then show ?thesis using role vocab unfolding Let_def
      by (simp only: if_False False)
        (intro logRun.runs_rules card_reads_logs apply_logs [where role = n]; simp add: cardResult_def)
  qed
qed

lemma card_logs:
  "runs (logs (cardEvent sv (trimSpace ev) (trimSpace op) (trimSpace dec) (trimSpace rid))) (DecideReviewFromCard sv ev op dec rid)"
proof (cases "trimSpace dec = ''approve'' \<or> trimSpace dec = ''deny''")
  case True
  have "cardEvent sv (trimSpace ev) op' dec' rid' (Commit s s')" if "InsertCardActionReceipt (sv_Repo sv) c s = Inr ((), s')" for op' dec' rid' c s s'
  proof -
    have "steps (sameExcept {TReceipts}) (InsertCardActionReceipt (sv_Repo sv) c)"
      unfolding InsertCardActionReceipt_def by (intro touch.steps_rules touches) simp_all
    from stepsD [OF this that] show ?thesis by simp
  qed
  then show ?thesis unfolding DecideReviewFromCard_def decideCardAction_def keepCardAnswer_def Let_def
    by (intro logRun.runs_rules readW_logs card_reads_logs authorized_logs [OF True, unfolded Let_def] commitW_logs) simp
next
  case False
  then have "snd (DecideReviewFromCard sv ev op dec rid w) = w" for w
    by (simp add: DecideReviewFromCard_def Let_def bindW_def guardW_def failW_def returnW_def)
  then show ?thesis by (simp add: runs_def logRun.run_refl)
qed

text \<open>C34: only a reviewer of the Space decides from a card. Whatever a callback does, each transaction it commits
  either stores a receipt and nothing else, or decides a request that is open at that moment, when the role
  service answered that the operator is an administrator or owner of the Space of that very request, and
  stores the first receipt of the event, bound to the request and the decision; storage objects are deleted by
  a denial only.\<close>

theorem card_decision_authorized:
  assumes "DecideReviewFromCard sv ev op dec rid w = (out, w')"
  shows "\<exists>evs. w_Log w' = w_Log w @ evs \<and>
    (\<forall>a b. Commit a b \<in> set evs \<longrightarrow> sameExcept {TReceipts} a b \<or>
       (\<exists>q \<in> set (reviews a). \<exists>role. openRequest (trimSpace rid) (rr_SpaceID q) q \<and> sv_RoleEnabled sv \<and>
          sv_MemberRole sv (rr_SpaceID q) (trimSpace op) = Inr (Some role) \<and> SpaceRoleAdmin \<le> role \<and>
          (\<forall>c \<in> set (receipts a). cr_EventID c \<noteq> trimSpace ev) \<and>
          (\<exists>c \<in> set (receipts b). cr_EventID c = trimSpace ev \<and> cr_Decision c = trimSpace dec \<and> cr_ReviewID c = trimSpace rid))) \<and>
    (\<forall>k. DeleteObject k \<in> set evs \<longrightarrow> trimSpace dec = ''deny'') \<and>
    (\<forall>x. ReleaseParseTask x \<notin> set evs \<and> DispatchReviewCard x \<notin> set evs)"
proof -
  from runsD [OF card_logs assms] obtain evs where evs: "w_Log w' = w_Log w @ evs"
    and all: "\<And>e. e \<in> set evs \<Longrightarrow> cardEvent sv (trimSpace ev) (trimSpace op) (trimSpace dec) (trimSpace rid) e"
    by (auto simp: logs_def list_all_iff)
  show ?thesis
  proof (intro exI [of _ evs] conjI allI impI evs)
    fix a b assume "Commit a b \<in> set evs"
    from all [OF this] show "sameExcept {TReceipts} a b \<or>
       (\<exists>q \<in> set (reviews a). \<exists>role. openRequest (trimSpace rid) (rr_SpaceID q) q \<and> sv_RoleEnabled sv \<and>
          sv_MemberRole sv (rr_SpaceID q) (trimSpace op) = Inr (Some role) \<and> SpaceRoleAdmin \<le> role \<and>
          (\<forall>c \<in> set (receipts a). cr_EventID c \<noteq> trimSpace ev) \<and>
          (\<exists>c \<in> set (receipts b). cr_EventID c = trimSpace ev \<and> cr_Decision c = trimSpace dec \<and> cr_ReviewID c = trimSpace rid))"
      by (simp only: cardEvent.simps)
  qed (use all in fastforce)+
qed

section \<open>Cleaning up after a decision\<close>

text \<open>A key that only the decided request names: neither the live row of its plugin nor a version uses it.\<close>

definition orphan :: "string \<Rightarrow> Store \<Rightarrow> Store \<Rightarrow> string \<Rightarrow> bool" where
  "orphan rid a b k \<longleftrightarrow> (\<exists>q \<in> set (reviews a). \<exists>p \<in> set (plugins b). rr_ID q = rid \<and> rr_Status q = ReviewStatusPending \<and>
     k \<in> set (sidecarKeys (rr_AttachmentKeys q)) \<and> p_ID p = rr_PluginID q \<and> k \<notin> set (sidecarKeys (p_AttachmentKeys p)) \<and>
     (\<forall>v \<in> set (versions b). v_PluginID v = p_ID p \<longrightarrow> k \<notin> set (sidecarKeys (v_AttachmentKeys v))))"

definition cleaned :: "string \<Rightarrow> Event list \<Rightarrow> bool" where
  "cleaned rid evs \<longleftrightarrow> (\<forall>k. DeleteObject k \<in> set evs \<longrightarrow> (\<exists>a b. Commit a b \<in> set evs \<and> orphan rid a b k))"

definition cleans :: "string \<Rightarrow> World \<Rightarrow> World \<Rightarrow> bool" where
  "cleans rid w w' \<longleftrightarrow> (\<exists>evs. w_Log w' = w_Log w @ evs \<and> cleaned rid evs)"

interpretation cleanRun: run_frame "cleans rid" for rid
proof
  show "cleans rid w w" for w by (simp add: cleans_def cleaned_def)
next
  fix u v w assume "cleans rid u v" and "cleans rid v w"
  then obtain xs ys where "w_Log w = w_Log u @ xs @ ys" "cleaned rid xs" "cleaned rid ys" by (auto simp: cleans_def)
  moreover from this have "cleaned rid (xs @ ys)" unfolding cleaned_def by (metis Un_iff set_append)
  ultimately show "cleans rid u w" unfolding cleans_def by blast
qed

lemma logs_cleans: "runs (logs (\<lambda>e. \<forall>k. e \<noteq> DeleteObject k)) m \<Longrightarrow> runs (cleans rid) m"
proof (unfold runs_def, rule allI)
  fix w assume "\<forall>w. logs (\<lambda>e. \<forall>k. e \<noteq> DeleteObject k) w (snd (m w))"
  then obtain evs where "w_Log (snd (m w)) = w_Log w @ evs" "\<forall>e \<in> set evs. \<forall>k. e \<noteq> DeleteObject k"
    by (auto simp: logs_def list_all_iff)
  then show "cleans rid w (snd (m w))" unfolding cleans_def cleaned_def by blast
qed

lemma orphanedKeys_sidecar: "k \<in> set (orphanedKeys doc held) \<Longrightarrow> k \<in> set (sidecarKeys doc) \<and> k \<notin> set held"
proof -
  assume "k \<in> set (orphanedKeys doc held)"
  then obtain x where "x \<in> set (AList.clearjunk (attachmentKeyMap doc))" "k = snd x" "k \<noteq> ''''" "k \<notin> set held"
    by (auto simp: orphanedKeys_def)
  moreover from this have "map_of (AList.clearjunk (attachmentKeyMap doc)) (fst x) = Some (snd x)"
    by (intro map_of_is_SomeI) simp_all
  then have "(fst x, snd x) \<in> set (attachmentKeyMap doc)" unfolding map_of_clearjunk by (rule map_of_SomeD)
  ultimately show ?thesis by (auto simp: attachmentKeyMap_def sidecarKeys_def split: option.splits if_splits)
qed

lemma retained_orphan:
  assumes "q \<in> set (reviews a)" and "rr_ID q = rid" and "rr_Status q = ReviewStatusPending" and "p \<in> set (plugins b)"
    and "p_ID p = rr_PluginID q" and "k \<in> set (orphanedKeys (rr_AttachmentKeys q) (retainedAttachmentKeys b (p_ID p) (p_AttachmentKeys p)))"
  shows "orphan rid a b k"
proof -
  have "k \<in> set (sidecarKeys (rr_AttachmentKeys q))" "k \<notin> set (sidecarKeys (p_AttachmentKeys p))"
    "\<forall>v \<in> set (versions b). v_PluginID v = p_ID p \<longrightarrow> k \<notin> set (sidecarKeys (v_AttachmentKeys v))"
    using orphanedKeys_sidecar [OF assms(6)] by (auto simp: retainedAttachmentKeys_def)
  with assms(1-5) show ?thesis unfolding orphan_def by blast
qed

lemma reject_orphans:
  assumes run: "RejectReview r sc p s = Inr ((keys, held), t)" and "k \<in> set (orphanedKeys keys held)"
  shows "orphan (rj_ReviewID p) s t k"
proof -
  from run obtain q current n u s1 s2 s3 where claim: "claimCardActionReceipt (rj_CardReceipt p) (rj_ReviewID p) ''deny''
         (rj_DecisionSource p) (nowAt r (tickCount s)) (s\<lparr>tickCount := Suc (tickCount s)\<rparr>) = Inr ((), s1)"
    and q: "find (openRequest (rj_ReviewID p) (s_SpaceID sc)) (reviews s1) = Some q"
    and cur: "find (reviewedRow (s_SpaceID sc) (rr_PluginID q)) (plugins s1) = Some current"
    and s2: "sameExcept {} s1 s2" and upd: "updateReviews (\<lambda>x. rr_ID x = rj_ReviewID p) (markRejected p u) s2 = Inr (n, s3)"
    and fin: "finishVisibilityGroup (rj_ReviewID p) (s_SpaceID sc) ReviewStatusRejected (rj_ReviewerUID p)
              (rj_ReviewerName p) (rj_Reason p) u
           (s3\<lparr>idCount := Suc (idCount s3), audits := audits s3 @ [auditRow (idAt r (idCount s3)) u current ''review_reject''
              \<lparr>o_OperatorID = rj_ReviewerUID p, o_OperatorName = rj_ReviewerName p, o_RequestID = rj_RequestID p,
               o_Remark = Some (''decision_source='' @ sourceText (decisionSource (rj_DecisionSource p)))\<rparr>
              (p_PluginHash current) (p_PluginHash current)]\<rparr>) = Inr ((), t)"
    and keys: "keys = rr_AttachmentKeys q" and ret: "held = retainedAttachmentKeys t (p_ID current) (p_AttachmentKeys current)"
    by (rule RejectReview_run)
  have s1: "reviews s1 = reviews s" "plugins s1 = plugins s"
    using stepsD [OF claimReceipt_touches [of "{TReceipts}"] claim] by (auto dest: sameExcept_tables)
  have "plugins t = plugins s" using stepsD [OF RejectReview_touches [of "{TReceipts, TReviews, TAudits}"] run] by (simp add: sameExcept_def kept_def)
  then show ?thesis using find_Some_mem [OF q] find_Some_mem [OF cur] s1 assms(2)
    by (intro retained_orphan [where q = q and p = current]) (simp_all add: keys ret openRequest_def pendingReview_def reviewedRow_def)
qed

lemma cancel_orphans:
  assumes run: "CancelReview r sc i uid s = Inr ((keys, held), t)" and "k \<in> set (orphanedKeys keys held)"
  shows "orphan i s t k"
proof -
  from run obtain q current where q: "find (ownRequest i (s_SpaceID sc) uid) (reviews s) = Some q" "rr_Status q = ReviewStatusPending"
    and cur: "find (reviewedRow (s_SpaceID sc) (rr_PluginID q)) (plugins s) = Some current"
    and keys: "keys = rr_AttachmentKeys q" and ret: "held = retainedAttachmentKeys t (p_ID current) (p_AttachmentKeys current)"
    unfolding CancelReview_def by (auto simp: tx_simps)
  have "plugins t = plugins s" using stepsD [OF CancelReview_touches [of "{TReviews}"] run] by (simp add: sameExcept_def kept_def)
  then show ?thesis using find_Some_mem [OF q(1)] q(2) find_Some_mem [OF cur] assms(2)
    by (intro retained_orphan [where q = q and p = current]) (simp_all add: keys ret ownRequest_def reviewedRow_def)
qed

lemma cleanup_cleans:
  assumes m: "\<And>s keys held t k. m s = Inr ((keys, held), t) \<Longrightarrow> k \<in> set (orphanedKeys keys held) \<Longrightarrow> orphan rid s t k"
    and f: "\<And>x. runs (cleans rid) (f x)" and g: "\<And>e. runs (cleans rid) (g e)"
  shows "runs (cleans rid) (bindW (tryW (commitW sv m)) (\<lambda>out. case out of
     Inl e \<Rightarrow> g e | Inr (keys, held) \<Rightarrow> bindW (cleanupOrphanedReviewObjects keys held) f))"
proof (unfold runs_def, rule allI)
  fix w
  obtain out w1 where out: "commitW sv m w = (out, w1)" by (cases "commitW sv m w")
  have quiet: "runs (cleans rid) (commitW sv m)" by (intro logs_cleans commitW_logs) simp
  show "cleans rid w (snd (bindW (tryW (commitW sv m)) (\<lambda>out. case out of
     Inl e \<Rightarrow> g e | Inr (keys, held) \<Rightarrow> bindW (cleanupOrphanedReviewObjects keys held) f) w))"
  proof (cases out)
    case (Inl e)
    with out runsD [OF quiet out] g [of e] show ?thesis
      by (auto simp: bindW_def tryW_def runs_def intro: cleanRun.run_trans)
  next
    case (Inr y)
    obtain keys held where y: "y = (keys, held)" by (cases y)
    let ?w2 = "w1\<lparr>w_Log := w_Log w1 @ map DeleteObject (orphanedKeys keys held)\<rparr>"
    from out Inr y obtain s t where t: "m s = Inr ((keys, held), t)" "w_Log w1 = w_Log w @ [Commit s t]"
      by (auto simp: commitW_Inr arrive_def)
    have "cleaned rid (Commit s t # map DeleteObject (orphanedKeys keys held))" using m [OF t(1)] by (auto simp: cleaned_def)
    with t(2) have "cleans rid w ?w2" by (auto simp: cleans_def)
    with f have "cleans rid w (snd (f () ?w2))" by (auto simp: runs_def intro: cleanRun.run_trans)
    with out Inr y show ?thesis by (simp add: bindW_def tryW_def cleanupOrphanedReviewObjects_def tellW_def)
  qed
qed

lemma bind_mapError: "bindW (mapErrorW g m) f = bindW (tryW m) (\<lambda>out. case out of Inl e \<Rightarrow> failW (g e) | Inr x \<Rightarrow> f x)"
  by (rule ext) (simp add: bindW_def mapErrorW_def tryW_def failW_def split: prod.splits sum.splits)

lemma bind_unit: "bindW m (\<lambda>_. returnW ()) = m"
  by (rule ext) (auto simp: bindW_def returnW_def split: prod.splits sum.splits)

lemma commit_cleanup:
  assumes "\<And>s keys held t k. m s = Inr ((keys, held), t) \<Longrightarrow> k \<in> set (orphanedKeys keys held) \<Longrightarrow> orphan rid s t k"
  shows "runs (cleans rid) (bindW (mapErrorW g (commitW sv m)) (\<lambda>(keys, held). cleanupOrphanedReviewObjects keys held))"
    and "runs (cleans rid) (bindW (commitW sv m) (\<lambda>(keys, held). cleanupOrphanedReviewObjects keys held))"
proof -
  show mapped: "runs (cleans rid) (bindW (mapErrorW g (commitW sv m)) (\<lambda>(keys, held). cleanupOrphanedReviewObjects keys held))" for g
  proof -
    have "runs (cleans rid) (bindW (tryW (commitW sv m)) (\<lambda>out. case out of Inl e \<Rightarrow> failW (g e)
        | Inr (keys, held) \<Rightarrow> bindW (cleanupOrphanedReviewObjects keys held) (\<lambda>_. returnW ())))"
      by (intro cleanup_cleans cleanRun.runs_pure) (erule (1) assms)
    then show ?thesis unfolding bind_mapError bind_unit .
  qed
  have "mapErrorW id (commitW sv m) = commitW sv m"
    by (rule ext) (simp add: mapErrorW_def split: prod.splits sum.splits)
  with mapped [of id] show "runs (cleans rid) (bindW (commitW sv m) (\<lambda>(keys, held). cleanupOrphanedReviewObjects keys held))" by simp
qed

lemma approveFiles_quiet: "runs (cleans rid) (approveWithVersionFiles sv sc p)"
  by (intro logs_cleans approveFiles_logs) simp

lemma autoApprove_cleans: "runs (cleans (rr_ID q)) (autoApproveReview sv caller q task)"
  unfolding autoApproveReview_def
  by (intro cleanRun.runs_bind cleanRun.runs_cases cleanRun.runs_try cleanRun.runs_pure approveFiles_quiet cleanup_cleans cleanRun.runs_if
      logs_cleans [OF tellW_logs]) (simp_all add: cancel_orphans)

lemma card_cleans: "runs (cleans (trimSpace rid)) (DecideReviewFromCard sv ev op dec rid)"
proof -
  note parts = cleanRun.runs_rules logs_cleans [OF readW_logs] logs_cleans [OF card_reads_logs(1)] logs_cleans [OF card_reads_logs(2)]
    logs_cleans [OF card_reads_logs(3)] approveFiles_quiet logs_cleans [OF commitW_logs]
  have applied: "runs (cleans rid') (applyCardDecision sv op' dec' rid' q c)" for op' dec' rid' q c
  proof -
    have "runs (cleans rid') (bindW (commitW sv (RejectReview (sv_Repo sv) sc p)) (\<lambda>(keys, held). cleanupOrphanedReviewObjects keys held))"
      if "rj_ReviewID p = rid'" for sc p
      using reject_orphans that by (intro commit_cleanup(2)) blast
    then show ?thesis unfolding applyCardDecision_def Let_def
      by (cases "dec' = ''approve''") (simp_all add: cleanRun.runs_bind cleanRun.runs_pure approveFiles_quiet)
  qed
  show ?thesis
    unfolding DecideReviewFromCard_def decideCardAction_def operatorRole_def keepCardAnswer_def Let_def
    by (intro parts applied; simp)
qed

text \<open>C35: the cleanup after a rejection, a withdrawal, a denied card and a failed automatic approval deletes nothing
  that is still in use. Each object key such a run deletes was frozen on the open request it decided, and in
  the store that its transaction left neither the live plugin nor any of its versions names the key.\<close>

theorem review_cleanup_safe:
  "cleans (trimSpace rid) w (snd (ServiceRejectReview sv caller rid reason w)) \<and>
   cleans (trimSpace rid) w (snd (ServiceCancelReview sv caller rid w)) \<and>
   cleans (trimSpace rid) w (snd (DecideReviewFromCard sv ev op dec rid w)) \<and>
   cleans (rr_ID q) w (snd (autoApproveReview sv caller q task w))"
proof -
  have "runs (cleans (trimSpace rid)) (ServiceRejectReview sv caller rid reason)"
    unfolding ServiceRejectReview_def validateCaller_def Let_def
    by (intro cleanRun.runs_bind cleanRun.runs_pure commit_cleanup(1)) (drule reject_orphans; simp)
  moreover have "runs (cleans (trimSpace rid)) (ServiceCancelReview sv caller rid)"
    unfolding ServiceCancelReview_def validateCaller_def Let_def
    by (intro cleanRun.runs_bind cleanRun.runs_pure commit_cleanup(1)) (rule cancel_orphans)
  ultimately show ?thesis using card_cleans autoApprove_cleans unfolding runs_def by blast
qed

section \<open>Automatic approval leaves no silent request\<close>

lemma unique_request: "queueOK s \<Longrightarrow> x \<in> set (reviews s) \<Longrightarrow> y \<in> set (reviews s) \<Longrightarrow> rr_ID x = rr_ID y \<Longrightarrow> x = y"
  unfolding queueOK_def distinct_map by (blast dest: inj_onD)

lemma approved_not_pending:
  assumes "ApproveReview r sc p s = Inr (out, s')" and "queueOK s" and "y \<in> set (reviews s')" and "rr_ID y = ap_ReviewID p"
  shows "rr_Status y \<noteq> ReviewStatusPending"
proof -
  from ApproveReview_decides [OF assms(1,2)] obtain q t where "openRequest (ap_ReviewID p) (s_SpaceID sc) q" "queueOK s'"
    "markSettled (ap_ReviewerUID p) (ap_ReviewerName p) (decisionSource (ap_DecisionSource p)) t q \<in> set (reviews s')" by blast
  note settled = this
  have "y = markSettled (ap_ReviewerUID p) (ap_ReviewerName p) (decisionSource (ap_DecisionSource p)) t q"
    by (rule unique_request [OF settled(2) assms(3) settled(3)]) (use settled(1) assms(4) in \<open>simp add: openRequest_def markSettled_def\<close>)
  then show ?thesis by (simp add: markSettled_def)
qed

lemma canceled_not_pending:
  assumes "CancelReview r sc i uid s = Inr (out, s')" and "queueOK s" and "y \<in> set (reviews s')" and "rr_ID y = i"
  shows "rr_Status y \<noteq> ReviewStatusPending"
proof -
  have "find (ownRequest i (s_SpaceID sc) uid) (reviews s) \<noteq> None"
    using assms(1) by (auto simp: CancelReview_def tx_eval split: option.splits)
  then obtain q where q: "find (ownRequest i (s_SpaceID sc) uid) (reviews s) = Some q" by blast
  from CancelReview_withdrawn [OF assms(1) q] obtain t where "markWithdrawn t q \<in> set (reviews s')" by blast
  note withdrawn = this
  have "queueOK s'" using stepsD [OF CancelReview_requests(2) assms(1)] assms(2) by (simp add: keepsQueue_def)
  from unique_request [OF this assms(3) withdrawn] have "y = markWithdrawn t q"
    using find_Some_mem [OF q] assms(4) by (simp add: ownRequest_def markWithdrawn_def)
  then show ?thesis by (simp add: markWithdrawn_def)
qed

lemma arrive_reach: "peers sv \<Longrightarrow> reach (sv_Repo sv) (w_Store w) \<Longrightarrow> reach (sv_Repo sv) (w_Store (arrive sv w))"
  by (auto simp: peers_def arrive_def intro: reach_star)

lemma approveFiles_run:
  assumes "approveWithVersionFiles sv sc p w = (Inr out, w')" and "peers sv" and "reach (sv_Repo sv) (w_Store w)"
  shows "\<exists>s. queueOK s \<and> ApproveReview (sv_Repo sv) sc p s = Inr (out, w_Store w')"
proof -
  let ?checks = "if sv_VersionManagement sv then verifyFrozenFiles sv sc (ap_ReviewID p) else returnW ()"
  from assms(1) obtain w1 where checks: "?checks w = (Inr (), w1)"
    and com: "ApproveReview (sv_Repo sv) sc p (w_Store (arrive sv w1)) = Inr (out, w_Store w')"
    unfolding approveWithVersionFiles_def by (auto simp: bindW_Inr commitW_Inr)
  have "runs (moves (sv_Repo sv)) ?checks"
    unfolding verifyFrozenFiles_def Let_def by (intro storeRun.runs_rules readW_moves assms(2))
  from runsD [OF this checks] have "reach (sv_Repo sv) (w_Store w1)" using assms(3) by (auto simp: moves_def intro: reach_star)
  from reach_ok [OF arrive_reach [OF assms(2) this]] com show ?thesis by blast
qed


section \<open>Runs of the service\<close>

definition sampleService :: Service where
  "sampleService = \<lparr>sv_Repo = sampleRepo, sv_VersionManagement = False, sv_Files = sampleFiles, sv_RoleEnabled = True,
     sv_MemberRole = (\<lambda>_ _. Inr (Some 1)), sv_ParseTasks = True, sv_Now = (\<lambda>n. n), sv_Others = (\<lambda>_ s. s), sv_Outcome = (\<lambda>_. Works)\<rparr>"

definition sampleWorld :: World where
  "sampleWorld = \<lparr>w_Store = queuedStore, w_Turn = 0, w_Log = []\<rparr>"

definition sampleCaller :: Caller where
  "sampleCaller = \<lparr>c_UID = ''u1'', c_Name = ''n'', c_SpaceID = ''s1'', c_BotUID = '''', c_BotName = '''', c_RequestID = ''x'',
     c_IsSystemAdmin = False, c_SpaceRole = 0\<rparr>"

lemma sample_peers: "peers sampleService" "sv_Repo sampleService = sampleRepo" "reach sampleRepo (w_Store sampleWorld)"
  using sample_run(3) by (simp_all add: peers_def sampleService_def sampleWorld_def)

theorem card_answer_durable_witness:
  "\<exists>res w1. DecideReviewFromCard sampleService ''7'' ''u9'' ''deny'' (rr_ID (hd (reviews queuedStore))) sampleWorld = (Inr res, w1) \<and>
     ca_Disposition res = ''applied'' \<and> length (w_Log w1) = 1 \<and>
     fst (DecideReviewFromCard sampleService ''7'' ''u9'' ''deny'' (rr_ID (hd (reviews queuedStore))) w1) = Inr res \<and>
     w_Log (snd (DecideReviewFromCard sampleService ''7'' ''u9'' ''approve'' (rr_ID (hd (reviews queuedStore))) w1)) = w_Log w1"
proof -
  let ?run = "DecideReviewFromCard sampleService ''7'' ''u9'' ''deny'' (rr_ID (hd (reviews queuedStore))) sampleWorld"
  have "case fst ?run of Inl _ \<Rightarrow> False | Inr res \<Rightarrow> ca_Disposition res = ''applied''" "length (w_Log (snd ?run)) = 1" by code_simp+
  then obtain res w1 where run: "?run = (Inr res, w1)" and res: "ca_Disposition res = ''applied''" "length (w_Log w1) = 1"
    by (cases ?run) (auto split: sum.splits)
  have works: "sv_Outcome sampleService (w_Turn w1) = Works" by (simp add: sampleService_def)
  from card_answer_durable [OF run sample_peers(1) _ rtranclp.rtrancl_refl sample_peers(1) refl works] sample_peers(2,3) run res
  show ?thesis by auto
qed

theorem card_decision_authorized_witness:
  "\<exists>out w' a b. DecideReviewFromCard sampleService ''7'' ''u9'' ''deny'' (rr_ID (hd (reviews queuedStore))) sampleWorld = (out, w') \<and>
     w_Log w' = [Commit a b] \<and> reviews a \<noteq> reviews b \<and> (\<forall>c \<in> set (receipts a). cr_EventID c \<noteq> ''7'')"
proof -
  let ?run = "DecideReviewFromCard sampleService ''7'' ''u9'' ''deny'' (rr_ID (hd (reviews queuedStore))) sampleWorld"
  have log: "case w_Log (snd ?run) of [Commit a b] \<Rightarrow> reviews a \<noteq> reviews b | _ \<Rightarrow> False" by code_simp
  obtain out w' where run: "?run = (out, w')" by (cases ?run)
  from log run have "case w_Log w' of [Commit a b] \<Rightarrow> reviews a \<noteq> reviews b | _ \<Rightarrow> False" by simp
  then obtain a b where ab: "w_Log w' = [Commit a b]" "reviews a \<noteq> reviews b"
    by (cases "w_Log w'"; cases "tl (w_Log w')"; cases "hd (w_Log w')") auto
  have "\<not> sameExcept {TReceipts} a b" using ab(2) by (auto dest: sameExcept_reviews)
  moreover have "trimSpace ''7'' = ''7''" "w_Log sampleWorld = []" by code_simp+
  ultimately show ?thesis using card_decision_authorized [OF run] run ab by auto
qed


end
