(* ===== verification/Diagnostics.thy ===== *)
theory Diagnostics
  imports Reads
begin

text \<open>
  Diagnostics of unavailable dependencies (\<open>dependency_availability.go\<close>): the edges a root and the
  members of a team declare, the state of their targets, the reason an edge is broken for, and the
  names a caller may be told. The statements read four stores: the check of the roots, the edges, the
  targets with their releases, and the names.
\<close>

section \<open>Edges\<close>

record dependencyEdge =
  de_TargetID :: string
  de_RelationType :: string
  de_TargetName :: string
  de_TargetVersionID :: "string option"
  de_TargetExists :: bool
  de_TargetActive :: bool
  de_TargetListed :: bool
  de_ReleaseExists :: bool
  de_Formal :: bool
  de_TargetEmbedded :: bool
  de_TargetPublished :: string
  de_RootID :: string
  de_Via :: "string list"

definition reason :: "dependencyEdge \<Rightarrow> string" where
  "reason e =
     (if \<not> de_TargetExists e \<or> \<not> de_TargetActive e then ''deleted''
      else if \<not> de_TargetListed e then ''delisted''
      else if de_RelationType e \<noteq> ''expert_connector'' \<and> (de_TargetVersionID e \<noteq> None \<or> de_Formal e) \<and> \<not> de_ReleaseExists e \<and>
              \<not> (de_TargetEmbedded e \<and> de_TargetVersionID e = None) then ''release_missing''
      else '''')"

definition declaredEdge :: "bool \<Rightarrow> PluginRelation \<Rightarrow> dependencyEdge" where
  "declaredEdge formal e = \<lparr>de_TargetID = r_TargetPluginID e, de_RelationType = r_Type e, de_TargetName = '''',
     de_TargetVersionID = r_TargetVersionID e, de_TargetExists = False, de_TargetActive = False, de_TargetListed = False,
     de_ReleaseExists = False, de_Formal = formal, de_TargetEmbedded = False, de_TargetPublished = '''', de_RootID = '''', de_Via = []\<rparr>"

definition dependencyType :: "PluginRelation \<Rightarrow> bool" where
  "dependencyType e \<longleftrightarrow> r_Type e \<in> {''expert_skill'', ''expert_connector'', ''expert_team_expert''}"

definition loadSnapshotEdges :: "Store \<Rightarrow> string \<Rightarrow> string \<Rightarrow> dependencyEdge list" where
  "loadSnapshotEdges s sourceID versionID =
     (case versionRow s sourceID versionID of
        None \<Rightarrow> []
      | Some v \<Rightarrow> map (declaredEdge True) (filter (\<lambda>e. liveSnapshotEdge e \<and> dependencyType e) (v_Relations v)))"

definition loadLiveEdges :: "Store \<Rightarrow> string \<Rightarrow> dependencyEdge list" where
  "loadLiveEdges s sourceID =
     map (declaredEdge False) (filter (\<lambda>e. r_SourcePluginID e = sourceID \<and> liveSnapshotEdge e \<and> dependencyType e) (relations s))"

definition loadDependencyEdges :: "Store \<Rightarrow> string \<Rightarrow> dependencyEdge list" where
  "loadDependencyEdges s sourceID =
     (case find (\<lambda>p. p_ID p = sourceID \<and> livePlugin p) (plugins s) of
        None \<Rightarrow> []
      | Some p \<Rightarrow>
          (case p_PublishedVersionID p of
             Some v \<Rightarrow> if v \<noteq> '''' then loadSnapshotEdges s sourceID v else loadLiveEdges s sourceID
           | None \<Rightarrow> loadLiveEdges s sourceID))"

section \<open>Targets\<close>

text \<open>The version an edge stands for: its pin, or else what its target has released.\<close>

definition edgeVersion :: "dependencyEdge \<Rightarrow> string" where
  "edgeVersion e = (case de_TargetVersionID e of None \<Rightarrow> de_TargetPublished e | Some v \<Rightarrow> v)"

definition snapshotName :: "Store \<Rightarrow> string \<Rightarrow> string \<Rightarrow> string" where
  "snapshotName s i v = (case Option.bind (versionRow s i v) (\<lambda>x. manifestText ''plugin_name'' (v_Manifest x)) of None \<Rightarrow> '''' | Some n \<Rightarrow> n)"

definition batchDependencyTargetInfo :: "Store \<Rightarrow> dependencyEdge \<Rightarrow> dependencyEdge" where
  "batchDependencyTargetInfo s e =
     (case lookupBy p_ID (de_TargetID e) (plugins s) of
        None \<Rightarrow> e
      | Some t \<Rightarrow>
          let published = (case p_PublishedVersionID t of None \<Rightarrow> '''' | Some v \<Rightarrow> v);
              version = (case de_TargetVersionID e of None \<Rightarrow> published | Some v \<Rightarrow> v) in
          e\<lparr>de_TargetExists := True, de_TargetActive := livePlugin t, de_TargetListed := listedSQL t, de_TargetEmbedded := p_IsEmbedded t,
            de_TargetName := (if p_Type t = PluginTypeConnector then p_Name t else snapshotName s (p_ID t) published),
            de_TargetPublished := published,
            de_ReleaseExists := version \<noteq> '''' \<and> releaseExists s (de_TargetID e) (Some version)\<rparr>)"

definition nameAuthorized :: "Scope \<Rightarrow> Plugin \<Rightarrow> bool" where
  "nameAuthorized sc t \<longleftrightarrow> s_Admin sc \<or>
     (case p_Visibility t of
        PluginVisibilityPublic \<Rightarrow> True
      | PluginVisibilitySystem \<Rightarrow> True
      | PluginVisibilitySpace \<Rightarrow> p_SpaceID t = Some (s_SpaceID sc)
      | PluginVisibilityPrivate \<Rightarrow> p_SpaceID t = Some (s_SpaceID sc) \<and> p_OwnerUID t = s_CallerUID sc)"

definition batchDependencyTargetNames :: "Store \<Rightarrow> Scope \<Rightarrow> dependencyEdge \<Rightarrow> dependencyEdge" where
  "batchDependencyTargetNames s sc e =
     e\<lparr>de_TargetName :=
        (case lookupBy p_ID (de_TargetID e) (plugins s) of
           None \<Rightarrow> ''''
         | Some t \<Rightarrow>
             if \<not> nameAuthorized sc t then ''''
             else if p_Type t = PluginTypeConnector then p_Name t
             else snapshotName s (de_TargetID e) (edgeVersion e))\<rparr>"

section \<open>Issues\<close>

record DependencyIssue =
  di_TargetPluginID :: string
  di_TargetName :: string
  di_RelationType :: string
  di_Reason :: string
  di_Via :: "string list"

definition diagnosed :: "Plugin \<Rightarrow> bool" where
  "diagnosed p \<longleftrightarrow> p_ListingState p \<noteq> PluginListingStateDraft \<and> (p_Type p = PluginTypeExpert \<or> p_Type p = PluginTypeExpertTeam)"

definition memberEdges :: "Store \<Rightarrow> dependencyEdge \<Rightarrow> dependencyEdge list" where
  "memberEdges s e =
     (if de_RelationType e \<noteq> ''expert_team_expert'' then []
      else map (\<lambda>m. m\<lparr>de_Via := [de_TargetID e]\<rparr>)
        (case de_TargetVersionID e of Some v \<Rightarrow> loadSnapshotEdges s (de_TargetID e) v | None \<Rightarrow> loadDependencyEdges s (de_TargetID e)))"

definition rootEdges :: "Store \<Rightarrow> Plugin \<Rightarrow> dependencyEdge list" where
  "rootEdges s root =
     (let edges = loadDependencyEdges s (p_ID root) in
      map (\<lambda>e. e\<lparr>de_RootID := p_ID root\<rparr>)
        (edges @ (if p_Type root = PluginTypeExpertTeam then concat (map (memberEdges s) edges) else [])))"

definition issueOf :: "dependencyEdge \<Rightarrow> DependencyIssue" where
  "issueOf e = \<lparr>di_TargetPluginID = de_TargetID e, di_TargetName = de_TargetName e, di_RelationType = de_RelationType e,
     di_Reason = reason e, di_Via = de_Via e\<rparr>"

fun joinSlash :: "string list \<Rightarrow> string" where
  "joinSlash [] = ''''"
| "joinSlash [x] = x"
| "joinSlash (x # y # xs) = x @ ''/'' @ joinSlash (y # xs)"

definition issueKey :: "DependencyIssue \<Rightarrow> string" where
  "issueKey i = joinSlash (di_Via i) @ di_RelationType i @ di_TargetPluginID i"

definition DependencyIssues ::
  "Store \<Rightarrow> Store \<Rightarrow> Store \<Rightarrow> Store \<Rightarrow> Scope \<Rightarrow> Plugin list \<Rightarrow> RepoError + (string \<times> DependencyIssue list) list" where
  "DependencyIssues s0 s1 s2 s3 sc roots =
     (let chosen = filter diagnosed roots; ids = map p_ID chosen;
          own = filter (\<lambda>p. p_ID p \<in> set ids \<and> livePlugin p \<and> p_OwnerUID p = s_CallerUID sc \<and> p_SpaceID p = Some (s_SpaceID sc)) (plugins s0);
          edges = map (batchDependencyTargetNames s3 sc \<circ> batchDependencyTargetInfo s2) (concat (map (rootEdges s1) chosen));
          broken = filter (\<lambda>e. reason e \<noteq> '''') edges in
      if ids \<noteq> [] \<and> \<not> s_Admin sc \<and> length own \<noteq> length ids then Inl ErrNotFound
      else Inr (map (\<lambda>i. (i, sort_key issueKey (map issueOf (filter (\<lambda>e. de_RootID e = i) broken)))) (remdups (map de_RootID broken))))"

section \<open>Issues and availability\<close>

text \<open>
  What the catalog's predicate refuses and no issue names: a private target the root's readers cannot
  follow, and a bundled target of another owner or Space. An edge is explainable when neither occurs
  and no version id is empty.
\<close>

definition explainable :: "Store \<Rightarrow> Plugin \<Rightarrow> Plugin \<Rightarrow> PluginRelation \<Rightarrow> bool" where
  "explainable s root container e \<longleftrightarrow> r_TargetVersionID e \<noteq> Some '''' \<and>
     (case targetRow s e of
        None \<Rightarrow> True
      | Some t \<Rightarrow> p_PublishedVersionID t \<noteq> Some '''' \<and>
          (p_Visibility t = PluginVisibilityPrivate \<longrightarrow> p_Visibility root \<noteq> PluginVisibilitySpace \<and> p_OwnerUID root = p_OwnerUID t) \<and>
          (p_IsEmbedded t \<longrightarrow> p_OwnerUID t = p_OwnerUID container \<and> p_SpaceID t = p_SpaceID container))"

definition snapshotRelations :: "Store \<Rightarrow> string \<Rightarrow> string option \<Rightarrow> PluginRelation list" where
  "snapshotRelations s i v =
     (case Option.bind v (versionRow s i) of None \<Rightarrow> [] | Some x \<Rightarrow> filter (\<lambda>e. liveSnapshotEdge e \<and> dependencyType e) (v_Relations x))"

text \<open>The relation matrix and a member that is a plugin of its own.\<close>

definition explainableMember :: "Store \<Rightarrow> Plugin \<Rightarrow> PluginRelation \<Rightarrow> bool" where
  "explainableMember s root e \<longleftrightarrow> p_Type root = PluginTypeExpertTeam \<and>
     (case targetRow s e of
        None \<Rightarrow> True
      | Some t \<Rightarrow> \<not> p_IsEmbedded t \<and>
          (\<forall>m \<in> set (snapshotRelations s (r_TargetPluginID e) (coalesce (r_TargetVersionID e) (p_PublishedVersionID t))).
             r_Type m \<noteq> ''expert_team_expert'' \<and> explainable s root t m))"

definition explainableRoot :: "Store \<Rightarrow> Plugin \<Rightarrow> bool" where
  "explainableRoot s root \<longleftrightarrow> p_PublishedVersionID root \<notin> {None, Some ''''} \<and>
     (\<forall>e \<in> set (snapshotRelations s (p_ID root) (p_PublishedVersionID root)).
        explainable s root root e \<and> (r_Type e = ''expert_team_expert'' \<longrightarrow> explainableMember s root e))"

lemma reason_names [simp]: "reason (batchDependencyTargetNames s sc e) = reason e" "de_RootID (batchDependencyTargetNames s sc e) = de_RootID e"
  by (simp_all add: batchDependencyTargetNames_def reason_def)

lemma reason_labels: "reason (e\<lparr>de_RootID := i\<rparr>) = reason e" "reason (e\<lparr>de_Via := w\<rparr>) = reason e"
  by (simp_all add: reason_def)

lemma batchDependencyTargetInfo_labels:
  "batchDependencyTargetInfo s (e\<lparr>de_RootID := i\<rparr>) = (batchDependencyTargetInfo s e)\<lparr>de_RootID := i\<rparr>"
  "batchDependencyTargetInfo s (e\<lparr>de_Via := w\<rparr>) = (batchDependencyTargetInfo s e)\<lparr>de_Via := w\<rparr>"
  by (cases "lookupBy p_ID (de_TargetID e) (plugins s)"; simp add: batchDependencyTargetInfo_def Let_def)+

lemma reason_info_root [simp]:
  "reason (batchDependencyTargetInfo s (e\<lparr>de_RootID := i\<rparr>)) = reason (batchDependencyTargetInfo s e)"
  "reason (batchDependencyTargetInfo s (e\<lparr>de_Via := w\<rparr>)) = reason (batchDependencyTargetInfo s e)"
  unfolding batchDependencyTargetInfo_labels reason_labels by (rule refl)+

lemma reason_snapshot:
  assumes "explainable s root container e" and "dependencyType e"
  shows "reason (batchDependencyTargetInfo s (declaredEdge True e)) \<noteq> '''' \<longleftrightarrow> snapshotTargetUnavailableSQL s root e (targetRow s e) container"
proof (cases "targetRow s e")
  case None
  then show ?thesis by (simp add: batchDependencyTargetInfo_def declaredEdge_def reason_def snapshotTargetUnavailableSQL_def targetRow_def)
next
  case (Some t)
  have info: "batchDependencyTargetInfo s (declaredEdge True e) = (declaredEdge True e)\<lparr>de_TargetExists := True, de_TargetActive := livePlugin t,
      de_TargetListed := listedSQL t, de_TargetEmbedded := p_IsEmbedded t,
      de_TargetName := (if p_Type t = PluginTypeConnector then p_Name t else snapshotName s (p_ID t) (case p_PublishedVersionID t of None \<Rightarrow> '''' | Some v \<Rightarrow> v)),
      de_TargetPublished := (case p_PublishedVersionID t of None \<Rightarrow> '''' | Some v \<Rightarrow> v),
      de_ReleaseExists := releaseExists s (r_TargetPluginID e) (coalesce (r_TargetVersionID e) (p_PublishedVersionID t))\<rparr>"
    using Some assms(1) unfolding batchDependencyTargetInfo_def explainable_def targetRow_def
    by (cases "r_TargetVersionID e"; cases "p_PublishedVersionID t") (simp_all add: declaredEdge_def Let_def coalesce_def releaseExists_def)
  show ?thesis using Some assms unfolding info explainable_def dependencyType_def snapshotTargetUnavailableSQL_def
    by (simp add: reason_def declaredEdge_def livePlugin_def listedSQL_def) blast
qed

lemma loadSnapshotEdges_eq: "loadSnapshotEdges s i v = map (declaredEdge True) (snapshotRelations s i (Some v))"
  by (simp add: loadSnapshotEdges_def snapshotRelations_def split: option.split)

text \<open>The predicates of the catalog over the snapshot a version id names.\<close>

lemma versionRow_unique:
  assumes "distinct (map (\<lambda>v. (v_PluginID v, v_ID v)) (versions s))"
  shows "versionRow s i v = Some x \<longleftrightarrow> x \<in> set (versions s) \<and> v_PluginID x = i \<and> v_ID x = v"
proof
  assume "versionRow s i v = Some x"
  then show "x \<in> set (versions s) \<and> v_PluginID x = i \<and> v_ID x = v" unfolding versionRow_def by (rule find_Some_mem)
next
  have same: "versionRow s i v = lookupBy (\<lambda>v. (v_PluginID v, v_ID v)) (i, v) (versions s)" by (simp add: versionRow_def lookupBy_def)
  assume "x \<in> set (versions s) \<and> v_PluginID x = i \<and> v_ID x = v"
  with lookupBy_unique [OF assms, of x] show "versionRow s i v = Some x" unfolding same by simp
qed

lemma snapshotRelations_mem:
  assumes "distinct (map (\<lambda>v. (v_PluginID v, v_ID v)) (versions s))"
  shows "e \<in> set (snapshotRelations s i w) \<longleftrightarrow>
    (\<exists>x \<in> set (versions s). v_PluginID x = i \<and> w = Some (v_ID x) \<and> e \<in> set (v_Relations x) \<and> dependencyType e \<and> liveSnapshotEdge e)"
proof -
  have "e \<in> set (snapshotRelations s i w) \<longleftrightarrow>
      (\<exists>v x. w = Some v \<and> versionRow s i v = Some x \<and> e \<in> set (v_Relations x) \<and> dependencyType e \<and> liveSnapshotEdge e)"
    by (cases w; cases "Option.bind w (versionRow s i)") (auto simp: snapshotRelations_def)
  then show ?thesis unfolding versionRow_unique [OF assms] by auto
qed

lemma unavailableSnapshotSQL_iff:
  assumes "distinct (map (\<lambda>v. (v_PluginID v, v_ID v)) (versions s))"
  shows "unavailableSnapshotSQL s root i w container \<longleftrightarrow>
    (\<exists>e \<in> set (snapshotRelations s i w). snapshotTargetUnavailableSQL s root e (targetRow s e) container \<or>
       r_Type e = ''expert_team_expert'' \<and> (case targetRow s e of None \<Rightarrow> False | Some t \<Rightarrow> snapshotMemberUnavailableSQL s root e t))"
  unfolding Bex_def snapshotRelations_mem [OF assms] unavailableSnapshotSQL_def dependencyType_def by blast

lemma snapshotMemberUnavailableSQL_iff:
  assumes "distinct (map (\<lambda>v. (v_PluginID v, v_ID v)) (versions s))"
  shows "snapshotMemberUnavailableSQL s root e t \<longleftrightarrow>
    (\<exists>m \<in> set (snapshotRelations s (r_TargetPluginID e) (coalesce (r_TargetVersionID e) (p_PublishedVersionID t))).
       r_Type m \<noteq> ''expert_team_expert'' \<and> snapshotTargetUnavailableSQL s root m (targetRow s m) t)"
  unfolding Bex_def snapshotRelations_mem [OF assms] snapshotMemberUnavailableSQL_def dependencyType_def by auto

text \<open>The edges the diagnostics follow, and which of them are broken.\<close>

definition brokenEdge :: "Store \<Rightarrow> dependencyEdge \<Rightarrow> bool" where
  "brokenEdge s e \<longleftrightarrow> reason (batchDependencyTargetInfo s e) \<noteq> ''''"

lemma DependencyIssues_one:
  assumes "DependencyIssues s s s s sc [p] = Inr out" and "diagnosed p"
  shows "out \<noteq> [] \<longleftrightarrow> (\<exists>e \<in> set (loadDependencyEdges s (p_ID p)). brokenEdge s e \<or>
    p_Type p = PluginTypeExpertTeam \<and> (\<exists>m \<in> set (memberEdges s e). brokenEdge s m))"
proof -
  let ?edges = "map (batchDependencyTargetNames s sc \<circ> batchDependencyTargetInfo s) (rootEdges s p)"
  let ?broken = "filter (\<lambda>e. reason e \<noteq> '''') ?edges"
  from assms have "out = map (\<lambda>i. (i, sort_key issueKey (map issueOf (filter (\<lambda>e. de_RootID e = i) ?broken)))) (remdups (map de_RootID ?broken))"
    by (simp add: DependencyIssues_def Let_def split: if_splits)
  then have "out \<noteq> [] \<longleftrightarrow> ?broken \<noteq> []" by simp
  also have "\<dots> \<longleftrightarrow> (\<exists>e \<in> set (rootEdges s p). brokenEdge s e)"
    by (simp add: filter_empty_conv brokenEdge_def)
  also have "\<dots> \<longleftrightarrow> (\<exists>e \<in> set (loadDependencyEdges s (p_ID p)). brokenEdge s e) \<or>
      p_Type p = PluginTypeExpertTeam \<and> (\<exists>e \<in> set (loadDependencyEdges s (p_ID p)). \<exists>m \<in> set (memberEdges s e). brokenEdge s m)"
    by (simp add: rootEdges_def Let_def brokenEdge_def bex_Un) blast
  finally show ?thesis by blast
qed

lemma find_live_unique:
  assumes "distinct (map p_ID ps)" and "t \<in> set ps" and "livePlugin t"
  shows "find (\<lambda>p. p_ID p = p_ID t \<and> livePlugin p) ps = Some t"
  using assms by (induction ps) auto

lemma loadDependencyEdges_released:
  assumes "distinct (map p_ID (plugins s))" and "t \<in> set (plugins s)" and "livePlugin t" and "p_PublishedVersionID t = Some v" and "v \<noteq> ''''"
  shows "loadDependencyEdges s (p_ID t) = map (declaredEdge True) (snapshotRelations s (p_ID t) (Some v))"
proof -
  have "find (\<lambda>p. p_ID p = p_ID t \<and> livePlugin p) (plugins s) = Some t"
    by (rule find_live_unique [OF assms(1-3)])
  then show ?thesis using assms(4,5) by (simp add: loadDependencyEdges_def loadSnapshotEdges_eq)
qed

lemma memberEdges_released:
  assumes ids: "distinct (map p_ID (plugins s))" and t: "targetRow s e = Some t" and team: "r_Type e = ''expert_team_expert''"
    and ex: "explainable s root container e" and own: "\<not> p_IsEmbedded t" and sound: "\<not> brokenEdge s (declaredEdge True e)"
  shows "memberEdges s (declaredEdge True e) = map (\<lambda>m. (declaredEdge True m)\<lparr>de_Via := [r_TargetPluginID e]\<rparr>)
    (snapshotRelations s (r_TargetPluginID e) (coalesce (r_TargetVersionID e) (p_PublishedVersionID t)))"
proof -
  have dep: "dependencyType e" using team by (simp add: dependencyType_def)
  from sound reason_snapshot [OF ex dep] t own team have live: "livePlugin t"
    and rel: "releaseExists s (r_TargetPluginID e) (coalesce (r_TargetVersionID e) (p_PublishedVersionID t))"
    unfolding brokenEdge_def snapshotTargetUnavailableSQL_def livePlugin_def by simp_all
  from t have row: "t \<in> set (plugins s)" "p_ID t = r_TargetPluginID e" unfolding targetRow_def by (auto dest: lookupBy_Some)
  show ?thesis
  proof (cases "r_TargetVersionID e")
    case None
    with rel obtain v where v: "p_PublishedVersionID t = Some v" by (auto simp: releaseExists_def coalesce_def)
    moreover from ex t v have "v \<noteq> ''''" by (simp add: explainable_def)
    ultimately show ?thesis using loadDependencyEdges_released [OF ids row(1) live] None team row(2)
      by (simp add: memberEdges_def declaredEdge_def coalesce_def)
  next
    case (Some v)
    then show ?thesis using team by (simp add: memberEdges_def loadSnapshotEdges_eq coalesce_def declaredEdge_def)
  qed
qed

lemma edge_explained:
  assumes ids: "distinct (map p_ID (plugins s))" and keys: "distinct (map (\<lambda>v. (v_PluginID v, v_ID v)) (versions s))"
    and dep: "dependencyType e" and ex: "explainable s root root e" and member: "r_Type e = ''expert_team_expert'' \<longrightarrow> explainableMember s root e"
  shows "brokenEdge s (declaredEdge True e) \<or> p_Type root = PluginTypeExpertTeam \<and> (\<exists>m \<in> set (memberEdges s (declaredEdge True e)). brokenEdge s m) \<longleftrightarrow>
    snapshotTargetUnavailableSQL s root e (targetRow s e) root \<or>
      r_Type e = ''expert_team_expert'' \<and> (case targetRow s e of None \<Rightarrow> False | Some t \<Rightarrow> snapshotMemberUnavailableSQL s root e t)"
proof (cases "brokenEdge s (declaredEdge True e) \<or> r_Type e \<noteq> ''expert_team_expert''")
  case True
  moreover have "memberEdges s (declaredEdge True e) = []" if "r_Type e \<noteq> ''expert_team_expert''"
    using that by (simp add: memberEdges_def declaredEdge_def)
  ultimately show ?thesis using reason_snapshot [OF ex dep] unfolding brokenEdge_def by auto
next
  case False
  then have sound: "\<not> brokenEdge s (declaredEdge True e)" and team: "r_Type e = ''expert_team_expert''" by simp_all
  with reason_snapshot [OF ex dep] have avail: "\<not> snapshotTargetUnavailableSQL s root e (targetRow s e) root" unfolding brokenEdge_def by simp
  then obtain t where t: "targetRow s e = Some t" by (cases "targetRow s e") (simp_all add: snapshotTargetUnavailableSQL_def)
  let ?rels = "snapshotRelations s (r_TargetPluginID e) (coalesce (r_TargetVersionID e) (p_PublishedVersionID t))"
  from member team t have mem: "p_Type root = PluginTypeExpertTeam" "\<not> p_IsEmbedded t"
    "\<forall>m \<in> set ?rels. r_Type m \<noteq> ''expert_team_expert'' \<and> explainable s root t m" by (simp_all add: explainableMember_def)
  have "dependencyType m" if "m \<in> set ?rels" for m using that unfolding snapshotRelations_mem [OF keys] by blast
  then have "(\<exists>m \<in> set (memberEdges s (declaredEdge True e)). brokenEdge s m) \<longleftrightarrow>
      (\<exists>m \<in> set ?rels. r_Type m \<noteq> ''expert_team_expert'' \<and> snapshotTargetUnavailableSQL s root m (targetRow s m) t)"
    unfolding memberEdges_released [OF ids t team ex mem(2) sound] using mem(3) reason_snapshot
    by (simp add: brokenEdge_def) blast
  with sound avail team t mem(1) show ?thesis by (simp add: snapshotMemberUnavailableSQL_iff [OF keys])
qed


section \<open>Names\<close>

lemma batchDependencyTargetNames_authorized:
  assumes "de_TargetName (batchDependencyTargetNames s sc e) \<noteq> ''''"
  shows "\<exists>t \<in> set (plugins s). p_ID t = de_TargetID (batchDependencyTargetNames s sc e) \<and> nameAuthorized sc t"
proof (cases "lookupBy p_ID (de_TargetID e) (plugins s)")
  case None
  with assms show ?thesis by (simp add: batchDependencyTargetNames_def)
next
  case (Some t)
  with assms have "nameAuthorized sc t" by (simp add: batchDependencyTargetNames_def split: if_splits)
  with lookupBy_Some [OF Some] show ?thesis by (auto simp: batchDependencyTargetNames_def)
qed

lemma grouped_mem:
  assumes "(i, ys) \<in> set (map (\<lambda>i. (i, sort_key k (map g (filter (\<lambda>e. h e = i) xs)))) is)" and "y \<in> set ys"
  shows "\<exists>e \<in> set xs. h e = i \<and> y = g e"
  using assms by auto

text \<open>Diagnostics are for the owner and no oracle for names: an answer to a caller who is not an
  administrator is about live roots of the caller's own in the Space, every issue carries a reason, and a
  target is named only to a caller in its audience at the moment the name is read.\<close>

theorem DependencyIssues_names:
  assumes run: "DependencyIssues s0 s1 s2 s3 sc roots = Inr out" and ids: "distinct (map p_ID (plugins s0))"
    and mem: "(i, issues) \<in> set out" and x: "x \<in> set issues"
  shows "di_Reason x \<in> {''deleted'', ''delisted'', ''release_missing''} \<and>
    (s_Admin sc \<or>
       (\<exists>p \<in> set (plugins s0). p_ID p = i \<and> livePlugin p \<and> p_OwnerUID p = s_CallerUID sc \<and> p_SpaceID p = Some (s_SpaceID sc))) \<and>
    (di_TargetName x \<noteq> '''' \<longrightarrow> (\<exists>t \<in> set (plugins s3). p_ID t = di_TargetPluginID x \<and> (s_Admin sc \<or> inAudience sc t)))"
proof -
  let ?chosen = "filter diagnosed roots"
  let ?own = "filter (\<lambda>p. p_ID p \<in> set (map p_ID ?chosen) \<and> livePlugin p \<and> p_OwnerUID p = s_CallerUID sc \<and> p_SpaceID p = Some (s_SpaceID sc)) (plugins s0)"
  let ?edges = "map (batchDependencyTargetNames s3 sc \<circ> batchDependencyTargetInfo s2) (concat (map (rootEdges s1) ?chosen))"
  let ?broken = "filter (\<lambda>e. reason e \<noteq> '''') ?edges"
  from run have out: "out = map (\<lambda>i. (i, sort_key issueKey (map issueOf (filter (\<lambda>e. de_RootID e = i) ?broken)))) (remdups (map de_RootID ?broken))"
    and own: "map p_ID ?chosen = [] \<or> s_Admin sc \<or> length ?own = length (map p_ID ?chosen)"
    by (simp_all add: DependencyIssues_def Let_def split: if_splits)
  from grouped_mem [OF mem [unfolded out] x] obtain e where e: "e \<in> set ?broken" "de_RootID e = i" "x = issueOf e" by blast
  have "e \<in> set ?edges" and why: "reason e \<noteq> ''''" using e(1) unfolding set_filter by blast+
  then obtain e0 where e0: "e0 \<in> set (concat (map (rootEdges s1) ?chosen))" "e = batchDependencyTargetNames s3 sc (batchDependencyTargetInfo s2 e0)"
    unfolding set_map comp_apply by blast
  have reason: "di_Reason x \<in> {''deleted'', ''delisted'', ''release_missing''}" using why unfolding e(3) issueOf_def by (simp add: reason_def split: if_splits)
  have rootID: "i \<in> set (map p_ID ?chosen)"
  proof -
    from e0(1) obtain p where "p \<in> set ?chosen" "de_RootID e0 = p_ID p" by (auto simp: rootEdges_def Let_def)
    moreover have "de_RootID (batchDependencyTargetInfo s2 e0) = de_RootID e0" by (simp add: batchDependencyTargetInfo_def Let_def split: option.split)
    ultimately show ?thesis using e(2) e0(2) by (simp add: rev_image_eqI)
  qed
  have owned: "\<exists>p \<in> set (plugins s0). p_ID p = i \<and> livePlugin p \<and> p_OwnerUID p = s_CallerUID sc \<and> p_SpaceID p = Some (s_SpaceID sc)"
    if "\<not> s_Admin sc"
  proof -
    have "map p_ID ?chosen \<noteq> []" using rootID by (metis empty_iff empty_set)
    with own that have len: "length (map p_ID ?own) = length (map p_ID ?chosen)" unfolding length_map by blast
    have dist: "distinct (map p_ID ?own)" using ids by (simp add: distinct_map_filter)
    have sub: "set (map p_ID ?own) \<subseteq> set (map p_ID ?chosen)" by auto
    have "card (set (map p_ID ?chosen)) \<le> card (set (map p_ID ?own))"
      unfolding distinct_card [OF dist] len by (rule card_length)
    with sub have "set (map p_ID ?own) = set (map p_ID ?chosen)" by (intro card_seteq) simp_all
    with rootID have "i \<in> p_ID ` set ?own" by (simp only: set_map)
    then show ?thesis by auto
  qed
  have "\<exists>t \<in> set (plugins s3). p_ID t = di_TargetPluginID x \<and> (s_Admin sc \<or> inAudience sc t)" if "di_TargetName x \<noteq> ''''"
    using that batchDependencyTargetNames_authorized [of s3 sc "batchDependencyTargetInfo s2 e0"]
    unfolding e(3) e0(2) issueOf_def nameAuthorized_def inAudience_def by (auto split: PluginVisibility.splits)
  with reason owned show ?thesis by blast
qed

section \<open>A hidden expert and a listed team\<close>

text \<open>An expert released with a pinned skill that has been taken off the market.\<close>

definition hiddenStore :: Store where
  "hiddenStore = emptyStore\<lparr>
     plugins := [(samplePlugin ''k'' PluginTypeSkill ''u1'')\<lparr>p_PublishedVersionID := Some ''v1'', p_ListingState := PluginListingStateDelisted\<rparr>,
       (samplePlugin ''e'' PluginTypeExpert ''u1'')\<lparr>p_PublishedVersionID := Some ''v2''\<rparr>],
     versions := [(sampleVersion ''k'' ''v1'' [])\<lparr>v_Manifest := Some (JObj [(''plugin_name'', JStr ''kit'')])\<rparr>,
       sampleVersion ''e'' ''v2'' [(sampleEdge ''e'' ''k'' ''expert_skill'')\<lparr>r_TargetVersionID := Some ''v1''\<rparr>]],
     releases := [sampleRelease ''k'' ''v1'', sampleRelease ''e'' ''v2'']\<rparr>"

definition hiddenExpert :: Plugin where
  "hiddenExpert = (samplePlugin ''e'' PluginTypeExpert ''u1'')\<lparr>p_PublishedVersionID := Some ''v2''\<rparr>"


theorem DependencyIssues_names_witness:
  "\<exists>out issues x. DependencyIssues hiddenStore hiddenStore hiddenStore hiddenStore sampleOwner [hiddenExpert] = Inr out \<and>
     (''e'', issues) \<in> set out \<and> x \<in> set issues \<and> di_TargetName x = ''kit'' \<and>
     (\<exists>t \<in> set (plugins hiddenStore). p_ID t = di_TargetPluginID x \<and> inAudience sampleOwner t)"
proof -
  let ?run = "DependencyIssues hiddenStore hiddenStore hiddenStore hiddenStore sampleOwner [hiddenExpert]"
  have "\<not> isl ?run" "map (\<lambda>(i, xs). (i, map di_TargetName xs)) (projr ?run) = [(''e'', [''kit''])]" by code_simp+
  then obtain out where run: "?run = Inr out" and names: "map (\<lambda>(i, xs). (i, map di_TargetName xs)) out = [(''e'', [''kit''])]" by (cases ?run) auto
  then obtain issues x where mem: "(''e'', issues) \<in> set out" "x \<in> set issues" and name: "di_TargetName x = ''kit''"
    by (cases out) (auto simp: Cons_eq_map_conv)
  have "distinct (map p_ID (plugins hiddenStore))" "\<not> s_Admin sampleOwner" by code_simp+
  with DependencyIssues_names [OF run _ mem] run mem name show ?thesis by auto
qed

text \<open>Where the explanation ends: the diagnostics of a released team follow the live edges of a bundled
  member, which the catalog does not read. Here the catalog lists the team although its owner is told of a
  broken dependency.\<close>

definition bundledTeam :: Plugin where
  "bundledTeam = (samplePlugin ''t'' PluginTypeExpertTeam ''u1'')\<lparr>p_PublishedVersionID := Some ''v2''\<rparr>"

definition bundledTeamStore :: Store where
  "bundledTeamStore = emptyStore\<lparr>
     plugins := [(samplePlugin ''k'' PluginTypeSkill ''u1'')\<lparr>p_ListingState := PluginListingStateDelisted\<rparr>,
       (samplePlugin ''m'' PluginTypeExpert ''u1'')\<lparr>p_IsEmbedded := True\<rparr>, bundledTeam],
     relations := [sampleEdge ''m'' ''k'' ''expert_skill''],
     versions := [sampleVersion ''t'' ''v2'' [sampleEdge ''t'' ''m'' ''expert_team_expert'']],
     releases := [sampleRelease ''t'' ''v2'']\<rparr>"

lemma bundled_member_diagnosed:
  "\<not> unavailableDependencySQL bundledTeamStore bundledTeam \<and>
   \<not> isl (DependencyIssues bundledTeamStore bundledTeamStore bundledTeamStore bundledTeamStore sampleOwner [bundledTeam]) \<and>
   projr (DependencyIssues bundledTeamStore bundledTeamStore bundledTeamStore bundledTeamStore sampleOwner [bundledTeam]) \<noteq> []"
  by (intro conjI; code_simp)

end
