(* ===== verification/Reminders.thy ===== *)
theory Reminders
  imports Reads Writes
begin

text \<open>
  Reminders of newer dependencies (\<open>dependency_updates.go\<close>) and the submission of a plugin that takes
  them over (\<open>dependency_update_publish.go\<close>). An update is offered to the owner of a published expert or
  team for an edge of its released snapshot whose target has released a newer version, or, for a connector,
  has another configuration than the one acknowledged last. A caller can skip an update; the skips are a
  table of their own, kept apart from the store and passed along.
\<close>

section \<open>Rows\<close>

record ReminderSkipRow =
  sk_SpaceID :: string
  sk_UID :: string
  sk_PluginID :: string
  sk_DependencyPluginID :: string
  sk_TargetVersionID :: string
  sk_CreatedAt :: time

record DependencyUpdate =
  du_PluginID :: string
  du_Name :: string
  du_Type :: PluginType
  du_FromConfigRevision :: string
  du_TargetConfigRevision :: string
  du_FromVersionID :: string
  du_TargetVersionID :: string
  du_FromVersion :: string
  du_TargetVersion :: string
  du_IsSkipped :: bool

record DependencyUpdateTarget =
  dt_PluginID :: string
  dt_TargetVersionID :: string
  dt_TargetConfigRevision :: string

section \<open>The query\<close>

definition releaseOf :: "Store \<Rightarrow> string \<Rightarrow> string option \<Rightarrow> PluginVersionRelease option" where
  "releaseOf s pid v = find (\<lambda>x. rel_PluginID x = pid \<and> v = Some (rel_VersionID x)) (releases s)"

definition reminderSource :: "Scope \<Rightarrow> string list \<Rightarrow> Plugin \<Rightarrow> bool" where
  "reminderSource sc ids src \<longleftrightarrow>
     p_SpaceID src = Some (s_SpaceID sc) \<and> p_OwnerUID src = s_CallerUID sc \<and> p_ID src \<in> set ids \<and>
     p_ListingState src = PluginListingStatePublished \<and> \<not> p_IsEmbedded src \<and>
     (p_Type src = PluginTypeExpert \<or> p_Type src = PluginTypeExpertTeam)"

definition reminderTarget :: "Store \<Rightarrow> Plugin \<Rightarrow> Plugin \<Rightarrow> bool" where
  "reminderTarget s src t \<longleftrightarrow>
     livePlugin t \<and> listedSQL t \<and>
     (p_Visibility t = PluginVisibilitySystem \<or> p_Visibility t = PluginVisibilityPublic \<or>
      p_SpaceID t = p_SpaceID src \<and>
      (p_Visibility t = PluginVisibilitySpace \<or>
       p_Visibility t = PluginVisibilityPrivate \<and> p_OwnerUID t = p_OwnerUID src \<and> p_Visibility src = PluginVisibilityPrivate)) \<and>
     (p_Type t \<noteq> PluginTypeExpert \<or> \<not> unavailableDependencySQL s t)"

definition acknowledged :: "Store \<Rightarrow> string \<Rightarrow> string \<Rightarrow> string option" where
  "acknowledged s source target =
     map_option cb_Revision (find (\<lambda>b. cb_SourceID b = source \<and> cb_TargetID b = target) (baselines s))"

text \<open>The last condition of the WHERE clause; a comparison with NULL is not true.\<close>

definition newerTarget :: "Repo \<Rightarrow> Store \<Rightarrow> Plugin \<Rightarrow> PluginRelation \<Rightarrow> Plugin \<Rightarrow> bool" where
  "newerTarget r s src e t \<longleftrightarrow>
     r_Type e = ''expert_connector'' \<and> p_Type t = PluginTypeConnector \<and>
       (case acknowledged s (p_ID src) (p_ID t) of None \<Rightarrow> False | Some acked \<Rightarrow> acked \<noteq> connectorFingerprint r t) \<or>
     r_Type e \<in> {''expert_skill'', ''expert_team_expert''} \<and>
       (case (releaseOf s (p_ID t) (r_TargetVersionID e), releaseOf s (p_ID t) (p_PublishedVersionID t)) of
          (Some old, Some new) \<Rightarrow> rel_VersionID old \<noteq> rel_VersionID new
        | _ \<Rightarrow> False)"

definition skipped :: "ReminderSkipRow list \<Rightarrow> Scope \<Rightarrow> string \<Rightarrow> string \<Rightarrow> string \<Rightarrow> bool" where
  "skipped skips sc pluginID dependency target \<longleftrightarrow>
     (\<exists>d \<in> set skips. sk_SpaceID d = s_SpaceID sc \<and> sk_UID d = s_CallerUID sc \<and> sk_PluginID d = pluginID \<and>
        sk_DependencyPluginID d = dependency \<and> sk_TargetVersionID d = target)"

definition labelOf :: "PluginVersionRelease option \<Rightarrow> string" where
  "labelOf x = (case x of None \<Rightarrow> '''' | Some rel \<Rightarrow> rel_VersionLabel rel)"

definition idOf :: "string option \<Rightarrow> string" where
  "idOf x = (case x of None \<Rightarrow> '''' | Some i \<Rightarrow> i)"

text \<open>One row of the result, as the loop over the rows builds it. A connector has no releases and any
  other plugin no acknowledged configuration.\<close>

definition updateRow :: "Repo \<Rightarrow> ReminderSkipRow list \<Rightarrow> Scope \<Rightarrow> Store \<Rightarrow> Plugin \<Rightarrow> PluginRelation \<Rightarrow> Plugin \<Rightarrow> DependencyUpdate" where
  "updateRow r skips sc s src e t =
     (let old = releaseOf s (p_ID t) (r_TargetVersionID e); new = releaseOf s (p_ID t) (p_PublishedVersionID t);
          connector = (p_Type t = PluginTypeConnector);
          candidate = (if connector then connectorFingerprint r t else idOf (p_PublishedVersionID t));
          name = coalesce (Option.bind (Option.bind new (\<lambda>x. versionRow s (p_ID t) (rel_VersionID x))) (\<lambda>v. manifestText ''plugin_name'' (v_Manifest v)))
                   (Some (p_Name t)) in
      \<lparr>du_PluginID = p_ID t, du_Name = idOf name, du_Type = p_Type t,
       du_FromConfigRevision = (if connector then idOf (acknowledged s (p_ID src) (p_ID t)) else ''''),
       du_TargetConfigRevision = (if connector then candidate else ''''),
       du_FromVersionID = (if connector then '''' else idOf (map_option rel_VersionID old)),
       du_TargetVersionID = (if connector then '''' else candidate),
       du_FromVersion = labelOf old, du_TargetVersion = labelOf new,
       du_IsSkipped = skipped skips sc (p_ID src) (p_ID t) candidate\<rparr>)"

definition dependencyUpdate :: "Repo \<Rightarrow> ReminderSkipRow list \<Rightarrow> Scope \<Rightarrow> Store \<Rightarrow> Plugin \<Rightarrow> PluginRelation \<Rightarrow> DependencyUpdate option" where
  "dependencyUpdate r skips sc s src e =
     (case targetRow s e of
        None \<Rightarrow> None
      | Some t \<Rightarrow>
          let u = updateRow r skips sc s src e t in
          if \<not> (liveSnapshotEdge e \<and> reminderTarget s src t \<and> newerTarget r s src e t) then None
          else if p_Type t \<noteq> PluginTypeConnector \<and> \<not> VersionAdvanced (du_FromVersion u) (du_TargetVersion u) then None
          else Some u)"

definition queryDependencyUpdates ::
  "Repo \<Rightarrow> ReminderSkipRow list \<Rightarrow> Store \<Rightarrow> Scope \<Rightarrow> string list \<Rightarrow> (string \<times> DependencyUpdate) list" where
  "queryDependencyUpdates r skips s sc ids =
     sort_key (\<lambda>(_, u). du_PluginID u) (concat (map (\<lambda>src.
       case Option.bind (p_PublishedVersionID src) (versionRow s (p_ID src)) of
         None \<Rightarrow> []
       | Some v \<Rightarrow> map (Pair (p_ID src)) (List.map_filter (dependencyUpdate r skips sc s src) (v_Relations v)))
       (filter (reminderSource sc ids) (plugins s))))"

definition updatesFor :: "string \<Rightarrow> (string \<times> DependencyUpdate) list \<Rightarrow> DependencyUpdate list" where
  "updatesFor i rows = map snd (filter (\<lambda>(j, _). j = i) rows)"

definition DependencyUpdateSummaries ::
  "Repo \<Rightarrow> ReminderSkipRow list \<Rightarrow> Store \<Rightarrow> Scope \<Rightarrow> Plugin list \<Rightarrow> (string \<times> DependencyUpdate) list" where
  "DependencyUpdateSummaries r skips s sc items =
     (if \<not> versionManagement r then []
      else queryDependencyUpdates r skips s sc
        (map p_ID (filter (\<lambda>p. p_Type p = PluginTypeExpert \<or> p_Type p = PluginTypeExpertTeam) items)))"

record DependencyUpdateList =
  dl_PluginID :: string
  dl_PublishedVersionID :: string
  dl_DraftRevision :: string
  dl_Updates :: "DependencyUpdate list"

definition DependencyUpdates ::
  "Repo \<Rightarrow> ReminderSkipRow list \<Rightarrow> Store \<Rightarrow> Store \<Rightarrow> Scope \<Rightarrow> string \<Rightarrow> RepoError + DependencyUpdateList" where
  "DependencyUpdates r skips s0 s1 sc i =
     (if \<not> versionManagement r then Inl ErrVersionBaselineUnavailable
      else (case readVisibilityNode s0 i of
        Inl e \<Rightarrow> Inl e
      | Inr root \<Rightarrow>
          let p = n_Plugin root in
          if p_OwnerUID p \<noteq> s_CallerUID sc \<or> p_SpaceID p \<noteq> Some (s_SpaceID sc) \<or> p_IsEmbedded p \<or>
             (p_Type p \<noteq> PluginTypeExpert \<and> p_Type p \<noteq> PluginTypeExpertTeam) then Inl ErrNotFound
          else if p_ListingState p \<noteq> PluginListingStatePublished then Inl ErrConflict
          else Inr \<lparr>dl_PluginID = i, dl_PublishedVersionID = n_PublishedID root, dl_DraftRevision = PluginDraftRevision r p,
                    dl_Updates = updatesFor i (queryDependencyUpdates r skips s1 sc [i])\<rparr>))"

section \<open>Skipping\<close>

definition targetKey :: "DependencyUpdateTarget \<Rightarrow> string" where
  "targetKey t = (if dt_TargetConfigRevision t \<noteq> '''' then dt_TargetConfigRevision t else dt_TargetVersionID t)"

definition ValidUpdateTargets :: "DependencyUpdateTarget list \<Rightarrow> bool" where
  "ValidUpdateTargets ts \<longleftrightarrow> ts \<noteq> [] \<and> length ts \<le> 100 \<and> distinct (map dt_PluginID ts) \<and>
     (\<forall>t \<in> set ts. trimSpace (dt_PluginID t) \<noteq> '''' \<and> (dt_TargetConfigRevision t = '''') \<noteq> (dt_TargetVersionID t = '''') \<and>
        trimSpace (targetKey t) \<noteq> '''')"

definition candidateKey :: "DependencyUpdate \<Rightarrow> DependencyUpdateTarget" where
  "candidateKey u = \<lparr>dt_PluginID = du_PluginID u, dt_TargetVersionID = du_TargetVersionID u, dt_TargetConfigRevision = du_TargetConfigRevision u\<rparr>"

definition candidateKeys :: "DependencyUpdate list \<Rightarrow> DependencyUpdateTarget list" where
  "candidateKeys updates = map candidateKey updates"

definition skipKey :: "ReminderSkipRow \<Rightarrow> string \<times> string \<times> string \<times> string \<times> string" where
  "skipKey d = (sk_SpaceID d, sk_UID d, sk_PluginID d, sk_DependencyPluginID d, sk_TargetVersionID d)"

text \<open>\<open>INSERT IGNORE\<close>\<close>

definition insertSkip :: "ReminderSkipRow \<Rightarrow> ReminderSkipRow list \<Rightarrow> ReminderSkipRow list" where
  "insertSkip d skips = (if skipKey d \<in> skipKey ` set skips then skips else skips @ [d])"

definition skipTarget ::
  "Repo \<Rightarrow> Scope \<Rightarrow> string \<Rightarrow> DependencyUpdateTarget list \<Rightarrow> DependencyUpdateTarget \<Rightarrow> ReminderSkipRow list \<Rightarrow> ReminderSkipRow list stx" where
  "skipTarget r sc i allowed target skips =
     thenT (refuseT (target \<notin> set allowed) ErrConflict)
    (bindT (now r) (\<lambda>t. returnT (insertSkip \<lparr>sk_SpaceID = s_SpaceID sc, sk_UID = s_CallerUID sc, sk_PluginID = i,
       sk_DependencyPluginID = dt_PluginID target, sk_TargetVersionID = targetKey target, sk_CreatedAt = t\<rparr> skips)))"

definition containerType :: "Plugin \<Rightarrow> bool" where
  "containerType p \<longleftrightarrow> p_Type p = PluginTypeExpert \<or> p_Type p = PluginTypeExpertTeam"

definition SkipDependencyUpdates ::
  "Repo \<Rightarrow> Scope \<Rightarrow> string \<Rightarrow> DependencyUpdateTarget list \<Rightarrow> ReminderSkipRow list \<Rightarrow> ReminderSkipRow list stx" where
  "SkipDependencyUpdates r sc i targets skips =
     thenT (refuseT (\<not> ValidUpdateTargets targets) ErrInvalidRelation)
    (thenT (refuseT (\<not> versionManagement r) ErrVersionBaselineUnavailable)
    (bindT (getOwnedForUpdate sc i) (\<lambda>root.
     thenT (refuseT (p_IsEmbedded root \<or> \<not> containerType root) ErrNotFound)
    (thenT (refuseT (p_ListingState root \<noteq> PluginListingStatePublished) ErrConflict)
    (bindT (queryT (\<lambda>s. candidateKeys (updatesFor i (queryDependencyUpdates r skips s sc [i])))) (\<lambda>allowed.
       foldT (skipTarget r sc i allowed) targets skips))))))"

section \<open>Submitting\<close>

record DependencyUpdatePublishParams =
  up_Mutation :: Mutation
  up_ExpectedPublishedVersionID :: string
  up_ExpectedDraftRevision :: string
  up_Targets :: "DependencyUpdateTarget list"
  up_Version :: string
  up_Changelog :: string

record DependencyUpdatePublishResult =
  ur_Plugin :: Plugin
  ur_Review :: "PluginReviewRequest option"

definition lockLive :: "string \<Rightarrow> unit stx" where
  "lockLive i = bindT (queryT (\<lambda>s. \<exists>p \<in> set (plugins s). p_ID p = i \<and> livePlugin p)) (\<lambda>found. refuseT (\<not> found) ErrNotFound)"

text \<open>How a submitted edge takes a target over: a connector by its configuration, anything else by its pin.\<close>

definition takesConnector :: "DependencyUpdateTarget \<Rightarrow> PluginRelation \<Rightarrow> bool" where
  "takesConnector target e \<longleftrightarrow> r_TargetPluginID e = dt_PluginID target \<and> r_Type e = ''expert_connector'' \<and>
     r_TargetVersionID e = None \<and> dt_TargetConfigRevision target \<noteq> ''''"

definition takesVersion :: "DependencyUpdateTarget \<Rightarrow> PluginRelation \<Rightarrow> bool" where
  "takesVersion target e \<longleftrightarrow> r_TargetPluginID e = dt_PluginID target \<and> r_TargetVersionID e = Some (dt_TargetVersionID target) \<and>
     r_Type e \<noteq> ''expert_connector''"

definition matchTarget :: "DependencyUpdateTarget list \<Rightarrow> PluginRelation list \<Rightarrow> DependencyUpdateTarget \<Rightarrow> unit stx" where
  "matchTarget allowed rels target =
     thenT (refuseT (target \<notin> set allowed) ErrConflict)
       (refuseT (\<not> (\<exists>e \<in> set rels. takesConnector target e \<or> takesVersion target e)) ErrInvalidRelation)"

definition connectorAcks :: "PluginRelation list \<Rightarrow> DependencyUpdateTarget list \<Rightarrow> (string \<times> string) list" where
  "connectorAcks rels targets =
     map (\<lambda>x. (dt_PluginID x, dt_TargetConfigRevision x)) (filter (\<lambda>x. \<exists>e \<in> set rels. takesConnector x e) targets)"

definition updateMutation :: "DependencyUpdatePublishParams \<Rightarrow> Mutation" where
  "updateMutation p = (up_Mutation p)\<lparr>m_ExpectedDraftRevision := Some (up_ExpectedDraftRevision p), m_RefusePendingReview := True,
     m_SnapshotVersion := True, m_EnforceListingGate := True, m_EnforceForwardOnlyVersion := True\<rparr>"

text \<open>The guards, on the locked root.\<close>

definition updateAdmitted :: "Repo \<Rightarrow> Scope \<Rightarrow> ReminderSkipRow list \<Rightarrow> DependencyUpdatePublishParams \<Rightarrow> Plugin stx" where
  "updateAdmitted r sc skips p =
     bindT (getOwnedForUpdate sc (p_ID (m_Plugin (up_Mutation p)))) (\<lambda>root.
     thenT (refuseT (\<not> containerType root) ErrNotFound)
    (thenT (refuseT (PluginDraftRevision r root \<noteq> up_ExpectedDraftRevision p \<or>
                     p_Visibility root \<noteq> p_Visibility (m_Plugin (up_Mutation p))) ErrConflict)
    (bindT (queryT (\<lambda>s. idOf (Option.bind (lookupBy p_ID (p_ID root) (plugins s)) p_PublishedVersionID))) (\<lambda>published.
     thenT (refuseT (published \<noteq> up_ExpectedPublishedVersionID p) ErrConflict)
    (thenT (refuseT (p_IsEmbedded root \<or> p_ListingState root \<noteq> PluginListingStatePublished) ErrConflict)
    (bindT (queryT (\<lambda>s. candidateKeys (updatesFor (p_ID root) (queryDependencyUpdates r skips s sc [p_ID root])))) (\<lambda>allowed.
     thenT (forT (matchTarget allowed (m_Relations (up_Mutation p))) (up_Targets p))
       (returnT root))))))))"

definition publishUpdate ::
  "Repo \<Rightarrow> DependencyUpdatePublishParams \<Rightarrow> (string \<times> string) list \<Rightarrow> Plugin \<Rightarrow> DependencyUpdatePublishResult stx" where
  "publishUpdate r p acks current =
     bindT (someT ErrConflict (p_CurrentVersionID current)) (\<lambda>versionID.
     thenT (ackConnectors (p_ID current) acks)
    (bindT (now r) (\<lambda>t0.
     thenT (recordRelease r current versionID (up_Version p) (m_OperatorID (up_Mutation p)) t0)
    (bindT (now r) (\<lambda>t1.
     bindT (updatePlugins (\<lambda>x. p_ID x = p_ID current) (\<lambda>x. x\<lparr>p_ListingState := PluginListingStatePublished, p_UpdatedAt := t1\<rparr>)) (\<lambda>_.
     bindT (now r) (\<lambda>t2.
     thenT (ensureVisibleDefaultPlacement r t2 (p_ID current) (p_CategoryID current))
       (returnT \<lparr>ur_Plugin = current\<lparr>p_ListingState := PluginListingStatePublished\<rparr>, ur_Review = None\<rparr>))))))))"

definition updateRequest :: "Scope \<Rightarrow> DependencyUpdatePublishParams \<Rightarrow> Plugin \<Rightarrow> PluginReviewRequest" where
  "updateRequest sc p current =
     \<lparr>rr_ID = '''', rr_PluginID = p_ID current, rr_SpaceID = s_SpaceID sc, rr_TargetScope = ''space'', rr_Status = ReviewStatusPending,
      rr_Kind = ReviewKindUpgrade, rr_Version = up_Version p, rr_Changelog = Some (up_Changelog p), rr_Manifest = None, rr_Package = None,
      rr_Relations = [], rr_AttachmentKeys = None, rr_ManifestHash = '''', rr_PluginHash = '''', rr_ApplicantUID = s_CallerUID sc,
      rr_ApplicantName = o_OperatorName (m_Operator (up_Mutation p)), rr_ReviewerUID = None, rr_ReviewerName = None, rr_Reason = None,
      rr_DecisionSource = None, rr_SubmittedAt = 0, rr_ReviewedAt = None, rr_CreatedAt = 0, rr_UpdatedAt = 0, rr_DeletedAt = None\<rparr>"

definition updateSnapshot :: "Plugin \<Rightarrow> PluginRelation list \<Rightarrow> FrozenSnapshot" where
  "updateSnapshot current rels =
     \<lparr>fs_Manifest = p_Manifest current, fs_Package = p_Package current, fs_AttachmentKeys = p_AttachmentKeys current, fs_Relations = rels,
      fs_ManifestHash = p_ManifestHash current, fs_PluginHash = p_PluginHash current, fs_DeclaredContent = True, fs_ExpectedDraftRevision = ''''\<rparr>"

definition insertConfigTargets :: "string \<Rightarrow> (string \<times> string) list \<Rightarrow> unit stx" where
  "insertConfigTargets reviewID acks =
     bindT (queryT (\<lambda>s. \<exists>c \<in> set (configTargets s). ct_ReviewID c = reviewID)) (\<lambda>dup.
     thenT (refuseT dup ErrDuplicateKey)
       (modifyT (\<lambda>s. s\<lparr>configTargets := configTargets s @ [\<lparr>ct_ReviewID = reviewID, ct_Selection = acks\<rparr>]\<rparr>)))"

text \<open>The decision of the policy runs the approval on the content that was just saved.\<close>

definition approveUpdate ::
  "Repo \<Rightarrow> Scope \<Rightarrow> DependencyUpdatePublishParams \<Rightarrow> Plugin \<Rightarrow> PluginRelation list \<Rightarrow> PluginReviewRequest \<Rightarrow> DependencyUpdatePublishResult stx" where
  "approveUpdate r sc p current rels review =
     (let op = m_Operator (up_Mutation p) in
     bindT (approveManagedReviewInTx r sc
              \<lparr>ap_CardReceipt = None, ap_ReviewID = rr_ID review, ap_ReviewerUID = o_OperatorID op, ap_ReviewerName = o_OperatorName op,
               ap_DecisionSource = Some ReviewDecisionSourcePolicy, ap_RequestID = o_RequestID op, ap_Now = 0\<rparr>
              current
              (review\<lparr>rr_Version := up_Version p, rr_Changelog := Some (up_Changelog p), rr_Manifest := p_Manifest current,
                 rr_Package := p_Package current, rr_AttachmentKeys := p_AttachmentKeys current,
                 rr_Relations := EncodeSnapshotRelations rels, rr_ManifestHash := p_ManifestHash current, rr_PluginHash := p_PluginHash current\<rparr>))
       (\<lambda>q. returnT \<lparr>ur_Plugin = q, ur_Review = Some (review\<lparr>rr_Status := ReviewStatusApproved\<rparr>)\<rparr>))"

definition submitUpdate ::
  "Repo \<Rightarrow> Scope \<Rightarrow> DependencyUpdatePublishParams \<Rightarrow> (string \<times> string) list \<Rightarrow> Plugin \<Rightarrow> PluginRelation list \<Rightarrow> DependencyUpdatePublishResult stx" where
  "submitUpdate r sc p acks current rels =
     thenT (refuseT (p_Visibility current \<noteq> PluginVisibilitySpace) ErrNotFound)
    (bindT (insertReviewInTx r sc (updateRequest sc p current) (updateSnapshot current rels)) (\<lambda>review.
     thenT (whenT (acks \<noteq> []) (insertConfigTargets (rr_ID review) acks))
    (bindT (queryT (\<lambda>s. autoApprove s (s_SpaceID sc))) (\<lambda>auto.
     if auto then approveUpdate r sc p current rels review
     else returnT \<lparr>ur_Plugin = current, ur_Review = Some review\<rparr>))))"

definition SubmitDependencyUpdates ::
  "Repo \<Rightarrow> Scope \<Rightarrow> ReminderSkipRow list \<Rightarrow> DependencyUpdatePublishParams \<Rightarrow> DependencyUpdatePublishResult stx" where
  "SubmitDependencyUpdates r sc skips p =
     thenT (refuseT (up_ExpectedPublishedVersionID p = '''' \<or> up_ExpectedDraftRevision p = '''' \<or> \<not> ValidUpdateTargets (up_Targets p)) ErrConflict)
    (thenT (forT lockLive (sortStringsUnique (p_ID (m_Plugin (up_Mutation p)) # map dt_PluginID (up_Targets p))))
    (bindT (updateAdmitted r sc skips p) (\<lambda>root.
     bindT (updateInTx r sc (updateMutation p)) (\<lambda>saved.
     bindT (getOwnedForUpdate sc (p_ID root)) (\<lambda>current.
     let acks = connectorAcks (m_Relations (up_Mutation p)) (up_Targets p) in
     if p_Visibility current = PluginVisibilityPrivate then publishUpdate r p acks current
     else submitUpdate r sc p acks current (sy_Relations saved))))))"

section \<open>What is offered\<close>

lemma dependencyUpdate_Some:
  "dependencyUpdate r skips sc s src e = Some u \<longleftrightarrow>
     (\<exists>t. targetRow s e = Some t \<and> liveSnapshotEdge e \<and> reminderTarget s src t \<and> newerTarget r s src e t \<and> u = updateRow r skips sc s src e t \<and>
        (p_Type t \<noteq> PluginTypeConnector \<longrightarrow> VersionAdvanced (du_FromVersion u) (du_TargetVersion u)))"
  by (cases "targetRow s e") (auto simp: dependencyUpdate_def Let_def)

lemma query_mem:
  "(i, u) \<in> set (queryDependencyUpdates r skips s sc ids) \<longleftrightarrow>
     (\<exists>src \<in> set (plugins s). reminderSource sc ids src \<and> p_ID src = i \<and>
        (\<exists>w v e. p_PublishedVersionID src = Some w \<and> versionRow s i w = Some v \<and> e \<in> set (v_Relations v) \<and> dependencyUpdate r skips sc s src e = Some u))"
proof -
  have row: "(i, u) \<in> set (case Option.bind (p_PublishedVersionID src) (versionRow s (p_ID src)) of
         None \<Rightarrow> []
       | Some v \<Rightarrow> map (Pair (p_ID src)) (List.map_filter (dependencyUpdate r skips sc s src) (v_Relations v))) \<longleftrightarrow>
     p_ID src = i \<and> (\<exists>w v e. p_PublishedVersionID src = Some w \<and> versionRow s i w = Some v \<and> e \<in> set (v_Relations v) \<and> dependencyUpdate r skips sc s src e = Some u)" for src
  proof (cases "Option.bind (p_PublishedVersionID src) (versionRow s (p_ID src))")
    case None
    then show ?thesis by (cases "p_PublishedVersionID src") auto
  next
    case (Some v)
    then obtain w where "p_PublishedVersionID src = Some w" "versionRow s (p_ID src) w = Some v" by (cases "p_PublishedVersionID src") auto
    moreover have "(i, u) \<in> Pair (p_ID src) ` A \<longleftrightarrow> p_ID src = i \<and> u \<in> A" for A by auto
    ultimately show ?thesis by (auto simp: mem_map_filter)
  qed
  show ?thesis unfolding queryDependencyUpdates_def set_sort by (simp only: set_concat set_map set_filter UN_iff image_iff bex_simps row) (auto simp: row)
qed

lemma releaseOf_Some: "releaseOf s i v = Some x \<Longrightarrow> x \<in> set (releases s) \<and> rel_PluginID x = i \<and> v = Some (rel_VersionID x)"
  unfolding releaseOf_def by (drule find_Some_mem) simp

text \<open>An update is offered only to the owner of a published expert or team of the Space, for an edge of
  its released snapshot, and names a target the caller may read, listed and itself available. For a plugin with
  releases the target's current release is strictly ahead of the pinned one; for a connector the current
  configuration differs from the acknowledged one.\<close>

theorem queryDependencyUpdates_sound:
  assumes "(i, u) \<in> set (queryDependencyUpdates r skips s sc ids)"
  shows "i \<in> set ids \<and> (\<exists>src \<in> set (plugins s). \<exists>t \<in> set (plugins s). p_ID src = i \<and> p_OwnerUID src = s_CallerUID sc \<and>
      p_SpaceID src = Some (s_SpaceID sc) \<and> p_ListingState src = PluginListingStatePublished \<and> \<not> p_IsEmbedded src \<and>
      p_ID t = du_PluginID u \<and> livePlugin t \<and> p_ListingState t = PluginListingStatePublished \<and> inAudience sc t \<and>
      (p_Type t = PluginTypeExpert \<longrightarrow> \<not> unavailableDependencySQL s t) \<and>
      (\<exists>w v e. p_PublishedVersionID src = Some w \<and> versionRow s i w = Some v \<and> e \<in> set (v_Relations v) \<and> r_TargetPluginID e = du_PluginID u \<and>
         (if p_Type t = PluginTypeConnector then du_TargetConfigRevision u = connectorFingerprint r t
          else p_PublishedVersionID t = Some (du_TargetVersionID u) \<and> r_TargetVersionID e = Some (du_FromVersionID u) \<and>
               (\<exists>old \<in> set (releases s). \<exists>new \<in> set (releases s). rel_VersionID old = du_FromVersionID u \<and> rel_VersionID new = du_TargetVersionID u \<and>
                  rel_PluginID old = p_ID t \<and> rel_PluginID new = p_ID t \<and> VersionAdvanced (rel_VersionLabel old) (rel_VersionLabel new)))))"
proof -
  from assms obtain src w v e where src: "src \<in> set (plugins s)" "reminderSource sc ids src" "p_ID src = i"
    and e: "p_PublishedVersionID src = Some w" "versionRow s i w = Some v" "e \<in> set (v_Relations v)" and u: "dependencyUpdate r skips sc s src e = Some u"
    unfolding query_mem by blast
  from u obtain t where t: "targetRow s e = Some t" "reminderTarget s src t" "newerTarget r s src e t" "u = updateRow r skips sc s src e t"
    and adv: "p_Type t \<noteq> PluginTypeConnector \<Longrightarrow> VersionAdvanced (du_FromVersion u) (du_TargetVersion u)"
    unfolding dependencyUpdate_Some by blast
  have row: "t \<in> set (plugins s)" "p_ID t = r_TargetPluginID e" using t(1) unfolding targetRow_def by (auto dest: lookupBy_Some)
  have uid: "du_PluginID u = p_ID t" unfolding t(4) updateRow_def Let_def by simp
  have aud: "inAudience sc t" using t(2) src(2) unfolding reminderTarget_def reminderSource_def inAudience_def
    by (cases "p_Visibility t") auto
  have "if p_Type t = PluginTypeConnector then du_TargetConfigRevision u = connectorFingerprint r t
          else p_PublishedVersionID t = Some (du_TargetVersionID u) \<and> r_TargetVersionID e = Some (du_FromVersionID u) \<and>
               (\<exists>old \<in> set (releases s). \<exists>new \<in> set (releases s). rel_VersionID old = du_FromVersionID u \<and> rel_VersionID new = du_TargetVersionID u \<and>
                  rel_PluginID old = p_ID t \<and> rel_PluginID new = p_ID t \<and> VersionAdvanced (rel_VersionLabel old) (rel_VersionLabel new))"
  proof (cases "p_Type t = PluginTypeConnector")
    case True
    then show ?thesis unfolding t(4) updateRow_def Let_def by simp
  next
    case False
    with t(3) obtain old new where rels: "releaseOf s (p_ID t) (r_TargetVersionID e) = Some old" "releaseOf s (p_ID t) (p_PublishedVersionID t) = Some new"
      unfolding newerTarget_def by (auto split: option.splits)
    with releaseOf_Some [OF rels(1)] releaseOf_Some [OF rels(2)] False
    have "du_FromVersionID u = rel_VersionID old" "du_TargetVersionID u = rel_VersionID new" "du_FromVersion u = rel_VersionLabel old" "du_TargetVersion u = rel_VersionLabel new"
      unfolding t(4) updateRow_def Let_def by (simp_all add: idOf_def labelOf_def)
    with releaseOf_Some [OF rels(1)] releaseOf_Some [OF rels(2)] adv False show ?thesis by auto
  qed
  with src e row uid aud t(2) show ?thesis unfolding reminderSource_def reminderTarget_def listedSQL_def by (metis (no_types, lifting))
qed

section \<open>What skipping does\<close>

lemma skipped_iff: "skipped skips sc i d t \<longleftrightarrow> (s_SpaceID sc, s_CallerUID sc, i, d, t) \<in> skipKey ` set skips"
  by (force simp: skipped_def skipKey_def)

lemma insertSkip_keys:
  "skipKey ` set (insertSkip d skips) = insert (skipKey d) (skipKey ` set skips)"
  "distinct (map skipKey (insertSkip d skips)) = distinct (map skipKey skips)"
  by (auto simp: insertSkip_def)

lemma skipTargets_run:
  assumes "foldT (skipTarget r sc i allowed) targets skips s = Inr (skips', s')"
  shows "set targets \<subseteq> set allowed \<and> sameExcept {} s s' \<and> distinct (map skipKey skips') = distinct (map skipKey skips) \<and>
    skipKey ` set skips' = skipKey ` set skips \<union> (\<lambda>x. (s_SpaceID sc, s_CallerUID sc, i, dt_PluginID x, targetKey x)) ` set targets"
  using assms
proof (induction targets arbitrary: skips s)
  case Nil
  then show ?case by (simp add: returnT_def touch.frame_refl)
next
  case (Cons x xs)
  from Cons.prems obtain mid u where one: "skipTarget r sc i allowed x skips s = Inr (mid, u)"
    and rest0: "foldT (skipTarget r sc i allowed) xs mid u = Inr (skips', s')"
    by (auto simp: bindT_Inr)
  from one obtain t where "x \<in> set allowed" and t: "now r s = Inr (t, u)"
    and mid: "mid = insertSkip \<lparr>sk_SpaceID = s_SpaceID sc, sk_UID = s_CallerUID sc, sk_PluginID = i,
       sk_DependencyPluginID = dt_PluginID x, sk_TargetVersionID = targetKey x, sk_CreatedAt = t\<rparr> skips"
    unfolding skipTarget_def by (auto simp: bindT_Inr thenT_Inr refuseT_Inr returnT_Inr)
  note rest = rest0 [unfolded mid]
  have "sameExcept {} s u" by (rule stepsD [OF now_touches t])
  have key: "skipKey \<lparr>sk_SpaceID = s_SpaceID sc, sk_UID = s_CallerUID sc, sk_PluginID = i, sk_DependencyPluginID = dt_PluginID x,
      sk_TargetVersionID = targetKey x, sk_CreatedAt = t\<rparr> = (s_SpaceID sc, s_CallerUID sc, i, dt_PluginID x, targetKey x)" by (simp add: skipKey_def)
  from Cons.IH [OF rest] \<open>x \<in> set allowed\<close> show ?case
    unfolding insertSkip_keys key using touch.frame_trans [OF \<open>sameExcept {} s u\<close>] by simp
qed

lemma targetKey_updateRow:
  "targetKey (candidateKey (updateRow r skips sc s src e t)) = (if p_Type t = PluginTypeConnector then connectorFingerprint r t else idOf (p_PublishedVersionID t))"
  "du_PluginID (updateRow r skips sc s src e t) = p_ID t" "candidateKey (updateRow r skips' sc s src e t) = candidateKey (updateRow r skips sc s src e t)"
  by (simp_all add: targetKey_def candidateKey_def updateRow_def Let_def)

lemma updateRow_skips:
  "updateRow r skips' sc s src e t = (updateRow r skips sc s src e t)\<lparr>du_IsSkipped :=
     skipped skips' sc (p_ID src) (p_ID t) (targetKey (candidateKey (updateRow r skips sc s src e t)))\<rparr>"
  unfolding targetKey_updateRow by (simp add: updateRow_def Let_def)

lemma updateRow_skipped:
  "du_IsSkipped (updateRow r skips sc s src e t) = skipped skips sc (p_ID src) (p_ID t) (targetKey (candidateKey (updateRow r skips sc s src e t)))"
  unfolding targetKey_updateRow by (simp add: updateRow_def Let_def)

text \<open>The mark of an update, from the table of skips.\<close>

definition marked :: "ReminderSkipRow list \<Rightarrow> Scope \<Rightarrow> string \<Rightarrow> DependencyUpdate \<Rightarrow> DependencyUpdate" where
  "marked skips sc i u = u\<lparr>du_IsSkipped := skipped skips sc i (du_PluginID u) (targetKey (candidateKey u))\<rparr>"

lemma dependencyUpdate_skips:
  "dependencyUpdate r skips' sc s src e = map_option (marked skips' sc (p_ID src)) (dependencyUpdate r skips sc s src e)"
proof (cases "targetRow s e")
  case (Some t)
  have "du_FromVersion (updateRow r skips' sc s src e t) = du_FromVersion (updateRow r skips sc s src e t)"
    "du_TargetVersion (updateRow r skips' sc s src e t) = du_TargetVersion (updateRow r skips sc s src e t)" by (simp_all add: updateRow_def Let_def)
  moreover have "updateRow r skips' sc s src e t = marked skips' sc (p_ID src) (updateRow r skips sc s src e t)"
    unfolding marked_def targetKey_updateRow(2) by (rule updateRow_skips)
  ultimately show ?thesis using Some by (simp add: dependencyUpdate_def Let_def)
qed (simp add: dependencyUpdate_def)

lemma query_skips:
  "(i, u) \<in> set (queryDependencyUpdates r skips' s sc ids) \<longleftrightarrow> (\<exists>u0. (i, u0) \<in> set (queryDependencyUpdates r skips s sc ids) \<and> u = marked skips' sc i u0)"
  unfolding query_mem dependencyUpdate_skips [of r skips' _ _ _ _ skips] map_option_eq_Some by blast

lemma query_marked:
  assumes "(i, u) \<in> set (queryDependencyUpdates r skips s sc ids)"
  shows "du_IsSkipped u = skipped skips sc i (du_PluginID u) (targetKey (candidateKey u))"
  using assms unfolding query_mem dependencyUpdate_Some by (auto simp: updateRow_skipped targetKey_updateRow)

text \<open>Only the caller and the Space of a scope are read.\<close>

lemma query_scope:
  assumes "s_SpaceID sc' = s_SpaceID sc" and "s_CallerUID sc' = s_CallerUID sc"
  shows "queryDependencyUpdates r skips s sc' ids = queryDependencyUpdates r skips s sc ids"
proof -
  have "reminderSource sc' ids = reminderSource sc ids" using assms by (simp add: fun_eq_iff reminderSource_def)
  moreover have "updateRow r skips sc' s src e t = updateRow r skips sc s src e t" for src e t
    using assms by (simp add: updateRow_def skipped_def Let_def)
  then have "dependencyUpdate r skips sc' s = dependencyUpdate r skips sc s"
    by (simp add: fun_eq_iff dependencyUpdate_def split: option.split)
  ultimately show ?thesis unfolding queryDependencyUpdates_def by (simp only:)
qed

text \<open>One plugin has one candidate.\<close>

lemma query_candidate:
  assumes "(i, u) \<in> set (queryDependencyUpdates r skips s sc ids)" and "(j, v) \<in> set (queryDependencyUpdates r skips s sc ids')"
    and "du_PluginID u = du_PluginID v"
  shows "candidateKey u = candidateKey v"
proof -
  from assms(1) obtain e t src where u: "targetRow s e = Some t" "u = updateRow r skips sc s src e t" unfolding query_mem dependencyUpdate_Some by blast
  from assms(2) obtain e' t' src' where v: "targetRow s e' = Some t'" "v = updateRow r skips sc s src' e' t'" unfolding query_mem dependencyUpdate_Some by blast
  from u v assms(3) have "p_ID t = p_ID t'" by (simp add: targetKey_updateRow)
  with u(1) v(1) have "t = t'" unfolding targetRow_def by (metis lookupBy_Some option.inject)
  then show ?thesis unfolding u v candidateKey_def updateRow_def Let_def by simp
qed

lemma candidateKeys_mem: "x \<in> set (candidateKeys (updatesFor i rows)) \<longleftrightarrow> (\<exists>u. (i, u) \<in> set rows \<and> candidateKey u = x)"
  by (force simp: candidateKeys_def updatesFor_def)

lemma SkipDependencyUpdates_run:
  assumes "SkipDependencyUpdates r sc i targets skips s = Inr (skips', s')"
  shows "foldT (skipTarget r sc i (candidateKeys (updatesFor i (queryDependencyUpdates r skips s sc [i])))) targets skips s = Inr (skips', s')"
  using assms unfolding SkipDependencyUpdates_def
  by (auto simp: bindT_Inr thenT_Inr refuseT_Inr queryT_Inr getOwnedForUpdate_def someT_Inr)

text \<open>Skipping is read back exactly. After a successful skip every table but the skips is as before, a
  repeated skip adds no row, every chosen update was on offer and is marked now, and every answer to every
  caller is the former one except for these marks: other callers, other plugins and other targets are not
  affected, and no update disappears.\<close>

theorem SkipDependencyUpdates_roundtrip:
  assumes run: "SkipDependencyUpdates r sc i targets skips s = Inr (skips', s')"
  shows "sameExcept {} s s' \<and> (distinct (map skipKey skips) \<longrightarrow> distinct (map skipKey skips')) \<and>
    (\<forall>x \<in> set targets. \<exists>u. (i, u) \<in> set (queryDependencyUpdates r skips' s sc [i]) \<and> candidateKey u = x \<and> du_IsSkipped u) \<and>
    (\<forall>sc' ids j u. (j, u) \<in> set (queryDependencyUpdates r skips' s sc' ids) \<longleftrightarrow>
       (\<exists>u0. (j, u0) \<in> set (queryDependencyUpdates r skips s sc' ids) \<and>
          u = u0\<lparr>du_IsSkipped := du_IsSkipped u0 \<or> s_SpaceID sc' = s_SpaceID sc \<and> s_CallerUID sc' = s_CallerUID sc \<and> j = i \<and> candidateKey u0 \<in> set targets\<rparr>))"
proof -
  note fold = skipTargets_run [OF SkipDependencyUpdates_run [OF run]]
  have offered: "\<exists>u. (i, u) \<in> set (queryDependencyUpdates r skips s sc [i]) \<and> candidateKey u = x" if "x \<in> set targets" for x
    using subsetD [OF fold [THEN conjunct1] that] unfolding candidateKeys_mem .
  have skip: "skipped skips' sc' j d k \<longleftrightarrow> skipped skips sc' j d k \<or> s_SpaceID sc' = s_SpaceID sc \<and> s_CallerUID sc' = s_CallerUID sc \<and> j = i \<and>
      (\<exists>x \<in> set targets. dt_PluginID x = d \<and> targetKey x = k)" for sc' j d k
    unfolding skipped_iff using fold by auto
  have mark: "marked skips' sc' j u0 = u0\<lparr>du_IsSkipped := du_IsSkipped u0 \<or> s_SpaceID sc' = s_SpaceID sc \<and> s_CallerUID sc' = s_CallerUID sc \<and> j = i \<and> candidateKey u0 \<in> set targets\<rparr>"
    if u0: "(j, u0) \<in> set (queryDependencyUpdates r skips s sc' ids)" for sc' ids j u0
  proof -
    have "(\<exists>x \<in> set targets. dt_PluginID x = du_PluginID u0 \<and> targetKey x = targetKey (candidateKey u0)) \<longleftrightarrow> candidateKey u0 \<in> set targets"
      if "s_SpaceID sc' = s_SpaceID sc" "s_CallerUID sc' = s_CallerUID sc"
    proof
      assume "\<exists>x \<in> set targets. dt_PluginID x = du_PluginID u0 \<and> targetKey x = targetKey (candidateKey u0)"
      then obtain x where x: "x \<in> set targets" "dt_PluginID x = du_PluginID u0" by blast
      from offered [OF x(1)] obtain u where u: "(i, u) \<in> set (queryDependencyUpdates r skips s sc [i])" "candidateKey u = x" by blast
      have "queryDependencyUpdates r skips s sc' ids = queryDependencyUpdates r skips s sc ids"
        by (rule query_scope [OF that])
      with u0 have "(j, u0) \<in> set (queryDependencyUpdates r skips s sc ids)" by simp
      moreover have "du_PluginID u = du_PluginID u0" using u(2) x(2) by (auto simp: candidateKey_def)
      ultimately show "candidateKey u0 \<in> set targets" using query_candidate [OF u(1)] u(2) x(1) by metis
    next
      assume "candidateKey u0 \<in> set targets"
      then show "\<exists>x \<in> set targets. dt_PluginID x = du_PluginID u0 \<and> targetKey x = targetKey (candidateKey u0)"
        by (rule bexI [rotated]) (simp add: candidateKey_def)
    qed
    then have "(P \<or> s_SpaceID sc' = s_SpaceID sc \<and> s_CallerUID sc' = s_CallerUID sc \<and> j = i \<and>
        (\<exists>x \<in> set targets. dt_PluginID x = du_PluginID u0 \<and> targetKey x = targetKey (candidateKey u0))) =
      (P \<or> s_SpaceID sc' = s_SpaceID sc \<and> s_CallerUID sc' = s_CallerUID sc \<and> j = i \<and> candidateKey u0 \<in> set targets)" for P by blast
    then show ?thesis unfolding marked_def skip query_marked [OF u0] by simp
  qed
  have all: "(j, u) \<in> set (queryDependencyUpdates r skips' s sc' ids) \<longleftrightarrow>
       (\<exists>u0. (j, u0) \<in> set (queryDependencyUpdates r skips s sc' ids) \<and>
          u = u0\<lparr>du_IsSkipped := du_IsSkipped u0 \<or> s_SpaceID sc' = s_SpaceID sc \<and> s_CallerUID sc' = s_CallerUID sc \<and> j = i \<and> candidateKey u0 \<in> set targets\<rparr>)" for sc' ids j u
    unfolding query_skips [of j u r skips' s sc' ids skips] using mark by metis
  have "\<exists>u. (i, u) \<in> set (queryDependencyUpdates r skips' s sc [i]) \<and> candidateKey u = x \<and> du_IsSkipped u" if "x \<in> set targets" for x
  proof -
    from offered [OF that] obtain u0 where u0: "(i, u0) \<in> set (queryDependencyUpdates r skips s sc [i])" "candidateKey u0 = x" by blast
    with that all [of i "u0\<lparr>du_IsSkipped := True\<rparr>" sc "[i]"] have "(i, u0\<lparr>du_IsSkipped := True\<rparr>) \<in> set (queryDependencyUpdates r skips' s sc [i])" by auto
    with u0 show ?thesis by (intro exI [of _ "u0\<lparr>du_IsSkipped := True\<rparr>"]) (simp add: candidateKey_def)
  qed
  then show ?thesis
    using fold [THEN conjunct2, THEN conjunct1] fold [THEN conjunct2, THEN conjunct2, THEN conjunct1] all by (intro conjI allI ballI impI) simp_all
qed

section \<open>What a submission does\<close>

lemma lockLive_reads: "steps (=) (forT lockLive ids)"
  unfolding lockLive_def by (intro reading.steps_rules)

lemma matchTarget_reads: "steps (=) (matchTarget allowed rels x)"
  unfolding matchTarget_def by (intro reading.steps_rules)

lemma matchTarget_run:
  assumes "forT (matchTarget allowed rels) targets s = Inr ((), s')" and "x \<in> set targets"
  shows "x \<in> set allowed \<and> (\<exists>e \<in> set rels. takesConnector x e \<or> takesVersion x e)"
  by (rule forT_establishes [OF assms(1) _ _ assms(2)]) (auto simp: matchTarget_def thenT_Inr refuseT_Inr)

lemma updateAdmitted_run:
  assumes "updateAdmitted r sc skips p s = Inr (root, s')"
  shows "s' = s" and "find (ownedRow sc (p_ID (m_Plugin (up_Mutation p)))) (plugins s) = Some root"
    and "containerType root \<and> \<not> p_IsEmbedded root \<and> p_ListingState root = PluginListingStatePublished \<and>
      PluginDraftRevision r root = up_ExpectedDraftRevision p \<and> p_Visibility root = p_Visibility (m_Plugin (up_Mutation p))"
    and "idOf (Option.bind (lookupBy p_ID (p_ID root) (plugins s)) p_PublishedVersionID) = up_ExpectedPublishedVersionID p"
    and "x \<in> set (up_Targets p) \<Longrightarrow> (\<exists>u. (p_ID root, u) \<in> set (queryDependencyUpdates r skips s sc [p_ID root]) \<and> candidateKey u = x) \<and>
      (\<exists>e \<in> set (m_Relations (up_Mutation p)). takesConnector x e \<or> takesVersion x e)"
proof -
  let ?allowed = "candidateKeys (updatesFor (p_ID root) (queryDependencyUpdates r skips s sc [p_ID root]))"
  from assms have own: "find (ownedRow sc (p_ID (m_Plugin (up_Mutation p)))) (plugins s) = Some root"
    and ok: "containerType root \<and> \<not> p_IsEmbedded root \<and> p_ListingState root = PluginListingStatePublished \<and>
      PluginDraftRevision r root = up_ExpectedDraftRevision p \<and> p_Visibility root = p_Visibility (m_Plugin (up_Mutation p))"
    and ptr: "idOf (Option.bind (lookupBy p_ID (p_ID root) (plugins s)) p_PublishedVersionID) = up_ExpectedPublishedVersionID p"
    and loop: "forT (matchTarget ?allowed (m_Relations (up_Mutation p))) (up_Targets p) s = Inr ((), s')"
    unfolding updateAdmitted_def by (auto simp: bindT_Inr thenT_Inr refuseT_Inr queryT_Inr returnT_Inr getOwnedForUpdate_Inr)
  show "s' = s" by (rule readsD [OF reading.steps_for [OF matchTarget_reads] loop])
  show "(\<exists>u. (p_ID root, u) \<in> set (queryDependencyUpdates r skips s sc [p_ID root]) \<and> candidateKey u = x) \<and>
      (\<exists>e \<in> set (m_Relations (up_Mutation p)). takesConnector x e \<or> takesVersion x e)" if "x \<in> set (up_Targets p)"
    using matchTarget_run [OF loop that] unfolding candidateKeys_mem .
  show "find (ownedRow sc (p_ID (m_Plugin (up_Mutation p)))) (plugins s) = Some root"
    "containerType root \<and> \<not> p_IsEmbedded root \<and> p_ListingState root = PluginListingStatePublished \<and>
      PluginDraftRevision r root = up_ExpectedDraftRevision p \<and> p_Visibility root = p_Visibility (m_Plugin (up_Mutation p))"
    "idOf (Option.bind (lookupBy p_ID (p_ID root) (plugins s)) p_PublishedVersionID) = up_ExpectedPublishedVersionID p"
    by (fact own ok ptr)+
qed

lemma Update_tables:
  assumes "\<not> s_Admin sc"
  shows "steps (sameExcept (- {TReviews, TReleases, TPolicies})) (Update r sc m)"
  unfolding Update_def updateInTx_def finishSave_def Let_def releaseSaved_tenant [OF assms]
  by (intro touch.steps_rules touches reads [THEN reads_touches]) simp_all

lemma SubmitDependencyUpdates_run:
  assumes "SubmitDependencyUpdates r sc skips p s = Inr (out, s')"
  obtains root saved s1 current where "updateAdmitted r sc skips p s = Inr (root, s)" and "ValidUpdateTargets (up_Targets p)"
    and "up_ExpectedPublishedVersionID p \<noteq> ''''" and "Update r sc (updateMutation p) s = Inr (saved, s1)"
    and "find (ownedRow sc (p_ID root)) (plugins s1) = Some current"
    and "(if p_Visibility current = PluginVisibilityPrivate then publishUpdate r p (connectorAcks (m_Relations (up_Mutation p)) (up_Targets p)) current
          else submitUpdate r sc p (connectorAcks (m_Relations (up_Mutation p)) (up_Targets p)) current (sy_Relations saved)) s1 = Inr (out, s')"
proof -
  from assms obtain u0 u1 root saved s1 current where lock: "forT lockLive (sortStringsUnique (p_ID (m_Plugin (up_Mutation p)) # map dt_PluginID (up_Targets p))) s = Inr ((), u0)"
    and adm: "updateAdmitted r sc skips p u0 = Inr (root, u1)" and "ValidUpdateTargets (up_Targets p)" and "up_ExpectedPublishedVersionID p \<noteq> ''''"
    and "Update r sc (updateMutation p) u1 = Inr (saved, s1)" and "find (ownedRow sc (p_ID root)) (plugins s1) = Some current"
    and "(if p_Visibility current = PluginVisibilityPrivate then publishUpdate r p (connectorAcks (m_Relations (up_Mutation p)) (up_Targets p)) current
          else submitUpdate r sc p (connectorAcks (m_Relations (up_Mutation p)) (up_Targets p)) current (sy_Relations saved)) s1 = Inr (out, s')"
    unfolding SubmitDependencyUpdates_def Update_def Let_def
    by (clarsimp simp: bindT_Inr thenT_Inr refuseT_Inr getOwnedForUpdate_Inr split del: if_split)
  moreover have "u0 = s" by (rule readsD [OF lockLive_reads lock])
  moreover have "u1 = u0" by (rule updateAdmitted_run(1) [OF adm])
  ultimately show thesis by (intro that) simp_all
qed

lemma publishUpdate_result: "publishUpdate r p acks current s = Inr (out, s') \<Longrightarrow> ur_Review out = None"
  unfolding publishUpdate_def by (clarsimp simp: bindT_Inr thenT_Inr returnT_Inr someT_Inr)

lemma insertConfigTargets_touches [touches]: "TConfigTargets \<in> X \<Longrightarrow> steps (sameExcept X) (insertConfigTargets i acks)"
  unfolding insertConfigTargets_def by (intro touch.steps_rules touch.steps_modify) (auto simp: sameExcept_def kept_def)

lemma submitUpdate_pending:
  assumes run: "submitUpdate r sc p acks current rels s = Inr (out, s')" and "\<not> autoApprove s (s_SpaceID sc)"
  obtains q s1 where "insertReviewInTx r sc (updateRequest sc p current) (updateSnapshot current rels) s = Inr (q, s1)"
    and "ur_Review out = Some q" and "sameExcept {TConfigTargets} s1 s'"
proof -
  from run obtain q s1 s2 where ins: "insertReviewInTx r sc (updateRequest sc p current) (updateSnapshot current rels) s = Inr (q, s1)"
    and cfg: "whenT (acks \<noteq> []) (insertConfigTargets (rr_ID q) acks) s1 = Inr ((), s2)"
    and rest: "(if autoApprove s2 (s_SpaceID sc) then approveUpdate r sc p current rels q
       else returnT \<lparr>ur_Plugin = current, ur_Review = Some q\<rparr>) s2 = Inr (out, s')"
    unfolding submitUpdate_def by (clarsimp simp: bindT_Inr thenT_Inr refuseT_Inr queryT_Inr split del: if_split)
  have "steps (sameExcept {TConfigTargets}) (whenT (acks \<noteq> []) (insertConfigTargets (rr_ID q) acks))" by (intro touch.steps_rules touches) simp
  then have cfg': "sameExcept {TConfigTargets} s1 s2" using cfg by (rule stepsD)
  have "policies s1 = policies s" "policies s2 = policies s1"
    using stepsD [OF insertReviewInTx_touches [of "{TReviews}"] ins] cfg' by (auto dest: sameExcept_tables)
  then have "\<not> autoApprove s2 (s_SpaceID sc)" using assms(2) by (simp add: autoApprove_def)
  with rest have "out = \<lparr>ur_Plugin = current, ur_Review = Some q\<rparr>" "s' = s2" by (simp_all add: returnT_Inr)
  with ins cfg' show thesis by (intro that) simp_all
qed


section \<open>A skill with a newer release\<close>

text \<open>An expert of \<open>u1\<close>, released with the first version of a skill that has released a second one.\<close>

definition reminderEdge :: "string \<Rightarrow> PluginRelation" where
  "reminderEdge v = (sampleEdge ''e'' ''k'' ''expert_skill'')\<lparr>r_TargetVersionID := Some v\<rparr>"

definition reminderPlugin :: Plugin where
  "reminderPlugin = (samplePlugin ''e'' PluginTypeExpert ''u1'')\<lparr>p_PublishedVersionID := Some ''v3'', p_CurrentVersionID := Some ''v3'',
     p_CurrentVersion := Some ''1.0.0'', p_Package := Some JNull\<rparr>"

definition reminderStore :: Store where
  "reminderStore = emptyStore\<lparr>
     plugins := [(samplePlugin ''k'' PluginTypeSkill ''u2'')\<lparr>p_PublishedVersionID := Some ''v2''\<rparr>, reminderPlugin],
     relations := [reminderEdge ''v1''],
     versions := [sampleVersion ''k'' ''v1'' [], sampleVersion ''k'' ''v2'' [], (sampleVersion ''e'' ''v3'' [reminderEdge ''v1''])],
     releases := [sampleRelease ''k'' ''v1'', (sampleRelease ''k'' ''v2'')\<lparr>rel_VersionLabel := ''1.1.0''\<rparr>, sampleRelease ''e'' ''v3''],
     policies := [\<lparr>pol_SpaceID = ''s1'', pol_IsAutoApproveEnabled = False, pol_UpdatedBy = '''', pol_UpdatedByName = '''', pol_CreatedAt = 0, pol_UpdatedAt = 0\<rparr>]\<rparr>"

definition reminderTargetKey :: DependencyUpdateTarget where
  "reminderTargetKey = \<lparr>dt_PluginID = ''k'', dt_TargetVersionID = ''v2'', dt_TargetConfigRevision = ''''\<rparr>"

theorem queryDependencyUpdates_sound_witness:
  "\<exists>u. (''e'', u) \<in> set (queryDependencyUpdates managedRepo [] reminderStore sampleOwner [''e'']) \<and> du_TargetVersionID u = ''v2'' \<and>
     (\<exists>t \<in> set (plugins reminderStore). p_ID t = du_PluginID u \<and> inAudience sampleOwner t)"
proof -
  have "map (\<lambda>(i, u). (i, du_TargetVersionID u)) (queryDependencyUpdates managedRepo [] reminderStore sampleOwner [''e'']) = [(''e'', ''v2'')]" by code_simp
  then obtain u where u: "(''e'', u) \<in> set (queryDependencyUpdates managedRepo [] reminderStore sampleOwner [''e''])" "du_TargetVersionID u = ''v2''"
    by (cases "queryDependencyUpdates managedRepo [] reminderStore sampleOwner [''e'']") auto
  with queryDependencyUpdates_sound [OF u(1)] show ?thesis by blast
qed

theorem SkipDependencyUpdates_roundtrip_witness:
  "\<exists>skips' s' u. SkipDependencyUpdates managedRepo sampleOwner ''e'' [reminderTargetKey] [] reminderStore = Inr (skips', s') \<and>
     (''e'', u) \<in> set (queryDependencyUpdates managedRepo skips' reminderStore sampleOwner [''e'']) \<and> candidateKey u = reminderTargetKey \<and> du_IsSkipped u"
proof -
  let ?run = "SkipDependencyUpdates managedRepo sampleOwner ''e'' [reminderTargetKey] [] reminderStore"
  have "\<not> isl ?run" by code_simp
  then obtain skips' s' where run: "?run = Inr (skips', s')" by (auto dest: tx_runs)
  from SkipDependencyUpdates_roundtrip [OF run] have "\<forall>x \<in> set [reminderTargetKey]. \<exists>u. (''e'', u) \<in> set (queryDependencyUpdates managedRepo skips' reminderStore sampleOwner [''e'']) \<and>
      candidateKey u = x \<and> du_IsSkipped u" by blast
  with run show ?thesis by simp
qed

definition reminderSubmit :: DependencyUpdatePublishParams where
  "reminderSubmit = \<lparr>up_Mutation = (sampleMutation (reminderPlugin\<lparr>p_CurrentVersion := Some ''1.1.0'', p_PluginHash := ''ph2''\<rparr>))\<lparr>m_Relations := [(reminderEdge ''v2'')\<lparr>r_ID := '''', r_Data := Some (JObj [])\<rparr>]\<rparr>,
     up_ExpectedPublishedVersionID = ''v3'', up_ExpectedDraftRevision = ''ph'', up_Targets = [reminderTargetKey], up_Version = ''1.1.0'', up_Changelog = ''x''\<rparr>"


end
