(* ===== verification/Revisions.thy ===== *)
theory Revisions
  imports Diagnostics Reminders
begin

text \<open>
  Reads of versions and references: the publication state of a plugin and its saved and released versions
  (\<open>version_snapshot.go\<close>, \<open>version_management.go\<close>, \<open>saved_version.go\<close>), the historical consumers of a version and
  the candidates a reference picker offers (\<open>reference_reads.go\<close>, \<open>ensureReferenceIndexComplete\<close> of
  \<open>references.go\<close>), and the feedback on suspended plugins (\<open>dependency_suspension.go\<close>).

  As in the other reads, each statement has a store of its own. A join is the list of joined rows.
\<close>

section \<open>Versions\<close>

record PluginVersionState =
  vs_CurrentVersionID :: "string option"
  vs_PublishedVersionID :: "string option"

definition GetVersionState :: "Store \<Rightarrow> Scope \<Rightarrow> string \<Rightarrow> RepoError + PluginVersionState" where
  "GetVersionState s sc pluginID =
     (case find (\<lambda>p. p_ID p = pluginID \<and> livePlugin p \<and> visibleTo sc p) (plugins s) of
        None \<Rightarrow> Inl ErrNotFound
      | Some p \<Rightarrow> Inr \<lparr>vs_CurrentVersionID = p_CurrentVersionID p, vs_PublishedVersionID = p_PublishedVersionID p\<rparr>)"

definition ownDraft :: "Scope \<Rightarrow> Plugin \<Rightarrow> bool" where
  "ownDraft sc p \<longleftrightarrow> p_OwnerUID p = s_CallerUID sc \<and> p_SpaceID p = Some (s_SpaceID sc)"

definition versionAccess :: "Store \<Rightarrow> Scope \<Rightarrow> Plugin \<Rightarrow> string \<Rightarrow> bool" where
  "versionAccess s sc p versionID \<longleftrightarrow> s_Admin sc \<or>
     visibilitySQL (s_SpaceID sc) (s_CallerUID sc) p \<and> (ownDraft sc p \<or> releaseOf s (p_ID p) (Some versionID) \<noteq> None)"

definition versionJoin :: "Store \<Rightarrow> (Plugin \<Rightarrow> PluginVersion \<Rightarrow> bool) \<Rightarrow> (Plugin \<times> PluginVersion) list" where
  "versionJoin s cond = concat (map (\<lambda>v. map (\<lambda>p. (p, v))
     (filter (\<lambda>p. p_ID p = v_PluginID v \<and> livePlugin p \<and> cond p v) (plugins s))) (versions s))"

record ManagedVersion =
  mv_Version :: PluginVersion
  mv_Release :: "PluginVersionRelease option"
  mv_IsCurrent :: bool
  mv_IsPublished :: bool
  mv_PluginType :: "PluginType option"

definition scanManagedVersion :: "Store \<Rightarrow> Plugin \<times> PluginVersion \<Rightarrow> ManagedVersion" where
  "scanManagedVersion s = (\<lambda>(p, v). \<lparr>mv_Version = v, mv_Release = releaseOf s (v_PluginID v) (Some (v_ID v)),
     mv_IsCurrent = (p_CurrentVersionID p = Some (v_ID v)), mv_IsPublished = (p_PublishedVersionID p = Some (v_ID v)), mv_PluginType = None\<rparr>)"

definition GetManagedVersion :: "Store \<Rightarrow> Scope \<Rightarrow> string \<Rightarrow> string \<Rightarrow> RepoError + ManagedVersion" where
  "GetManagedVersion s sc pluginID versionID =
     (case versionJoin s (\<lambda>p v. v_PluginID v = pluginID \<and> v_ID v = versionID \<and> p_Type p \<noteq> PluginTypeConnector \<and>
          versionAccess s sc p versionID) of
        [] \<Rightarrow> Inl ErrNotFound
      | row # _ \<Rightarrow> Inr (scanManagedVersion s row))"

text \<open>The list selects no documents.\<close>

definition listedVersion :: "PluginVersion \<Rightarrow> PluginVersion" where
  "listedVersion v = v\<lparr>v_Manifest := None, v_Package := None, v_AttachmentKeys := None, v_Relations := [], v_Artifacts := None\<rparr>"

definition managedRows :: "Store \<Rightarrow> Scope \<Rightarrow> string \<Rightarrow> (Plugin \<times> PluginVersion) list" where
  "managedRows s sc pluginID = versionJoin s (\<lambda>p v. v_PluginID v = pluginID \<and> versionAccess s sc p (v_ID v))"

definition ListManagedVersions ::
  "Store \<Rightarrow> Store \<Rightarrow> Store \<Rightarrow> Scope \<Rightarrow> string \<Rightarrow> int \<Rightarrow> int \<Rightarrow> RepoError + (ManagedVersion list \<times> nat)" where
  "ListManagedVersions s0 s1 s2 sc pluginID limit offset =
     (case Get s0 sc pluginID of
        Inl e \<Rightarrow> Inl e
      | Inr p \<Rightarrow>
          if \<not> versioned p then Inl ErrNotFound
          else Inr (map (\<lambda>(q, v). (scanManagedVersion s2 (q, listedVersion v))\<lparr>mv_PluginType := Some (p_Type p)\<rparr>)
              (take (if limit \<le> 0 then 20 else if limit > 100 then 100 else nat limit) (drop (nat (max offset 0))
                (rev (sort_key (v_CreatedAt \<circ> snd) (sort_key (v_ID \<circ> snd) (managedRows s2 sc pluginID)))))),
            length (managedRows s1 sc pluginID)))"

definition GetSavedVersion :: "Store \<Rightarrow> Scope \<Rightarrow> string \<Rightarrow> string \<Rightarrow> RepoError + (PluginType \<times> PluginVersion)" where
  "GetSavedVersion s sc pluginID versionID =
     (case versionJoin s (\<lambda>p v. v_PluginID v = pluginID \<and> v_ID v = versionID \<and> (s_Admin sc \<or> ownDraft sc p)) of
        [] \<Rightarrow> Inl ErrNotFound
      | (p, v) # _ \<Rightarrow> Inr (p_Type p, v))"

section \<open>Consumers of a version\<close>

text \<open>A snapshot without a verified index, one that was changed since, or one whose edges are not all there.\<close>

definition indexMissing :: "Repo \<Rightarrow> Store \<Rightarrow> PluginVersion \<Rightarrow> bool" where
  "indexMissing r s v \<longleftrightarrow>
     (case filter (\<lambda>i. ri_SourcePluginID i = v_PluginID v \<and> ri_SourceVersionID i = v_ID v) (refIndex s) of
        [] \<Rightarrow> True
      | rows \<Rightarrow> (\<exists>i \<in> set rows. ri_SnapshotDigest i \<noteq> relationsDigest r (v_Relations v) \<or>
          ri_RelationCount i \<noteq> length (filter (\<lambda>e. re_SourceVersionID e = v_ID v) (refEdges s))))"

definition ensureReferenceIndexComplete :: "Repo \<Rightarrow> Store \<Rightarrow> Scope \<Rightarrow> RepoError + unit" where
  "ensureReferenceIndexComplete r s sc =
     (if \<exists>x \<in> set (versionJoin s (\<lambda>p v. versionAccess s sc p (v_ID v))). indexMissing r s (snd x)
      then Inl ErrReferenceIndexIncomplete else Inr ())"

record ReferenceDependent =
  rd_PluginID :: string
  rd_VersionID :: string
  rd_Name :: string
  rd_Type :: PluginType
  rd_RelationType :: string
  rd_Depth :: nat

text \<open>The recursive query: the direct consumers, and the consumers of these versions.\<close>

definition directDependents :: "Store \<Rightarrow> string \<Rightarrow> string \<Rightarrow> (string \<times> string \<times> string) list" where
  "directDependents s targetID versionID = remdups (map (\<lambda>e. (re_SourcePluginID e, re_SourceVersionID e, re_Type e))
     (filter (\<lambda>e. re_TargetPluginID e = targetID \<and> (versionID = '''' \<or> re_TargetVersionID e = Some versionID)) (refEdges s)))"

definition nextDependents :: "Store \<Rightarrow> (string \<times> string \<times> string) list \<Rightarrow> (string \<times> string \<times> string) list" where
  "nextDependents s found = remdups (map (\<lambda>e. (re_SourcePluginID e, re_SourceVersionID e, re_Type e))
     (filter (\<lambda>e. \<exists>(sp, sv, _) \<in> set found. re_TargetPluginID e = sp \<and> re_TargetVersionID e = Some sv) (refEdges s)))"

definition dependents :: "Store \<Rightarrow> string \<Rightarrow> string \<Rightarrow> (nat \<times> string \<times> string \<times> string) list" where
  "dependents s targetID versionID =
     (let direct = directDependents s targetID versionID in
      map (\<lambda>x. (1, x)) direct @ map (\<lambda>x. (2, x)) (nextDependents s direct))"

definition dependentRow :: "nat \<times> string \<times> string \<times> string \<Rightarrow> Plugin \<times> PluginVersion \<Rightarrow> ReferenceDependent" where
  "dependentRow = (\<lambda>(depth, sp, sv, ty) (p, v). \<lparr>rd_PluginID = p_ID p, rd_VersionID = sv,
     rd_Name = (case manifestText ''plugin_name'' (v_Manifest v) of None \<Rightarrow> '''' | Some n \<Rightarrow> n), rd_Type = p_Type p,
     rd_RelationType = ty, rd_Depth = depth\<rparr>)"

definition dependentRows :: "Store \<Rightarrow> Scope \<Rightarrow> string \<Rightarrow> string \<Rightarrow> ReferenceDependent list" where
  "dependentRows s sc targetID versionID =
     concat (map (\<lambda>d. map (dependentRow d)
       (versionJoin s (\<lambda>p v. v_PluginID v = fst (snd d) \<and> v_ID v = fst (snd (snd d)) \<and> versionAccess s sc p (v_ID v))))
       (dependents s targetID versionID))"

definition pageOf :: "int \<Rightarrow> int \<Rightarrow> 'a list \<Rightarrow> 'a list" where
  "pageOf limit offset xs = take (if limit < 1 \<or> limit > 100 then 20 else nat limit) (drop (nat (max offset 0)) xs)"

definition ReferenceDependents ::
  "Repo \<Rightarrow> Store \<Rightarrow> Store \<Rightarrow> Store \<Rightarrow> Store \<Rightarrow> Scope \<Rightarrow> string \<Rightarrow> string \<Rightarrow> int \<Rightarrow> int \<Rightarrow> RepoError + (ReferenceDependent list \<times> nat)" where
  "ReferenceDependents r s0 s1 s2 s3 sc targetID versionID limit offset =
     (if \<not> references r then Inl ErrNotFound
      else case Get s0 sc targetID of
        Inl e \<Rightarrow> Inl e
      | Inr _ \<Rightarrow>
          (case ensureReferenceIndexComplete r s1 sc of
             Inl e \<Rightarrow> Inl e
           | Inr _ \<Rightarrow> Inr (pageOf limit offset (sort_key rd_Depth (sort_key rd_PluginID (sort_key rd_VersionID
                 (dependentRows s3 sc targetID versionID)))), length (dependentRows s2 sc targetID versionID))))"

section \<open>Candidates of a reference\<close>

record ReferenceCandidate =
  rc_PluginID :: string
  rc_Name :: string
  rc_Type :: PluginType
  rc_VersionID :: "string option"
  rc_AlreadyBound :: bool
  rc_IsSelectable :: bool
  rc_Reason :: string

definition candidateType :: "string \<Rightarrow> PluginType option" where
  "candidateType relationType =
     (if relationType = ''expert_skill'' then Some PluginTypeSkill
      else if relationType = ''expert_connector'' then Some PluginTypeConnector
      else if relationType = ''expert_team_expert'' then Some PluginTypeExpert
      else None)"

definition editableSource :: "Scope \<Rightarrow> Plugin \<Rightarrow> bool" where
  "editableSource sc source \<longleftrightarrow> s_Admin sc \<or> ownDraft sc source"

text \<open>The targets of the released relations a reader may know of.\<close>

definition releasedBindings :: "string \<Rightarrow> string \<Rightarrow> PluginRelation list \<Rightarrow> string list" where
  "releasedBindings sourceID relationType rels = map r_TargetPluginID (filter (\<lambda>e. r_SourcePluginID e = sourceID \<and>
     r_Type e = relationType \<and> r_Status e = 1 \<and> r_DeletedAt e = None) rels)"

definition boundTargets :: "Store \<Rightarrow> Store \<Rightarrow> Scope \<Rightarrow> Plugin \<Rightarrow> string \<Rightarrow> RepoError + string list" where
  "boundTargets s1 s2 sc source relationType =
     (if editableSource sc source then Inr []
      else case GetVersionState s1 sc (p_ID source) of
        Inl e \<Rightarrow> Inl e
      | Inr st \<Rightarrow>
          (case vs_PublishedVersionID st of
             None \<Rightarrow> Inl ErrVersionBaselineUnavailable
           | Some vid \<Rightarrow>
               (case GetManagedVersion s2 sc (p_ID source) vid of
                  Inl e \<Rightarrow> Inl e
                | Inr mv \<Rightarrow> if mv_Release mv = None then Inl ErrVersionBaselineUnavailable
                    else Inr (releasedBindings (p_ID source) relationType (v_Relations (mv_Version mv))))))"

definition candidateAudience :: "Plugin \<Rightarrow> Plugin \<Rightarrow> bool" where
  "candidateAudience source p \<longleftrightarrow>
     p_Visibility p = PluginVisibilitySystem \<or> p_Visibility p = PluginVisibilityPublic \<or>
     (referenceVisibility (p_Visibility source) \<noteq> PluginVisibilitySystem \<and> p_SpaceID source \<noteq> None \<and> p_SpaceID p = p_SpaceID source \<and>
      (p_Visibility p = PluginVisibilitySpace \<or>
       p_Visibility source = PluginVisibilityPrivate \<and> p_OwnerUID p = p_OwnerUID source \<and> p_Visibility p = PluginVisibilityPrivate))"

definition candidatePlugins :: "Store \<Rightarrow> Plugin \<Rightarrow> PluginType \<Rightarrow> Plugin list" where
  "candidatePlugins s source targetType = filter (\<lambda>p. p_Type p = targetType \<and> \<not> p_IsEmbedded p \<and> livePlugin p \<and>
     p_ListingState p = PluginListingStatePublished \<and> candidateAudience source p) (plugins s)"

definition candidateName :: "Store \<Rightarrow> Plugin \<Rightarrow> string" where
  "candidateName s p =
     (if p_Type p = PluginTypeConnector then p_Name p
      else case releaseOf s (p_ID p) (p_PublishedVersionID p) of
        None \<Rightarrow> ''''
      | Some rel \<Rightarrow>
          (case find (\<lambda>v. v_PluginID v = p_ID p \<and> v_ID v = rel_VersionID rel) (versions s) of
             None \<Rightarrow> ''''
           | Some v \<Rightarrow> (case manifestText ''plugin_name'' (v_Manifest v) of None \<Rightarrow> '''' | Some n \<Rightarrow> n)))"

definition draftBound :: "Store \<Rightarrow> string \<Rightarrow> string \<Rightarrow> string \<Rightarrow> bool" where
  "draftBound s sourceID relationType targetID \<longleftrightarrow> (\<exists>e \<in> set (relations s). r_SourcePluginID e = sourceID \<and>
     r_Type e = relationType \<and> r_TargetPluginID e = targetID \<and> r_Status e = 1 \<and> r_DeletedAt e = None)"

definition candidateRow :: "Store \<Rightarrow> bool \<Rightarrow> string list \<Rightarrow> string \<Rightarrow> string \<Rightarrow> Plugin \<Rightarrow> ReferenceCandidate" where
  "candidateRow s editable bound sourceID relationType p =
     (let vid = map_option rel_VersionID (releaseOf s (p_ID p) (p_PublishedVersionID p));
          taken = (if editable then draftBound s sourceID relationType (p_ID p) else p_ID p \<in> set bound);
          ok = (\<not> taken \<and> (p_Type p = PluginTypeConnector \<or> vid \<noteq> None)) in
      \<lparr>rc_PluginID = p_ID p, rc_Name = candidateName s p, rc_Type = p_Type p, rc_VersionID = vid, rc_AlreadyBound = taken,
       rc_IsSelectable = ok,
       rc_Reason = (if ok then '''' else if taken then ''already_bound'' else ''release_baseline_required'')\<rparr>)"

definition ReferenceCandidates ::
  "Repo \<Rightarrow> Store \<Rightarrow> Store \<Rightarrow> Store \<Rightarrow> Store \<Rightarrow> Store \<Rightarrow> Scope \<Rightarrow> string \<Rightarrow> string \<Rightarrow> int \<Rightarrow> int \<Rightarrow>
   RepoError + (ReferenceCandidate list \<times> nat)" where
  "ReferenceCandidates r s0 s1 s2 s3 s4 sc sourceID relationType limit offset =
     (if \<not> references r then Inl ErrNotFound
      else case Get s0 sc sourceID of
        Inl e \<Rightarrow> Inl e
      | Inr source \<Rightarrow>
          (case candidateType relationType of
             None \<Rightarrow> Inl ErrInvalidRelation
           | Some targetType \<Rightarrow>
               if \<not> validPersistedRelation relationType (p_Type source) targetType then Inl ErrInvalidRelation
               else case boundTargets s1 s2 sc source relationType of
                 Inl e \<Rightarrow> Inl e
               | Inr bound \<Rightarrow> Inr (pageOf limit offset (sort_key rc_Name (sort_key rc_PluginID
                     (map (candidateRow s4 (editableSource sc source) bound sourceID relationType) (candidatePlugins s4 source targetType)))),
                   length (remdups (map p_ID (candidatePlugins s3 source targetType))))))"

section \<open>Feedback on suspended plugins\<close>

definition suspensionReason :: "Scope \<Rightarrow> Plugin \<Rightarrow> Plugin option \<Rightarrow> string" where
  "suspensionReason sc root source =
     (case source of
        None \<Rightarrow> ''deleted''
      | Some p \<Rightarrow>
          if \<not> livePlugin p then ''deleted''
          else if p_ListingState p \<noteq> PluginListingStatePublished then ''delisted''
          else if p_Visibility p = PluginVisibilityPrivate \<and> (p_OwnerUID p \<noteq> s_CallerUID sc \<or> p_Visibility root \<noteq> PluginVisibilityPrivate)
          then ''visibility_restricted'' else '''')"

definition suspendedRoots :: "Store \<Rightarrow> Scope \<Rightarrow> Plugin list \<Rightarrow> (Plugin \<times> string) list" where
  "suspendedRoots s sc items = concat (map (\<lambda>x. map (\<lambda>root. (root, sus_SourcePluginID x))
     (filter (\<lambda>root. p_ID root = sus_PluginID x \<and> ownDraft sc root \<and> p_ID root \<in> set (map p_ID items)) (plugins s))) (suspensions s))"

definition SuspensionDiagnostics :: "Store \<Rightarrow> Scope \<Rightarrow> Plugin list \<Rightarrow> string list \<times> (string \<times> DependencyIssue) list" where
  "SuspensionDiagnostics s sc items =
     (map (p_ID \<circ> fst) (suspendedRoots s sc items),
      filter (\<lambda>(_, issue). di_Reason issue \<noteq> '''') (map (\<lambda>(root, source). (p_ID root,
        \<lparr>di_TargetPluginID = source, di_TargetName = '''', di_RelationType = '''',
         di_Reason = suspensionReason sc root (find (\<lambda>p. p_ID p = source) (plugins s)), di_Via = []\<rparr>)) (suspendedRoots s sc items)))"

section \<open>The picker offers what a save accepts\<close>

lemma candidateAudience_reference: "candidateAudience source p \<longleftrightarrow> referenceAudience source p"
  by (cases "p_Visibility p"; cases "p_Visibility source"; cases "p_SpaceID source"; cases "p_SpaceID p")
    (auto simp: candidateAudience_def referenceAudience_def referenceVisibility_def Let_def)

text \<open>A target the reference validation of a save admits as a new edge of the source.\<close>

definition admissible :: "Store \<Rightarrow> Plugin \<Rightarrow> string \<Rightarrow> Plugin \<Rightarrow> bool" where
  "admissible s source relationType t \<longleftrightarrow> lockIndependentReferenceTarget source source (p_ID t) s = Inr (t, s) \<and>
     p_ListingState t = PluginListingStatePublished \<and> validPersistedRelation relationType (p_Type source) (p_Type t)"

lemma find_live_row:
  assumes "distinct (map f xs)" and "t \<in> set xs" and "P t" shows "find (\<lambda>x. f x = f t \<and> P x) xs = Some t"
  by (rule find_unique_key [OF assms(1,2)]) (use assms(3) in simp_all)

lemma lockIndependent_live:
  assumes "distinct (map p_ID (plugins s))" and "t \<in> set (plugins s)"
  shows "lockIndependentReferenceTarget source source (p_ID t) s = Inr (t, s) \<longleftrightarrow>
     livePlugin t \<and> \<not> p_IsEmbedded t \<and> referenceAudience source t"
proof (cases "livePlugin t")
  case True
  with find_live_row [OF assms, of "\<lambda>p. p_Status p = 1 \<and> p_DeletedAt p = None"]
  have "find (\<lambda>p. p_ID p = p_ID t \<and> p_Status p = 1 \<and> p_DeletedAt p = None) (plugins s) = Some t" by (simp add: livePlugin_def)
  with True show ?thesis by (simp add: lockIndependentReferenceTarget_def tx_eval)
next
  case False
  have "\<not> lockIndependentReferenceTarget source source (p_ID t) s = Inr (t, s)"
  proof
    assume "lockIndependentReferenceTarget source source (p_ID t) s = Inr (t, s)"
    then have "find (\<lambda>p. p_ID p = p_ID t \<and> p_Status p = 1 \<and> p_DeletedAt p = None) (plugins s) = Some t"
      by (auto simp: lockIndependentReferenceTarget_def tx_simps)
    from find_Some_mem [OF this] False show False by (simp add: livePlugin_def)
  qed
  with False show ?thesis by simp
qed

lemma candidatePlugins_admissible:
  assumes "distinct (map p_ID (plugins s))" and "candidateType relationType = Some ty" and "validPersistedRelation relationType (p_Type source) ty"
  shows "candidatePlugins s source ty = filter (admissible s source relationType) (plugins s)"
proof -
  have "validPersistedRelation relationType (p_Type source) (p_Type t) \<longleftrightarrow> p_Type t = ty" for t
    using assms(2,3) by (auto simp: candidateType_def validPersistedRelation_def split: if_splits)
  then show ?thesis unfolding candidatePlugins_def
    by (intro filter_cong refl) (auto simp: admissible_def lockIndependent_live [OF assms(1)] candidateAudience_reference)
qed

lemma candidateRow_id: "rc_PluginID (candidateRow s editable bound sourceID relationType p) = p_ID p"
  by (simp add: candidateRow_def Let_def)

lemma candidateRow_selectable:
  assumes "rc_IsSelectable (candidateRow s editable bound sourceID relationType p)"
  shows "rc_Type (candidateRow s editable bound sourceID relationType p) = PluginTypeConnector \<or>
    (\<exists>rel \<in> set (releases s). rel_PluginID rel = p_ID p \<and>
       rc_VersionID (candidateRow s editable bound sourceID relationType p) = Some (rel_VersionID rel))"
proof (cases "releaseOf s (p_ID p) (p_PublishedVersionID p)")
  case None
  with assms show ?thesis by (simp add: candidateRow_def Let_def)
next
  case (Some rel)
  then have "rel \<in> set (releases s) \<and> rel_PluginID rel = p_ID p"
    by (auto simp: releaseOf_def split: option.splits dest!: find_Some_mem)
  moreover have "rc_VersionID (candidateRow s editable bound sourceID relationType p) = Some (rel_VersionID rel)"
    using Some by (simp add: candidateRow_def Let_def)
  ultimately show ?thesis by blast
qed

lemma pageOf_subset: "set (pageOf limit offset xs) \<subseteq> set xs"
  unfolding pageOf_def by (meson set_drop_subset set_take_subset subset_trans)

lemma pageOf_all: "length xs \<le> nat limit \<Longrightarrow> 1 \<le> limit \<Longrightarrow> limit \<le> 100 \<Longrightarrow> offset \<le> 0 \<Longrightarrow> pageOf limit offset xs = xs"
  by (simp add: pageOf_def)


definition pickerStore :: Store where
  "pickerStore = emptyStore\<lparr>
     plugins := [(samplePlugin ''k'' PluginTypeSkill ''u2'')\<lparr>p_PublishedVersionID := Some ''v''\<rparr>,
       samplePlugin ''j'' PluginTypeSkill ''u2'', (samplePlugin ''h'' PluginTypeSkill ''u2'')\<lparr>p_ListingState := PluginListingStateDraft\<rparr>,
       samplePlugin ''e'' PluginTypeExpert ''u1''],
     versions := [sampleVersion ''k'' ''w'' [], sampleVersion ''k'' ''v'' []], releases := [sampleRelease ''k'' ''v'']\<rparr>"


section \<open>The drafts of others stay hidden\<close>

text \<open>A store without the versions that were never released and are not of a plugin of the caller.\<close>

definition hideDrafts :: "Scope \<Rightarrow> Store \<Rightarrow> Store" where
  "hideDrafts sc s = s\<lparr>versions := filter (\<lambda>v. releaseOf s (v_PluginID v) (Some (v_ID v)) \<noteq> None \<or>
     (\<exists>p \<in> set (plugins s). p_ID p = v_PluginID v \<and> ownDraft sc p)) (versions s)\<rparr>"

lemma hideDrafts_keeps [simp]:
  "plugins (hideDrafts sc s) = plugins s" "releases (hideDrafts sc s) = releases s" "relations (hideDrafts sc s) = relations s"
  "refEdges (hideDrafts sc s) = refEdges s" "refIndex (hideDrafts sc s) = refIndex s"
  by (simp_all add: hideDrafts_def)

lemma hideDrafts_simps:
  "releaseOf (hideDrafts sc s) = releaseOf s" "versionAccess (hideDrafts sc s) = versionAccess s" "Get (hideDrafts sc s) = Get s"
  "GetVersionState (hideDrafts sc s) = GetVersionState s" "scanManagedVersion (hideDrafts sc s) = scanManagedVersion s"
  "indexMissing r (hideDrafts sc s) = indexMissing r s" "dependents (hideDrafts sc s) = dependents s"
  "candidatePlugins (hideDrafts sc s) = candidatePlugins s" "draftBound (hideDrafts sc s) = draftBound s"
  by (simp_all add: fun_eq_iff releaseOf_def versionAccess_def Get_def GetVersionState_def scanManagedVersion_def indexMissing_def
    dependents_def directDependents_def nextDependents_def candidatePlugins_def draftBound_def split: list.splits)

lemma concat_map_filter: "(\<And>x. x \<in> set xs \<Longrightarrow> \<not> P x \<Longrightarrow> f x = []) \<Longrightarrow> concat (map f (filter P xs)) = concat (map f xs)"
  by (induction xs) auto

lemma versionJoin_hidden:
  assumes "\<And>p v. cond p v \<Longrightarrow> ownDraft sc p \<or> releaseOf s (p_ID p) (Some (v_ID v)) \<noteq> None"
  shows "versionJoin (hideDrafts sc s) cond = versionJoin s cond"
proof -
  let ?f = "\<lambda>v. map (\<lambda>p. (p, v)) (filter (\<lambda>p. p_ID p = v_PluginID v \<and> livePlugin p \<and> cond p v) (plugins s))"
  let ?P = "\<lambda>v. releaseOf s (v_PluginID v) (Some (v_ID v)) \<noteq> None \<or> (\<exists>p \<in> set (plugins s). p_ID p = v_PluginID v \<and> ownDraft sc p)"
  have "concat (map ?f (filter ?P (versions s))) = concat (map ?f (versions s))"
  proof (rule concat_map_filter)
    fix v :: PluginVersion assume "\<not> ?P v"
    with assms show "?f v = []" by (fastforce simp: filter_empty_conv)
  qed
  then show ?thesis by (simp add: versionJoin_def hideDrafts_def)
qed

lemma find_filter: "(\<And>x. x \<in> set xs \<Longrightarrow> P x \<Longrightarrow> Q x) \<Longrightarrow> find P (filter Q xs) = find P xs"
  by (induction xs) auto

lemma releaseOf_version: "releaseOf s pid vid = Some rel \<Longrightarrow> releaseOf s pid (Some (rel_VersionID rel)) \<noteq> None"
proof -
  assume "releaseOf s pid vid = Some rel"
  then have "rel \<in> set (releases s)" "rel_PluginID rel = pid" by (auto simp: releaseOf_def dest: find_Some_mem)
  then show ?thesis unfolding releaseOf_def find_None_iff by auto
qed

lemma candidateName_hidden: "candidateName (hideDrafts sc s) = candidateName s"
proof (rule ext)
  fix p
  show "candidateName (hideDrafts sc s) p = candidateName s p"
  proof (cases "releaseOf s (p_ID p) (p_PublishedVersionID p)")
    case None
    then show ?thesis by (simp add: candidateName_def hideDrafts_simps)
  next
    case (Some rel)
    have "find (\<lambda>v. v_PluginID v = p_ID p \<and> v_ID v = rel_VersionID rel) (versions (hideDrafts sc s)) =
      find (\<lambda>v. v_PluginID v = p_ID p \<and> v_ID v = rel_VersionID rel) (versions s)"
      using releaseOf_version [OF Some] by (simp add: hideDrafts_def) (rule find_filter; simp)
    with Some show ?thesis by (simp add: candidateName_def hideDrafts_simps)
  qed
qed

lemma versionAccess_released:
  "\<not> s_Admin sc \<Longrightarrow> versionAccess s sc p v \<Longrightarrow> ownDraft sc p \<or> releaseOf s (p_ID p) (Some v) \<noteq> None"
  by (simp add: versionAccess_def)

lemma GetManagedVersion_hidden: "\<not> s_Admin sc \<Longrightarrow> GetManagedVersion (hideDrafts sc s) sc = GetManagedVersion s sc"
  unfolding GetManagedVersion_def hideDrafts_simps by (subst versionJoin_hidden) (auto dest: versionAccess_released)

lemma managedRows_hidden: "\<not> s_Admin sc \<Longrightarrow> managedRows (hideDrafts sc s) sc = managedRows s sc"
  unfolding managedRows_def hideDrafts_simps by (subst versionJoin_hidden) (auto dest: versionAccess_released)

lemma GetSavedVersion_hidden: "\<not> s_Admin sc \<Longrightarrow> GetSavedVersion (hideDrafts sc s) sc = GetSavedVersion s sc"
  unfolding GetSavedVersion_def by (subst versionJoin_hidden) auto

lemma ensureReferenceIndexComplete_hidden:
  "\<not> s_Admin sc \<Longrightarrow> ensureReferenceIndexComplete r (hideDrafts sc s) sc = ensureReferenceIndexComplete r s sc"
  unfolding ensureReferenceIndexComplete_def hideDrafts_simps by (subst versionJoin_hidden) (auto dest: versionAccess_released)

lemma dependentRows_hidden: "\<not> s_Admin sc \<Longrightarrow> dependentRows (hideDrafts sc s) sc = dependentRows s sc"
  unfolding dependentRows_def hideDrafts_simps by (subst versionJoin_hidden) (auto dest: versionAccess_released)

lemma boundTargets_hidden: "\<not> s_Admin sc \<Longrightarrow> boundTargets (hideDrafts sc s1) (hideDrafts sc s2) sc = boundTargets s1 s2 sc"
  unfolding boundTargets_def hideDrafts_simps by (subst GetManagedVersion_hidden) simp_all

lemma candidateRow_hidden: "candidateRow (hideDrafts sc s) = candidateRow s"
  unfolding candidateRow_def hideDrafts_simps candidateName_hidden by simp

lemmas hidden_reads = GetManagedVersion_hidden managedRows_hidden GetSavedVersion_hidden ensureReferenceIndexComplete_hidden
  dependentRows_hidden boundTargets_hidden

lemma ListManagedVersions_hidden:
  "\<not> s_Admin sc \<Longrightarrow> ListManagedVersions (hideDrafts sc s0) (hideDrafts sc s1) (hideDrafts sc s2) sc = ListManagedVersions s0 s1 s2 sc"
  by (unfold ListManagedVersions_def hideDrafts_simps candidateRow_hidden, (subst hidden_reads, assumption)+, rule refl)

lemma ReferenceDependents_hidden:
  "\<not> s_Admin sc \<Longrightarrow> ReferenceDependents r (hideDrafts sc s0) (hideDrafts sc s1) (hideDrafts sc s2) (hideDrafts sc s3) sc =
     ReferenceDependents r s0 s1 s2 s3 sc"
  by (unfold ReferenceDependents_def hideDrafts_simps candidateRow_hidden, (subst hidden_reads, assumption)+, rule refl)

lemma ReferenceCandidates_hidden:
  "\<not> s_Admin sc \<Longrightarrow> ReferenceCandidates r (hideDrafts sc s0) (hideDrafts sc s1) (hideDrafts sc s2) (hideDrafts sc s3) (hideDrafts sc s4) sc =
     ReferenceCandidates r s0 s1 s2 s3 s4 sc"
  by (unfold ReferenceCandidates_def hideDrafts_simps candidateRow_hidden, (subst hidden_reads, assumption)+, rule refl)

text \<open>C38: the drafts of others do not leak. For a caller without administration rights, two histories of stores that
  differ only in versions that were never released and belong to plugins of others give the same answer, error or
  not, to every read of a version: the detail of a version, the list of versions, a saved version, the consumers of a
  version and the candidates of a reference.\<close>

theorem drafts_do_not_leak:
  assumes tenant: "\<not> s_Admin sc" and same: "\<And>i. hideDrafts sc (s i) = hideDrafts sc (t i)"
  shows "GetManagedVersion (s 0) sc pid vid = GetManagedVersion (t 0) sc pid vid \<and>
    GetSavedVersion (s 0) sc pid vid = GetSavedVersion (t 0) sc pid vid \<and>
    ListManagedVersions (s 0) (s 1) (s 2) sc pid limit offset = ListManagedVersions (t 0) (t 1) (t 2) sc pid limit offset \<and>
    ReferenceDependents r (s 0) (s 1) (s 2) (s 3) sc pid vid limit offset = ReferenceDependents r (t 0) (t 1) (t 2) (t 3) sc pid vid limit offset \<and>
    ReferenceCandidates r (s 0) (s 1) (s 2) (s 3) (s (4 :: nat)) sc pid ty limit offset =
      ReferenceCandidates r (t 0) (t 1) (t 2) (t 3) (t 4) sc pid ty limit offset"
proof -
  note hidden = GetManagedVersion_hidden [OF tenant, symmetric] GetSavedVersion_hidden [OF tenant, symmetric]
  have "GetManagedVersion (s 0) sc = GetManagedVersion (t 0) sc" "GetSavedVersion (s 0) sc = GetSavedVersion (t 0) sc"
    using hidden [of "s 0"] hidden [of "t 0"] by (simp_all only: same)
  moreover have "ListManagedVersions (s 0) (s 1) (s 2) sc = ListManagedVersions (t 0) (t 1) (t 2) sc"
    using ListManagedVersions_hidden [OF tenant, of "s 0" "s 1" "s 2"] ListManagedVersions_hidden [OF tenant, of "t 0" "t 1" "t 2"]
    by (simp only: same)
  moreover have "ReferenceDependents r (s 0) (s 1) (s 2) (s 3) sc = ReferenceDependents r (t 0) (t 1) (t 2) (t 3) sc"
    using ReferenceDependents_hidden [OF tenant, of r "s 0" "s 1" "s 2" "s 3"] ReferenceDependents_hidden [OF tenant, of r "t 0" "t 1" "t 2" "t 3"]
    by (simp only: same)
  moreover have "ReferenceCandidates r (s 0) (s 1) (s 2) (s 3) (s 4) sc = ReferenceCandidates r (t 0) (t 1) (t 2) (t 3) (t 4) sc"
    using ReferenceCandidates_hidden [OF tenant, of r "s 0" "s 1" "s 2" "s 3" "s 4"]
      ReferenceCandidates_hidden [OF tenant, of r "t 0" "t 1" "t 2" "t 3" "t 4"] by (simp only: same)
  ultimately show ?thesis by (simp only: simp_thms)
qed

theorem drafts_do_not_leak_witness:
  "versions pickerStore \<noteq> [sampleVersion ''k'' ''v'' []] \<and>
   GetManagedVersion pickerStore sampleOwner ''k'' ''w'' =
     GetManagedVersion (pickerStore\<lparr>versions := [sampleVersion ''k'' ''v'' []]\<rparr>) sampleOwner ''k'' ''w'' \<and>
   ListManagedVersions pickerStore pickerStore pickerStore sampleOwner ''k'' 20 0 =
     (let t = pickerStore\<lparr>versions := [sampleVersion ''k'' ''v'' []]\<rparr> in ListManagedVersions t t t sampleOwner ''k'' 20 0)"
proof -
  have same: "hideDrafts sampleOwner pickerStore = hideDrafts sampleOwner (pickerStore\<lparr>versions := [sampleVersion ''k'' ''v'' []]\<rparr>)"
    by code_simp
  have tenant: "\<not> s_Admin sampleOwner" by code_simp
  have "versions pickerStore \<noteq> [sampleVersion ''k'' ''v'' []]" by code_simp
  with drafts_do_not_leak [of sampleOwner "\<lambda>_. pickerStore", OF tenant same, of "''k''" "''w''" 20 0]
  show ?thesis unfolding Let_def by blast
qed

end
