(* ===== verification/Published.thy ===== *)
theory Published
  imports Decisions Revisions
begin

text \<open>
  Released content in the service layer (\<open>service/plugin/version_management.go\<close>, with \<open>currentDetail\<close>, \<open>Detail\<close>,
  \<open>DetailGraph\<close> and \<open>ListVersions\<close> of \<open>service.go\<close>, \<open>AdminDetail\<close> of \<open>admin.go\<close>, \<open>visibility.go\<close>, the reads of
  \<open>references.go\<close> and \<open>id_boundary.go\<close>): the detail of a plugin as its readers see it, the graph of pinned releases, version
  files, and the publications that verify the files first.

  The methods are service runs in the sense of \<open>Decisions\<close>. The repository implements the version store, so
  \<open>versionStore\<close> fails only when version management is off. A read of several statements takes its stores at
  consecutive turns. The addresses of icons are not part of a detail, and the review a caller sees with a plugin of
  its own is kept beside the row. A version row holds decoded relations.
\<close>

section \<open>Details\<close>

definition storageIDPattern :: "string \<Rightarrow> bool" where
  "storageIDPattern s \<longleftrightarrow> s \<noteq> [] \<and> alnum (hd s) \<and> list_all (\<lambda>c. alnum c \<or> c \<in> set ''._-'') (tl s) \<and> length s \<le> 64"

definition parseStorageID :: "string \<Rightarrow> unit run" where
  "parseStorageID value = guardW (\<not> storageIDPattern value) EInvalidRequest"

definition adminScope :: "Caller \<Rightarrow> Scope" where
  "adminScope c = \<lparr>s_CallerUID = c_UID c, s_SpaceID = '''', s_Admin = True\<rparr>"

definition versionStore :: "Service \<Rightarrow> unit run" where
  "versionStore sv = guardW (\<not> sv_VersionManagement sv) ENotFound"

definition storeW :: "Service \<Rightarrow> Store run" where
  "storeW sv = readW sv Inr"

definition getWithRelations :: "Service \<Rightarrow> Scope \<Rightarrow> string \<Rightarrow> (Plugin \<times> PluginRelation list) run" where
  "getWithRelations sv sc pluginID =
     bindW (readW sv (\<lambda>s. Get s sc pluginID)) (\<lambda>p.
     bindW (readW sv (\<lambda>s. Inr (edgeRows s sc (\<lambda>i. i = pluginID)))) (\<lambda>rels. returnW (p, rels)))"

record Detail =
  d_Plugin :: Plugin
  d_Relations :: "PluginRelation list"
  d_Issues :: "DependencyIssue list"
  d_Review :: "(string \<times> ReviewStatus) option"
  d_DraftRevision :: string
  d_DraftChangelog :: "string option"
  d_PublishedVersion :: "string option"

definition plainDetail :: "Plugin \<Rightarrow> PluginRelation list \<Rightarrow> Detail" where
  "plainDetail p rels = \<lparr>d_Plugin = p, d_Relations = rels, d_Issues = [], d_Review = None, d_DraftRevision = '''',
     d_DraftChangelog = None, d_PublishedVersion = None\<rparr>"

definition currentDetail :: "Service \<Rightarrow> Caller \<Rightarrow> string \<Rightarrow> bool \<Rightarrow> Detail run" where
  "currentDetail sv caller pluginID includeRelations =
     bindW (validateCaller caller) (\<lambda>_.
     bindW (parseStorageID pluginID) (\<lambda>_.
     bindW (mapErrorW mapStoreError (getWithRelations sv (scope caller) pluginID)) (\<lambda>(p, rels).
     bindW (if p_OwnerUID p = c_UID caller
            then mapErrorW mapStoreError (readW sv (\<lambda>s. Inr (LatestReviewForPlugin s (scope caller) (p_ID p)))) else returnW None) (\<lambda>review.
     returnW ((plainDetail p (if includeRelations then rels else []))\<lparr>d_Review := review\<rparr>)))))"

primrec checkHistoricalRelations :: "Service \<Rightarrow> Scope \<Rightarrow> PluginRelation list \<Rightarrow> unit run" where
  "checkHistoricalRelations sv sc [] = returnW ()"
| "checkHistoricalRelations sv sc (e # es) =
     bindW (tryW (getWithRelations sv sc (r_TargetPluginID e))) (\<lambda>x.
     case x of
       Inl err \<Rightarrow> failW (if err = ERepo ErrNotFound then EDependencyHidden else mapStoreError err)
     | Inr _ \<Rightarrow> checkHistoricalRelations sv sc es)"

text \<open>The name and the labels a manifest declares, \<open>None\<close> when it does not decode.\<close>

definition releasedManifest :: "raw \<Rightarrow> (string \<times> json option) option" where
  "releasedManifest manifest =
     (case manifest of
        Some JNull \<Rightarrow> Some ('''', None)
      | Some (JObj kvs) \<Rightarrow>
          (case (strictString (structField ''name'' (JObj kvs)), strictString (structField ''plugin_name'' (JObj kvs))) of
             (Some _, Some name) \<Rightarrow> Some (name, structField ''labels'' (JObj kvs))
           | _ \<Rightarrow> None)
      | _ \<Rightarrow> None)"

definition releasedTags :: "json option \<Rightarrow> raw" where
  "releasedTags labels = (case labels of Some (JArr xs) \<Rightarrow> Some (JArr xs) | _ \<Rightarrow> Some (JArr []))"

definition overlaySnapshot :: "Plugin \<Rightarrow> PluginVersion \<Rightarrow> PluginError + Plugin" where
  "overlaySnapshot p v =
     (case releasedManifest (v_Manifest v) of
        None \<Rightarrow> Inl EIntegrity
      | Some (name, labels) \<Rightarrow> Inr (p\<lparr>p_Manifest := v_Manifest v, p_Package := v_Package v, p_AttachmentKeys := v_AttachmentKeys v,
          p_ManifestHash := v_ManifestHash v, p_PluginHash := v_PluginHash v, p_CurrentVersionID := Some (v_ID v),
          p_CurrentVersion := v_DeclaredVersion v, p_Name := (if name \<noteq> '''' then name else p_Name p), p_Tags := releasedTags labels\<rparr>))"

definition publishedDetailAt :: "Service \<Rightarrow> Scope \<Rightarrow> Detail \<Rightarrow> string \<Rightarrow> bool \<Rightarrow> Detail run" where
  "publishedDetailAt sv sc d versionID allowUnavailable =
     (if \<not> sv_VersionManagement sv \<or> p_Type (d_Plugin d) = PluginTypeConnector then returnW d
      else
        bindW (versionStore sv) (\<lambda>_.
        bindW (mapErrorW mapStoreError (readW sv (\<lambda>s. GetManagedVersion s sc (p_ID (d_Plugin d)) versionID))) (\<lambda>mv.
        bindW (guardW (mv_Release mv = None) EIntegrity) (\<lambda>_.
        let frozen = v_Relations (mv_Version mv) in
        bindW (if allowUnavailable then returnW () else checkHistoricalRelations sv sc frozen) (\<lambda>_.
        bindW (liftW (overlaySnapshot (d_Plugin d) (mv_Version mv))) (\<lambda>copy.
        returnW (d\<lparr>d_Plugin := copy, d_Relations := frozen\<rparr>)))))))"

definition publishedDetail :: "Service \<Rightarrow> Scope \<Rightarrow> Detail \<Rightarrow> bool \<Rightarrow> Detail run" where
  "publishedDetail sv sc d allowUnavailable =
     (if \<not> sv_VersionManagement sv \<or> p_Type (d_Plugin d) = PluginTypeConnector then returnW d
      else
        bindW (versionStore sv) (\<lambda>_.
        bindW (mapErrorW mapStoreError (readW sv (\<lambda>s. GetVersionState s sc (p_ID (d_Plugin d))))) (\<lambda>st.
        case vs_PublishedVersionID st of
          None \<Rightarrow> returnW d
        | Some vid \<Rightarrow> publishedDetailAt sv sc d vid allowUnavailable)))"

definition dependencyIssues :: "Service \<Rightarrow> Scope \<Rightarrow> Plugin \<Rightarrow> DependencyIssue list run" where
  "dependencyIssues sv sc p =
     bindW (storeW sv) (\<lambda>s0. bindW (storeW sv) (\<lambda>s1. bindW (storeW sv) (\<lambda>s2. bindW (storeW sv) (\<lambda>s3.
     bindW (liftW (map_sum ERepo id (DependencyIssues s0 s1 s2 s3 sc [p]))) (\<lambda>issues.
     returnW (case map_of issues (p_ID p) of None \<Rightarrow> [] | Some xs \<Rightarrow> xs))))))"

text \<open>What a reader sees of a plugin: the owner its released content with the issues of its dependencies, without the
  relations when one of the targets is hidden; others only a plugin whose dependencies are available.\<close>

definition detailIssues :: "Service \<Rightarrow> Caller \<Rightarrow> Detail \<Rightarrow> DependencyIssue list run" where
  "detailIssues sv caller base =
     (if ownDraft (scope caller) (d_Plugin base) then mapErrorW mapStoreError (dependencyIssues sv (scope caller) (d_Plugin base))
      else
        bindW (mapErrorW mapStoreError (readW sv (\<lambda>s. Inr (HasUnavailableDependencies s (scope caller) (p_ID (d_Plugin base)))))) (\<lambda>blocked.
        bindW (guardW blocked ENotFound) (\<lambda>_. returnW [])))"

definition shownDetail :: "Service \<Rightarrow> Caller \<Rightarrow> Detail \<Rightarrow> Detail run" where
  "shownDetail sv caller base =
     bindW (tryW (publishedDetail sv (scope caller) base False)) (\<lambda>shown.
     case shown of
       Inr d \<Rightarrow> returnW d
     | Inl e \<Rightarrow>
         if \<not> ownDraft (scope caller) (d_Plugin base) \<or> e \<noteq> EDependencyHidden then failW e
         else bindW (publishedDetail sv (scope caller) base True) (\<lambda>d. returnW (d\<lparr>d_Relations := []\<rparr>)))"

definition ServiceDetail :: "Service \<Rightarrow> Caller \<Rightarrow> string \<Rightarrow> bool \<Rightarrow> Detail run" where
  "ServiceDetail sv caller pluginID includeRelations =
     bindW (currentDetail sv caller pluginID True) (\<lambda>base.
     bindW (detailIssues sv caller base) (\<lambda>issues.
     bindW (shownDetail sv caller base) (\<lambda>d.
     returnW (d\<lparr>d_Issues := (if ownDraft (scope caller) (d_Plugin base) then issues else d_Issues d),
       d_Relations := (if includeRelations then d_Relations d else [])\<rparr>))))"

text \<open>The editing read of the owner: the draft with its complete saved topology, beside the released label.\<close>

definition CurrentDetail :: "Service \<Rightarrow> Caller \<Rightarrow> string \<Rightarrow> Detail run" where
  "CurrentDetail sv caller pluginID =
     bindW (versionStore sv) (\<lambda>_.
     bindW (currentDetail sv caller pluginID True) (\<lambda>d.
     let p = d_Plugin d; sc = scope caller in
     bindW (guardW (\<not> ownDraft sc p \<or> p_IsEmbedded p) ENotFound) (\<lambda>_.
     bindW (case p_CurrentVersionID p of
              None \<Rightarrow> returnW ('''', d_Relations d)
            | Some vid \<Rightarrow>
                bindW (mapErrorW mapStoreError (readW sv (\<lambda>s. GetManagedVersion s sc (p_ID p) vid))) (\<lambda>mv.
                returnW (case (mv_Release mv, v_Changelog (mv_Version mv)) of (None, Some note) \<Rightarrow> note | _ \<Rightarrow> '''',
                  v_Relations (mv_Version mv)))) (\<lambda>(note, rels).
     bindW (mapErrorW mapStoreError (readW sv (\<lambda>s. GetVersionState s sc (p_ID p)))) (\<lambda>st.
     bindW (case vs_PublishedVersionID st of
              None \<Rightarrow> returnW None
            | Some vid \<Rightarrow>
                bindW (mapErrorW mapStoreError (readW sv (\<lambda>s. GetManagedVersion s sc (p_ID p) vid))) (\<lambda>mv.
                returnW (map_option rel_VersionLabel (mv_Release mv)))) (\<lambda>label.
     returnW (d\<lparr>d_Plugin := p\<lparr>p_PublishedVersionID := vs_PublishedVersionID st\<rparr>, d_Relations := rels, d_DraftChangelog := Some note,
       d_DraftRevision := PluginDraftRevision (sv_Repo sv) p, d_PublishedVersion := label\<rparr>)))))))"

definition AdminDetail :: "Service \<Rightarrow> Caller \<Rightarrow> string \<Rightarrow> bool \<Rightarrow> Detail run" where
  "AdminDetail sv caller pluginID includeRelations =
     bindW (parseStorageID pluginID) (\<lambda>_.
     bindW (mapErrorW mapStoreError (getWithRelations sv (adminScope caller) pluginID)) (\<lambda>(p, rels).
     bindW (mapErrorW mapStoreError (dependencyIssues sv (adminScope caller) p)) (\<lambda>issues.
     returnW ((plainDetail p (if includeRelations then rels else []))\<lparr>d_Issues := issues\<rparr>))))"

section \<open>Versions and their files\<close>

definition managedScope :: "Caller \<Rightarrow> bool \<Rightarrow> Scope run" where
  "managedScope caller admin =
     (if admin then bindW (guardW (\<not> c_IsSystemAdmin caller) ENotFound) (\<lambda>_. returnW (adminScope caller))
      else bindW (validateCaller caller) (\<lambda>_. returnW (scope caller)))"

definition ServiceManagedVersion :: "Service \<Rightarrow> Caller \<Rightarrow> string \<Rightarrow> string \<Rightarrow> bool \<Rightarrow> ManagedVersion run" where
  "ServiceManagedVersion sv caller pluginID versionID admin =
     bindW (versionStore sv) (\<lambda>_.
     bindW (managedScope caller admin) (\<lambda>sc.
     bindW (parseStorageID pluginID) (\<lambda>_.
     bindW (guardW (trimSpace versionID = '''') EInvalidRequest) (\<lambda>_.
     bindW (mapErrorW mapStoreError (getWithRelations sv sc pluginID)) (\<lambda>(p, _).
     bindW (guardW (p_Type p = PluginTypeConnector) ENotFound) (\<lambda>_.
     bindW (mapErrorW mapStoreError (readW sv (\<lambda>s. GetManagedVersion s sc pluginID versionID))) (\<lambda>mv.
     bindW (checkHistoricalRelations sv sc (v_Relations (mv_Version mv))) (\<lambda>_.
     returnW (mv\<lparr>mv_PluginType := Some (p_Type p)\<rparr>)))))))))"

definition validFilePath :: "string \<Rightarrow> bool" where
  "validFilePath filePath \<longleftrightarrow> filePath \<noteq> '''' \<and> pathClean filePath = filePath \<and> \<not> prefix ''/'' filePath \<and> filePath \<noteq> ''..'' \<and>
     \<not> prefix ''../'' filePath \<and> CHR 0x5C \<notin> set filePath \<and> CHR 0x00 \<notin> set filePath"

definition VersionFile :: "Service \<Rightarrow> Caller \<Rightarrow> string \<Rightarrow> string \<Rightarrow> string \<Rightarrow> bool \<Rightarrow> string run" where
  "VersionFile sv caller pluginID versionID filePath admin =
     bindW (ServiceManagedVersion sv caller pluginID versionID admin) (\<lambda>mv.
     bindW (guardW (\<not> validFilePath filePath) EInvalidRequest) (\<lambda>_.
     bindW (mapErrorW mapStoreError
       (getWithRelations sv (if admin then adminScope caller else scope caller) (v_PluginID (mv_Version mv)))) (\<lambda>(p, _).
     bindW (guardW (filePath = ''skill/ref.json'') ENotFound) (\<lambda>_.
     liftW (versionFileBytes (sv_Repo sv) (sv_Files sv) p (v_Package (mv_Version mv)) (v_AttachmentKeys (mv_Version mv)) filePath)))))"

definition listedIn :: "Service \<Rightarrow> Scope \<Rightarrow> string \<Rightarrow> int \<Rightarrow> int \<Rightarrow> (ManagedVersion list \<times> nat) run" where
  "listedIn sv sc pluginID limit offset =
     mapErrorW mapStoreError (bindW (storeW sv) (\<lambda>s0. bindW (storeW sv) (\<lambda>s1. bindW (storeW sv) (\<lambda>s2.
       liftW (map_sum ERepo id (ListManagedVersions s0 s1 s2 sc pluginID limit offset))))))"

text \<open>The version list of a tenant. Without version management the rows have no release.\<close>

definition ServiceListVersions :: "Service \<Rightarrow> Caller \<Rightarrow> string \<Rightarrow> int \<Rightarrow> int \<Rightarrow> (ManagedVersion list \<times> nat) run" where
  "ServiceListVersions sv caller pluginID limit offset =
     bindW (validateCaller caller) (\<lambda>_.
     bindW (guardW (limit < 0 \<or> limit > 100 \<or> offset < 0) EInvalidRequest) (\<lambda>_.
     bindW (parseStorageID pluginID) (\<lambda>_.
     bindW (mapErrorW mapStoreError (getWithRelations sv (scope caller) pluginID)) (\<lambda>(p, _).
     if sv_VersionManagement sv
     then bindW (listedIn sv (scope caller) pluginID limit offset) (\<lambda>(items, n).
       returnW (map (\<lambda>mv. mv\<lparr>mv_PluginType := Some (p_Type p)\<rparr>) items, n))
     else bindW (mapErrorW mapStoreError (bindW (storeW sv) (\<lambda>s0. bindW (storeW sv) (\<lambda>s1. bindW (storeW sv) (\<lambda>s2. bindW (storeW sv) (\<lambda>s3.
         liftW (map_sum ERepo id (ListVersions s0 s1 s2 s3 (scope caller) pluginID limit offset)))))))) (\<lambda>(items, n).
       returnW (map (\<lambda>v. \<lparr>mv_Version = v, mv_Release = None, mv_IsCurrent = False, mv_IsPublished = False,
         mv_PluginType = Some (p_Type p)\<rparr>) items, n))))))"

definition HistoricalVersions :: "Service \<Rightarrow> Caller \<Rightarrow> string \<Rightarrow> int \<Rightarrow> int \<Rightarrow> bool \<Rightarrow> (ManagedVersion list \<times> nat) run" where
  "HistoricalVersions sv caller pluginID limit offset admin =
     (if \<not> admin then ServiceListVersions sv caller pluginID limit offset
      else
        bindW (versionStore sv) (\<lambda>_.
        bindW (guardW (\<not> c_IsSystemAdmin caller) ENotFound) (\<lambda>_.
        bindW (guardW (limit < 0 \<or> limit > 100 \<or> offset < 0) EInvalidRequest) (\<lambda>_.
        bindW (parseStorageID pluginID) (\<lambda>_. listedIn sv (adminScope caller) pluginID limit offset)))))"

definition publishedPlugin :: "Service \<Rightarrow> Scope \<Rightarrow> string \<Rightarrow> Plugin run" where
  "publishedPlugin sv sc i =
     bindW (getWithRelations sv sc i) (\<lambda>(p, rels).
     if s_Admin sc then returnW p
     else bindW (publishedDetail sv sc (plainDetail p rels) False) (\<lambda>d. returnW (d_Plugin d)))"

section \<open>Publication of verified files\<close>

definition operatorOf :: "Caller \<Rightarrow> Operator" where
  "operatorOf caller = \<lparr>o_OperatorID = c_UID caller, o_OperatorName = c_Name caller, o_RequestID = c_RequestID caller, o_Remark = None\<rparr>"

definition AdminPublishVersion :: "Service \<Rightarrow> Caller \<Rightarrow> string \<Rightarrow> Detail run" where
  "AdminPublishVersion sv caller pluginID =
     bindW (versionStore sv) (\<lambda>_.
     bindW (guardW (\<not> c_IsSystemAdmin caller) ENotFound) (\<lambda>_.
     bindW (AdminDetail sv caller pluginID True) (\<lambda>d.
     case p_CurrentVersionID (d_Plugin d) of
       None \<Rightarrow> failW EVersionBaselineUnavailable
     | Some vid \<Rightarrow>
         bindW (ServiceManagedVersion sv caller pluginID vid True) (\<lambda>mv.
         let v = mv_Version mv in
         bindW (liftW (verifyVersionFiles (sv_Repo sv) (sv_Files sv) (d_Plugin d) (v_Package v) (v_AttachmentKeys v))) (\<lambda>_.
         bindW (mapErrorW mapStoreError (commitW sv (PublishManaged (sv_Repo sv) (adminScope caller)
            \<lparr>pp_ExpectedDraftRevision = '''', pp_Version = '''', pp_ExpectedVersionID = v_ID v, pp_PluginID = p_ID (d_Plugin d),
             pp_Operator = operatorOf caller\<rparr>))) (\<lambda>p.
         returnW (plainDetail p (d_Relations d))))))))"

definition adoptPublishedBaseline :: "Service \<Rightarrow> Caller \<Rightarrow> Detail \<Rightarrow> Detail option run" where
  "adoptPublishedBaseline sv caller d =
     (let p = d_Plugin d; sc = scope caller in
      if \<not> sv_VersionManagement sv \<or> p_Type p = PluginTypeConnector then returnW None
      else case p_CurrentVersionID p of
        None \<Rightarrow> returnW None
      | Some vid \<Rightarrow>
          bindW (mapErrorW mapStoreError (readW sv (\<lambda>s. GetVersionState s sc (p_ID p)))) (\<lambda>st.
          if vs_PublishedVersionID st \<noteq> None then returnW None
          else
            bindW (mapErrorW mapStoreError (readW sv (\<lambda>s. GetManagedVersion s sc (p_ID p) vid))) (\<lambda>mv.
            let v = mv_Version mv in
            bindW (liftW (verifyVersionFiles (sv_Repo sv) (sv_Files sv) p (v_Package v) (v_AttachmentKeys v))) (\<lambda>_.
            bindW (mapErrorW mapStoreError (commitW sv (AdoptPublishedBaseline (sv_Repo sv) sc
              \<lparr>ap_PluginID = p_ID p, ap_ExpectedVersionID = v_ID v, ap_Operator = operatorOf caller\<rparr>))) (\<lambda>published.
            returnW (Some (plainDetail published (d_Relations d))))))))"

text \<open>The branch of \<open>Publish\<close> that lists a private plugin at once.\<close>

definition publishPrivate :: "Service \<Rightarrow> Caller \<Rightarrow> Detail \<Rightarrow> string \<Rightarrow> string \<Rightarrow> Detail run" where
  "publishPrivate sv caller d version expectedDraftRevision =
     (let p = d_Plugin d; sc = scope caller in
      if sv_VersionManagement sv \<and> p_Type p \<noteq> PluginTypeConnector then
        bindW (versionStore sv) (\<lambda>_.
        case p_CurrentVersionID p of
          None \<Rightarrow> failW EVersionBaselineUnavailable
        | Some vid \<Rightarrow>
            bindW (ServiceManagedVersion sv caller (p_ID p) vid False) (\<lambda>mv.
            let v = mv_Version mv in
            bindW (liftW (verifyVersionFiles (sv_Repo sv) (sv_Files sv) p (v_Package v) (v_AttachmentKeys v))) (\<lambda>_.
            bindW (mapErrorW mapStoreError (commitW sv (PublishManaged (sv_Repo sv) sc
               \<lparr>pp_ExpectedDraftRevision = expectedDraftRevision, pp_Version = version, pp_ExpectedVersionID = v_ID v, pp_PluginID = p_ID p,
                pp_Operator = operatorOf caller\<rparr>))) (\<lambda>q.
            returnW (plainDetail q (d_Relations d))))))
      else
        bindW (mapErrorW mapStoreError (commitW sv (PublishPlugin (sv_Repo sv) sc
           \<lparr>pp_ExpectedDraftRevision = expectedDraftRevision, pp_Version = '''', pp_ExpectedVersionID = '''', pp_PluginID = p_ID p,
            pp_Operator = operatorOf caller\<rparr>))) (\<lambda>q.
        returnW (plainDetail q (d_Relations d))))"

section \<open>The graph of pinned releases\<close>

definition publishedGraphDetail :: "Service \<Rightarrow> Caller \<Rightarrow> string \<Rightarrow> string option \<Rightarrow> Detail run" where
  "publishedGraphDetail sv caller pluginID versionID =
     bindW (currentDetail sv caller pluginID True) (\<lambda>d.
     case versionID of
       Some vid \<Rightarrow>
         if p_Type (d_Plugin d) \<noteq> PluginTypeConnector
         then bindW (guardW (\<not> sv_VersionManagement sv) EVersionBaselineUnavailable) (\<lambda>_. publishedDetailAt sv (scope caller) d vid False)
         else publishedDetail sv (scope caller) d False
     | None \<Rightarrow> publishedDetail sv (scope caller) d False)"

definition publishedGraphVersionKey :: "string \<Rightarrow> string option \<Rightarrow> string \<times> string" where
  "publishedGraphVersionKey i version = (i, case version of None \<Rightarrow> '''' | Some v \<Rightarrow> v)"

definition targetKeyOf :: "PluginRelation \<Rightarrow> string \<times> string" where
  "targetKeyOf e = publishedGraphVersionKey (r_TargetPluginID e) (r_TargetVersionID e)"

definition nodeKeyOf :: "Plugin \<Rightarrow> string \<times> string" where
  "nodeKeyOf p = publishedGraphVersionKey (p_ID p) (p_CurrentVersionID p)"

record GraphState =
  gs_Relations :: "PluginRelation list"
  gs_Related :: "Plugin list"
  gs_Seen :: "(string \<times> string) list"
  gs_Projected :: "(string \<times> string) list"
  gs_Omitted :: "(string \<times> string) list"
  gs_Queue :: "Detail list"

definition lightPlugin :: "Plugin \<Rightarrow> Plugin" where
  "lightPlugin p = p\<lparr>p_Package := None, p_AttachmentKeys := None\<rparr>"

definition visitRelation :: "Service \<Rightarrow> Caller \<Rightarrow> PluginRelation \<Rightarrow> GraphState \<Rightarrow> GraphState run" where
  "visitRelation sv caller e st =
     (let key = targetKeyOf e; st1 = st\<lparr>gs_Seen := key # gs_Seen st\<rparr> in
      if key \<in> set (gs_Seen st) then returnW st
      else if length (gs_Seen st1) > maxGraphEdges + 1 then failW EGraphTooLarge
      else
        bindW (tryW (publishedGraphDetail sv caller (r_TargetPluginID e) (r_TargetVersionID e))) (\<lambda>found.
        case found of
          Inl err \<Rightarrow> if err = ENotFound \<or> err = EDependencyHidden then returnW (st1\<lparr>gs_Omitted := key # gs_Omitted st\<rparr>) else failW err
        | Inr d \<Rightarrow>
            let selected = nodeKeyOf (d_Plugin d) in
            if selected \<in> set (gs_Projected st) then returnW st1
            else if maxGraphNodes \<le> length (gs_Related st) then failW EGraphTooLarge
            else returnW (st1\<lparr>gs_Projected := selected # gs_Projected st, gs_Related := gs_Related st @ [lightPlugin (d_Plugin d)],
              gs_Queue := gs_Queue st @ [d]\<rparr>)))"

primrec visitRelations :: "Service \<Rightarrow> Caller \<Rightarrow> PluginRelation list \<Rightarrow> GraphState \<Rightarrow> GraphState run" where
  "visitRelations sv caller [] st = returnW st"
| "visitRelations sv caller (e # es) st = bindW (visitRelation sv caller e st) (visitRelations sv caller es)"

lemma bindW_cong [fundef_cong]:
  assumes "m = m'" and "\<And>a w w1. m' w = (Inr a, w1) \<Longrightarrow> f a = f' a" shows "bindW m f = bindW m' f'"
proof
  fix w
  show "bindW m f w = bindW m' f' w" using assms by (cases "m' w"; cases "fst (m' w)") (auto simp: bindW_def)
qed

text \<open>The room left for nodes bounds the search: an appended node takes a place.\<close>

lemma visitRelation_run:
  assumes "visitRelation sv caller e st w = (Inr st', w')"
  obtains (seen) "targetKeyOf e \<in> set (gs_Seen st)" and "st' = st" and "w' = w"
  | (omitted) err where "targetKeyOf e \<notin> set (gs_Seen st)" and "length (gs_Seen st) \<le> maxGraphEdges"
      and "publishedGraphDetail sv caller (r_TargetPluginID e) (r_TargetVersionID e) w = (Inl err, w')"
      and "st' = st\<lparr>gs_Seen := targetKeyOf e # gs_Seen st, gs_Omitted := targetKeyOf e # gs_Omitted st\<rparr>"
  | (shared) d where "targetKeyOf e \<notin> set (gs_Seen st)" and "length (gs_Seen st) \<le> maxGraphEdges"
      and "publishedGraphDetail sv caller (r_TargetPluginID e) (r_TargetVersionID e) w = (Inr d, w')"
      and "nodeKeyOf (d_Plugin d) \<in> set (gs_Projected st)" and "st' = st\<lparr>gs_Seen := targetKeyOf e # gs_Seen st\<rparr>"
  | (fresh) d where "targetKeyOf e \<notin> set (gs_Seen st)" and "length (gs_Seen st) \<le> maxGraphEdges"
      and "publishedGraphDetail sv caller (r_TargetPluginID e) (r_TargetVersionID e) w = (Inr d, w')"
      and "nodeKeyOf (d_Plugin d) \<notin> set (gs_Projected st)" and "length (gs_Related st) < maxGraphNodes"
      and "st' = st\<lparr>gs_Seen := targetKeyOf e # gs_Seen st, gs_Projected := nodeKeyOf (d_Plugin d) # gs_Projected st,
        gs_Related := gs_Related st @ [lightPlugin (d_Plugin d)], gs_Queue := gs_Queue st @ [d]\<rparr>"
proof (cases "targetKeyOf e \<in> set (gs_Seen st)")
  case True
  with assms show thesis by (intro seen) (simp_all add: visitRelation_def Let_def run_Inr)
next
  case new: False
  obtain found w1 where found: "publishedGraphDetail sv caller (r_TargetPluginID e) (r_TargetVersionID e) w = (found, w1)" by fastforce
  have few: "length (gs_Seen st) \<le> maxGraphEdges" using assms new by (auto simp: visitRelation_def Let_def run_Inr split: if_splits)
  show thesis
  proof (cases found)
    case (Inl err)
    with assms new few found show thesis
      by (intro omitted) (auto simp: visitRelation_def Let_def bindW_def tryW_def run_Inr split: if_splits)
  next
    case (Inr d)
    show thesis
    proof (cases "nodeKeyOf (d_Plugin d) \<in> set (gs_Projected st)")
      case True
      with assms new few found Inr show thesis by (intro shared) (auto simp: visitRelation_def Let_def bindW_def tryW_def run_Inr)
    next
      case False
      with assms new few found Inr show thesis
        by (intro fresh) (auto simp: visitRelation_def Let_def bindW_def tryW_def run_Inr split: if_splits)
    qed
  qed
qed

lemma visitRelation_room:
  assumes "visitRelation sv caller e st w = (Inr st', w')"
  shows "length (gs_Queue st') + (maxGraphNodes - length (gs_Related st')) \<le> length (gs_Queue st) + (maxGraphNodes - length (gs_Related st))"
  using assms by (cases rule: visitRelation_run) auto

lemma visitRelations_room:
  "visitRelations sv caller es st w = (Inr st', w') \<Longrightarrow>
     length (gs_Queue st') + (maxGraphNodes - length (gs_Related st')) \<le> length (gs_Queue st) + (maxGraphNodes - length (gs_Related st))"
proof (induction es arbitrary: st w)
  case (Cons e es)
  then obtain st1 w1 where "visitRelation sv caller e st w = (Inr st1, w1)" "visitRelations sv caller es st1 w1 = (Inr st', w')"
    by (auto simp: bindW_Inr)
  with visitRelation_room Cons.IH show ?case by fastforce
qed (simp add: run_Inr)

function graphLoop :: "Service \<Rightarrow> Caller \<Rightarrow> GraphState \<Rightarrow> GraphState run" where
  "graphLoop sv caller st =
     (case gs_Queue st of
        [] \<Rightarrow> returnW st
      | d # queue \<Rightarrow>
          if length (gs_Relations st) + length (d_Relations d) > maxGraphEdges then failW EGraphTooLarge
          else bindW (visitRelations sv caller (d_Relations d) (st\<lparr>gs_Queue := queue, gs_Relations := gs_Relations st @ d_Relations d\<rparr>))
            (graphLoop sv caller))"
  by pat_completeness auto
termination
proof (relation "measure (\<lambda>(sv, caller, st). length (gs_Queue st) + (maxGraphNodes - length (gs_Related st)))")
  fix sv caller st d queue st' w w'
  assume "gs_Queue st = d # queue"
    and "visitRelations sv caller (d_Relations d) (st\<lparr>gs_Queue := queue, gs_Relations := gs_Relations st @ d_Relations d\<rparr>) w = (Inr st', w')"
  with visitRelations_room show "((sv, caller, st'), (sv, caller, st)) \<in>
     measure (\<lambda>(sv, caller, st). length (gs_Queue st) + (maxGraphNodes - length (gs_Related st)))" by fastforce
qed simp

declare graphLoop.simps [simp del]

record DetailGraph =
  dg_Plugin :: Plugin
  dg_Relations :: "PluginRelation list"
  dg_Related :: "Plugin list"
  dg_Issues :: "DependencyIssue list"

definition publishedGraph :: "Service \<Rightarrow> Caller \<Rightarrow> string \<Rightarrow> DetailGraph run" where
  "publishedGraph sv caller i =
     bindW (ServiceDetail sv caller i True) (\<lambda>root.
     if d_Issues root \<noteq> []
     then returnW \<lparr>dg_Plugin = d_Plugin root, dg_Relations = d_Relations root, dg_Related = [], dg_Issues = d_Issues root\<rparr>
     else
       let rootKey = publishedGraphVersionKey i (p_CurrentVersionID (d_Plugin root)) in
       bindW (graphLoop sv caller \<lparr>gs_Relations = [], gs_Related = [], gs_Seen = [rootKey], gs_Projected = [rootKey], gs_Omitted = [],
         gs_Queue = [root]\<rparr>) (\<lambda>st.
       returnW \<lparr>dg_Plugin = d_Plugin root, dg_Relations = filter (\<lambda>e. targetKeyOf e \<notin> set (gs_Omitted st)) (gs_Relations st),
         dg_Related = gs_Related st, dg_Issues = []\<rparr>))"

definition ServiceDetailGraph :: "Service \<Rightarrow> Caller \<Rightarrow> string \<Rightarrow> DetailGraph run" where
  "ServiceDetailGraph sv caller pluginID =
     (if sv_VersionManagement sv then bindW (parseStorageID pluginID) (\<lambda>_. publishedGraph sv caller pluginID)
      else
        bindW (validateCaller caller) (\<lambda>_.
        bindW (parseStorageID pluginID) (\<lambda>_.
        bindW (ServiceDetail sv caller pluginID True) (\<lambda>d.
        if d_Issues d \<noteq> []
        then returnW \<lparr>dg_Plugin = d_Plugin d, dg_Relations = d_Relations d, dg_Related = [], dg_Issues = d_Issues d\<rparr>
        else
          bindW (storeW sv) (\<lambda>s0. bindW (storeW sv) (\<lambda>s1. bindW (storeW sv) (\<lambda>s2. bindW (storeW sv) (\<lambda>s3.
          bindW (mapErrorW mapStoreError (liftW (map_sum ERepo id (GetGraphClosure s0 s1 s2 s3 (scope caller) pluginID)))) (\<lambda>(root, rels, nodes).
          returnW \<lparr>dg_Plugin = root, dg_Relations = rels, dg_Related = nodes, dg_Issues = []\<rparr>)))))))))"

section \<open>Audiences and references\<close>

definition ServiceChangeVisibility ::
  "Service \<Rightarrow> Caller \<Rightarrow> string \<Rightarrow> string \<Rightarrow> string \<Rightarrow> PluginVisibility \<Rightarrow> VisibilityResult run" where
  "ServiceChangeVisibility sv caller i expectedVersion expectedPlan visibility =
     bindW (validateCaller caller) (\<lambda>_.
     bindW (versionStore sv) (\<lambda>_.
     bindW (parseStorageID i) (\<lambda>_.
     bindW (guardW (trimSpace expectedVersion = '''' \<and> expectedPlan = '''') (EReviewField ''expected_published_version_id'' ''required'')) (\<lambda>_.
     bindW (guardW (visibility \<noteq> PluginVisibilityPrivate \<and> visibility \<noteq> PluginVisibilitySpace) (EReviewField ''visibility'' ''invalid'')) (\<lambda>_.
     bindW (currentDetail sv caller i True) (\<lambda>d.
     let p = d_Plugin d; sc = scope caller in
     bindW (guardW (\<not> ownDraft sc p \<or> p_IsEmbedded p) ENotFound) (\<lambda>_.
     bindW (if visibility = PluginVisibilitySpace \<and> p_Visibility p \<noteq> visibility \<and> p_Type p \<noteq> PluginTypeConnector then
              bindW (if expectedVersion \<noteq> '''' then returnW expectedVersion
                     else bindW (mapErrorW mapStoreError (readW sv (\<lambda>s. GetVersionState s sc i))) (\<lambda>st.
                       case vs_PublishedVersionID st of None \<Rightarrow> failW EVersionBaselineUnavailable | Some vid \<Rightarrow> returnW vid)) (\<lambda>versionID.
              bindW (ServiceManagedVersion sv caller i versionID False) (\<lambda>mv.
              bindW (guardW (mv_Release mv = None) EVersionBaselineUnavailable) (\<lambda>_.
              bindW (liftW (verifyVersionFiles (sv_Repo sv) (sv_Files sv) p (v_Package (mv_Version mv)) (v_AttachmentKeys (mv_Version mv))))
                (\<lambda>_. returnW ()))))
            else returnW ()) (\<lambda>_.
     bindW (mapErrorW mapStoreError (commitW sv (ChangeVisibility (sv_Repo sv) sc
        \<lparr>vq_PluginID = i, vq_ExpectedPublishedVersionID = expectedVersion, vq_ExpectedPlanRevision = expectedPlan,
         vq_Visibility = visibility, vq_Operator = operatorOf caller\<rparr>))) (\<lambda>out.
     bindW (if vo_Pending out \<and> vo_ReviewCreated out then
              bindW (tryW (readW sv (\<lambda>s. LoadReviewSnapshot s sc (vo_ReviewID out) False))) (\<lambda>review.
              case review of Inl _ \<Rightarrow> returnW () | Inr rr \<Rightarrow> tellW [DispatchReviewCard (rr_ID rr)])
            else returnW ()) (\<lambda>_.
     returnW out))))))))))"

definition ServiceVisibilityPlan :: "Service \<Rightarrow> Caller \<Rightarrow> string \<Rightarrow> PluginVisibility \<Rightarrow> VisibilityPlan run" where
  "ServiceVisibilityPlan sv caller i target =
     bindW (validateCaller caller) (\<lambda>_.
     bindW (parseStorageID i) (\<lambda>_.
     mapErrorW mapStoreError (readW sv (\<lambda>s. VisibilityPlan (sv_Repo sv) s (scope caller) i target))))"

text \<open>The reference mode of the service is that of the repository.\<close>

definition ServiceReferenceDependents ::
  "Service \<Rightarrow> Caller \<Rightarrow> string \<Rightarrow> string \<Rightarrow> int \<Rightarrow> int \<Rightarrow> bool \<Rightarrow> (ReferenceDependent list \<times> nat) run" where
  "ServiceReferenceDependents sv caller pluginID versionID limit offset admin =
     bindW (guardW (\<not> references (sv_Repo sv)) ENotFound) (\<lambda>_.
     bindW (parseStorageID pluginID) (\<lambda>_.
     mapErrorW (\<lambda>e. if e = ERepo ErrReferenceIndexIncomplete then EReferenceIndexIncomplete else mapStoreError e)
       (bindW (storeW sv) (\<lambda>s0. bindW (storeW sv) (\<lambda>s1. bindW (storeW sv) (\<lambda>s2. bindW (storeW sv) (\<lambda>s3.
        liftW (map_sum ERepo id (ReferenceDependents (sv_Repo sv) s0 s1 s2 s3
          (if admin then adminScope caller else scope caller) pluginID versionID limit offset)))))))))"

definition ServiceReferenceCandidates ::
  "Service \<Rightarrow> Caller \<Rightarrow> string \<Rightarrow> string \<Rightarrow> int \<Rightarrow> int \<Rightarrow> (ReferenceCandidate list \<times> nat) run" where
  "ServiceReferenceCandidates sv caller pluginID relationType limit offset =
     bindW (guardW (\<not> references (sv_Repo sv)) ENotFound) (\<lambda>_.
     bindW (parseStorageID pluginID) (\<lambda>_.
     mapErrorW mapStoreError
       (bindW (storeW sv) (\<lambda>s0. bindW (storeW sv) (\<lambda>s1. bindW (storeW sv) (\<lambda>s2. bindW (storeW sv) (\<lambda>s3. bindW (storeW sv) (\<lambda>s4.
        liftW (map_sum ERepo id (ReferenceCandidates (sv_Repo sv) s0 s1 s2 s3 s4 (scope caller) pluginID relationType limit offset))))))))))"

section \<open>Reads move no further than others do\<close>

lemma storeW_moves: "peers sv \<Longrightarrow> runs (moves (sv_Repo sv)) (storeW sv)"
  unfolding storeW_def by (rule readW_moves)

lemma getWithRelations_moves: "peers sv \<Longrightarrow> runs (moves (sv_Repo sv)) (getWithRelations sv sc i)"
  unfolding getWithRelations_def by (intro storeRun.runs_rules readW_moves)

lemma currentDetail_moves: "peers sv \<Longrightarrow> runs (moves (sv_Repo sv)) (currentDetail sv caller i b)"
  unfolding currentDetail_def validateCaller_def parseStorageID_def
  by (intro storeRun.runs_rules readW_moves getWithRelations_moves)

lemma checkHistorical_moves: "peers sv \<Longrightarrow> runs (moves (sv_Repo sv)) (checkHistoricalRelations sv sc es)"
  by (induction es) (auto intro!: storeRun.runs_rules getWithRelations_moves)

lemma publishedDetailAt_moves: "peers sv \<Longrightarrow> runs (moves (sv_Repo sv)) (publishedDetailAt sv sc d vid b)"
  unfolding publishedDetailAt_def versionStore_def Let_def by (intro storeRun.runs_rules readW_moves checkHistorical_moves)

lemma publishedDetail_moves: "peers sv \<Longrightarrow> runs (moves (sv_Repo sv)) (publishedDetail sv sc d b)"
  unfolding publishedDetail_def versionStore_def by (intro storeRun.runs_rules readW_moves publishedDetailAt_moves)

lemma publishedGraphDetail_moves: "peers sv \<Longrightarrow> runs (moves (sv_Repo sv)) (publishedGraphDetail sv caller i v)"
  unfolding publishedGraphDetail_def
  by (intro storeRun.runs_rules currentDetail_moves publishedDetail_moves publishedDetailAt_moves)

lemma detailIssues_moves: "peers sv \<Longrightarrow> runs (moves (sv_Repo sv)) (detailIssues sv caller base)"
  unfolding detailIssues_def dependencyIssues_def by (intro storeRun.runs_rules readW_moves storeW_moves)

lemma shownDetail_moves: "peers sv \<Longrightarrow> runs (moves (sv_Repo sv)) (shownDetail sv caller base)"
  unfolding shownDetail_def by (intro storeRun.runs_rules publishedDetail_moves)

lemma ServiceDetail_moves: "peers sv \<Longrightarrow> runs (moves (sv_Repo sv)) (ServiceDetail sv caller i b)"
  unfolding ServiceDetail_def by (intro storeRun.runs_rules currentDetail_moves detailIssues_moves shownDetail_moves)

section \<open>What a reader is shown\<close>

text \<open>A row that some store of the run holds for a plugin.\<close>

definition rowIn :: "Repo \<Rightarrow> Store \<Rightarrow> Plugin \<Rightarrow> bool" where
  "rowIn r s0 p \<longleftrightarrow> (\<exists>s. (commit r)\<^sup>*\<^sup>* s0 s \<and> p \<in> set (plugins s))"

text \<open>The content of a node is that of a released version, unless the plugin is a connector or had no release yet.\<close>

definition shownAs :: "Repo \<Rightarrow> Store \<Rightarrow> Store \<Rightarrow> Plugin \<Rightarrow> bool" where
  "shownAs r s0 t n \<longleftrightarrow> p_Type n = PluginTypeConnector \<or> (\<exists>p. rowIn r s0 p \<and> p_ID p = p_ID n \<and> p_PublishedVersionID p = None) \<or>
     (\<exists>v \<in> set (versions t). v_PluginID v = p_ID n \<and> p_CurrentVersionID n = Some (v_ID v) \<and> p_Manifest n = v_Manifest v \<and>
        p_ManifestHash n = v_ManifestHash v \<and> p_PluginHash n = v_PluginHash v \<and>
        (\<exists>rel \<in> set (releases t). rel_PluginID rel = p_ID n \<and> rel_VersionID rel = v_ID v))"

text \<open>The node an edge leads to: the pinned version, unless the target was a connector.\<close>

definition leadsTo :: "Repo \<Rightarrow> Store \<Rightarrow> string \<times> string \<Rightarrow> Plugin \<Rightarrow> bool" where
  "leadsTo r s0 k n \<longleftrightarrow> p_ID n = fst k \<and> (snd k = '''' \<or> p_CurrentVersionID n = Some (snd k) \<or>
     (\<exists>p. rowIn r s0 p \<and> p_ID p = fst k \<and> p_Type p = PluginTypeConnector))"

lemma shownAs_later: "shownAs r s0 t n \<Longrightarrow> appendOnly t t' \<Longrightarrow> shownAs r s0 t' n"
  unfolding shownAs_def appendOnly_def by (meson set_mono_prefix subsetD)

lemma shown_light [simp]:
  "shownAs r s0 t (lightPlugin n) = shownAs r s0 t n" "leadsTo r s0 k (lightPlugin n) = leadsTo r s0 k n" "nodeKeyOf (lightPlugin n) = nodeKeyOf n"
  "p_Package (lightPlugin n) = None"
  by (simp_all add: shownAs_def leadsTo_def nodeKeyOf_def lightPlugin_def)

lemma getWithRelations_row:
  assumes "getWithRelations sv sc i w = (Inr (p, rels), w')" and "peers sv" and "moves (sv_Repo sv) w0 w"
  obtains q where "rowIn (sv_Repo sv) (w_Store w0) q" and "p_ID q = i" and "p = scanPluginRow True None q"
proof -
  from assms(1) have got: "Get (w_Store (arrive sv w)) sc i = Inr p" by (auto simp: getWithRelations_def runsInr)
  then obtain q where "q \<in> set (plugins (w_Store (arrive sv w)))" "p_ID q = i" "p = scanPluginRow True None q"
    by (auto simp: Get_def split: option.splits dest!: find_Some_mem)
  moreover have "(commit (sv_Repo sv))\<^sup>*\<^sup>* (w_Store w0) (w_Store (arrive sv w))"
    using assms(2,3) by (auto simp: moves_def peers_def arrive_def intro: rtranclp_trans)
  ultimately show thesis using that by (auto simp: rowIn_def)
qed

lemma currentDetail_row:
  assumes "currentDetail sv caller i b w = (Inr d, w')" and "peers sv" and "moves (sv_Repo sv) w0 w"
  obtains q where "rowIn (sv_Repo sv) (w_Store w0) q" and "p_ID q = i" and "d_Plugin d = scanPluginRow True None q" and "d_Issues d = []"
proof -
  from assms(1) obtain p rels w1 review where "getWithRelations sv (scope caller) i w = (Inr (p, rels), w1)"
    and "d_Plugin d = p" "d_Issues d = []"
    unfolding currentDetail_def validateCaller_def parseStorageID_def by (auto simp: bindW_Inr run_Inr plainDetail_def split: prod.splits)
  with getWithRelations_row [OF _ assms(2,3)] that show thesis by metis
qed

lemma versionJoin_mem:
  "(p, v) \<in> set (versionJoin s cond) \<Longrightarrow> v \<in> set (versions s) \<and> p \<in> set (plugins s) \<and> p_ID p = v_PluginID v \<and> cond p v"
  by (auto simp: versionJoin_def)

lemma GetManagedVersion_rows:
  assumes "GetManagedVersion s sc pid vid = Inr mv"
  shows "mv_Version mv \<in> set (versions s) \<and> v_PluginID (mv_Version mv) = pid \<and> v_ID (mv_Version mv) = vid \<and>
    mv_Release mv = releaseOf s pid (Some vid)"
proof -
  let ?rows = "versionJoin s (\<lambda>p v. v_PluginID v = pid \<and> v_ID v = vid \<and> p_Type p \<noteq> PluginTypeConnector \<and> versionAccess s sc p vid)"
  from assms obtain p v rest where "?rows = (p, v) # rest" and mv: "mv = scanManagedVersion s (p, v)"
    by (auto simp: GetManagedVersion_def split: list.splits)
  then have "(p, v) \<in> set ?rows" by simp
  from versionJoin_mem [OF this] mv show ?thesis by (simp add: scanManagedVersion_def)
qed

lemma overlay_cols:
  assumes "overlaySnapshot p v = Inr q"
  shows "p_ID q = p_ID p" "p_Type q = p_Type p" "p_CurrentVersionID q = Some (v_ID v)" "p_Manifest q = v_Manifest v"
    "p_ManifestHash q = v_ManifestHash v" "p_PluginHash q = v_PluginHash v"
  using assms by (auto simp: overlaySnapshot_def split: option.splits)

lemma publishedDetailAt_shown:
  assumes run: "publishedDetailAt sv sc d vid b w = (Inr d', w')" and env: "peers sv" "reach (sv_Repo sv) (w_Store w)"
    and managed: "sv_VersionManagement sv" "p_Type (d_Plugin d) \<noteq> PluginTypeConnector"
  shows "p_ID (d_Plugin d') = p_ID (d_Plugin d) \<and> p_CurrentVersionID (d_Plugin d') = Some vid \<and> d_Issues d' = d_Issues d \<and>
    shownAs (sv_Repo sv) s0 (w_Store w') (d_Plugin d')"
proof -
  let ?w1 = "arrive sv w"
  let ?check = "\<lambda>mv. if b then returnW () else checkHistoricalRelations sv sc (v_Relations (mv_Version mv))"
  from run managed obtain mv where mv: "GetManagedVersion (w_Store ?w1) sc (p_ID (d_Plugin d)) vid = Inr mv"
    and rel: "mv_Release mv \<noteq> None" and check: "?check mv ?w1 = (Inr (), w')"
    and over: "overlaySnapshot (d_Plugin d) (mv_Version mv) = Inr (d_Plugin d')" and iss: "d_Issues d' = d_Issues d"
    unfolding publishedDetailAt_def versionStore_def Let_def by (auto simp: bindW_Inr run_Inr readW_Inr simp del: if_split)
  note rows = GetManagedVersion_rows [OF mv]
  from rel rows obtain x where x: "x \<in> set (releases (w_Store ?w1))" "rel_PluginID x = p_ID (d_Plugin d)" "rel_VersionID x = vid"
    by (auto simp: releaseOf_def dest!: find_Some_mem)
  have "runs (moves (sv_Repo sv)) (?check mv)" by (intro storeRun.runs_rules checkHistorical_moves env)
  from runsD [OF this check] have "appendOnly (w_Store ?w1) (w_Store w')"
    using commits_keep [OF arrive_reach [OF env]] by (simp add: moves_def)
  then have "mv_Version mv \<in> set (versions (w_Store w'))" "x \<in> set (releases (w_Store w'))"
    using rows x(1) by (auto simp: appendOnly_def dest: set_mono_prefix)
  with x(2,3) rows overlay_cols [OF over] iss show ?thesis unfolding shownAs_def by metis
qed

lemma publishedDetail_shown:
  assumes run: "publishedDetail sv sc d b w = (Inr d', w')" and env: "peers sv" "reach (sv_Repo sv) (w_Store w)"
    and managed: "sv_VersionManagement sv" and w0: "moves (sv_Repo sv) w0 w"
  shows "p_ID (d_Plugin d') = p_ID (d_Plugin d) \<and> d_Issues d' = d_Issues d \<and> shownAs (sv_Repo sv) (w_Store w0) (w_Store w') (d_Plugin d')"
proof (cases "p_Type (d_Plugin d) = PluginTypeConnector")
  case True
  with run show ?thesis by (simp add: publishedDetail_def run_Inr shownAs_def)
next
  case False
  let ?w1 = "arrive sv w"
  from run managed False obtain st where st: "GetVersionState (w_Store ?w1) sc (p_ID (d_Plugin d)) = Inr st"
    and rest: "(case vs_PublishedVersionID st of None \<Rightarrow> returnW d | Some vid \<Rightarrow> publishedDetailAt sv sc d vid b) ?w1 = (Inr d', w')"
    unfolding publishedDetail_def versionStore_def by (auto simp: bindW_Inr run_Inr readW_Inr)
  show ?thesis
  proof (cases "vs_PublishedVersionID st")
    case None
    from st obtain p where p: "p \<in> set (plugins (w_Store ?w1))" "p_ID p = p_ID (d_Plugin d)" "p_PublishedVersionID p = vs_PublishedVersionID st"
      by (auto simp: GetVersionState_def split: option.splits dest!: find_Some_mem)
    have "(commit (sv_Repo sv))\<^sup>*\<^sup>* (w_Store w0) (w_Store ?w1)"
      using env(1) w0 by (auto simp: moves_def peers_def arrive_def intro: rtranclp_trans)
    with p None have "shownAs (sv_Repo sv) (w_Store w0) (w_Store w') (d_Plugin d)" by (auto simp: shownAs_def rowIn_def)
    with rest None show ?thesis by (simp add: run_Inr)
  next
    case (Some vid)
    with rest have "publishedDetailAt sv sc d vid b ?w1 = (Inr d', w')" by simp
    from publishedDetailAt_shown [OF this env(1) arrive_reach [OF env] managed False] show ?thesis by simp
  qed
qed

lemma publishedGraphDetail_shown:
  assumes run: "publishedGraphDetail sv caller i ver w = (Inr d', w')" and env: "peers sv" "reach (sv_Repo sv) (w_Store w0)"
    and managed: "sv_VersionManagement sv" and w0: "moves (sv_Repo sv) w0 w"
  shows "shownAs (sv_Repo sv) (w_Store w0) (w_Store w') (d_Plugin d') \<and>
    leadsTo (sv_Repo sv) (w_Store w0) (publishedGraphVersionKey i ver) (d_Plugin d')"
proof -
  from run obtain d w1 where cur: "currentDetail sv caller i True w = (Inr d, w1)"
    and rest: "(case ver of Some vid \<Rightarrow>
         if p_Type (d_Plugin d) \<noteq> PluginTypeConnector
         then bindW (guardW (\<not> sv_VersionManagement sv) EVersionBaselineUnavailable) (\<lambda>_. publishedDetailAt sv (scope caller) d vid False)
         else publishedDetail sv (scope caller) d False
     | None \<Rightarrow> publishedDetail sv (scope caller) d False) w1 = (Inr d', w')"
    unfolding publishedGraphDetail_def by (auto simp: bindW_Inr)
  from cur obtain q where q: "rowIn (sv_Repo sv) (w_Store w0) q" "p_ID q = i" "d_Plugin d = scanPluginRow True None q"
    by (rule currentDetail_row [OF _ env(1) w0])
  have step: "moves (sv_Repo sv) w0 w1" using runsD [OF currentDetail_moves [OF env(1)] cur] w0 by (rule storeRun.run_trans [rotated])
  then have reach: "reach (sv_Repo sv) (w_Store w1)" using env(2) by (auto simp: moves_def intro: reach_star)
  show ?thesis
  proof (cases "\<exists>vid. ver = Some vid \<and> p_Type (d_Plugin d) \<noteq> PluginTypeConnector")
    case True
    then obtain vid where "ver = Some vid" "p_Type (d_Plugin d) \<noteq> PluginTypeConnector" by blast
    with rest managed have "publishedDetailAt sv (scope caller) d vid False w1 = (Inr d', w')" by (simp add: bindW_Inr run_Inr)
    from publishedDetailAt_shown [OF this env(1) reach managed] \<open>ver = Some vid\<close> \<open>p_Type (d_Plugin d) \<noteq> PluginTypeConnector\<close> q
    show ?thesis by (simp add: leadsTo_def publishedGraphVersionKey_def)
  next
    case False
    with rest have "publishedDetail sv (scope caller) d False w1 = (Inr d', w')" by (auto split: option.splits if_splits)
    from publishedDetail_shown [OF this env(1) reach managed step] False q show ?thesis
      by (auto simp: leadsTo_def publishedGraphVersionKey_def split: option.splits)
  qed
qed

lemma shownDetail_shown:
  assumes run: "shownDetail sv caller base w = (Inr d', w')" and env: "peers sv" "reach (sv_Repo sv) (w_Store w0)"
    and managed: "sv_VersionManagement sv" and w0: "moves (sv_Repo sv) w0 w"
  shows "p_ID (d_Plugin d') = p_ID (d_Plugin base) \<and> shownAs (sv_Repo sv) (w_Store w0) (w_Store w') (d_Plugin d')"
proof -
  let ?sc = "scope caller"
  obtain shown w1 where shown: "publishedDetail sv ?sc base False w = (shown, w1)" by fastforce
  have w1: "moves (sv_Repo sv) w0 w1" using w0 runsD [OF publishedDetail_moves [OF env(1)] shown] by (rule storeRun.run_trans)
  have reach: "reach (sv_Repo sv) (w_Store w)" "reach (sv_Repo sv) (w_Store w1)"
    using w0 w1 env(2) by (auto simp: moves_def intro: reach_star)
  show ?thesis
  proof (cases shown)
    case (Inr d)
    with run shown have "publishedDetail sv ?sc base False w = (Inr d', w')" by (simp add: shownDetail_def bindW_def tryW_def run_Inr)
    from publishedDetail_shown [OF this env(1) reach(1) managed w0] show ?thesis by simp
  next
    case (Inl e)
    with run shown have "(if \<not> ownDraft ?sc (d_Plugin base) \<or> e \<noteq> EDependencyHidden then failW e
        else bindW (publishedDetail sv ?sc base True) (\<lambda>d. returnW (d\<lparr>d_Relations := []\<rparr>))) w1 = (Inr d', w')"
      by (simp add: shownDetail_def bindW_Inr [of "tryW _"] run_Inr(5))
    then obtain y where y: "publishedDetail sv ?sc base True w1 = (Inr y, w')" "d_Plugin d' = d_Plugin y"
      by (auto simp: bindW_Inr run_Inr split: if_splits)
    from publishedDetail_shown [OF y(1) env(1) reach(2) managed w1] y(2) show ?thesis by simp
  qed
qed

lemma ServiceDetail_shown:
  assumes run: "ServiceDetail sv caller i b w = (Inr d', w')" and env: "peers sv" "reach (sv_Repo sv) (w_Store w)"
    and managed: "sv_VersionManagement sv"
  shows "p_ID (d_Plugin d') = i \<and> shownAs (sv_Repo sv) (w_Store w) (w_Store w') (d_Plugin d')"
proof -
  from run obtain base w1 issues w2 d where cur: "currentDetail sv caller i True w = (Inr base, w1)"
    and iss: "detailIssues sv caller base w1 = (Inr issues, w2)" and sh: "shownDetail sv caller base w2 = (Inr d, w')"
    and d': "d_Plugin d' = d_Plugin d"
    unfolding ServiceDetail_def by (auto simp: bindW_Inr run_Inr)
  have id: "p_ID (d_Plugin base) = i" using cur by (rule currentDetail_row [OF _ env(1) storeRun.run_refl]) simp
  have "moves (sv_Repo sv) w w2"
    using runsD [OF currentDetail_moves [OF env(1)] cur] runsD [OF detailIssues_moves [OF env(1)] iss] by (rule storeRun.run_trans)
  from shownDetail_shown [OF sh env managed this] id d' show ?thesis by simp
qed

text \<open>What the search keeps.\<close>

definition graphInv :: "Repo \<Rightarrow> Store \<Rightarrow> Plugin \<Rightarrow> GraphState \<Rightarrow> Store \<Rightarrow> bool" where
  "graphInv r s0 root st t \<longleftrightarrow>
     (commit r)\<^sup>*\<^sup>* s0 t \<and> length (gs_Related st) \<le> maxGraphNodes \<and> distinct (gs_Projected st) \<and>
     gs_Projected st = rev (map nodeKeyOf (root # gs_Related st)) \<and> length (gs_Relations st) \<le> maxGraphEdges \<and>
     (\<forall>n \<in> set (root # gs_Related st). shownAs r s0 t n) \<and> (\<forall>n \<in> set (gs_Related st). p_Package n = None) \<and>
     (\<forall>k \<in> set (gs_Seen st). k \<in> set (gs_Omitted st) \<or> (\<exists>n \<in> set (root # gs_Related st). leadsTo r s0 k n))"

lemma leadsTo_shared: "leadsTo r s0 k d \<Longrightarrow> nodeKeyOf d = nodeKeyOf n \<Longrightarrow> leadsTo r s0 k n"
  by (auto simp: leadsTo_def nodeKeyOf_def publishedGraphVersionKey_def split: option.splits)

lemma graphInv_later:
  assumes "graphInv r s0 root st t" and "reach r s0" and "(commit r)\<^sup>*\<^sup>* t t'" shows "graphInv r s0 root st t'"
proof -
  have reach: "reach r t" using assms(1,2) by (auto simp: graphInv_def intro: reach_star)
  have "appendOnly t t'" using commits_keep [OF reach assms(3)] by simp
  with assms show ?thesis unfolding graphInv_def by (meson rtranclp_trans shownAs_later)
qed

lemma graphInv_omitted: "graphInv r s0 root st t \<Longrightarrow> graphInv r s0 root (st\<lparr>gs_Seen := k # gs_Seen st, gs_Omitted := k # gs_Omitted st\<rparr>) t"
  unfolding graphInv_def by auto

lemma graphInv_shared:
  "graphInv r s0 root st t \<Longrightarrow> n \<in> set (root # gs_Related st) \<Longrightarrow> leadsTo r s0 k n \<Longrightarrow> graphInv r s0 root (st\<lparr>gs_Seen := k # gs_Seen st\<rparr>) t"
  unfolding graphInv_def by auto

lemma graphInv_fresh:
  assumes inv: "graphInv r s0 root st t" and "leadsTo r s0 k p" "shownAs r s0 t p" and "length (gs_Related st) < maxGraphNodes"
    and "nodeKeyOf p \<notin> set (gs_Projected st)"
  shows "graphInv r s0 root (st\<lparr>gs_Seen := k # gs_Seen st, gs_Projected := nodeKeyOf p # gs_Projected st,
    gs_Related := gs_Related st @ [lightPlugin p], gs_Queue := q\<rparr>) t"
  using assms unfolding graphInv_def by auto

lemma visitRelation_inv:
  fixes w0 :: World
  assumes run: "visitRelation sv caller e st w = (Inr st', w')" and env: "peers sv" "reach (sv_Repo sv) (w_Store w0)" "sv_VersionManagement sv"
    and inv: "graphInv (sv_Repo sv) (w_Store w0) root st (w_Store w)"
  shows "graphInv (sv_Repo sv) (w_Store w0) root st' (w_Store w') \<and> gs_Relations st' = gs_Relations st \<and>
    insert (targetKeyOf e) (set (gs_Seen st)) \<subseteq> set (gs_Seen st')"
  using run
proof (cases rule: visitRelation_run)
  case seen
  with inv show ?thesis by simp
next
  case (omitted err)
  from runsD [OF publishedGraphDetail_moves [OF env(1)] omitted(3)] have "graphInv (sv_Repo sv) (w_Store w0) root st (w_Store w')"
    using graphInv_later [OF inv env(2)] by (simp add: moves_def)
  with omitted show ?thesis by (auto intro: graphInv_omitted)
next
  case (shared d)
  have w: "moves (sv_Repo sv) w0 w" using inv by (simp add: graphInv_def moves_def)
  from publishedGraphDetail_shown [OF shared(3) env w] have d: "leadsTo (sv_Repo sv) (w_Store w0) (targetKeyOf e) (d_Plugin d)"
    by (simp add: targetKeyOf_def)
  from shared(4) inv obtain n where n: "n \<in> set (root # gs_Related st)" "nodeKeyOf (d_Plugin d) = nodeKeyOf n"
    by (auto simp: graphInv_def)
  from runsD [OF publishedGraphDetail_moves [OF env(1)] shared(3)] have "graphInv (sv_Repo sv) (w_Store w0) root st (w_Store w')"
    using graphInv_later [OF inv env(2)] by (simp add: moves_def)
  from graphInv_shared [OF this n(1) leadsTo_shared [OF d n(2)]] shared(5) show ?thesis by auto
next
  case (fresh d)
  have w: "moves (sv_Repo sv) w0 w" using inv by (simp add: graphInv_def moves_def)
  from publishedGraphDetail_shown [OF fresh(3) env w] have d: "leadsTo (sv_Repo sv) (w_Store w0) (targetKeyOf e) (d_Plugin d)"
    "shownAs (sv_Repo sv) (w_Store w0) (w_Store w') (d_Plugin d)" by (simp_all add: targetKeyOf_def)
  from runsD [OF publishedGraphDetail_moves [OF env(1)] fresh(3)] have "graphInv (sv_Repo sv) (w_Store w0) root st (w_Store w')"
    using graphInv_later [OF inv env(2)] by (simp add: moves_def)
  from graphInv_fresh [OF this d fresh(5,4)] fresh(6) show ?thesis by auto
qed

lemma visitRelations_inv:
  fixes w0 :: World
  assumes "visitRelations sv caller es st w = (Inr st', w')" and "peers sv" "reach (sv_Repo sv) (w_Store w0)" "sv_VersionManagement sv"
    and "graphInv (sv_Repo sv) (w_Store w0) root st (w_Store w)"
  shows "graphInv (sv_Repo sv) (w_Store w0) root st' (w_Store w') \<and> gs_Relations st' = gs_Relations st \<and>
    targetKeyOf ` set es \<union> set (gs_Seen st) \<subseteq> set (gs_Seen st')"
  using assms(1,5)
proof (induction es arbitrary: st w)
  case (Cons e es)
  then obtain st1 w1 where "visitRelation sv caller e st w = (Inr st1, w1)" and rest: "visitRelations sv caller es st1 w1 = (Inr st', w')"
    by (auto simp: bindW_Inr)
  from visitRelation_inv [OF this(1) assms(2-4) Cons.prems(2)] Cons.IH [OF rest] show ?case by auto
qed (simp add: run_Inr)

lemma graphLoop_inv:
  fixes w0 :: World
  assumes "graphLoop sv caller st w = (Inr st', w')" and "peers sv" "reach (sv_Repo sv) (w_Store w0)" "sv_VersionManagement sv"
    and "graphInv (sv_Repo sv) (w_Store w0) root st (w_Store w)" and "targetKeyOf ` set (gs_Relations st) \<subseteq> set (gs_Seen st)"
  shows "graphInv (sv_Repo sv) (w_Store w0) root st' (w_Store w') \<and> targetKeyOf ` set (gs_Relations st') \<subseteq> set (gs_Seen st')"
  using assms
proof (induction sv caller st arbitrary: w rule: graphLoop.induct)
  case (1 sv caller st)
  show ?case
  proof (cases "gs_Queue st")
    case Nil
    with 1 show ?thesis by (simp add: graphLoop.simps run_Inr)
  next
    case (Cons d queue)
    let ?st = "st\<lparr>gs_Queue := queue, gs_Relations := gs_Relations st @ d_Relations d\<rparr>"
    from 1(2) Cons have few: "length (gs_Relations st) + length (d_Relations d) \<le> maxGraphEdges"
      by (subst (asm) graphLoop.simps) (auto simp: run_Inr split: if_splits)
    with 1(2) Cons have "bindW (visitRelations sv caller (d_Relations d) ?st) (graphLoop sv caller) w = (Inr st', w')"
      by (subst (asm) graphLoop.simps) simp
    then obtain st1 w1 where vis: "visitRelations sv caller (d_Relations d) ?st w = (Inr st1, w1)"
      and rest: "graphLoop sv caller st1 w1 = (Inr st', w')" by (auto simp: bindW_Inr)
    have "graphInv (sv_Repo sv) (w_Store w0) root ?st (w_Store w)" using 1(6) few by (auto simp: graphInv_def)
    from visitRelations_inv [OF vis 1(3-5) this] have st1: "graphInv (sv_Repo sv) (w_Store w0) root st1 (w_Store w1)"
      "targetKeyOf ` set (gs_Relations st1) \<subseteq> set (gs_Seen st1)" using 1(7) by auto
    show ?thesis by (rule 1(1) [OF Cons _ vis rest 1(3-5) st1]) (use few in simp)
  qed
qed


section \<open>A managed publication releases verified files\<close>

lemma ServiceManagedVersion_row:
  assumes run: "ServiceManagedVersion sv caller pid vid admin w = (Inr mv, w')" and env: "peers sv" "reach (sv_Repo sv) (w_Store w)"
  shows "vid \<noteq> '''' \<and> mv_Version mv \<in> set (versions (w_Store w')) \<and> v_PluginID (mv_Version mv) = pid \<and> v_ID (mv_Version mv) = vid \<and>
    moves (sv_Repo sv) w w' \<and> (admin \<longrightarrow> c_IsSystemAdmin caller)"
proof -
  from run obtain sc p rels w1 m where guard: "trimSpace vid \<noteq> ''''" and adm: "admin \<longrightarrow> c_IsSystemAdmin caller"
    and got: "getWithRelations sv sc pid w = (Inr (p, rels), w1)"
    and m: "GetManagedVersion (w_Store (arrive sv w1)) sc pid vid = Inr m"
    and check: "checkHistoricalRelations sv sc (v_Relations (mv_Version m)) (arrive sv w1) = (Inr (), w')" and mv: "mv_Version mv = mv_Version m"
    unfolding ServiceManagedVersion_def managedScope_def versionStore_def validateCaller_def parseStorageID_def
    by (auto simp: bindW_Inr run_Inr readW_Inr split: if_splits)
  have m1: "moves (sv_Repo sv) w w1" using runsD [OF getWithRelations_moves [OF env(1)] got] .
  have m2: "moves (sv_Repo sv) w (arrive sv w1)" using m1 env(1) by (auto simp: moves_def peers_def arrive_def intro: rtranclp_trans)
  have m3: "moves (sv_Repo sv) (arrive sv w1) w'" using runsD [OF checkHistorical_moves [OF env(1)] check] .
  have "reach (sv_Repo sv) (w_Store (arrive sv w1))" using m2 env(2) by (auto simp: moves_def intro: reach_star)
  with m3 have "appendOnly (w_Store (arrive sv w1)) (w_Store w')" using commits_keep by (simp add: moves_def)
  then have "mv_Version mv \<in> set (versions (w_Store w'))"
    using GetManagedVersion_rows [OF m] mv by (auto simp: appendOnly_def dest: set_mono_prefix)
  moreover have "vid \<noteq> ''''" using guard by (auto simp: trimSpace_Nil)
  ultimately show ?thesis using GetManagedVersion_rows [OF m] mv adm storeRun.run_trans [OF m2 m3] by simp
qed

text \<open>The live row of a plugin points at a released version with files that verified.\<close>

definition releasesVerified :: "Service \<Rightarrow> Plugin \<Rightarrow> Store \<Rightarrow> bool" where
  "releasesVerified sv p t \<longleftrightarrow>
     (\<exists>v \<in> set (versions t). v_PluginID v = p_ID p \<and> (\<exists>label. releaseRow t (p_ID p) (v_ID v) label) \<and>
        (\<forall>q \<in> set (plugins t). p_ID q = p_ID p \<and> p_DeletedAt q = None \<longrightarrow> p_PublishedVersionID q = Some (v_ID v)) \<and>
        (\<exists>n. verifyVersionFiles (sv_Repo sv) (sv_Files sv) p (v_Package v) (v_AttachmentKeys v) = Inr n))"

lemma PublishManaged_verified:
  assumes v: "v \<in> set (versions (w_Store w))" "v_PluginID v = p_ID p" "v_ID v \<noteq> ''''" and reach: "reach (sv_Repo sv) (w_Store w)" "peers sv"
    and files: "verifyVersionFiles (sv_Repo sv) (sv_Files sv) p (v_Package v) (v_AttachmentKeys v) = Inr n"
    and com: "commitW sv (PublishManaged (sv_Repo sv) sc pub) w = (Inr out, w')"
    and pub: "pp_PluginID pub = p_ID p" "pp_ExpectedVersionID pub = v_ID v" and ids: "\<And>n. idAt (sv_Repo sv) n \<noteq> ''''"
  shows "releasesVerified sv p (w_Store w')"
proof -
  let ?s = "w_Store (arrive sv w)"
  from com have run: "PublishManaged (sv_Repo sv) sc pub ?s = Inr (out, w_Store w')" by (auto simp: commitW_Inr)
  have ex: "pp_ExpectedVersionID pub \<noteq> ''''" using pub v(3) by simp
  from PublishManaged_released [OF run ids ex] obtain draft x label where draft: "versionRow ?s (p_ID p) (v_ID v) = Some draft"
    and x: "x \<in> set (versions (w_Store w'))" "v_PluginID x = p_ID p" "sameContent x draft" "releaseRow (w_Store w') (p_ID p) (v_ID x) label"
      "\<forall>q \<in> set (plugins (w_Store w')). p_ID q = p_ID p \<and> p_DeletedAt q = None \<longrightarrow> p_PublishedVersionID q = Some (v_ID x)"
    unfolding pub by blast
  have "(commit (sv_Repo sv))\<^sup>*\<^sup>* (w_Store w) ?s" using reach(2) by (simp add: peers_def arrive_def)
  from commits_keep [OF reach(1) this] v(1) have "v \<in> set (versions ?s)" by (auto simp: appendOnly_def dest: set_mono_prefix)
  moreover have "distinct (map v_ID (versions ?s))" using reach_ok [OF arrive_reach [OF reach(2,1)]] by (simp add: keysOK_def)
  ultimately have "draft = v" using versionRow_Some [OF draft] by (auto simp: distinct_map dest: inj_onD)
  with x files show ?thesis unfolding releasesVerified_def sameContent_def by metis
qed

lemma AdminDetail_row:
  assumes "AdminDetail sv caller pid b w = (Inr d, w')" and "peers sv"
  obtains q where "rowIn (sv_Repo sv) (w_Store w) q" and "p_ID q = pid" and "d_Plugin d = scanPluginRow True None q" and "moves (sv_Repo sv) w w'"
proof -
  from assms(1) obtain p rels w1 where got: "getWithRelations sv (adminScope caller) pid w = (Inr (p, rels), w1)" and d: "d_Plugin d = p"
    unfolding AdminDetail_def parseStorageID_def by (auto simp: bindW_Inr run_Inr plainDetail_def split: prod.splits)
  have "runs (moves (sv_Repo sv)) (AdminDetail sv caller pid b)"
    unfolding AdminDetail_def parseStorageID_def dependencyIssues_def
    by (intro storeRun.runs_rules readW_moves storeW_moves getWithRelations_moves assms)
  from runsD [OF this assms(1)] show thesis using got d that by (metis getWithRelations_row [OF _ assms(2) storeRun.run_refl])
qed

lemma AdminPublishVersion_verified:
  assumes run: "AdminPublishVersion sv caller pid w = (Inr d, w')" and env: "peers sv" "reach (sv_Repo sv) (w_Store w)"
    and ids: "\<And>n. idAt (sv_Repo sv) n \<noteq> ''''"
  shows "c_IsSystemAdmin caller \<and> (\<exists>q. rowIn (sv_Repo sv) (w_Store w) q \<and> p_ID q = pid \<and> releasesVerified sv (scanPluginRow True None q) (w_Store w'))"
proof -
  let ?pub = "\<lambda>base mv. \<lparr>pp_ExpectedDraftRevision = '''', pp_Version = '''', pp_ExpectedVersionID = v_ID (mv_Version mv),
    pp_PluginID = p_ID (d_Plugin base), pp_Operator = operatorOf caller\<rparr>"
  from run obtain base w1 vid mv w2 n p where adm: "c_IsSystemAdmin caller" and det: "AdminDetail sv caller pid True w = (Inr base, w1)"
    and mv: "ServiceManagedVersion sv caller pid vid True w1 = (Inr mv, w2)"
    and files: "verifyVersionFiles (sv_Repo sv) (sv_Files sv) (d_Plugin base) (v_Package (mv_Version mv)) (v_AttachmentKeys (mv_Version mv)) = Inr n"
    and com: "commitW sv (PublishManaged (sv_Repo sv) (adminScope caller) (?pub base mv)) w2 = (Inr p, w')"
    unfolding AdminPublishVersion_def versionStore_def Let_def by (auto simp: bindW_Inr run_Inr split: option.splits)
  from det obtain q where q: "rowIn (sv_Repo sv) (w_Store w) q" "p_ID q = pid" "d_Plugin base = scanPluginRow True None q"
    and m1: "moves (sv_Repo sv) w w1" by (rule AdminDetail_row [OF _ env(1)])
  have r1: "reach (sv_Repo sv) (w_Store w1)" using m1 env(2) by (auto simp: moves_def intro: reach_star)
  note row = ServiceManagedVersion_row [OF mv env(1) r1]
  have r2: "reach (sv_Repo sv) (w_Store w2)" using row r1 by (auto simp: moves_def intro: reach_star)
  have "releasesVerified sv (d_Plugin base) (w_Store w')"
    by (rule PublishManaged_verified [OF _ _ _ r2 env(1) files com _ _ ids]) (use row q in simp_all)
  with adm q show ?thesis by auto
qed

lemma publishPrivate_verified:
  assumes run: "publishPrivate sv caller base version revision w = (Inr d, w')" and env: "peers sv" "reach (sv_Repo sv) (w_Store w)"
    and ids: "\<And>n. idAt (sv_Repo sv) n \<noteq> ''''" and managed: "sv_VersionManagement sv" "p_Type (d_Plugin base) \<noteq> PluginTypeConnector"
  shows "releasesVerified sv (d_Plugin base) (w_Store w')"
proof -
  let ?pub = "\<lambda>mv. \<lparr>pp_ExpectedDraftRevision = revision, pp_Version = version, pp_ExpectedVersionID = v_ID (mv_Version mv),
    pp_PluginID = p_ID (d_Plugin base), pp_Operator = operatorOf caller\<rparr>"
  from run managed obtain vid mv w1 n p where mv: "ServiceManagedVersion sv caller (p_ID (d_Plugin base)) vid False w = (Inr mv, w1)"
    and files: "verifyVersionFiles (sv_Repo sv) (sv_Files sv) (d_Plugin base) (v_Package (mv_Version mv)) (v_AttachmentKeys (mv_Version mv)) = Inr n"
    and com: "commitW sv (PublishManaged (sv_Repo sv) (scope caller) (?pub mv)) w1 = (Inr p, w')"
    unfolding publishPrivate_def versionStore_def Let_def by (auto simp: bindW_Inr run_Inr split: option.splits)
  note row = ServiceManagedVersion_row [OF mv env]
  have r1: "reach (sv_Repo sv) (w_Store w1)" using row env(2) by (auto simp: moves_def intro: reach_star)
  show ?thesis by (rule PublishManaged_verified [OF _ _ _ r1 env(1) files com _ _ ids]) (use row in simp_all)
qed

text \<open>C40: a managed publication releases files that were verified. After the direct publication of an administrator, or
  that of a private plugin by its owner, the plugin points at a released version whose attachments and legacy
  objects were read back, within the limits and the namespace of the plugin, with the sizes and digests they declare,
  whatever else commits between the check and the publication.\<close>

theorem managed_publication_verified:
  assumes env: "peers sv" "reach (sv_Repo sv) (w_Store w)" and ids: "\<And>n. idAt (sv_Repo sv) n \<noteq> ''''"
  shows "(AdminPublishVersion sv caller pid w = (Inr d, w') \<longrightarrow> c_IsSystemAdmin caller \<and>
      (\<exists>q. rowIn (sv_Repo sv) (w_Store w) q \<and> p_ID q = pid \<and> releasesVerified sv (scanPluginRow True None q) (w_Store w'))) \<and>
    (publishPrivate sv caller base version revision w = (Inr d, w') \<and> sv_VersionManagement sv \<and> p_Type (d_Plugin base) \<noteq> PluginTypeConnector \<longrightarrow>
      releasesVerified sv (d_Plugin base) (w_Store w'))"
  using AdminPublishVersion_verified [OF _ env ids] publishPrivate_verified [OF _ env ids] by blast

section \<open>A sample market\<close>

text \<open>A skill and an expert that pins its release, both created and published by their owner.\<close>

definition marketSkill :: Plugin where
  "marketSkill = draftPlugin\<lparr>p_ListingState := PluginListingStateDraft, p_CurrentVersion := Some ''1.0.0'',
     p_Manifest := Some (JObj [(''plugin_name'', JStr ''tool'')])\<rparr>"

definition marketPublish :: "string \<Rightarrow> Store \<Rightarrow> PublishParams" where
  "marketPublish i s = \<lparr>pp_ExpectedDraftRevision = '''', pp_Version = '''', pp_ExpectedVersionID = v_ID (last (versions s)), pp_PluginID = i,
     pp_Operator = sampleOperator\<rparr>"

definition skillStore :: Store where
  "skillStore = stateAfter (Create managedRepo sampleOwner (sampleMutation marketSkill) emptyStore)"

definition toolStore :: Store where
  "toolStore = stateAfter (PublishManaged managedRepo sampleOwner (marketPublish ''d'' skillStore) skillStore)"

definition marketExpert :: Mutation where
  "marketExpert = (sampleMutation (marketSkill\<lparr>p_ID := ''e'', p_Name := ''e'', p_Type := PluginTypeExpert\<rparr>))
     \<lparr>m_Relations := [(sampleEdge ''e'' ''d'' ''expert_skill'')\<lparr>r_TargetVersionID := Some (v_ID (last (versions skillStore))), r_Data := None\<rparr>]\<rparr>"

definition expertStore :: Store where
  "expertStore = stateAfter (Create managedRepo sampleOwner marketExpert toolStore)"

definition marketStore :: Store where
  "marketStore = stateAfter (PublishManaged managedRepo sampleOwner (marketPublish ''e'' expertStore) expertStore)"

definition marketService :: Service where
  "marketService = sampleService\<lparr>sv_Repo := managedRepo, sv_VersionManagement := True\<rparr>"

definition marketWorld :: "Store \<Rightarrow> World" where
  "marketWorld s = \<lparr>w_Store = s, w_Turn = 0, w_Log = []\<rparr>"

lemma market_reach: "reach managedRepo skillStore" "reach managedRepo marketStore"
proof -
  have "\<not> isl (Create managedRepo sampleOwner (sampleMutation marketSkill) emptyStore)" by code_simp
  from stateAfter_run [OF this] have "commit managedRepo emptyStore skillStore" unfolding skillStore_def by (elim exE, intro commit.Create)
  then show skill: "reach managedRepo skillStore" by (rule reach.step [OF reach.init])
  have "\<not> isl (PublishManaged managedRepo sampleOwner (marketPublish ''d'' skillStore) skillStore)" by code_simp
  from stateAfter_run [OF this] have "commit managedRepo skillStore toolStore" unfolding toolStore_def by (elim exE, intro commit.PublishManaged)
  with skill have tool: "reach managedRepo toolStore" by (rule reach.step)
  have "\<not> isl (Create managedRepo sampleOwner marketExpert toolStore)" by code_simp
  from stateAfter_run [OF this] have "commit managedRepo toolStore expertStore" unfolding expertStore_def by (elim exE, intro commit.Create)
  with tool have expert: "reach managedRepo expertStore" by (rule reach.step)
  have "\<not> isl (PublishManaged managedRepo sampleOwner (marketPublish ''e'' expertStore) expertStore)" by code_simp
  from stateAfter_run [OF this] have "commit managedRepo expertStore marketStore" unfolding marketStore_def by (elim exE, intro commit.PublishManaged)
  with expert show "reach managedRepo marketStore" by (rule reach.step)
qed

lemma market_service: "peers marketService" "sv_Repo marketService = managedRepo" "sv_VersionManagement marketService" "idAt managedRepo n \<noteq> ''''"
  by (simp_all add: peers_def marketService_def sampleService_def managedRepo_def)


theorem managed_publication_verified_witness:
  "\<exists>d w' q. AdminPublishVersion marketService (sampleCaller\<lparr>c_IsSystemAdmin := True\<rparr>) ''d'' (marketWorld skillStore) = (Inr d, w') \<and>
     length (w_Log w') = 1 \<and> p_ID q = ''d'' \<and> releasesVerified marketService (scanPluginRow True None q) (w_Store w')"
proof -
  let ?run = "AdminPublishVersion marketService (sampleCaller\<lparr>c_IsSystemAdmin := True\<rparr>) ''d'' (marketWorld skillStore)"
  have "\<not> isl (fst ?run) \<and> length (w_Log (snd ?run)) = 1" by code_simp
  then obtain d w' where run: "?run = (Inr d, w')" and log: "length (w_Log w') = 1" by (cases ?run; cases "fst ?run") auto
  have reach: "reach (sv_Repo marketService) (w_Store (marketWorld skillStore))" using market_reach(1) market_service(2) by (simp add: marketWorld_def)
  have ids: "idAt (sv_Repo marketService) n \<noteq> ''''" for n using market_service(2,4) by simp
  from managed_publication_verified [OF market_service(1) reach ids] run log show ?thesis by blast
qed

end
