(* ===== verification/Spec2Isabelle.thy ===== *)
theory Spec2Isabelle
  imports Shelves Ordering Attempts Published
begin

text \<open>
  \<^bold>\<open>Verification of the plugin marketplace.\<close>

  The marketplace keeps \<^emph>\<open>plugins\<close> (skills, connectors, experts, expert teams) of tenants called Spaces. A plugin has a
  draft row, edges to the plugins it uses, immutable \<^emph>\<open>versions\<close>, and \<^emph>\<open>releases\<close> that name a version under a label.
  What the readers of a Space see is decided by visibility and listing state; what becomes visible passes a
  review queue. The code that decides this is the plugin repository (\<open>src/internal/repository/plugin\<close>, one SQL
  transaction per method), its data model (\<open>src/internal/model\<close>) and the plugin service above it
  (\<open>src/internal/service/plugin\<close>), which adds authorisation, object storage and the protocols with the messaging server
  and the agent fleet. These are modelled here.

  \<^bold>\<open>How code becomes a definition.\<close> A table is a list of rows, a row is a record with the columns of the table as
  fields, the database is the record \<open>Store\<close>. A repository method is a transaction \<open>Store \<Rightarrow> RepoError + 'a \<times> Store\<close>: an
  error leaves the store as it was (rollback), a result comes with the committed store. A statement is an operation
  of the transaction monad of \<open>Prelude\<close>; a method is the sequence of its statements, with every guard and early return.
  Names follow the source; where a service method has the name of the repository method it calls, it is prefixed
  with \<open>Service\<close>. Clock, id generator, digests and Unicode tables are arguments in the record \<open>Repo\<close>. A read outside a
  transaction takes one store per statement, since other requests may commit between two of them. A
  service method is a \<open>run\<close>: each of its statements sees what others committed before, can fail, and can lose its
  answer after it has committed.

  \<^bold>\<open>Theories and sources\<close> (repository files unless a directory is given).
  \<^item> \<open>Prelude\<close>: the transaction monad, the locale \<open>tx_frame\<close>, tables, strings of Go's library.
  \<^item> \<open>Versions\<close>, \<open>Ordering\<close>: \<open>model/version.go\<close>, the two orders of release labels and their lexicographic reference.
  \<^item> \<open>Catalog\<close>, \<open>Store\<close>: the rows and enumerations of \<open>model\<close>, the database, \<open>repo.go\<close>, audit, placement and ownership statements.
  \<^item> \<open>Graph\<close>: embedded children and the suspension cascade (\<open>review.go\<close>, \<open>dependency_suspension.go\<close>).
  \<^item> \<open>Documents\<close>: JSON as \<open>encoding/json\<close> decodes it, names (\<open>model/plugin_name.go\<close>, \<open>create_name.go\<close>), artifact keys
    (\<open>artifactscope/scope.go\<close>, \<open>storage/immutable.go\<close>), the artifact inventory of a version.
  \<^item> \<open>References\<close>, \<open>Snapshots\<close>, \<open>Incoming\<close>: \<open>references.go\<close>, \<open>retained_draft_references.go\<close>, \<open>reference_compatibility.go\<close>,
    relation synchronisation of \<open>write.go\<close>, \<open>version_snapshot.go\<close>.
  \<^item> \<open>Listing\<close>, \<open>Releases\<close>: \<open>listing.go\<close>, \<open>version_management.go\<close>, \<open>dependency_availability.go\<close>, recovery of suspended plugins.
  \<^item> \<open>Reviews\<close>, \<open>Approval\<close>: \<open>review.go\<close>, \<open>review_policy.go\<close>, \<open>version_review.go\<close>.
  \<^item> \<open>Planning\<close>, \<open>Visibility\<close>: \<open>visibility_plan.go\<close>, \<open>visibility.go\<close>, \<open>visibility_group.go\<close>, \<open>visibility_embedded.go\<close>.
  \<^item> \<open>Writes\<close>: create, update, rebuild, rate and delete of \<open>write.go\<close>.
  \<^item> \<open>Scenes\<close>, \<open>Console\<close>, \<open>Shelves\<close>: \<open>scene.go\<close>, \<open>admin_category.go\<close>, the services \<open>scenes.go\<close> and \<open>categories.go\<close>, and what
    they guarantee to the other transactions.
  \<^item> \<open>Reads\<close>, \<open>Diagnostics\<close>, \<open>Revisions\<close>: \<open>read.go\<close>, \<open>history.go\<close>, \<open>tags.go\<close>, \<open>install_read.go\<close>, \<open>graph_review.go\<close>, the
    diagnostics of \<open>dependency_availability.go\<close>, \<open>saved_version.go\<close>, \<open>reference_reads.go\<close> and the version reads.
  \<^item> \<open>Reminders\<close>: \<open>dependency_updates.go\<close>, \<open>dependency_update_publish.go\<close>.
  \<^item> \<open>System\<close>: all transactions of the database as one step relation, its reachable stores and runs.
  \<^item> \<open>Attempts\<close>: \<open>install_attempt.go\<close>, the dispatch of \<open>service/plugin/install_attempt.go\<close> and its protocol with a fleet.
  \<^item> \<open>Files\<close>: \<open>service/plugin/version_management.go\<close> and its document helpers, the files behind a version.
  \<^item> \<open>Decisions\<close>: \<open>service/plugin/review.go\<close>, \<open>review_policy.go\<close>, the takedown of \<open>listing.go\<close>: decisions of reviewers, automatic
    approval, cleanup of objects, the callback of an approval card.
  \<^item> \<open>Published\<close>: \<open>service/plugin/version_management.go\<close>, details and graphs of \<open>service.go\<close>, \<open>visibility.go\<close>, reads of
    \<open>references.go\<close>: released content as readers see it, and publications that verify files first.

  \<^bold>\<open>What is shown.\<close>
  \<^item> \<^emph>\<open>Nothing reaches readers unreviewed\<close>: saves, audience changes and dependency updates of tenants, publication without
    review, and the release of exactly what was confirmed or approved.
  \<^item> \<^emph>\<open>Graphs stay consistent\<close>: validated reference trees are closed, a takedown suspends all that depends on it, a
    removal guard protects published consumers, audience plans are closed and complete, deletion leaves no orphans.
  \<^item> \<^emph>\<open>History\<close>: audit rows, versions, releases and receipts are only appended, decided requests never change, keys stay
    unique in every reachable store; the review queue refines an abstract register.
  \<^item> \<^emph>\<open>Protocols\<close>: a card event has one durable answer, only administrators of the Space decide by card, an automatic
    approval ends decided or announced, a failed installation was never committed remotely.
  \<^item> \<^emph>\<open>Reads\<close>: bounded, closed, within the caller's audience, independent of drafts of others, in agreement with the
    validations of a save; diagnostics agree with the catalog.
  \<^item> \<^emph>\<open>Files\<close>: a verified version consists of the bytes its digests declare, in its own namespace; cleanup deletes only
    what nothing uses.
  \<^item> \<^emph>\<open>Published content\<close>: a reader's graph is bounded and closed and shows released versions; an administrator releases
    only verified files.

  \<^bold>\<open>Interfaces.\<close> The locale \<open>tx_frame\<close> is the contract of a relation between stores that every statement of a
  transaction keeps; its interpretations (tables touched, columns kept, append-only history, queue, ledger, shelf,
  audience, exposure and others) carry a relation through whole methods. \<open>run_frame\<close> is the same contract for
  service runs, \<open>simulation\<close> that of a refinement (interpreted for the review queue and its register), \<open>label_order\<close> that
  of a strict order on labels (interpreted for release labels).

  \<^bold>\<open>Loops and bounds.\<close> Loops over rows are structural recursion. The suspension cascade runs with \<open>maxGraphNodes + 2\<close>
  rounds, the searches of a plan with \<open>maxGraphNodes + 1\<close>, the propagation of an audience with a bound
  from the number of edges; each is proved never to run out (\<open>suspendDelistedDependents_total\<close>, \<open>VisibilityPlan_total\<close>,
  \<open>syncVisibilityEmbeddedAudience_total\<close>), because the code stops at \<open>maxGraphNodes\<close> distinct nodes or marks what it visited.
  The search of a published graph is a total function: each node it appends takes one of \<open>maxGraphNodes\<close> places.

  \<^bold>\<open>Conventions.\<close> A JSON column is its value (\<open>None\<close> where the bytes are no JSON); strings are UTF-8 bytes and
  identifiers are compared exactly, not by a collation. A missing snapshot, a duplicate key and a check violation reach
  the caller as errors of the driver (\<open>ErrSnapshotMissing\<close>, \<open>ErrDuplicateKey\<close>, \<open>ErrCheckViolation\<close>), a nil
  dereference is an error value. An update reports the rows its condition matches and its assignment changes, as the driver does. The unique index on
  names is not enforced beyond the check the code makes, and the ids the generator gives to new placements are assumed new.
  A transaction is atomic and isolated; deadlocks are not modelled, and neither are timeouts inside a transaction. The table of
  skipped reminders is kept beside the \<open>Store\<close>, and the submission of dependency updates is not a step of \<open>System\<close>. In the
  protocols the answers of the messaging server and of the fleet are arguments, with the documented behaviour
  as hypotheses where a theorem needs it.

  \<^bold>\<open>Not modelled.\<close> The rest of the service layer (\<open>service.go\<close>, \<open>container.go\<close>, \<open>import.go\<close>, \<open>submitReview\<close> with
  \<open>freezeSubmission\<close>): it canonicalises documents with a plugin library outside the repository and moves files between
  archives and object storage. HTTP handlers, middleware and routers: decoding and glue. The legacy services for skills,
  experts and MCP servers, with their migrations and command line tools: they read tables the plugin tables replace.
  Object storage, notification client, configuration and logging: I/O. Metrics and the ranking formula
  of lists: an argument of the reads.
\<close>

end
